(* ===== verification/Prelude.thy ===== *)
theory Prelude
  imports Main "HOL-Library.Word" "HOL-Library.Char_ord" "HOL-Library.List_Lexorder"
    "HOL-Library.Product_Lexorder"
begin

text \<open>
  Shared vocabulary of the development: the machine integers, results, times and byte strings that
  the Rust sources use, with the lemmas about them that more than one component needs.

  \<^item> Rust's fixed-width unsigned integers are words; \<open>+\<close> on them wraps, as it does in the release
    profile (the workspace sets no \<open>overflow-checks\<close>).
  \<^item> \<open>Result<T, E>\<close> is \<open>'e + 'a\<close> (\<open>Inl\<close> the error), with the \<open>?\<close> operator as \<open>rbind\<close>.
  \<^item> \<open>DateTime<Utc>\<close> and \<open>Duration\<close> are integers counting nanoseconds.
  \<^item> \<open>String\<close> is the list of its UTF-8 bytes, so \<open>length\<close> is Rust's \<open>len()\<close>.
\<close>

type_synonym u8 = "8 word"
type_synonym u32 = "32 word"
type_synonym u64 = "64 word"

named_theorems result_simps \<open>equations of the result type\<close>
named_theorems inv_intros \<open>introduction rules for the component invariants\<close>

section \<open>Results\<close>

definition rbind :: "'e + 'a \<Rightarrow> ('a \<Rightarrow> 'e + 'b) \<Rightarrow> 'e + 'b" where
  "rbind x f = (case x of Inl e \<Rightarrow> Inl e | Inr a \<Rightarrow> f a)"

lemma rbind_simps [simp, result_simps]:
  "rbind (Inl e) f = Inl e"
  "rbind (Inr a) f = f a"
  by (simp_all add: rbind_def)

lemma rbind_eq_Inr [result_simps]:
  "rbind x f = Inr b \<longleftrightarrow> (\<exists>a. x = Inr a \<and> f a = Inr b)"
  by (cases x) auto

lemma rbind_eq_Inl [result_simps]:
  "rbind x f = Inl e \<longleftrightarrow> x = Inl e \<or> (\<exists>a. x = Inr a \<and> f a = Inl e)"
  by (cases x) auto

text \<open>A \<open>for\<close> loop whose body may return early with an error.\<close>

fun rfold :: "('a \<Rightarrow> 's \<Rightarrow> 'e + 's) \<Rightarrow> 'a list \<Rightarrow> 's \<Rightarrow> 'e + 's" where
  "rfold f [] s = Inr s"
| "rfold f (x # xs) s = rbind (f x s) (rfold f xs)"

lemma rfold_append: "rfold f (xs @ ys) s = rbind (rfold f xs s) (rfold f ys)"
  by (induction xs arbitrary: s) (auto simp: rbind_def split: sum.splits)

lemma rfold_invariant:
  assumes "rfold f xs s = Inr s'" and "P s"
    and "\<And>x s s'. x \<in> set xs \<Longrightarrow> f x s = Inr s' \<Longrightarrow> P s \<Longrightarrow> P s'"
  shows "P s'"
  using assms
proof (induction xs arbitrary: s)
  case Nil
  then show ?case by simp
next
  case (Cons x xs)
  from Cons.prems(1) obtain s1 where s1: "f x s = Inr s1" "rfold f xs s1 = Inr s'"
    by (auto simp: rbind_eq_Inr)
  have "P s1" using Cons.prems(2) s1(1) Cons.prems(3) [of x s s1] by simp
  then show ?case using Cons.IH [OF s1(2)] Cons.prems(3) by (meson list.set_intros(2))
qed

section \<open>Lists\<close>

lemma find_None_iff': "find p xs = None \<longleftrightarrow> (\<forall>x \<in> set xs. \<not> p x)"
  by (auto simp: find_None_iff)

lemma find_SomeD: "find p xs = Some x \<Longrightarrow> p x \<and> x \<in> set xs"
  by (induction xs) (auto split: if_splits)

section \<open>Time\<close>

type_synonym time = int

definition nanos_per_sec :: int where "nanos_per_sec = 1000000000"

definition secs :: "int \<Rightarrow> int" where "secs n = n * nanos_per_sec"

text \<open>\<open>chrono::Duration::num_seconds\<close> truncates towards zero.\<close>

definition num_seconds :: "int \<Rightarrow> int" where
  "num_seconds d = (if 0 \<le> d then d div nanos_per_sec else - ((- d) div nanos_per_sec))"

text \<open>\<open>as u64\<close> on an \<open>i64\<close> keeps the two's complement bits.\<close>

definition as_u64 :: "int \<Rightarrow> u64" where "as_u64 i = word_of_int i"

lemma num_seconds_nonneg: "0 \<le> d \<Longrightarrow> 0 \<le> num_seconds d"
  by (simp add: num_seconds_def nanos_per_sec_def)

lemma num_seconds_mono: "0 \<le> d \<Longrightarrow> d \<le> e \<Longrightarrow> num_seconds d \<le> num_seconds e"
  by (simp add: num_seconds_def nanos_per_sec_def zdiv_mono1)

lemma num_seconds_secs [simp]: "num_seconds (secs n) = n"
proof (cases "0 \<le> n")
  case False
  have "- (n * nanos_per_sec) = (- n) * nanos_per_sec" by simp
  with False show ?thesis by (simp add: num_seconds_def secs_def nanos_per_sec_def)
qed (simp add: num_seconds_def secs_def nanos_per_sec_def)

lemma num_seconds_less_iff: "0 \<le> d \<Longrightarrow> num_seconds d < n \<longleftrightarrow> d < secs n"
  by (auto simp: num_seconds_def secs_def nanos_per_sec_def div_less_iff_less_mult)

lemma uint_as_u64: "0 \<le> i \<Longrightarrow> i < 2 ^ 64 \<Longrightarrow> uint (as_u64 i) = i"
  by (simp add: as_u64_def uint_word_of_int)

section \<open>Words\<close>

lemma unat_inc:
  fixes a :: "'l :: len word"
  assumes "a < b"
  shows "unat (a + 1) = unat a + 1"
proof -
  have "unat a < unat b" using assms by (simp add: word_less_nat_alt)
  moreover have "unat b < 2 ^ LENGTH('l)" by (rule unsigned_less)
  ultimately have "unat a + 1 < 2 ^ LENGTH('l)" by linarith
  moreover have "unat (1 :: 'l word) = 1" by simp
  ultimately show ?thesis using unat_add_lem [of a 1] by simp
qed

end
