(* ===== verification/JsonValue.thy ===== *)
theory JsonValue
  imports Prelude
begin

text \<open>
  JSON values as the sources use them (\<open>serde_json::Value\<close>) and the extraction helpers at the end of
  \<open>crates/oneshim-storage/src/sync_merger.rs\<close>. An object is an association list with at most one
  binding per key that counts, the first.

  A floating-point number is only carried from a JSON document to a database column and back, never
  computed with, so \<open>f64\<close> keeps either its bits or the integer it was converted from by
  \<open>as f64\<close>.
\<close>

datatype f64 = F64_bits u64 | F64_of_int int

datatype jnum = PosInt u64 | NegInt int | Float f64

datatype json =
    JNull
  | JBool bool
  | JNumber jnum
  | JString string
  | JArray "json list"
  | JObject "(string \<times> json) list"

definition i64_max :: int where "i64_max = 2 ^ 63 - 1"

fun json_get :: "json \<Rightarrow> string \<Rightarrow> json option" where
  "json_get (JObject kvs) k = map_of kvs k"
| "json_get _ k = None"

fun as_str :: "json \<Rightarrow> string option" where
  "as_str (JString s) = Some s"
| "as_str _ = None"

fun as_i64 :: "json \<Rightarrow> int option" where
  "as_i64 (JNumber (PosInt n)) = (if uint n \<le> i64_max then Some (uint n) else None)"
| "as_i64 (JNumber (NegInt i)) = Some i"
| "as_i64 _ = None"

fun json_as_u64 :: "json \<Rightarrow> u64 option" where
  "json_as_u64 (JNumber (PosInt n)) = Some n"
| "json_as_u64 _ = None"

fun as_f64 :: "json \<Rightarrow> f64 option" where
  "as_f64 (JNumber (PosInt n)) = Some (F64_of_int (uint n))"
| "as_f64 (JNumber (NegInt i)) = Some (F64_of_int i)"
| "as_f64 (JNumber (Float f)) = Some f"
| "as_f64 _ = None"

section \<open>Extraction helpers of the merger\<close>

datatype missing_kind = MString | MI64 | MU64 | MF64

text \<open>Every failure of this layer is \<open>StorageError::Internal\<close>; the constructors keep what its message
  says: a missing field, or a failed statement and the reason SQLite gave.\<close>

datatype sql_error =
    NotNullViolation string
  | UniqueViolation string
  | ForeignKeyViolation string
  | IntegerOutOfRange
  | ColumnConversion string
  | JsonUnsupported string

datatype StorageError =
    MissingField missing_kind string
  | SqlFailed string sql_error

definition ok_or :: "'a option \<Rightarrow> 'e \<Rightarrow> 'e + 'a" where
  "ok_or x e = (case x of None \<Rightarrow> Inl e | Some a \<Rightarrow> Inr a)"

lemma ok_or_simps [simp, result_simps]:
  "ok_or None e = Inl e" "ok_or (Some a) e = Inr a"
  by (simp_all add: ok_or_def)

lemma ok_or_eq_Inr [simp, result_simps]: "ok_or x e = Inr a \<longleftrightarrow> x = Some a"
  by (cases x) auto

definition json_str :: "json \<Rightarrow> string \<Rightarrow> StorageError + string" where
  "json_str v key = ok_or (Option.bind (json_get v key) as_str) (MissingField MString key)"

definition json_str_opt :: "json \<Rightarrow> string \<Rightarrow> string option" where
  "json_str_opt v key = Option.bind (json_get v key) as_str"

definition json_str_or_default :: "json \<Rightarrow> string \<Rightarrow> string \<Rightarrow> string" where
  "json_str_or_default v key d = case_option d id (Option.bind (json_get v key) as_str)"

definition json_i64 :: "json \<Rightarrow> string \<Rightarrow> StorageError + int" where
  "json_i64 v key = ok_or (Option.bind (json_get v key) as_i64) (MissingField MI64 key)"

definition json_i64_or_default :: "json \<Rightarrow> string \<Rightarrow> int \<Rightarrow> int" where
  "json_i64_or_default v key d = case_option d id (Option.bind (json_get v key) as_i64)"

definition json_u64 :: "json \<Rightarrow> string \<Rightarrow> StorageError + u64" where
  "json_u64 v key = ok_or (Option.bind (json_get v key) json_as_u64) (MissingField MU64 key)"

definition json_u32 :: "json \<Rightarrow> string \<Rightarrow> StorageError + u32" where
  "json_u32 v key = rbind (json_u64 v key) (\<lambda>n. Inr (ucast n))"

definition json_f64 :: "json \<Rightarrow> string \<Rightarrow> StorageError + f64" where
  "json_f64 v key = ok_or (Option.bind (json_get v key) as_f64) (MissingField MF64 key)"

end
