(* ===== verification/SqlModel.thy ===== *)
theory SqlModel
  imports JsonValue
begin

text \<open>
  The part of SQLite that the sync code relies on: tables as lists of rows, \<open>INSERT\<close>, \<open>UPDATE\<close> and
  \<open>DELETE\<close> with the constraints the migrations declare (\<open>NOT NULL\<close>, \<open>DEFAULT\<close>, \<open>PRIMARY KEY\<close> or
  \<open>UNIQUE\<close>, \<open>FOREIGN KEY\<close>), and the schemas of the synced tables as the migrations
  \<open>crates/oneshim-storage/src/migration/\<close> leave them. Whether foreign keys are enforced is a setting
  of the linked SQLite library and so a field of the database.
\<close>

datatype sqlval = SNull | SInt int | SReal f64 | SText string | SBlob "u8 list"

type_synonym row = "string \<Rightarrow> sqlval"

datatype coldefault = NoDefault | DefaultVal sqlval | DefaultNow

record coldef =
  col_name :: string
  col_notnull :: bool
  col_default :: coldefault

record table_schema =
  columns :: "coldef list"
  unique_cols :: "string list"
  foreign_keys :: "(string \<times> string) list"   \<comment> \<open>column, table whose \<open>id\<close> it references\<close>
  autoincrement :: bool                        \<comment> \<open>\<open>id INTEGER PRIMARY KEY AUTOINCREMENT\<close>\<close>

record tbl =
  trows :: "row list"
  tseq :: int                                  \<comment> \<open>last automatic \<open>id\<close> handed out\<close>

record sdb =
  tables :: "string \<Rightarrow> tbl"
  fk_on :: bool

definition rows_of :: "sdb \<Rightarrow> string \<Rightarrow> row list" where
  "rows_of db t = trows (tables db t)"

definition set_rows :: "string \<Rightarrow> row list \<Rightarrow> sdb \<Rightarrow> sdb" where
  "set_rows t rs db = db\<lparr>tables := (tables db)(t := (tables db t)\<lparr>trows := rs\<rparr>)\<rparr>"

lemma rows_of_set_rows: "rows_of (set_rows t rs db) t' = (if t' = t then rs else rows_of db t')"
  by (simp add: rows_of_def set_rows_def)

lemma fk_on_set_rows [simp]: "fk_on (set_rows t rs db) = fk_on db"
  by (simp add: set_rows_def)

section \<open>Schemas\<close>

abbreviation col :: "string \<Rightarrow> bool \<Rightarrow> coldefault \<Rightarrow> coldef" where
  "col n nn d \<equiv> \<lparr>col_name = n, col_notnull = nn, col_default = d\<rparr>"

abbreviation req :: "string \<Rightarrow> coldef" where "req n \<equiv> col n True NoDefault"
abbreviation opt :: "string \<Rightarrow> coldef" where "opt n \<equiv> col n False NoDefault"
abbreviation dflt :: "string \<Rightarrow> sqlval \<Rightarrow> coldef" where "dflt n v \<equiv> col n True (DefaultVal v)"

text \<open>The columns migration V14 adds to every synced table, and to the last-writer-wins ones.\<close>

definition sync_columns :: "coldef list" where
  "sync_columns = [dflt ''hlc_wall_ms'' (SInt 0), dflt ''hlc_counter'' (SInt 0),
     dflt ''origin_device_id'' (SText [])]"

definition tombstone_columns :: "coldef list" where
  "tombstone_columns = [dflt ''is_deleted'' (SInt 0), opt ''deleted_at'']"

definition activity_segments_schema :: table_schema where
  "activity_segments_schema = \<lparr>columns =
     [opt ''id'', req ''start_time'', req ''end_time'', req ''duration_secs'', opt ''regime_id'',
      req ''trigger_reason'', dflt ''event_count'' (SInt 0),
      dflt ''app_breakdown'' (SText ''{}''), dflt ''category_breakdown'' (SText ''{}''),
      dflt ''context_switch_count'' (SInt 0), req ''dominant_category'',
      dflt ''avg_importance'' (SReal (F64_of_int 0)), dflt ''patterns_json'' (SText ''[]''),
      dflt ''content_activities_json'' (SText ''[]''), opt ''container_json'', opt ''llm_summary'',
      col ''created_at'' True DefaultNow] @ sync_columns,
     unique_cols = [''id''], foreign_keys = [(''regime_id'', ''regimes'')], autoincrement = False\<rparr>"

definition regimes_schema :: table_schema where
  "regimes_schema = \<lparr>columns =
     [opt ''id'', req ''label'', req ''detected_at'', req ''last_seen_at'',
      dflt ''occurrence_count'' (SInt 1), dflt ''avg_density'' (SReal (F64_of_int 0)),
      dflt ''avg_importance'' (SReal (F64_of_int 0)), req ''dominant_category'',
      opt ''params_snapshot_id'', dflt ''is_active'' (SInt 1),
      col ''created_at'' True DefaultNow] @ sync_columns @ tombstone_columns,
     unique_cols = [''id''],
     foreign_keys = [(''params_snapshot_id'', ''trigger_params_snapshots'')],
     autoincrement = False\<rparr>"

definition regime_overrides_schema :: table_schema where
  "regime_overrides_schema = \<lparr>columns =
     [opt ''override_id'', req ''segment_id'', opt ''original_regime_id'', req ''action_type'',
      opt ''action_data'', col ''created_at'' True DefaultNow] @ sync_columns,
     unique_cols = [''override_id''], foreign_keys = [], autoincrement = False\<rparr>"

definition embedding_vectors_schema :: table_schema where
  "embedding_vectors_schema = \<lparr>columns =
     [req ''segment_id'', req ''content_type'', opt ''content_label'', req ''original_text'',
      req ''vector'', req ''model_id'', req ''timestamp'', dflt ''is_stale'' (SInt 0),
      col ''created_at'' True DefaultNow, opt ''vector_int8'', opt ''quant_scale'',
      opt ''quant_offset''] @ sync_columns @ tombstone_columns,
     unique_cols = [''id''], foreign_keys = [], autoincrement = True\<rparr>"

definition suggestions_schema :: table_schema where
  "suggestions_schema = \<lparr>columns =
     [req ''suggestion_id'', req ''suggestion_type'', dflt ''source'' (SText ''RULE_BASED''),
      req ''content'', dflt ''priority'' (SText ''MEDIUM''),
      dflt ''confidence_score'' (SReal (F64_of_int 0)),
      dflt ''relevance_score'' (SReal (F64_of_int 0)), dflt ''is_actionable'' (SInt 1),
      opt ''reasoning'', opt ''shown_at'', opt ''dismissed_at'', opt ''acted_at'',
      col ''created_at'' True DefaultNow, opt ''expires_at''] @ sync_columns @ tombstone_columns
      @ [dflt ''state'' (SText ''pending''), opt ''resurface_at''],
     unique_cols = [''id'', ''suggestion_id''], foreign_keys = [], autoincrement = True\<rparr>"

definition trigger_params_snapshots_schema :: table_schema where
  "trigger_params_snapshots_schema = \<lparr>columns =
     [opt ''id'', col ''created_at'' True DefaultNow, req ''preset'', req ''params_json'']
      @ sync_columns,
     unique_cols = [''id''], foreign_keys = [], autoincrement = False\<rparr>"

definition sync_peers_schema :: table_schema where
  "sync_peers_schema = \<lparr>columns =
     [opt ''device_id'', req ''device_name'', req ''last_sync_at'',
      dflt ''watermark_wall_ms'' (SInt 0), dflt ''watermark_counter'' (SInt 0),
      col ''created_at'' True DefaultNow],
     unique_cols = [''device_id''], foreign_keys = [], autoincrement = False\<rparr>"

text \<open>The six synced tables, in the order the code lists them.\<close>

definition synced_tables :: "string list" where
  "synced_tables = [''activity_segments'', ''regimes'', ''regime_overrides'', ''embedding_vectors'',
     ''suggestions'', ''trigger_params_snapshots'']"

definition schema_of :: "string \<Rightarrow> table_schema" where
  "schema_of t =
     (if t = ''activity_segments'' then activity_segments_schema
      else if t = ''regimes'' then regimes_schema
      else if t = ''regime_overrides'' then regime_overrides_schema
      else if t = ''embedding_vectors'' then embedding_vectors_schema
      else if t = ''suggestions'' then suggestions_schema
      else if t = ''trigger_params_snapshots'' then trigger_params_snapshots_schema
      else sync_peers_schema)"

section \<open>Statements\<close>

text \<open>A bound parameter: \<open>u64\<close> values are stored as \<open>i64\<close> and refused when they do not fit.\<close>

datatype param = PVal sqlval | PU64 u64

fun bind_param :: "param \<Rightarrow> sql_error + sqlval" where
  "bind_param (PVal v) = Inr v"
| "bind_param (PU64 n) = (if uint n \<le> i64_max then Inr (SInt (uint n)) else Inl IntegerOutOfRange)"

fun bind_params :: "(string \<times> param) list \<Rightarrow> sql_error + (string \<times> sqlval) list" where
  "bind_params [] = Inr []"
| "bind_params ((c, p) # ps) =
     rbind (bind_param p) (\<lambda>v. rbind (bind_params ps) (\<lambda>vs. Inr ((c, v) # vs)))"

definition column_default :: "string \<Rightarrow> coldef \<Rightarrow> sqlval" where
  "column_default now c =
     (case col_default c of NoDefault \<Rightarrow> SNull | DefaultVal v \<Rightarrow> v | DefaultNow \<Rightarrow> SText now)"

text \<open>The row an \<open>INSERT\<close> builds: the listed columns, defaults elsewhere.\<close>

definition column_value :: "string \<Rightarrow> coldef list \<Rightarrow> string \<Rightarrow> sqlval" where
  "column_value now cs c =
     (case find (\<lambda>d. col_name d = c) cs of Some d \<Rightarrow> column_default now d | None \<Rightarrow> SNull)"

definition new_row :: "string \<Rightarrow> table_schema \<Rightarrow> (string \<times> sqlval) list \<Rightarrow> row" where
  "new_row now sch vs c =
     (case map_of vs c of Some v \<Rightarrow> v | None \<Rightarrow> column_value now (columns sch) c)"

definition check_notnull :: "table_schema \<Rightarrow> row \<Rightarrow> sql_error + unit" where
  "check_notnull sch r =
     (case find (\<lambda>d. col_notnull d \<and> r (col_name d) = SNull) (columns sch) of
        Some d \<Rightarrow> Inl (NotNullViolation (col_name d)) | None \<Rightarrow> Inr ())"

definition check_unique :: "table_schema \<Rightarrow> row list \<Rightarrow> row \<Rightarrow> sql_error + unit" where
  "check_unique sch rs r =
     (case find (\<lambda>c. r c \<noteq> SNull \<and> (\<exists>r' \<in> set rs. r' c = r c)) (unique_cols sch) of
        Some c \<Rightarrow> Inl (UniqueViolation c) | None \<Rightarrow> Inr ())"

definition check_fk :: "table_schema \<Rightarrow> sdb \<Rightarrow> row \<Rightarrow> sql_error + unit" where
  "check_fk sch db r =
     (if \<not> fk_on db then Inr ()
      else case find (\<lambda>(c, p). r c \<noteq> SNull \<and> (\<forall>r' \<in> set (rows_of db p). r' ''id'' \<noteq> r c))
                  (foreign_keys sch) of
        Some (c, p) \<Rightarrow> Inl (ForeignKeyViolation c) | None \<Rightarrow> Inr ())"

definition sql_insert ::
  "string \<Rightarrow> string \<Rightarrow> (string \<times> param) list \<Rightarrow> sdb \<Rightarrow> sql_error + sdb" where
  "sql_insert now t ps db =
     rbind (bind_params ps) (\<lambda>vs.
     let sch = schema_of t; tb = tables db t; n = tseq tb + 1;
         r = (if autoincrement sch then (new_row now sch vs)(''id'' := SInt n)
              else new_row now sch vs)
     in rbind (check_notnull sch r) (\<lambda>_.
        rbind (check_unique sch (trows tb) r) (\<lambda>_.
        rbind (check_fk sch db r) (\<lambda>_.
        Inr (db\<lparr>tables := (tables db)(t :=
               \<lparr>trows = trows tb @ [r], tseq = (if autoincrement sch then n else tseq tb)\<rparr>)\<rparr>)))))"

text \<open>\<open>UPDATE t SET ... WHERE p\<close> checks the constraints on the columns it assigns; the statements modelled
  here do not assign to key columns.\<close>

definition touched :: "(string \<times> sqlval) list \<Rightarrow> table_schema \<Rightarrow> table_schema" where
  "touched vs sch = sch\<lparr>columns := filter (\<lambda>d. col_name d \<in> set (map fst vs)) (columns sch),
     foreign_keys := filter (\<lambda>(c, p). c \<in> set (map fst vs)) (foreign_keys sch)\<rparr>"

definition assign :: "(string \<times> sqlval) list \<Rightarrow> row \<Rightarrow> row" where
  "assign vs r c = (case map_of vs c of Some v \<Rightarrow> v | None \<Rightarrow> r c)"

definition sql_update ::
  "string \<Rightarrow> (string \<times> param) list \<Rightarrow> (row \<Rightarrow> bool) \<Rightarrow> sdb \<Rightarrow> sql_error + sdb" where
  "sql_update t ps p db =
     rbind (bind_params ps) (\<lambda>vs.
     let sch = touched vs (schema_of t); rs = rows_of db t
     in rbind (rfold (\<lambda>r _. rbind (check_notnull sch (assign vs r)) (\<lambda>_. check_fk sch db (assign vs r)))
                 (filter p rs) ()) (\<lambda>_.
        Inr (set_rows t (map (\<lambda>r. if p r then assign vs r else r) rs) db)))"

text \<open>\<open>DELETE FROM t WHERE p\<close> with the number of rows removed. With foreign keys on it fails when a row
  elsewhere still references a removed one.\<close>

definition referencing :: "string \<Rightarrow> (string \<times> string) list" where
  "referencing parent =
     concat (map (\<lambda>t. map (\<lambda>(c, p). (t, c)) (filter (\<lambda>(c, p). p = parent) (foreign_keys (schema_of t))))
       synced_tables)"

definition sql_delete :: "string \<Rightarrow> (row \<Rightarrow> bool) \<Rightarrow> sdb \<Rightarrow> sql_error + (sdb \<times> nat)" where
  "sql_delete t p db =
     (let gone = filter p (rows_of db t);
          db' = set_rows t (filter (\<lambda>r. \<not> p r) (rows_of db t)) db
      in if fk_on db \<and>
            (\<exists>(child, c) \<in> set (referencing t). \<exists>r \<in> set (rows_of db' child). \<exists>g \<in> set gone.
               g ''id'' \<noteq> SNull \<and> r c = g ''id'')
         then Inl (ForeignKeyViolation t)
         else Inr (db', length gone))"

end
