(* ===== verification/HybridClock.thy ===== *)
theory HybridClock
  imports Prelude
begin

text \<open>
  The hybrid logical clock of \<open>crates/oneshim-core/src/sync/hlc.rs\<close>: the timestamp with its derived
  lexicographic order, and \<open>now\<close>, \<open>tick\<close>, \<open>merge\<close> and \<open>is_after\<close>. The reading of the wall clock
  (\<open>current_time_ms\<close>) is an argument of the operations that call it.
\<close>

definition MAX_CLOCK_DRIFT_MS :: u64 where "MAX_CLOCK_DRIFT_MS = 3600000"

record Hlc =
  wall_ms :: u64
  counter :: u32
  device_id :: string

section \<open>The derived order\<close>

definition hlc_key :: "'z Hlc_scheme \<Rightarrow> u64 \<times> u32 \<times> string" where
  "hlc_key h = (wall_ms h, counter h, device_id h)"

lemma hlc_key_inject: "hlc_key a = hlc_key b \<longleftrightarrow> (a :: Hlc) = b"
  by (cases a; cases b) (auto simp: hlc_key_def)

instantiation Hlc_ext :: (linorder) linorder
begin

definition less_eq_Hlc_ext :: "'a Hlc_scheme \<Rightarrow> 'a Hlc_scheme \<Rightarrow> bool" where
  "less_eq_Hlc_ext a b \<longleftrightarrow> (hlc_key a, Hlc.more a) \<le> (hlc_key b, Hlc.more b)"

definition less_Hlc_ext :: "'a Hlc_scheme \<Rightarrow> 'a Hlc_scheme \<Rightarrow> bool" where
  "less_Hlc_ext a b \<longleftrightarrow> (hlc_key a, Hlc.more a) < (hlc_key b, Hlc.more b)"

instance
proof
  fix x y z :: "'a Hlc_scheme"
  show "x < y \<longleftrightarrow> x \<le> y \<and> \<not> y \<le> x"
    unfolding less_Hlc_ext_def less_eq_Hlc_ext_def by (rule less_le_not_le)
  show "x \<le> x" by (simp add: less_eq_Hlc_ext_def)
  show "x \<le> y \<Longrightarrow> y \<le> z \<Longrightarrow> x \<le> z"
    unfolding less_eq_Hlc_ext_def by (rule order_trans)
  show "x \<le> y \<Longrightarrow> y \<le> x \<Longrightarrow> x = y"
    unfolding less_eq_Hlc_ext_def
    by (drule (1) antisym) (cases x; cases y; simp add: hlc_key_def)
  show "x \<le> y \<or> y \<le> x" unfolding less_eq_Hlc_ext_def by (rule linear)
qed

end

lemma hlc_less_iff: "(a :: Hlc) < b \<longleftrightarrow> hlc_key a < hlc_key b"
  by (simp add: less_Hlc_ext_def)

lemma hlc_less_eq_iff: "(a :: Hlc) \<le> b \<longleftrightarrow> hlc_key a \<le> hlc_key b"
  by (auto simp: less_eq_Hlc_ext_def)

section \<open>Operations\<close>

definition hlc_default :: Hlc where
  "hlc_default = \<lparr>wall_ms = 0, counter = 0, device_id = []\<rparr>"

definition hlc_now :: "u64 \<Rightarrow> string \<Rightarrow> Hlc" where
  "hlc_now now dev = \<lparr>wall_ms = now, counter = 0, device_id = dev\<rparr>"

definition hlc_tick :: "u64 \<Rightarrow> Hlc \<Rightarrow> Hlc" where
  "hlc_tick now h =
     (if now > wall_ms h then h\<lparr>wall_ms := now, counter := 0\<rparr>
      else h\<lparr>counter := counter h + 1\<rparr>)"

definition hlc_merge :: "u64 \<Rightarrow> Hlc \<Rightarrow> Hlc \<Rightarrow> Hlc" where
  "hlc_merge now remote h =
     (if wall_ms remote > now + MAX_CLOCK_DRIFT_MS then hlc_tick now h
      else
        let max_wall = max (max now (wall_ms h)) (wall_ms remote);
            c = (if max_wall = wall_ms h \<and> max_wall = wall_ms remote
                 then max (counter h) (counter remote) + 1
                 else if max_wall = wall_ms h then counter h + 1
                 else if max_wall = wall_ms remote then counter remote + 1
                 else 0)
        in h\<lparr>counter := c, wall_ms := max_wall\<rparr>)"

definition is_after :: "Hlc \<Rightarrow> Hlc \<Rightarrow> bool" where
  "is_after h other \<longleftrightarrow> other < h"

section \<open>One step\<close>

text \<open>
  The counter is a \<open>u32\<close>, so an increment moves the clock forward unless it wraps to zero;
  \<open>has_room\<close> says that it does not. A remote stamp too far ahead of the wall clock is not adopted.
\<close>

definition has_room :: "Hlc \<Rightarrow> bool" where
  "has_room h \<longleftrightarrow> counter h \<noteq> - 1"

definition drift_rejected :: "u64 \<Rightarrow> Hlc \<Rightarrow> bool" where
  "drift_rejected now remote \<longleftrightarrow> wall_ms remote > now + MAX_CLOCK_DRIFT_MS"

lemma less_succ_of_room: "(c :: 'a::len word) \<noteq> - 1 \<Longrightarrow> c < c + 1"
  by (metis inc_less_eq_triv_imp linorder_less_linear word_le_less_eq)

lemma le_less_succ: "(a :: 'a::len word) \<le> b \<Longrightarrow> b \<noteq> - 1 \<Longrightarrow> a < b + 1"
  using less_succ_of_room le_less_trans by blast

lemma hlc_tick_device [simp]: "device_id (hlc_tick now h) = device_id h"
  by (simp add: hlc_tick_def)

lemma hlc_merge_device [simp]: "device_id (hlc_merge now r h) = device_id h"
  by (simp add: hlc_merge_def Let_def)

lemma hlc_tick_after: "has_room h \<Longrightarrow> h < hlc_tick now h"
  by (auto simp: hlc_tick_def has_room_def hlc_less_iff hlc_key_def less_succ_of_room)

lemma hlc_merge_after_local:
  assumes "has_room h" "drift_rejected now r \<or> has_room r"
  shows "h < hlc_merge now r h"
proof (cases "drift_rejected now r")
  case True
  then show ?thesis using assms by (simp add: hlc_merge_def drift_rejected_def hlc_tick_after)
next
  case False
  with assms show ?thesis
    by (auto simp: hlc_merge_def drift_rejected_def has_room_def hlc_less_iff hlc_key_def Let_def
        less_succ_of_room le_less_succ max_def)
qed

lemma hlc_merge_after_remote:
  assumes "has_room h" "has_room r" "\<not> drift_rejected now r"
  shows "r < hlc_merge now r h"
  using assms
  by (auto simp: hlc_merge_def drift_rejected_def has_room_def hlc_less_iff hlc_key_def Let_def
      less_succ_of_room le_less_succ max_def)

lemma hlc_merge_wall_bound:
  assumes "now \<le> now + MAX_CLOCK_DRIFT_MS"
  shows "wall_ms (hlc_merge now r h) \<le> max (wall_ms h) (now + MAX_CLOCK_DRIFT_MS)"
  using assms by (auto simp: hlc_merge_def hlc_tick_def Let_def max_def)

lemma hlc_merge_wall_ge: "wall_ms h \<le> wall_ms (hlc_merge now r h)"
  by (auto simp: hlc_merge_def hlc_tick_def Let_def max_def)

section \<open>Many devices exchanging stamps\<close>

text \<open>
  A run is a list of events: device \<open>d\<close> reads its wall clock \<open>now\<close> and either ticks for a local event
  or merges the stamp that event number \<open>i\<close> of the run carried to it. Every event leaves its device's
  clock at a new value, its stamp.
\<close>

record hlc_event =
  ev_dev :: string
  ev_now :: u64
  ev_src :: "nat option"

type_synonym hlc_sys = "(string \<Rightarrow> Hlc) \<times> Hlc list"

definition hlc_init :: hlc_sys where
  "hlc_init = ((\<lambda>d. hlc_now 0 d), [])"

definition event_stamp :: "hlc_sys \<Rightarrow> hlc_event \<Rightarrow> Hlc" where
  "event_stamp s e =
     (case ev_src e of
        None \<Rightarrow> hlc_tick (ev_now e) (fst s (ev_dev e))
      | Some i \<Rightarrow> hlc_merge (ev_now e) (snd s ! i) (fst s (ev_dev e)))"

definition hlc_sys_step :: "hlc_event \<Rightarrow> hlc_sys \<Rightarrow> hlc_sys" where
  "hlc_sys_step e s = ((fst s)(ev_dev e := event_stamp s e), snd s @ [event_stamp s e])"

definition hlc_run :: "hlc_event list \<Rightarrow> hlc_sys" where
  "hlc_run es = fold hlc_sys_step es hlc_init"

definition hlc_stamps :: "hlc_event list \<Rightarrow> Hlc list" where
  "hlc_stamps es = snd (hlc_run es)"

text \<open>
  What the clocks need of a run: a carried stamp is of an earlier event and passes the drift guard,
  and no counter wraps.
\<close>

definition event_ok :: "hlc_sys \<Rightarrow> hlc_event \<Rightarrow> bool" where
  "event_ok s e \<longleftrightarrow> has_room (fst s (ev_dev e)) \<and>
     (case ev_src e of None \<Rightarrow> True
      | Some i \<Rightarrow> i < length (snd s) \<and> has_room (snd s ! i)
                 \<and> \<not> drift_rejected (ev_now e) (snd s ! i))"

fun run_ok :: "hlc_sys \<Rightarrow> hlc_event list \<Rightarrow> bool" where
  "run_ok s [] = True"
| "run_ok s (e # es) = (event_ok s e \<and> run_ok (hlc_sys_step e s) es)"

text \<open>Lamport's order on the event numbers of a run: program order and message order, closed
  transitively.\<close>

inductive happened_before :: "hlc_event list \<Rightarrow> nat \<Rightarrow> nat \<Rightarrow> bool" for es where
  program: "i < j \<Longrightarrow> j < length es \<Longrightarrow> ev_dev (es ! i) = ev_dev (es ! j) \<Longrightarrow> happened_before es i j"
| message: "j < length es \<Longrightarrow> ev_src (es ! j) = Some i \<Longrightarrow> happened_before es i j"
| trans: "happened_before es i j \<Longrightarrow> happened_before es j k \<Longrightarrow> happened_before es i k"

lemma run_ok_append: "run_ok s (xs @ ys) \<longleftrightarrow> run_ok s xs \<and> run_ok (fold hlc_sys_step xs s) ys"
  by (induction xs arbitrary: s) auto

lemma length_run: "length (snd (fold hlc_sys_step es s)) = length (snd s) + length es"
  by (induction es arbitrary: s) (auto simp: hlc_sys_step_def)

lemma length_hlc_stamps [simp]: "length (hlc_stamps es) = length es"
  by (simp add: hlc_stamps_def hlc_run_def length_run hlc_init_def)

lemma hlc_run_snoc: "hlc_run (es @ [e]) = hlc_sys_step e (hlc_run es)"
  by (simp add: hlc_run_def)

lemma hlc_stamps_snoc: "hlc_stamps (es @ [e]) = hlc_stamps es @ [event_stamp (hlc_run es) e]"
  by (simp add: hlc_stamps_def hlc_run_snoc hlc_sys_step_def)

lemma event_stamp_after_clock:
  "event_ok s e \<Longrightarrow> fst s (ev_dev e) < event_stamp s e"
  by (auto simp: event_ok_def event_stamp_def hlc_tick_after hlc_merge_after_local split: option.splits)

lemma event_stamp_after_source:
  "event_ok s e \<Longrightarrow> ev_src e = Some i \<Longrightarrow> snd s ! i < event_stamp s e"
  by (auto simp: event_ok_def event_stamp_def hlc_merge_after_remote)

text \<open>Every stamp a device issued is at or below its clock.\<close>

lemma stamps_below_clock:
  assumes "run_ok hlc_init es" "i < length es"
  shows "hlc_stamps es ! i \<le> fst (hlc_run es) (ev_dev (es ! i))"
  using assms
proof (induction es rule: rev_induct)
  case (snoc e es)
  then have ok: "run_ok hlc_init es" "event_ok (hlc_run es) e"
    by (simp_all add: run_ok_append hlc_run_def)
  show ?case
  proof (cases "i < length es")
    case True
    with snoc.IH ok have "hlc_stamps es ! i \<le> fst (hlc_run es) (ev_dev (es ! i))" by simp
    with True event_stamp_after_clock [OF ok(2)] show ?thesis
      by (auto simp: hlc_stamps_snoc hlc_run_snoc hlc_sys_step_def nth_append)
  next
    case False
    with snoc.prems show ?thesis
      by (simp add: hlc_stamps_snoc hlc_run_snoc hlc_sys_step_def nth_append)
  qed
qed simp

lemma hlc_stamps_take:
  assumes "i < n" "n \<le> length es"
  shows "hlc_stamps (take n es) ! i = hlc_stamps es ! i"
proof -
  have "\<And>xs ys. i < length xs \<Longrightarrow> hlc_stamps (xs @ ys) ! i = hlc_stamps xs ! i"
  proof -
    fix xs ys :: "hlc_event list"
    show "i < length xs \<Longrightarrow> hlc_stamps (xs @ ys) ! i = hlc_stamps xs ! i"
      by (induction ys rule: rev_induct)
        (auto simp: hlc_stamps_snoc nth_append simp flip: append_assoc)
  qed
  from this [of "take n es" "drop n es"] assms show ?thesis by simp
qed

text \<open>The run up to event \<open>j\<close>, then event \<open>j\<close>: the stamp of \<open>j\<close> from the state it met.\<close>

lemma stamp_of_event:
  assumes "run_ok hlc_init es" "j < length es"
  shows "hlc_stamps es ! j = event_stamp (hlc_run (take j es)) (es ! j)"
    and "event_ok (hlc_run (take j es)) (es ! j)"
    and "run_ok hlc_init (take j es)"
proof -
  have split: "take (Suc j) es = take j es @ [es ! j]"
    using assms(2) by (simp add: take_Suc_conv_app_nth)
  have "hlc_stamps es ! j = hlc_stamps (take (Suc j) es) ! j"
    using assms(2) by (simp add: hlc_stamps_take)
  then show "hlc_stamps es ! j = event_stamp (hlc_run (take j es)) (es ! j)"
    using assms(2) by (simp add: split hlc_stamps_snoc nth_append)
  have "run_ok hlc_init (take (Suc j) es @ drop (Suc j) es)" using assms(1) by simp
  then have "run_ok hlc_init (take j es @ [es ! j])" by (simp only: run_ok_append split)
  then show "event_ok (hlc_run (take j es)) (es ! j)" and "run_ok hlc_init (take j es)"
    by (simp_all add: run_ok_append hlc_run_def)
qed

lemma happened_before_less: "happened_before es i j \<Longrightarrow> run_ok hlc_init es \<Longrightarrow> i < j \<and> j < length es"
proof (induction rule: happened_before.induct)
  case (message j i)
  from stamp_of_event(2) [OF message(3,1)] message(2,1) show ?case
    by (simp add: event_ok_def length_run hlc_run_def hlc_init_def)
qed auto

lemma happened_before_stamps:
  assumes "happened_before es i j" "run_ok hlc_init es"
  shows "hlc_stamps es ! i < hlc_stamps es ! j"
  using assms
proof (induction rule: happened_before.induct)
  case (program i j)
  note j = stamp_of_event [OF program(4,2)]
  have "hlc_stamps (take j es) ! i \<le> fst (hlc_run (take j es)) (ev_dev (take j es ! i))"
    using stamps_below_clock [OF j(3), of i] program(1,2) by simp
  also have "\<dots> < event_stamp (hlc_run (take j es)) (es ! j)"
    using event_stamp_after_clock [OF j(2)] program by simp
  finally show ?case using j(1) program by (simp add: hlc_stamps_take)
next
  case (message j i)
  note j = stamp_of_event [OF message(3,1)]
  have "i < j" using happened_before_less [OF happened_before.message [OF message(1,2)] message(3)] by simp
  moreover have "snd (hlc_run (take j es)) ! i = hlc_stamps (take j es) ! i"
    by (simp add: hlc_stamps_def)
  ultimately show ?case
    using event_stamp_after_source [OF j(2) message(2)] j(1) message(1)
    by (simp add: hlc_stamps_take)
qed (auto intro: less_trans)

section \<open>Properties\<close>

definition ev :: "string \<Rightarrow> u64 \<Rightarrow> nat option \<Rightarrow> hlc_event" where
  "ev d n s = \<lparr>ev_dev = d, ev_now = n, ev_src = s\<rparr>"

text \<open>Device \<open>a\<close> stamps an event, \<open>b\<close> receives it with a clock that is behind, \<open>a\<close> hears back.\<close>

definition sample_run :: "hlc_event list" where
  "sample_run = [ev ''a'' 1000 None, ev ''b'' 400 (Some 0), ev ''a'' 900 (Some 1)]"



text \<open>Merging a received stamp never moves a clock backwards, moves it past both the local and, unless
  the drift guard refused it, the remote stamp, and never carries the wall time further than the drift
  allowance ahead of the device's own clock: one far-future device cannot poison the others.\<close>

theorem hlc_merge_monotone_and_bounded:
  assumes "has_room h" "has_room r" "now \<le> now + MAX_CLOCK_DRIFT_MS"
  shows "h < hlc_merge now r h
    \<and> (wall_ms r \<le> now + MAX_CLOCK_DRIFT_MS \<longrightarrow> r < hlc_merge now r h)
    \<and> wall_ms (hlc_merge now r h) \<le> max (wall_ms h) (now + MAX_CLOCK_DRIFT_MS)"
  using assms hlc_merge_after_local hlc_merge_after_remote hlc_merge_wall_bound
  by (auto simp: drift_rejected_def)

theorem hlc_merge_monotone_and_bounded_witness:
  "hlc_now 5 ''a'' < hlc_merge 7 (hlc_now 9 ''b'') (hlc_now 5 ''a'')
   \<and> hlc_now 9 ''b'' < hlc_merge 7 (hlc_now 9 ''b'') (hlc_now 5 ''a'')
   \<and> wall_ms (hlc_merge 7 (hlc_now 9000000 ''b'') (hlc_now 5 ''a'')) \<le> 3600007"
proof -
  have room: "has_room (hlc_now 5 ''a'')" "has_room (hlc_now 9 ''b'')" "has_room (hlc_now 9000000 ''b'')"
    by code_simp+
  have drift: "(7 :: u64) \<le> 7 + MAX_CLOCK_DRIFT_MS" by code_simp
  have "wall_ms (hlc_now 9 ''b'') \<le> 7 + MAX_CLOCK_DRIFT_MS" by code_simp
  moreover have "max (wall_ms (hlc_now 5 ''a'')) (7 + MAX_CLOCK_DRIFT_MS) = 3600007" by code_simp
  ultimately show ?thesis
    using hlc_merge_monotone_and_bounded [OF room(1,2) drift] hlc_merge_monotone_and_bounded [OF room(1,3) drift]
    by simp
qed

end
