(* ===== verification/SyncMerger.thy ===== *)
theory SyncMerger
  imports SqlModel HybridClock
begin

text \<open>
  The change merger of \<open>crates/oneshim-storage/src/sync_merger.rs\<close> over the changesets of
  \<open>crates/oneshim-core/src/models/sync.rs\<close>: one definition per merge function, each a sequence of the
  statements it runs on a database and the counters it bumps, and \<open>apply_changes\<close> with its
  transaction. Environment failures (a poisoned lock, a failing commit, a join error) are left out.
  \<open>hex::decode\<close> of the third-party \<open>hex\<close> crate is the argument \<open>hexd\<close>.
\<close>

section \<open>Changesets and results\<close>

datatype ChangeSetKind = Data | DeletionEvent

record ChangeSet =
  kind :: ChangeSetKind
  origin_device_id :: string
  origin_device_name :: string
  watermark :: Hlc
  segments :: "json list"
  regimes :: "json list"
  overrides :: "json list"
  embeddings :: "json list"
  suggestions :: "json list"
  param_snapshots :: "json list"
  preferences :: "json list"

definition changeset_is_empty :: "ChangeSet \<Rightarrow> bool" where
  "changeset_is_empty cs \<longleftrightarrow> segments cs = [] \<and> regimes cs = [] \<and> overrides cs = []
     \<and> embeddings cs = [] \<and> suggestions cs = [] \<and> param_snapshots cs = [] \<and> preferences cs = []"

definition row_count :: "ChangeSet \<Rightarrow> nat" where
  "row_count cs = length (segments cs) + length (regimes cs) + length (overrides cs)
     + length (embeddings cs) + length (suggestions cs) + length (param_snapshots cs)
     + length (preferences cs)"

record SyncResult =
  applied :: nat
  skipped_lww :: nat
  skipped_dup :: nat
  tombstoned :: nat
  new_watermark :: Hlc

definition sync_result_default :: SyncResult where
  "sync_result_default =
     \<lparr>applied = 0, skipped_lww = 0, skipped_dup = 0, tombstoned = 0, new_watermark = hlc_default\<rparr>"

section \<open>Parameters of a statement\<close>

text \<open>How a column of a statement is read from the JSON row.\<close>

datatype col_extractor =
    XStr | XStrOpt | XStrDef string | XI64 | XI64Def int | XU64 | XU32 | XF64

definition opt_text :: "string option \<Rightarrow> sqlval" where
  "opt_text x = (case x of None \<Rightarrow> SNull | Some s \<Rightarrow> SText s)"

fun extract_param :: "json \<Rightarrow> string \<Rightarrow> col_extractor \<Rightarrow> StorageError + param" where
  "extract_param v k XStr = rbind (json_str v k) (\<lambda>s. Inr (PVal (SText s)))"
| "extract_param v k XStrOpt = Inr (PVal (opt_text (json_str_opt v k)))"
| "extract_param v k (XStrDef d) = Inr (PVal (SText (json_str_or_default v k d)))"
| "extract_param v k XI64 = rbind (json_i64 v k) (\<lambda>i. Inr (PVal (SInt i)))"
| "extract_param v k (XI64Def d) = Inr (PVal (SInt (json_i64_or_default v k d)))"
| "extract_param v k XU64 = rbind (json_u64 v k) (\<lambda>n. Inr (PU64 n))"
| "extract_param v k XU32 = rbind (json_u32 v k) (\<lambda>n. Inr (PVal (SInt (uint n))))"
| "extract_param v k XF64 = rbind (json_f64 v k) (\<lambda>f. Inr (PVal (SReal f)))"

fun json_params :: "json \<Rightarrow> (string \<times> col_extractor) list \<Rightarrow> StorageError + (string \<times> param) list" where
  "json_params v [] = Inr []"
| "json_params v ((c, x) # xs) =
     rbind (extract_param v c x) (\<lambda>p. rbind (json_params v xs) (\<lambda>ps. Inr ((c, p) # ps)))"

definition sql_ctx :: "string \<Rightarrow> sql_error + 'a \<Rightarrow> StorageError + 'a" where
  "sql_ctx ctx x = (case x of Inl e \<Rightarrow> Inl (SqlFailed ctx e) | Inr a \<Rightarrow> Inr a)"

lemma sql_ctx_simps [simp, result_simps]:
  "sql_ctx ctx (Inl e) = Inl (SqlFailed ctx e)" "sql_ctx ctx (Inr a) = Inr a"
  by (simp_all add: sql_ctx_def)

lemma sql_ctx_eq_Inr [result_simps]: "sql_ctx ctx x = Inr a \<longleftrightarrow> x = Inr a"
  by (cases x) auto

definition extract_hlc :: "json \<Rightarrow> StorageError + Hlc" where
  "extract_hlc v =
     rbind (json_u64 v ''hlc_wall_ms'') (\<lambda>w.
     rbind (json_u32 v ''hlc_counter'') (\<lambda>c.
     rbind (json_str v ''origin_device_id'') (\<lambda>d.
     Inr \<lparr>wall_ms = w, counter = c, device_id = d\<rparr>)))"

definition hlc_spec :: "(string \<times> col_extractor) list" where
  "hlc_spec = [(''hlc_wall_ms'', XU64), (''hlc_counter'', XU32), (''origin_device_id'', XStr)]"

definition segment_spec :: "(string \<times> col_extractor) list" where
  "segment_spec =
     [(''id'', XStr), (''start_time'', XStr), (''end_time'', XStr), (''duration_secs'', XI64),
      (''regime_id'', XStrOpt), (''dominant_category'', XStr),
      (''app_breakdown'', XStrDef ''{}''), (''llm_summary'', XStrOpt),
      (''content_activities_json'', XStrDef ''[]'')] @ hlc_spec"

definition regime_update_spec :: "(string \<times> col_extractor) list" where
  "regime_update_spec =
     [(''label'', XStr), (''detected_at'', XStr), (''last_seen_at'', XStr),
      (''occurrence_count'', XI64), (''avg_density'', XF64), (''avg_importance'', XF64),
      (''dominant_category'', XStr), (''params_snapshot_id'', XStrOpt), (''is_active'', XI64),
      (''is_deleted'', XI64Def 0), (''deleted_at'', XStrOpt)] @ hlc_spec"

definition override_spec :: "(string \<times> col_extractor) list" where
  "override_spec =
     [(''override_id'', XStr), (''segment_id'', XStr), (''original_regime_id'', XStrOpt),
      (''action_type'', XStr), (''action_data'', XStrOpt), (''created_at'', XStr)] @ hlc_spec"

definition embedding_tail_spec :: "(string \<times> col_extractor) list" where
  "embedding_tail_spec =
     [(''model_id'', XStr), (''timestamp'', XStr), (''is_stale'', XI64Def 0),
      (''is_deleted'', XI64Def 0), (''deleted_at'', XStrOpt)] @ hlc_spec"

definition embedding_head_spec :: "(string \<times> col_extractor) list" where
  "embedding_head_spec =
     [(''content_type'', XStr), (''content_label'', XStrOpt), (''original_text'', XStrOpt)]"

definition suggestion_head_spec :: "(string \<times> col_extractor) list" where
  "suggestion_head_spec =
     [(''suggestion_type'', XStr), (''source'', XStr), (''content'', XStr), (''priority'', XStr),
      (''confidence_score'', XF64), (''relevance_score'', XF64), (''is_actionable'', XI64),
      (''reasoning'', XStrOpt), (''shown_at'', XStrOpt), (''dismissed_at'', XStrOpt),
      (''acted_at'', XStrOpt)]"

definition suggestion_tail_spec :: "(string \<times> col_extractor) list" where
  "suggestion_tail_spec =
     [(''expires_at'', XStrOpt), (''is_deleted'', XI64Def 0), (''deleted_at'', XStrOpt)] @ hlc_spec"

definition param_snapshot_spec :: "(string \<times> col_extractor) list" where
  "param_snapshot_spec =
     [(''id'', XStr), (''created_at'', XStr), (''preset'', XStr), (''params_json'', XStr)] @ hlc_spec"

section \<open>Reading rows back\<close>

fun get_u64 :: "sqlval \<Rightarrow> u64 option" where
  "get_u64 (SInt i) = (if 0 \<le> i then Some (word_of_int i) else None)"
| "get_u64 _ = None"

fun get_u32 :: "sqlval \<Rightarrow> u32 option" where
  "get_u32 (SInt i) = (if 0 \<le> i \<and> i < 2 ^ 32 then Some (word_of_int i) else None)"
| "get_u32 _ = None"

fun get_str :: "sqlval \<Rightarrow> string option" where
  "get_str (SText s) = Some s"
| "get_str _ = None"

fun get_opt_str :: "sqlval \<Rightarrow> string option option" where
  "get_opt_str (SText s) = Some (Some s)"
| "get_opt_str SNull = Some None"
| "get_opt_str _ = None"

definition row_hlc :: "row \<Rightarrow> Hlc option" where
  "row_hlc r =
     Option.bind (get_u64 (r ''hlc_wall_ms'')) (\<lambda>w.
     Option.bind (get_u32 (r ''hlc_counter'')) (\<lambda>c.
     Option.bind (get_str (r ''origin_device_id'')) (\<lambda>d.
     Some \<lparr>wall_ms = w, counter = c, device_id = d\<rparr>)))"

definition row_exists :: "string \<Rightarrow> (row \<Rightarrow> bool) \<Rightarrow> sdb \<Rightarrow> bool" where
  "row_exists t p db \<longleftrightarrow> (\<exists>r \<in> set (rows_of db t). p r)"

text \<open>A \<open>query_row\<close> whose error is turned into \<open>None\<close> by \<open>.ok()\<close>: no row, or one that does not read.\<close>

definition query_row_ok :: "string \<Rightarrow> (row \<Rightarrow> bool) \<Rightarrow> (row \<Rightarrow> 'a option) \<Rightarrow> sdb \<Rightarrow> 'a option" where
  "query_row_ok t p f db = Option.bind (find p (rows_of db t)) f"

abbreviation key_is :: "string \<Rightarrow> string \<Rightarrow> row \<Rightarrow> bool" where
  "key_is k v r \<equiv> r k = SText v"

section \<open>Merge functions\<close>

type_synonym merge_state = "sdb \<times> SyncResult"

definition merge_segment :: "string \<Rightarrow> json \<Rightarrow> merge_state \<Rightarrow> StorageError + merge_state" where
  "merge_segment now v s =
     rbind (json_str v ''id'') (\<lambda>id.
     if row_exists ''activity_segments'' (key_is ''id'' id) (fst s)
     then Inr (fst s, (snd s)\<lparr>skipped_dup := skipped_dup (snd s) + 1\<rparr>)
     else
       rbind (json_params v segment_spec) (\<lambda>ps.
       rbind (sql_ctx ''insert segment'' (sql_insert now ''activity_segments'' ps (fst s))) (\<lambda>db.
       Inr (db, (snd s)\<lparr>applied := applied (snd s) + 1\<rparr>))))"

definition count_update :: "json \<Rightarrow> SyncResult \<Rightarrow> SyncResult" where
  "count_update v res =
     (if json_i64_or_default v ''is_deleted'' 0 = 1
      then res\<lparr>tombstoned := tombstoned res + 1\<rparr> else res\<lparr>applied := applied res + 1\<rparr>)"

definition merge_regime :: "string \<Rightarrow> json \<Rightarrow> merge_state \<Rightarrow> StorageError + merge_state" where
  "merge_regime now v s =
     rbind (json_str v ''id'') (\<lambda>id.
     rbind (extract_hlc v) (\<lambda>remote_hlc.
     case query_row_ok ''regimes'' (key_is ''id'' id) row_hlc (fst s) of
       None \<Rightarrow>
         rbind (json_params v ((''id'', XStr) # regime_update_spec)) (\<lambda>ps.
         rbind (sql_ctx ''insert regime'' (sql_insert now ''regimes'' ps (fst s))) (\<lambda>db.
         Inr (db, (snd s)\<lparr>applied := applied (snd s) + 1\<rparr>)))
     | Some local_hlc \<Rightarrow>
         if is_after remote_hlc local_hlc then
           rbind (json_params v regime_update_spec) (\<lambda>ps.
           rbind (sql_ctx ''update regime'' (sql_update ''regimes'' ps (key_is ''id'' id) (fst s))) (\<lambda>db.
           Inr (db, count_update v (snd s))))
         else Inr (fst s, (snd s)\<lparr>skipped_lww := skipped_lww (snd s) + 1\<rparr>)))"

definition merge_override :: "string \<Rightarrow> json \<Rightarrow> merge_state \<Rightarrow> StorageError + merge_state" where
  "merge_override now v s =
     rbind (json_str v ''override_id'') (\<lambda>id.
     if row_exists ''regime_overrides'' (key_is ''override_id'' id) (fst s)
     then Inr (fst s, (snd s)\<lparr>skipped_dup := skipped_dup (snd s) + 1\<rparr>)
     else
       rbind (json_params v override_spec) (\<lambda>ps.
       rbind (sql_ctx ''insert override'' (sql_insert now ''regime_overrides'' ps (fst s))) (\<lambda>db.
       Inr (db, (snd s)\<lparr>applied := applied (snd s) + 1\<rparr>))))"

definition decode_vector :: "(string \<Rightarrow> u8 list option) \<Rightarrow> string \<Rightarrow> param" where
  "decode_vector hexd s = PVal (SBlob (case_option [] id (hexd s)))"

definition merge_embedding ::
  "(string \<Rightarrow> u8 list option) \<Rightarrow> string \<Rightarrow> json \<Rightarrow> merge_state \<Rightarrow> StorageError + merge_state" where
  "merge_embedding hexd now v s =
     rbind (json_str v ''segment_id'') (\<lambda>segment_id.
     rbind (json_str v ''model_id'') (\<lambda>model_id.
     rbind (extract_hlc v) (\<lambda>remote_hlc.
     case query_row_ok ''embedding_vectors''
            (\<lambda>r. key_is ''segment_id'' segment_id r \<and> key_is ''model_id'' model_id r)
            (\<lambda>r. Option.bind (row_hlc r) (\<lambda>h. case r ''id'' of SInt i \<Rightarrow> Some (i, h) | _ \<Rightarrow> None))
            (fst s) of
       None \<Rightarrow>
         rbind (json_str v ''vector'') (\<lambda>vector_hex.
         rbind (json_params v embedding_head_spec) (\<lambda>ps.
         rbind (json_params v embedding_tail_spec) (\<lambda>qs.
         rbind (sql_ctx ''insert embedding''
           (sql_insert now ''embedding_vectors''
              ((''segment_id'', PVal (SText segment_id)) # ps
               @ (''vector'', decode_vector hexd vector_hex) # qs) (fst s))) (\<lambda>db.
         Inr (db, (snd s)\<lparr>applied := applied (snd s) + 1\<rparr>)))))
     | Some (local_id, local_hlc) \<Rightarrow>
         if is_after remote_hlc local_hlc then
           rbind (json_str v ''vector'') (\<lambda>vector_hex.
           rbind (json_params v embedding_head_spec) (\<lambda>ps.
           rbind (json_params v embedding_tail_spec) (\<lambda>qs.
           rbind (sql_ctx ''update embedding''
             (sql_update ''embedding_vectors''
                (ps @ (''vector'', decode_vector hexd vector_hex) # qs)
                (\<lambda>r. r ''id'' = SInt local_id) (fst s))) (\<lambda>db.
           Inr (db, count_update v (snd s))))))
         else Inr (fst s, (snd s)\<lparr>skipped_lww := skipped_lww (snd s) + 1\<rparr>))))"

definition suggestion_status_ordinal :: "json \<Rightarrow> nat" where
  "suggestion_status_ordinal v =
     (if json_str_opt v ''acted_at'' \<noteq> None then 3
      else if json_str_opt v ''dismissed_at'' \<noteq> None then 2
      else if json_str_opt v ''shown_at'' \<noteq> None then 1
      else 0)"

definition local_suggestion_status :: "string option \<times> string option \<times> string option \<Rightarrow> nat" where
  "local_suggestion_status x =
     (case x of (shown, dismissed, acted) \<Rightarrow>
        if acted \<noteq> None then 3 else if dismissed \<noteq> None then 2 else if shown \<noteq> None then 1 else 0)"

definition read_suggestion :: "row \<Rightarrow> (Hlc \<times> string option \<times> string option \<times> string option) option" where
  "read_suggestion r =
     Option.bind (row_hlc r) (\<lambda>h.
     Option.bind (get_opt_str (r ''shown_at'')) (\<lambda>shown.
     Option.bind (get_opt_str (r ''dismissed_at'')) (\<lambda>dismissed.
     Option.bind (get_opt_str (r ''acted_at'')) (\<lambda>acted.
     Some (h, shown, dismissed, acted)))))"

definition merge_suggestion :: "string \<Rightarrow> json \<Rightarrow> merge_state \<Rightarrow> StorageError + merge_state" where
  "merge_suggestion now v s =
     rbind (json_str v ''suggestion_id'') (\<lambda>sid.
     rbind (extract_hlc v) (\<lambda>remote_hlc.
     let remote_status = suggestion_status_ordinal v in
     case query_row_ok ''suggestions'' (key_is ''suggestion_id'' sid) read_suggestion (fst s) of
       None \<Rightarrow>
         rbind (json_params v ((''suggestion_id'', XStr) # suggestion_head_spec
                                @ (''created_at'', XStr) # suggestion_tail_spec)) (\<lambda>ps.
         rbind (sql_ctx ''insert suggestion'' (sql_insert now ''suggestions'' ps (fst s))) (\<lambda>db.
         Inr (db, (snd s)\<lparr>applied := applied (snd s) + 1\<rparr>)))
     | Some (local_hlc, marks) \<Rightarrow>
         let local_status = local_suggestion_status marks;
             remote_wins = (if remote_status \<noteq> local_status then remote_status > local_status
                            else is_after remote_hlc local_hlc)
         in if remote_wins then
              rbind (json_params v (suggestion_head_spec @ suggestion_tail_spec)) (\<lambda>ps.
              rbind (sql_ctx ''update suggestion''
                (sql_update ''suggestions'' ps (key_is ''suggestion_id'' sid) (fst s))) (\<lambda>db.
              Inr (db, (snd s)\<lparr>applied := applied (snd s) + 1\<rparr>)))
            else Inr (fst s, (snd s)\<lparr>skipped_lww := skipped_lww (snd s) + 1\<rparr>)))"

definition merge_param_snapshot :: "string \<Rightarrow> json \<Rightarrow> merge_state \<Rightarrow> StorageError + merge_state" where
  "merge_param_snapshot now v s =
     rbind (json_str v ''id'') (\<lambda>id.
     if row_exists ''trigger_params_snapshots'' (key_is ''id'' id) (fst s)
     then Inr (fst s, (snd s)\<lparr>skipped_dup := skipped_dup (snd s) + 1\<rparr>)
     else
       rbind (json_params v param_snapshot_spec) (\<lambda>ps.
       rbind (sql_ctx ''insert param_snapshot''
         (sql_insert now ''trigger_params_snapshots'' ps (fst s))) (\<lambda>db.
       Inr (db, (snd s)\<lparr>applied := applied (snd s) + 1\<rparr>))))"

section \<open>Applying a changeset\<close>

text \<open>\<open>handle_deletion_event\<close> runs one statement per table on the bare connection: a failing
  statement leaves the earlier deletions in place.\<close>

fun delete_origin :: "string list \<Rightarrow> string \<Rightarrow> sdb \<Rightarrow> nat \<Rightarrow> (StorageError + nat) \<times> sdb" where
  "delete_origin [] dev db n = (Inr n, db)"
| "delete_origin (t # ts) dev db n =
     (case sql_delete t (key_is ''origin_device_id'' dev) db of
        Inl e \<Rightarrow> (Inl (SqlFailed ''GDPR deletion'' e), db)
      | Inr (db', k) \<Rightarrow> delete_origin ts dev db' (n + k))"

definition handle_deletion_event :: "string \<Rightarrow> sdb \<Rightarrow> (StorageError + nat) \<times> sdb" where
  "handle_deletion_event dev db = delete_origin synced_tables dev db 0"

text \<open>The upsert of the peer's watermark.\<close>

definition peer_params :: "string \<Rightarrow> ChangeSet \<Rightarrow> (string \<times> param) list" where
  "peer_params now cs =
     [(''device_name'', PVal (SText (origin_device_name cs))), (''last_sync_at'', PVal (SText now)),
      (''watermark_wall_ms'', PU64 (wall_ms (watermark cs))),
      (''watermark_counter'', PVal (SInt (uint (counter (watermark cs)))))]"

definition update_sync_peers :: "string \<Rightarrow> ChangeSet \<Rightarrow> sdb \<Rightarrow> sql_error + sdb" where
  "update_sync_peers now cs db =
     (let p = key_is ''device_id'' (origin_device_id cs) in
      if row_exists ''sync_peers'' p db then sql_update ''sync_peers'' (peer_params now cs) p db
      else sql_insert now ''sync_peers''
             ((''device_id'', PVal (SText (origin_device_id cs))) # peer_params now cs) db)"

definition merge_all ::
  "(string \<Rightarrow> u8 list option) \<Rightarrow> string \<Rightarrow> ChangeSet \<Rightarrow> sdb \<Rightarrow> StorageError + merge_state" where
  "merge_all hexd now cs db =
     rbind (rfold (merge_segment now) (segments cs) (db, sync_result_default)) (\<lambda>s.
     rbind (rfold (merge_override now) (overrides cs) s) (\<lambda>s.
     rbind (rfold (merge_param_snapshot now) (param_snapshots cs) s) (\<lambda>s.
     rbind (rfold (merge_regime now) (regimes cs) s) (\<lambda>s.
     rbind (rfold (merge_embedding hexd now) (embeddings cs) s) (\<lambda>s.
     rbind (rfold (merge_suggestion now) (suggestions cs) s) (\<lambda>s.
     rbind (sql_ctx ''update sync_peers'' (update_sync_peers now cs (fst s))) (\<lambda>db'.
     Inr (db', snd s))))))))"

text \<open>The result and the database it leaves: a data changeset that fails is rolled back.\<close>

definition apply_changes ::
  "(string \<Rightarrow> u8 list option) \<Rightarrow> string \<Rightarrow> string \<Rightarrow> ChangeSet \<Rightarrow> sdb
     \<Rightarrow> (StorageError + SyncResult) \<times> sdb" where
  "apply_changes hexd now local_device_id cs db =
     (if kind cs = DeletionEvent then
        (case handle_deletion_event (origin_device_id cs) db of
           (Inl e, db') \<Rightarrow> (Inl e, db')
         | (Inr n, db') \<Rightarrow>
             (Inr (sync_result_default\<lparr>tombstoned := n, new_watermark := watermark cs\<rparr>), db'))
      else if origin_device_id cs = local_device_id then
        (Inr (sync_result_default\<lparr>new_watermark := watermark cs\<rparr>), db)
      else
        (case merge_all hexd now cs db of
           Inl e \<Rightarrow> (Inl e, db)
         | Inr (db', res) \<Rightarrow> (Inr (res\<lparr>new_watermark := watermark cs\<rparr>), db')))"

end
