(* ===== verification/LwwTable.thy ===== *)
theory LwwTable
  imports Prelude
begin

text \<open>
  The contract of a table that incoming rows are merged into by stamp: each row names a key and has an
  image in the table; merging it stores the image where the key is free or its present holder has a
  smaller stamp, and changes nothing else. The lemmas proved here once, that a batch of rows leaves
  the greatest stamp of every key and so does not depend on order or repetition, are used for every
  synced table. An append-only table is the instance whose stamps are all equal.
\<close>

text \<open>What a key may end up holding: what it held and what the rows carry for it.\<close>

definition lww_candidates ::
  "('t \<Rightarrow> 'i \<Rightarrow> 'r option) \<Rightarrow> ('j \<Rightarrow> 'i) \<Rightarrow> ('j \<Rightarrow> 'r) \<Rightarrow> 't \<Rightarrow> 'j list \<Rightarrow> 'i \<Rightarrow> 'r set" where
  "lww_candidates view ident img t js i =
     set_option (view t i) \<union> img ` {j \<in> set js. ident j = i}"

text \<open>The outcome for a key: nothing if there is no candidate, else one with the greatest stamp.\<close>

definition is_latest :: "('r \<Rightarrow> 's::linorder) \<Rightarrow> 'r set \<Rightarrow> 'r option \<Rightarrow> bool" where
  "is_latest stamp C o' =
     (case o' of None \<Rightarrow> C = {} | Some r \<Rightarrow> r \<in> C \<and> (\<forall>c \<in> C. stamp c \<le> stamp r))"

lemma is_latest_unique:
  assumes "is_latest stamp C x" "is_latest stamp C y" "inj_on stamp C"
  shows "x = y"
proof (cases x)
  case None
  with assms show ?thesis by (auto simp: is_latest_def split: option.splits)
next
  case (Some r1)
  with assms obtain r2 where r2: "y = Some r2" by (auto simp: is_latest_def split: option.splits)
  from Some r2 assms have "stamp r1 = stamp r2" by (auto simp: is_latest_def intro: antisym)
  with Some r2 assms show ?thesis by (auto simp: is_latest_def dest: inj_onD)
qed

lemma is_latest_extend:
  assumes "is_latest stamp C x" "is_latest stamp (set_option x \<union> D) y"
  shows "is_latest stamp (C \<union> D) y"
proof (cases x)
  case None
  with assms show ?thesis by (simp add: is_latest_def)
next
  case (Some r)
  then have r: "r \<in> C" "\<And>c. c \<in> C \<Longrightarrow> stamp c \<le> stamp r" using assms(1) by (auto simp: is_latest_def)
  obtain z where z: "y = Some z" "z = r \<or> z \<in> D" "stamp r \<le> stamp z" "\<And>d. d \<in> D \<Longrightarrow> stamp d \<le> stamp z"
    using assms(2) Some by (auto simp: is_latest_def split: option.splits)
  with r show ?thesis by (auto simp: is_latest_def intro: order_trans)
qed

locale lww_table =
  fixes view :: "'t \<Rightarrow> 'i \<Rightarrow> 'r option"
    and ident :: "'j \<Rightarrow> 'i"
    and img :: "'j \<Rightarrow> 'r"
    and stamp :: "'r \<Rightarrow> 's::linorder"
    and inv :: "'t \<Rightarrow> bool"
    and step :: "'j \<Rightarrow> 't \<Rightarrow> 'e + 't"
  assumes step_inv: "inv t \<Longrightarrow> step j t = Inr t' \<Longrightarrow> inv t'"
    and step_view: "inv t \<Longrightarrow> step j t = Inr t' \<Longrightarrow>
      view t' i = (if i = ident j \<and> (\<forall>l. view t i = Some l \<longrightarrow> stamp l < stamp (img j))
                   then Some (img j) else view t i)"
begin

abbreviation candidates :: "'t \<Rightarrow> 'j list \<Rightarrow> 'i \<Rightarrow> 'r set" where
  "candidates \<equiv> lww_candidates view ident img"

lemma batch_inv: "rfold step js t = Inr t' \<Longrightarrow> inv t \<Longrightarrow> inv t'"
  by (erule rfold_invariant) (auto intro: step_inv)

lemma batch_view:
  assumes "rfold step js t = Inr t'" "inv t"
  shows "is_latest stamp (candidates t js i) (view t' i)"
  using assms
proof (induction js arbitrary: t)
  case Nil
  then show ?case by (auto simp: is_latest_def lww_candidates_def split: option.splits)
next
  case (Cons j js)
  from Cons.prems obtain t1 where t1: "step j t = Inr t1" "rfold step js t1 = Inr t'"
    by (auto simp: result_simps)
  have view1: "view t1 i = (if i = ident j \<and> (\<forall>l. view t i = Some l \<longrightarrow> stamp l < stamp (img j))
                   then Some (img j) else view t i)"
    using Cons.prems(2) t1(1) by (rule step_view)
  have IH: "is_latest stamp (candidates t1 js i) (view t' i)"
    using Cons.IH [OF t1(2)] step_inv [OF Cons.prems(2) t1(1)] by blast
  show ?case
  proof (cases "i = ident j")
    case True
    show ?thesis
      using IH view1 True
      by (cases "view t i")
        (force simp: is_latest_def lww_candidates_def split: option.splits if_splits)+
  next
    case False
    have "candidates t (j # js) i = candidates t1 js i"
      using False view1 by (auto simp: lww_candidates_def)
    with IH show ?thesis by (simp only:)
  qed
qed

lemma framed_batch_view:
  assumes "\<exists>s s'. rfold step js s = Inr s' \<and> view s = view t \<and> view t' = view s'" "\<And>s. inv s"
  shows "is_latest stamp (candidates t js i) (view t' i)"
proof -
  from assms(1) obtain s s' where s: "rfold step js s = Inr s'" "view s = view t" "view t' = view s'" by blast
  from batch_view [OF s(1) assms(2), of i] s(2,3) show ?thesis by (simp add: lww_candidates_def)
qed

lemma batch_converges:
  assumes "rfold step js t = Inr t1" "rfold step js' t = Inr t2" "inv t"
    and "set js = set js'" "inj_on stamp (candidates t js i)"
  shows "view t1 i = view t2 i"
proof -
  have "candidates t js i = candidates t js' i" using assms(4) by (simp add: lww_candidates_def)
  with batch_view [OF assms(1,3), of i] batch_view [OF assms(2,3), of i] assms(5)
  show ?thesis by (metis is_latest_unique)
qed

text \<open>Two batches in either order, with anything in between that leaves the views alone.\<close>

lemma two_batches_latest:
  assumes "rfold step js t = Inr t1" "view t1' = view t1" "rfold step ks t1' = Inr t2" "inv t" "inv t1'"
  shows "is_latest stamp (candidates t (js @ ks) i) (view t2 i)"
proof -
  have "is_latest stamp (set_option (view t1 i) \<union> img ` {j \<in> set ks. ident j = i}) (view t2 i)"
    using batch_view [OF assms(3,5), of i] assms(2) by (simp add: lww_candidates_def)
  from is_latest_extend [OF batch_view [OF assms(1,4), of i] this]
  show ?thesis by (simp add: lww_candidates_def image_Un Un_assoc Collect_disj_eq conj_disj_distribR)
qed

lemma two_batches_commute:
  assumes "rfold step js t = Inr t1" "view t1' = view t1" "rfold step ks t1' = Inr t2"
    and "rfold step ks u = Inr u1" "view u1' = view u1" "rfold step js u1' = Inr u2"
    and "view u = view t" "inv t" "inv t1'" "inv u" "inv u1'"
    and "inj_on stamp (candidates t (js @ ks) i)"
  shows "view t2 i = view u2 i"
proof -
  have "candidates u (ks @ js) i = candidates t (js @ ks) i"
    using assms(7) by (auto simp: lww_candidates_def)
  with two_batches_latest [OF assms(1-3,8,9), of i] two_batches_latest [OF assms(4-6,10,11), of i] assms(12)
  show ?thesis by (metis is_latest_unique)
qed

lemma batch_never_older:
  assumes "rfold step js t = Inr t'" "inv t" "view t i = Some l"
  shows "\<exists>r. view t' i = Some r \<and> stamp l \<le> stamp r"
  using batch_view [OF assms(1,2), of i] assms(3)
  by (auto simp: is_latest_def lww_candidates_def split: option.splits)

lemma batch_again:
  assumes "rfold step js t = Inr t1" "rfold step js t1 = Inr t2" "inv t"
  shows "view t2 i = view t1 i"
proof -
  have inv1: "inv t1" using assms(1,3) by (rule batch_inv)
  have "\<And>us s s'. rfold step us s = Inr s' \<Longrightarrow> inv s \<Longrightarrow> set us \<subseteq> set js \<Longrightarrow> view s = view t1 \<Longrightarrow>
          view s' i = view t1 i"
  proof -
    fix us s s'
    show "rfold step us s = Inr s' \<Longrightarrow> inv s \<Longrightarrow> set us \<subseteq> set js \<Longrightarrow> view s = view t1 \<Longrightarrow>
          view s' i = view t1 i"
    proof (induction us arbitrary: s)
      case (Cons u us)
      then obtain s1 where s1: "step u s = Inr s1" "rfold step us s1 = Inr s'"
        by (auto simp: result_simps)
      have "view s1 k = view t1 k" for k
        using batch_view [OF assms(1,3), of k] step_view [OF Cons.prems(2) s1(1), of k] Cons.prems(3,4)
        by (cases "k = ident u") (force simp: is_latest_def lww_candidates_def split: option.splits if_splits)+
      then show ?case
        using Cons.IH [OF s1(2)] step_inv [OF Cons.prems(2) s1(1)] Cons.prems(3) by auto
    qed simp
  qed
  from this [OF assms(2) inv1] show ?thesis by simp
qed

end

text \<open>
  A replica takes changesets one after the other; it may refuse one. The contract of a replica: a
  changeset that is accepted leaves, for every key, the latest of what was there and what the
  changeset's rows carry.
\<close>

fun deliver :: "('c \<Rightarrow> 't \<Rightarrow> 't) \<Rightarrow> 'c list \<Rightarrow> 't \<Rightarrow> 't" where
  "deliver app [] t = t"
| "deliver app (c # cs) t = deliver app cs (app c t)"

fun all_accepted :: "('c \<Rightarrow> 't \<Rightarrow> bool) \<Rightarrow> ('c \<Rightarrow> 't \<Rightarrow> 't) \<Rightarrow> 'c list \<Rightarrow> 't \<Rightarrow> bool" where
  "all_accepted acc app [] t = True"
| "all_accepted acc app (c # cs) t = (acc c t \<and> all_accepted acc app cs (app c t))"

lemma deliver_invariant:
  assumes "all_accepted acc app cs t" "P t" "\<And>c t. acc c t \<Longrightarrow> P t \<Longrightarrow> P (app c t)"
  shows "P (deliver app cs t)"
  using assms(1,2) by (induction cs arbitrary: t) (auto intro: assms(3))

locale lww_replica =
  fixes view :: "'t \<Rightarrow> 'i \<Rightarrow> 'r option"
    and ident :: "'j \<Rightarrow> 'i"
    and img :: "'j \<Rightarrow> 'r"
    and stamp :: "'r \<Rightarrow> 's::linorder"
    and rows :: "'c \<Rightarrow> 'j list"
    and acc :: "'c \<Rightarrow> 't \<Rightarrow> bool"
    and app :: "'c \<Rightarrow> 't \<Rightarrow> 't"
  assumes app_latest: "acc c t \<Longrightarrow> is_latest stamp (lww_candidates view ident img t (rows c) i) (view (app c t) i)"
begin

lemma deliver_latest:
  "all_accepted acc app cs t \<Longrightarrow>
     is_latest stamp (lww_candidates view ident img t (concat (map rows cs)) i) (view (deliver app cs t) i)"
proof (induction cs arbitrary: t)
  case Nil
  then show ?case by (auto simp: is_latest_def lww_candidates_def split: option.splits)
next
  case (Cons c cs)
  from Cons have IH: "is_latest stamp
      (set_option (view (app c t) i) \<union> img ` {j \<in> set (concat (map rows cs)). ident j = i})
      (view (deliver app (c # cs) t) i)"
    unfolding lww_candidates_def by simp
  from Cons.prems have "is_latest stamp (lww_candidates view ident img t (rows c) i) (view (app c t) i)"
    by (simp add: app_latest)
  from is_latest_extend [OF this IH] show ?case
    by (simp add: lww_candidates_def image_Un Un_assoc Collect_disj_eq conj_disj_distribR)
qed

lemma deliveries_converge:
  assumes "all_accepted acc app cs t" "all_accepted acc app ds t"
    and "set (concat (map rows cs)) = set (concat (map rows ds))"
    and "inj_on stamp (lww_candidates view ident img t (concat (map rows cs)) i)"
  shows "view (deliver app cs t) i = view (deliver app ds t) i"
proof -
  have "lww_candidates view ident img t (concat (map rows ds)) i
      = lww_candidates view ident img t (concat (map rows cs)) i"
    using assms(3) by (simp add: lww_candidates_def)
  with deliver_latest [OF assms(1), of i] deliver_latest [OF assms(2), of i] assms(4)
  show ?thesis by (metis is_latest_unique)
qed

lemma deliver_never_older:
  assumes "all_accepted acc app cs t" "view t i = Some l"
  shows "\<exists>r. view (deliver app cs t) i = Some r \<and> stamp l \<le> stamp r"
  using deliver_latest [OF assms(1), of i] assms(2)
  by (auto simp: is_latest_def lww_candidates_def split: option.splits)

end

end
