(* ===== verification/SyncConvergence.thy ===== *)
theory SyncConvergence
  imports SyncMerger LwwTable
begin

text \<open>
  The merge functions meet the contract of \<open>LwwTable\<close>: what each table shows of a key (its view,
  the columns the merge writes), the image an incoming JSON row has there, and the stamp that decides.
  From the interpretations follow convergence, idempotence and monotonicity of the merge.
\<close>

section \<open>Statements on the rows of a table\<close>

lemma find_append: "find p (xs @ ys) = (case find p xs of None \<Rightarrow> find p ys | Some x \<Rightarrow> Some x)"
  by (induction xs) auto

lemma find_map_stable:
  assumes "\<And>r. q (f r) = q r"
  shows "find q (map f rs) = map_option f (find q rs)"
  using assms by (induction rs) auto

lemma bind_params_keys: "bind_params ps = Inr vs \<Longrightarrow> map fst vs = map fst ps"
  by (induction ps arbitrary: vs) (auto simp: result_simps)

lemma json_params_keys: "json_params v xs = Inr ps \<Longrightarrow> map fst ps = map fst xs"
  by (induction xs arbitrary: ps) (auto simp: result_simps)

lemma sql_insert_rows:
  assumes "sql_insert now t ps db = Inr db'"
  obtains vs r where "bind_params ps = Inr vs"
    and "r = (if autoincrement (schema_of t)
              then (new_row now (schema_of t) vs)(''id'' := SInt (tseq (tables db t) + 1))
              else new_row now (schema_of t) vs)"
    and "rows_of db' t = rows_of db t @ [r]"
    and "check_notnull (schema_of t) r = Inr ()"
    and "check_unique (schema_of t) (rows_of db t) r = Inr ()"
    and "tseq (tables db' t) = (if autoincrement (schema_of t) then tseq (tables db t) + 1
                                else tseq (tables db t))"
    and "\<And>t'. t' \<noteq> t \<Longrightarrow> tables db' t' = tables db t'"
    and "fk_on db' = fk_on db"
  using assms
  by (auto simp: sql_insert_def Let_def result_simps rows_of_def)

lemma check_unique_ok:
  assumes "check_unique sch rs r = Inr ()" "c \<in> set (unique_cols sch)" "r c \<noteq> SNull" "r' \<in> set rs"
  shows "r' c \<noteq> r c"
  using assms by (auto simp: check_unique_def find_None_iff' split: option.splits)

lemma sql_update_rows:
  assumes "sql_update t ps p db = Inr db'"
  obtains vs where "bind_params ps = Inr vs"
    and "rows_of db' t = map (\<lambda>r. if p r then assign vs r else r) (rows_of db t)"
    and "\<And>t'. t' \<noteq> t \<Longrightarrow> tables db' t' = tables db t'"
    and "tseq (tables db' t) = tseq (tables db t)"
    and "fk_on db' = fk_on db"
  using assms
  by (auto simp: sql_update_def Let_def result_simps rows_of_def set_rows_def)

section \<open>Images of JSON rows\<close>

definition project :: "string list \<Rightarrow> row \<Rightarrow> row" where
  "project cs r c = (if c \<in> set cs then r c else SNull)"

text \<open>The value that each column of a list of extractors takes from a JSON row, and what the tables
  show of a key.\<close>

definition row_image :: "json \<Rightarrow> (string \<times> col_extractor) list \<Rightarrow> row" where
  "row_image v xs c =
     (case map_of xs c of None \<Rightarrow> SNull
      | Some x \<Rightarrow> (case rbind (case extract_param v c x of Inl _ \<Rightarrow> Inl IntegerOutOfRange | Inr p \<Rightarrow> Inr p)
                         bind_param of
                    Inl _ \<Rightarrow> SNull | Inr val \<Rightarrow> val))"

definition keyed_view :: "string \<Rightarrow> string \<Rightarrow> string list \<Rightarrow> sdb \<Rightarrow> string \<Rightarrow> row option" where
  "keyed_view t k cs db i = map_option (project cs) (find (key_is k i) (rows_of db t))"

lemma map_of_keyD: "map_of xs c = Some x \<Longrightarrow> c \<in> fst ` set xs"
  by (drule map_of_SomeD) force

lemma map_of_key_iff: "c \<in> fst ` set xs \<longleftrightarrow> (\<exists>x. map_of xs c = Some x)"
  by (metis map_of_keyD map_of_eq_None_iff not_None_eq)

lemma fst_set_keys: "map fst vs = map fst xs \<Longrightarrow> fst ` set vs = fst ` set xs"
  by (metis list.set_map)

lemma project_column:
  "project (map fst xs) r c = (case map_of xs c of None \<Rightarrow> SNull | Some _ \<Rightarrow> r c)"
proof (cases "map_of xs c")
  case None
  then have "c \<notin> fst ` set xs" by (simp add: map_of_eq_None_iff)
  with None show ?thesis by (simp add: project_def)
next
  case (Some x)
  then have "c \<in> fst ` set xs" by (rule map_of_keyD)
  with Some show ?thesis by (simp add: project_def)
qed

lemma params_column_ex:
  assumes "json_params v xs = Inr ps" "bind_params ps = Inr vs" "map_of xs c = Some x"
  shows "\<exists>p val. extract_param v c x = Inr p \<and> bind_param p = Inr val \<and> map_of vs c = Some val"
  using assms
proof (induction xs arbitrary: ps vs)
  case (Cons cx xs)
  then show ?case by (cases cx) (auto simp: result_simps split: if_splits)
qed simp

lemma params_column:
  assumes "json_params v xs = Inr ps" "bind_params ps = Inr vs" "map_of xs c = Some x"
  shows "map_of vs c = Some (row_image v xs c)"
  using params_column_ex [OF assms] assms(3) by (auto simp: row_image_def)

lemma params_no_column:
  assumes "json_params v xs = Inr ps" "bind_params ps = Inr vs" "map_of xs c = None"
  shows "map_of vs c = None"
proof -
  have "fst ` set vs = fst ` set xs"
    using bind_params_keys [OF assms(2)] json_params_keys [OF assms(1)] by (metis fst_set_keys)
  with assms(3) show ?thesis by (auto simp: map_of_eq_None_iff)
qed

lemma row_image_cong: "map_of xs c = map_of ys c \<Longrightarrow> row_image v xs c = row_image v ys c"
  by (simp add: row_image_def)

lemma row_image_key: "json_str v k = Inr i \<Longrightarrow> map_of xs k = Some XStr \<Longrightarrow> row_image v xs k = SText i"
  by (simp add: row_image_def)

lemma row_image_outside: "map_of xs c = None \<Longrightarrow> row_image v xs c = SNull"
  by (simp add: row_image_def)

lemma project_insert:
  assumes "json_params v ys = Inr ps" "bind_params ps = Inr vs"
    and "\<And>c x. map_of xs c = Some x \<Longrightarrow> map_of ys c = Some x"
  shows "project (map fst xs) (new_row now sch vs) = row_image v xs"
proof
  fix c
  show "project (map fst xs) (new_row now sch vs) c = row_image v xs c"
  proof (cases "map_of xs c")
    case None
    then show ?thesis by (simp add: project_column row_image_outside)
  next
    case (Some x)
    then have "map_of vs c = Some (row_image v ys c)" and "row_image v ys c = row_image v xs c"
      using assms params_column row_image_cong by auto
    with Some show ?thesis by (simp add: project_column new_row_def)
  qed
qed

lemma project_update:
  assumes "json_params v us = Inr ps" "bind_params ps = Inr vs"
    and "xs = (k, XStr) # us" "map_of us k = None" "r k = SText i" "json_str v k = Inr i"
  shows "project (map fst xs) (assign vs r) = row_image v xs"
proof
  fix c
  show "project (map fst xs) (assign vs r) c = row_image v xs c"
  proof (cases "map_of us c")
    case None
    then have "map_of vs c = None" using assms(1,2) params_no_column by blast
    moreover have "row_image v xs c = (if c = k then SText i else SNull)"
      using None assms(3) row_image_key [OF assms(6), of xs] by (auto simp: row_image_outside)
    ultimately show ?thesis
      unfolding project_column using None assms(3,5) by (auto simp: assign_def)
  next
    case (Some x)
    then have "map_of vs c = Some (row_image v us c)" using assms(1,2) params_column by blast
    moreover have xs: "map_of xs c = Some x" using Some assms(3,4) by auto
    moreover have "row_image v us c = row_image v xs c" using Some xs by (simp add: row_image_def)
    ultimately show ?thesis unfolding project_column by (simp add: assign_def)
  qed
qed

section \<open>Keyed tables\<close>

lemma keyed_view_insert:
  assumes ins: "sql_insert now t ps db = Inr db'"
    and ps: "json_params v ys = Inr ps" "\<And>c x. map_of xs c = Some x \<Longrightarrow> map_of ys c = Some x"
    and key: "map_of xs k = Some XStr" "json_str v k = Inr i0"
    and sch: "k \<in> set (unique_cols (schema_of t))"
      "autoincrement (schema_of t) \<Longrightarrow> map_of xs ''id'' = None"
  shows "keyed_view t k (map fst xs) db i0 = None"
    and "keyed_view t k (map fst xs) db' i =
      (if i = i0 then Some (row_image v xs) else keyed_view t k (map fst xs) db i)"
proof -
  from ins obtain vs r where vs: "bind_params ps = Inr vs"
    and r: "r = (if autoincrement (schema_of t)
              then (new_row now (schema_of t) vs)(''id'' := SInt (tseq (tables db t) + 1))
              else new_row now (schema_of t) vs)"
    and rows: "rows_of db' t = rows_of db t @ [r]"
    and uniq: "check_unique (schema_of t) (rows_of db t) r = Inr ()"
    by (rule sql_insert_rows)
  have proj: "project (map fst xs) r = row_image v xs"
  proof -
    have "project (map fst xs) r = project (map fst xs) (new_row now (schema_of t) vs)"
      using sch(2) by (auto simp: r project_def fun_eq_iff map_of_eq_None_iff)
    then show ?thesis using project_insert [OF ps(1) vs ps(2)] by simp
  qed
  have rk: "r k = SText i0"
    using fun_cong [OF proj, of k] row_image_key [OF key(2,1)] key(1) by (simp add: project_column)
  have absent: "find (key_is k i0) (rows_of db t) = None"
    using check_unique_ok [OF uniq sch(1)] rk by (auto simp: find_None_iff')
  then show "keyed_view t k (map fst xs) db i0 = None" by (simp add: keyed_view_def)
  show "keyed_view t k (map fst xs) db' i =
      (if i = i0 then Some (row_image v xs) else keyed_view t k (map fst xs) db i)"
    using absent rk proj by (auto simp: keyed_view_def rows find_append split: option.splits)
qed

lemma keyed_view_update:
  assumes upd: "sql_update t ps (key_is k i0) db = Inr db'"
    and ps: "json_params v us = Inr ps" "xs = (k, XStr) # us" "map_of us k = None"
    and key: "json_str v k = Inr i0" "find (key_is k i0) (rows_of db t) = Some r0"
  shows "keyed_view t k (map fst xs) db' i =
      (if i = i0 then Some (row_image v xs) else keyed_view t k (map fst xs) db i)"
proof -
  from upd obtain vs where vs: "bind_params ps = Inr vs"
    and rows: "rows_of db' t = map (\<lambda>r. if key_is k i0 r then assign vs r else r) (rows_of db t)"
    by (rule sql_update_rows)
  have keep: "assign vs r k = r k" for r
    using params_no_column [OF ps(1) vs ps(3)] by (simp add: assign_def)
  have r0: "r0 k = SText i0" using find_SomeD [OF key(2)] by simp
  have found: "find (key_is k j) (rows_of db' t) =
      map_option (\<lambda>r. if key_is k i0 r then assign vs r else r) (find (key_is k j) (rows_of db t))" for j
    unfolding rows by (rule find_map_stable) (auto simp: keep)
  show ?thesis
  proof (cases "i = i0")
    case True
    then show ?thesis
      using found [of i] key(2) r0 project_update [OF ps(1) vs ps(2,3), of r0 i0] key(1)
      by (simp add: keyed_view_def)
  next
    case False
    then show ?thesis
      using found [of i]
      by (cases "find (key_is k i) (rows_of db t)") (auto simp: keyed_view_def dest: find_SomeD)
  qed
qed

text \<open>Tables other than the one a statement names keep their rows, hence their views.\<close>

lemma keyed_view_frame: "tables db' t = tables db t \<Longrightarrow> keyed_view t k cs db' = keyed_view t k cs db"
  by (simp add: keyed_view_def rows_of_def fun_eq_iff)

section \<open>Stamps\<close>

lemma get_u32_uint [simp]: "get_u32 (SInt (uint (w :: u32))) = Some w"
proof -
  have "uint w < 4294967296" using uint_lt2p [of w] by simp
  then show ?thesis by simp
qed

lemma get_opt_str_opt_text [simp]: "get_opt_str (opt_text x) = Some x"
  by (cases x) (auto simp: opt_text_def)

definition stored_hlc :: "row \<Rightarrow> Hlc" where
  "stored_hlc r = case_option hlc_default id (row_hlc r)"

definition has_hlc_columns :: "(string \<times> col_extractor) list \<Rightarrow> bool" where
  "has_hlc_columns xs \<longleftrightarrow> map_of xs ''hlc_wall_ms'' = Some XU64 \<and> map_of xs ''hlc_counter'' = Some XU32
     \<and> map_of xs ''origin_device_id'' = Some XStr"

lemma row_hlc_project: "has_hlc_columns xs \<Longrightarrow> row_hlc (project (map fst xs) r) = row_hlc r"
  by (auto simp: row_hlc_def project_def has_hlc_columns_def dest: map_of_keyD)

text \<open>An image carries the row's stamp, or none at all when its wall time does not fit the column.\<close>

lemma row_hlc_image:
  assumes "extract_hlc v = Inr h" "has_hlc_columns xs"
  shows "row_hlc (row_image v xs) = (if uint (wall_ms h) \<le> i64_max then Some h else None)"
proof -
  have "row_image v xs ''hlc_wall_ms'' =
      (if uint (wall_ms h) \<le> i64_max then SInt (uint (wall_ms h)) else SNull)"
    and "row_image v xs ''hlc_counter'' = SInt (uint (counter h))"
    and "row_image v xs ''origin_device_id'' = SText (device_id h)"
    using assms by (auto simp: extract_hlc_def has_hlc_columns_def row_image_def result_simps)
  then show ?thesis by (simp add: row_hlc_def del: get_u32.simps)
qed

lemma hlc_default_least: "hlc_default \<le> (h :: Hlc)"
  by (auto simp: hlc_less_eq_iff hlc_key_def hlc_default_def word_le_nat_alt)

lemma params_wall_fits:
  assumes "json_params v ys = Inr ps" "bind_params ps = Inr vs" "has_hlc_columns ys" "extract_hlc v = Inr h"
  shows "uint (wall_ms h) \<le> i64_max"
  using params_column_ex [OF assms(1,2), of "''hlc_wall_ms''" XU64] assms(3,4)
  by (auto simp: has_hlc_columns_def extract_hlc_def result_simps split: if_splits)

section \<open>Regimes: last writer wins\<close>

definition regime_spec :: "(string \<times> col_extractor) list" where
  "regime_spec = (''id'', XStr) # regime_update_spec"

definition regime_view :: "merge_state \<Rightarrow> string \<Rightarrow> row option" where
  "regime_view s = keyed_view ''regimes'' ''id'' (map fst regime_spec) (fst s)"

definition key_of :: "string \<Rightarrow> json \<Rightarrow> string" where
  "key_of k v = case_option [] id (json_str_opt v k)"

lemma key_of_eq: "json_str v k = Inr i \<Longrightarrow> key_of k v = i"
  by (auto simp: key_of_def json_str_def json_str_opt_def)

lemma regime_spec_facts:
  "has_hlc_columns regime_spec" "map_of regime_update_spec ''id'' = None"
  by (simp_all add: regime_spec_def regime_update_spec_def hlc_spec_def has_hlc_columns_def)

lemma regimes_schema_facts:
  "''id'' \<in> set (unique_cols (schema_of ''regimes''))" "\<not> autoincrement (schema_of ''regimes'')"
  by (simp_all add: schema_of_def regimes_schema_def)

lemma stored_hlc_image_cases:
  assumes "extract_hlc v = Inr h" "has_hlc_columns xs"
  shows "stored_hlc (row_image v xs) = h \<or> stored_hlc (row_image v xs) = hlc_default"
  using row_hlc_image [OF assms] by (auto simp: stored_hlc_def)

lemma merge_regime_view:
  assumes "merge_regime now v s = Inr s'"
  shows "regime_view s' i =
    (if i = key_of ''id'' v
        \<and> (\<forall>l. regime_view s i = Some l \<longrightarrow> stored_hlc l < stored_hlc (row_image v regime_spec))
     then Some (row_image v regime_spec) else regime_view s i)"
proof -
  obtain i0 h where i0: "json_str v ''id'' = Inr i0" and h: "extract_hlc v = Inr h"
    using assms by (auto simp: merge_regime_def result_simps)
  note ident = key_of_eq [OF i0]
  show ?thesis
  proof (cases "query_row_ok ''regimes'' (key_is ''id'' i0) row_hlc (fst s)")
    case None
    then obtain ps where ps: "json_params v regime_spec = Inr ps"
      and ins: "sql_insert now ''regimes'' ps (fst s) = Inr (fst s')"
      using assms i0 h by (auto simp: merge_regime_def result_simps regime_spec_def)
    have "map_of regime_spec ''id'' = Some XStr" by (simp add: regime_spec_def)
    from keyed_view_insert [OF ins ps _ this i0 regimes_schema_facts(1)] regimes_schema_facts(2)
    show ?thesis by (simp add: regime_view_def ident)
  next
    case (Some lh)
    then obtain r0 where r0: "find (key_is ''id'' i0) (rows_of (fst s) ''regimes'') = Some r0"
      and lh: "row_hlc r0 = Some lh"
      by (auto simp: query_row_ok_def bind_eq_Some_conv)
    have held: "regime_view s i0 = Some (project (map fst regime_spec) r0)"
      by (simp add: regime_view_def keyed_view_def r0)
    have stamp0: "stored_hlc (project (map fst regime_spec) r0) = lh"
      using row_hlc_project [OF regime_spec_facts(1)] lh by (simp add: stored_hlc_def)
    show ?thesis
    proof (cases "is_after h lh")
      case False
      then have "fst s' = fst s" using assms i0 h Some by (auto simp: merge_regime_def)
      moreover have "\<not> lh < stored_hlc (row_image v regime_spec)"
        using False stored_hlc_image_cases [OF h regime_spec_facts(1)] hlc_default_least [of lh]
        by (auto simp: is_after_def)
      ultimately show ?thesis using held stamp0 by (auto simp: ident regime_view_def)
    next
      case True
      then obtain ps where ps: "json_params v regime_update_spec = Inr ps"
        and upd: "sql_update ''regimes'' ps (key_is ''id'' i0) (fst s) = Inr (fst s')"
        using assms i0 h Some by (auto simp: merge_regime_def result_simps)
      obtain vs where vs: "bind_params ps = Inr vs" using upd by (rule sql_update_rows)
      have "uint (wall_ms h) \<le> i64_max"
        using params_wall_fits [OF ps vs _ h] regime_spec_facts by (simp add: has_hlc_columns_def regime_spec_def)
      then have "stored_hlc (row_image v regime_spec) = h"
        using row_hlc_image [OF h regime_spec_facts(1)] by (simp add: stored_hlc_def)
      moreover note keyed_view_update [OF upd ps regime_spec_def regime_spec_facts(2) i0 r0]
      ultimately show ?thesis
        using True held stamp0 by (auto simp: ident regime_view_def is_after_def)
    qed
  qed
qed

interpretation regimes_lww: lww_table regime_view "key_of ''id''" "\<lambda>v. row_image v regime_spec"
  stored_hlc "\<lambda>_. True" "merge_regime now" for now
  by unfold_locales (blast | rule merge_regime_view)+

section \<open>Suggestions: the further status wins, then the later writer\<close>

definition suggestion_spec :: "(string \<times> col_extractor) list" where
  "suggestion_spec = (''suggestion_id'', XStr) # suggestion_head_spec @ suggestion_tail_spec"

definition suggestion_view :: "merge_state \<Rightarrow> string \<Rightarrow> row option" where
  "suggestion_view s = keyed_view ''suggestions'' ''suggestion_id'' (map fst suggestion_spec) (fst s)"

definition suggestion_stamp :: "row \<Rightarrow> nat \<times> Hlc" where
  "suggestion_stamp r =
     (case read_suggestion r of None \<Rightarrow> (0, hlc_default)
      | Some (h, marks) \<Rightarrow> (local_suggestion_status marks, h))"

lemmas suggestion_spec_defs =
  suggestion_spec_def suggestion_head_spec_def suggestion_tail_spec_def hlc_spec_def

lemma suggestion_spec_facts:
  "has_hlc_columns suggestion_spec" "has_hlc_columns (suggestion_head_spec @ suggestion_tail_spec)"
  "map_of (suggestion_head_spec @ suggestion_tail_spec) ''suggestion_id'' = None"
  "map_of suggestion_spec ''shown_at'' = Some XStrOpt"
  "map_of suggestion_spec ''dismissed_at'' = Some XStrOpt"
  "map_of suggestion_spec ''acted_at'' = Some XStrOpt"
  "map_of suggestion_spec ''suggestion_id'' = Some XStr"
  "map_of suggestion_spec ''id'' = None"
  by (simp_all add: suggestion_spec_defs has_hlc_columns_def)

lemma suggestions_schema_facts:
  "''suggestion_id'' \<in> set (unique_cols (schema_of ''suggestions''))"
  by (simp add: schema_of_def suggestions_schema_def)

lemma suggestion_insert_covers:
  "map_of suggestion_spec c = Some x \<Longrightarrow>
   map_of ((''suggestion_id'', XStr) # suggestion_head_spec @ (''created_at'', XStr) # suggestion_tail_spec) c
     = Some x"
  by (auto simp: suggestion_spec_defs split: if_splits)

lemma read_suggestion_project:
  "read_suggestion (project (map fst suggestion_spec) r) = read_suggestion r"
  by (simp add: read_suggestion_def row_hlc_project [OF suggestion_spec_facts(1)] project_column
      suggestion_spec_facts)

lemma suggestion_stamp_image:
  assumes "extract_hlc v = Inr h"
  shows "suggestion_stamp (row_image v suggestion_spec) =
    (if uint (wall_ms h) \<le> i64_max then (suggestion_status_ordinal v, h) else (0, hlc_default))"
proof -
  have "row_image v suggestion_spec ''shown_at'' = opt_text (json_str_opt v ''shown_at'')"
    "row_image v suggestion_spec ''dismissed_at'' = opt_text (json_str_opt v ''dismissed_at'')"
    "row_image v suggestion_spec ''acted_at'' = opt_text (json_str_opt v ''acted_at'')"
    by (simp_all add: row_image_def suggestion_spec_facts)
  then show ?thesis
    using row_hlc_image [OF assms suggestion_spec_facts(1)]
    by (simp add: suggestion_stamp_def read_suggestion_def local_suggestion_status_def
        suggestion_status_ordinal_def)
qed

lemma stamp_least: "((0 :: nat), hlc_default) \<le> x"
  by (cases x) (use hlc_default_least in \<open>auto simp: less_eq_prod_def\<close>)

lemma merge_suggestion_view:
  assumes "merge_suggestion now v s = Inr s'"
  shows "suggestion_view s' i =
    (if i = key_of ''suggestion_id'' v
        \<and> (\<forall>l. suggestion_view s i = Some l \<longrightarrow>
               suggestion_stamp l < suggestion_stamp (row_image v suggestion_spec))
     then Some (row_image v suggestion_spec) else suggestion_view s i)"
proof -
  obtain i0 h where i0: "json_str v ''suggestion_id'' = Inr i0" and h: "extract_hlc v = Inr h"
    using assms by (auto simp: merge_suggestion_def result_simps)
  note ident = key_of_eq [OF i0]
  show ?thesis
  proof (cases "query_row_ok ''suggestions'' (key_is ''suggestion_id'' i0) read_suggestion (fst s)")
    case None
    then obtain ps where
      ps: "json_params v ((''suggestion_id'', XStr) # suggestion_head_spec
                           @ (''created_at'', XStr) # suggestion_tail_spec) = Inr ps"
      and ins: "sql_insert now ''suggestions'' ps (fst s) = Inr (fst s')"
      using assms i0 h by (auto simp: merge_suggestion_def result_simps)
    from keyed_view_insert [OF ins ps suggestion_insert_covers suggestion_spec_facts(7) i0
        suggestions_schema_facts suggestion_spec_facts(8)]
    show ?thesis by (simp add: suggestion_view_def ident)
  next
    case (Some hm)
    obtain lh marks where hm: "hm = (lh, marks)" by (cases hm) auto
    with Some obtain r0 where
      r0: "find (key_is ''suggestion_id'' i0) (rows_of (fst s) ''suggestions'') = Some r0"
      and rd: "read_suggestion r0 = Some (lh, marks)"
      by (auto simp: query_row_ok_def bind_eq_Some_conv)
    have held: "suggestion_view s i0 = Some (project (map fst suggestion_spec) r0)"
      by (simp add: suggestion_view_def keyed_view_def r0)
    have stamp0: "suggestion_stamp (project (map fst suggestion_spec) r0)
        = (local_suggestion_status marks, lh)"
      by (simp add: suggestion_stamp_def read_suggestion_project rd)
    let ?wins = "(local_suggestion_status marks, lh) < (suggestion_status_ordinal v, h)"
    have wins: "(if suggestion_status_ordinal v \<noteq> local_suggestion_status marks
          then suggestion_status_ordinal v > local_suggestion_status marks else is_after h lh) = ?wins"
      by (auto simp: is_after_def)
    show ?thesis
    proof (cases ?wins)
      case False
      then have "fst s' = fst s"
        using assms i0 h Some hm wins by (auto simp: merge_suggestion_def Let_def split: if_splits)
      moreover have "\<not> (local_suggestion_status marks, lh) < suggestion_stamp (row_image v suggestion_spec)"
        using False stamp_least [of "(local_suggestion_status marks, lh)"]
        by (simp only: suggestion_stamp_image [OF h] not_less split: if_split) auto
      ultimately show ?thesis using held stamp0 by (auto simp: ident suggestion_view_def)
    next
      case True
      then obtain ps where ps: "json_params v (suggestion_head_spec @ suggestion_tail_spec) = Inr ps"
        and upd: "sql_update ''suggestions'' ps (key_is ''suggestion_id'' i0) (fst s) = Inr (fst s')"
        using assms i0 h Some hm wins by (auto simp: merge_suggestion_def Let_def result_simps split: if_splits)
      obtain vs where vs: "bind_params ps = Inr vs" using upd by (rule sql_update_rows)
      have "uint (wall_ms h) \<le> i64_max"
        by (rule params_wall_fits [OF ps vs suggestion_spec_facts(2) h])
      then have "suggestion_stamp (row_image v suggestion_spec) = (suggestion_status_ordinal v, h)"
        by (simp add: suggestion_stamp_image [OF h])
      moreover note keyed_view_update [OF upd ps suggestion_spec_def suggestion_spec_facts(3) i0 r0]
      ultimately show ?thesis
        using True held stamp0 by (auto simp: ident suggestion_view_def)
    qed
  qed
qed

interpretation suggestions_lww: lww_table suggestion_view "key_of ''suggestion_id''"
  "\<lambda>v. row_image v suggestion_spec" suggestion_stamp "\<lambda>_. True" "merge_suggestion now" for now
  by unfold_locales (blast | rule merge_suggestion_view)+

section \<open>Append-only tables\<close>

definition override_view :: "merge_state \<Rightarrow> string \<Rightarrow> row option" where
  "override_view s = keyed_view ''regime_overrides'' ''override_id'' (map fst override_spec) (fst s)"

definition param_snapshot_view :: "merge_state \<Rightarrow> string \<Rightarrow> row option" where
  "param_snapshot_view s =
     keyed_view ''trigger_params_snapshots'' ''id'' (map fst param_snapshot_spec) (fst s)"

lemma row_exists_view: "row_exists t (key_is k i) db \<longleftrightarrow> keyed_view t k cs db i \<noteq> None"
  by (auto simp: row_exists_def keyed_view_def find_None_iff')

lemma override_facts:
  "map_of override_spec ''override_id'' = Some XStr"
  "''override_id'' \<in> set (unique_cols (schema_of ''regime_overrides''))"
  "\<not> autoincrement (schema_of ''regime_overrides'')"
  by (simp_all add: override_spec_def schema_of_def regime_overrides_schema_def)

lemma param_snapshot_facts:
  "map_of param_snapshot_spec ''id'' = Some XStr"
  "''id'' \<in> set (unique_cols (schema_of ''trigger_params_snapshots''))"
  "\<not> autoincrement (schema_of ''trigger_params_snapshots'')"
  by (simp_all add: param_snapshot_spec_def schema_of_def trigger_params_snapshots_schema_def)

lemma merge_override_view:
  assumes "merge_override now v s = Inr s'"
  shows "override_view s' i =
    (if i = key_of ''override_id'' v \<and> (\<forall>l. override_view s i = Some l \<longrightarrow> () < ())
     then Some (row_image v override_spec) else override_view s i)"
proof -
  obtain i0 where i0: "json_str v ''override_id'' = Inr i0"
    using assms by (auto simp: merge_override_def result_simps)
  note ident = key_of_eq [OF i0]
  show ?thesis
  proof (cases "row_exists ''regime_overrides'' (key_is ''override_id'' i0) (fst s)")
    case True
    then have "fst s' = fst s" using assms i0 by (auto simp: merge_override_def)
    moreover have "override_view s i0 \<noteq> None"
      using True row_exists_view by (auto simp: override_view_def)
    ultimately show ?thesis by (auto simp: ident override_view_def)
  next
    case False
    then obtain ps where ps: "json_params v override_spec = Inr ps"
      and ins: "sql_insert now ''regime_overrides'' ps (fst s) = Inr (fst s')"
      using assms i0 by (auto simp: merge_override_def result_simps)
    from keyed_view_insert [OF ins ps _ override_facts(1) i0 override_facts(2)] override_facts(3)
    show ?thesis by (simp add: override_view_def ident)
  qed
qed

lemma merge_param_snapshot_view:
  assumes "merge_param_snapshot now v s = Inr s'"
  shows "param_snapshot_view s' i =
    (if i = key_of ''id'' v \<and> (\<forall>l. param_snapshot_view s i = Some l \<longrightarrow> () < ())
     then Some (row_image v param_snapshot_spec) else param_snapshot_view s i)"
proof -
  obtain i0 where i0: "json_str v ''id'' = Inr i0"
    using assms by (auto simp: merge_param_snapshot_def result_simps)
  note ident = key_of_eq [OF i0]
  show ?thesis
  proof (cases "row_exists ''trigger_params_snapshots'' (key_is ''id'' i0) (fst s)")
    case True
    then have "fst s' = fst s" using assms i0 by (auto simp: merge_param_snapshot_def)
    moreover have "param_snapshot_view s i0 \<noteq> None"
      using True row_exists_view by (auto simp: param_snapshot_view_def)
    ultimately show ?thesis by (auto simp: ident param_snapshot_view_def)
  next
    case False
    then obtain ps where ps: "json_params v param_snapshot_spec = Inr ps"
      and ins: "sql_insert now ''trigger_params_snapshots'' ps (fst s) = Inr (fst s')"
      using assms i0 by (auto simp: merge_param_snapshot_def result_simps)
    from keyed_view_insert [OF ins ps _ param_snapshot_facts(1) i0 param_snapshot_facts(2)]
      param_snapshot_facts(3)
    show ?thesis by (simp add: param_snapshot_view_def ident)
  qed
qed

interpretation overrides_append: lww_table override_view "key_of ''override_id''"
  "\<lambda>v. row_image v override_spec" "\<lambda>_. ()" "\<lambda>_. True" "merge_override now" for now
  by unfold_locales (blast | rule merge_override_view)+

interpretation param_snapshots_append: lww_table param_snapshot_view "key_of ''id''"
  "\<lambda>v. row_image v param_snapshot_spec" "\<lambda>_. ()" "\<lambda>_. True" "merge_param_snapshot now" for now
  by unfold_locales (blast | rule merge_param_snapshot_view)+

end
