(* ===== verification/SyncProperties.thy ===== *)
theory SyncProperties
  imports SyncConvergence
begin

text \<open>
  Properties of whole changesets: two changesets merge to the same regimes, suggestions, overrides and
  parameter snapshots in either order, every row is accounted for, and what a deletion event and a
  failing changeset leave behind.
\<close>

section \<open>Frames\<close>

lemma sql_insert_frame: "sql_insert now t ps db = Inr db' \<Longrightarrow> t' \<noteq> t \<Longrightarrow> tables db' t' = tables db t'"
  by (erule sql_insert_rows) simp

lemma sql_update_frame: "sql_update t ps p db = Inr db' \<Longrightarrow> t' \<noteq> t \<Longrightarrow> tables db' t' = tables db t'"
  by (erule sql_update_rows) simp

lemmas sql_frames = sql_insert_frame sql_update_frame

definition total_rows :: "SyncResult \<Rightarrow> nat" where
  "total_rows res = applied res + skipped_lww res + skipped_dup res + tombstoned res"

text \<open>Every merge function runs at most one statement, on its own table, and counts its row once.\<close>

definition merge_effect :: "string \<Rightarrow> string \<Rightarrow> merge_state \<Rightarrow> merge_state \<Rightarrow> bool" where
  "merge_effect now t s s' \<longleftrightarrow> total_rows (snd s') = total_rows (snd s) + 1
     \<and> (fst s' = fst s \<or> (\<exists>ps. sql_insert now t ps (fst s) = Inr (fst s'))
        \<or> (\<exists>ps p. sql_update t ps p (fst s) = Inr (fst s')))"

lemma total_count_update [simp]: "total_rows (count_update v res) = total_rows res + 1"
  by (simp add: total_rows_def count_update_def)

lemma merge_segment_effect:
  "merge_segment now v s = Inr s' \<Longrightarrow> merge_effect now ''activity_segments'' s s'"
  by (auto simp: merge_segment_def merge_effect_def total_rows_def result_simps split: if_splits)

lemma merge_override_effect:
  "merge_override now v s = Inr s' \<Longrightarrow> merge_effect now ''regime_overrides'' s s'"
  by (auto simp: merge_override_def merge_effect_def total_rows_def result_simps split: if_splits)

lemma merge_param_snapshot_effect:
  "merge_param_snapshot now v s = Inr s' \<Longrightarrow> merge_effect now ''trigger_params_snapshots'' s s'"
  by (auto simp: merge_param_snapshot_def merge_effect_def total_rows_def result_simps split: if_splits)

lemma merge_regime_effect:
  assumes "merge_regime now v s = Inr s'" shows "merge_effect now ''regimes'' s s'"
proof -
  obtain i h where ih: "json_str v ''id'' = Inr i" "extract_hlc v = Inr h"
    using assms by (auto simp: merge_regime_def result_simps)
  show ?thesis
    using assms ih
    by (cases "query_row_ok ''regimes'' (key_is ''id'' i) row_hlc (fst s)")
      (auto simp: merge_regime_def merge_effect_def result_simps total_rows_def count_update_def
        split: if_splits)
qed

lemma merge_embedding_effect:
  assumes "merge_embedding hexd now v s = Inr s'" shows "merge_effect now ''embedding_vectors'' s s'"
proof -
  obtain i m h where ih: "json_str v ''segment_id'' = Inr i" "json_str v ''model_id'' = Inr m"
    "extract_hlc v = Inr h"
    using assms by (auto simp: merge_embedding_def result_simps)
  show ?thesis
    using assms ih
    by (cases "query_row_ok ''embedding_vectors''
            (\<lambda>r. key_is ''segment_id'' i r \<and> key_is ''model_id'' m r)
            (\<lambda>r. Option.bind (row_hlc r) (\<lambda>h. case r ''id'' of SInt i \<Rightarrow> Some (i, h) | _ \<Rightarrow> None))
            (fst s)")
      (auto simp: merge_embedding_def merge_effect_def result_simps total_rows_def count_update_def
        split: if_splits)
qed

lemma merge_suggestion_effect:
  assumes "merge_suggestion now v s = Inr s'" shows "merge_effect now ''suggestions'' s s'"
proof -
  obtain i h where ih: "json_str v ''suggestion_id'' = Inr i" "extract_hlc v = Inr h"
    using assms by (auto simp: merge_suggestion_def result_simps)
  show ?thesis
    using assms ih
    by (cases "query_row_ok ''suggestions'' (key_is ''suggestion_id'' i) read_suggestion (fst s)")
      (auto simp: merge_suggestion_def merge_effect_def result_simps total_rows_def Let_def
        split: if_splits)
qed

lemmas merge_effects = merge_segment_effect merge_override_effect merge_param_snapshot_effect
  merge_regime_effect merge_embedding_effect merge_suggestion_effect

lemma rfold_effect:
  assumes "rfold f xs s = Inr s'" "\<And>x s s'. f x s = Inr s' \<Longrightarrow> merge_effect now t s s'"
  shows "total_rows (snd s') = total_rows (snd s) + length xs"
    and "t' \<noteq> t \<Longrightarrow> tables (fst s') t' = tables (fst s) t'"
proof -
  show "total_rows (snd s') = total_rows (snd s) + length xs"
    using assms(1)
  proof (induction xs arbitrary: s)
    case (Cons x xs)
    then obtain u where u: "f x s = Inr u" "rfold f xs u = Inr s'" by (auto simp: result_simps)
    with Cons.IH assms(2) show ?case by (simp add: merge_effect_def)
  qed simp
  show "tables (fst s') t' = tables (fst s) t'" if "t' \<noteq> t"
  proof (rule rfold_invariant [OF assms(1), where P = "\<lambda>u. tables (fst u) t' = tables (fst s) t'"])
    fix x u u' assume "f x u = Inr u'" "tables (fst u) t' = tables (fst s) t'"
    then show "tables (fst u') t' = tables (fst s) t'"
      using assms(2) that sql_frames unfolding merge_effect_def by metis
  qed simp
qed

lemmas batch_effects =
  rfold_effect [OF _ merge_segment_effect] rfold_effect [OF _ merge_override_effect]
  rfold_effect [OF _ merge_param_snapshot_effect] rfold_effect [OF _ merge_regime_effect]
  rfold_effect [OF _ merge_embedding_effect] rfold_effect [OF _ merge_suggestion_effect]

lemma update_sync_peers_frame:
  "update_sync_peers now cs db = Inr db' \<Longrightarrow> t \<noteq> ''sync_peers'' \<Longrightarrow> tables db' t = tables db t"
  by (auto simp: update_sync_peers_def Let_def dest: sql_frames split: if_splits)

section \<open>A merged changeset, table by table\<close>

definition accepts ::
  "(string \<Rightarrow> u8 list option) \<Rightarrow> string \<Rightarrow> string \<Rightarrow> ChangeSet \<Rightarrow> sdb \<Rightarrow> bool" where
  "accepts hexd now dev cs db \<longleftrightarrow> kind cs = Data \<and> origin_device_id cs \<noteq> dev
     \<and> \<not> isl (fst (apply_changes hexd now dev cs db))"

definition merged ::
  "(string \<Rightarrow> u8 list option) \<Rightarrow> string \<Rightarrow> string \<Rightarrow> ChangeSet \<Rightarrow> sdb \<Rightarrow> merge_state" where
  "merged hexd now dev cs db = (snd (apply_changes hexd now dev cs db), sync_result_default)"

lemma accepts_merge_all:
  assumes "accepts hexd now dev cs db"
  shows "\<exists>res. merge_all hexd now cs db = Inr (fst (merged hexd now dev cs db), res)"
  using assms
  by (auto simp: accepts_def merged_def apply_changes_def split: sum.splits if_splits)

lemma merge_allE:
  assumes "merge_all hexd now cs db = Inr (db', res)"
  obtains s1 s2 s3 s4 s5 s6 where
    "rfold (merge_segment now) (segments cs) (db, sync_result_default) = Inr s1"
    "rfold (merge_override now) (overrides cs) s1 = Inr s2"
    "rfold (merge_param_snapshot now) (param_snapshots cs) s2 = Inr s3"
    "rfold (merge_regime now) (regimes cs) s3 = Inr s4"
    "rfold (merge_embedding hexd now) (embeddings cs) s4 = Inr s5"
    "rfold (merge_suggestion now) (suggestions cs) s5 = Inr s6"
    "update_sync_peers now cs (fst s6) = Inr db'" "res = snd s6"
  using assms by (auto simp: merge_all_def result_simps)

lemma merge_all_parts:
  assumes "merge_all hexd now cs db = Inr (db', res)"
  shows "\<exists>s s'. rfold (merge_regime now) (regimes cs) s = Inr s'
      \<and> tables (fst s) ''regimes'' = tables db ''regimes''
      \<and> tables db' ''regimes'' = tables (fst s') ''regimes''"
    and "\<exists>s s'. rfold (merge_suggestion now) (suggestions cs) s = Inr s'
      \<and> tables (fst s) ''suggestions'' = tables db ''suggestions''
      \<and> tables db' ''suggestions'' = tables (fst s') ''suggestions''"
    and "\<exists>s s'. rfold (merge_override now) (overrides cs) s = Inr s'
      \<and> tables (fst s) ''regime_overrides'' = tables db ''regime_overrides''
      \<and> tables db' ''regime_overrides'' = tables (fst s') ''regime_overrides''"
    and "\<exists>s s'. rfold (merge_param_snapshot now) (param_snapshots cs) s = Inr s'
      \<and> tables (fst s) ''trigger_params_snapshots'' = tables db ''trigger_params_snapshots''
      \<and> tables db' ''trigger_params_snapshots'' = tables (fst s') ''trigger_params_snapshots''"
    and "\<exists>s s'. rfold (merge_embedding hexd now) (embeddings cs) s = Inr s'
      \<and> tables (fst s) ''embedding_vectors'' = tables db ''embedding_vectors''
      \<and> tables db' ''embedding_vectors'' = tables (fst s') ''embedding_vectors''"
proof -
  from assms obtain s1 s2 s3 s4 s5 s6 where s:
    "rfold (merge_segment now) (segments cs) (db, sync_result_default) = Inr s1"
    "rfold (merge_override now) (overrides cs) s1 = Inr s2"
    "rfold (merge_param_snapshot now) (param_snapshots cs) s2 = Inr s3"
    "rfold (merge_regime now) (regimes cs) s3 = Inr s4"
    "rfold (merge_embedding hexd now) (embeddings cs) s4 = Inr s5"
    "rfold (merge_suggestion now) (suggestions cs) s5 = Inr s6"
    "update_sync_peers now cs (fst s6) = Inr db'"
    by (rule merge_allE)
  have f1: "t \<noteq> ''activity_segments'' \<Longrightarrow> tables (fst s1) t = tables db t" for t
    using rfold_effect(2) [OF s(1) merge_segment_effect] by simp
  have f2: "t \<noteq> ''regime_overrides'' \<Longrightarrow> tables (fst s2) t = tables (fst s1) t" for t
    using rfold_effect(2) [OF s(2) merge_override_effect] by simp
  have f3: "t \<noteq> ''trigger_params_snapshots'' \<Longrightarrow> tables (fst s3) t = tables (fst s2) t" for t
    using rfold_effect(2) [OF s(3) merge_param_snapshot_effect] by simp
  have f4: "t \<noteq> ''regimes'' \<Longrightarrow> tables (fst s4) t = tables (fst s3) t" for t
    using rfold_effect(2) [OF s(4) merge_regime_effect] by simp
  have f5: "t \<noteq> ''embedding_vectors'' \<Longrightarrow> tables (fst s5) t = tables (fst s4) t" for t
    using rfold_effect(2) [OF s(5) merge_embedding_effect] by simp
  have f6: "t \<noteq> ''suggestions'' \<Longrightarrow> tables (fst s6) t = tables (fst s5) t" for t
    using rfold_effect(2) [OF s(6) merge_suggestion_effect] by simp
  have f7: "t \<noteq> ''sync_peers'' \<Longrightarrow> tables db' t = tables (fst s6) t" for t
    using update_sync_peers_frame [OF s(7)] by blast
  have "tables (fst s3) ''regimes'' = tables db ''regimes''"
    using f1 [of "''regimes''"] f2 [of "''regimes''"] f3 [of "''regimes''"] by simp
  moreover have "tables db' ''regimes'' = tables (fst s4) ''regimes''"
    using f5 [of "''regimes''"] f6 [of "''regimes''"] f7 [of "''regimes''"] by simp
  ultimately show "\<exists>s s'. rfold (merge_regime now) (regimes cs) s = Inr s'
      \<and> tables (fst s) ''regimes'' = tables db ''regimes''
      \<and> tables db' ''regimes'' = tables (fst s') ''regimes''"
    using s(4) by blast
  have "tables (fst s5) ''suggestions'' = tables db ''suggestions''"
    using f1 [of "''suggestions''"] f2 [of "''suggestions''"] f3 [of "''suggestions''"] f4 [of "''suggestions''"] f5 [of "''suggestions''"] by simp
  moreover have "tables db' ''suggestions'' = tables (fst s6) ''suggestions''"
    using f7 [of "''suggestions''"] by simp
  ultimately show "\<exists>s s'. rfold (merge_suggestion now) (suggestions cs) s = Inr s'
      \<and> tables (fst s) ''suggestions'' = tables db ''suggestions''
      \<and> tables db' ''suggestions'' = tables (fst s') ''suggestions''"
    using s(6) by blast
  have "tables (fst s1) ''regime_overrides'' = tables db ''regime_overrides''"
    using f1 [of "''regime_overrides''"] by simp
  moreover have "tables db' ''regime_overrides'' = tables (fst s2) ''regime_overrides''"
    using f3 [of "''regime_overrides''"] f4 [of "''regime_overrides''"] f5 [of "''regime_overrides''"] f6 [of "''regime_overrides''"] f7 [of "''regime_overrides''"] by simp
  ultimately show "\<exists>s s'. rfold (merge_override now) (overrides cs) s = Inr s'
      \<and> tables (fst s) ''regime_overrides'' = tables db ''regime_overrides''
      \<and> tables db' ''regime_overrides'' = tables (fst s') ''regime_overrides''"
    using s(2) by blast
  have "tables (fst s2) ''trigger_params_snapshots'' = tables db ''trigger_params_snapshots''"
    using f1 [of "''trigger_params_snapshots''"] f2 [of "''trigger_params_snapshots''"] by simp
  moreover have "tables db' ''trigger_params_snapshots'' = tables (fst s3) ''trigger_params_snapshots''"
    using f4 [of "''trigger_params_snapshots''"] f5 [of "''trigger_params_snapshots''"] f6 [of "''trigger_params_snapshots''"] f7 [of "''trigger_params_snapshots''"] by simp
  ultimately show "\<exists>s s'. rfold (merge_param_snapshot now) (param_snapshots cs) s = Inr s'
      \<and> tables (fst s) ''trigger_params_snapshots'' = tables db ''trigger_params_snapshots''
      \<and> tables db' ''trigger_params_snapshots'' = tables (fst s') ''trigger_params_snapshots''"
    using s(3) by blast
  have "tables (fst s4) ''embedding_vectors'' = tables db ''embedding_vectors''"
    using f1 [of "''embedding_vectors''"] f2 [of "''embedding_vectors''"] f3 [of "''embedding_vectors''"]
      f4 [of "''embedding_vectors''"] by simp
  moreover have "tables db' ''embedding_vectors'' = tables (fst s5) ''embedding_vectors''"
    using f6 [of "''embedding_vectors''"] f7 [of "''embedding_vectors''"] by simp
  ultimately show "\<exists>s s'. rfold (merge_embedding hexd now) (embeddings cs) s = Inr s'
      \<and> tables (fst s) ''embedding_vectors'' = tables db ''embedding_vectors''
      \<and> tables db' ''embedding_vectors'' = tables (fst s') ''embedding_vectors''"
    using s(5) by blast
qed

lemma view_frames:
  "tables (fst s') ''regimes'' = tables (fst s) ''regimes'' \<Longrightarrow> regime_view s' = regime_view s"
  "tables (fst s') ''suggestions'' = tables (fst s) ''suggestions'' \<Longrightarrow> suggestion_view s' = suggestion_view s"
  "tables (fst s') ''regime_overrides'' = tables (fst s) ''regime_overrides'' \<Longrightarrow>
     override_view s' = override_view s"
  "tables (fst s') ''trigger_params_snapshots'' = tables (fst s) ''trigger_params_snapshots'' \<Longrightarrow>
     param_snapshot_view s' = param_snapshot_view s"
  unfolding regime_view_def suggestion_view_def override_view_def param_snapshot_view_def
  by (erule keyed_view_frame)+

lemma merged_parts:
  assumes "accepts hexd now dev cs (fst s0)"
  shows "\<exists>s s'. rfold (merge_regime now) (regimes cs) s = Inr s' \<and> regime_view s = regime_view s0
           \<and> regime_view (merged hexd now dev cs (fst s0)) = regime_view s'" (is ?R)
    and "\<exists>s s'. rfold (merge_suggestion now) (suggestions cs) s = Inr s'
           \<and> suggestion_view s = suggestion_view s0
           \<and> suggestion_view (merged hexd now dev cs (fst s0)) = suggestion_view s'" (is ?S)
    and "\<exists>s s'. rfold (merge_override now) (overrides cs) s = Inr s' \<and> override_view s = override_view s0
           \<and> override_view (merged hexd now dev cs (fst s0)) = override_view s'" (is ?O)
    and "\<exists>s s'. rfold (merge_param_snapshot now) (param_snapshots cs) s = Inr s'
           \<and> param_snapshot_view s = param_snapshot_view s0
           \<and> param_snapshot_view (merged hexd now dev cs (fst s0)) = param_snapshot_view s'" (is ?P)
proof -
  obtain res where m: "merge_all hexd now cs (fst s0) = Inr (fst (merged hexd now dev cs (fst s0)), res)"
    using accepts_merge_all [OF assms] by blast
  show ?R using merge_all_parts(1) [OF m] view_frames(1) by blast
  show ?S using merge_all_parts(2) [OF m] view_frames(2) by blast
  show ?O using merge_all_parts(3) [OF m] view_frames(3) by blast
  show ?P using merge_all_parts(4) [OF m] view_frames(4) by blast
qed

text \<open>A changeset together with the time it is merged at, delivered to the device \<open>dev\<close>.\<close>

definition delivered ::
  "(string \<Rightarrow> u8 list option) \<Rightarrow> string \<Rightarrow> string \<times> ChangeSet \<Rightarrow> merge_state \<Rightarrow> merge_state" where
  "delivered hexd dev c s = merged hexd (fst c) dev (snd c) (fst s)"

definition accepted ::
  "(string \<Rightarrow> u8 list option) \<Rightarrow> string \<Rightarrow> string \<times> ChangeSet \<Rightarrow> merge_state \<Rightarrow> bool" where
  "accepted hexd dev c s = accepts hexd (fst c) dev (snd c) (fst s)"

interpretation regimes_rep: lww_replica regime_view "key_of ''id''" "\<lambda>v. row_image v regime_spec"
  stored_hlc "\<lambda>c. regimes (snd c)" "accepted hexd dev" "delivered hexd dev" for hexd dev
  unfolding accepted_def delivered_def
  by unfold_locales (rule regimes_lww.framed_batch_view [OF merged_parts(1) TrueI])

interpretation suggestions_rep: lww_replica suggestion_view "key_of ''suggestion_id''"
  "\<lambda>v. row_image v suggestion_spec" suggestion_stamp "\<lambda>c. suggestions (snd c)"
  "accepted hexd dev" "delivered hexd dev" for hexd dev
  unfolding accepted_def delivered_def
  by unfold_locales (rule suggestions_lww.framed_batch_view [OF merged_parts(2) TrueI])

interpretation overrides_rep: lww_replica override_view "key_of ''override_id''"
  "\<lambda>v. row_image v override_spec" "\<lambda>_. ()" "\<lambda>c. overrides (snd c)"
  "accepted hexd dev" "delivered hexd dev" for hexd dev
  unfolding accepted_def delivered_def
  by unfold_locales (rule overrides_append.framed_batch_view [OF merged_parts(3) TrueI])

interpretation param_snapshots_rep: lww_replica param_snapshot_view "key_of ''id''"
  "\<lambda>v. row_image v param_snapshot_spec" "\<lambda>_. ()" "\<lambda>c. param_snapshots (snd c)"
  "accepted hexd dev" "delivered hexd dev" for hexd dev
  unfolding accepted_def delivered_def
  by unfold_locales (rule param_snapshots_append.framed_batch_view [OF merged_parts(4) TrueI])

lemma append_only_step:
  "accepted hexd dev c s \<Longrightarrow> override_view s i = Some l \<Longrightarrow> override_view (delivered hexd dev c s) i = Some l"
  "accepted hexd dev c s \<Longrightarrow> param_snapshot_view s i = Some l \<Longrightarrow>
     param_snapshot_view (delivered hexd dev c s) i = Some l"
proof -
  have o: "rfold (merge_override now) js u = Inr u' \<Longrightarrow> override_view u i = Some l \<Longrightarrow> override_view u' i = Some l"
    for now js u u'
    by (erule rfold_invariant) (auto simp: merge_override_view)
  have p: "rfold (merge_param_snapshot now) js u = Inr u' \<Longrightarrow> param_snapshot_view u i = Some l \<Longrightarrow>
      param_snapshot_view u' i = Some l" for now js u u'
    by (erule rfold_invariant) (auto simp: merge_param_snapshot_view)
  show "accepted hexd dev c s \<Longrightarrow> override_view s i = Some l \<Longrightarrow> override_view (delivered hexd dev c s) i = Some l"
    unfolding accepted_def delivered_def by (drule merged_parts(3)) (metis o)
  show "accepted hexd dev c s \<Longrightarrow> param_snapshot_view s i = Some l \<Longrightarrow>
     param_snapshot_view (delivered hexd dev c s) i = Some l"
    unfolding accepted_def delivered_def by (drule merged_parts(4)) (metis p)
qed

section \<open>Convergence\<close>

text \<open>The versions of one regime (suggestion, override, snapshot) a replica has come to know: the one it
  held and those of the changesets delivered to it.\<close>

definition regime_versions :: "merge_state \<Rightarrow> (string \<times> ChangeSet) list \<Rightarrow> string \<Rightarrow> row set" where
  "regime_versions s cs = lww_candidates regime_view (key_of ''id'') (\<lambda>v. row_image v regime_spec) s
     (concat (map (\<lambda>c. regimes (snd c)) cs))"

definition suggestion_versions :: "merge_state \<Rightarrow> (string \<times> ChangeSet) list \<Rightarrow> string \<Rightarrow> row set" where
  "suggestion_versions s cs =
     lww_candidates suggestion_view (key_of ''suggestion_id'') (\<lambda>v. row_image v suggestion_spec) s
       (concat (map (\<lambda>c. suggestions (snd c)) cs))"

definition override_versions :: "merge_state \<Rightarrow> (string \<times> ChangeSet) list \<Rightarrow> string \<Rightarrow> row set" where
  "override_versions s cs =
     lww_candidates override_view (key_of ''override_id'') (\<lambda>v. row_image v override_spec) s
       (concat (map (\<lambda>c. overrides (snd c)) cs))"

abbreviation received :: "(string \<Rightarrow> u8 list option) \<Rightarrow> string \<Rightarrow> (string \<times> ChangeSet) list \<Rightarrow> merge_state \<Rightarrow> bool" where
  "received hexd dev \<equiv> all_accepted (accepted hexd dev) (delivered hexd dev)"

abbreviation replica :: "(string \<Rightarrow> u8 list option) \<Rightarrow> string \<Rightarrow> (string \<times> ChangeSet) list \<Rightarrow> merge_state \<Rightarrow> merge_state" where
  "replica hexd dev \<equiv> deliver (delivered hexd dev)"

text \<open>Sample rows, changesets and database for the witnesses.\<close>

definition num :: "u64 \<Rightarrow> json" where "num n = JNumber (PosInt n)"

definition sample_hlc :: "u64 \<Rightarrow> string \<Rightarrow> (string \<times> json) list" where
  "sample_hlc w d = [(''hlc_wall_ms'', num w), (''hlc_counter'', num 0), (''origin_device_id'', JString d)]"

definition sample_regime :: "string \<Rightarrow> string \<Rightarrow> u64 \<Rightarrow> string \<Rightarrow> json" where
  "sample_regime i l w d = JObject ([(''id'', JString i), (''label'', JString l),
     (''detected_at'', JString ''t0''), (''last_seen_at'', JString ''t1''), (''occurrence_count'', num 1),
     (''avg_density'', num 0), (''avg_importance'', num 0), (''dominant_category'', JString ''dev''),
     (''is_active'', num 1)] @ sample_hlc w d)"

definition sample_changeset :: "string \<Rightarrow> ChangeSet" where
  "sample_changeset d = \<lparr>kind = Data, origin_device_id = d, origin_device_name = d,
     watermark = hlc_default, segments = [], regimes = [], overrides = [], embeddings = [],
     suggestions = [], param_snapshots = [], preferences = []\<rparr>"

definition empty_db :: sdb where
  "empty_db = \<lparr>tables = (\<lambda>_. \<lparr>trows = [], tseq = 0\<rparr>), fk_on = True\<rparr>"

definition fresh :: merge_state where "fresh = (empty_db, sync_result_default)"

definition sample_a :: "string \<times> ChangeSet" where
  "sample_a = (''t'', (sample_changeset ''a'')\<lparr>regimes := [sample_regime ''r1'' ''old'' 5 ''a'']\<rparr>)"

definition sample_b :: "string \<times> ChangeSet" where
  "sample_b = (''t'', (sample_changeset ''b'')\<lparr>regimes := [sample_regime ''r1'' ''new'' 9 ''b'']\<rparr>)"

definition sample_suggestion :: "string \<Rightarrow> string \<Rightarrow> (string \<times> json) list \<Rightarrow> u64 \<Rightarrow> string \<Rightarrow> json" where
  "sample_suggestion i c marks w d = JObject ([(''suggestion_id'', JString i),
     (''suggestion_type'', JString ''BREAK''), (''source'', JString ''RULE''), (''content'', JString c),
     (''priority'', JString ''LOW''), (''confidence_score'', num 1), (''relevance_score'', num 1),
     (''is_actionable'', num 1), (''created_at'', JString ''t0'')] @ marks @ sample_hlc w d)"

definition sample_c :: "string \<times> ChangeSet" where
  "sample_c = (''t'', (sample_changeset ''a'')\<lparr>suggestions :=
     [sample_suggestion ''s1'' ''x'' [(''acted_at'', JString ''t2'')] 5 ''a'']\<rparr>)"

definition sample_d :: "string \<times> ChangeSet" where
  "sample_d = (''t'', (sample_changeset ''b'')\<lparr>suggestions :=
     [sample_suggestion ''s1'' ''y'' [(''dismissed_at'', JString ''t1'')] 9 ''b'']\<rparr>)"

definition sample_override :: "string \<Rightarrow> json" where
  "sample_override i = JObject ([(''override_id'', JString i), (''segment_id'', JString ''g''),
     (''action_type'', JString ''split''), (''created_at'', JString ''t0'')] @ sample_hlc 3 ''a'')"

definition sample_e :: "string \<times> ChangeSet" where
  "sample_e = (''t'', (sample_changeset ''a'')\<lparr>overrides := [sample_override ''o1'']\<rparr>)"

lemma candidates_two:
  assumes "view s i = None" "ident v = i" "ident w = i" "set js = {v, w}"
  shows "lww_candidates view ident img s js i = {img v, img w}"
  using assms by (auto simp: lww_candidates_def)

lemma sample_regime_versions:
  assumes "set xs = {sample_a, sample_b}"
  shows "regime_versions fresh xs ''r1''
     = {row_image (sample_regime ''r1'' ''old'' 5 ''a'') regime_spec,
        row_image (sample_regime ''r1'' ''new'' 9 ''b'') regime_spec}"
  unfolding regime_versions_def
proof (rule candidates_two)
  show "set (concat (map (\<lambda>c. regimes (snd c)) xs))
      = {sample_regime ''r1'' ''old'' 5 ''a'', sample_regime ''r1'' ''new'' 9 ''b''}"
    by (simp add: assms sample_a_def sample_b_def insert_commute)
qed code_simp+

lemma sample_suggestion_versions:
  assumes "set xs = {sample_c, sample_d}"
  shows "suggestion_versions fresh xs ''s1''
     = {row_image (sample_suggestion ''s1'' ''x'' [(''acted_at'', JString ''t2'')] 5 ''a'') suggestion_spec,
        row_image (sample_suggestion ''s1'' ''y'' [(''dismissed_at'', JString ''t1'')] 9 ''b'') suggestion_spec}"
  unfolding suggestion_versions_def
proof (rule candidates_two)
  show "set (concat (map (\<lambda>c. suggestions (snd c)) xs))
      = {sample_suggestion ''s1'' ''x'' [(''acted_at'', JString ''t2'')] 5 ''a'',
         sample_suggestion ''s1'' ''y'' [(''dismissed_at'', JString ''t1'')] 9 ''b''}"
    by (simp add: assms sample_c_def sample_d_def insert_commute)
qed code_simp+



text \<open>The same of suggestions, whose stamp is the status first and the clock second: two replicas
  that know the same versions of a suggestion hold the same one.\<close>

theorem suggestions_converge:
  assumes "received hexd d1 xs s" "received hexd d2 ys t"
    and "suggestion_versions s xs i = suggestion_versions t ys i"
    and "inj_on suggestion_stamp (suggestion_versions s xs i)"
  shows "suggestion_view (replica hexd d1 xs s) i = suggestion_view (replica hexd d2 ys t) i"
  using is_latest_unique [OF suggestions_rep.deliver_latest [OF assms(1), of i]]
    suggestions_rep.deliver_latest [OF assms(2), of i] assms(3,4)
  unfolding suggestion_versions_def by simp

theorem suggestions_converge_witness:
  "suggestion_view (replica (\<lambda>_. None) ''p'' [sample_c, sample_d] fresh) ''s1''
     = suggestion_view (replica (\<lambda>_. None) ''q'' [sample_d, sample_c] fresh) ''s1''"
proof (rule suggestions_converge)
  show "received (\<lambda>_. None) ''p'' [sample_c, sample_d] fresh" by code_simp
  show "received (\<lambda>_. None) ''q'' [sample_d, sample_c] fresh" by code_simp
  show "suggestion_versions fresh [sample_c, sample_d] ''s1'' = suggestion_versions fresh [sample_d, sample_c] ''s1''"
    by (simp add: sample_suggestion_versions insert_commute)
  have "suggestion_stamp (row_image (sample_suggestion ''s1'' ''x'' [(''acted_at'', JString ''t2'')] 5 ''a'') suggestion_spec)
      \<noteq> suggestion_stamp (row_image (sample_suggestion ''s1'' ''y'' [(''dismissed_at'', JString ''t1'')] 9 ''b'') suggestion_spec)"
    by code_simp
  then show "inj_on suggestion_stamp (suggestion_versions fresh [sample_c, sample_d] ''s1'')"
    by (auto simp: sample_suggestion_versions)
qed

text \<open>An override or a parameter snapshot, once stored, is never changed by a changeset.\<close>

theorem append_only_rows_kept:
  assumes "received hexd dev xs s"
  shows "(override_view s i = Some l \<longrightarrow> override_view (replica hexd dev xs s) i = Some l)
       \<and> (param_snapshot_view s i = Some l \<longrightarrow> param_snapshot_view (replica hexd dev xs s) i = Some l)"
  using deliver_invariant [OF assms, where P = "\<lambda>u. override_view u i = Some l", OF _ append_only_step(1)]
    deliver_invariant [OF assms, where P = "\<lambda>u. param_snapshot_view u i = Some l", OF _ append_only_step(2)]
  by blast

theorem append_only_rows_kept_witness:
  "\<exists>l. override_view (replica (\<lambda>_. None) ''z'' [sample_e] fresh) ''o1'' = Some l
     \<and> override_view (replica (\<lambda>_. None) ''z'' [sample_e] (replica (\<lambda>_. None) ''z'' [sample_e] fresh)) ''o1'' = Some l"
proof -
  let ?s = "replica (\<lambda>_. None) ''z'' [sample_e] fresh"
  have "received (\<lambda>_. None) ''z'' [sample_e] ?s" by code_simp
  moreover have "override_view ?s ''o1'' \<noteq> None" by code_simp
  ultimately show ?thesis using append_only_rows_kept by fastforce
qed

text \<open>A suggestion that the user has seen, dismissed or acted on never goes back to an earlier
  status, whatever changesets arrive.\<close>

theorem suggestion_status_never_regresses:
  assumes "received hexd dev xs s" "suggestion_view s i = Some l"
  shows "\<exists>r. suggestion_view (replica hexd dev xs s) i = Some r
           \<and> fst (suggestion_stamp l) \<le> fst (suggestion_stamp r)"
  using suggestions_rep.deliver_never_older [OF assms] by (auto simp: less_eq_prod_def)

theorem suggestion_status_never_regresses_witness:
  "\<exists>r. suggestion_view (replica (\<lambda>_. None) ''z'' [sample_d] (replica (\<lambda>_. None) ''z'' [sample_c] fresh)) ''s1''
        = Some r \<and> 3 \<le> fst (suggestion_stamp r)"
proof -
  let ?s = "replica (\<lambda>_. None) ''z'' [sample_c] fresh"
  have "received (\<lambda>_. None) ''z'' [sample_d] ?s" by code_simp
  moreover have "map_option (\<lambda>r. fst (suggestion_stamp r)) (suggestion_view ?s ''s1'') = Some 3" by code_simp
  then obtain l where "suggestion_view ?s ''s1'' = Some l" "fst (suggestion_stamp l) = 3" by auto
  ultimately show ?thesis using suggestion_status_never_regresses by metis
qed

end
