(* ===== verification/SyncOutcomes.thy ===== *)
theory SyncOutcomes
  imports SyncProperties
begin

text \<open>
  What \<open>apply_changes\<close> reports and leaves behind: the counters of a merged changeset, the deletion event
  that erases everything a device contributed, and the changesets that the schema refuses.
\<close>

section \<open>Counters\<close>

lemma merge_all_total:
  assumes "merge_all hexd now cs db = Inr (db', res)"
  shows "total_rows res = length (segments cs) + length (regimes cs) + length (overrides cs)
     + length (embeddings cs) + length (suggestions cs) + length (param_snapshots cs)"
proof -
  from assms obtain s1 s2 s3 s4 s5 s6 where s:
    "rfold (merge_segment now) (segments cs) (db, sync_result_default) = Inr s1"
    "rfold (merge_override now) (overrides cs) s1 = Inr s2"
    "rfold (merge_param_snapshot now) (param_snapshots cs) s2 = Inr s3"
    "rfold (merge_regime now) (regimes cs) s3 = Inr s4"
    "rfold (merge_embedding hexd now) (embeddings cs) s4 = Inr s5"
    "rfold (merge_suggestion now) (suggestions cs) s5 = Inr s6" "res = snd s6"
    by (rule merge_allE)
  show ?thesis
    using rfold_effect(1) [OF s(1) merge_segment_effect] rfold_effect(1) [OF s(2) merge_override_effect]
      rfold_effect(1) [OF s(3) merge_param_snapshot_effect] rfold_effect(1) [OF s(4) merge_regime_effect]
      rfold_effect(1) [OF s(5) merge_embedding_effect] rfold_effect(1) [OF s(6) merge_suggestion_effect]
      s(7)
    by (simp add: total_rows_def sync_result_default_def)
qed

section \<open>Deletion events\<close>

definition keep_others :: "string \<Rightarrow> row list \<Rightarrow> row list" where
  "keep_others dev = filter (\<lambda>r. r ''origin_device_id'' \<noteq> SText dev)"

definition erased_rows :: "string \<Rightarrow> row list \<Rightarrow> nat" where
  "erased_rows dev rs = length (filter (key_is ''origin_device_id'' dev) rs)"

lemma sql_delete_Inr:
  assumes "sql_delete t (key_is ''origin_device_id'' dev) db = Inr (db', k)"
  shows "db' = set_rows t (keep_others dev (rows_of db t)) db \<and> k = erased_rows dev (rows_of db t)"
  using assms by (auto simp: sql_delete_def Let_def keep_others_def erased_rows_def split: if_splits)

lemma delete_origin_Inr:
  assumes "delete_origin ts dev db n = (Inr k, db')" "distinct ts"
  shows "(\<forall>t. rows_of db' t = (if t \<in> set ts then keep_others dev (rows_of db t) else rows_of db t))
    \<and> k = n + (\<Sum>t\<leftarrow>ts. erased_rows dev (rows_of db t))"
  using assms
proof (induction ts arbitrary: db n)
  case (Cons t ts)
  then obtain db1 m where d: "sql_delete t (key_is ''origin_device_id'' dev) db = Inr (db1, m)"
    and rest: "delete_origin ts dev db1 (n + m) = (Inr k, db')"
    by (auto split: sum.splits)
  note one = sql_delete_Inr [OF d]
  have same: "rows_of db1 u = rows_of db u" if "u \<in> set ts" for u
    using one that Cons.prems(2) by (auto simp: rows_of_set_rows)
  have sums: "(\<Sum>u\<leftarrow>ts. erased_rows dev (rows_of db1 u)) = (\<Sum>u\<leftarrow>ts. erased_rows dev (rows_of db u))"
    by (rule arg_cong [where f = sum_list]) (simp add: same)
  have "k = n + m + (\<Sum>u\<leftarrow>ts. erased_rows dev (rows_of db u))"
    using Cons.IH [OF rest] Cons.prems(2) sums by simp
  moreover have "rows_of db' u = (if u \<in> set ts then keep_others dev (rows_of db1 u) else rows_of db1 u)" for u
    using Cons.IH [OF rest] Cons.prems(2) by simp
  ultimately show ?case using one Cons.prems(2) by (simp add: rows_of_set_rows)
qed simp

lemma delete_origin_Inl: "delete_origin ts dev db n = (Inl e, db') \<Longrightarrow> fk_on db"
proof (induction ts arbitrary: db n)
  case (Cons t ts)
  show ?case
  proof (cases "sql_delete t (key_is ''origin_device_id'' dev) db")
    case (Inl e')
    then show ?thesis by (simp add: sql_delete_def Let_def split: if_splits)
  next
    case (Inr x)
    obtain db1 m where x: "x = (db1, m)" by (cases x)
    with Inr Cons.prems Cons.IH have "fk_on db1" by auto
    with sql_delete_Inr [OF Inr [unfolded x]] show ?thesis by simp
  qed
qed simp

lemma distinct_synced_tables: "distinct synced_tables"
  by (simp add: synced_tables_def)

section \<open>What the schema refuses\<close>

lemma check_notnull_missing:
  assumes "\<exists>d \<in> set (columns sch). col_notnull d \<and> r (col_name d) = SNull"
  shows "\<exists>c. check_notnull sch r = Inl (NotNullViolation c)"
  using assms by (auto simp: check_notnull_def find_None_iff split: option.splits)

lemma segment_never_inserted:
  assumes "json_params v segment_spec = Inr ps"
  shows "isl (sql_insert now ''activity_segments'' ps db)"
proof (cases "bind_params ps")
  case (Inr vs)
  have keys: "map fst vs = map fst segment_spec"
    using bind_params_keys [OF Inr] json_params_keys [OF assms] by simp
  have "''trigger_reason'' \<notin> set (map fst segment_spec)"
    by (simp add: segment_spec_def hlc_spec_def)
  then have "map_of vs ''trigger_reason'' = None"
    by (simp add: map_of_eq_None_iff flip: keys set_map)
  then have "new_row now (schema_of ''activity_segments'') vs ''trigger_reason'' = SNull"
    by (simp add: new_row_def schema_of_def activity_segments_schema_def column_value_def column_default_def)
  then have "\<exists>d \<in> set (columns (schema_of ''activity_segments'')). col_notnull d
      \<and> new_row now (schema_of ''activity_segments'') vs (col_name d) = SNull"
    by (simp add: schema_of_def activity_segments_schema_def)
  from check_notnull_missing [OF this] show ?thesis
    using Inr by (auto simp: sql_insert_def Let_def schema_of_def activity_segments_schema_def)
qed (simp add: sql_insert_def)

lemma merge_segment_Inr:
  assumes "merge_segment now v s = Inr s'"
  shows "row_exists ''activity_segments'' (key_is ''id'' (key_of ''id'' v)) (fst s) \<and> fst s' = fst s"
proof -
  obtain i where i: "json_str v ''id'' = Inr i" using assms by (auto simp: merge_segment_def result_simps)
  have "row_exists ''activity_segments'' (key_is ''id'' i) (fst s)"
  proof (rule ccontr)
    assume "\<not> ?thesis"
    then obtain ps db where "json_params v segment_spec = Inr ps"
      "sql_insert now ''activity_segments'' ps (fst s) = Inr db"
      using assms i by (auto simp: merge_segment_def result_simps)
    with segment_never_inserted show False by (metis sum.disc(2))
  qed
  with assms i show ?thesis by (auto simp: merge_segment_def key_of_eq)
qed

lemma merge_segments_Inr:
  assumes "rfold (merge_segment now) vs s = Inr s'"
  shows "fst s' = fst s
    \<and> (\<forall>v \<in> set vs. row_exists ''activity_segments'' (key_is ''id'' (key_of ''id'' v)) (fst s))"
  using assms
proof (induction vs arbitrary: s)
  case (Cons v vs)
  then obtain u where "merge_segment now v s = Inr u" "rfold (merge_segment now) vs u = Inr s'"
    by (auto simp: result_simps)
  with Cons.IH merge_segment_Inr show ?case by fastforce
qed simp

text \<open>An embedding that carries no text neither enters the table nor replaces a row of it.\<close>

lemma no_text_param:
  assumes "json_str_opt v ''original_text'' = None" "json_params v embedding_head_spec = Inr ps"
  shows "map_of ps ''original_text'' = Some (PVal SNull)"
  using assms by (auto simp: embedding_head_spec_def opt_text_def result_simps)

lemma bind_params_lookup:
  "bind_params ps = Inr vs \<Longrightarrow> map_of ps c = Some (PVal x) \<Longrightarrow> map_of vs c = Some x"
  by (induction ps arbitrary: vs) (auto simp: result_simps split: if_splits)

lemma embedding_text_required:
  assumes "r ''original_text'' = SNull"
  shows "isl (check_notnull (schema_of ''embedding_vectors'') r)"
proof -
  have "\<exists>d \<in> set (columns (schema_of ''embedding_vectors'')). col_notnull d \<and> r (col_name d) = SNull"
    using assms by (simp add: schema_of_def embedding_vectors_schema_def)
  from check_notnull_missing [OF this] show ?thesis by auto
qed

lemma embedding_autoincrement: "autoincrement (schema_of ''embedding_vectors'')"
  by (simp add: schema_of_def embedding_vectors_schema_def)

lemma embedding_not_inserted:
  assumes "map_of ps ''original_text'' = Some (PVal SNull)"
  shows "isl (sql_insert now ''embedding_vectors'' ps db)"
proof (cases "bind_params ps")
  case (Inr vs)
  have "map_of vs ''original_text'' = Some SNull" using Inr assms by (rule bind_params_lookup)
  then have "isl (check_notnull (schema_of ''embedding_vectors'')
      ((new_row now (schema_of ''embedding_vectors'') vs)(''id'' := x)))" for x
    by (intro embedding_text_required) (simp add: new_row_def)
  then show ?thesis
    using Inr by (auto simp: sql_insert_def Let_def isl_def embedding_autoincrement) (metis rbind_simps(1))
qed (simp add: sql_insert_def)

lemma embedding_not_updated:
  assumes "map_of ps ''original_text'' = Some (PVal SNull)"
    and "sql_update ''embedding_vectors'' ps p db = Inr db'"
  shows "filter p (rows_of db ''embedding_vectors'') = []"
proof (cases "filter p (rows_of db ''embedding_vectors'')")
  case (Cons r rs)
  obtain vs where vs: "bind_params ps = Inr vs"
    using assms(2) by (auto simp: sql_update_def result_simps)
  then have "map_of vs ''original_text'' = Some SNull" using assms(1) by (rule bind_params_lookup)
  then have "assign vs r ''original_text'' = SNull" "''original_text'' \<in> set (map fst vs)"
    by (simp_all add: assign_def) (metis map_of_keyD)
  then have "\<exists>d \<in> set (columns (touched vs (schema_of ''embedding_vectors''))). col_notnull d
      \<and> assign vs r (col_name d) = SNull"
    by (simp add: touched_def schema_of_def embedding_vectors_schema_def)
  from check_notnull_missing [OF this] show ?thesis
    using assms(2) vs Cons by (auto simp: sql_update_def Let_def result_simps isl_def)
qed simp

lemma merge_embedding_no_text:
  assumes "merge_embedding hexd now v s = Inr s'" "json_str_opt v ''original_text'' = None"
  shows "fst s' = fst s \<and> (\<exists>r \<in> set (rows_of (fst s) ''embedding_vectors'').
     r ''segment_id'' = SText (key_of ''segment_id'' v) \<and> r ''model_id'' = SText (key_of ''model_id'' v))"
proof -
  obtain i m h where ih: "json_str v ''segment_id'' = Inr i" "json_str v ''model_id'' = Inr m"
    "extract_hlc v = Inr h"
    using assms by (auto simp: merge_embedding_def result_simps)
  let ?p = "\<lambda>r. key_is ''segment_id'' i r \<and> key_is ''model_id'' m r"
  let ?f = "\<lambda>r. Option.bind (row_hlc r) (\<lambda>h. case r ''id'' of SInt i \<Rightarrow> Some (i, h) | _ \<Rightarrow> None)"
  let ?q = "query_row_ok ''embedding_vectors'' ?p ?f (fst s)"
  show ?thesis
  proof (cases ?q)
    case None
    then obtain vh ps qs db where ps: "json_params v embedding_head_spec = Inr ps"
      and ins: "sql_insert now ''embedding_vectors''
        ((''segment_id'', PVal (SText i)) # ps @ (''vector'', decode_vector hexd vh) # qs) (fst s) = Inr db"
      using assms(1) ih by (auto simp: merge_embedding_def result_simps)
    have "map_of ((''segment_id'', PVal (SText i)) # ps @ (''vector'', decode_vector hexd vh) # qs)
        ''original_text'' = Some (PVal SNull)"
      using no_text_param [OF assms(2) ps] by simp
    from embedding_not_inserted [OF this] ins show ?thesis by (metis sum.disc(2))
  next
    case (Some x)
    then obtain r0 where r0: "find ?p (rows_of (fst s) ''embedding_vectors'') = Some r0" and f: "?f r0 = Some x"
      by (auto simp: query_row_ok_def bind_eq_Some_conv)
    from f obtain lid lh where x: "x = (lid, lh)" and lid: "r0 ''id'' = SInt lid"
      by (cases "r0 ''id''") (auto simp: bind_eq_Some_conv)
    have r0': "?p r0" "r0 \<in> set (rows_of (fst s) ''embedding_vectors'')" using find_SomeD [OF r0] by auto
    have "\<not> is_after h lh"
    proof
      assume "is_after h lh"
      then obtain vh ps qs db where ps: "json_params v embedding_head_spec = Inr ps"
        and upd: "sql_update ''embedding_vectors'' (ps @ (''vector'', decode_vector hexd vh) # qs)
          (\<lambda>r. r ''id'' = SInt lid) (fst s) = Inr db"
        using assms(1) ih Some x by (auto simp: merge_embedding_def result_simps)
      have "map_of (ps @ (''vector'', decode_vector hexd vh) # qs) ''original_text'' = Some (PVal SNull)"
        using no_text_param [OF assms(2) ps] by simp
      from embedding_not_updated [OF this upd] r0'(2) lid show False by (auto simp: filter_empty_conv)
    qed
    then show ?thesis using assms(1) ih Some x r0' by (auto simp: merge_embedding_def key_of_eq)
  qed
qed

lemma merge_embeddings_no_text:
  assumes "rfold (merge_embedding hexd now) vs s = Inr s'"
    and "\<forall>v \<in> set vs. json_str_opt v ''original_text'' = None" "v \<in> set vs"
  shows "\<exists>r \<in> set (rows_of (fst s) ''embedding_vectors'').
     r ''segment_id'' = SText (key_of ''segment_id'' v) \<and> r ''model_id'' = SText (key_of ''model_id'' v)"
  using assms
proof (induction vs arbitrary: s)
  case (Cons w ws)
  then obtain u where u: "merge_embedding hexd now w s = Inr u" "rfold (merge_embedding hexd now) ws u = Inr s'"
    by (auto simp: result_simps)
  from merge_embedding_no_text [OF u(1)] Cons.prems(2) Cons.prems(3) Cons.IH [OF u(2)]
  show ?case by (cases "v = w") auto
qed simp

section \<open>Properties\<close>

text \<open>Every row of a merged changeset is counted exactly once, as applied, as skipped (older or
  already stored) or as tombstoned; only the rows of \<open>preferences\<close>, which the merger never reads, are not.\<close>

theorem apply_changes_counts_every_row:
  assumes "apply_changes hexd now dev cs db = (Inr res, db')" "kind cs = Data" "origin_device_id cs \<noteq> dev"
  shows "applied res + skipped_lww res + skipped_dup res + tombstoned res + length (preferences cs)
           = row_count cs \<and> new_watermark res = watermark cs"
proof -
  obtain r where r: "merge_all hexd now cs db = Inr (db', r)" and res: "res = r\<lparr>new_watermark := watermark cs\<rparr>"
    using assms by (auto simp: apply_changes_def split: sum.splits)
  from merge_all_total [OF r] show ?thesis by (simp add: res total_rows_def row_count_def)
qed

theorem apply_changes_counts_every_row_witness:
  "\<exists>res db'. apply_changes (\<lambda>_. None) ''t'' ''c'' (snd sample_b) empty_db = (Inr res, db')
     \<and> applied res + skipped_lww res + skipped_dup res + tombstoned res = 1"
proof -
  let ?r = "apply_changes (\<lambda>_. None) ''t'' ''c'' (snd sample_b) empty_db"
  have "\<not> isl (fst ?r)" by code_simp
  then obtain res db' where r: "?r = (Inr res, db')" by (metis isl_def prod.collapse sum.exhaust_sel)
  have "kind (snd sample_b) = Data" "origin_device_id (snd sample_b) \<noteq> ''c''"
    "length (preferences (snd sample_b)) = 0" "row_count (snd sample_b) = 1" by code_simp+
  with apply_changes_counts_every_row [OF r] r show ?thesis by auto
qed

text \<open>C3: a deletion event that succeeds erases every row the device contributed to the six synced
  tables, keeps all others in place and reports how many it erased; it always succeeds when foreign
  keys are not enforced.\<close>

theorem deletion_event_erases_device:
  assumes "kind cs = DeletionEvent"
  shows "case apply_changes hexd now dev cs db of
      (Inr res, db') \<Rightarrow>
        (\<forall>t. rows_of db' t = (if t \<in> set synced_tables then keep_others (origin_device_id cs) (rows_of db t)
                              else rows_of db t))
        \<and> tombstoned res = (\<Sum>t\<leftarrow>synced_tables. erased_rows (origin_device_id cs) (rows_of db t))
        \<and> applied res = 0
    | (Inl e, db') \<Rightarrow> fk_on db"
proof (cases "handle_deletion_event (origin_device_id cs) db")
  case (Pair r db')
  show ?thesis
  proof (cases r)
    case (Inl e)
    with Pair assms delete_origin_Inl show ?thesis
      by (fastforce simp: apply_changes_def handle_deletion_event_def)
  next
    case (Inr n)
    note d = delete_origin_Inr [OF Pair [unfolded handle_deletion_event_def Inr] distinct_synced_tables]
    from Pair Inr assms d show ?thesis
      by (simp add: apply_changes_def sync_result_default_def)
  qed
qed

definition sample_deletion :: "string \<Rightarrow> ChangeSet" where
  "sample_deletion d = (sample_changeset d)\<lparr>kind := DeletionEvent\<rparr>"

definition db_ab :: sdb where
  "db_ab = fst (replica (\<lambda>_. None) ''c'' [sample_a, sample_e] fresh)"

theorem deletion_event_erases_device_witness:
  "\<exists>res db'. apply_changes (\<lambda>_. None) ''t'' ''c'' (sample_deletion ''a'') db_ab = (Inr res, db')
     \<and> rows_of db' ''regimes'' = keep_others ''a'' (rows_of db_ab ''regimes'')"
proof -
  let ?r = "apply_changes (\<lambda>_. None) ''t'' ''c'' (sample_deletion ''a'') db_ab"
  have "\<not> isl (fst ?r)" by code_simp
  then obtain res db' where r: "?r = (Inr res, db')" by (metis isl_def prod.collapse sum.exhaust_sel)
  have k: "kind (sample_deletion ''a'') = DeletionEvent" "origin_device_id (sample_deletion ''a'') = ''a''"
    "''regimes'' \<in> set synced_tables"
    by code_simp+
  from deletion_event_erases_device [OF k(1), where hexd = "\<lambda>_. None" and now = "''t''" and dev = "''c''" and db = db_ab] r k show ?thesis
    by (auto simp: Ball_def)
qed

definition segment_row :: "string \<Rightarrow> string \<Rightarrow> string \<Rightarrow> row" where
  "segment_row i r d = (\<lambda>c. if c = ''id'' then SText i else if c = ''regime_id'' then SText r
     else if c = ''origin_device_id'' then SText d else SNull)"

definition regime_row :: "string \<Rightarrow> string \<Rightarrow> row" where
  "regime_row i d = (\<lambda>c. if c = ''id'' then SText i else if c = ''origin_device_id'' then SText d else SNull)"

definition shared_db :: sdb where
  "shared_db = set_rows ''activity_segments'' [segment_row ''g1'' ''r1'' ''a'', segment_row ''g2'' ''r1'' ''b'']
     (set_rows ''regimes'' [regime_row ''r1'' ''a''] empty_db)"

text \<open>With foreign keys enforced a deletion event can fail between two tables and leave the database
  half erased: the device's segments are gone, its regimes are not.\<close>

theorem deletion_event_can_stop_midway:
  "\<exists>cs db. kind cs = DeletionEvent \<and> (case apply_changes (\<lambda>_. None) ''t'' ''c'' cs db of (r, db') \<Rightarrow>
     isl r \<and> length (rows_of db ''activity_segments'') = 2 \<and> length (rows_of db' ''activity_segments'') = 1
     \<and> erased_rows (origin_device_id cs) (rows_of db' ''regimes'') = 1)"
proof (intro exI conjI)
  show "kind (sample_deletion ''a'') = DeletionEvent" by code_simp
  show "case apply_changes (\<lambda>_. None) ''t'' ''c'' (sample_deletion ''a'') shared_db of (r, db') \<Rightarrow>
     isl r \<and> length (rows_of shared_db ''activity_segments'') = 2
     \<and> length (rows_of db' ''activity_segments'') = 1
     \<and> erased_rows (origin_device_id (sample_deletion ''a'')) (rows_of db' ''regimes'') = 1"
    by code_simp
qed

text \<open>A data changeset that brings one segment the receiver does not store yet is refused as a whole
  and changes nothing, since the insert names no value for the column \<open>trigger_reason\<close>, declared
  \<open>NOT NULL\<close> without a default.\<close>

theorem unknown_segment_refuses_changeset:
  assumes "kind cs = Data" "origin_device_id cs \<noteq> dev" "v \<in> set (segments cs)"
    and "\<not> row_exists ''activity_segments'' (key_is ''id'' (key_of ''id'' v)) db"
  shows "\<exists>e. apply_changes hexd now dev cs db = (Inl e, db)"
proof (cases "merge_all hexd now cs db")
  case (Inr x)
  then obtain s1 where "rfold (merge_segment now) (segments cs) (db, sync_result_default) = Inr s1"
    by (auto simp: merge_all_def result_simps)
  from merge_segments_Inr [OF this] assms(3,4) show ?thesis by auto
qed (use assms(1,2) in \<open>simp add: apply_changes_def\<close>)

definition sample_segment :: "string \<Rightarrow> json" where
  "sample_segment i = JObject ([(''id'', JString i), (''start_time'', JString ''t0''),
     (''end_time'', JString ''t1''), (''duration_secs'', num 60), (''dominant_category'', JString ''dev'')]
     @ sample_hlc 5 ''a'')"

theorem unknown_segment_refuses_changeset_witness:
  "\<exists>e. apply_changes (\<lambda>_. None) ''t'' ''c'' ((sample_changeset ''a'')\<lparr>segments := [sample_segment ''g1'']\<rparr>) empty_db
     = (Inl e, empty_db)"
  by (rule unknown_segment_refuses_changeset [where v = "sample_segment ''g1''"]) code_simp+

text \<open>A changeset whose embeddings carry no text, which is what the extractor sends when embedding
  text is not included, is refused as soon as one of them is unknown to the receiver.\<close>

theorem embeddings_without_text_refused:
  assumes "kind cs = Data" "origin_device_id cs \<noteq> dev" "v \<in> set (embeddings cs)"
    and "\<forall>w \<in> set (embeddings cs). json_str_opt w ''original_text'' = None"
    and "\<not> row_exists ''embedding_vectors'' (\<lambda>r. r ''segment_id'' = SText (key_of ''segment_id'' v)
            \<and> r ''model_id'' = SText (key_of ''model_id'' v)) db"
  shows "\<exists>e. apply_changes hexd now dev cs db = (Inl e, db)"
proof (cases "merge_all hexd now cs db")
  case (Inr x)
  obtain db' res where "x = (db', res)" by (cases x)
  with Inr merge_all_parts(5) obtain s s' where s: "rfold (merge_embedding hexd now) (embeddings cs) s = Inr s'"
    and t: "tables (fst s) ''embedding_vectors'' = tables db ''embedding_vectors''"
    by blast
  from merge_embeddings_no_text [OF s assms(4,3)] assms(5) t show ?thesis
    by (auto simp: row_exists_def rows_of_def)
qed (use assms(1,2) in \<open>simp add: apply_changes_def\<close>)

definition sample_embedding :: json where
  "sample_embedding = JObject ([(''segment_id'', JString ''g1''), (''content_type'', JString ''summary''),
     (''vector'', JString ''00''), (''model_id'', JString ''m''), (''timestamp'', JString ''t0'')]
     @ sample_hlc 5 ''a'')"

theorem embeddings_without_text_refused_witness:
  "\<exists>e. apply_changes (\<lambda>_. None) ''t'' ''c'' ((sample_changeset ''a'')\<lparr>embeddings := [sample_embedding]\<rparr>) empty_db
     = (Inl e, empty_db)"
  by (rule embeddings_without_text_refused [where v = sample_embedding]) code_simp+

end
