(* ===== verification/SyncExtractor.thy ===== *)
theory SyncExtractor
  imports SyncProperties "HOL-Library.Multiset"
begin

text \<open>
  The change extractor of \<open>crates/oneshim-storage/src/sync_extractor.rs\<close>: it stamps rows that predate sync
  with the device's id, selects the rows of every synced table above a watermark and packs them into a
  changeset, and computes the watermark itself.

  A floating-point value travels as decimal text that SQLite writes and \<open>serde_json\<close> reads; what comes
  back is the argument \<open>rt\<close> (\<open>None\<close> where the text does not parse). The HLC columns are declared
  \<open>INTEGER NOT NULL\<close> and \<open>TEXT NOT NULL\<close> and hold such values. \<open>ORDER BY\<close> is taken to be stable.
\<close>

record SyncConfig =
  include_content_activities :: bool
  include_embedding_text :: bool

section \<open>Backfill\<close>

definition backfill_table :: "string \<Rightarrow> string \<Rightarrow> sdb \<Rightarrow> StorageError + (sdb \<times> nat)" where
  "backfill_table dev t db =
     (let p = key_is ''origin_device_id'' [] in
      rbind (sql_ctx ''backfill origin_device_id''
               (sql_update t [(''origin_device_id'', PVal (SText dev))] p db)) (\<lambda>db'.
      Inr (db', length (filter p (rows_of db t)))))"

fun backfill_tables :: "string list \<Rightarrow> string \<Rightarrow> sdb \<Rightarrow> nat \<Rightarrow> StorageError + (sdb \<times> nat)" where
  "backfill_tables [] dev db k = Inr (db, k)"
| "backfill_tables (t # ts) dev db k =
     rbind (backfill_table dev t db) (\<lambda>(db', n). backfill_tables ts dev db' (k + n))"

definition backfill_origin_device_id :: "string \<Rightarrow> sdb \<Rightarrow> StorageError + (sdb \<times> nat)" where
  "backfill_origin_device_id dev db = backfill_tables synced_tables dev db 0"

section \<open>Selecting changes\<close>

datatype selcol = Col string | HexCol string

definition nibble :: "u8 \<Rightarrow> char" where
  "nibble n = ''0123456789ABCDEF'' ! unat n"

definition sql_hex :: "u8 list \<Rightarrow> string" where
  "sql_hex bs = concat (map (\<lambda>b. [nibble (drop_bit 4 b), nibble (take_bit 4 b)]) bs)"

fun json_of_sql :: "(f64 \<Rightarrow> f64 option) \<Rightarrow> string \<Rightarrow> sqlval \<Rightarrow> StorageError + json" where
  "json_of_sql rt t SNull = Inr JNull"
| "json_of_sql rt t (SInt i) = Inr (JNumber (if 0 \<le> i then PosInt (word_of_int i) else NegInt i))"
| "json_of_sql rt t (SReal f) =
     (case rt f of Some g \<Rightarrow> Inr (JNumber (Float g)) | None \<Rightarrow> Inl (SqlFailed ''json parse'' (JsonUnsupported t)))"
| "json_of_sql rt t (SText s) = Inr (JString s)"
| "json_of_sql rt t (SBlob b) = Inl (SqlFailed ''row read'' (JsonUnsupported t))"

fun select_col :: "(f64 \<Rightarrow> f64 option) \<Rightarrow> string \<Rightarrow> row \<Rightarrow> selcol \<Rightarrow> StorageError + (string \<times> json)" where
  "select_col rt t r (Col c) = rbind (json_of_sql rt t (r c)) (\<lambda>j. Inr (c, j))"
| "select_col rt t r (HexCol c) =
     (case r c of SBlob b \<Rightarrow> Inr (c, JString (sql_hex b)) | SNull \<Rightarrow> Inr (c, JString [])
      | _ \<Rightarrow> Inl (SqlFailed ''row read'' (ColumnConversion c)))"

fun collect_results :: "('a \<Rightarrow> 'e + 'b) \<Rightarrow> 'a list \<Rightarrow> 'e + 'b list" where
  "collect_results f [] = Inr []"
| "collect_results f (x # xs) = rbind (f x) (\<lambda>y. rbind (collect_results f xs) (\<lambda>ys. Inr (y # ys)))"

definition json_object :: "(f64 \<Rightarrow> f64 option) \<Rightarrow> string \<Rightarrow> selcol list \<Rightarrow> row \<Rightarrow> StorageError + json" where
  "json_object rt t cols r = rbind (collect_results (select_col rt t r) cols) (\<lambda>kvs. Inr (JObject kvs))"

text \<open>The \<open>WHERE\<close> clause and the \<open>ORDER BY\<close> key.\<close>

definition hlc_above :: "Hlc \<Rightarrow> row \<Rightarrow> bool" where
  "hlc_above since r =
     (case (r ''hlc_wall_ms'', r ''hlc_counter'', r ''origin_device_id'') of
        (SInt w, SInt c, SText d) \<Rightarrow>
          w > uint (wall_ms since)
          \<or> w = uint (wall_ms since) \<and> c > uint (counter since)
          \<or> w = uint (wall_ms since) \<and> c = uint (counter since) \<and> d > device_id since
      | _ \<Rightarrow> False)"

definition sql_int :: "sqlval \<Rightarrow> int" where
  "sql_int v = (case v of SInt i \<Rightarrow> i | _ \<Rightarrow> 0)"

definition hlc_order :: "row \<Rightarrow> int \<times> int" where
  "hlc_order r = (sql_int (r ''hlc_wall_ms''), sql_int (r ''hlc_counter''))"

definition query_table_changes ::
  "(f64 \<Rightarrow> f64 option) \<Rightarrow> string \<Rightarrow> selcol list \<Rightarrow> Hlc \<Rightarrow> sdb \<Rightarrow> StorageError + json list" where
  "query_table_changes rt t cols since db =
     rbind (sql_ctx ''query'' (bind_param (PU64 (wall_ms since)))) (\<lambda>_.
     collect_results (json_object rt t cols) (sort_key hlc_order (filter (hlc_above since) (rows_of db t))))"

section \<open>Watermark\<close>

definition coalesce_max :: "int list \<Rightarrow> int" where
  "coalesce_max xs = (case xs of [] \<Rightarrow> 0 | x # ys \<Rightarrow> fold max ys x)"

definition table_max :: "sdb \<Rightarrow> string \<Rightarrow> int \<times> int" where
  "table_max db t =
     (let w = coalesce_max (map (\<lambda>r. sql_int (r ''hlc_wall_ms'')) (rows_of db t));
          rs = filter (\<lambda>r. r ''hlc_wall_ms'' = SInt w) (rows_of db t)
      in (coalesce_max (map (\<lambda>r. sql_int (r ''hlc_wall_ms'')) rs),
          coalesce_max (map (\<lambda>r. sql_int (r ''hlc_counter'')) rs)))"

definition table_candidate :: "string \<Rightarrow> sdb \<Rightarrow> string \<Rightarrow> StorageError + Hlc" where
  "table_candidate dev db t =
     (let (w, c) = table_max db t in
      rbind (ok_or (get_u64 (SInt w)) (SqlFailed ''max HLC query'' (ColumnConversion t))) (\<lambda>wall.
      rbind (ok_or (get_u32 (SInt c)) (SqlFailed ''max HLC query'' (ColumnConversion t))) (\<lambda>cnt.
      Inr \<lparr>wall_ms = wall, counter = cnt, device_id = dev\<rparr>)))"

definition compute_max_hlc :: "string \<Rightarrow> sdb \<Rightarrow> StorageError + Hlc" where
  "compute_max_hlc dev db =
     rfold (\<lambda>t m. rbind (table_candidate dev db t) (\<lambda>cand. Inr (if cand > m then cand else m)))
       synced_tables hlc_default"

definition local_watermark :: "string \<Rightarrow> sdb \<Rightarrow> StorageError + Hlc" where
  "local_watermark dev db = compute_max_hlc dev db"

section \<open>The changeset\<close>

abbreviation hlc_cols :: "selcol list" where
  "hlc_cols \<equiv> [Col ''hlc_wall_ms'', Col ''hlc_counter'', Col ''origin_device_id'']"

definition seg_cols :: "bool \<Rightarrow> selcol list" where
  "seg_cols include_content =
     [Col ''id'', Col ''start_time'', Col ''end_time'', Col ''duration_secs'', Col ''regime_id'',
      Col ''dominant_category'', Col ''app_breakdown'', Col ''llm_summary'']
     @ (if include_content then [Col ''content_activities_json''] else []) @ hlc_cols"

definition regime_cols :: "selcol list" where
  "regime_cols =
     [Col ''id'', Col ''label'', Col ''detected_at'', Col ''last_seen_at'', Col ''occurrence_count'',
      Col ''avg_density'', Col ''avg_importance'', Col ''dominant_category'', Col ''params_snapshot_id'',
      Col ''is_active'', Col ''is_deleted'', Col ''deleted_at''] @ hlc_cols"

definition override_cols :: "selcol list" where
  "override_cols =
     [Col ''override_id'', Col ''segment_id'', Col ''original_regime_id'', Col ''action_type'',
      Col ''action_data'', Col ''created_at''] @ hlc_cols"

definition embed_cols :: "bool \<Rightarrow> selcol list" where
  "embed_cols include_text =
     [Col ''id'', Col ''segment_id'', Col ''content_type'', Col ''content_label'']
     @ (if include_text then [Col ''original_text''] else [])
     @ [HexCol ''vector'', Col ''model_id'', Col ''timestamp'', Col ''is_stale'', Col ''is_deleted'',
        Col ''deleted_at''] @ hlc_cols"

definition suggestion_cols :: "selcol list" where
  "suggestion_cols =
     [Col ''suggestion_id'', Col ''suggestion_type'', Col ''source'', Col ''content'', Col ''priority'',
      Col ''confidence_score'', Col ''relevance_score'', Col ''is_actionable'', Col ''reasoning'',
      Col ''shown_at'', Col ''dismissed_at'', Col ''acted_at'', Col ''created_at'', Col ''expires_at'',
      Col ''is_deleted'', Col ''deleted_at''] @ hlc_cols"

definition param_snapshot_cols :: "selcol list" where
  "param_snapshot_cols =
     [Col ''id'', Col ''created_at'', Col ''preset'', Col ''params_json''] @ hlc_cols"

text \<open>The backfill is not undone when a later query fails.\<close>

definition extract_changes ::
  "(f64 \<Rightarrow> f64 option) \<Rightarrow> SyncConfig \<Rightarrow> string \<Rightarrow> string \<Rightarrow> Hlc \<Rightarrow> sdb \<Rightarrow> StorageError + ChangeSet" where
  "extract_changes rt cfg dev name since db =
     rbind (query_table_changes rt ''activity_segments'' (seg_cols (include_content_activities cfg)) since db) (\<lambda>segs.
     rbind (query_table_changes rt ''regimes'' regime_cols since db) (\<lambda>regs.
     rbind (query_table_changes rt ''regime_overrides'' override_cols since db) (\<lambda>ovs.
     rbind (query_table_changes rt ''embedding_vectors'' (embed_cols (include_embedding_text cfg)) since db) (\<lambda>embs.
     rbind (query_table_changes rt ''suggestions'' suggestion_cols since db) (\<lambda>sugs.
     rbind (query_table_changes rt ''trigger_params_snapshots'' param_snapshot_cols since db) (\<lambda>snaps.
     rbind (compute_max_hlc dev db) (\<lambda>wm.
     Inr \<lparr>kind = Data, origin_device_id = dev, origin_device_name = name, watermark = wm,
          segments = segs, regimes = regs, overrides = ovs, embeddings = embs, suggestions = sugs,
          param_snapshots = snaps, preferences = []\<rparr>)))))))"

definition get_changes_since ::
  "(f64 \<Rightarrow> f64 option) \<Rightarrow> SyncConfig \<Rightarrow> string \<Rightarrow> string \<Rightarrow> Hlc \<Rightarrow> sdb \<Rightarrow> (StorageError + ChangeSet) \<times> sdb" where
  "get_changes_since rt cfg dev name since db =
     (case backfill_origin_device_id dev db of
        Inl e \<Rightarrow> (Inl e, db)
      | Inr (db', n) \<Rightarrow> (extract_changes rt cfg dev name since db', db'))"

section \<open>Backfill never fails and runs once\<close>

definition stamp_origin :: "string \<Rightarrow> row \<Rightarrow> row" where
  "stamp_origin dev r = (if r ''origin_device_id'' = SText [] then r(''origin_device_id'' := SText dev) else r)"

lemma assign_origin: "assign [(''origin_device_id'', SText dev)] r = r(''origin_device_id'' := SText dev)"
  by (auto simp: assign_def fun_eq_iff)

lemma rfold_unit: "(\<And>x. x \<in> set xs \<Longrightarrow> f x () = Inr ()) \<Longrightarrow> rfold f xs () = Inr ()"
  by (induction xs) auto

lemma origin_checks:
  "check_notnull (touched [(''origin_device_id'', SText dev)] (schema_of t)) (r(''origin_device_id'' := SText dev)) = Inr ()"
  "check_fk (touched [(''origin_device_id'', SText dev)] (schema_of t)) db r' = Inr ()"
proof -
  have notnull: "\<forall>d \<in> set (columns sch). col_notnull d \<longrightarrow> q (col_name d) \<noteq> SNull \<Longrightarrow> check_notnull sch q = Inr ()"
    for sch :: table_schema and q
    by (auto simp: check_notnull_def find_None_iff split: option.split dest!: find_SomeD)
  show "check_notnull (touched [(''origin_device_id'', SText dev)] (schema_of t)) (r(''origin_device_id'' := SText dev)) = Inr ()"
    by (rule notnull) (auto simp: touched_def)
  have "foreign_keys (touched [(''origin_device_id'', SText dev)] (schema_of t)) = []"
    by (simp add: touched_def schema_of_def activity_segments_schema_def regimes_schema_def
        regime_overrides_schema_def embedding_vectors_schema_def suggestions_schema_def
        trigger_params_snapshots_schema_def sync_peers_schema_def)
  then show "check_fk (touched [(''origin_device_id'', SText dev)] (schema_of t)) db r' = Inr ()"
    by (simp add: check_fk_def)
qed

lemma backfill_table_eq:
  "backfill_table dev t db = Inr (set_rows t (map (stamp_origin dev) (rows_of db t)) db,
     length (filter (key_is ''origin_device_id'' []) (rows_of db t)))"
proof -
  have "sql_update t [(''origin_device_id'', PVal (SText dev))] (key_is ''origin_device_id'' []) db
      = Inr (set_rows t (map (stamp_origin dev) (rows_of db t)) db)"
    by (simp add: sql_update_def Let_def assign_origin rfold_unit origin_checks stamp_origin_def [abs_def]
        cong: if_cong)
  then show ?thesis by (simp add: backfill_table_def)
qed

lemma backfill_tables_eq:
  "distinct ts \<Longrightarrow> \<exists>db'. backfill_tables ts dev db k
       = Inr (db', k + (\<Sum>t\<leftarrow>ts. length (filter (key_is ''origin_device_id'' []) (rows_of db t))))
     \<and> (\<forall>t. rows_of db' t = (if t \<in> set ts then map (stamp_origin dev) (rows_of db t) else rows_of db t))
     \<and> (\<forall>t. tseq (tables db' t) = tseq (tables db t)) \<and> fk_on db' = fk_on db"
proof (induction ts arbitrary: db k)
  case (Cons t ts)
  let ?db1 = "set_rows t (map (stamp_origin dev) (rows_of db t)) db"
  have same: "rows_of ?db1 u = rows_of db u" if "u \<in> set ts" for u
    using that Cons.prems by (auto simp: rows_of_set_rows)
  have sums: "(\<Sum>u\<leftarrow>ts. length (filter (key_is ''origin_device_id'' []) (rows_of ?db1 u)))
      = (\<Sum>u\<leftarrow>ts. length (filter (key_is ''origin_device_id'' []) (rows_of db u)))"
    by (rule arg_cong [where f = sum_list]) (simp add: same)
  have seq: "tseq (tables ?db1 u) = tseq (tables db u)" for u by (simp add: set_rows_def)
  from Cons.prems have "distinct ts" by simp
  from Cons.IH [OF this, of ?db1] obtain db' where db':
    "backfill_tables ts dev ?db1 (k + length (filter (key_is ''origin_device_id'' []) (rows_of db t)))
       = Inr (db', (k + length (filter (key_is ''origin_device_id'' []) (rows_of db t)))
          + (\<Sum>u\<leftarrow>ts. length (filter (key_is ''origin_device_id'' []) (rows_of ?db1 u))))"
    "\<forall>u. rows_of db' u = (if u \<in> set ts then map (stamp_origin dev) (rows_of ?db1 u) else rows_of ?db1 u)"
    "\<forall>u. tseq (tables db' u) = tseq (tables ?db1 u)" "fk_on db' = fk_on ?db1"
    by blast
  have "backfill_tables (t # ts) dev db k
      = Inr (db', k + (\<Sum>u\<leftarrow>t # ts. length (filter (key_is ''origin_device_id'' []) (rows_of db u))))"
    using db'(1) unfolding sums by (simp add: backfill_table_eq)
  moreover have "rows_of db' u = (if u \<in> set (t # ts) then map (stamp_origin dev) (rows_of db u) else rows_of db u)" for u
    using db'(2) Cons.prems by (auto simp: rows_of_set_rows)
  ultimately show ?case using db'(3,4) by (intro exI [of _ db']) (simp add: seq)
qed simp

lemma sdb_eqI:
  fixes db db' :: sdb
  assumes "\<And>t. rows_of db' t = rows_of db t" "\<And>t. tseq (tables db' t) = tseq (tables db t)" "fk_on db' = fk_on db"
  shows "db' = db"
proof -
  have "tables db' t = tables db t" for t
    using assms(1,2) [of t] by (cases "tables db' t"; cases "tables db t") (simp add: rows_of_def)
  then show ?thesis using assms(3) by (cases db; cases db') auto
qed

lemma stamp_origin_idem: "dev \<noteq> [] \<Longrightarrow> stamp_origin dev (stamp_origin dev r) = stamp_origin dev r"
  by (simp add: stamp_origin_def)

lemma backfill_noop:
  assumes "\<forall>t \<in> set synced_tables. filter (key_is ''origin_device_id'' []) (rows_of db t) = []"
  shows "backfill_origin_device_id dev db = Inr (db, 0)"
proof -
  have "distinct synced_tables" by (simp add: synced_tables_def)
  from backfill_tables_eq [OF this, of dev db 0] obtain db' where db':
    "backfill_origin_device_id dev db = Inr (db',
       \<Sum>t\<leftarrow>synced_tables. length (filter (key_is ''origin_device_id'' []) (rows_of db t)))"
    "\<And>t. rows_of db' t = (if t \<in> set synced_tables then map (stamp_origin dev) (rows_of db t) else rows_of db t)"
    "\<And>t. tseq (tables db' t) = tseq (tables db t)" "fk_on db' = fk_on db"
    unfolding backfill_origin_device_id_def by auto
  have "map (stamp_origin dev) (rows_of db t) = rows_of db t" if "t \<in> set synced_tables" for t
    using assms that by (intro map_idI) (auto simp: stamp_origin_def filter_empty_conv)
  with db'(2-4) have "db' = db" by (intro sdb_eqI) auto
  moreover have "(\<Sum>t\<leftarrow>synced_tables. length (filter (key_is ''origin_device_id'' []) (rows_of db t))) = 0"
    using assms by simp
  ultimately show ?thesis using db'(1) by simp
qed

lemma get_changes_since_stamped:
  "\<forall>t \<in> set synced_tables. filter (key_is ''origin_device_id'' []) (rows_of db t) = [] \<Longrightarrow>
     get_changes_since rt cfg dev name since db = (extract_changes rt cfg dev name since db, db)"
  by (simp add: get_changes_since_def backfill_noop)

lemma stamped_no_blank:
  "dev \<noteq> [] \<Longrightarrow> filter (key_is ''origin_device_id'' []) (map (stamp_origin dev) rs) = []"
  by (auto simp: filter_empty_conv stamp_origin_def)

section \<open>The selected rows\<close>

text \<open>Rows whose HLC columns hold a clock, as the columns' types promise.\<close>

definition hlc_typed :: "row \<Rightarrow> bool" where
  "hlc_typed r \<longleftrightarrow> sql_int (r ''hlc_wall_ms'') \<le> i64_max \<and> row_hlc r \<noteq> None"

lemma hlc_typedE:
  assumes "hlc_typed r"
  obtains w c d where "r ''hlc_wall_ms'' = SInt w" "r ''hlc_counter'' = SInt c" "r ''origin_device_id'' = SText d"
    "0 \<le> w" "w \<le> i64_max" "0 \<le> c" "c < 2 ^ 32"
    "row_hlc r = Some \<lparr>wall_ms = word_of_int w, counter = word_of_int c, device_id = d\<rparr>"
  using assms that
  by (cases "r ''hlc_wall_ms''"; cases "r ''hlc_counter''"; cases "r ''origin_device_id''")
    (auto simp: hlc_typed_def row_hlc_def sql_int_def split: if_splits)

lemma uint_word_of_i64: "0 \<le> w \<Longrightarrow> w \<le> i64_max \<Longrightarrow> uint (word_of_int w :: u64) = w"
  by (simp add: i64_max_def uint_word_of_int)

lemma uint_word_of_u32: "0 \<le> c \<Longrightarrow> c < 2 ^ 32 \<Longrightarrow> uint (word_of_int c :: u32) = c"
  by (simp add: uint_word_of_int)

lemma hlc_above_iff:
  assumes "hlc_typed r"
  shows "hlc_above since r \<longleftrightarrow> since < the (row_hlc r)"
proof -
  obtain w c d where r: "r ''hlc_wall_ms'' = SInt w" "r ''hlc_counter'' = SInt c" "r ''origin_device_id'' = SText d"
    and b: "0 \<le> w" "w \<le> i64_max" "0 \<le> c" "c < 2 ^ 32"
    and h: "row_hlc r = Some \<lparr>wall_ms = word_of_int w, counter = word_of_int c, device_id = d\<rparr>"
    using assms by (rule hlc_typedE)
  have "wall_ms since < word_of_int w \<longleftrightarrow> uint (wall_ms since) < w"
    "wall_ms since = word_of_int w \<longleftrightarrow> w = uint (wall_ms since)"
    "counter since < word_of_int c \<longleftrightarrow> uint (counter since) < c"
    "counter since = word_of_int c \<longleftrightarrow> c = uint (counter since)"
    using uint_word_of_i64 [OF b(1,2)] uint_word_of_u32 [OF b(3,4)]
    by (auto simp: word_less_def simp flip: word_uint_eq_iff)
  with r h show ?thesis by (auto simp: hlc_above_def hlc_less_iff hlc_key_def)
qed

lemma list_all2_memberE:
  assumes "list_all2 P xs ys" "x \<in> set xs"
  obtains y where "y \<in> set ys" "P x y"
  using assms by (induction arbitrary: thesis rule: list_all2_induct) auto

lemma collect_results_list_all2:
  "collect_results f xs = Inr ys \<longleftrightarrow> list_all2 (\<lambda>x y. f x = Inr y) xs ys"
  by (induction xs arbitrary: ys) (auto simp: result_simps list_all2_Cons1)

text \<open>The tables of a changeset with the columns they were selected with.\<close>

definition changeset_tables :: "SyncConfig \<Rightarrow> ChangeSet \<Rightarrow> (string \<times> selcol list \<times> json list) list" where
  "changeset_tables cfg cs =
     [(''activity_segments'', seg_cols (include_content_activities cfg), segments cs),
      (''regimes'', regime_cols, regimes cs), (''regime_overrides'', override_cols, overrides cs),
      (''embedding_vectors'', embed_cols (include_embedding_text cfg), embeddings cs),
      (''suggestions'', suggestion_cols, suggestions cs),
      (''trigger_params_snapshots'', param_snapshot_cols, param_snapshots cs)]"

lemma extract_changes_tables:
  assumes "extract_changes rt cfg dev name since db = Inr cs" "(t, cols, vs) \<in> set (changeset_tables cfg cs)"
  shows "query_table_changes rt t cols since db = Inr vs"
  using assms by (auto simp: extract_changes_def changeset_tables_def result_simps)

lemma query_table_changes_Inr:
  assumes "query_table_changes rt t cols since db = Inr vs"
  shows "list_all2 (\<lambda>r v. json_object rt t cols r = Inr v)
    (sort_key hlc_order (filter (hlc_above since) (rows_of db t))) vs"
  using assms by (auto simp: query_table_changes_def result_simps collect_results_list_all2)

section \<open>The watermark\<close>

lemma coalesce_max_ge: "x \<in> set xs \<Longrightarrow> x \<le> coalesce_max xs"
  using Max.set_eq_fold [of "hd xs" "tl xs"] Max_ge [of "set xs" x]
  by (cases xs) (auto simp: coalesce_max_def simp del: Max_insert)

lemma coalesce_max_in: "xs \<noteq> [] \<Longrightarrow> coalesce_max xs \<in> set xs"
  using Max.set_eq_fold [of "hd xs" "tl xs"] Max_in [of "set xs"]
  by (cases xs) (auto simp: coalesce_max_def simp del: Max_insert)

definition wall_counter :: "Hlc \<Rightarrow> u64 \<times> u32" where
  "wall_counter h = (wall_ms h, counter h)"

lemma wall_counter_mono: "h \<le> h' \<Longrightarrow> wall_counter h \<le> wall_counter h'"
  by (auto simp: hlc_less_eq_iff hlc_key_def wall_counter_def less_eq_prod_def)

definition typed_rows :: "sdb \<Rightarrow> bool" where
  "typed_rows db \<longleftrightarrow> (\<forall>t \<in> set synced_tables. \<forall>r \<in> set (rows_of db t). hlc_typed r)"

lemma typed_wall: "hlc_typed r \<Longrightarrow> r ''hlc_wall_ms'' = SInt (sql_int (r ''hlc_wall_ms''))"
  by (elim hlc_typedE) (simp add: sql_int_def)

lemma table_max_wall:
  assumes "rows_of db t \<noteq> []" "\<forall>r \<in> set (rows_of db t). hlc_typed r"
  shows "fst (table_max db t) = coalesce_max (map (\<lambda>r. sql_int (r ''hlc_wall_ms'')) (rows_of db t))"
    and "\<exists>r \<in> set (rows_of db t). sql_int (r ''hlc_wall_ms'') = fst (table_max db t)"
proof -
  define w where "w = coalesce_max (map (\<lambda>r. sql_int (r ''hlc_wall_ms'')) (rows_of db t))"
  define rs where "rs = filter (\<lambda>r. r ''hlc_wall_ms'' = SInt w) (rows_of db t)"
  have "w \<in> set (map (\<lambda>r. sql_int (r ''hlc_wall_ms'')) (rows_of db t))"
    unfolding w_def using assms(1) by (intro coalesce_max_in) simp
  then obtain r0 where r0: "r0 \<in> set (rows_of db t)" "sql_int (r0 ''hlc_wall_ms'') = w" by auto
  then have "r0 \<in> set rs" using assms(2) typed_wall [of r0] by (simp add: rs_def)
  then have "coalesce_max (map (\<lambda>r. sql_int (r ''hlc_wall_ms'')) rs) \<in> set (map (\<lambda>r. sql_int (r ''hlc_wall_ms'')) rs)"
    by (intro coalesce_max_in) auto
  then have "coalesce_max (map (\<lambda>r. sql_int (r ''hlc_wall_ms'')) rs) = w"
    by (auto simp: rs_def sql_int_def)
  then have max: "fst (table_max db t) = w" by (simp add: table_max_def Let_def w_def rs_def)
  then show "fst (table_max db t) = coalesce_max (map (\<lambda>r. sql_int (r ''hlc_wall_ms'')) (rows_of db t))"
    by (simp add: w_def)
  show "\<exists>r \<in> set (rows_of db t). sql_int (r ''hlc_wall_ms'') = fst (table_max db t)"
    using r0 max by auto
qed

lemma table_max_ge:
  assumes "r \<in> set (rows_of db t)" "\<forall>r \<in> set (rows_of db t). hlc_typed r"
  shows "hlc_order r \<le> table_max db t"
proof -
  have "rows_of db t \<noteq> []" using assms(1) by auto
  note wm = table_max_wall(1) [OF this assms(2)]
  have le: "sql_int (r ''hlc_wall_ms'') \<le> fst (table_max db t)"
    unfolding wm using assms(1) by (intro coalesce_max_ge) simp
  show ?thesis
  proof (cases "sql_int (r ''hlc_wall_ms'') = fst (table_max db t)")
    case True
    then have "r ''hlc_wall_ms'' = SInt (coalesce_max (map (\<lambda>r. sql_int (r ''hlc_wall_ms'')) (rows_of db t)))"
      using assms wm typed_wall [of r] by simp
    with assms(1) have "sql_int (r ''hlc_counter'') \<le> snd (table_max db t)"
      by (auto simp: table_max_def Let_def intro!: coalesce_max_ge)
    with True show ?thesis by (simp add: hlc_order_def less_eq_prod_def)
  next
    case False
    with le show ?thesis by (simp add: hlc_order_def less_eq_prod_def)
  qed
qed

lemma candidate_bounds:
  assumes "table_candidate dev db t = Inr cand" "r \<in> set (rows_of db t)"
    and typed: "\<forall>r \<in> set (rows_of db t). hlc_typed r" and "row_hlc r = Some h"
  shows "wall_counter h \<le> wall_counter cand"
proof -
  obtain W C where WC: "table_max db t = (W, C)" by (cases "table_max db t")
  have cand: "0 \<le> W" "0 \<le> C" "C < 2 ^ 32" "wall_ms cand = word_of_int W" "counter cand = word_of_int C"
    using assms(1) WC by (auto simp: table_candidate_def result_simps split: if_splits)
  have "hlc_typed r" using typed assms(2) by blast
  then obtain w c d where r: "r ''hlc_wall_ms'' = SInt w" "r ''hlc_counter'' = SInt c"
    and b: "0 \<le> w" "w \<le> i64_max" "0 \<le> c" "c < 2 ^ 32"
    and h: "h = \<lparr>wall_ms = word_of_int w, counter = word_of_int c, device_id = d\<rparr>"
    using assms(4) by (elim hlc_typedE) auto
  have "(w, c) \<le> (W, C)" using table_max_ge [OF assms(2) typed] WC r by (simp add: hlc_order_def sql_int_def)
  moreover have "W \<le> i64_max"
    using table_max_wall(2) [OF _ typed] assms(2) typed WC by (fastforce simp: hlc_typed_def)
  ultimately show ?thesis
    using h cand uint_word_of_i64 [OF b(1,2)] uint_word_of_u32 [OF b(3,4)] uint_word_of_i64 [of W]
      uint_word_of_u32 [of C]
    by (auto simp: wall_counter_def less_eq_prod_def word_less_def word_le_def)
qed

lemma max_candidates:
  assumes "rfold (\<lambda>t m. rbind (table_candidate dev db t) (\<lambda>cand. Inr (if cand > m then cand else m))) ts m = Inr wm"
  shows "m \<le> wm \<and> (\<forall>t \<in> set ts. \<exists>cand. table_candidate dev db t = Inr cand \<and> cand \<le> wm)"
  using assms
proof (induction ts arbitrary: m)
  case (Cons t ts)
  then obtain cand where cand: "table_candidate dev db t = Inr cand"
    and rest: "rfold (\<lambda>t m. rbind (table_candidate dev db t) (\<lambda>cand. Inr (if cand > m then cand else m))) ts
      (if cand > m then cand else m) = Inr wm"
    by (auto simp: result_simps)
  from Cons.IH [OF rest] have "max cand m \<le> wm"
    and "\<forall>t \<in> set ts. \<exists>cand. table_candidate dev db t = Inr cand \<and> cand \<le> wm"
    by (auto split: if_splits)
  with cand show ?case by auto
qed simp

lemma watermark_bounds:
  assumes "compute_max_hlc dev db = Inr wm" "typed_rows db" "t \<in> set synced_tables"
    and "r \<in> set (rows_of db t)" "row_hlc r = Some h"
  shows "wall_counter h \<le> wall_counter wm"
proof -
  from max_candidates [OF assms(1) [unfolded compute_max_hlc_def]] assms(3)
  obtain cand where cand: "table_candidate dev db t = Inr cand" "cand \<le> wm" by blast
  have "wall_counter h \<le> wall_counter cand"
    using candidate_bounds [OF cand(1) assms(4) _ assms(5)] assms(2,3) by (simp add: typed_rows_def)
  also have "\<dots> \<le> wall_counter wm" using cand(2) by (rule wall_counter_mono)
  finally show ?thesis .
qed

lemma watermark_device:
  assumes "compute_max_hlc dev db = Inr wm"
  shows "device_id wm = dev \<or> dev = []"
proof -
  let ?f = "\<lambda>t m. rbind (table_candidate dev db t) (\<lambda>cand. Inr (if cand > m then cand else m))"
  have one: "device_id cand = dev" if "table_candidate dev db t = Inr cand" for t cand
    using that by (auto simp: table_candidate_def result_simps split: prod.splits)
  have zero: "table_candidate dev db ''activity_segments'' = Inr cand \<Longrightarrow> dev \<noteq> [] \<Longrightarrow> cand > hlc_default" for cand
    using one [of "''activity_segments''" cand]
    by (cases cand; cases dev) (auto simp: hlc_less_iff hlc_key_def hlc_default_def word_neq_0_conv)
  have keep: "rfold ?f ts m = Inr wm \<Longrightarrow> device_id m = dev \<Longrightarrow> device_id wm = dev" for ts m
    by (erule rfold_invariant) (auto simp: result_simps one split: if_splits)
  obtain rest where rest: "synced_tables = ''activity_segments'' # rest" by (simp add: synced_tables_def)
  from assms obtain cand where cand: "table_candidate dev db ''activity_segments'' = Inr cand"
    and r: "rfold ?f rest (if cand > hlc_default then cand else hlc_default) = Inr wm"
    by (auto simp: compute_max_hlc_def rest rbind_eq_Inr)
  show ?thesis
  proof (cases "dev = []")
    case False
    from zero [OF cand False] r have "rfold ?f rest cand = Inr wm" by simp
    from keep [OF this one [OF cand]] show ?thesis ..
  qed simp
qed

section \<open>From a row to the changeset and back\<close>

text \<open>A stored value that the extractor of its column reads back unchanged.\<close>

fun fits :: "(f64 \<Rightarrow> f64 option) \<Rightarrow> col_extractor \<Rightarrow> sqlval \<Rightarrow> bool" where
  "fits rt XStr v = (get_str v \<noteq> None)"
| "fits rt XStrOpt v = (get_opt_str v \<noteq> None)"
| "fits rt (XStrDef d) v = (get_str v \<noteq> None)"
| "fits rt XI64 v = (case v of SInt i \<Rightarrow> i \<le> i64_max | _ \<Rightarrow> False)"
| "fits rt (XI64Def d) v = (case v of SInt i \<Rightarrow> i \<le> i64_max | _ \<Rightarrow> False)"
| "fits rt XU64 v = (case v of SInt i \<Rightarrow> 0 \<le> i \<and> i \<le> i64_max | _ \<Rightarrow> False)"
| "fits rt XU32 v = (case v of SInt i \<Rightarrow> 0 \<le> i \<and> i < 2 ^ 32 | _ \<Rightarrow> False)"
| "fits rt XF64 v = (case v of SReal f \<Rightarrow> rt f = Some f | _ \<Rightarrow> False)"

lemma select_cols_lookup:
  assumes "collect_results (select_col rt t r) cols = Inr kvs" "Col c \<in> set cols" "HexCol c \<notin> set cols"
  shows "\<exists>j. map_of kvs c = Some j \<and> json_of_sql rt t (r c) = Inr j"
  using assms
proof (induction cols arbitrary: kvs)
  case (Cons x xs)
  then obtain kv kvs' where kv: "select_col rt t r x = Inr kv" "collect_results (select_col rt t r) xs = Inr kvs'"
    "kvs = kv # kvs'" by (auto simp: result_simps)
  show ?case
  proof (cases x)
    case (Col d)
    with kv Cons show ?thesis by (cases "d = c") (auto simp: result_simps)
  next
    case (HexCol d)
    with kv Cons show ?thesis by (auto split: sqlval.splits)
  qed
qed simp

lemma fits_extract:
  assumes "json_get v c = Some j" "json_of_sql rt t s = Inr j" "fits rt x s"
  shows "\<exists>p. extract_param v c x = Inr p \<and> bind_param p = Inr s"
proof (cases s)
  case (SInt i)
  then show ?thesis
    using assms uint_word_of_i64 [of i] uint_word_of_u32 [of i] take_bit_int_eq_self [of i 32]
    by (cases x)
      (auto simp: json_i64_def json_i64_or_default_def json_u64_def json_u32_def json_str_def result_simps
        unsigned_ucast_eq i64_max_def split: if_splits)
qed (use assms in \<open>cases x; auto simp: json_str_def json_str_opt_def json_str_or_default_def json_f64_def
        opt_text_def result_simps split: option.splits\<close>)+

lemma row_image_roundtrip:
  assumes "json_object rt t cols r = Inr v"
    and "\<And>c. c \<in> set (map fst xs) \<Longrightarrow> Col c \<in> set cols \<and> HexCol c \<notin> set cols"
    and "\<And>c x. map_of xs c = Some x \<Longrightarrow> fits rt x (r c)"
  shows "row_image v xs = project (map fst xs) r"
proof
  fix c
  obtain kvs where kvs: "collect_results (select_col rt t r) cols = Inr kvs" "v = JObject kvs"
    using assms(1) by (auto simp: json_object_def result_simps)
  show "row_image v xs c = project (map fst xs) r c"
  proof (cases "map_of xs c")
    case None
    then have "c \<notin> fst ` set xs" by (simp add: map_of_eq_None_iff)
    with None show ?thesis by (simp add: row_image_def project_def)
  next
    case (Some x)
    then have c: "c \<in> set (map fst xs)" by (auto dest: map_of_keyD)
    with select_cols_lookup [OF kvs(1)] assms(2) obtain j
      where "map_of kvs c = Some j" "json_of_sql rt t (r c) = Inr j" by blast
    with fits_extract [of v c j rt t "r c" x] assms(3) [OF Some] kvs(2)
    obtain p where "extract_param v c x = Inr p" "bind_param p = Inr (r c)" by auto
    with Some c show ?thesis by (simp add: row_image_def project_def)
  qed
qed

lemma spec_columns:
  "c \<in> set (map fst regime_spec) \<Longrightarrow> Col c \<in> set regime_cols \<and> HexCol c \<notin> set regime_cols"
  "c \<in> set (map fst suggestion_spec) \<Longrightarrow> Col c \<in> set suggestion_cols \<and> HexCol c \<notin> set suggestion_cols"
  "c \<in> set (map fst override_spec) \<Longrightarrow> Col c \<in> set override_cols \<and> HexCol c \<notin> set override_cols"
  "c \<in> set (map fst param_snapshot_spec) \<Longrightarrow> Col c \<in> set param_snapshot_cols \<and> HexCol c \<notin> set param_snapshot_cols"
  by (auto simp: regime_spec_def regime_update_spec_def suggestion_spec_defs override_spec_def
      param_snapshot_spec_def hlc_spec_def regime_cols_def suggestion_cols_def override_cols_def
      param_snapshot_cols_def)

definition row_fits :: "(f64 \<Rightarrow> f64 option) \<Rightarrow> (string \<times> col_extractor) list \<Rightarrow> row \<Rightarrow> bool" where
  "row_fits rt xs r \<longleftrightarrow> (\<forall>(c, x) \<in> set xs. fits rt x (r c))"

lemma row_fitsD: "row_fits rt xs r \<Longrightarrow> map_of xs c = Some x \<Longrightarrow> fits rt x (r c)"
  by (auto simp: row_fits_def dest: map_of_SomeD)

section \<open>Properties\<close>

lemma extraction_rows:
  assumes "get_changes_since rt cfg dev name since db = (Inr cs, db')"
    and "(t, cols, vs) \<in> set (changeset_tables cfg cs)" "\<forall>r \<in> set (rows_of db' t). hlc_typed r"
  shows "\<exists>rs. mset rs = {#r \<in># mset (rows_of db' t). since < the (row_hlc r)#}
    \<and> sorted (map hlc_order rs) \<and> list_all2 (\<lambda>r v. json_object rt t cols r = Inr v) rs vs"
proof (intro exI conjI)
  have ex: "extract_changes rt cfg dev name since db' = Inr cs"
    using assms(1) by (auto simp: get_changes_since_def split: sum.splits)
  let ?rs = "sort_key hlc_order (filter (hlc_above since) (rows_of db' t))"
  show "list_all2 (\<lambda>r v. json_object rt t cols r = Inr v) ?rs vs"
    using extract_changes_tables [OF ex assms(2)] by (rule query_table_changes_Inr)
  show "sorted (map hlc_order ?rs)" by simp
  have "filter (hlc_above since) (rows_of db' t) = filter (\<lambda>r. since < the (row_hlc r)) (rows_of db' t)"
    using assms(3) by (intro filter_cong) (simp_all add: hlc_above_iff)
  then show "mset ?rs = {#r \<in># mset (rows_of db' t). since < the (row_hlc r)#}" by simp
qed

text \<open>C4: an extraction returns, for each synced table, the rows whose clock is after the watermark, all of
  them and each once, in the order of wall time and counter; the SQL comparison is the clocks' own order.\<close>

theorem extraction_exact:
  assumes "get_changes_since rt cfg dev name since db = (Inr cs, db')"
    and "(t, cols, vs) \<in> set (changeset_tables cfg cs)" "\<forall>r \<in> set (rows_of db' t). hlc_typed r"
  shows "\<exists>rs. mset rs = {#r \<in># mset (rows_of db' t). since < the (row_hlc r)#}
    \<and> sorted (map hlc_order rs) \<and> list_all2 (\<lambda>r v. json_object rt t cols r = Inr v) rs vs"
  using assms by (rule extraction_rows)

definition exact_rt :: "f64 \<Rightarrow> f64 option" where "exact_rt f = Some f"

definition sync_cfg :: SyncConfig where
  "sync_cfg = \<lparr>include_content_activities = False, include_embedding_text = True\<rparr>"

definition lit_row :: "(string \<times> sqlval) list \<Rightarrow> row" where
  "lit_row kvs c = (case map_of kvs c of None \<Rightarrow> SNull | Some v \<Rightarrow> v)"

definition sender_db :: sdb where
  "sender_db = set_rows ''regimes'' [lit_row [(''id'', SText ''r1''), (''label'', SText ''l''),
     (''detected_at'', SText ''t0''), (''last_seen_at'', SText ''t1''), (''occurrence_count'', SInt 1),
     (''avg_density'', SReal (F64_of_int 0)), (''avg_importance'', SReal (F64_of_int 0)),
     (''dominant_category'', SText ''dev''), (''is_active'', SInt 1), (''is_deleted'', SInt 0),
     (''hlc_wall_ms'', SInt 5), (''hlc_counter'', SInt 0), (''origin_device_id'', SText ''a'')]] empty_db"

lemma sender_extract:
  obtains cs where "get_changes_since exact_rt sync_cfg ''z'' ''Z'' hlc_default sender_db = (Inr cs, sender_db)"
proof -
  have "\<not> isl (extract_changes exact_rt sync_cfg ''z'' ''Z'' hlc_default sender_db)" by code_simp
  moreover have "\<forall>t \<in> set synced_tables. filter (key_is ''origin_device_id'' []) (rows_of sender_db t) = []"
    by code_simp
  ultimately show ?thesis using that by (metis get_changes_since_stamped isl_def sum.exhaust_sel)
qed

lemma sender_typed: "\<forall>r \<in> set (rows_of sender_db ''regimes''). hlc_typed r"
  by code_simp

theorem extraction_exact_witness:
  "\<exists>cs rs. get_changes_since exact_rt sync_cfg ''z'' ''Z'' hlc_default sender_db = (Inr cs, sender_db)
     \<and> mset rs = {#r \<in># mset (rows_of sender_db ''regimes''). hlc_default < the (row_hlc r)#}
     \<and> list_all2 (\<lambda>r v. json_object exact_rt ''regimes'' regime_cols r = Inr v) rs (regimes cs)"
proof -
  obtain cs where cs: "get_changes_since exact_rt sync_cfg ''z'' ''Z'' hlc_default sender_db = (Inr cs, sender_db)"
    by (rule sender_extract)
  have "(''regimes'', regime_cols, regimes cs) \<in> set (changeset_tables sync_cfg cs)"
    by (simp add: changeset_tables_def)
  from extraction_exact [OF cs this sender_typed] cs show ?thesis by blast
qed

text \<open>The watermark of an empty store is not the default clock: it carries the device's id.\<close>

lemma fresh_install_watermark: "local_watermark ''z'' empty_db = Inr \<lparr>wall_ms = 0, counter = 0, device_id = ''z''\<rparr>"
  by code_simp

text \<open>The watermark a device computes is at or above the wall time and counter of every row it holds,
  and names the device itself.\<close>

theorem watermark_covers_rows:
  assumes "local_watermark dev db = Inr wm" "typed_rows db" "dev \<noteq> []"
  shows "device_id wm = dev \<and> (\<forall>t \<in> set synced_tables. \<forall>r \<in> set (rows_of db t).
      wall_counter (the (row_hlc r)) \<le> wall_counter wm)"
  using assms watermark_bounds [of dev db wm] watermark_device [of dev db wm]
  by (fastforce simp: local_watermark_def typed_rows_def hlc_typed_def)

theorem watermark_covers_rows_witness:
  "\<exists>wm. local_watermark ''z'' sender_db = Inr wm \<and> device_id wm = ''z''"
proof -
  have "\<not> isl (local_watermark ''z'' sender_db)" by code_simp
  then obtain wm where wm: "local_watermark ''z'' sender_db = Inr wm" by (metis isl_def sum.exhaust_sel)
  have "typed_rows sender_db" "''z'' \<noteq> []" by code_simp+
  with watermark_covers_rows [OF wm] wm show ?thesis by blast
qed

text \<open>A row of a synced table that is packed into a changeset and merged elsewhere arrives with the
  same values in every synced column, provided its values have the types of their columns.\<close>

theorem synced_rows_round_trip:
  assumes "(cols, xs) \<in> {(regime_cols, regime_spec), (suggestion_cols, suggestion_spec),
      (override_cols, override_spec), (param_snapshot_cols, param_snapshot_spec)}"
    and "json_object rt t cols r = Inr v" "row_fits rt xs r"
  shows "row_image v xs = project (map fst xs) r"
  using assms by (intro row_image_roundtrip) (auto simp del: set_map dest: spec_columns row_fitsD)

theorem synced_rows_round_trip_witness:
  "\<exists>r v. rows_of sender_db ''regimes'' = [r] \<and> json_object exact_rt ''regimes'' regime_cols r = Inr v
     \<and> row_image v regime_spec = project (map fst regime_spec) r"
proof -
  have "length (rows_of sender_db ''regimes'') = 1" by code_simp
  then obtain r where r: "rows_of sender_db ''regimes'' = [r]" by (auto simp: length_Suc_conv)
  have "\<forall>r \<in> set (rows_of sender_db ''regimes''). row_fits exact_rt regime_spec r
      \<and> \<not> isl (json_object exact_rt ''regimes'' regime_cols r)" by code_simp
  then have "row_fits exact_rt regime_spec r" "\<not> isl (json_object exact_rt ''regimes'' regime_cols r)"
    by (simp_all add: r)
  moreover from this(2) obtain v where v: "json_object exact_rt ''regimes'' regime_cols r = Inr v"
    by (metis isl_def sum.exhaust_sel)
  ultimately show ?thesis using synced_rows_round_trip [OF _ v] r v by blast
qed



end
