(* ===== verification/Consent.thy ===== *)
theory Consent
  imports Prelude
begin

text \<open>
  The consent manager of \<open>crates/oneshim-core/src/consent.rs\<close>: the record a user grants, its file, and
  granting, revoking, checking and restarting. The file is kept as the record it parses to (\<open>None\<close> for
  a missing or unreadable file). Writing can fail; an \<open>io\<close> argument says whether it does and, for the
  plain write of \<open>save_to_file\<close>, what a failed write leaves in the file. \<open>revoke_consent\<close> renames a
  finished temporary file into place, so its failure leaves the file as it was. Times are nanoseconds.
\<close>

definition CURRENT_POLICY_VERSION :: string where "CURRENT_POLICY_VERSION = ''1.0.0''"

record ConsentPermissions =
  screen_capture :: bool
  ocr_processing :: bool
  telemetry :: bool
  process_monitoring :: bool
  input_activity :: bool
  window_title_collection :: bool
  app_usage_analytics :: bool
  clipboard_monitoring :: bool
  file_access_monitoring :: bool
  activity_pattern_learning :: bool
  cross_device_sync :: bool
  full_text_extraction :: bool

record ConsentRecord =
  consent_id :: string
  version :: string
  granted_at :: int
  expires_at :: "int option"
  revoked_at :: "int option"
  data_deletion_requested :: bool
  permissions :: ConsentPermissions
  data_retention_days :: u32

datatype ConsentStatus = NotGranted | Valid | Expired | UpdateRequired

record ConsentManager =
  current_consent :: "ConsentRecord option"
  pending_deletion :: bool

type_synonym consent_file = "ConsentRecord option"

datatype io_result = IoOk | IoFailed "ConsentRecord option"

datatype ConsentError = ConsentIo

section \<open>Operations\<close>

definition load_from_file :: "consent_file \<Rightarrow> ConsentRecord option" where
  "load_from_file file =
     (case file of None \<Rightarrow> None
      | Some record \<Rightarrow> if data_deletion_requested record then None else Some record)"

definition consent_new :: "consent_file \<Rightarrow> ConsentManager" where
  "consent_new file = \<lparr>current_consent = load_from_file file, pending_deletion = False\<rparr>"

definition check_consent :: "int \<Rightarrow> ConsentManager \<Rightarrow> ConsentStatus" where
  "check_consent now cm =
     (case current_consent cm of
        None \<Rightarrow> NotGranted
      | Some record \<Rightarrow>
          (case expires_at record of
             Some expires \<Rightarrow>
               if now > expires then Expired
               else if version record \<noteq> CURRENT_POLICY_VERSION then UpdateRequired else Valid
           | None \<Rightarrow> if version record \<noteq> CURRENT_POLICY_VERSION then UpdateRequired else Valid))"

definition save_to_file :: "io_result \<Rightarrow> ConsentRecord \<Rightarrow> consent_file \<Rightarrow> (ConsentError + unit) \<times> consent_file" where
  "save_to_file io record file = (case io of IoOk \<Rightarrow> (Inr (), Some record) | IoFailed left \<Rightarrow> (Inl ConsentIo, left))"

definition grant_consent ::
  "int \<Rightarrow> string \<Rightarrow> io_result \<Rightarrow> ConsentPermissions \<Rightarrow> u32 \<Rightarrow> ConsentManager \<times> consent_file
     \<Rightarrow> (ConsentError + unit) \<times> ConsentManager \<times> consent_file" where
  "grant_consent now uuid io perms days s =
     (let record = \<lparr>consent_id = uuid, version = CURRENT_POLICY_VERSION, granted_at = now, expires_at = None,
        revoked_at = None, data_deletion_requested = False, permissions = perms, data_retention_days = days\<rparr>
      in case save_to_file io record (snd s) of
           (Inl e, file) \<Rightarrow> (Inl e, fst s, file)
         | (Inr _, file) \<Rightarrow> (Inr (), (fst s)\<lparr>current_consent := Some record\<rparr>, file))"

definition revoke_consent ::
  "int \<Rightarrow> io_result \<Rightarrow> ConsentManager \<times> consent_file \<Rightarrow> (ConsentError + unit) \<times> ConsentManager \<times> consent_file" where
  "revoke_consent now io s =
     (let cm = (fst s)\<lparr>current_consent :=
            map_option (\<lambda>r. r\<lparr>revoked_at := Some now, data_deletion_requested := True\<rparr>) (current_consent (fst s))\<rparr>
      in case current_consent cm of
           None \<Rightarrow> (Inr (), cm\<lparr>current_consent := None, pending_deletion := True\<rparr>, snd s)
         | Some record \<Rightarrow>
             (case io of
                IoFailed _ \<Rightarrow> (Inl ConsentIo, cm, snd s)
              | IoOk \<Rightarrow> (Inr (), cm\<lparr>current_consent := None, pending_deletion := True\<rparr>, Some record)))"

definition has_pending_deletion :: "ConsentManager \<Rightarrow> bool" where
  "has_pending_deletion cm \<longleftrightarrow>
     pending_deletion cm \<or> (case current_consent cm of None \<Rightarrow> False | Some r \<Rightarrow> data_deletion_requested r)"

definition clear_pending_deletion :: "ConsentManager \<Rightarrow> ConsentManager" where
  "clear_pending_deletion cm = cm\<lparr>pending_deletion := False\<rparr>"

definition is_permitted :: "(ConsentPermissions \<Rightarrow> bool) \<Rightarrow> ConsentManager \<Rightarrow> bool" where
  "is_permitted check cm = (case current_consent cm of None \<Rightarrow> False | Some r \<Rightarrow> check (permissions r))"

section \<open>Sequences of operations\<close>

datatype consent_op =
    Grant int string io_result ConsentPermissions u32
  | Revoke int io_result
  | ClearPending
  | Restart

type_synonym consent_state = "ConsentManager \<times> consent_file"

fun consent_step :: "consent_op \<Rightarrow> consent_state \<Rightarrow> consent_state" where
  "consent_step (Grant now u io p d) s = snd (grant_consent now u io p d s)"
| "consent_step (Revoke now io) s = snd (revoke_consent now io s)"
| "consent_step ClearPending s = (clear_pending_deletion (fst s), snd s)"
| "consent_step Restart s = (consent_new (snd s), snd s)"

definition consent_run :: "consent_op list \<Rightarrow> consent_state" where
  "consent_run ops = fold consent_step ops (consent_new None, None)"

fun writes_ok :: "consent_op \<Rightarrow> bool" where
  "writes_ok (Grant _ _ io _ _) = (io = IoOk)"
| "writes_ok (Revoke _ io) = (io = IoOk)"
| "writes_ok _ = True"

text \<open>With working writes memory and file agree: what is in force is what a restart would load.\<close>

definition consent_inv :: "consent_state \<Rightarrow> bool" where
  "consent_inv s \<longleftrightarrow> current_consent (fst s) = load_from_file (snd s)"

lemma load_not_deleted: "load_from_file f = Some r \<Longrightarrow> \<not> data_deletion_requested r"
  by (auto simp: load_from_file_def split: option.splits if_splits)

lemma consent_step_inv: "consent_inv s \<Longrightarrow> writes_ok op \<Longrightarrow> consent_inv (consent_step op s)"
  by (cases op)
    (auto simp: consent_inv_def grant_consent_def save_to_file_def Let_def load_from_file_def consent_new_def
      clear_pending_deletion_def revoke_consent_def split: option.splits)

lemma consent_run_inv: "list_all writes_ok ops \<Longrightarrow> consent_inv (consent_run ops)"
proof -
  have "consent_inv s \<Longrightarrow> list_all writes_ok ops \<Longrightarrow> consent_inv (fold consent_step ops s)" for s
    by (induction ops arbitrary: s) (simp_all add: consent_step_inv)
  then show "list_all writes_ok ops \<Longrightarrow> ?thesis"
    by (simp add: consent_run_def consent_inv_def consent_new_def load_from_file_def)
qed

text \<open>The operations since the last grant contain a revocation.\<close>

fun revoked_since_grant :: "consent_op list \<Rightarrow> bool" where
  "revoked_since_grant [] = False"
| "revoked_since_grant (Grant _ _ _ _ _ # _) = False"
| "revoked_since_grant (Revoke _ _ # _) = True"
| "revoked_since_grant (_ # ops) = revoked_since_grant ops"

lemma revoked_stays_revoked:
  assumes "list_all writes_ok ops" "revoked_since_grant (rev ops)"
  shows "current_consent (fst (consent_run ops)) = None"
  using assms
proof (induction ops rule: rev_induct)
  case (snoc op ops)
  have inv: "consent_inv (consent_run ops)" using snoc.prems(1) by (intro consent_run_inv) simp
  show ?case
  proof (cases op)
    case (Revoke now io)
    then show ?thesis using snoc.prems
      by (auto simp: consent_run_def revoke_consent_def Let_def split: option.splits)
  next
    case Restart
    then have "current_consent (fst (consent_run ops)) = None" using snoc by simp
    then have "load_from_file (snd (consent_run ops)) = None" using inv by (simp add: consent_inv_def)
    with Restart show ?thesis by (simp add: consent_run_def consent_new_def)
  next
    case ClearPending
    with snoc show ?thesis by (simp add: consent_run_def clear_pending_deletion_def)
  qed (use snoc.prems in simp)
qed simp

text \<open>Permissions are granted without regard to expiry and policy version: a consent that
  \<open>check_consent\<close> reports as expired still permits what it permitted before.\<close>

lemma expired_consent_still_permits:
  assumes "current_consent cm = Some r" "expires_at r = Some e" "e < now"
  shows "check_consent now cm = Expired \<and> is_permitted check cm = check (permissions r)"
  using assms by (simp add: is_permitted_def check_consent_def)

section \<open>Properties\<close>

text \<open>C6: once the user has revoked consent, no operation is permitted until a new grant, however often
  the process restarts in between.\<close>

theorem revoked_consent_permits_nothing:
  assumes "list_all writes_ok ops" "revoked_since_grant (rev ops)"
  shows "\<not> is_permitted check (fst (consent_run ops)) \<and> check_consent now (fst (consent_run ops)) = NotGranted"
  using revoked_stays_revoked [OF assms] by (simp add: is_permitted_def check_consent_def)

definition all_permissions :: ConsentPermissions where
  "all_permissions = \<lparr>screen_capture = True, ocr_processing = True, telemetry = True,
     process_monitoring = True, input_activity = True, window_title_collection = True,
     app_usage_analytics = True, clipboard_monitoring = True, file_access_monitoring = True,
     activity_pattern_learning = True, cross_device_sync = True, full_text_extraction = True\<rparr>"

definition sample_ops :: "consent_op list" where
  "sample_ops = [Grant 1 ''u'' IoOk all_permissions 30, Revoke 2 IoOk, Restart]"

theorem revoked_consent_permits_nothing_witness:
  "\<not> is_permitted cross_device_sync (fst (consent_run sample_ops))"
proof -
  have "list_all writes_ok sample_ops" "revoked_since_grant (rev sample_ops)" by code_simp+
  from revoked_consent_permits_nothing [OF this, of cross_device_sync 0] show ?thesis ..
qed

text \<open>The request to erase data does not survive a restart: after a revocation and a restart nothing
  is pending any more, although no data was erased.\<close>

theorem pending_deletion_lost_on_restart:
  "\<not> has_pending_deletion (fst (consent_step Restart s))"
  using load_not_deleted [of "snd s"]
  by (auto simp: has_pending_deletion_def consent_new_def split: option.splits)

end
