(* ===== verification/SyncEngine.thy ===== *)
theory SyncEngine
  imports SyncOutcomes SyncExtractor Consent
begin

text \<open>
  The sync cycle of \<open>src-tauri/src/sync_engine.rs\<close>: consent gate, pending deletion, pull and merge until
  the transport has nothing more, then extract and push. It calls the extractor, the merger and the
  consent manager of the other theories; the transport is a pair of functions on a state \<open>'n\<close> of its
  own. The pull loop ends only when the transport stops delivering, so it is a partial function.
\<close>

datatype EngineError = EStorage StorageError | ETransport string

record 'n sync_env =
  env_pull :: "Hlc \<Rightarrow> 'n \<Rightarrow> (EngineError + ChangeSet option) \<times> 'n"
  env_push :: "ChangeSet \<Rightarrow> 'n \<Rightarrow> (EngineError + unit) \<times> 'n"
  env_hexd :: "string \<Rightarrow> u8 list option"
  env_rt :: "f64 \<Rightarrow> f64 option"
  env_cfg :: SyncConfig
  env_dev :: string
  env_name :: string
  env_sql_now :: string
  env_now_ms :: u64

record 'n SyncEngine =
  store :: sdb
  net :: 'n
  last_push_watermark :: Hlc
  deletion_pushed :: bool
  last_sync_at :: "int option"
  last_error :: "EngineError option"

definition engine_new :: "'n sync_env \<Rightarrow> sdb \<Rightarrow> 'n \<Rightarrow> 'n SyncEngine" where
  "engine_new env d n =
     \<lparr>store = d, net = n,
      last_push_watermark = (case local_watermark (env_dev env) d of Inr wm \<Rightarrow> wm | Inl _ \<Rightarrow> hlc_default),
      deletion_pushed = False, last_sync_at = None, last_error = None\<rparr>"

section \<open>The cycle\<close>

partial_function (option) pull_loop ::
  "'n sync_env \<Rightarrow> Hlc \<Rightarrow> SyncResult option \<Rightarrow> sdb \<times> 'n
     \<Rightarrow> ((EngineError + SyncResult option) \<times> sdb \<times> 'n) option" where
  "pull_loop env lw mr s =
     (case env_pull env (case mr of None \<Rightarrow> lw | Some r \<Rightarrow> new_watermark r) (snd s) of
        (Inl e, n) \<Rightarrow> Some (Inl e, fst s, n)
      | (Inr None, n) \<Rightarrow> Some (Inr mr, fst s, n)
      | (Inr (Some cs), n) \<Rightarrow>
          (case apply_changes (env_hexd env) (env_sql_now env) (env_dev env) cs (fst s) of
             (Inl e, d) \<Rightarrow> Some (Inl (EStorage e), d, n)
           | (Inr r, d) \<Rightarrow> pull_loop env lw (Some r) (d, n)))"

definition deletion_changeset :: "'n sync_env \<Rightarrow> ChangeSet" where
  "deletion_changeset env =
     \<lparr>kind = DeletionEvent, origin_device_id = env_dev env, origin_device_name = env_name env,
      watermark = hlc_now (env_now_ms env) (env_dev env), segments = [], regimes = [], overrides = [],
      embeddings = [], suggestions = [], param_snapshots = [], preferences = []\<rparr>"

definition push_deletion_event ::
  "'n sync_env \<Rightarrow> 'n SyncEngine \<Rightarrow> (EngineError + SyncResult option) \<times> 'n SyncEngine" where
  "push_deletion_event env e =
     (case env_push env (deletion_changeset env) (net e) of
        (Inl er, n) \<Rightarrow> (Inl er, e\<lparr>net := n\<rparr>)
      | (Inr _, n) \<Rightarrow> (Inr None, e\<lparr>net := n, deletion_pushed := True\<rparr>))"

definition push_phase ::
  "'n sync_env \<Rightarrow> SyncResult option \<Rightarrow> 'n SyncEngine \<Rightarrow> (EngineError + SyncResult option) \<times> 'n SyncEngine" where
  "push_phase env mr e =
     (case get_changes_since (env_rt env) (env_cfg env) (env_dev env) (env_name env)
             (last_push_watermark e) (store e) of
        (Inl er, d) \<Rightarrow> (Inl (EStorage er), e\<lparr>store := d\<rparr>)
      | (Inr cs, d) \<Rightarrow>
          if changeset_is_empty cs then (Inr mr, e\<lparr>store := d\<rparr>)
          else (case env_push env cs (net e) of
                  (Inl er, n) \<Rightarrow> (Inl er, e\<lparr>store := d, net := n\<rparr>)
                | (Inr _, n) \<Rightarrow> (Inr mr, e\<lparr>store := d, net := n, last_push_watermark := watermark cs\<rparr>)))"

definition run_cycle_inner ::
  "'n sync_env \<Rightarrow> ConsentManager option \<Rightarrow> 'n SyncEngine
     \<Rightarrow> ((EngineError + SyncResult option) \<times> 'n SyncEngine) option" where
  "run_cycle_inner env cm e =
     (if (case cm of None \<Rightarrow> False | Some c \<Rightarrow> \<not> is_permitted cross_device_sync c) then Some (Inr None, e)
      else if \<not> deletion_pushed e \<and> (case cm of None \<Rightarrow> False | Some c \<Rightarrow> has_pending_deletion c)
        then Some (push_deletion_event env e)
      else
        (case local_watermark (env_dev env) (store e) of
           Inl er \<Rightarrow> Some (Inl (EStorage er), e)
         | Inr lw \<Rightarrow>
             (case pull_loop env lw None (store e, net e) of
                None \<Rightarrow> None
              | Some (Inl er, d, n) \<Rightarrow> Some (Inl er, e\<lparr>store := d, net := n\<rparr>)
              | Some (Inr mr, d, n) \<Rightarrow> Some (push_phase env mr (e\<lparr>store := d, net := n\<rparr>)))))"

definition run_cycle ::
  "'n sync_env \<Rightarrow> ConsentManager option \<Rightarrow> int \<Rightarrow> 'n SyncEngine
     \<Rightarrow> ((EngineError + SyncResult option) \<times> 'n SyncEngine) option" where
  "run_cycle env cm now e =
     map_option (\<lambda>(r, e'). case r of
         Inr _ \<Rightarrow> (r, e'\<lparr>last_sync_at := Some now, last_error := None\<rparr>)
       | Inl er \<Rightarrow> (r, e'\<lparr>last_error := Some er\<rparr>)) (run_cycle_inner env cm e)"

section \<open>Lemmas\<close>

text \<open>The push watermark stays, or moves to the watermark of a changeset that the transport took; it stays
  when the cycle fails.\<close>

definition watermark_step ::
  "'n sync_env \<Rightarrow> Hlc \<Rightarrow> (EngineError + SyncResult option) \<times> 'n SyncEngine \<Rightarrow> bool" where
  "watermark_step env wm x \<longleftrightarrow>
     last_push_watermark (snd x) = wm
     \<or> \<not> isl (fst x) \<and> (\<exists>cs n. env_push env cs n = (Inr (), net (snd x)) \<and> last_push_watermark (snd x) = watermark cs)"

lemma push_phase_watermark: "watermark_step env (last_push_watermark e) (push_phase env mr e)"
  by (fastforce simp: watermark_step_def push_phase_def split: prod.splits sum.splits)

lemma push_deletion_watermark: "watermark_step env (last_push_watermark e) (push_deletion_event env e)"
  by (auto simp: watermark_step_def push_deletion_event_def split: prod.splits sum.splits)

lemma run_cycle_inner_watermark:
  assumes "run_cycle_inner env cm e = Some x"
  shows "watermark_step env (last_push_watermark e) x"
proof -
  have push: "watermark_step env (last_push_watermark e) (push_phase env mr (e\<lparr>store := d, net := n\<rparr>))" for mr d n
    using push_phase_watermark [of env "e\<lparr>store := d, net := n\<rparr>" mr] by simp
  have same: "last_push_watermark (snd x) = last_push_watermark e \<Longrightarrow> watermark_step env (last_push_watermark e) x" for x
    by (simp add: watermark_step_def)
  show ?thesis
    using assms
    by (auto simp: run_cycle_inner_def push_deletion_watermark push same
        split: option.splits sum.splits prod.splits if_splits)
qed

text \<open>The loop returns when every delivery brings the transport closer to having nothing more.\<close>

lemma pull_loop_returns:
  assumes "\<And>wm n cs n'. env_pull env wm n = (Inr (Some cs), n') \<Longrightarrow> (mu n' :: nat) < mu n"
  shows "\<exists>y. pull_loop env lw mr s = Some y"
proof (induction "mu (snd s)" arbitrary: mr s rule: less_induct)
  case less
  obtain r n where p: "env_pull env (case mr of None \<Rightarrow> lw | Some r \<Rightarrow> new_watermark r) (snd s) = (r, n)"
    by (cases "env_pull env (case mr of None \<Rightarrow> lw | Some r \<Rightarrow> new_watermark r) (snd s)")
  show ?case
  proof (cases "\<exists>cs. r = Inr (Some cs)")
    case True
    then obtain cs where r: "r = Inr (Some cs)" by blast
    then have smaller: "mu n < mu (snd s)" using assms p by blast
    show ?thesis
      using p r less [of "(_, n)"] smaller
      by (subst pull_loop.simps) (auto split: prod.splits sum.splits)
  next
    case False
    then show ?thesis using p by (subst pull_loop.simps) (auto split: sum.splits option.splits)
  qed
qed

text \<open>What an engine started on a store finds above its initial push watermark.\<close>

lemma stamp_origin_typed:
  assumes "hlc_typed r"
  shows "hlc_typed (stamp_origin dev r)"
    and "wall_counter (the (row_hlc (stamp_origin dev r))) = wall_counter (the (row_hlc r))"
  using assms
  by (auto simp: hlc_typed_def stamp_origin_def row_hlc_def wall_counter_def sql_int_def bind_eq_Some_conv
      split: sqlval.splits)

lemma get_changes_since_rows:
  assumes "get_changes_since rt cfg dev name since d = (Inr cs, d')" "t \<in> set synced_tables"
  shows "rows_of d' t = map (stamp_origin dev) (rows_of d t)"
proof -
  have "distinct synced_tables" by (simp add: synced_tables_def)
  from backfill_tables_eq [OF this, of dev d 0] obtain db' k where
    "backfill_origin_device_id dev d = Inr (db', k)"
    "rows_of db' t = map (stamp_origin dev) (rows_of d t)"
    using assms(2) unfolding backfill_origin_device_id_def by auto
  with assms(1) show ?thesis by (auto simp: get_changes_since_def)
qed

lemma changeset_tables_synced: "(t, cols, vs) \<in> set (changeset_tables cfg cs) \<Longrightarrow> t \<in> set synced_tables"
  by (auto simp: changeset_tables_def synced_tables_def)

lemma above_watermark_ties:
  assumes "wm < h" "wall_counter h \<le> wall_counter wm"
  shows "wall_counter h = wall_counter wm \<and> device_id wm < device_id h"
  using assms by (auto simp: hlc_less_iff hlc_key_def wall_counter_def less_eq_prod_def)

lemma run_cycle_total:
  assumes "\<And>wm n cs n'. env_pull env wm n = (Inr (Some cs), n') \<Longrightarrow> (mu n' :: nat) < mu n"
  shows "\<exists>r e'. run_cycle env cm now e = Some (r, e')"
proof -
  have "\<exists>x. run_cycle_inner env cm e = Some x"
  proof (cases "local_watermark (env_dev env) (store e)")
    case (Inr lw)
    obtain y where "pull_loop env lw None (store e, net e) = Some y"
      using pull_loop_returns [of env mu lw None "(store e, net e)"] assms by blast
    with Inr show ?thesis
      by (cases y) (auto simp: run_cycle_inner_def split: sum.splits)
  qed (simp add: run_cycle_inner_def)
  then show ?thesis by (force simp: run_cycle_def split: sum.splits prod.splits)
qed

section \<open>Properties\<close>

text \<open>A transport with the changesets waiting and those sent, for the witnesses.\<close>

type_synonym mailbox = "ChangeSet list \<times> ChangeSet list"

fun mail_pull :: "Hlc \<Rightarrow> mailbox \<Rightarrow> (EngineError + ChangeSet option) \<times> mailbox" where
  "mail_pull wm ([], out) = (Inr None, [], out)"
| "mail_pull wm (c # cs, out) = (Inr (Some c), cs, out)"

definition mail_push :: "ChangeSet \<Rightarrow> mailbox \<Rightarrow> (EngineError + unit) \<times> mailbox" where
  "mail_push c m = (Inr (), fst m, snd m @ [c])"

definition mail_env :: "mailbox sync_env" where
  "mail_env = \<lparr>env_pull = mail_pull, env_push = mail_push, env_hexd = (\<lambda>_. None), env_rt = exact_rt,
     env_cfg = sync_cfg, env_dev = ''z'', env_name = ''Z'', env_sql_now = ''t'', env_now_ms = 9\<rparr>"

lemma mail_pull_shrinks: "env_pull mail_env wm n = (Inr (Some cs), n') \<Longrightarrow> length (fst n') < length (fst n)"
  by (cases "(wm, n)" rule: mail_pull.cases) (auto simp: mail_env_def)



text \<open>C8: a cycle moves the push watermark only to the watermark of a changeset the transport took, and a
  cycle that fails leaves it where it was and records the error, so that the same rows are tried again.\<close>

theorem push_watermark_moves_only_after_push:
  assumes "run_cycle env cm now e = Some (r, e')"
  shows "watermark_step env (last_push_watermark e) (r, e')
    \<and> (case r of Inl er \<Rightarrow> last_error e' = Some er | Inr _ \<Rightarrow> last_error e' = None \<and> last_sync_at e' = Some now)"
proof -
  obtain r0 e0 where x: "run_cycle_inner env cm e = Some (r0, e0)"
    and r: "(r, e') = (case r0 of Inr _ \<Rightarrow> (r0, e0\<lparr>last_sync_at := Some now, last_error := None\<rparr>)
       | Inl er \<Rightarrow> (r0, e0\<lparr>last_error := Some er\<rparr>))"
    using assms by (auto simp: run_cycle_def)
  from run_cycle_inner_watermark [OF x] r show ?thesis
    by (auto simp: watermark_step_def split: sum.splits)
qed

theorem push_watermark_moves_only_after_push_witness:
  "\<exists>r e'. run_cycle mail_env None 5 (engine_new mail_env empty_db ([], [])) = Some (r, e')
     \<and> watermark_step mail_env (last_push_watermark (engine_new mail_env empty_db ([], []))) (r, e')"
proof -
  obtain r e' where "run_cycle mail_env None 5 (engine_new mail_env empty_db ([], [])) = Some (r, e')"
    using run_cycle_total [of mail_env "\<lambda>m. length (fst m)"] mail_pull_shrinks by blast
  with push_watermark_moves_only_after_push [OF this] show ?thesis by blast
qed

text \<open>Without the consent for cross-device sync a cycle touches neither the store nor the transport;
  in particular, after a revocation the pending deletion event is not sent.\<close>

theorem revoked_consent_blocks_deletion_event:
  assumes "revoke_consent t io s = (Inr (), cm, disk)"
  shows "has_pending_deletion cm
    \<and> run_cycle env (Some cm) now e = Some (Inr None, e\<lparr>last_sync_at := Some now, last_error := None\<rparr>)"
proof -
  have "current_consent cm = None" "pending_deletion cm"
    using assms by (auto simp: revoke_consent_def Let_def split: option.splits io_result.splits)
  then show ?thesis
    by (simp add: run_cycle_def run_cycle_inner_def is_permitted_def has_pending_deletion_def)
qed

theorem revoked_consent_blocks_deletion_event_witness:
  "\<exists>cm disk. revoke_consent 2 IoOk (consent_run [Grant 1 ''u'' IoOk all_permissions 30]) = (Inr (), cm, disk)
     \<and> has_pending_deletion cm
     \<and> net (snd (the (run_cycle mail_env (Some cm) 5 (engine_new mail_env empty_db ([], []))))) = ([], [])"
proof -
  let ?r = "revoke_consent 2 IoOk (consent_run [Grant 1 ''u'' IoOk all_permissions 30])"
  have "\<not> isl (fst ?r)" by code_simp
  then obtain cm disk where r: "?r = (Inr (), cm, disk)" by (cases ?r; cases "fst ?r") (auto simp: isl_def)
  from revoked_consent_blocks_deletion_event [OF this, of mail_env 5 "engine_new mail_env empty_db ([], [])"] r
  show ?thesis by (simp add: engine_new_def)
qed

text \<open>An engine takes its first push watermark from the rows already stored, pushed or not: what it then
  extracts holds no stored row below that watermark, so rows written before the start are never sent.\<close>

theorem startup_skips_stored_rows:
  assumes "local_watermark (env_dev env) d = Inr wm" "typed_rows d" "env_dev env \<noteq> []"
    and "get_changes_since (env_rt env) (env_cfg env) (env_dev env) (env_name env)
           (last_push_watermark (engine_new env d n)) d = (Inr cs, d')"
    and "(t, cols, vs) \<in> set (changeset_tables (env_cfg env) cs)"
  shows "\<exists>rs. list_all2 (\<lambda>r v. json_object (env_rt env) t cols r = Inr v) rs vs
    \<and> (\<forall>r \<in> set rs. wall_counter (the (row_hlc r)) = wall_counter wm \<and> env_dev env < device_id (the (row_hlc r)))"
proof -
  have wm: "last_push_watermark (engine_new env d n) = wm" using assms(1) by (simp add: engine_new_def)
  note t = changeset_tables_synced [OF assms(5)]
  note rows = get_changes_since_rows [OF assms(4) t]
  have typed: "\<forall>r \<in> set (rows_of d' t). hlc_typed r"
    using assms(2) t stamp_origin_typed(1) by (auto simp: rows typed_rows_def)
  from extraction_rows [OF assms(4,5) typed] obtain rs
    where rs: "mset rs = {#r \<in># mset (rows_of d' t). wm < the (row_hlc r)#}"
      "list_all2 (\<lambda>r v. json_object (env_rt env) t cols r = Inr v) rs vs" by (auto simp: wm)
  have dev: "device_id wm = env_dev env"
    using watermark_device assms(1,3) by (auto simp: local_watermark_def)
  have "wall_counter (the (row_hlc r)) = wall_counter wm \<and> env_dev env < device_id (the (row_hlc r))"
    if "r \<in> set rs" for r
  proof -
    from that rs(1) have r: "r \<in> set (rows_of d' t)" "wm < the (row_hlc r)"
      by (auto simp flip: set_mset_mset)
    then obtain r0 where r0: "r0 \<in> set (rows_of d t)" "r = stamp_origin (env_dev env) r0" by (auto simp: rows)
    have "hlc_typed r0" using r0 t assms(2) by (auto simp: typed_rows_def)
    then have "wall_counter (the (row_hlc r)) = wall_counter (the (row_hlc r0))" "row_hlc r0 \<noteq> None"
      using stamp_origin_typed(2) by (auto simp: r0 hlc_typed_def)
    moreover have "wall_counter (the (row_hlc r0)) \<le> wall_counter wm"
      using watermark_bounds [OF assms(1) [unfolded local_watermark_def] assms(2) t r0(1)] calculation(2) by auto
    ultimately have "wall_counter (the (row_hlc r)) \<le> wall_counter wm" by simp
    from above_watermark_ties [OF r(2) this] dev show ?thesis by simp
  qed
  with rs(2) show ?thesis by blast
qed

theorem startup_skips_stored_rows_witness:
  "\<exists>wm cs rs. local_watermark ''z'' sender_db = Inr wm
     \<and> get_changes_since exact_rt sync_cfg ''z'' ''Z'' wm sender_db = (Inr cs, sender_db)
     \<and> list_all2 (\<lambda>r v. json_object exact_rt ''regimes'' regime_cols r = Inr v) rs (regimes cs)
     \<and> (\<forall>r \<in> set rs. ''z'' < device_id (the (row_hlc r)))"
proof -
  let ?wm = "projr (local_watermark ''z'' sender_db)"
  have wm: "local_watermark ''z'' sender_db = Inr ?wm"
    by (rule sum.collapse(2) [symmetric]) code_simp
  have "\<not> isl (extract_changes exact_rt sync_cfg ''z'' ''Z'' ?wm sender_db)"
    "\<forall>t \<in> set synced_tables. filter (key_is ''origin_device_id'' []) (rows_of sender_db t) = []"
    by code_simp+
  then obtain cs where cs: "get_changes_since exact_rt sync_cfg ''z'' ''Z'' ?wm sender_db = (Inr cs, sender_db)"
    by (metis get_changes_since_stamped isl_def sum.exhaust_sel)
  have typed: "typed_rows sender_db" by code_simp
  have start: "last_push_watermark (engine_new mail_env sender_db ([], [])) = ?wm"
    by (subst engine_new_def) (simp only: mail_env_def sync_env.simps SyncEngine.simps; subst wm; simp)
  have env: "env_dev mail_env = ''z''" "env_rt mail_env = exact_rt" "env_cfg mail_env = sync_cfg" "env_name mail_env = ''Z''"
    by (simp_all add: mail_env_def)
  have "(''regimes'', regime_cols, regimes cs) \<in> set (changeset_tables sync_cfg cs)" by (simp add: changeset_tables_def)
  from startup_skips_stored_rows [of mail_env, unfolded env, OF wm typed _ cs [folded start] this] cs wm
  show ?thesis by fastforce
qed

end
