(* ===== verification/ByteString.thy ===== *)
theory ByteString
  imports Prelude
begin

text \<open>
  What the sources use of \<open>str\<close>, on the UTF-8 bytes of a string: \<open>trim\<close> (which removes Unicode white
  space, here in its encodings), \<open>split\<close> on an ASCII character, \<open>starts_with\<close> and \<open>ends_with\<close>, the ASCII
  classes, \<open>eq_ignore_ascii_case\<close>, and two-digit hexadecimal rendering and reading.
\<close>

section \<open>Trimming\<close>

text \<open>The encodings of the white space code points: tab to carriage return, space, U+0085, U+00A0, U+1680,
  U+2000 to U+200A, U+2028, U+2029, U+202F, U+205F and U+3000.\<close>

definition white_space :: "string list" where
  "white_space =
     [[CHR 0x09], [CHR 0x0A], [CHR 0x0B], [CHR 0x0C], [CHR 0x0D], [CHR 0x20], [CHR 0xC2, CHR 0x85],
      [CHR 0xC2, CHR 0xA0], [CHR 0xE1, CHR 0x9A, CHR 0x80], [CHR 0xE2, CHR 0x80, CHR 0x80],
      [CHR 0xE2, CHR 0x80, CHR 0x81], [CHR 0xE2, CHR 0x80, CHR 0x82],
      [CHR 0xE2, CHR 0x80, CHR 0x83], [CHR 0xE2, CHR 0x80, CHR 0x84],
      [CHR 0xE2, CHR 0x80, CHR 0x85], [CHR 0xE2, CHR 0x80, CHR 0x86],
      [CHR 0xE2, CHR 0x80, CHR 0x87], [CHR 0xE2, CHR 0x80, CHR 0x88],
      [CHR 0xE2, CHR 0x80, CHR 0x89], [CHR 0xE2, CHR 0x80, CHR 0x8A],
      [CHR 0xE2, CHR 0x80, CHR 0xA8], [CHR 0xE2, CHR 0x80, CHR 0xA9],
      [CHR 0xE2, CHR 0x80, CHR 0xAF], [CHR 0xE2, CHR 0x81, CHR 0x9F],
      [CHR 0xE3, CHR 0x80, CHR 0x80]]"

fun starts_with :: "string \<Rightarrow> string \<Rightarrow> bool" where
  "starts_with [] s = True"
| "starts_with (p # ps) [] = False"
| "starts_with (p # ps) (c # cs) = (p = c \<and> starts_with ps cs)"

definition ends_with :: "string \<Rightarrow> string \<Rightarrow> bool" where
  "ends_with suf s = starts_with (rev suf) (rev s)"

lemma starts_with_iff: "starts_with p s \<longleftrightarrow> (\<exists>t. s = p @ t)"
  by (induction p s rule: starts_with.induct) auto

lemma ends_with_iff: "ends_with p s \<longleftrightarrow> (\<exists>t. s = t @ p)"
  by (auto simp: ends_with_def starts_with_iff) (metis rev_append rev_rev_ident)

text \<open>Dropping white space from the front of a string; the same on the reversed string with reversed
  encodings drops it from the end.\<close>

fun skip_white :: "string list \<Rightarrow> nat \<Rightarrow> string \<Rightarrow> string" where
  "skip_white ws 0 s = s"
| "skip_white ws (Suc n) s =
     (case find (\<lambda>w. starts_with w s) ws of None \<Rightarrow> s | Some w \<Rightarrow> skip_white ws n (drop (length w) s))"

definition trim_start :: "string \<Rightarrow> string" where
  "trim_start s = skip_white white_space (length s) s"

definition trim_end :: "string \<Rightarrow> string" where
  "trim_end s = rev (skip_white (map rev white_space) (length s) (rev s))"

definition trim :: "string \<Rightarrow> string" where
  "trim s = trim_end (trim_start s)"

lemma skip_white_none: "(\<forall>w \<in> set ws. \<not> starts_with w s) \<Longrightarrow> skip_white ws n s = s"
  by (cases n) (auto simp: find_None_iff split: option.splits dest!: find_Some_iff [THEN iffD1])

text \<open>No white space encoding begins or ends with a printable ASCII byte.\<close>

definition graphic :: "char \<Rightarrow> bool" where
  "graphic c \<longleftrightarrow> 33 \<le> (of_char c :: nat) \<and> (of_char c :: nat) \<le> 126"

lemma white_space_edges:
  "w \<in> set white_space \<Longrightarrow> w \<noteq> [] \<and> \<not> graphic (hd w) \<and> \<not> graphic (last w)"
proof -
  have "\<forall>w \<in> set white_space. w \<noteq> [] \<and> \<not> graphic (hd w) \<and> \<not> graphic (last w)" by code_simp
  then show "w \<in> set white_space \<Longrightarrow> w \<noteq> [] \<and> \<not> graphic (hd w) \<and> \<not> graphic (last w)" by blast
qed

lemma trim_graphic:
  assumes "s \<noteq> []" "graphic (hd s)" "graphic (last s)"
  shows "trim s = s"
proof -
  have "\<not> starts_with w s" if "w \<in> set white_space" for w
    using white_space_edges [OF that] assms by (cases w; cases s) auto
  then have "trim_start s = s" by (simp add: trim_start_def skip_white_none)
  moreover have "\<not> starts_with (rev w) (rev s)" if "w \<in> set white_space" for w
    using white_space_edges [OF that] assms
    by (cases w rule: rev_cases; cases s rule: rev_cases) auto
  then have "skip_white (map rev white_space) (length s) (rev s) = rev s" by (intro skip_white_none) auto
  ultimately show ?thesis by (simp add: trim_def trim_end_def)
qed

section \<open>Splitting\<close>

fun split_on :: "char \<Rightarrow> string \<Rightarrow> string list" where
  "split_on d [] = [[]]"
| "split_on d (c # cs) =
     (if c = d then [] # split_on d cs
      else (case split_on d cs of [] \<Rightarrow> [[c]] | p # ps \<Rightarrow> (c # p) # ps))"

lemma split_on_not_Nil: "split_on d s \<noteq> []"
  by (induction s) (auto split: list.splits)

lemma split_on_free: "d \<notin> set p \<Longrightarrow> split_on d p = [p]"
  by (induction p) auto

lemma split_on_append: "d \<notin> set p \<Longrightarrow> split_on d (p @ d # s) = p # split_on d s"
  by (induction p) auto

text \<open>Joining what \<open>split\<close> returns gives the string back.\<close>

fun join_with :: "char \<Rightarrow> string list \<Rightarrow> string" where
  "join_with d [] = []"
| "join_with d [p] = p"
| "join_with d (p # ps) = p @ d # join_with d ps"

lemma join_split: "join_with d (split_on d s) = s"
proof (induction s)
  case (Cons c cs)
  obtain a ps where ps: "split_on d cs = a # ps" using split_on_not_Nil [of d cs] by (cases "split_on d cs") auto
  with Cons show ?case by (cases ps) auto
qed simp

section \<open>Classes and case\<close>

abbreviation ord_of :: "char \<Rightarrow> nat" where "ord_of \<equiv> of_char"

definition is_ascii_digit :: "char \<Rightarrow> bool" where
  "is_ascii_digit c \<longleftrightarrow> 48 \<le> ord_of c \<and> ord_of c \<le> 57"

definition is_ascii_upper :: "char \<Rightarrow> bool" where
  "is_ascii_upper c \<longleftrightarrow> 65 \<le> ord_of c \<and> ord_of c \<le> 90"

definition is_ascii_lower :: "char \<Rightarrow> bool" where
  "is_ascii_lower c \<longleftrightarrow> 97 \<le> ord_of c \<and> ord_of c \<le> 122"

definition is_ascii_alphanumeric :: "char \<Rightarrow> bool" where
  "is_ascii_alphanumeric c \<longleftrightarrow> is_ascii_digit c \<or> is_ascii_upper c \<or> is_ascii_lower c"

definition is_ascii_hexdigit :: "char \<Rightarrow> bool" where
  "is_ascii_hexdigit c \<longleftrightarrow> is_ascii_digit c \<or> 65 \<le> ord_of c \<and> ord_of c \<le> 70 \<or> 97 \<le> ord_of c \<and> ord_of c \<le> 102"

definition to_ascii_lowercase :: "char \<Rightarrow> char" where
  "to_ascii_lowercase c = (if is_ascii_upper c then char_of (ord_of c + 32) else c)"

definition eq_ignore_ascii_case :: "string \<Rightarrow> string \<Rightarrow> bool" where
  "eq_ignore_ascii_case s t \<longleftrightarrow> map to_ascii_lowercase s = map to_ascii_lowercase t"

lemma eq_ignore_ascii_case_refl [simp]: "eq_ignore_ascii_case s s"
  by (simp add: eq_ignore_ascii_case_def)

lemma alphanumeric_graphic: "is_ascii_alphanumeric c \<Longrightarrow> graphic c"
  by (auto simp: is_ascii_alphanumeric_def is_ascii_digit_def is_ascii_upper_def is_ascii_lower_def graphic_def)

lemma hexdigit_alphanumeric: "is_ascii_hexdigit c \<Longrightarrow> is_ascii_alphanumeric c"
  by (auto simp: is_ascii_alphanumeric_def is_ascii_hexdigit_def is_ascii_upper_def is_ascii_lower_def)

section \<open>Hexadecimal\<close>

definition hex_digit :: "nat \<Rightarrow> char" where
  "hex_digit n = char_of (if n < 10 then 48 + n else 87 + n)"

definition hex_value :: "char \<Rightarrow> nat option" where
  "hex_value c =
     (let n = ord_of c in
      if 48 \<le> n \<and> n \<le> 57 then Some (n - 48)
      else if 65 \<le> n \<and> n \<le> 70 then Some (n - 55)
      else if 97 \<le> n \<and> n \<le> 102 then Some (n - 87)
      else None)"

text \<open>\<open>format!("{byte:02x}")\<close> of every byte.\<close>

definition hex_lower :: "u8 list \<Rightarrow> string" where
  "hex_lower bs = concat (map (\<lambda>b. [hex_digit (unat b div 16), hex_digit (unat b mod 16)]) bs)"

lemma hex_digit_value: "n < 16 \<Longrightarrow> hex_value (hex_digit n) = Some n"
  by (simp add: hex_value_def hex_digit_def Let_def)

lemma hex_digit_class: "n < 16 \<Longrightarrow> is_ascii_hexdigit (hex_digit n)"
  by (simp add: is_ascii_hexdigit_def is_ascii_digit_def hex_digit_def)

lemma length_hex_lower [simp]: "length (hex_lower bs) = 2 * length bs"
  by (induction bs) (auto simp: hex_lower_def)

lemma hex_lower_Cons: "hex_lower (b # bs) = hex_digit (unat b div 16) # hex_digit (unat b mod 16) # hex_lower bs"
  by (simp add: hex_lower_def)

lemma byte_nibbles: "unat (b :: u8) div 16 < 16" "unat b mod 16 < 16"
proof -
  have "unat b < 2 ^ LENGTH(8)" by (rule unsigned_less)
  then show "unat b div 16 < 16" "unat b mod 16 < 16" by auto
qed

lemma hex_lower_digits: "list_all is_ascii_hexdigit (hex_lower bs)"
  by (induction bs) (simp_all add: hex_lower_Cons hex_digit_class byte_nibbles, simp add: hex_lower_def)

section \<open>Slices and numbers\<close>

text \<open>A byte of the form \<open>10xxxxxx\<close> continues a character; a slice may not start or end before one.\<close>

definition continuation_byte :: "char \<Rightarrow> bool" where
  "continuation_byte c \<longleftrightarrow> 128 \<le> (of_char c :: nat) \<and> (of_char c :: nat) < 192"

definition slice_to :: "nat \<Rightarrow> string \<Rightarrow> string option" where
  "slice_to n s =
     (if length s < n \<or> (n < length s \<and> continuation_byte (s ! n)) then None else Some (take n s))"

text \<open>\<open>Display\<close> of the unsigned and signed integers.\<close>

fun show_nat :: "nat \<Rightarrow> string" where
  "show_nat n = (if n < 10 then [char_of (48 + n)] else show_nat (n div 10) @ [char_of (48 + n mod 10)])"

definition show_int :: "int \<Rightarrow> string" where
  "show_int i = (if i < 0 then ''-'' @ show_nat (nat (- i)) else show_nat (nat i))"

text \<open>\<open>split_whitespace\<close>: the maximal runs of bytes between white space, none of them empty. The second
  argument counts the bytes of a white space character still to be passed over.\<close>

fun split_ws :: "string \<Rightarrow> nat \<Rightarrow> string \<Rightarrow> string list" where
  "split_ws acc k [] = (if acc = [] then [] else [rev acc])"
| "split_ws acc (Suc k) (c # cs) = split_ws acc k cs"
| "split_ws acc 0 (c # cs) =
     (case find (\<lambda>w. starts_with w (c # cs)) white_space of
        Some w \<Rightarrow> (if acc = [] then [] else [rev acc]) @ split_ws [] (length w - 1) cs
      | None \<Rightarrow> split_ws (c # acc) 0 cs)"

definition split_whitespace :: "string \<Rightarrow> string list" where
  "split_whitespace s = split_ws [] 0 s"

lemma split_ws_none:
  assumes "set s \<inter> hd ` set white_space = {}"
  shows "split_ws acc 0 s = (if acc = [] \<and> s = [] then [] else [rev acc @ s])"
  using assms
proof (induction s arbitrary: acc)
  case (Cons c cs)
  have "\<not> starts_with w (c # cs)" if "w \<in> set white_space" for w
    using Cons.prems white_space_edges [OF that] that by (cases w) (auto dest: imageI [of _ _ hd])
  then have "find (\<lambda>w. starts_with w (c # cs)) white_space = None" by (simp add: find_None_iff')
  with Cons show ?case by simp
qed simp

lemma split_whitespace_none: "set s \<inter> hd ` set white_space = {} \<Longrightarrow> s \<noteq> [] \<Longrightarrow> split_whitespace s = [s]"
  by (simp add: split_whitespace_def split_ws_none)

end
