(* ===== verification/PolicyToken.thy ===== *)
theory PolicyToken
  imports ByteString
begin

text \<open>
  Policy tokens of \<open>crates/oneshim-automation/src/policy/token.rs\<close>: the format
  \<open>policy:nonce[:h<hash>][:signature]\<close>, issuing, parsing and checking its signature.

  The hash functions of the third-party crates, the JSON text of a command's scope and the environment
  variable with the signing secret are the fields of \<open>policy_env\<close>. Messages of errors are short tags.
\<close>

datatype AutomationAction =
    MouseMove int int
  | MouseClick string int int
  | KeyType string
  | KeyPress string
  | KeyRelease string
  | Hotkey "string list"

record AutomationCommand =
  command_id :: string
  session_id :: string
  action :: AutomationAction
  timeout_ms :: "u64 option"
  policy_token :: string

datatype AutomationError =
    CoreConfigMissing string
  | PolicyDenied string
  | InvalidArguments string
  | Internal string

datatype AuditLevel = AuditNone | Basic | Detailed | Full

datatype SandboxProfile = Permissive | Standard | Strict

datatype ConfirmationRequirement = Auto | Confirm | Block

record ExecutionPolicy =
  policy_id :: string
  process_name :: string
  process_hash :: "string option"
  allowed_args :: "string list"
  requires_sudo :: bool
  max_execution_time_ms :: u64
  audit_level :: AuditLevel
  sandbox_profile :: "SandboxProfile option"
  allowed_paths :: "string list"
  allow_network :: "bool option"
  require_signed_token :: bool
  confirmation :: ConfirmationRequirement

record policy_env =
  env_secret :: "string option"                     \<comment> \<open>\<open>ONESHIM_POLICY_TOKEN_SIGNING_SECRET\<close>\<close>
  hmac_sha256 :: "string \<Rightarrow> string \<Rightarrow> u8 list"        \<comment> \<open>key, message\<close>
  sha256 :: "string \<Rightarrow> u8 list"
  scope_json :: "string \<Rightarrow> string \<Rightarrow> AutomationAction \<Rightarrow> u64 option \<Rightarrow> string option"

section \<open>Parsing\<close>

record ParsedPolicyToken =
  tok_policy_id :: string
  tok_nonce :: string
  tok_hash :: "string option"
  tok_signature :: "string option"

definition is_valid_nonce :: "string \<Rightarrow> bool" where
  "is_valid_nonce nonce \<longleftrightarrow> length nonce \<ge> 8
     \<and> list_all (\<lambda>c. is_ascii_alphanumeric c \<or> c = CHR ''-'' \<or> c = CHR ''_'') nonce"

definition is_valid_hash :: "string \<Rightarrow> bool" where
  "is_valid_hash hash \<longleftrightarrow> length hash = 64 \<and> list_all is_ascii_hexdigit hash"

definition is_valid_signature :: "string \<Rightarrow> bool" where
  "is_valid_signature = is_valid_hash"

definition parse_command_hash_segment :: "string \<Rightarrow> string option" where
  "parse_command_hash_segment seg =
     (case seg of [] \<Rightarrow> None
      | c # hash \<Rightarrow> if c \<noteq> CHR ''h'' then None else if \<not> is_valid_hash hash then None else Some hash)"

definition token_parts :: "string list \<Rightarrow> (string \<times> string \<times> string option \<times> string option) option" where
  "token_parts parts =
     (case parts of
        [p, n] \<Rightarrow> Some (p, n, None, None)
      | [p, n, third] \<Rightarrow>
          (case parse_command_hash_segment third of
             Some h \<Rightarrow> Some (p, n, Some h, None)
           | None \<Rightarrow> Some (p, n, None, Some third))
      | [p, n, third, fourth] \<Rightarrow>
          (case parse_command_hash_segment third of
             Some h \<Rightarrow> Some (p, n, Some h, Some fourth)
           | None \<Rightarrow> None)
      | _ \<Rightarrow> None)"

definition parse_policy_token :: "string \<Rightarrow> ParsedPolicyToken option" where
  "parse_policy_token token =
     (case token_parts (map trim (split_on (CHR '':'') token)) of
        None \<Rightarrow> None
      | Some (p, n, h, sig) \<Rightarrow>
          if p = [] \<or> n = [] then None
          else if (case h of Some x \<Rightarrow> \<not> is_valid_hash x | None \<Rightarrow> False) then None
          else if sig = Some [] then None
          else Some \<lparr>tok_policy_id = p, tok_nonce = n, tok_hash = h, tok_signature = sig\<rparr>)"

section \<open>Signing\<close>

definition load_signing_secret :: "policy_env \<Rightarrow> string option" where
  "load_signing_secret env =
     (case env_secret env of None \<Rightarrow> None | Some v \<Rightarrow> if trim v = [] then None else Some (trim v))"

definition build_signature_payload :: "string \<Rightarrow> string \<Rightarrow> string option \<Rightarrow> string" where
  "build_signature_payload p n h =
     (case h of Some x \<Rightarrow> p @ '':'' @ n @ '':'' @ x | None \<Rightarrow> p @ '':'' @ n)"

definition compute_policy_token_signature :: "policy_env \<Rightarrow> string \<Rightarrow> string \<Rightarrow> string option \<Rightarrow> string \<Rightarrow> string" where
  "compute_policy_token_signature env p n h secret =
     hex_lower (hmac_sha256 env secret (build_signature_payload p n h))"

text \<open>\<open>u8::from_str_radix(s, 16)\<close> on two ASCII characters; a leading plus sign is allowed.\<close>

definition u8_from_hex_pair :: "char \<Rightarrow> char \<Rightarrow> u8 option" where
  "u8_from_hex_pair a b =
     (if a = CHR ''+'' then map_option word_of_nat (hex_value b)
      else (case (hex_value a, hex_value b) of
              (Some x, Some y) \<Rightarrow> Some (word_of_nat (16 * x + y)) | _ \<Rightarrow> None))"

fun hex_decode :: "string \<Rightarrow> u8 list option" where
  "hex_decode [] = Some []"
| "hex_decode [c] = None"
| "hex_decode (a # b # cs) =
     (case (u8_from_hex_pair a b, hex_decode cs) of (Some x, Some xs) \<Rightarrow> Some (x # xs) | _ \<Rightarrow> None)"

text \<open>Called with 64 hexadecimal digits only (\<open>is_valid_signature\<close>), where slicing by bytes cannot panic.\<close>

definition verify_policy_token_signature :: "policy_env \<Rightarrow> string \<Rightarrow> string \<Rightarrow> string option \<Rightarrow> string \<Rightarrow> bool" where
  "verify_policy_token_signature env p n h sig =
     (case load_signing_secret env of None \<Rightarrow> False
      | Some secret \<Rightarrow>
          (case hex_decode sig of None \<Rightarrow> False
           | Some bs \<Rightarrow> bs = hmac_sha256 env secret (build_signature_payload p n h)))"

definition compute_command_scope_hash :: "policy_env \<Rightarrow> AutomationCommand \<Rightarrow> AutomationError + string" where
  "compute_command_scope_hash env cmd =
     (case scope_json env (command_id cmd) (session_id cmd) (action cmd) (timeout_ms cmd) of
        None \<Rightarrow> Inl (Internal ''serialize command scope'')
      | Some bytes \<Rightarrow> Inr (hex_lower (sha256 env bytes)))"

definition issue_command_token_for_policy ::
  "policy_env \<Rightarrow> ExecutionPolicy \<Rightarrow> string \<Rightarrow> string option \<Rightarrow> AutomationError + string" where
  "issue_command_token_for_policy env policy nonce h =
     (if \<not> is_valid_nonce nonce then Inl (InvalidArguments ''nonce'')
      else if (case h of Some x \<Rightarrow> \<not> is_valid_hash x | None \<Rightarrow> False) then Inl (InvalidArguments ''command hash'')
      else
        (let token = policy_id policy @ '':'' @ nonce
              @ (case h of Some x \<Rightarrow> '':h'' @ x | None \<Rightarrow> []) in
         if require_signed_token policy then
           (case load_signing_secret env of
              None \<Rightarrow> Inl (CoreConfigMissing ''signing secret'')
            | Some secret \<Rightarrow>
                Inr (token @ '':'' @ compute_policy_token_signature env (policy_id policy) nonce h secret))
         else Inr token))"

section \<open>Issued tokens parse back\<close>

text \<open>A policy id that cannot be confused with the token's syntax.\<close>

definition plain_id :: "string \<Rightarrow> bool" where
  "plain_id p \<longleftrightarrow> p \<noteq> [] \<and> CHR '':'' \<notin> set p \<and> trim p = p \<and> graphic (hd p)"

text \<open>The digests of SHA-256 have 32 bytes.\<close>

definition digests_ok :: "policy_env \<Rightarrow> bool" where
  "digests_ok env \<longleftrightarrow> (\<forall>k m. length (hmac_sha256 env k m) = 32) \<and> (\<forall>m. length (sha256 env m) = 32)"

lemma colon_not_hex: "is_ascii_hexdigit c \<Longrightarrow> c \<noteq> CHR '':''"
  by (auto simp: is_ascii_hexdigit_def is_ascii_digit_def)

lemma valid_hash_plain:
  assumes "is_valid_hash h"
  shows "trim h = h" "CHR '':'' \<notin> set h" "h \<noteq> []" "graphic (last h)" "parse_command_hash_segment h = None"
proof -
  have ne: "h \<noteq> []" and hex: "\<And>c. c \<in> set h \<Longrightarrow> is_ascii_hexdigit c"
    using assms by (auto simp: is_valid_hash_def list_all_iff)
  have g: "graphic c" if "c \<in> set h" for c
    using hex [OF that] by (intro alphanumeric_graphic hexdigit_alphanumeric)
  show "h \<noteq> []" by (rule ne)
  show "trim h = h" using ne g by (intro trim_graphic) auto
  show "graphic (last h)" using ne g by simp
  show "CHR '':'' \<notin> set h" using hex colon_not_hex by blast
  have "hd h \<noteq> CHR ''h''" using hex [of "hd h"] ne by (auto simp: is_ascii_hexdigit_def is_ascii_digit_def)
  with ne show "parse_command_hash_segment h = None" by (cases h) (auto simp: parse_command_hash_segment_def)
qed

lemma valid_nonce_plain:
  assumes "is_valid_nonce n"
  shows "trim n = n" "CHR '':'' \<notin> set n" "n \<noteq> []" "graphic (last n)"
proof -
  have ne: "n \<noteq> []" and chars: "\<And>c. c \<in> set n \<Longrightarrow> is_ascii_alphanumeric c \<or> c = CHR ''-'' \<or> c = CHR ''_''"
    using assms by (auto simp: is_valid_nonce_def list_all_iff)
  have g: "graphic c \<and> c \<noteq> CHR '':''" if "c \<in> set n" for c
    using chars [OF that]
    by (auto simp: graphic_def is_ascii_alphanumeric_def is_ascii_digit_def is_ascii_upper_def is_ascii_lower_def)
  show "n \<noteq> []" by (rule ne)
  show "trim n = n" using ne g by (intro trim_graphic) auto
  show "graphic (last n)" using ne g by simp
  show "CHR '':'' \<notin> set n" using g by blast
qed

lemma hash_segment:
  assumes "is_valid_hash h"
  shows "trim (CHR ''h'' # h) = CHR ''h'' # h" "CHR '':'' \<notin> set (CHR ''h'' # h)"
    "parse_command_hash_segment (CHR ''h'' # h) = Some h"
  using valid_hash_plain [OF assms] assms
  by (auto intro!: trim_graphic simp: parse_command_hash_segment_def graphic_def)

lemma hex_lower_valid: "length bs = 32 \<Longrightarrow> is_valid_hash (hex_lower bs)"
  by (simp add: is_valid_hash_def hex_lower_digits)

lemma hex_decode_lower: "hex_decode (hex_lower bs) = Some bs"
proof (induction bs)
  case (Cons b bs)
  have ne: "hex_digit n \<noteq> CHR ''+''" if "n < 16" for n
    using hex_digit_class [OF that] by (auto simp: is_ascii_hexdigit_def is_ascii_digit_def)
  have "word_of_nat (16 * (unat b div 16) + unat b mod 16) = b" by simp
  with Cons ne show ?case
    by (simp add: hex_lower_Cons u8_from_hex_pair_def hex_digit_value byte_nibbles)
qed (simp add: hex_lower_def)

definition issued_signature :: "policy_env \<Rightarrow> ExecutionPolicy \<Rightarrow> string \<Rightarrow> string option \<Rightarrow> string option" where
  "issued_signature env policy nonce h =
     (if require_signed_token policy then
        map_option (compute_policy_token_signature env (policy_id policy) nonce h) (load_signing_secret env)
      else None)"

lemma issueE:
  assumes "issue_command_token_for_policy env policy nonce h = Inr token"
  obtains "is_valid_nonce nonce" "\<And>x. h = Some x \<Longrightarrow> is_valid_hash x"
    "require_signed_token policy \<Longrightarrow> load_signing_secret env \<noteq> None"
    "token = policy_id policy @ '':'' @ nonce @ (case h of Some x \<Rightarrow> '':h'' @ x | None \<Rightarrow> [])
       @ (case issued_signature env policy nonce h of Some s \<Rightarrow> '':'' @ s | None \<Rightarrow> [])"
  using assms
  by (auto simp: issue_command_token_for_policy_def issued_signature_def Let_def
      split: if_splits option.splits)

lemma issued_signature_valid:
  "digests_ok env \<Longrightarrow> issued_signature env policy nonce h = Some s \<Longrightarrow> is_valid_hash s"
  by (auto simp: issued_signature_def compute_policy_token_signature_def digests_ok_def hex_lower_valid
      split: if_splits)

lemma issued_token_parses:
  assumes "issue_command_token_for_policy env policy nonce h = Inr token"
    and "plain_id (policy_id policy)" "digests_ok env"
  shows "parse_policy_token token = Some \<lparr>tok_policy_id = policy_id policy, tok_nonce = nonce, tok_hash = h,
           tok_signature = issued_signature env policy nonce h\<rparr>"
    and "trim token = token"
proof -
  from assms(1) have n: "is_valid_nonce nonce" and h: "\<And>x. h = Some x \<Longrightarrow> is_valid_hash x"
    and tok: "token = policy_id policy @ '':'' @ nonce @ (case h of Some x \<Rightarrow> '':h'' @ x | None \<Rightarrow> [])
       @ (case issued_signature env policy nonce h of Some s \<Rightarrow> '':'' @ s | None \<Rightarrow> [])"
    by (auto elim: issueE)
  note s = issued_signature_valid [OF assms(3)]
  note p = assms(2) [unfolded plain_id_def]
  have parts: "map trim (split_on (CHR '':'') token) = [policy_id policy, nonce]
      @ (case h of Some x \<Rightarrow> [CHR ''h'' # x] | None \<Rightarrow> [])
      @ (case issued_signature env policy nonce h of Some s \<Rightarrow> [s] | None \<Rightarrow> [])"
    using p valid_nonce_plain [OF n] h s hash_segment valid_hash_plain
    by (auto simp: tok split_on_append split_on_free split: option.splits)
  show "parse_policy_token token = Some \<lparr>tok_policy_id = policy_id policy, tok_nonce = nonce, tok_hash = h,
           tok_signature = issued_signature env policy nonce h\<rparr>"
    unfolding parse_policy_token_def parts
    using p valid_nonce_plain [OF n] h s hash_segment(3) valid_hash_plain
    by (auto simp: token_parts_def split: option.splits)
  have last: "graphic (last token)"
    using valid_nonce_plain [OF n] h s valid_hash_plain by (auto simp: tok split: option.splits)
  have "token \<noteq> []" "graphic (hd token)" using p by (auto simp: tok)
  then show "trim token = token" using last by (intro trim_graphic)
qed

lemma issued_signature_verifies:
  assumes "issued_signature env policy nonce h = Some s"
  shows "verify_policy_token_signature env (policy_id policy) nonce h s"
  using assms
  by (auto simp: issued_signature_def verify_policy_token_signature_def compute_policy_token_signature_def
      hex_decode_lower split: if_splits)

end
