(* ===== verification/PolicyClient.thy ===== *)
theory PolicyClient
  imports PolicyToken
begin

text \<open>
  The policy client of \<open>crates/oneshim-automation/src/policy/mod.rs\<close>: the cache of execution policies, the
  processes they allow and the tokens already spent. Every method is one step: the last lock a method
  takes covers its test and its update. The UUID of a new nonce is an argument.
\<close>

record PolicyCache =
  policies :: "ExecutionPolicy list"
  last_updated :: time
  ttl_seconds :: u64

definition policy_cache_default :: "time \<Rightarrow> PolicyCache" where
  "policy_cache_default now = \<lparr>policies = [], last_updated = now, ttl_seconds = 300\<rparr>"

record PolicyClient =
  policy_cache :: PolicyCache
  allowed_processes :: "string set"
  validated_tokens :: "string \<rightharpoonup> time"

definition policy_client_new :: "time \<Rightarrow> PolicyClient" where
  "policy_client_new now =
     \<lparr>policy_cache = policy_cache_default now, allowed_processes = {}, validated_tokens = Map.empty\<rparr>"

section \<open>Policies\<close>

definition update_policies :: "time \<Rightarrow> ExecutionPolicy list \<Rightarrow> PolicyClient \<Rightarrow> PolicyClient" where
  "update_policies now ps c =
     c\<lparr>allowed_processes := set (map process_name ps),
       policy_cache := (policy_cache c)\<lparr>policies := ps, last_updated := now\<rparr>,
       validated_tokens := Map.empty\<rparr>"

definition add_policy :: "time \<Rightarrow> ExecutionPolicy \<Rightarrow> PolicyClient \<Rightarrow> PolicyClient" where
  "add_policy now p c =
     c\<lparr>policy_cache := (policy_cache c)\<lparr>
           policies := filter (\<lambda>q. policy_id q \<noteq> policy_id p) (policies (policy_cache c)) @ [p],
           last_updated := now\<rparr>,
       allowed_processes := insert (process_name p) (allowed_processes c)\<rparr>"

definition remove_policy :: "time \<Rightarrow> string \<Rightarrow> PolicyClient \<Rightarrow> bool \<times> PolicyClient" where
  "remove_policy now pid c =
     (let before = policies (policy_cache c);
          kept = filter (\<lambda>q. policy_id q \<noteq> pid) before in
      if length kept < length before then
        (True, c\<lparr>policy_cache := (policy_cache c)\<lparr>policies := kept, last_updated := now\<rparr>,
                 allowed_processes := set (map process_name kept)\<rparr>)
      else (False, c\<lparr>policy_cache := (policy_cache c)\<lparr>policies := kept\<rparr>\<rparr>))"

definition find_policy :: "string \<Rightarrow> PolicyClient \<Rightarrow> ExecutionPolicy option" where
  "find_policy pid c = find (\<lambda>p. policy_id p = pid) (policies (policy_cache c))"

definition get_policy_for_process :: "string \<Rightarrow> PolicyClient \<Rightarrow> ExecutionPolicy option" where
  "get_policy_for_process n c = find (\<lambda>p. process_name p = n) (policies (policy_cache c))"

definition is_process_allowed :: "string \<Rightarrow> PolicyClient \<Rightarrow> bool" where
  "is_process_allowed n c \<longleftrightarrow> n \<in> allowed_processes c"

definition get_policy_for_token :: "string \<Rightarrow> PolicyClient \<Rightarrow> ExecutionPolicy option" where
  "get_policy_for_token token c =
     find_policy (case parse_policy_token token of Some t \<Rightarrow> tok_policy_id t | None \<Rightarrow> token) c"

definition is_cache_valid :: "time \<Rightarrow> PolicyClient \<Rightarrow> bool" where
  "is_cache_valid now c \<longleftrightarrow>
     as_u64 (num_seconds (now - last_updated (policy_cache c))) < ttl_seconds (policy_cache c)"

text \<open>One allowed argument: a pattern with a single star stands for a prefix and a suffix, any other
  pattern for itself.\<close>

definition arg_matches :: "string \<Rightarrow> string \<Rightarrow> bool" where
  "arg_matches pattern arg =
     (if CHR ''*'' \<in> set pattern then
        (case split_on (CHR ''*'') pattern of
           [pre, suf] \<Rightarrow> starts_with pre arg \<and> ends_with suf arg
         | _ \<Rightarrow> arg = pattern)
      else arg = pattern)"

definition validate_args :: "ExecutionPolicy \<Rightarrow> string list \<Rightarrow> bool" where
  "validate_args policy args =
     (if allowed_args policy = [] then True
      else list_all (\<lambda>arg. list_ex (\<lambda>pattern. arg_matches pattern arg) (allowed_args policy)) args)"

section \<open>Tokens\<close>

definition issue_command_token ::
  "policy_env \<Rightarrow> string \<Rightarrow> string \<Rightarrow> PolicyClient \<Rightarrow> AutomationError + string" where
  "issue_command_token env nonce pid c =
     (case find_policy pid c of
        None \<Rightarrow> Inl (PolicyDenied ''unknown policy'')
      | Some policy \<Rightarrow> issue_command_token_for_policy env policy nonce None)"

definition issue_command_token_for_command ::
  "policy_env \<Rightarrow> string \<Rightarrow> string \<Rightarrow> AutomationCommand \<Rightarrow> PolicyClient \<Rightarrow> AutomationError + string" where
  "issue_command_token_for_command env nonce pid cmd c =
     (case find_policy pid c of
        None \<Rightarrow> Inl (PolicyDenied ''unknown policy'')
      | Some policy \<Rightarrow>
          rbind (compute_command_scope_hash env cmd) (\<lambda>h.
          issue_command_token_for_policy env policy nonce (Some h)))"

text \<open>The signature check of \<open>validate_command\<close>.\<close>

definition signature_ok :: "policy_env \<Rightarrow> ExecutionPolicy \<Rightarrow> ParsedPolicyToken \<Rightarrow> bool" where
  "signature_ok env policy t \<longleftrightarrow>
     \<not> require_signed_token policy
     \<or> (case tok_signature t of None \<Rightarrow> False
        | Some sig \<Rightarrow> is_valid_signature sig
            \<and> verify_policy_token_signature env (tok_policy_id t) (tok_nonce t) (tok_hash t) sig)"

text \<open>The last step: forget spent tokens older than the lifetime, then spend this one unless it is there.\<close>

definition retain_tokens :: "time \<Rightarrow> u64 \<Rightarrow> (string \<rightharpoonup> time) \<Rightarrow> (string \<rightharpoonup> time)" where
  "retain_tokens now ttl m k =
     (case m k of None \<Rightarrow> None | Some at \<Rightarrow> if num_seconds (now - at) < sint ttl then Some at else None)"

definition spend_token :: "time \<Rightarrow> u64 \<Rightarrow> string \<Rightarrow> PolicyClient \<Rightarrow> bool \<times> PolicyClient" where
  "spend_token now ttl token c =
     (let kept = retain_tokens now ttl (validated_tokens c) in
      if kept token \<noteq> None then (False, c\<lparr>validated_tokens := kept\<rparr>)
      else (True, c\<lparr>validated_tokens := kept(token \<mapsto> now)\<rparr>))"

definition validate_command ::
  "policy_env \<Rightarrow> time \<Rightarrow> AutomationCommand \<Rightarrow> PolicyClient \<Rightarrow> (AutomationError + bool) \<times> PolicyClient" where
  "validate_command env now cmd c =
     (let ttl = ttl_seconds (policy_cache c); token = trim (policy_token cmd) in
      if ttl = 0 then (Inr False, c)
      else if token = [] then (Inr False, c)
      else case parse_policy_token token of
        None \<Rightarrow> (Inr False, c)
      | Some t \<Rightarrow>
          if \<not> is_valid_nonce (tok_nonce t) then (Inr False, c)
          else if as_u64 (num_seconds (now - last_updated (policy_cache c))) \<ge> ttl then (Inr False, c)
          else case get_policy_for_token token c of
            None \<Rightarrow> (Inr False, c)
          | Some policy \<Rightarrow>
              if \<not> signature_ok env policy t then (Inr False, c)
              else case tok_hash t of
                None \<Rightarrow> (let (ok, c') = spend_token now ttl token c in (Inr ok, c'))
              | Some h \<Rightarrow>
                  (case compute_command_scope_hash env cmd of
                     Inl e \<Rightarrow> (Inl e, c)
                   | Inr expected \<Rightarrow>
                       if \<not> eq_ignore_ascii_case h expected then (Inr False, c)
                       else (let (ok, c') = spend_token now ttl token c in (Inr ok, c'))))"

section \<open>What acceptance means\<close>

text \<open>Everything \<open>validate_command\<close> checks before it spends the token.\<close>

definition token_authorizes :: "policy_env \<Rightarrow> time \<Rightarrow> AutomationCommand \<Rightarrow> PolicyClient \<Rightarrow> bool" where
  "token_authorizes env now cmd c \<longleftrightarrow>
     is_cache_valid now c
     \<and> (\<exists>t policy. parse_policy_token (trim (policy_token cmd)) = Some t \<and> is_valid_nonce (tok_nonce t)
          \<and> find_policy (tok_policy_id t) c = Some policy \<and> signature_ok env policy t
          \<and> (\<forall>h. tok_hash t = Some h \<longrightarrow>
               (\<exists>e. compute_command_scope_hash env cmd = Inr e \<and> eq_ignore_ascii_case h e)))"

lemma parse_empty: "parse_policy_token [] = None"
  by code_simp

lemma validate_command_cases:
  "(\<exists>ok c'. spend_token now (ttl_seconds (policy_cache c)) (trim (policy_token cmd)) c = (ok, c')
       \<and> token_authorizes env now cmd c \<and> validate_command env now cmd c = (Inr ok, c'))
   \<or> (\<not> token_authorizes env now cmd c \<and> snd (validate_command env now cmd c) = c
       \<and> fst (validate_command env now cmd c) \<noteq> Inr True)"
proof (cases "token_authorizes env now cmd c")
  case True
  then obtain t policy where t: "is_cache_valid now c" "parse_policy_token (trim (policy_token cmd)) = Some t"
    "is_valid_nonce (tok_nonce t)" "find_policy (tok_policy_id t) c = Some policy" "signature_ok env policy t"
    "\<And>h. tok_hash t = Some h \<Longrightarrow> \<exists>e. compute_command_scope_hash env cmd = Inr e \<and> eq_ignore_ascii_case h e"
    by (auto simp: token_authorizes_def)
  have "ttl_seconds (policy_cache c) \<noteq> 0" "trim (policy_token cmd) \<noteq> []"
    using t(1,2) parse_empty by (auto simp: is_cache_valid_def)
  moreover have "\<not> as_u64 (num_seconds (now - last_updated (policy_cache c))) \<ge> ttl_seconds (policy_cache c)"
    using t(1) by (simp add: is_cache_valid_def)
  moreover have "get_policy_for_token (trim (policy_token cmd)) c = Some policy"
    using t(2,4) by (simp add: get_policy_for_token_def)
  ultimately have "validate_command env now cmd c =
      (let (ok, c') = spend_token now (ttl_seconds (policy_cache c)) (trim (policy_token cmd)) c in (Inr ok, c'))"
    using t(2,3,5,6) by (auto simp: validate_command_def Let_def split: option.splits)
  then show ?thesis using True by (auto simp: split: prod.splits)
next
  case False
  then show ?thesis
    by (auto simp: validate_command_def token_authorizes_def is_cache_valid_def get_policy_for_token_def Let_def
        not_le split: option.splits sum.splits if_splits)
qed

section \<open>Sequences of operations\<close>

datatype policy_op =
    UpdatePolicies time "ExecutionPolicy list"
  | AddPolicy time ExecutionPolicy
  | RemovePolicy time string
  | Validate time AutomationCommand

fun policy_step :: "policy_env \<Rightarrow> policy_op \<Rightarrow> PolicyClient \<Rightarrow> PolicyClient" where
  "policy_step env (UpdatePolicies now ps) c = update_policies now ps c"
| "policy_step env (AddPolicy now p) c = add_policy now p c"
| "policy_step env (RemovePolicy now pid) c = snd (remove_policy now pid c)"
| "policy_step env (Validate now cmd) c = snd (validate_command env now cmd c)"

definition policy_run :: "policy_env \<Rightarrow> policy_op list \<Rightarrow> PolicyClient \<Rightarrow> PolicyClient" where
  "policy_run env ops c = fold (policy_step env) ops c"

text \<open>No reload of all policies, and every validation happens within the lifetime of a token spent at
  \<open>at\<close>.\<close>

fun within_lifetime :: "time \<Rightarrow> u64 \<Rightarrow> policy_op \<Rightarrow> bool" where
  "within_lifetime at ttl (UpdatePolicies _ _) = False"
| "within_lifetime at ttl (Validate now _) = (num_seconds (now - at) < sint ttl)"
| "within_lifetime at ttl _ = True"

lemma spend_token_keeps:
  assumes "validated_tokens c tok = Some at" "num_seconds (now - at) < sint ttl"
  shows "validated_tokens (snd (spend_token now ttl tok' c)) tok = Some at"
  using assms by (auto simp: spend_token_def Let_def retain_tokens_def)

lemma spend_token_frame: "policy_cache (snd (spend_token now ttl tok c)) = policy_cache c"
  "allowed_processes (snd (spend_token now ttl tok c)) = allowed_processes c"
  by (simp_all add: spend_token_def Let_def)

lemma validate_command_frame:
  "policy_cache (snd (validate_command env now cmd c)) = policy_cache c"
  "allowed_processes (snd (validate_command env now cmd c)) = allowed_processes c"
  using validate_command_cases [of now c cmd env] spend_token_frame
  by (metis snd_conv)+

lemma policy_step_ttl: "ttl_seconds (policy_cache (policy_step env op c)) = ttl_seconds (policy_cache c)"
  by (cases op) (auto simp: update_policies_def add_policy_def remove_policy_def Let_def validate_command_frame)

lemma policy_step_keeps:
  assumes "validated_tokens c tok = Some at" "within_lifetime at (ttl_seconds (policy_cache c)) op"
  shows "validated_tokens (policy_step env op c) tok = Some at"
proof (cases op)
  case (Validate now cmd)
  then have "num_seconds (now - at) < sint (ttl_seconds (policy_cache c))" using assms(2) by simp
  note kept = spend_token_keeps [OF assms(1) this, of "trim (policy_token cmd)"]
  from validate_command_cases [of now c cmd env] show ?thesis
  proof
    assume "\<exists>ok c'. spend_token now (ttl_seconds (policy_cache c)) (trim (policy_token cmd)) c = (ok, c')
       \<and> token_authorizes env now cmd c \<and> validate_command env now cmd c = (Inr ok, c')"
    with kept Validate show ?thesis by auto
  qed (use assms Validate in auto)
qed (use assms in \<open>auto simp: add_policy_def remove_policy_def Let_def\<close>)

lemma policy_run_keeps:
  assumes "validated_tokens c tok = Some at" "list_all (within_lifetime at (ttl_seconds (policy_cache c))) ops"
  shows "validated_tokens (policy_run env ops c) tok = Some at
    \<and> ttl_seconds (policy_cache (policy_run env ops c)) = ttl_seconds (policy_cache c)"
  using assms
proof (induction ops arbitrary: c)
  case (Cons op ops)
  from Cons.IH [of "policy_step env op c"] policy_step_keeps [of c tok at op env] policy_step_ttl [of env op c] Cons.prems
  show ?case by (simp add: policy_run_def)
qed (simp add: policy_run_def)

lemma accepted_spends:
  assumes "validate_command env now cmd c = (Inr True, c1)"
  shows "token_authorizes env now cmd c \<and> validated_tokens c1 (trim (policy_token cmd)) = Some now
    \<and> policy_cache c1 = policy_cache c"
  using assms validate_command_cases [of now c cmd env] validate_command_frame(1) [of env now cmd c]
  by (auto simp: spend_token_def Let_def split: if_splits)

lemma spent_token_refused:
  assumes "validated_tokens c (trim (policy_token cmd)) = Some at"
    and "num_seconds (now - at) < sint (ttl_seconds (policy_cache c))"
  shows "fst (validate_command env now cmd c) \<noteq> Inr True"
  using assms validate_command_cases [of now c cmd env]
  by (auto simp: spend_token_def Let_def retain_tokens_def split: if_splits)

lemma fresh_token_accepted:
  assumes "token_authorizes env now cmd c" "validated_tokens c (trim (policy_token cmd)) = None"
  shows "fst (validate_command env now cmd c) = Inr True"
  using assms validate_command_cases [of now c cmd env]
  by (auto simp: spend_token_def Let_def retain_tokens_def)

section \<open>Processes\<close>

definition processes_inv :: "PolicyClient \<Rightarrow> bool" where
  "processes_inv c \<longleftrightarrow> process_name ` set (policies (policy_cache c)) \<subseteq> allowed_processes c"

lemma processes_inv_step: "processes_inv c \<Longrightarrow> processes_inv (policy_step env op c)"
  by (cases op)
    (auto simp: processes_inv_def update_policies_def add_policy_def remove_policy_def Let_def validate_command_frame)

lemma processes_inv_run: "processes_inv c \<Longrightarrow> processes_inv (policy_run env ops c)"
  unfolding policy_run_def by (induction ops arbitrary: c) (simp_all add: processes_inv_step)

text \<open>Replacing a policy under the same id leaves the process of the old one allowed.\<close>

lemma replaced_process_stays_allowed:
  "p \<in> set (policies (policy_cache c)) \<Longrightarrow> processes_inv c \<Longrightarrow> policy_id q = policy_id p \<Longrightarrow>
     is_process_allowed (process_name p) (add_policy now q c)
     \<and> p \<notin> set (policies (policy_cache (add_policy now q c))) - {q}"
  by (auto simp: is_process_allowed_def add_policy_def processes_inv_def)

section \<open>Argument patterns\<close>

lemma arg_matches_star:
  assumes "CHR ''*'' \<notin> set pre" "CHR ''*'' \<notin> set suf"
  shows "arg_matches (pre @ ''*'' @ suf) arg \<longleftrightarrow> (\<exists>t. arg = pre @ t) \<and> (\<exists>t. arg = t @ suf)"
  using assms by (simp add: arg_matches_def split_on_append split_on_free starts_with_iff ends_with_iff)

lemma arg_matches_middle:
  assumes "CHR ''*'' \<notin> set pre" "CHR ''*'' \<notin> set suf" "length pre + length suf \<le> length arg"
  shows "arg_matches (pre @ ''*'' @ suf) arg \<longleftrightarrow> (\<exists>mid. arg = pre @ mid @ suf)"
proof -
  have "(\<exists>t. arg = pre @ t) \<and> (\<exists>t. arg = t @ suf) \<longleftrightarrow> (\<exists>mid. arg = pre @ mid @ suf)"
  proof
    assume "(\<exists>t. arg = pre @ t) \<and> (\<exists>t. arg = t @ suf)"
    then obtain t u where t: "arg = pre @ t" "arg = u @ suf" by blast
    then have "t = drop (length pre) (u @ suf)" by simp
    also have "\<dots> = drop (length pre) u @ suf" using assms(3) t(2) by simp
    finally show "\<exists>mid. arg = pre @ mid @ suf" using t(1) by blast
  qed auto
  then show ?thesis using arg_matches_star [OF assms(1,2)] by simp
qed

text \<open>Prefix and suffix may overlap: a pattern accepts arguments shorter than its fixed parts.\<close>

lemma arg_matches_overlap: "arg_matches ''ab*bc'' ''abc'' \<and> (\<nexists>mid. ''abc'' = ''ab'' @ mid @ ''bc'')"
proof
  show "arg_matches ''ab*bc'' ''abc''" by code_simp
  have "length ''abc'' < length (''ab'' @ mid @ ''bc'')" for mid :: string by simp
  then show "\<nexists>mid. ''abc'' = ''ab'' @ mid @ ''bc''" by (metis less_irrefl)
qed

section \<open>Properties\<close>

definition sample_env :: policy_env where
  "sample_env = \<lparr>env_secret = Some ''key'', hmac_sha256 = (\<lambda>k m. replicate 32 7), sha256 = (\<lambda>m. replicate 32 171),
     scope_json = (\<lambda>i s a t. Some i)\<rparr>"

definition sample_policy :: "bool \<Rightarrow> ExecutionPolicy" where
  "sample_policy sg = \<lparr>policy_id = ''p1'', process_name = ''git'', process_hash = None, allowed_args = [],
     requires_sudo = False, max_execution_time_ms = 0, audit_level = Basic, sandbox_profile = None,
     allowed_paths = [], allow_network = None, require_signed_token = sg, confirmation = Auto\<rparr>"

definition sample_client :: "bool \<Rightarrow> PolicyClient" where
  "sample_client sg = update_policies 0 [sample_policy sg] (policy_client_new 0)"

definition sample_cmd :: "string \<Rightarrow> AutomationCommand" where
  "sample_cmd tok = \<lparr>command_id = ''c1'', session_id = ''s1'', action = KeyPress ''Enter'', timeout_ms = None,
     policy_token = tok\<rparr>"

lemma sample_digests: "digests_ok sample_env"
  by (simp add: digests_ok_def sample_env_def)





lemma hex_lower_lowercase: "map to_ascii_lowercase (hex_lower bs) = hex_lower bs"
proof (induction bs)
  case (Cons b bs)
  have "to_ascii_lowercase (hex_digit n) = hex_digit n" if "n < 16" for n
    using that by (simp add: to_ascii_lowercase_def is_ascii_upper_def hex_digit_def)
  with Cons byte_nibbles show ?case by (simp add: hex_lower_Cons)
qed (simp add: hex_lower_def)

lemma scope_hash_eq_ignore_case:
  "compute_command_scope_hash env a = Inr h \<Longrightarrow> compute_command_scope_hash env b = Inr e \<Longrightarrow>
     eq_ignore_ascii_case h e \<longleftrightarrow> h = e"
  by (auto simp: compute_command_scope_hash_def eq_ignore_ascii_case_def hex_lower_lowercase split: option.splits)

lemma scope_hash_token:
  "compute_command_scope_hash env (cmd\<lparr>policy_token := tok\<rparr>) = compute_command_scope_hash env cmd"
  by (simp add: compute_command_scope_hash_def)

lemma issued_for_commandE:
  assumes "issue_command_token_for_command env nonce pid cmd c = Inr tok"
  obtains policy h where "find_policy pid c = Some policy" "policy_id policy = pid"
    "compute_command_scope_hash env cmd = Inr h" "issue_command_token_for_policy env policy nonce (Some h) = Inr tok"
  using assms
  by (auto simp: issue_command_token_for_command_def result_simps find_policy_def find_Some_iff split: option.splits)

text \<open>C11: a token issued for a command is accepted for that command while the policies are fresh, and never
  for a command with another scope hash.\<close>

theorem issued_token_authorizes_only_its_command:
  assumes "issue_command_token_for_command env nonce pid cmd c = Inr tok"
    and "plain_id pid" "digests_ok env" "is_cache_valid now c" "validated_tokens c tok = None"
  shows "fst (validate_command env now (cmd\<lparr>policy_token := tok\<rparr>) c) = Inr True
    \<and> (compute_command_scope_hash env other \<noteq> compute_command_scope_hash env cmd \<longrightarrow>
         fst (validate_command env later (other\<lparr>policy_token := tok\<rparr>) c2) \<noteq> Inr True)"
proof -
  from assms(1) obtain policy h where p: "find_policy pid c = Some policy" "policy_id policy = pid"
    and h: "compute_command_scope_hash env cmd = Inr h"
    and issue: "issue_command_token_for_policy env policy nonce (Some h) = Inr tok"
    by (rule issued_for_commandE)
  have plain: "plain_id (policy_id policy)" using p(2) assms(2) by simp
  note parse = issued_token_parses [OF issue plain assms(3)]
  let ?t = "\<lparr>tok_policy_id = policy_id policy, tok_nonce = nonce, tok_hash = Some h,
           tok_signature = issued_signature env policy nonce (Some h)\<rparr>"
  have nonce: "is_valid_nonce nonce" and sec: "require_signed_token policy \<Longrightarrow> load_signing_secret env \<noteq> None"
    using issue by (auto elim: issueE)
  have "signature_ok env policy ?t"
  proof (cases "require_signed_token policy")
    case True
    then obtain sig where s: "issued_signature env policy nonce (Some h) = Some sig"
      using sec by (auto simp: issued_signature_def)
    with issued_signature_valid [OF assms(3) s] issued_signature_verifies [OF s] show ?thesis
      by (simp add: signature_ok_def is_valid_signature_def)
  qed (simp add: signature_ok_def)
  then have "token_authorizes env now (cmd\<lparr>policy_token := tok\<rparr>) c"
    using parse nonce p h assms(4) by (auto simp: token_authorizes_def scope_hash_token)
  then have "fst (validate_command env now (cmd\<lparr>policy_token := tok\<rparr>) c) = Inr True"
    using parse(2) assms(5) by (intro fresh_token_accepted) simp_all
  moreover have "fst (validate_command env later (other\<lparr>policy_token := tok\<rparr>) c2) \<noteq> Inr True"
    if "compute_command_scope_hash env other \<noteq> compute_command_scope_hash env cmd"
  proof
    assume "fst (validate_command env later (other\<lparr>policy_token := tok\<rparr>) c2) = Inr True"
    then have "validate_command env later (other\<lparr>policy_token := tok\<rparr>) c2
        = (Inr True, snd (validate_command env later (other\<lparr>policy_token := tok\<rparr>) c2))" by (metis prod.collapse)
    from accepted_spends [OF this] parse obtain e where "compute_command_scope_hash env other = Inr e" "eq_ignore_ascii_case h e"
      by (auto simp: token_authorizes_def scope_hash_token)
    with that h scope_hash_eq_ignore_case [OF h] show False by auto
  qed
  ultimately show ?thesis by blast
qed

theorem issued_token_authorizes_only_its_command_witness:
  "\<exists>tok. issue_command_token_for_command sample_env ''nonce-123'' ''p1'' (sample_cmd []) (sample_client True) = Inr tok
     \<and> fst (validate_command sample_env (secs 5) ((sample_cmd [])\<lparr>policy_token := tok\<rparr>) (sample_client True)) = Inr True"
proof -
  have "is_valid_nonce ''nonce-123''" "load_signing_secret sample_env \<noteq> None"
    "find_policy ''p1'' (sample_client True) = Some (sample_policy True)" "require_signed_token (sample_policy True)"
    by code_simp+
  moreover have "compute_command_scope_hash sample_env (sample_cmd []) = Inr (hex_lower (replicate 32 171))"
    by (simp add: compute_command_scope_hash_def sample_env_def)
  moreover have "is_valid_hash (hex_lower (replicate 32 171))" by (rule hex_lower_valid) simp
  ultimately have "\<not> isl (issue_command_token_for_command sample_env ''nonce-123'' ''p1'' (sample_cmd []) (sample_client True))"
    by (auto simp: issue_command_token_for_command_def issue_command_token_for_policy_def Let_def)
  then obtain tok where tok:
    "issue_command_token_for_command sample_env ''nonce-123'' ''p1'' (sample_cmd []) (sample_client True) = Inr tok"
    by (metis isl_def sum.exhaust_sel)
  have "plain_id ''p1''" "is_cache_valid (secs 5) (sample_client True)" by code_simp+
  moreover have "validated_tokens (sample_client True) tok = None"
    by (simp add: sample_client_def update_policies_def)
  ultimately show ?thesis
    using issued_token_authorizes_only_its_command [OF tok _ sample_digests] tok by blast
qed

text \<open>Single use is decided on the spelling of a token, not on what it says: a second spelling that
  parses to the same policy, nonce, hash and signature, for example with a space after a colon, is
  accepted right after the first was spent.\<close>

theorem respelled_token_is_replayed:
  assumes "validate_command env now cmd c = (Inr True, c1)"
    and "parse_policy_token (trim tok) = parse_policy_token (trim (policy_token cmd))"
    and "trim tok \<noteq> trim (policy_token cmd)" "validated_tokens c (trim tok) = None"
  shows "fst (validate_command env now (cmd\<lparr>policy_token := tok\<rparr>) c1) = Inr True"
proof (rule fresh_token_accepted)
  note s = accepted_spends [OF assms(1)]
  then have "is_cache_valid now c1 = is_cache_valid now c" "find_policy x c1 = find_policy x c" for x
    by (simp_all add: is_cache_valid_def find_policy_def)
  with s assms(2) show "token_authorizes env now (cmd\<lparr>policy_token := tok\<rparr>) c1"
    by (simp add: token_authorizes_def scope_hash_token)
  show "validated_tokens c1 (trim (policy_token (cmd\<lparr>policy_token := tok\<rparr>))) = None"
    using assms(1,3,4) validate_command_cases [of now c cmd env]
    by (auto simp: spend_token_def Let_def retain_tokens_def split: if_splits)
qed

theorem respelled_token_is_replayed_witness:
  "fst (validate_command sample_env (secs 5) ((sample_cmd ''p1:nonce-123'')\<lparr>policy_token := ''p1: nonce-123''\<rparr>)
     (snd (validate_command sample_env (secs 5) (sample_cmd ''p1:nonce-123'') (sample_client False)))) = Inr True"
proof -
  let ?r = "validate_command sample_env (secs 5) (sample_cmd ''p1:nonce-123'') (sample_client False)"
  have "fst ?r = Inr True" by code_simp
  then have r: "?r = (Inr True, snd ?r)" by (metis prod.collapse)
  show ?thesis by (rule respelled_token_is_replayed [OF r]) code_simp+
qed

text \<open>Whatever is done to the policies, the process of every policy in force is allowed.\<close>

theorem policies_processes_allowed:
  assumes "p \<in> set (policies (policy_cache (policy_run env ops (policy_client_new now))))"
  shows "is_process_allowed (process_name p) (policy_run env ops (policy_client_new now))"
proof -
  have "processes_inv (policy_client_new now)"
    by (simp add: processes_inv_def policy_client_new_def policy_cache_default_def)
  from processes_inv_run [OF this, of env ops] assms show ?thesis
    by (auto simp: processes_inv_def is_process_allowed_def)
qed

theorem policies_processes_allowed_witness:
  "is_process_allowed ''git'' (policy_run sample_env [AddPolicy 0 (sample_policy True)] (policy_client_new 0))"
proof -
  have "sample_policy True \<in> set (policies (policy_cache
      (policy_run sample_env [AddPolicy 0 (sample_policy True)] (policy_client_new 0))))" by code_simp
  from policies_processes_allowed [OF this] show ?thesis by (simp add: sample_policy_def)
qed

end
