(* ===== verification/BoundedFifo.thy ===== *)
theory BoundedFifo
  imports Prelude
begin

text \<open>
  The contract of a buffer that drops its oldest element when a new one arrives at capacity. Several
  components keep such a buffer; what follows for every sequence of insertions is proved here once.
\<close>

locale bounded_fifo =
  fixes items :: "'s \<Rightarrow> 'a list"
    and cap :: "'s \<Rightarrow> nat"
    and push :: "'a \<Rightarrow> 's \<Rightarrow> 's"
  assumes items_push: "items (push x s) = (if cap s \<le> length (items s) then drop 1 (items s) else items s) @ [x]"
    and cap_push: "cap (push x s) = cap s"
begin

lemma length_push:
  "length (items (push x s)) = (if cap s \<le> length (items s) \<and> items s \<noteq> [] then length (items s) else length (items s) + 1)"
  by (cases "items s") (auto simp: items_push)

lemma push_bounded: "length (items s) \<le> cap s \<Longrightarrow> 0 < cap s \<Longrightarrow> length (items (push x s)) \<le> cap (push x s)"
  by (auto simp: items_push cap_push)

lemma cap_fold: "cap (fold push xs s) = cap s"
  by (induction xs arbitrary: s) (simp_all add: cap_push)

text \<open>Any number of insertions leaves the newest elements, in the order they came.\<close>

lemma items_fold:
  assumes "length (items s) \<le> cap s" "0 < cap s"
  shows "items (fold push xs s) = drop (length (items s) + length xs - cap s) (items s @ xs)"
  using assms
proof (induction xs arbitrary: s)
  case (Cons x xs)
  have le: "length (items (push x s)) \<le> cap s"
    using push_bounded [OF Cons.prems] by (simp add: cap_push)
  have IH: "items (fold push (x # xs) s)
      = drop (length (items (push x s)) + length xs - cap s) (items (push x s) @ xs)"
    using Cons.IH [of "push x s"] le Cons.prems(2) by (simp add: cap_push)
  show ?case
  proof (cases "cap s \<le> length (items s)")
    case True
    then have "length (items s) = cap s" using Cons.prems(1) by simp
    then show ?thesis using IH True Cons.prems(2)
      by (cases "items s") (auto simp: items_push)
  next
    case False
    then show ?thesis using IH by (auto simp: items_push)
  qed
qed simp

lemma fold_bounded:
  assumes "length (items s) \<le> cap s" "0 < cap s"
  shows "length (items (fold push xs s)) \<le> cap s"
  using assms by (simp add: items_fold)

end

end
