(* ===== verification/AuditLog.thy ===== *)
theory AuditLog
  imports BoundedFifo PolicyToken
begin

text \<open>
  The audit logger of \<open>crates/oneshim-automation/src/audit.rs\<close>: a bounded buffer of entries, each handed to
  the persistence callback as it is recorded. What the callback was given is kept in \<open>persisted\<close>; the
  sanitizer and the query of the historical store are functions of other crates and fields here. The
  UUID and the time of an entry are the argument \<open>stamp\<close>.
\<close>

datatype AuditStatus = Started | Completed | Failed | Denied | Timeout

record AuditEntry =
  entry_id :: string
  timestamp :: time
  entry_session_id :: string
  entry_command_id :: string
  action_type :: string
  status :: AuditStatus
  details :: "string option"
  execution_time_ms :: "u64 option"

record AuditLogger =
  buffer :: "AuditEntry list"
  max_buffer_size :: nat
  batch_size :: nat
  persistence :: bool
  persisted :: "AuditEntry list"
  audit_query :: "(string \<Rightarrow> nat \<Rightarrow> AuditEntry list) option"
  pii_sanitizer :: "(string \<Rightarrow> string) option"

definition audit_new :: "nat \<Rightarrow> nat \<Rightarrow> AuditLogger" where
  "audit_new m b = \<lparr>buffer = [], max_buffer_size = m, batch_size = b, persistence = False, persisted = [],
     audit_query = None, pii_sanitizer = None\<rparr>"

definition audit_default :: AuditLogger where
  "audit_default = audit_new 1000 50"

section \<open>Recording\<close>

type_synonym entry_stamp = "string \<times> time"

definition sanitize_details :: "AuditLogger \<Rightarrow> string option \<Rightarrow> string option" where
  "sanitize_details l = map_option (case pii_sanitizer l of Some f \<Rightarrow> f | None \<Rightarrow> id)"

text \<open>The common end of \<open>push_entry\<close> and \<open>push_entry_with_time\<close>.\<close>

definition append_entry :: "AuditEntry \<Rightarrow> AuditLogger \<Rightarrow> AuditLogger" where
  "append_entry e l =
     l\<lparr>buffer := (if max_buffer_size l \<le> length (buffer l) then drop 1 (buffer l) else buffer l) @ [e],
       persisted := (if persistence l then persisted l @ [e] else persisted l)\<rparr>"

definition push_entry_with_time ::
  "entry_stamp \<Rightarrow> string \<Rightarrow> string \<Rightarrow> string \<Rightarrow> AuditStatus \<Rightarrow> string option \<Rightarrow> u64 option \<Rightarrow> AuditLogger \<Rightarrow> AuditLogger" where
  "push_entry_with_time stamp cid sid act st raw ms l =
     append_entry \<lparr>entry_id = fst stamp, timestamp = snd stamp, entry_session_id = sid, entry_command_id = cid,
       action_type = act, status = st, details = sanitize_details l raw, execution_time_ms = ms\<rparr> l"

definition push_entry ::
  "entry_stamp \<Rightarrow> string \<Rightarrow> string \<Rightarrow> string \<Rightarrow> AuditStatus \<Rightarrow> string option \<Rightarrow> AuditLogger \<Rightarrow> AuditLogger" where
  "push_entry stamp cid sid act st det l =
     append_entry \<lparr>entry_id = fst stamp, timestamp = snd stamp, entry_session_id = sid, entry_command_id = cid,
       action_type = act, status = st, details = sanitize_details l det, execution_time_ms = None\<rparr> l"

definition log_start :: "entry_stamp \<Rightarrow> string \<Rightarrow> string \<Rightarrow> string \<Rightarrow> AuditLogger \<Rightarrow> AuditLogger" where
  "log_start stamp cid sid act = push_entry stamp cid sid act Started None"

definition log_complete :: "entry_stamp \<Rightarrow> string \<Rightarrow> string \<Rightarrow> string \<Rightarrow> AuditLogger \<Rightarrow> AuditLogger" where
  "log_complete stamp cid sid det = push_entry stamp cid sid ''complete'' Completed (Some det)"

definition log_denied :: "entry_stamp \<Rightarrow> string \<Rightarrow> string \<Rightarrow> string \<Rightarrow> AuditLogger \<Rightarrow> AuditLogger" where
  "log_denied stamp cid sid act = push_entry stamp cid sid act Denied None"

definition log_failed :: "entry_stamp \<Rightarrow> string \<Rightarrow> string \<Rightarrow> string \<Rightarrow> AuditLogger \<Rightarrow> AuditLogger" where
  "log_failed stamp cid sid err = push_entry stamp cid sid ''failed'' Failed (Some err)"

definition log_event :: "entry_stamp \<Rightarrow> string \<Rightarrow> string \<Rightarrow> string \<Rightarrow> string \<Rightarrow> AuditLogger \<Rightarrow> AuditLogger" where
  "log_event stamp uuid act sid det = push_entry stamp (''event-'' @ uuid) sid act Completed (Some det)"

definition log_start_if :: "AuditLevel \<Rightarrow> entry_stamp \<Rightarrow> string \<Rightarrow> string \<Rightarrow> string \<Rightarrow> AuditLogger \<Rightarrow> AuditLogger" where
  "log_start_if level stamp cid sid act l =
     (if level = AuditNone then l else push_entry stamp cid sid act Started None l)"

definition log_complete_with_time ::
  "AuditLevel \<Rightarrow> entry_stamp \<Rightarrow> string \<Rightarrow> string \<Rightarrow> string \<Rightarrow> u64 \<Rightarrow> AuditLogger \<Rightarrow> AuditLogger" where
  "log_complete_with_time level stamp cid sid det ms l =
     (if level = AuditNone then l
      else push_entry_with_time stamp cid sid ''complete'' Completed (Some det) (Some ms) l)"

definition log_timeout :: "entry_stamp \<Rightarrow> string \<Rightarrow> string \<Rightarrow> u64 \<Rightarrow> AuditLogger \<Rightarrow> AuditLogger" where
  "log_timeout stamp cid sid ms =
     push_entry_with_time stamp cid sid ''timeout'' Timeout
       (Some (''Exceeded '' @ show_nat (unat ms) @ ''ms'')) (Some ms)"

section \<open>Reading and draining\<close>

definition has_pending_batch :: "AuditLogger \<Rightarrow> bool" where
  "has_pending_batch l \<longleftrightarrow> batch_size l \<le> length (buffer l)"

definition pending_count :: "AuditLogger \<Rightarrow> nat" where
  "pending_count l = length (buffer l)"

definition drain_batch :: "AuditLogger \<Rightarrow> AuditEntry list \<times> AuditLogger" where
  "drain_batch l =
     (let n = min (length (buffer l)) (batch_size l) in
      (take n (buffer l), l\<lparr>buffer := drop n (buffer l)\<rparr>))"

definition drain_all :: "AuditLogger \<Rightarrow> AuditEntry list \<times> AuditLogger" where
  "drain_all l = (buffer l, l\<lparr>buffer := []\<rparr>)"

definition recent_entries :: "nat \<Rightarrow> AuditLogger \<Rightarrow> AuditEntry list" where
  "recent_entries limit l = take limit (rev (buffer l))"

definition entries_by_status :: "AuditStatus \<Rightarrow> nat \<Rightarrow> AuditLogger \<Rightarrow> AuditEntry list" where
  "entries_by_status st limit l = take limit (filter (\<lambda>e. status e = st) (rev (buffer l)))"

definition entries_by_action_prefix :: "string \<Rightarrow> nat \<Rightarrow> AuditLogger \<Rightarrow> AuditEntry list" where
  "entries_by_action_prefix p limit l = take limit (filter (\<lambda>e. starts_with p (action_type e)) (rev (buffer l)))"

fun fill_from_storage :: "nat \<Rightarrow> string set \<Rightarrow> AuditEntry list \<Rightarrow> AuditEntry list \<Rightarrow> AuditEntry list" where
  "fill_from_storage limit ids results [] = results"
| "fill_from_storage limit ids results (e # es) =
     (if limit \<le> length results then results
      else fill_from_storage limit ids (if entry_id e \<notin> ids then results @ [e] else results) es)"

definition entries_by_command_id :: "string \<Rightarrow> nat \<Rightarrow> AuditLogger \<Rightarrow> AuditEntry list" where
  "entries_by_command_id cid limit l =
     (if limit = 0 then []
      else
        (let found = take limit (filter (\<lambda>e. entry_command_id e = cid) (rev (buffer l)));
             results =
               (if length found < limit then
                  (case audit_query l of
                     Some q \<Rightarrow> fill_from_storage limit (entry_id ` set found) found (q cid limit)
                   | None \<Rightarrow> found)
                else found)
         in take limit (sort_key (\<lambda>e. - timestamp e) results)))"

record AuditStats =
  total_entries :: nat
  completed_entries :: nat
  failed_entries :: nat
  denied_entries :: nat
  timeout_entries :: nat

definition audit_stats :: "AuditLogger \<Rightarrow> AuditStats" where
  "audit_stats l =
     (let n = (\<lambda>st. length (filter (\<lambda>e. status e = st) (buffer l))) in
      \<lparr>total_entries = n Completed + n Failed + n Denied + n Timeout, completed_entries = n Completed,
       failed_entries = n Failed, denied_entries = n Denied, timeout_entries = n Timeout\<rparr>)"

section \<open>The buffer is a bounded queue\<close>

interpretation audit_fifo: bounded_fifo buffer max_buffer_size append_entry
  by unfold_locales (simp_all add: append_entry_def)

lemma append_entry_persisted: "persistence l \<Longrightarrow> persisted (append_entry e l) = persisted l @ [e]"
  "persistence (append_entry e l) = persistence l"
  by (simp_all add: append_entry_def)

lemma persisted_fold: "persistence l \<Longrightarrow> persisted (fold append_entry es l) = persisted l @ es"
  by (induction es arbitrary: l) (simp_all add: append_entry_persisted)

lemma drain_batch_split:
  "drain_batch l = (es, l') \<Longrightarrow> buffer l = es @ buffer l' \<and> length es = min (length (buffer l)) (batch_size l)"
  by (auto simp: drain_batch_def Let_def)

lemma distinct_map_take_filter:
  assumes "distinct (map f xs)"
  shows "distinct (map f (take n (filter P (rev xs))))"
proof -
  have "distinct (take n (filter P (rev xs)))" using assms by (simp add: distinct_map)
  moreover have "set (take n (filter P (rev xs))) \<subseteq> set xs" by (auto dest: in_set_takeD)
  then have "inj_on f (set (take n (filter P (rev xs))))"
    using assms by (auto simp: distinct_map intro: inj_on_subset)
  ultimately show ?thesis by (simp add: distinct_map)
qed

lemma fill_from_storage_props:
  "\<exists>new. fill_from_storage limit ids results es = results @ new \<and> set new \<subseteq> {e \<in> set es. entry_id e \<notin> ids}
     \<and> (distinct (map entry_id es) \<longrightarrow> distinct (map entry_id new))
     \<and> (length results \<le> limit \<longrightarrow> length (results @ new) \<le> limit)"
proof (induction es arbitrary: results)
  case (Cons e es)
  show ?case
  proof (cases "limit \<le> length results")
    case False
    show ?thesis
    proof (cases "entry_id e \<notin> ids")
      case True
      from Cons.IH [of "results @ [e]"] obtain new where new:
        "fill_from_storage limit ids (results @ [e]) es = (results @ [e]) @ new"
        "set new \<subseteq> {e \<in> set es. entry_id e \<notin> ids}"
        "distinct (map entry_id es) \<longrightarrow> distinct (map entry_id new)"
        "length (results @ [e]) \<le> limit \<longrightarrow> length ((results @ [e]) @ new) \<le> limit" by blast
      from new False True show ?thesis by (intro exI [of _ "e # new"]) (auto simp: not_le Suc_le_eq)
    next
      case in_ids: False
      from Cons.IH [of results] in_ids False show ?thesis by auto
    qed
  qed simp
qed auto

section \<open>Properties\<close>

definition sample_entry :: "string \<Rightarrow> time \<Rightarrow> string \<Rightarrow> AuditEntry" where
  "sample_entry i t c = \<lparr>entry_id = i, timestamp = t, entry_session_id = ''s'', entry_command_id = c,
     action_type = ''a'', status = Completed, details = None, execution_time_ms = None\<rparr>"

text \<open>C12: however many entries are recorded, the buffer holds the newest ones up to its capacity, in order,
  and every entry has reached the persistence callback.\<close>

theorem audit_keeps_newest_and_persists_all:
  assumes "0 < m"
  shows "let l = fold append_entry es ((audit_new m b)\<lparr>persistence := True\<rparr>) in
     buffer l = drop (length es - m) es \<and> length (buffer l) \<le> m \<and> persisted l = es"
  using audit_fifo.items_fold [of "(audit_new m b)\<lparr>persistence := True\<rparr>" es]
    audit_fifo.fold_bounded [of "(audit_new m b)\<lparr>persistence := True\<rparr>" es]
    persisted_fold [of "(audit_new m b)\<lparr>persistence := True\<rparr>" es] assms
  by (simp add: audit_new_def Let_def)

theorem audit_keeps_newest_and_persists_all_witness:
  "let l = fold append_entry [sample_entry ''1'' 1 ''c'', sample_entry ''2'' 2 ''c'', sample_entry ''3'' 3 ''c'']
       ((audit_new 2 1)\<lparr>persistence := True\<rparr>) in length (buffer l) \<le> 2"
proof -
  have "(0 :: nat) < 2" by simp
  from audit_keeps_newest_and_persists_all [OF this, of "[sample_entry ''1'' 1 ''c'', sample_entry ''2'' 2 ''c'',
      sample_entry ''3'' 3 ''c'']" 1] show ?thesis unfolding Let_def by blast
qed

text \<open>The history of a command has at most \<open>limit\<close> entries, all of that command, newest first and none
  twice, when the buffer and the store hold no id twice and the store returns entries of that command.\<close>

theorem command_history_query:
  assumes "distinct (map entry_id (buffer l))"
    and "case audit_query l of None \<Rightarrow> True
         | Some q \<Rightarrow> distinct (map entry_id (q cid limit)) \<and> (\<forall>e \<in> set (q cid limit). entry_command_id e = cid)"
  shows "let es = entries_by_command_id cid limit l in
     length es \<le> limit \<and> (\<forall>e \<in> set es. entry_command_id e = cid) \<and> distinct (map entry_id es)
     \<and> sorted (map (\<lambda>e. - timestamp e) es)"
proof -
  define found where "found = take limit (filter (\<lambda>e. entry_command_id e = cid) (rev (buffer l)))"
  have found: "distinct (map entry_id found)" "\<forall>e \<in> set found. entry_command_id e = cid"
    using distinct_map_take_filter [OF assms(1)] by (auto simp: found_def dest: in_set_takeD)
  let ?results = "if length found < limit then
      (case audit_query l of
         Some q \<Rightarrow> fill_from_storage limit (entry_id ` set found) found (q cid limit) | None \<Rightarrow> found)
    else found"
  have results: "distinct (map entry_id ?results) \<and> (\<forall>e \<in> set ?results. entry_command_id e = cid)"
  proof (cases "audit_query l")
    case (Some q)
    then have q: "distinct (map entry_id (q cid limit))" "\<forall>e \<in> set (q cid limit). entry_command_id e = cid"
      using assms(2) by simp_all
    obtain new where new: "fill_from_storage limit (entry_id ` set found) found (q cid limit) = found @ new"
      "set new \<subseteq> {e \<in> set (q cid limit). entry_id e \<notin> entry_id ` set found}" "distinct (map entry_id new)"
      using fill_from_storage_props [of limit "entry_id ` set found" found "q cid limit"] q(1)
      by (elim exE conjE) simp
    have "entry_id e \<notin> entry_id ` set found" if "e \<in> set new" for e using that new(2) by auto
    then have "entry_id ` set found \<inter> entry_id ` set new = {}" unfolding disjoint_iff by (metis imageE)
    then have "distinct (map entry_id (found @ new))"
      using found(1) new(3) unfolding map_append distinct_append set_map by blast
    moreover have "\<forall>e \<in> set (found @ new). entry_command_id e = cid"
      using found(2) new(2) q(2) unfolding set_append by blast
    ultimately show ?thesis using found new(1) Some by (simp only: option.case split: if_split) blast
  qed (use found in simp)
  define es where "es = sort_key (\<lambda>e. - timestamp e) ?results"
  have "distinct (map entry_id es)" "\<forall>e \<in> set es. entry_command_id e = cid" "sorted (map (\<lambda>e. - timestamp e) es)"
    using results by (auto simp: es_def distinct_map)
  then have "distinct (map entry_id (take limit es))" "\<forall>e \<in> set (take limit es). entry_command_id e = cid"
    "sorted (map (\<lambda>e. - timestamp e) (take limit es))"
    by (auto simp: take_map [symmetric] dest: in_set_takeD intro: sorted_wrt_take)
  moreover have "entries_by_command_id cid limit l = (if limit = 0 then [] else take limit es)"
    unfolding entries_by_command_id_def Let_def es_def found_def by (rule refl)
  ultimately show ?thesis by (auto simp: Let_def)
qed

theorem command_history_query_witness:
  "length (entries_by_command_id ''c'' 2 (fold append_entry [sample_entry ''1'' 1 ''c'', sample_entry ''2'' 2 ''d'',
     sample_entry ''3'' 3 ''c''] (audit_new 5 1))) \<le> 2"
proof -
  let ?l = "fold append_entry [sample_entry ''1'' 1 ''c'', sample_entry ''2'' 2 ''d'', sample_entry ''3'' 3 ''c'']
     (audit_new 5 1)"
  have d: "distinct (map entry_id (buffer ?l))" by code_simp
  have q: "audit_query ?l = None" by (simp add: append_entry_def audit_new_def)
  have "case audit_query ?l of None \<Rightarrow> True
      | Some q \<Rightarrow> distinct (map entry_id (q ''c'' 2)) \<and> (\<forall>e \<in> set (q ''c'' 2). entry_command_id e = ''c'')"
    unfolding q by simp
  from command_history_query [where cid = "''c''" and limit = 2, OF d this] show ?thesis unfolding Let_def by blast
qed

end
