(* ===== verification/ExecutionGate.thy ===== *)
theory ExecutionGate
  imports PolicyClient AuditLog
begin

text \<open>
  The path of an automation command through \<open>crates/oneshim-automation\<close>: the sandbox configuration that
  a policy resolves to (\<open>resolver.rs\<close>), the execution gate (\<open>controller/gate.rs\<close>), the controller's
  \<open>execute_command\<close> and \<open>run_workflow\<close> (\<open>controller/preset.rs\<close>), the user's confirmations and the policy
  DTOs of the port (\<open>controller/port_impl.rs\<close>, \<open>controller/mod.rs\<close>).

  What runs a command is a function that says how long it takes and what it returns. The state keeps the
  calls that were made to it in \<open>dispatched\<close>. The texts of \<open>{:?}\<close> in audit entries are arguments.
\<close>

datatype CommandResult = Success | CFailed string | CTimeout | CDenied

record SandboxConfig =
  sb_enabled :: bool
  sb_profile :: SandboxProfile
  sb_read_paths :: "string list"
  sb_write_paths :: "string list"
  sb_network :: bool
  sb_memory :: u64
  sb_cpu_time_ms :: u64

section \<open>Resolving a sandbox\<close>

definition resolve_sandbox_profile :: "ExecutionPolicy \<Rightarrow> SandboxProfile" where
  "resolve_sandbox_profile policy =
     (case sandbox_profile policy of
        Some profile \<Rightarrow> profile
      | None \<Rightarrow>
          (let base = (case audit_level policy of AuditNone \<Rightarrow> Permissive | Basic \<Rightarrow> Standard
                        | Detailed \<Rightarrow> Strict | Full \<Rightarrow> Strict)
           in if requires_sudo policy \<and> base = Permissive then Standard else base))"

definition extend_paths :: "string list \<Rightarrow> string list \<Rightarrow> string list" where
  "extend_paths base extra = fold (\<lambda>p ps. if p \<in> set ps then ps else ps @ [p]) extra base"

definition resolve_sandbox_config :: "ExecutionPolicy \<Rightarrow> SandboxConfig \<Rightarrow> SandboxConfig" where
  "resolve_sandbox_config policy base =
     (let profile = resolve_sandbox_profile policy in
      \<lparr>sb_enabled = sb_enabled base, sb_profile = profile,
       sb_read_paths = extend_paths (sb_read_paths base) (allowed_paths policy),
       sb_write_paths = sb_write_paths base,
       sb_network = (case allow_network policy of Some b \<Rightarrow> b | None \<Rightarrow> profile = Permissive),
       sb_memory = sb_memory base,
       sb_cpu_time_ms = (if max_execution_time_ms policy > 0 then max_execution_time_ms policy
                         else sb_cpu_time_ms base)\<rparr>)"

definition default_strict_config :: "SandboxConfig \<Rightarrow> SandboxConfig" where
  "default_strict_config base =
     \<lparr>sb_enabled = sb_enabled base, sb_profile = Strict, sb_read_paths = sb_read_paths base, sb_write_paths = [],
      sb_network = False, sb_memory = sb_memory base, sb_cpu_time_ms = sb_cpu_time_ms base\<rparr>"

section \<open>The gate\<close>

definition internal_policy_tokens :: "string list" where
  "internal_policy_tokens = [''gui-session'', ''intent-hint'', ''scene-action'', ''workflow-step'']"

definition uses_internal_policy_token :: "string \<Rightarrow> bool" where
  "uses_internal_policy_token tok \<longleftrightarrow> tok \<in> set internal_policy_tokens"

record gate_state =
  client :: PolicyClient
  logger :: AuditLogger
  dispatched :: "(AutomationAction \<times> SandboxConfig) list"

record gate_env =
  gate_policy :: policy_env
  base_sandbox_config :: SandboxConfig
  run_action :: "AutomationAction \<Rightarrow> SandboxConfig \<Rightarrow> u64 \<times> CommandResult"   \<comment> \<open>milliseconds, result\<close>
  dbg_action :: "AutomationAction \<Rightarrow> string"
  dbg_result :: "CommandResult \<Rightarrow> string"

definition resolve_for_command :: "gate_env \<Rightarrow> AutomationCommand \<Rightarrow> gate_state \<Rightarrow> SandboxConfig \<times> AuditLevel" where
  "resolve_for_command ge cmd s =
     (if uses_internal_policy_token (policy_token cmd)
      then (default_strict_config (base_sandbox_config ge), Basic)
      else (case get_policy_for_token (policy_token cmd) (client s) of
              Some policy \<Rightarrow> (resolve_sandbox_config policy (base_sandbox_config ge), audit_level policy)
            | None \<Rightarrow> (default_strict_config (base_sandbox_config ge), Basic)))"

definition command_timeout :: "AutomationCommand \<Rightarrow> SandboxConfig \<Rightarrow> u64 option" where
  "command_timeout cmd cfg =
     (case timeout_ms cmd of Some t \<Rightarrow> Some t
      | None \<Rightarrow> if sb_cpu_time_ms cfg > 0 then Some (sb_cpu_time_ms cfg) else None)"

definition effective_timeout_ms :: "gate_env \<Rightarrow> AutomationCommand \<Rightarrow> gate_state \<Rightarrow> u64 option" where
  "effective_timeout_ms ge cmd s = command_timeout cmd (fst (resolve_for_command ge cmd s))"

text \<open>The times and ids of the audit entries: one stamp for the first entry, one for the second.\<close>

type_synonym stamps = "entry_stamp \<times> entry_stamp"

definition dispatch_command ::
  "gate_env \<Rightarrow> stamps \<Rightarrow> AutomationCommand \<Rightarrow> gate_state \<Rightarrow> CommandResult \<times> gate_state" where
  "dispatch_command ge st cmd s =
     (let (cfg, level) = resolve_for_command ge cmd s;
          s1 = s\<lparr>logger := log_start_if level (fst st) (command_id cmd) (session_id cmd) (dbg_action ge (action cmd)) (logger s),
                 dispatched := dispatched s @ [(action cmd, cfg)]\<rparr>;
          (elapsed, result) = run_action ge (action cmd) cfg
      in case command_timeout cmd cfg of
           Some t \<Rightarrow>
             if elapsed > t
             then (CTimeout, s1\<lparr>logger := log_timeout (snd st) (command_id cmd) (session_id cmd) t (logger s1)\<rparr>)
             else (result, s1\<lparr>logger := log_complete_with_time level (snd st) (command_id cmd) (session_id cmd)
                                          (dbg_result ge result) elapsed (logger s1)\<rparr>)
         | None \<Rightarrow>
             (result, s1\<lparr>logger := log_complete_with_time level (snd st) (command_id cmd) (session_id cmd)
                                     (dbg_result ge result) elapsed (logger s1)\<rparr>))"

definition gate_execute ::
  "gate_env \<Rightarrow> time \<Rightarrow> stamps \<Rightarrow> AutomationCommand \<Rightarrow> gate_state \<Rightarrow> (AutomationError + CommandResult) \<times> gate_state" where
  "gate_execute ge now st cmd s =
     (if uses_internal_policy_token (policy_token cmd) then
        (let (r, s') = dispatch_command ge st cmd s in (Inr r, s'))
      else
        (case validate_command (gate_policy ge) now cmd (client s) of
           (Inl e, c) \<Rightarrow> (Inl e, s\<lparr>client := c\<rparr>)
         | (Inr ok, c) \<Rightarrow>
             if ok then (let (r, s') = dispatch_command ge st cmd (s\<lparr>client := c\<rparr>) in (Inr r, s'))
             else (Inr CDenied, s\<lparr>client := c, logger := log_denied (fst st) (command_id cmd) (session_id cmd)
                                      (dbg_action ge (action cmd)) (logger s)\<rparr>)))"

section \<open>The controller\<close>

text \<open>\<open>request_confirmation\<close> waits for the user; \<open>answer\<close> is what comes back, a timeout or a closed channel
  counting as a refusal. \<open>last_ok\<close> is the health flag.\<close>

record controller =
  enabled :: bool
  gate :: gate_state
  last_command_ok :: "bool option"

definition health_after :: "AutomationError + CommandResult \<Rightarrow> bool option \<Rightarrow> bool option" where
  "health_after r flag = map_option (\<lambda>_. r = Inr Success) flag"

definition confirmation_refused :: "bool \<Rightarrow> AutomationCommand \<Rightarrow> PolicyClient \<Rightarrow> bool" where
  "confirmation_refused answer cmd c =
     (case get_policy_for_token (policy_token cmd) c of
        None \<Rightarrow> False
      | Some policy \<Rightarrow> (case confirmation policy of Block \<Rightarrow> True | Confirm \<Rightarrow> \<not> answer | Auto \<Rightarrow> False))"

definition execute_command ::
  "gate_env \<Rightarrow> time \<Rightarrow> stamps \<Rightarrow> bool \<Rightarrow> AutomationCommand \<Rightarrow> controller \<Rightarrow> (AutomationError + CommandResult) \<times> controller" where
  "execute_command ge now st answer cmd k =
     (if \<not> enabled k then (Inl (PolicyDenied ''automation disabled''), k)
      else if confirmation_refused answer cmd (client (gate k)) then (Inr CDenied, k)
      else (let (r, g) = gate_execute ge now st cmd (gate k) in
            (r, k\<lparr>gate := g, last_command_ok := health_after r (last_command_ok k)\<rparr>)))"

section \<open>Confirmations\<close>

record PendingConfirmation =
  pc_command_id :: string
  pc_nonce :: string
  pc_process_name :: string
  pc_args :: "string list"
  pc_audit_level :: string
  pc_requested_at :: time

datatype ConfirmError = NonceMismatch string | NoSuchConfirmation string

definition register_confirmation ::
  "PendingConfirmation \<Rightarrow> (string \<rightharpoonup> PendingConfirmation) \<Rightarrow> (string \<rightharpoonup> PendingConfirmation)" where
  "register_confirmation pc m = m(pc_command_id pc \<mapsto> pc)"

text \<open>The answer is delivered to the command that waits for it, or not at all.\<close>

definition submit_confirmation ::
  "string \<Rightarrow> string \<Rightarrow> bool \<Rightarrow> (string \<rightharpoonup> PendingConfirmation)
     \<Rightarrow> (ConfirmError + (string \<times> bool)) \<times> (string \<rightharpoonup> PendingConfirmation)" where
  "submit_confirmation cid nonce approved m =
     (case m cid of
        None \<Rightarrow> (Inl (NoSuchConfirmation cid), m)
      | Some pc \<Rightarrow>
          if pc_nonce pc \<noteq> nonce then (Inl (NonceMismatch cid), m)
          else (Inr (cid, approved), m(cid := None)))"

definition confirmation_timeout :: "string \<Rightarrow> (string \<rightharpoonup> PendingConfirmation) \<Rightarrow> (string \<rightharpoonup> PendingConfirmation)" where
  "confirmation_timeout cid m = m(cid := None)"

section \<open>Policy DTOs\<close>

record ExecutionPolicyDto =
  dto_policy_id :: string
  dto_process_name :: string
  dto_process_hash :: "string option"
  dto_allowed_args :: "string list"
  dto_requires_sudo :: bool
  dto_max_execution_time_ms :: u64
  dto_audit_level :: string
  dto_sandbox_profile :: "string option"
  dto_allowed_paths :: "string list"
  dto_allow_network :: "bool option"
  dto_require_signed_token :: bool
  dto_confirmation :: string

fun dbg_audit_level :: "AuditLevel \<Rightarrow> string" where
  "dbg_audit_level AuditNone = ''None''" | "dbg_audit_level Basic = ''Basic''"
| "dbg_audit_level Detailed = ''Detailed''" | "dbg_audit_level Full = ''Full''"

fun dbg_profile :: "SandboxProfile \<Rightarrow> string" where
  "dbg_profile Permissive = ''Permissive''" | "dbg_profile Standard = ''Standard''" | "dbg_profile Strict = ''Strict''"

fun dbg_confirmation :: "ConfirmationRequirement \<Rightarrow> string" where
  "dbg_confirmation Auto = ''Auto''" | "dbg_confirmation Confirm = ''Confirm''" | "dbg_confirmation Block = ''Block''"

definition policy_to_dto :: "ExecutionPolicy \<Rightarrow> ExecutionPolicyDto" where
  "policy_to_dto p =
     \<lparr>dto_policy_id = policy_id p, dto_process_name = process_name p, dto_process_hash = process_hash p,
      dto_allowed_args = allowed_args p, dto_requires_sudo = requires_sudo p,
      dto_max_execution_time_ms = max_execution_time_ms p, dto_audit_level = dbg_audit_level (audit_level p),
      dto_sandbox_profile = map_option dbg_profile (sandbox_profile p), dto_allowed_paths = allowed_paths p,
      dto_allow_network = allow_network p, dto_require_signed_token = require_signed_token p,
      dto_confirmation = dbg_confirmation (confirmation p)\<rparr>"

definition dto_to_policy :: "ExecutionPolicyDto \<Rightarrow> ExecutionPolicy" where
  "dto_to_policy d =
     \<lparr>policy_id = dto_policy_id d, process_name = dto_process_name d, process_hash = dto_process_hash d,
      allowed_args = dto_allowed_args d, requires_sudo = dto_requires_sudo d,
      max_execution_time_ms = dto_max_execution_time_ms d,
      audit_level = (if dto_audit_level d = ''None'' then AuditNone
                     else if dto_audit_level d = ''Detailed'' then Detailed else Basic),
      sandbox_profile = Option.bind (dto_sandbox_profile d) (\<lambda>s.
        if s = ''Permissive'' then Some Permissive else if s = ''Standard'' then Some Standard
        else if s = ''Strict'' then Some Strict else None),
      allowed_paths = dto_allowed_paths d, allow_network = dto_allow_network d,
      require_signed_token = dto_require_signed_token d,
      confirmation = (if dto_confirmation d = ''Auto'' then Auto
                      else if dto_confirmation d = ''Block'' then Block else Confirm)\<rparr>"

definition add_execution_policy :: "time \<Rightarrow> ExecutionPolicyDto \<Rightarrow> PolicyClient \<Rightarrow> ExecutionPolicyDto \<times> PolicyClient" where
  "add_execution_policy now d c = (d, add_policy now (dto_to_policy d) c)"

definition list_execution_policies :: "PolicyClient \<Rightarrow> ExecutionPolicyDto list" where
  "list_execution_policies c = map policy_to_dto (policies (policy_cache c))"

section \<open>Workflows\<close>

record 'i WorkflowStep =
  step_name :: string
  intent :: 'i
  delay_ms :: u64
  stop_on_failure :: bool

record WorkflowStepResult =
  sr_name :: string
  sr_index :: nat
  sr_success :: bool
  sr_elapsed_ms :: u64
  sr_error :: "string option"

record WorkflowResult =
  wf_success :: bool
  wf_steps_executed :: nat
  wf_total_steps :: nat
  wf_step_results :: "WorkflowStepResult list"

text \<open>Executing an intent returns whether it succeeded and an error text, or fails with a message; it also
  says how long it took. The executor works on a state \<open>'w\<close> of its own.\<close>

type_synonym ('i, 'w) executor = "'i \<Rightarrow> 'w \<Rightarrow> (string + bool \<times> string option) \<times> u64 \<times> 'w"

definition step_result :: "nat \<Rightarrow> string \<Rightarrow> (string + bool \<times> string option) \<Rightarrow> u64 \<Rightarrow> WorkflowStepResult" where
  "step_result idx name r ms =
     (case r of
        Inr (ok, err) \<Rightarrow> \<lparr>sr_name = name, sr_index = idx, sr_success = ok, sr_elapsed_ms = ms,
                          sr_error = (if ok then None else err)\<rparr>
      | Inl e \<Rightarrow> \<lparr>sr_name = name, sr_index = idx, sr_success = False, sr_elapsed_ms = ms, sr_error = Some e\<rparr>)"

fun run_steps ::
  "('i, 'w) executor \<Rightarrow> nat \<Rightarrow> 'i WorkflowStep list \<Rightarrow> 'w \<Rightarrow> WorkflowStepResult list \<times> bool \<times> 'w" where
  "run_steps ex idx [] w = ([], True, w)"
| "run_steps ex idx (step # steps) w =
     (let (r, ms, w') = ex (intent step) w;
          res = step_result idx (step_name step) r ms
      in if \<not> sr_success res \<and> stop_on_failure step then ([res], False, w')
         else (let (rs, ok, w'') = run_steps ex (idx + 1) steps w' in (res # rs, sr_success res \<and> ok, w'')))"

definition run_workflow ::
  "('i, 'w) executor \<Rightarrow> bool \<Rightarrow> 'i WorkflowStep list \<Rightarrow> 'w \<Rightarrow> (AutomationError + WorkflowResult) \<times> 'w" where
  "run_workflow ex enabled_flag steps w =
     (if \<not> enabled_flag then (Inl (PolicyDenied ''automation disabled''), w)
      else (let (rs, ok, w') = run_steps ex 0 steps w in
            (Inr \<lparr>wf_success = ok, wf_steps_executed = length rs, wf_total_steps = length steps,
                  wf_step_results = rs\<rparr>, w')))"

section \<open>Lemmas on the gate\<close>

lemma log_frames [simp]:
  "max_buffer_size (append_entry e l) = max_buffer_size l"
  by (simp add: append_entry_def)

lemma dispatch_command_effect:
  assumes "dispatch_command ge st cmd s = (r, s')"
  shows "dispatched s' = dispatched s @ [(action cmd, fst (resolve_for_command ge cmd s))]" "client s' = client s"
  using assms
  by (auto simp: dispatch_command_def Let_def split: prod.splits option.splits if_splits)

lemma resolve_for_command_client:
  "policy_cache c = policy_cache (client s) \<Longrightarrow>
     resolve_for_command ge cmd (s\<lparr>client := c\<rparr>) = resolve_for_command ge cmd s"
  by (simp add: resolve_for_command_def get_policy_for_token_def find_policy_def)

lemma gate_execute_cases:
  assumes "gate_execute ge now st cmd s = (r, s')"
  shows "dispatched s' = dispatched s
    \<or> dispatched s' = dispatched s @ [(action cmd, fst (resolve_for_command ge cmd s))]
      \<and> (uses_internal_policy_token (policy_token cmd) \<or> token_authorizes (gate_policy ge) now cmd (client s))"
proof (cases "uses_internal_policy_token (policy_token cmd)")
  case True
  then show ?thesis
    using assms by (auto simp: gate_execute_def dispatch_command_effect split: prod.splits)
next
  case False
  obtain v c where v: "validate_command (gate_policy ge) now cmd (client s) = (v, c)"
    by (cases "validate_command (gate_policy ge) now cmd (client s)")
  show ?thesis
  proof (cases "v = Inr True")
    case True
    have auth: "token_authorizes (gate_policy ge) now cmd (client s)" "policy_cache c = policy_cache (client s)"
      using accepted_spends v True by auto
    have "dispatched s' = dispatched s @ [(action cmd, fst (resolve_for_command ge cmd (s\<lparr>client := c\<rparr>)))]"
      using assms v True False by (auto simp: gate_execute_def dispatch_command_effect split: prod.splits)
    with auth show ?thesis by (simp add: resolve_for_command_client)
  next
    case refused: False
    with assms v False show ?thesis by (auto simp: gate_execute_def split: sum.splits if_splits)
  qed
qed

text \<open>A refusal before the gate, by a blocking policy or by the user, leaves no audit entry.\<close>

lemma confirmation_refusal_not_audited:
  assumes "get_policy_for_token (policy_token cmd) (client (gate k)) = Some policy"
    and "confirmation policy = Block \<or> confirmation policy = Confirm \<and> \<not> answer" "enabled k"
  shows "execute_command ge now st answer cmd k = (Inr CDenied, k)"
  using assms by (auto simp: execute_command_def confirmation_refused_def)

text \<open>A command whose execution failed is recorded with the status of a completed one.\<close>

lemma failed_command_recorded_as_completed:
  assumes "resolve_for_command ge cmd s = (cfg, level)" "level \<noteq> AuditNone"
    and "run_action ge (action cmd) cfg = (ms, CFailed msg)" "command_timeout cmd cfg = None"
    and "0 < max_buffer_size (logger s)"
  shows "fst (dispatch_command ge st cmd s) = CFailed msg
    \<and> status (last (buffer (logger (snd (dispatch_command ge st cmd s))))) = Completed"
  using assms
  by (simp add: dispatch_command_def Let_def log_complete_with_time_def push_entry_with_time_def append_entry_def)

section \<open>Lemmas on workflows\<close>

lemma run_steps_results:
  assumes "run_steps ex idx steps w = (rs, ok, w')"
  shows "length rs \<le> length steps \<and> map sr_name rs = take (length rs) (map step_name steps)
    \<and> map sr_index rs = [idx..<idx + length rs]
    \<and> (ok \<longleftrightarrow> length rs = length steps \<and> list_all sr_success rs)
    \<and> (length rs < length steps \<longrightarrow> rs \<noteq> [] \<and> \<not> sr_success (last rs) \<and> stop_on_failure (steps ! (length rs - 1)))
    \<and> (\<forall>i < length rs - 1. sr_success (rs ! i) \<or> \<not> stop_on_failure (steps ! i))"
  using assms
proof (induction steps arbitrary: idx w rs ok w')
  case (Cons step steps)
  obtain r ms w1 where ex: "ex (intent step) w = (r, ms, w1)" by (cases "ex (intent step) w") auto
  define res where "res = step_result idx (step_name step) r ms"
  have res: "sr_name res = step_name step" "sr_index res = idx"
    by (auto simp: res_def step_result_def split: sum.splits)
  show ?case
  proof (cases "\<not> sr_success res \<and> stop_on_failure step")
    case True
    then have "rs = [res]" "ok = False" using Cons.prems ex by (auto simp: Let_def res_def)
    then show ?thesis using True res by simp
  next
    case False
    obtain rs' ok' w2 where rest: "run_steps ex (idx + 1) steps w1 = (rs', ok', w2)"
      by (cases "run_steps ex (idx + 1) steps w1") auto
    then have rs: "rs = res # rs'" "ok = (sr_success res \<and> ok')"
      using Cons.prems ex False by (auto simp: Let_def res_def)
    have "sr_success (rs ! i) \<or> \<not> stop_on_failure ((step # steps) ! i)" if "i < length rs - 1" for i
      using that rs(1) False Cons.IH [OF rest] by (cases i) auto
    then show ?thesis using Cons.IH [OF rest] rs res by (auto simp: upt_rec [of idx])
  qed
qed simp

section \<open>Properties\<close>

definition base_cfg :: SandboxConfig where
  "base_cfg = \<lparr>sb_enabled = True, sb_profile = Standard, sb_read_paths = [], sb_write_paths = [''/tmp''],
     sb_network = False, sb_memory = 0, sb_cpu_time_ms = 0\<rparr>"

definition sample_ge :: gate_env where
  "sample_ge = \<lparr>gate_policy = sample_env, base_sandbox_config = base_cfg,
     run_action = (\<lambda>a c. (5, Success)), dbg_action = (\<lambda>a. ''action''), dbg_result = (\<lambda>r. ''result'')\<rparr>"

definition sample_gate :: gate_state where
  "sample_gate = \<lparr>client = sample_client False, logger = audit_new 10 5, dispatched = []\<rparr>"

definition sample_stamps :: stamps where "sample_stamps = ((''e1'', 1), (''e2'', 2))"

text \<open>C13: a command reaches the sandbox at most once per call, and only while automation is enabled, after
  the confirmation its policy asks for, and either with one of the four internal tokens, then under the
  strict profile without network or writable paths, or with a token that authorizes it.\<close>

theorem command_dispatch_preconditions:
  assumes "execute_command ge now st answer cmd k = (r, k')" "dispatched (gate k') \<noteq> dispatched (gate k)"
  shows "enabled k
    \<and> (\<forall>policy. get_policy_for_token (policy_token cmd) (client (gate k)) = Some policy \<longrightarrow>
         confirmation policy = Auto \<or> confirmation policy = Confirm \<and> answer)
    \<and> (\<exists>cfg. dispatched (gate k') = dispatched (gate k) @ [(action cmd, cfg)]
        \<and> (uses_internal_policy_token (policy_token cmd) \<and> cfg = default_strict_config (base_sandbox_config ge)
           \<or> token_authorizes (gate_policy ge) now cmd (client (gate k))))"
proof -
  have en: "enabled k" and not_refused: "\<not> confirmation_refused answer cmd (client (gate k))"
    using assms by (auto simp: execute_command_def split: if_splits)
  obtain g where g: "gate_execute ge now st cmd (gate k) = (r, g)" "gate k' = g"
    using assms(1) en not_refused by (auto simp: execute_command_def split: prod.splits)
  have "confirmation policy = Auto \<or> confirmation policy = Confirm \<and> answer"
    if "get_policy_for_token (policy_token cmd) (client (gate k)) = Some policy" for policy
    using not_refused that by (auto simp: confirmation_refused_def split: ConfirmationRequirement.splits)
  moreover have "uses_internal_policy_token (policy_token cmd) \<Longrightarrow>
      fst (resolve_for_command ge cmd (gate k)) = default_strict_config (base_sandbox_config ge)"
    by (simp add: resolve_for_command_def)
  ultimately show ?thesis
    using gate_execute_cases [OF g(1)] g(2) assms(2) en by auto
qed

definition sample_controller :: controller where
  "sample_controller = \<lparr>enabled = True, gate = sample_gate, last_command_ok = Some False\<rparr>"

theorem command_dispatch_preconditions_witness:
  "token_authorizes sample_env (secs 5) (sample_cmd ''p1:nonce-123'') (sample_client False)"
proof -
  let ?x = "execute_command sample_ge (secs 5) sample_stamps False (sample_cmd ''p1:nonce-123'') sample_controller"
  have "length (dispatched (gate (snd ?x))) = 1" "length (dispatched (gate sample_controller)) = 0" by code_simp+
  then have "dispatched (gate (snd ?x)) \<noteq> dispatched (gate sample_controller)" by auto
  moreover have "?x = (fst ?x, snd ?x)" by simp
  moreover have "\<not> uses_internal_policy_token (policy_token (sample_cmd ''p1:nonce-123''))" by code_simp
  ultimately have "token_authorizes (gate_policy sample_ge) (secs 5) (sample_cmd ''p1:nonce-123'')
      (client (gate sample_controller))"
    using command_dispatch_preconditions by blast
  then show ?thesis by (simp add: sample_ge_def sample_controller_def sample_gate_def)
qed

text \<open>A command that the gate refuses is not run and leaves a denial in the audit log.\<close>

theorem gate_denial_is_audited:
  assumes "\<not> uses_internal_policy_token (policy_token cmd)"
    and "fst (validate_command (gate_policy ge) now cmd (client s)) = Inr False"
  shows "case gate_execute ge now st cmd s of (r, s') \<Rightarrow>
      r = Inr CDenied \<and> dispatched s' = dispatched s
      \<and> status (last (buffer (logger s'))) = Denied \<and> entry_command_id (last (buffer (logger s'))) = command_id cmd
      \<and> (persistence (logger s) \<longrightarrow> persisted (logger s') = persisted (logger s) @ [last (buffer (logger s'))])"
  using assms
  by (cases "validate_command (gate_policy ge) now cmd (client s)")
    (auto simp: gate_execute_def log_denied_def push_entry_def append_entry_def)

theorem gate_denial_is_audited_witness:
  "fst (gate_execute sample_ge (secs 5) sample_stamps (sample_cmd ''nope'') sample_gate) = Inr CDenied"
proof -
  have "\<not> uses_internal_policy_token (policy_token (sample_cmd ''nope''))"
    "fst (validate_command (gate_policy sample_ge) (secs 5) (sample_cmd ''nope'') (client sample_gate)) = Inr False"
    by code_simp+
  from gate_denial_is_audited [OF this, of sample_stamps] show ?thesis by (auto split: prod.splits)
qed

text \<open>A policy that travels through the port's DTO comes back as it was, except that the audit level
  \<open>Full\<close> becomes \<open>Basic\<close>; its sandbox is then no longer strict.\<close>

theorem policy_dto_round_trip:
  "dto_to_policy (policy_to_dto p) = p\<lparr>audit_level := if audit_level p = Full then Basic else audit_level p\<rparr>
   \<and> (audit_level p = Full \<and> sandbox_profile p = None \<longrightarrow>
        resolve_sandbox_profile p = Strict \<and> resolve_sandbox_profile (dto_to_policy (policy_to_dto p)) = Standard)"
proof -
  have "dto_to_policy (policy_to_dto p) = p\<lparr>audit_level := if audit_level p = Full then Basic else audit_level p\<rparr>"
    by (cases p; cases "audit_level p"; cases "sandbox_profile p"; cases "confirmation p";
        cases "the (sandbox_profile p)")
      (auto simp: dto_to_policy_def policy_to_dto_def)
  then show ?thesis by (simp add: resolve_sandbox_profile_def)
qed

theorem policy_dto_round_trip_witness:
  "resolve_sandbox_profile (dto_to_policy (policy_to_dto ((sample_policy True)\<lparr>audit_level := Full\<rparr>))) = Standard"
proof -
  have "audit_level ((sample_policy True)\<lparr>audit_level := Full\<rparr>) = Full
      \<and> sandbox_profile ((sample_policy True)\<lparr>audit_level := Full\<rparr>) = None" by (simp add: sample_policy_def)
  then show ?thesis using policy_dto_round_trip by blast
qed

text \<open>A workflow runs its steps in order, stops exactly at the first failure of a step that asks for it,
  and reports success exactly when every step ran and succeeded.\<close>

theorem workflow_runs_prefix:
  assumes "run_workflow ex True steps w = (Inr res, w')"
  shows "wf_steps_executed res = length (wf_step_results res) \<and> wf_steps_executed res \<le> wf_total_steps res
    \<and> map sr_name (wf_step_results res) = take (wf_steps_executed res) (map step_name steps)
    \<and> (wf_success res \<longleftrightarrow> wf_steps_executed res = length steps \<and> list_all sr_success (wf_step_results res))
    \<and> (wf_steps_executed res < length steps \<longrightarrow>
         \<not> sr_success (last (wf_step_results res)) \<and> stop_on_failure (steps ! (wf_steps_executed res - 1)))
    \<and> (\<forall>i < wf_steps_executed res - 1. sr_success (wf_step_results res ! i) \<or> \<not> stop_on_failure (steps ! i))"
proof -
  obtain rs ok w1 where r: "run_steps ex 0 steps w = (rs, ok, w1)" by (cases "run_steps ex 0 steps w") auto
  then have "res = \<lparr>wf_success = ok, wf_steps_executed = length rs, wf_total_steps = length steps, wf_step_results = rs\<rparr>"
    using assms by (simp add: run_workflow_def)
  with run_steps_results [OF r] show ?thesis by simp
qed

definition sample_steps :: "bool WorkflowStep list" where
  "sample_steps = map (\<lambda>b. \<lparr>step_name = ''s'', intent = b, delay_ms = 0, stop_on_failure = True\<rparr>) [True, False, True]"

definition sample_executor :: "(bool, unit) executor" where
  "sample_executor b w = (Inr (b, None), 1, w)"

theorem workflow_runs_prefix_witness:
  "\<exists>res. fst (run_workflow sample_executor True sample_steps ()) = Inr res \<and> wf_steps_executed res \<le> wf_total_steps res"
proof -
  let ?x = "run_workflow sample_executor True sample_steps ()"
  have "\<not> isl (fst ?x)" by code_simp
  then obtain res where "?x = (Inr res, snd ?x)" by (metis isl_def prod.collapse sum.exhaust_sel)
  from workflow_runs_prefix [OF this] this show ?thesis by (metis fst_conv)
qed

end
