(* ===== verification/CircuitBreaker.thy ===== *)
theory CircuitBreaker
  imports Prelude
begin

text \<open>
  The circuit breaker of \<open>crates/oneshim-network/src/circuit_breaker.rs\<close> and its registry. Instants and
  durations are integers counting nanoseconds, the clock reading is an argument. Every method runs
  under the breaker's lock and so is one step of the state machine.
\<close>

record CircuitBreakerConfig =
  failure_threshold :: u32
  initial_cooldown :: int
  max_cooldown :: int
  half_open_probes :: u32

definition circuit_config_default :: CircuitBreakerConfig where
  "circuit_config_default = \<lparr>failure_threshold = 3, initial_cooldown = secs 30, max_cooldown = secs 300,
     half_open_probes = 1\<rparr>"

datatype CircuitState = Closed | Open int | HalfOpen

record InnerState =
  status :: CircuitState
  consecutive_failures :: u32
  current_cooldown :: int

definition breaker_new :: "CircuitBreakerConfig \<Rightarrow> InnerState" where
  "breaker_new cfg = \<lparr>status = Closed, consecutive_failures = 0, current_cooldown = initial_cooldown cfg\<rparr>"

definition check :: "int \<Rightarrow> InnerState \<Rightarrow> CircuitState \<times> InnerState" where
  "check now s =
     (let s' = (case status s of Open until \<Rightarrow> if now \<ge> until then s\<lparr>status := HalfOpen\<rparr> else s | _ \<Rightarrow> s)
      in (status s', s'))"

definition record_success :: "CircuitBreakerConfig \<Rightarrow> InnerState \<Rightarrow> InnerState" where
  "record_success cfg s =
     s\<lparr>consecutive_failures := 0, current_cooldown := initial_cooldown cfg, status := Closed\<rparr>"

definition record_failure :: "CircuitBreakerConfig \<Rightarrow> int \<Rightarrow> InnerState \<Rightarrow> InnerState" where
  "record_failure cfg now s =
     (let s1 = s\<lparr>consecutive_failures := consecutive_failures s + 1\<rparr> in
      case status s1 of
        Closed \<Rightarrow>
          if consecutive_failures s1 \<ge> failure_threshold cfg
          then s1\<lparr>status := Open (now + current_cooldown s1)\<rparr> else s1
      | HalfOpen \<Rightarrow>
          (let c = min (current_cooldown s1 * 2) (max_cooldown cfg)
           in s1\<lparr>current_cooldown := c, status := Open (now + c)\<rparr>)
      | Open until \<Rightarrow> s1)"

definition stats_label :: "InnerState \<Rightarrow> string" where
  "stats_label s = (case status s of Closed \<Rightarrow> ''closed'' | Open _ \<Rightarrow> ''open'' | HalfOpen \<Rightarrow> ''half_open'')"

section \<open>Registry\<close>

text \<open>An \<open>Arc<CircuitBreaker>\<close> is an index into the list of breakers allocated so far, so that two
  adapters holding the handle of one endpoint share its state.\<close>

type_synonym handle = nat

record CircuitBreakerRegistry =
  inner :: "string \<rightharpoonup> handle"
  breakers :: "(CircuitBreakerConfig \<times> InnerState) list"

definition registry_new :: CircuitBreakerRegistry where
  "registry_new = \<lparr>inner = Map.empty, breakers = []\<rparr>"

definition get_with_config ::
  "string \<Rightarrow> CircuitBreakerConfig \<Rightarrow> CircuitBreakerRegistry \<Rightarrow> handle \<times> CircuitBreakerRegistry" where
  "get_with_config key cfg reg =
     (case inner reg key of
        Some h \<Rightarrow> (h, reg)
      | None \<Rightarrow> (let h = length (breakers reg) in
          (h, reg\<lparr>inner := (inner reg)(key \<mapsto> h), breakers := breakers reg @ [(cfg, breaker_new cfg)]\<rparr>)))"

definition registry_get :: "string \<Rightarrow> CircuitBreakerRegistry \<Rightarrow> handle \<times> CircuitBreakerRegistry" where
  "registry_get key reg = get_with_config key circuit_config_default reg"

section \<open>Runs\<close>

datatype cb_event = Check int | SuccessSeen | FailureSeen int

fun cb_apply :: "CircuitBreakerConfig \<Rightarrow> cb_event \<Rightarrow> InnerState \<Rightarrow> InnerState" where
  "cb_apply cfg (Check now) s = snd (check now s)"
| "cb_apply cfg SuccessSeen s = record_success cfg s"
| "cb_apply cfg (FailureSeen now) s = record_failure cfg now s"

inductive cb_reachable :: "CircuitBreakerConfig \<Rightarrow> cb_event list \<Rightarrow> InnerState \<Rightarrow> bool" for cfg where
  start: "cb_reachable cfg [] (breaker_new cfg)"
| step: "cb_reachable cfg evs s \<Longrightarrow> cb_reachable cfg (evs @ [e]) (cb_apply cfg e s)"

inductive_cases cb_reachable_NilE: "cb_reachable cfg [] s"

lemma cb_reachable_fold: "cb_reachable cfg evs (fold (cb_apply cfg) evs (breaker_new cfg))"
  by (induction evs rule: rev_induct) (auto intro: cb_reachable.intros)

lemma cb_reachable_iff: "cb_reachable cfg evs s \<longleftrightarrow> s = fold (cb_apply cfg) evs (breaker_new cfg)"
proof
  show "cb_reachable cfg evs s \<Longrightarrow> s = fold (cb_apply cfg) evs (breaker_new cfg)"
    by (induction rule: cb_reachable.induct) auto
qed (simp add: cb_reachable_fold)

text \<open>The failures recorded since the last success, on the run alone.\<close>

definition failures_since_success :: "cb_event list \<Rightarrow> nat" where
  "failures_since_success evs =
     length (filter (\<lambda>e. e \<noteq> SuccessSeen \<and> (\<forall>now. e \<noteq> Check now)) (takeWhile (\<lambda>e. e \<noteq> SuccessSeen) (rev evs)))"

lemma failures_since_success_simps [simp]:
  "failures_since_success [] = 0"
  "failures_since_success (evs @ [SuccessSeen]) = 0"
  "failures_since_success (evs @ [Check now]) = failures_since_success evs"
  "failures_since_success (evs @ [FailureSeen now]) = failures_since_success evs + 1"
  by (simp_all add: failures_since_success_def)

text \<open>The invariant: the counter counts the failures since the last success, a closed breaker has not
  reached its threshold, a breaker that is not closed has, and the cooldown is the initial one doubled
  some number of times, up to the maximum.\<close>

definition backoff :: "CircuitBreakerConfig \<Rightarrow> nat \<Rightarrow> int" where
  "backoff cfg k = (if k = 0 then initial_cooldown cfg else min (initial_cooldown cfg * 2 ^ k) (max_cooldown cfg))"

definition breaker_inv :: "CircuitBreakerConfig \<Rightarrow> cb_event list \<Rightarrow> InnerState \<Rightarrow> bool" where
  "breaker_inv cfg evs s \<longleftrightarrow>
     consecutive_failures s = of_nat (failures_since_success evs)
     \<and> (status s = Closed \<longrightarrow> failures_since_success evs < unat (failure_threshold cfg) \<or> failures_since_success evs = 0)
     \<and> (status s \<noteq> Closed \<longrightarrow> unat (failure_threshold cfg) \<le> failures_since_success evs \<and> 0 < failures_since_success evs)
     \<and> (\<exists>k. current_cooldown s = backoff cfg k)"

lemma backoff_double:
  assumes "0 \<le> initial_cooldown cfg" "0 \<le> max_cooldown cfg"
  shows "min (backoff cfg k * 2) (max_cooldown cfg) = backoff cfg (Suc k)"
proof (cases "k = 0")
  case False
  have "min (min a m * 2) m = min (a * 2) m" if "0 \<le> m" for a m :: int using that by (simp add: min_def)
  from this [OF assms(2)] False show ?thesis by (simp add: backoff_def mult.commute mult.left_commute)
qed (simp add: backoff_def)

lemma unat_succ:
  assumes "n + 1 < 2 ^ 32"
  shows "unat ((of_nat n :: u32) + 1) = n + 1"
proof -
  have "unat (of_nat (n + 1) :: u32) = n + 1"
    using assms by (simp add: unsigned_of_nat take_bit_nat_eq_self del: of_nat_add of_nat_Suc)
  then show ?thesis by (simp add: add.commute)
qed

lemma threshold_word:
  assumes "n < unat (t :: u32) \<or> n = 0"
  shows "t \<le> (of_nat n :: u32) + 1 \<longleftrightarrow> unat t \<le> n + 1"
proof -
  have "unat t < 2 ^ LENGTH(32)" by (rule unsigned_less)
  then have "n + 1 < 2 ^ 32" using assms by auto
  then show ?thesis by (simp add: word_le_nat_alt unat_succ)
qed

lemma breaker_inv_check: "breaker_inv cfg evs s \<Longrightarrow> breaker_inv cfg (evs @ [Check now]) (snd (check now s))"
  by (auto simp: breaker_inv_def check_def split: CircuitState.splits)

lemma breaker_inv_success: "breaker_inv cfg (evs @ [SuccessSeen]) (record_success cfg s)"
  by (auto simp: breaker_inv_def record_success_def backoff_def intro: exI [of _ 0])

lemma breaker_inv_failure:
  assumes "0 \<le> initial_cooldown cfg" "0 \<le> max_cooldown cfg" and inv: "breaker_inv cfg evs s"
  shows "breaker_inv cfg (evs @ [FailureSeen now]) (record_failure cfg now s)"
proof -
  obtain k where k: "current_cooldown s = backoff cfg k" using inv by (auto simp: breaker_inv_def)
  show ?thesis
  proof (cases "status s")
    case Closed
    then have "failures_since_success evs < unat (failure_threshold cfg) \<or> failures_since_success evs = 0"
      using inv by (simp add: breaker_inv_def)
    from threshold_word [OF this] Closed inv show ?thesis
      by (auto simp: breaker_inv_def record_failure_def Let_def add.commute)
  next
    case (Open u)
    then show ?thesis using inv by (auto simp: breaker_inv_def record_failure_def add.commute)
  next
    case HalfOpen
    then show ?thesis using inv k backoff_double [OF assms(1,2), of k]
      by (auto simp: breaker_inv_def record_failure_def Let_def add.commute)
  qed
qed

lemma breaker_inv_reachable:
  assumes "0 \<le> initial_cooldown cfg" "0 \<le> max_cooldown cfg" "cb_reachable cfg evs s"
  shows "breaker_inv cfg evs s"
  using assms(3)
proof (induction rule: cb_reachable.induct)
  case start
  show ?case by (auto simp: breaker_inv_def breaker_new_def backoff_def intro: exI [of _ 0])
next
  case (step evs s e)
  then show ?case
    by (cases e) (simp_all add: breaker_inv_check breaker_inv_success breaker_inv_failure assms(1,2))
qed

lemma open_stays:
  assumes "status s = Open until" "SuccessSeen \<notin> set evs" "\<forall>t. Check t \<in> set evs \<longrightarrow> t < until"
  shows "status (fold (cb_apply cfg) evs s) = Open until"
  using assms
proof (induction evs arbitrary: s)
  case (Cons e evs)
  have "status (cb_apply cfg e s) = Open until"
    using Cons.prems by (cases e) (auto simp: check_def record_failure_def)
  with Cons.IH [of "cb_apply cfg e s"] Cons.prems show ?case by simp
qed simp

text \<open>Handles: every one stored points at an allocated breaker, and no two keys share one.\<close>

definition registry_ok :: "CircuitBreakerRegistry \<Rightarrow> bool" where
  "registry_ok reg \<longleftrightarrow> (\<forall>k h. inner reg k = Some h \<longrightarrow> h < length (breakers reg))
     \<and> (\<forall>k k' h. inner reg k = Some h \<longrightarrow> inner reg k' = Some h \<longrightarrow> k = k')"

definition on_handle ::
  "handle \<Rightarrow> cb_event \<Rightarrow> CircuitBreakerRegistry \<Rightarrow> CircuitBreakerRegistry" where
  "on_handle h e reg =
     (if h < length (breakers reg)
      then reg\<lparr>breakers := (breakers reg)[h := (fst (breakers reg ! h), cb_apply (fst (breakers reg ! h)) e (snd (breakers reg ! h)))]\<rparr>
      else reg)"

lemma registry_ok_new: "registry_ok registry_new"
  by (simp add: registry_ok_def registry_new_def)

lemma registry_ok_get:
  assumes "registry_ok reg" "get_with_config key cfg reg = (h, reg')"
  shows "registry_ok reg'" "inner reg' key = Some h"
proof -
  show "inner reg' key = Some h" using assms(2) by (auto simp: get_with_config_def Let_def split: option.splits)
  show "registry_ok reg'"
  proof (cases "inner reg key")
    case None
    then have "reg' = reg\<lparr>inner := (inner reg)(key \<mapsto> length (breakers reg)),
        breakers := breakers reg @ [(cfg, breaker_new cfg)]\<rparr>"
      using assms(2) by (auto simp: get_with_config_def Let_def)
    then show ?thesis using assms(1) unfolding registry_ok_def by (auto simp: less_Suc_eq)
  next
    case (Some h')
    then show ?thesis using assms by (simp add: get_with_config_def)
  qed
qed

lemma registry_ok_on_handle: "registry_ok reg \<Longrightarrow> registry_ok (on_handle h e reg)"
  by (simp add: registry_ok_def on_handle_def)

text \<open>In every state the breaker can be in, after any sequence of checks, successes and failures,
  it is closed exactly when the failures recorded since the last success are fewer than the threshold
  (a threshold of zero counts as one), its counter is that number of failures at its 32-bit width, and
  its cooldown is the initial one or the initial one doubled a number of times and cut at the maximum.\<close>

theorem circuit_opens_at_threshold:
  assumes "0 \<le> initial_cooldown cfg" "0 \<le> max_cooldown cfg" "cb_reachable cfg evs s"
  shows "(status s = Closed \<longleftrightarrow> failures_since_success evs < max 1 (unat (failure_threshold cfg)))
    \<and> consecutive_failures s = of_nat (failures_since_success evs)
    \<and> (current_cooldown s = initial_cooldown cfg
       \<or> (\<exists>k. current_cooldown s = min (initial_cooldown cfg * 2 ^ k) (max_cooldown cfg)))"
proof -
  have inv: "breaker_inv cfg evs s" by (rule breaker_inv_reachable [OF assms])
  then obtain k where "current_cooldown s = backoff cfg k" by (auto simp: breaker_inv_def)
  then have "current_cooldown s = initial_cooldown cfg
      \<or> (\<exists>k. current_cooldown s = min (initial_cooldown cfg * 2 ^ k) (max_cooldown cfg))"
    by (auto simp: backoff_def)
  moreover have "status s = Closed \<longleftrightarrow> failures_since_success evs < max 1 (unat (failure_threshold cfg))"
    using inv by (cases "status s = Closed") (auto simp: breaker_inv_def)
  ultimately show ?thesis using inv by (simp add: breaker_inv_def)
qed

definition three_failures :: "cb_event list" where
  "three_failures = [FailureSeen 1, FailureSeen 2, Check 3, FailureSeen 4]"

lemma three_failures_state:
  "fold (cb_apply circuit_config_default) three_failures (breaker_new circuit_config_default)
   = \<lparr>status = Open (4 + secs 30), consecutive_failures = 3, current_cooldown = secs 30\<rparr>"
  by (simp add: three_failures_def breaker_new_def record_failure_def check_def circuit_config_default_def
      secs_def nanos_per_sec_def word_le_def)

theorem circuit_opens_at_threshold_witness:
  "failures_since_success three_failures = 3
   \<and> status (fold (cb_apply circuit_config_default) three_failures (breaker_new circuit_config_default)) \<noteq> Closed"
proof -
  have three: "failures_since_success three_failures = 3"
    by (simp add: three_failures_def failures_since_success_def)
  have "0 \<le> initial_cooldown circuit_config_default" "0 \<le> max_cooldown circuit_config_default"
    by (simp_all add: circuit_config_default_def secs_def nanos_per_sec_def)
  from circuit_opens_at_threshold [OF this cb_reachable_fold [of _ three_failures]] three
  show ?thesis by (simp add: circuit_config_default_def)
qed

text \<open>An open breaker lets nothing through before its deadline: whatever failures are reported and
  however often it is asked, at times before the deadline, it stays open with the same deadline. Asked at or
  after the deadline it is half open; a success then closes it with the initial cooldown, and a failure
  opens it again for twice the last cooldown, cut at the maximum.\<close>

theorem circuit_open_until_cooldown:
  fixes cfg :: CircuitBreakerConfig
  assumes "status s = Open until" "SuccessSeen \<notin> set evs" "\<forall>t. Check t \<in> set evs \<longrightarrow> t < until"
  defines "s' \<equiv> fold (cb_apply cfg) evs s"
  shows "status s' = Open until
    \<and> (\<forall>now < until. fst (check now s') = Open until)
    \<and> (\<forall>now \<ge> until. fst (check now s') = HalfOpen
         \<and> record_success cfg (snd (check now s')) = breaker_new cfg
         \<and> (\<forall>t. status (record_failure cfg t (snd (check now s')))
              = Open (t + min (current_cooldown s' * 2) (max_cooldown cfg))))"
proof -
  have o: "status s' = Open until" unfolding s'_def by (rule open_stays [OF assms(1-3)])
  then show ?thesis
    by (simp add: check_def record_failure_def record_success_def breaker_new_def Let_def)
qed

definition probe_failed :: InnerState where
  "probe_failed = record_failure circuit_config_default 4
     \<lparr>status = HalfOpen, consecutive_failures = 3, current_cooldown = secs 30\<rparr>"

theorem circuit_open_until_cooldown_witness:
  "status probe_failed = Open (4 + secs 60)
   \<and> fst (check (secs 60) (fold (cb_apply circuit_config_default) [FailureSeen 20, Check 30] probe_failed))
     = Open (4 + secs 60)"
proof -
  have o: "status probe_failed = Open (4 + secs 60)"
    by (simp add: probe_failed_def record_failure_def circuit_config_default_def secs_def nanos_per_sec_def Let_def)
  from circuit_open_until_cooldown [OF o, of "[FailureSeen 20, Check 30]" circuit_config_default]
  have "\<forall>now < 4 + secs 60. fst (check now (fold (cb_apply circuit_config_default) [FailureSeen 20, Check 30] probe_failed))
     = Open (4 + secs 60)" by (simp add: secs_def nanos_per_sec_def)
  with o show ?thesis by simp
qed

text \<open>Events reported through handles.\<close>

abbreviation run_handles :: "(handle \<times> cb_event) list \<Rightarrow> CircuitBreakerRegistry \<Rightarrow> CircuitBreakerRegistry" where
  "run_handles \<equiv> fold (\<lambda>(h, e). on_handle h e)"

lemma run_handles_inner: "inner (run_handles evs reg) = inner reg"
  by (induction evs arbitrary: reg) (auto simp: on_handle_def)

lemma run_handles_ok: "registry_ok reg \<Longrightarrow> registry_ok (run_handles evs reg)"
  by (induction evs arbitrary: reg) (auto simp: registry_ok_on_handle)

text \<open>Two adapters that ask the registry for one endpoint hold one breaker: the second request
  returns the first handle, ignores its own configuration and allocates nothing, whatever happened on
  the breakers in between. Adapters of different endpoints hold different breakers, so that nothing reported for
  one changes the other.\<close>

theorem registry_shares_per_endpoint:
  assumes ok: "registry_ok reg" and first: "get_with_config key cfg reg = (h, reg1)"
  shows "(let reg2 = run_handles evs reg1 in
      get_with_config key cfg2 reg2 = (h, reg2)
      \<and> (\<forall>key2 h2 reg3. get_with_config key2 cfg2 reg2 = (h2, reg3) \<longrightarrow> key2 \<noteq> key \<longrightarrow>
           h2 \<noteq> h \<and> (\<forall>e. breakers (on_handle h2 e reg3) ! h = breakers reg2 ! h)))"
proof -
  define reg2 where "reg2 = run_handles evs reg1"
  have ok2: "registry_ok reg2" and in2: "inner reg2 key = Some h"
    using registry_ok_get [OF ok first] by (simp_all add: reg2_def run_handles_ok run_handles_inner)
  have lt: "h < length (breakers reg2)" using ok2 in2 by (auto simp: registry_ok_def)
  have other: "h2 \<noteq> h \<and> (\<forall>e. breakers (on_handle h2 e reg3) ! h = breakers reg2 ! h)"
    if g: "get_with_config key2 cfg2 reg2 = (h2, reg3)" and ne: "key2 \<noteq> key" for key2 h2 reg3
  proof -
    have "inner reg3 key = Some h" and b: "breakers reg3 ! h = breakers reg2 ! h"
      using g ne in2 lt by (auto simp: get_with_config_def Let_def nth_append split: option.splits)
    with registry_ok_get [OF ok2 g] ne have "h2 \<noteq> h" by (auto simp: registry_ok_def)
    with b show ?thesis by (simp add: on_handle_def)
  qed
  have "get_with_config key cfg2 reg2 = (h, reg2)" using in2 by (simp add: get_with_config_def)
  with other show ?thesis unfolding Let_def reg2_def [symmetric] by blast
qed

definition sample_registry :: CircuitBreakerRegistry where
  "sample_registry = run_handles [(0, FailureSeen 1), (0, FailureSeen 2), (0, FailureSeen 3)]
     (snd (registry_get ''https://a:443'' registry_new))"

theorem registry_shares_per_endpoint_witness:
  "registry_get ''https://a:443'' sample_registry = (0, sample_registry)
   \<and> status (snd (breakers sample_registry ! 0)) = Open (3 + secs 30)"
proof -
  have first: "get_with_config ''https://a:443'' circuit_config_default registry_new
      = (0, snd (registry_get ''https://a:443'' registry_new))"
    by (simp add: get_with_config_def registry_get_def registry_new_def)
  have "registry_get ''https://a:443'' sample_registry = (0, sample_registry)"
    using registry_shares_per_endpoint [OF registry_ok_new first, of "[(0, FailureSeen 1), (0, FailureSeen 2), (0, FailureSeen 3)]" circuit_config_default]
    unfolding sample_registry_def [symmetric] Let_def registry_get_def [of _ sample_registry] by blast
  moreover have "status (snd (breakers sample_registry ! 0)) = Open (3 + secs 30)"
    by (simp add: sample_registry_def registry_get_def get_with_config_def registry_new_def on_handle_def
        breaker_new_def record_failure_def circuit_config_default_def Let_def word_le_def)
  ultimately show ?thesis ..
qed

end
