(* ===== verification/SuggestionQueue.thy ===== *)
theory SuggestionQueue
  imports Complex_Main ByteString
begin

text \<open>
  The suggestion model of \<open>crates/oneshim-core/src/models/suggestion.rs\<close> and the priority queue of
  \<open>crates/oneshim-suggestion/src/queue.rs\<close>. A \<open>BTreeSet\<close> is the list of its elements in the order of
  \<open>Ord::cmp\<close>. Slicing a string inside a character panics in Rust, here \<open>None\<close>. Two things the queue takes
  from the standard library are arguments, in a record: the Unicode case tables behind \<open>to_lowercase\<close> and the
  (unspecified) algorithm of \<open>DefaultHasher\<close>.
\<close>

section \<open>Suggestions\<close>

datatype SuggestionSource = RuleBased | LlmLocal | LlmServer

definition as_sql_str :: "SuggestionSource \<Rightarrow> string" where
  "as_sql_str s = (case s of LlmServer \<Rightarrow> ''LLM_SERVER'' | RuleBased \<Rightarrow> ''RULE_BASED'' | LlmLocal \<Rightarrow> ''LLM_LOCAL'')"

datatype SuggestionType = WorkGuidance | EmailDraft | ProductivityTip | WorkflowOptimization | ContextBased

datatype Priority = Low | Medium | High | Critical

text \<open>The order derived for \<open>Priority\<close> is that of its variants.\<close>

definition rank :: "Priority \<Rightarrow> nat" where
  "rank p = (case p of Low \<Rightarrow> 0 | Medium \<Rightarrow> 1 | High \<Rightarrow> 2 | Critical \<Rightarrow> 3)"

instantiation Priority :: linorder
begin

definition less_eq_Priority :: "Priority \<Rightarrow> Priority \<Rightarrow> bool" where
  "less_eq_Priority p q \<longleftrightarrow> rank p \<le> rank q"

definition less_Priority :: "Priority \<Rightarrow> Priority \<Rightarrow> bool" where
  "less_Priority p q \<longleftrightarrow> rank p < rank q"

instance
  by standard (auto simp: less_eq_Priority_def less_Priority_def rank_def split: Priority.splits)

end

record Suggestion =
  suggestion_id :: string
  suggestion_type :: SuggestionType
  content :: string
  priority :: Priority
  confidence_score :: real
  relevance_score :: real
  is_actionable :: bool
  created_at :: time
  expires_at :: "time option"
  source :: SuggestionSource
  reasoning :: "string option"

datatype FeedbackType = Accepted | Rejected | Deferred

section \<open>Order\<close>

datatype ordering = Less | Equal | Greater

definition cmp :: "'a :: linorder \<Rightarrow> 'a \<Rightarrow> ordering" where
  "cmp a b = (if a < b then Less else if a = b then Equal else Greater)"

fun then_with :: "ordering \<Rightarrow> ordering \<Rightarrow> ordering" where
  "then_with Equal o2 = o2"
| "then_with o1 o2 = o1"

definition ps_cmp :: "Suggestion \<Rightarrow> Suggestion \<Rightarrow> ordering" where
  "ps_cmp self other =
     then_with (then_with (cmp (priority other) (priority self)) (cmp (created_at other) (created_at self)))
       (cmp (suggestion_id self) (suggestion_id other))"

text \<open>What the comparison compares, as one key: higher priority first, then newer, then the smaller id.\<close>

datatype qkey = QKey (qprio: Priority) (qtime: time) (qid: string)

instantiation qkey :: linorder
begin

definition less_qkey :: "qkey \<Rightarrow> qkey \<Rightarrow> bool" where
  "less_qkey a b \<longleftrightarrow> qprio b < qprio a \<or> qprio a = qprio b \<and> (qtime b < qtime a \<or> qtime a = qtime b \<and> qid a < qid b)"

definition less_eq_qkey :: "qkey \<Rightarrow> qkey \<Rightarrow> bool" where
  "less_eq_qkey a b \<longleftrightarrow> a < b \<or> a = b"

instance
proof
  fix x y z :: qkey
  show "x < y \<longleftrightarrow> x \<le> y \<and> \<not> y \<le> x"
    unfolding less_eq_qkey_def less_qkey_def by (cases x; cases y) auto
  show "x \<le> x" by (simp add: less_eq_qkey_def)
  show "x \<le> y \<Longrightarrow> y \<le> z \<Longrightarrow> x \<le> z"
    unfolding less_eq_qkey_def less_qkey_def by auto
  show "x \<le> y \<Longrightarrow> y \<le> x \<Longrightarrow> x = y"
    unfolding less_eq_qkey_def less_qkey_def by auto
  show "x \<le> y \<or> y \<le> x"
    unfolding less_eq_qkey_def less_qkey_def by (cases x; cases y) auto
qed

end

definition key :: "Suggestion \<Rightarrow> qkey" where
  "key s = QKey (priority s) (created_at s) (suggestion_id s)"

lemma ps_cmp_key: "ps_cmp a b = cmp (key a) (key b)"
  by (auto simp: ps_cmp_def cmp_def key_def less_qkey_def)

section \<open>Ordered sets\<close>

text \<open>\<open>BTreeSet::insert\<close> leaves the set alone when an equal element is there.\<close>

fun btree_insert :: "Suggestion \<Rightarrow> Suggestion list \<Rightarrow> bool \<times> Suggestion list" where
  "btree_insert x [] = (True, [x])"
| "btree_insert x (y # ys) =
     (case ps_cmp x y of
        Less \<Rightarrow> (True, x # y # ys)
      | Equal \<Rightarrow> (False, y # ys)
      | Greater \<Rightarrow> (let r = btree_insert x ys in (fst r, y # snd r)))"

fun btree_remove :: "Suggestion \<Rightarrow> Suggestion list \<Rightarrow> Suggestion list" where
  "btree_remove x [] = []"
| "btree_remove x (y # ys) = (if ps_cmp x y = Equal then ys else y # btree_remove x ys)"

abbreviation ordered :: "Suggestion list \<Rightarrow> bool" where
  "ordered xs \<equiv> sorted_wrt (\<lambda>a b. key a < key b) xs"

lemma btree_insert_eq:
  "ordered xs \<Longrightarrow> btree_insert x xs = (if key x \<in> key ` set xs then (False, xs) else (True, insort_key key x xs))"
proof (induction xs)
  case (Cons y ys)
  show ?case
  proof (cases "key x < key y")
    case True
    then have "key x \<notin> key ` set (y # ys)" using Cons.prems by fastforce
    with True show ?thesis by (simp add: ps_cmp_key cmp_def less_imp_le)
  next
    case False
    then show ?thesis using Cons by (auto simp: ps_cmp_key cmp_def Let_def)
  qed
qed simp

lemma btree_remove_eq: "ordered xs \<Longrightarrow> x \<in> set xs \<Longrightarrow> btree_remove x xs = filter (\<lambda>y. y \<noteq> x) xs"
proof (induction xs)
  case (Cons y ys)
  then show ?case
    by (cases "x = y") (auto simp: ps_cmp_key cmp_def intro!: filter_True [symmetric] split: if_splits)
qed simp

lemma ordered_insort: "ordered xs \<Longrightarrow> key x \<notin> key ` set xs \<Longrightarrow> ordered (insort_key key x xs)"
  by (induction xs) (auto simp: set_insort_key)

lemma ordered_distinct: "ordered xs \<Longrightarrow> distinct xs"
  by (induction xs) auto

lemma ordered_filter: "ordered xs \<Longrightarrow> ordered (filter P xs)"
  by (rule sorted_wrt_filter)

section \<open>Fingerprints\<close>

record text_env =
  lower :: "string \<Rightarrow> string"
  hash :: "SuggestionType \<Rightarrow> string \<Rightarrow> u64"

definition normalized :: "text_env \<Rightarrow> Suggestion \<Rightarrow> string" where
  "normalized env s = join_with CHR '' '' (split_whitespace (lower env (content s)))"

definition content_fingerprint :: "text_env \<Rightarrow> Suggestion \<Rightarrow> u64 option" where
  "content_fingerprint env s =
     (let n = normalized env s
      in map_option (hash env (suggestion_type s)) (slice_to (min (length n) 200) n))"

lemma content_fingerprint_None:
  "content_fingerprint env s = None
   \<longleftrightarrow> 200 < length (normalized env s) \<and> continuation_byte (normalized env s ! 200)"
  by (auto simp: content_fingerprint_def slice_to_def Let_def min_def)

section \<open>Queue\<close>

record SuggestionQueue =
  items :: "Suggestion list"
  fingerprints :: "u64 set"
  max_size :: nat

definition queue_new :: "nat \<Rightarrow> SuggestionQueue" where
  "queue_new n = \<lparr>items = [], fingerprints = {}, max_size = n\<rparr>"

definition insert_item :: "u64 \<Rightarrow> Suggestion \<Rightarrow> SuggestionQueue \<Rightarrow> bool \<times> SuggestionQueue" where
  "insert_item fp s q =
     (let r = btree_insert s (items q)
      in (fst r, q\<lparr>fingerprints := insert fp (fingerprints q), items := snd r\<rparr>))"

text \<open>Removal of an element with its fingerprint, as the eviction, \<open>pop\<close> and \<open>remove_by_id\<close> do it.\<close>

definition remove_item :: "text_env \<Rightarrow> Suggestion \<Rightarrow> SuggestionQueue \<Rightarrow> SuggestionQueue option" where
  "remove_item env s q =
     map_option (\<lambda>fp. q\<lparr>items := btree_remove s (items q), fingerprints := fingerprints q - {fp}\<rparr>)
       (content_fingerprint env s)"

definition push :: "text_env \<Rightarrow> Suggestion \<Rightarrow> SuggestionQueue \<Rightarrow> (bool \<times> SuggestionQueue) option" where
  "push env s q =
     (case content_fingerprint env s of
        None \<Rightarrow> None
      | Some fp \<Rightarrow>
          if fp \<in> fingerprints q then Some (False, q)
          else if length (items q) \<ge> max_size q \<and> items q \<noteq> [] then
            (if ps_cmp s (last (items q)) = Less
             then map_option (insert_item fp s) (remove_item env (last (items q)) q)
             else Some (False, q))
          else Some (insert_item fp s q))"

definition pop :: "text_env \<Rightarrow> SuggestionQueue \<Rightarrow> (Suggestion option \<times> SuggestionQueue) option" where
  "pop env q =
     (case items q of
        [] \<Rightarrow> Some (None, q)
      | s # _ \<Rightarrow> map_option (\<lambda>q'. (Some s, q')) (remove_item env s q))"

definition peek :: "SuggestionQueue \<Rightarrow> Suggestion option" where
  "peek q = (case items q of [] \<Rightarrow> None | s # _ \<Rightarrow> Some s)"

definition remove_by_id ::
  "text_env \<Rightarrow> string \<Rightarrow> SuggestionQueue \<Rightarrow> (Suggestion option \<times> SuggestionQueue) option" where
  "remove_by_id env sid q =
     (case find (\<lambda>s. suggestion_id s = sid) (items q) of
        Some s \<Rightarrow> map_option (\<lambda>q'. (Some s, q')) (remove_item env s q)
      | None \<Rightarrow> Some (None, q))"

definition clear :: "SuggestionQueue \<Rightarrow> SuggestionQueue" where
  "clear q = q\<lparr>items := [], fingerprints := {}\<rparr>"

definition expired :: "time \<Rightarrow> Suggestion \<Rightarrow> bool" where
  "expired now s = (case expires_at s of None \<Rightarrow> False | Some e \<Rightarrow> e \<le> now)"

fun collect_fps :: "text_env \<Rightarrow> Suggestion list \<Rightarrow> u64 list option" where
  "collect_fps env [] = Some []"
| "collect_fps env (s # ss) =
     (case content_fingerprint env s of
        None \<Rightarrow> None
      | Some fp \<Rightarrow> map_option ((#) fp) (collect_fps env ss))"

definition remove_expired :: "text_env \<Rightarrow> time \<Rightarrow> SuggestionQueue \<Rightarrow> (nat \<times> SuggestionQueue) option" where
  "remove_expired env now q =
     map_option (\<lambda>fps.
         let kept = filter (\<lambda>s. case expires_at s of None \<Rightarrow> True | Some e \<Rightarrow> e > now) (items q)
         in (length (items q) - length kept,
             q\<lparr>fingerprints := fold (\<lambda>fp F. F - {fp}) fps (fingerprints q), items := kept\<rparr>))
       (collect_fps env (filter (expired now) (items q)))"

section \<open>Invariant\<close>

text \<open>The items are ordered and within the capacity (a queue of capacity zero still takes one), and each has
  a fingerprint of its own in the set, so no two hold the same content.\<close>

definition fp_of :: "text_env \<Rightarrow> Suggestion \<Rightarrow> u64" where
  "fp_of env s = the (content_fingerprint env s)"

definition queue_inv :: "text_env \<Rightarrow> SuggestionQueue \<Rightarrow> bool" where
  "queue_inv env q \<longleftrightarrow>
     ordered (items q) \<and> length (items q) \<le> max 1 (max_size q)
     \<and> (\<forall>s \<in> set (items q). content_fingerprint env s \<noteq> None \<and> fp_of env s \<in> fingerprints q)
     \<and> inj_on (fp_of env) (set (items q))"

lemma queue_inv_new: "queue_inv env (queue_new n)"
  by (simp add: queue_inv_def queue_new_def)

lemma queue_inv_clear: "queue_inv env q \<Longrightarrow> queue_inv env (clear q)"
  by (simp add: queue_inv_def clear_def)

text \<open>Keeping some of the items, and a set of fingerprints that still has theirs, keeps the invariant.\<close>

lemma queue_inv_filter:
  assumes "queue_inv env q" "\<forall>s \<in> set (filter P (items q)). fp_of env s \<in> F"
  shows "queue_inv env (q\<lparr>items := filter P (items q), fingerprints := F\<rparr>)"
proof -
  have "length (filter P (items q)) \<le> max 1 (max_size q)"
    using assms(1) le_trans [OF length_filter_le] unfolding queue_inv_def by blast
  then show ?thesis using assms
    by (auto simp: queue_inv_def ordered_filter intro: inj_on_subset)
qed

lemma remove_item_eq:
  assumes "queue_inv env q" "s \<in> set (items q)"
  shows "remove_item env s q
    = Some (q\<lparr>items := filter (\<lambda>x. x \<noteq> s) (items q), fingerprints := fingerprints q - {fp_of env s}\<rparr>)"
  using assms by (auto simp: remove_item_def queue_inv_def btree_remove_eq fp_of_def)

lemma queue_inv_remove_item:
  assumes "queue_inv env q" "s \<in> set (items q)"
  shows "queue_inv env (q\<lparr>items := filter (\<lambda>x. x \<noteq> s) (items q), fingerprints := fingerprints q - {fp_of env s}\<rparr>)"
  using assms by (intro queue_inv_filter) (auto simp: queue_inv_def dest: inj_onD)

lemma queue_inv_insert_item:
  assumes "queue_inv env q" "content_fingerprint env s = Some fp" "fp \<notin> fingerprints q"
    and "length (items q) < max 1 (max_size q)"
  shows "queue_inv env (snd (insert_item fp s q))"
proof (cases "key s \<in> key ` set (items q)")
  case True
  with assms show ?thesis by (auto simp: queue_inv_def insert_item_def btree_insert_eq)
next
  case False
  have fp: "fp_of env s = fp" using assms(2) by (simp add: fp_of_def)
  have "fp_of env s \<notin> fp_of env ` (set (items q) - {s})" using assms(1,3) fp by (auto simp: queue_inv_def)
  then have "inj_on (fp_of env) (insert s (set (items q)))"
    using assms(1) by (auto simp: queue_inv_def inj_on_insert)
  with False assms fp show ?thesis
    by (auto simp: queue_inv_def insert_item_def btree_insert_eq ordered_insort set_insort_key)
qed

lemma ordered_butlast: "ordered xs \<Longrightarrow> xs \<noteq> [] \<Longrightarrow> filter (\<lambda>x. x \<noteq> last xs) xs = butlast xs"
  by (induction xs rule: rev_induct) (auto simp: sorted_wrt_append filter_id_conv)

lemma last_in_items: "items q \<noteq> [] \<Longrightarrow> last (items q) \<in> set (items q)"
  by simp

definition evict_last :: "text_env \<Rightarrow> SuggestionQueue \<Rightarrow> SuggestionQueue" where
  "evict_last env q = q\<lparr>items := butlast (items q), fingerprints := fingerprints q - {fp_of env (last (items q))}\<rparr>"

text \<open>Every branch of \<open>push\<close> on a queue that satisfies the invariant.\<close>

lemma push_cases:
  assumes inv: "queue_inv env q"
  shows "push env s q =
    (case content_fingerprint env s of
       None \<Rightarrow> None
     | Some fp \<Rightarrow> Some (
         if fp \<in> fingerprints q then (False, q)
         else if length (items q) < max 1 (max_size q) then insert_item fp s q
         else if key s < key (last (items q)) then insert_item fp s (evict_last env q)
         else (False, q)))"
proof -
  have evict: "remove_item env (last (items q)) q = Some (evict_last env q)" if "items q \<noteq> []"
    using that inv remove_item_eq [OF inv last_in_items [OF that]]
    by (simp add: evict_last_def ordered_butlast queue_inv_def)
  have room: "length (items q) < max 1 (max_size q) \<longleftrightarrow> \<not> (length (items q) \<ge> max_size q \<and> items q \<noteq> [])"
    by (cases "items q") (auto simp: max_def)
  show ?thesis unfolding push_def room
    by (auto simp: evict ps_cmp_key cmp_def split: option.splits)
qed

lemma queue_inv_evict:
  assumes "queue_inv env q" "items q \<noteq> []"
  shows "queue_inv env (evict_last env q)"
  using queue_inv_remove_item [OF assms(1) last_in_items [OF assms(2)]] assms
  by (simp add: evict_last_def queue_inv_def [of env q] ordered_butlast)

lemma queue_inv_push:
  assumes inv: "queue_inv env q" and "push env s q = Some (b, q')"
  shows "queue_inv env q'"
proof -
  obtain fp where fp: "content_fingerprint env s = Some fp"
    using assms by (auto simp: push_def split: option.splits)
  have le: "length (items q) \<le> max 1 (max_size q)" using inv by (simp add: queue_inv_def)
  have ev: "queue_inv env (snd (insert_item fp s (evict_last env q)))"
    if "fp \<notin> fingerprints q" "\<not> length (items q) < max 1 (max_size q)"
  proof -
    have ne: "items q \<noteq> []" using that(2) by auto
    have "length (items (evict_last env q)) < max 1 (max_size (evict_last env q))"
      using ne le by (cases "items q") (auto simp: evict_last_def)
    then show ?thesis using that(1) by (intro queue_inv_insert_item [OF queue_inv_evict [OF inv ne] fp])
        (simp_all add: evict_last_def)
  qed
  have "queue_inv env (snd (insert_item fp s q))"
    if "fp \<notin> fingerprints q" "length (items q) < max 1 (max_size q)"
    using that by (rule queue_inv_insert_item [OF inv fp])
  with ev inv assms(2) show ?thesis
    unfolding push_cases [OF inv] fp by (auto split: if_splits)
qed

lemma queue_inv_removed:
  assumes "queue_inv env q" "s \<in> set (items q)" "remove_item env s q = Some q'"
  shows "queue_inv env q'"
  using queue_inv_remove_item [OF assms(1,2)] assms(3) by (simp add: remove_item_eq [OF assms(1,2)])

lemma queue_inv_pop: "queue_inv env q \<Longrightarrow> pop env q = Some (r, q') \<Longrightarrow> queue_inv env q'"
  by (auto simp: pop_def split: list.splits intro: queue_inv_removed)

lemma queue_inv_remove_by_id: "queue_inv env q \<Longrightarrow> remove_by_id env sid q = Some (r, q') \<Longrightarrow> queue_inv env q'"
  by (cases "find (\<lambda>s. suggestion_id s = sid) (items q)")
    (auto simp: remove_by_id_def intro: queue_inv_removed dest!: find_SomeD [OF sym])

lemma collect_fps_eq:
  "\<forall>s \<in> set ss. content_fingerprint env s \<noteq> None \<Longrightarrow> collect_fps env ss = Some (map (fp_of env) ss)"
  by (induction ss) (auto simp: fp_of_def)

lemma fold_remove: "fold (\<lambda>x F. F - {x}) xs F = F - set xs"
  by (induction xs arbitrary: F) auto

lemma remove_expired_eq:
  assumes "queue_inv env q"
  shows "remove_expired env now q = Some (length (filter (expired now) (items q)),
    q\<lparr>fingerprints := fingerprints q - fp_of env ` {s \<in> set (items q). expired now s},
      items := filter (\<lambda>s. \<not> expired now s) (items q)\<rparr>)"
proof -
  have kept: "(case expires_at s of None \<Rightarrow> True | Some e \<Rightarrow> e > now) = (\<not> expired now s)" for s
    by (auto simp: expired_def split: option.splits)
  have "collect_fps env (filter (expired now) (items q)) = Some (map (fp_of env) (filter (expired now) (items q)))"
    using assms by (intro collect_fps_eq) (auto simp: queue_inv_def)
  moreover have "length (items q) - length (filter (\<lambda>s. \<not> expired now s) (items q)) = length (filter (expired now) (items q))"
    using sum_length_filter_compl [of "expired now" "items q"] by simp
  ultimately show ?thesis by (simp add: remove_expired_def kept fold_remove Let_def)
qed

lemma queue_inv_remove_expired:
  assumes "queue_inv env q" "remove_expired env now q = Some (n, q')"
  shows "queue_inv env q'"
proof -
  have "\<forall>s \<in> set (filter (\<lambda>s. \<not> expired now s) (items q)).
      fp_of env s \<in> fingerprints q - fp_of env ` {s \<in> set (items q). expired now s}"
    using assms(1) by (auto simp: queue_inv_def dest: inj_onD)
  from queue_inv_filter [OF assms(1) this] assms(2) show ?thesis
    by (auto simp: remove_expired_eq [OF assms(1)] queue_inv_def)
qed

section \<open>The best suggestions are kept\<close>

lemma insort_before_last: "key x < key l \<Longrightarrow> insort_key key x (xs @ [l]) = insort_key key x xs @ [l]"
  by (induction xs) auto

lemma insort_after_last: "\<forall>y \<in> set xs. key y < key x \<Longrightarrow> insort_key key x xs = xs @ [x]"
  by (induction xs) auto

lemma take_insort:
  "take n (insort_key key x xs) = take n (insort_key key x (take n xs))"
proof (induction xs arbitrary: n)
  case (Cons y ys)
  then show ?case by (cases n) (auto simp: take_Cons')
qed simp

text \<open>One \<open>push\<close> of new content with a new key is insertion into the order, cut at the capacity.\<close>

lemma push_items:
  assumes inv: "queue_inv env q" and fp: "content_fingerprint env s = Some fp" "fp \<notin> fingerprints q"
    and new: "key s \<notin> key ` set (items q)" and pos: "0 < max_size q"
  obtains b q' where "push env s q = Some (b, q')" "max_size q' = max_size q"
    "items q' = take (max_size q) (insort_key key s (items q))" "fingerprints q' \<subseteq> insert fp (fingerprints q)"
proof -
  have ord: "ordered (items q)" and le: "length (items q) \<le> max_size q" and mx: "max 1 (max_size q) = max_size q"
    using inv pos by (auto simp: queue_inv_def)
  define r where "r = (if length (items q) < max_size q then insert_item fp s q
      else if key s < key (last (items q)) then insert_item fp s (evict_last env q) else (False, q))"
  have push: "push env s q = Some (fst r, snd r)"
    unfolding r_def using fp mx push_cases [OF inv, of s] by simp
  have m: "max_size (snd r) = max_size q" and F: "fingerprints (snd r) \<subseteq> insert fp (fingerprints q)"
    by (auto simp: r_def insert_item_def evict_last_def Let_def)
  have "items (snd r) = take (max_size q) (insort_key key s (items q))"
  proof (cases "length (items q) < max_size q")
    case True
    then show ?thesis using ord new by (simp add: r_def insert_item_def btree_insert_eq)
  next
    case False
    then have ne: "items q \<noteq> []" and len: "length (items q) = max_size q" using le pos by auto
    obtain ys l where ys: "items q = ys @ [l]" using ne by (cases "items q" rule: rev_cases) auto
    have ord': "ordered ys" "\<forall>y \<in> set ys. key y < key l" using ord ys by (auto simp: sorted_wrt_append)
    show ?thesis
    proof (cases "key s < key l")
      case True
      then show ?thesis using False new ys len btree_insert_eq [OF ord'(1), of s]
        by (simp add: r_def insert_item_def evict_last_def insort_before_last)
    next
      case ge: False
      then have "key l < key s" using new ys by auto
      then have "\<forall>y \<in> set (items q). key y < key s" using ord'(2) ys by auto
      moreover have "last (items q) = l" using ys by simp
      ultimately show ?thesis using False ge len by (simp add: r_def insort_after_last)
    qed
  qed
  from that [OF push m this F] show thesis .
qed

fun push_all :: "text_env \<Rightarrow> Suggestion list \<Rightarrow> SuggestionQueue \<Rightarrow> SuggestionQueue option" where
  "push_all env [] q = Some q"
| "push_all env (s # ss) q = (case push env s q of None \<Rightarrow> None | Some r \<Rightarrow> push_all env ss (snd r))"

lemma push_all_snoc:
  "push_all env (ss @ [s]) q = (case push_all env ss q of None \<Rightarrow> None | Some q' \<Rightarrow> map_option snd (push env s q'))"
  by (induction ss arbitrary: q) (auto split: option.splits)

lemma sort_key_snoc: "distinct (map key (ss @ [s])) \<Longrightarrow> sort_key key (ss @ [s]) = insort_key key s (sort_key key ss)"
  by (rule map_sorted_distinct_set_unique [where f = key])
    (auto simp: distinct_map sorted_insort_key set_insort_key distinct_insort intro: inj_on_subset)

lemma push_all_best:
  assumes "0 < k" "\<forall>s \<in> set ss. content_fingerprint env s \<noteq> None"
    and "distinct (map (fp_of env) ss)" "distinct (map key ss)"
  shows "\<exists>q. push_all env ss (queue_new k) = Some q \<and> queue_inv env q \<and> max_size q = k
    \<and> items q = take k (sort_key key ss) \<and> fingerprints q \<subseteq> fp_of env ` set ss"
  using assms(2-)
proof (induction ss rule: rev_induct)
  case Nil
  show ?case using queue_inv_new [of env k] by (simp add: queue_new_def)
next
  case (snoc s ss)
  then obtain q where q: "push_all env ss (queue_new k) = Some q" "queue_inv env q" "max_size q = k"
    "items q = take k (sort_key key ss)" "fingerprints q \<subseteq> fp_of env ` set ss" by auto
  have fp: "content_fingerprint env s = Some (fp_of env s)" using snoc.prems(1) by (auto simp: fp_of_def)
  have new: "fp_of env s \<notin> fingerprints q" "key s \<notin> key ` set (items q)"
    using snoc.prems(2,3) q(4,5) by (auto dest: in_set_takeD)
  obtain b q' where push: "push env s q = Some (b, q')" "max_size q' = k"
    "items q' = take k (insort_key key s (items q))" "fingerprints q' \<subseteq> insert (fp_of env s) (fingerprints q)"
    using push_items [OF q(2) fp new] assms(1) q(3) by auto
  have "items q' = take k (sort_key key (ss @ [s]))"
    using push(3) q(4) sort_key_snoc [OF snoc.prems(3)] take_insort [of k s "sort_key key ss"] by simp
  with q push queue_inv_push [OF q(2) push(1)] show ?case by (auto simp: push_all_snoc)
qed

section \<open>Operations in any order\<close>

datatype queue_op = Push Suggestion | Pop | RemoveById string | RemoveExpired time | Clear

fun queue_step :: "text_env \<Rightarrow> queue_op \<Rightarrow> SuggestionQueue \<Rightarrow> SuggestionQueue option" where
  "queue_step env (Push s) q = map_option snd (push env s q)"
| "queue_step env Pop q = map_option snd (pop env q)"
| "queue_step env (RemoveById sid) q = map_option snd (remove_by_id env sid q)"
| "queue_step env (RemoveExpired now) q = map_option snd (remove_expired env now q)"
| "queue_step env Clear q = Some (clear q)"

inductive queue_reach :: "text_env \<Rightarrow> nat \<Rightarrow> SuggestionQueue \<Rightarrow> bool" for env n where
  new: "queue_reach env n (queue_new n)"
| op: "queue_reach env n q \<Longrightarrow> queue_step env opn q = Some q' \<Longrightarrow> queue_reach env n q'"

lemma queue_step_inv: "queue_inv env q \<Longrightarrow> queue_step env opn q = Some q' \<Longrightarrow> queue_inv env q'"
  by (cases opn)
    (auto intro: queue_inv_push queue_inv_pop queue_inv_remove_by_id queue_inv_remove_expired queue_inv_clear)

lemma queue_reach_inv: "queue_reach env n q \<Longrightarrow> queue_inv env q"
  by (induction rule: queue_reach.induct) (auto intro: queue_inv_new queue_step_inv)

lemma remove_item_max_size: "remove_item env s q = Some q' \<Longrightarrow> max_size q' = max_size q"
  by (auto simp: remove_item_def)

lemma queue_step_max_size: "queue_step env opn q = Some q' \<Longrightarrow> max_size q' = max_size q"
  by (cases opn)
    (auto simp: push_def pop_def remove_by_id_def remove_expired_def insert_item_def clear_def Let_def
      split: option.splits if_splits list.splits dest: remove_item_max_size)

lemma queue_reach_max_size: "queue_reach env n q \<Longrightarrow> max_size q = n"
  by (induction rule: queue_reach.induct) (auto simp: queue_new_def queue_step_max_size)

lemma pop_no_panic:
  assumes "queue_inv env q"
  shows "\<exists>q'. pop env q = Some (peek q, q') \<and> items q' = drop 1 (items q)"
proof (cases "items q")
  case (Cons s ss)
  have "filter (\<lambda>x. x \<noteq> s) ss = ss" using assms Cons by (auto simp: queue_inv_def filter_id_conv)
  with remove_item_eq [OF assms, of s] Cons show ?thesis by (simp add: pop_def peek_def)
qed (simp add: pop_def peek_def)

lemma remove_by_id_no_panic: "queue_inv env q \<Longrightarrow> remove_by_id env sid q \<noteq> None"
  using remove_item_eq [of env q]
  by (cases "find (\<lambda>s. suggestion_id s = sid) (items q)") (auto simp: remove_by_id_def dest: find_SomeD)

lemma push_None: "queue_inv env q \<Longrightarrow> push env s q = None \<longleftrightarrow> content_fingerprint env s = None"
  by (auto simp: push_cases split: option.splits)

text \<open>In every state a queue can reach by pushing, popping, removing by id, expiring and clearing, its
  items are in strict order of priority, then of age with the newest first, then of id; there are no
  more than its capacity (one for a capacity of zero); and no two of them have the same content fingerprint. What
  \<open>pop\<close> returns comes before everything that stays.\<close>

theorem queue_ordered_bounded_deduplicated:
  assumes "queue_reach env n q"
  shows "sorted_wrt (\<lambda>a b. ps_cmp a b = Less) (items q)
    \<and> length (items q) \<le> max 1 n
    \<and> distinct (map (content_fingerprint env) (items q))
    \<and> (\<exists>q'. pop env q = Some (peek q, q') \<and> items q' = drop 1 (items q)
        \<and> (\<forall>s. peek q = Some s \<longrightarrow> (\<forall>t \<in> set (items q'). ps_cmp s t = Less)))"
proof -
  have inv: "queue_inv env q" by (rule queue_reach_inv [OF assms])
  then have ord: "ordered (items q)" by (simp add: queue_inv_def)
  have less: "ps_cmp a b = Less \<longleftrightarrow> key a < key b" for a b by (auto simp: ps_cmp_key cmp_def)
  have "distinct (items q)" using ord by (rule ordered_distinct)
  moreover have "inj_on (content_fingerprint env) (set (items q))"
    using inv by (auto simp: queue_inv_def inj_on_def fp_of_def)
  ultimately have dup: "distinct (map (content_fingerprint env) (items q))" by (simp add: distinct_map)
  obtain q' where q': "pop env q = Some (peek q, q')" "items q' = drop 1 (items q)"
    using pop_no_panic [OF inv] by blast
  have "\<forall>s. peek q = Some s \<longrightarrow> (\<forall>t \<in> set (items q'). key s < key t)"
    using ord q'(2) by (cases "items q") (auto simp: peek_def)
  with ord inv dup q' queue_reach_max_size [OF assms] show ?thesis by (auto simp: less queue_inv_def)
qed

definition sample_env :: text_env where
  "sample_env = \<lparr>lower = map to_ascii_lowercase, hash = (\<lambda>t s. fold (\<lambda>c h. h * 31 + of_nat (of_char c)) s 7)\<rparr>"

definition suggest :: "string \<Rightarrow> Priority \<Rightarrow> time \<Rightarrow> string \<Rightarrow> Suggestion" where
  "suggest sid p t c = \<lparr>suggestion_id = sid, suggestion_type = WorkGuidance, content = c, priority = p,
     confidence_score = 1, relevance_score = 1, is_actionable = True, created_at = t, expires_at = None,
     source = RuleBased, reasoning = None\<rparr>"

definition sample_suggestions :: "Suggestion list" where
  "sample_suggestions = [suggest ''a'' Low 5 ''x'', suggest ''b'' Critical 1 ''y'', suggest ''c'' High 2 ''z'']"

definition sample_queue :: SuggestionQueue where
  "sample_queue = \<lparr>items = [suggest ''b'' Critical 1 ''y'', suggest ''c'' High 2 ''z''], fingerprints = {338, 339}, max_size = 2\<rparr>"

lemma sample_push: "push_all sample_env sample_suggestions (queue_new 2) = Some sample_queue"
  by code_simp

lemma push_all_reach: "queue_reach env n q \<Longrightarrow> push_all env ss q = Some q' \<Longrightarrow> queue_reach env n q'"
proof (induction ss arbitrary: q)
  case (Cons s ss)
  then obtain r where r: "push env s q = Some r" "push_all env ss (snd r) = Some q'" by (auto split: option.splits)
  have "queue_reach env n (snd r)" by (rule queue_reach.op [OF Cons.prems(1), of "Push s"]) (simp add: r(1))
  with Cons.IH r(2) show ?case by blast
qed simp

lemma sample_reach: "queue_reach sample_env 2 sample_queue"
  using push_all_reach [OF queue_reach.new sample_push] .

theorem queue_ordered_bounded_deduplicated_witness:
  "length (items sample_queue) = 2 \<and> sorted_wrt (\<lambda>a b. ps_cmp a b = Less) (items sample_queue)
   \<and> peek sample_queue = Some (suggest ''b'' Critical 1 ''y'')"
  using queue_ordered_bounded_deduplicated [OF sample_reach] by (simp add: sample_queue_def peek_def)

text \<open>C14: a queue of capacity \<open>k\<close> is the best \<open>k\<close> of what was pushed: after suggestions with different
  contents and keys arrived in any order, it holds the first \<open>k\<close> of them in the order of priority, age and
  id, exactly as if all had been sorted and the rest cut off.\<close>

theorem queue_keeps_best:
  assumes "0 < k" "\<forall>s \<in> set ss. content_fingerprint env s \<noteq> None"
    and "distinct (map (content_fingerprint env) ss)" "distinct (map key ss)"
  shows "\<exists>q. push_all env ss (queue_new k) = Some q \<and> items q = take k (sort_key key ss)"
proof -
  have "inj_on (content_fingerprint env) (set ss)" using assms(3) by (simp add: distinct_map)
  moreover have "content_fingerprint env x = content_fingerprint env y"
    if "fp_of env x = fp_of env y" "x \<in> set ss" "y \<in> set ss" for x y
    using that assms(2) by (metis fp_of_def option.expand)
  ultimately have "inj_on (fp_of env) (set ss)" by (meson inj_on_def)
  with assms(3) have "distinct (map (fp_of env) ss)" by (simp add: distinct_map)
  from push_all_best [OF assms(1,2) this assms(4)] show ?thesis by blast
qed

theorem queue_keeps_best_witness:
  "\<exists>q. push_all sample_env sample_suggestions (queue_new 2) = Some q
     \<and> items q = take 2 (sort_key key sample_suggestions)"
proof -
  have "\<forall>s \<in> set sample_suggestions. content_fingerprint sample_env s \<noteq> None"
    "distinct (map (content_fingerprint sample_env) sample_suggestions)"
    "distinct (map key sample_suggestions)" by code_simp+
  from queue_keeps_best [OF _ this, of 2] show ?thesis by simp
qed

text \<open>Only \<open>push\<close> can panic, and it does exactly when the normalized content is longer than 200 bytes
  and byte 200 is in the middle of a character. No other operation panics in any state a queue can reach.\<close>

theorem queue_panics_exactly_on_split_character:
  assumes "queue_reach env n q"
  shows "(push env s q = None \<longleftrightarrow> 200 < length (normalized env s) \<and> continuation_byte (normalized env s ! 200))
    \<and> pop env q \<noteq> None \<and> remove_by_id env sid q \<noteq> None \<and> remove_expired env now q \<noteq> None"
proof -
  have inv: "queue_inv env q" by (rule queue_reach_inv [OF assms])
  show ?thesis
    using pop_no_panic [OF inv] remove_by_id_no_panic [OF inv] remove_expired_eq [OF inv]
    by (auto simp: push_None [OF inv] content_fingerprint_None)
qed

text \<open>Sixty-seven Hangul syllables are enough.\<close>

definition hangul :: Suggestion where
  "hangul = suggest ''h'' High 9 (concat (replicate 67 [CHR 0xEA, CHR 0xB0, CHR 0x80]))"

lemma normalized_hangul: "normalized sample_env hangul = content hangul"
proof -
  have bytes: "set (content hangul) \<subseteq> {CHR 0xEA, CHR 0xB0, CHR 0x80}" by (auto simp: hangul_def suggest_def)
  have low: "to_ascii_lowercase c = c" if "c \<in> {CHR 0xEA, CHR 0xB0, CHR 0x80}" for c
    using that by (auto simp: to_ascii_lowercase_def is_ascii_upper_def)
  have "map to_ascii_lowercase (content hangul) = content hangul" using bytes low by (intro map_idI) blast
  moreover have "split_whitespace (content hangul) = [content hangul]"
  proof (rule split_whitespace_none)
    show "set (content hangul) \<inter> hd ` set white_space = {}"
      using bytes by (auto simp: white_space_def)
    show "content hangul \<noteq> []" by (simp add: hangul_def suggest_def)
  qed
  ultimately show ?thesis by (simp add: normalized_def sample_env_def)
qed

theorem queue_panics_exactly_on_split_character_witness: "push sample_env hangul sample_queue = None"
proof -
  have "200 < length (content hangul)" "continuation_byte (content hangul ! 200)" by code_simp+
  then have "200 < length (normalized sample_env hangul)" "continuation_byte (normalized sample_env hangul ! 200)"
    by (simp_all only: normalized_hangul)
  then show ?thesis using queue_panics_exactly_on_split_character [OF sample_reach, of hangul] by simp
qed

text \<open>A suggestion whose key is taken is refused, but its fingerprint stays: the same content under another
  id is then refused as a duplicate of something that is not in the queue.\<close>

lemma refused_push_leaves_fingerprint:
  "\<exists>q1 q2. push sample_env (suggest ''b'' Critical 1 ''w'') (sample_queue\<lparr>max_size := 3\<rparr>) = Some (False, q1)
     \<and> items q1 = items sample_queue
     \<and> push sample_env (suggest ''d'' Critical 7 ''w'') q1 = Some (False, q2)
     \<and> fst (the (push sample_env (suggest ''d'' Critical 7 ''w'') (sample_queue\<lparr>max_size := 3\<rparr>)))"
proof -
  define q1 where "q1 = snd (the (push sample_env (suggest ''b'' Critical 1 ''w'') (sample_queue\<lparr>max_size := 3\<rparr>)))"
  have "push sample_env (suggest ''b'' Critical 1 ''w'') (sample_queue\<lparr>max_size := 3\<rparr>) = Some (False, q1)"
    "items q1 = items sample_queue" "push sample_env (suggest ''d'' Critical 7 ''w'') q1 = Some (False, q1)"
    "fst (the (push sample_env (suggest ''d'' Critical 7 ''w'') (sample_queue\<lparr>max_size := 3\<rparr>)))"
    unfolding q1_def by code_simp+
  then show ?thesis by blast
qed

text \<open>A queue of capacity zero takes a first suggestion.\<close>

lemma zero_capacity_takes_one:
  "push sample_env (suggest ''a'' Low 5 ''x'') (queue_new 0)
   = Some (True, \<lparr>items = [suggest ''a'' Low 5 ''x''], fingerprints = {337}, max_size = 0\<rparr>)"
  by code_simp

end
