(* ===== verification/SuggestionFlow.thy ===== *)
theory SuggestionFlow
  imports SuggestionQueue BoundedFifo JsonValue
begin

text \<open>
  What surrounds the suggestion queue in \<open>crates/oneshim-suggestion/src\<close>: deferral, history, the retry queue for
  feedback, the feedback scorer and the receiver that puts incoming suggestions through them. Clock readings are
  arguments (one reading per call). \<open>f64\<close> values are reals, and an arithmetic operation rounds its exact result
  to the nearest number with a 53-bit significand; overflow and subnormal numbers, which the operations here cannot
  produce, are left out of the rounding.
\<close>

section \<open>Rounding\<close>

definition round_even :: "real \<Rightarrow> int" where
  "round_even y = (let k = \<lfloor>y\<rfloor>; d = y - of_int k in
     if d < 1 / 2 then k else if 1 / 2 < d then k + 1 else if even k then k else k + 1)"

definition f64 :: "real \<Rightarrow> real" where
  "f64 x = (if x = 0 then 0 else let u = 2 powr of_int (\<lfloor>log 2 \<bar>x\<bar>\<rfloor> - 52) in of_int (round_even (x / u)) * u)"

lemma round_even_error: "\<bar>of_int (round_even y) - y\<bar> \<le> 1 / 2"
  unfolding round_even_def Let_def by (auto simp: abs_le_iff)

lemma f64_error: "\<bar>f64 x - x\<bar> \<le> \<bar>x\<bar> / 2 ^ 53"
proof (cases "x = 0")
  case False
  define u :: real where "u = 2 powr of_int (\<lfloor>log 2 \<bar>x\<bar>\<rfloor> - 52)"
  have u: "0 < u" by (simp add: u_def)
  have "2 powr of_int \<lfloor>log 2 \<bar>x\<bar>\<rfloor> \<le> 2 powr (log 2 \<bar>x\<bar>)" by (intro powr_mono) auto
  also have "\<dots> = \<bar>x\<bar>" using False by simp
  finally have "u \<le> \<bar>x\<bar> / 2 ^ 52" by (simp add: u_def powr_diff powr_realpow [symmetric] field_simps)
  moreover have "f64 x = of_int (round_even (x / u)) * u" using False unfolding f64_def u_def by (simp add: Let_def)
  then have "\<bar>f64 x - x\<bar> = \<bar>of_int (round_even (x / u)) - x / u\<bar> * u"
    using u by (simp add: abs_mult_pos field_simps)
  then have "\<bar>f64 x - x\<bar> \<le> 1 / 2 * u"
    using round_even_error [of "x / u"] u by (metis mult_right_mono less_imp_le)
  ultimately show ?thesis by simp
qed (simp add: f64_def)

text \<open>Numbers that differ by more than their rounding errors compare as their rounded values do.\<close>

lemma f64_less:
  assumes "0 \<le> x" "x \<le> 1" "0 \<le> y" "y \<le> 1" "x + 1 / 2 ^ 50 \<le> y"
  shows "f64 x < f64 y"
proof -
  define e :: real where "e = 1 / 2 ^ 53"
  have err: "\<bar>f64 z - z\<bar> \<le> e" if "0 \<le> z" "z \<le> 1" for z
    using f64_error [of z] that by (simp add: e_def field_simps)
  have "f64 x \<le> x + e" "y - e \<le> f64 y" using err [OF assms(1,2)] err [OF assms(3,4)] by linarith+
  moreover have "2 * e < 1 / 2 ^ 50" by (simp add: e_def)
  ultimately show ?thesis using assms(5) by linarith
qed

lemma f64_ratio_less_iff:
  assumes "0 < b" "a \<le> b" "b < 2 ^ 32" "0 < n" "m \<le> n" "n \<le> 100"
  shows "f64 (of_nat m / of_nat n) < f64 (of_nat a / of_nat b) \<longleftrightarrow> m * b < n * a"
proof -
  have gap: "f64 (of_nat p / of_nat q) < f64 (of_nat a / of_nat b)"
    if pq: "p * b < q * a" "0 < q" "p \<le> q" "0 < b" "a \<le> b" "q * b < 2 ^ 40" for p q a b :: nat
  proof (rule f64_less)
    have "of_nat p * of_nat b + 1 \<le> (of_nat q * of_nat a :: real)"
      using pq(1) by (metis Suc_leI of_nat_mult of_nat_le_iff of_nat_Suc add.commute)
    moreover have "1 / (2 ^ 50 :: real) \<le> 1 / (of_nat q * of_nat b)"
    proof (rule divide_left_mono)
      have "of_nat (q * b) \<le> (of_nat (2 ^ 50) :: real)" using pq(6) by (simp only: of_nat_le_iff) simp
      then show "of_nat q * of_nat b \<le> (2 ^ 50 :: real)" by simp
      show "0 < 2 ^ 50 * (of_nat q * of_nat b :: real)" using pq by simp
    qed simp
    moreover have "of_nat a / of_nat b - of_nat p / (of_nat q :: real)
        = (of_nat q * of_nat a - of_nat p * of_nat b) / (of_nat q * of_nat b)"
      using pq by (simp add: diff_divide_distrib mult.commute)
    moreover have "1 / (of_nat q * of_nat b) \<le> (of_nat q * of_nat a - of_nat p * of_nat b) / (of_nat q * of_nat b :: real)"
      by (rule divide_right_mono) (use calculation(1) in auto)
    ultimately show "of_nat p / of_nat q + 1 / 2 ^ 50 \<le> (of_nat a / of_nat b :: real)" by linarith
  qed (use pq in simp_all)
  have small: "n * b < 2 ^ 40"
  proof -
    have "n * b \<le> 100 * b" using assms(6) by (rule mult_right_mono) simp
    also have "100 * b < 2 ^ 40" using assms(3) by simp
    finally show ?thesis .
  qed
  consider "m * b < n * a" | "n * a < m * b" | "m * b = n * a" by linarith
  then show ?thesis
  proof cases
    case 1
    then show ?thesis using gap [of m b n a] assms small by simp
  next
    case 2
    then have "f64 (of_nat a / of_nat b) < f64 (of_nat m / of_nat n)"
      using gap [of a n b m] assms small by (simp add: mult.commute)
    then show ?thesis using 2 by simp
  next
    case 3
    then have "of_nat m * of_nat b = (of_nat n * of_nat a :: real)" by (metis of_nat_mult)
    then have "of_nat m / of_nat n = (of_nat a / of_nat b :: real)" using assms by (simp add: field_simps)
    then show ?thesis using 3 by simp
  qed
qed

section \<open>Deferred suggestions\<close>

record DeferredEntry =
  deferred_suggestion :: Suggestion
  deferred_at :: time
  resurface_at :: time

record DeferredManager =
  deferred_items :: "DeferredEntry list"
  deferred_max :: nat

definition deferred_new :: "nat \<Rightarrow> DeferredManager" where
  "deferred_new n = \<lparr>deferred_items = [], deferred_max = n\<rparr>"

definition push_back_deferred :: "DeferredEntry \<Rightarrow> DeferredManager \<Rightarrow> DeferredManager" where
  "push_back_deferred e m =
     (let kept = (if length (deferred_items m) \<ge> deferred_max m then drop 1 (deferred_items m) else deferred_items m)
      in m\<lparr>deferred_items := kept @ [e]\<rparr>)"

definition defer_suggestion :: "time \<Rightarrow> Suggestion \<Rightarrow> int \<Rightarrow> DeferredManager \<Rightarrow> bool \<times> DeferredManager" where
  "defer_suggestion now s d m =
     (True, push_back_deferred \<lparr>deferred_suggestion = s, deferred_at = now, resurface_at = now + d\<rparr> m)"

definition collect_resurfaced :: "time \<Rightarrow> DeferredManager \<Rightarrow> Suggestion list \<times> DeferredManager" where
  "collect_resurfaced now m =
     (map deferred_suggestion (filter (\<lambda>e. resurface_at e \<le> now) (deferred_items m)),
      m\<lparr>deferred_items := filter (\<lambda>e. \<not> resurface_at e \<le> now) (deferred_items m)\<rparr>)"

fun remove_first :: "('a \<Rightarrow> bool) \<Rightarrow> 'a list \<Rightarrow> 'a list" where
  "remove_first p [] = []"
| "remove_first p (x # xs) = (if p x then xs else x # remove_first p xs)"

definition cancel_deferred :: "string \<Rightarrow> DeferredManager \<Rightarrow> Suggestion option \<times> DeferredManager" where
  "cancel_deferred sid m =
     (let p = (\<lambda>e. suggestion_id (deferred_suggestion e) = sid) in
      case find p (deferred_items m) of
        None \<Rightarrow> (None, m)
      | Some e \<Rightarrow> (Some (deferred_suggestion e), m\<lparr>deferred_items := remove_first p (deferred_items m)\<rparr>))"

fun restore_deferred ::
  "time \<Rightarrow> (Suggestion \<times> time \<times> time) list \<Rightarrow> DeferredManager \<Rightarrow> Suggestion list \<times> DeferredManager" where
  "restore_deferred now [] m = ([], m)"
| "restore_deferred now ((s, da, ra) # es) m =
     (if ra \<le> now then (let r = restore_deferred now es m in (s # fst r, snd r))
      else if length (deferred_items m) < deferred_max m
      then restore_deferred now es
             (m\<lparr>deferred_items := deferred_items m @ [\<lparr>deferred_suggestion = s, deferred_at = da, resurface_at = ra\<rparr>]\<rparr>)
      else restore_deferred now es m)"

interpretation deferred_fifo: bounded_fifo deferred_items deferred_max push_back_deferred
  by unfold_locales (simp_all add: push_back_deferred_def Let_def)

text \<open>Restoring what was stored gives back, into an empty manager, everything still pending in its order
  up to the capacity, and hands out everything due.\<close>

lemma restore_deferred_eq:
  "restore_deferred now es m =
     (map fst (filter (\<lambda>(s, da, ra). ra \<le> now) es),
      m\<lparr>deferred_items := deferred_items m @ take (deferred_max m - length (deferred_items m))
         (map (\<lambda>(s, da, ra). \<lparr>deferred_suggestion = s, deferred_at = da, resurface_at = ra\<rparr>)
            (filter (\<lambda>(s, da, ra). \<not> ra \<le> now) es))\<rparr>)"
  by (induction now es m rule: restore_deferred.induct) (auto simp: Let_def Suc_diff_Suc take_Suc_conv_app_nth take_Cons')

section \<open>History\<close>

record HistoryEntry =
  history_suggestion :: Suggestion
  feedback :: "FeedbackType option"

record SuggestionHistory =
  entries :: "HistoryEntry list"
  history_max :: nat

definition history_new :: "nat \<Rightarrow> SuggestionHistory" where
  "history_new n = \<lparr>entries = [], history_max = n\<rparr>"

definition push_back_history :: "HistoryEntry \<Rightarrow> SuggestionHistory \<Rightarrow> SuggestionHistory" where
  "push_back_history e h =
     (let kept = (if length (entries h) \<ge> history_max h then drop 1 (entries h) else entries h)
      in h\<lparr>entries := kept @ [e]\<rparr>)"

definition history_add :: "Suggestion \<Rightarrow> SuggestionHistory \<Rightarrow> SuggestionHistory" where
  "history_add s h = push_back_history \<lparr>history_suggestion = s, feedback = None\<rparr> h"

fun set_first :: "('a \<Rightarrow> bool) \<Rightarrow> ('a \<Rightarrow> 'a) \<Rightarrow> 'a list \<Rightarrow> bool \<times> 'a list" where
  "set_first p f [] = (False, [])"
| "set_first p f (x # xs) = (if p x then (True, f x # xs) else (let r = set_first p f xs in (fst r, x # snd r)))"

definition record_feedback :: "string \<Rightarrow> FeedbackType \<Rightarrow> SuggestionHistory \<Rightarrow> bool \<times> SuggestionHistory" where
  "record_feedback sid f h =
     (let r = set_first (\<lambda>e. suggestion_id (history_suggestion e) = sid) (\<lambda>e. e\<lparr>feedback := Some f\<rparr>) (rev (entries h))
      in (fst r, h\<lparr>entries := rev (snd r)\<rparr>))"

definition recent :: "nat \<Rightarrow> SuggestionHistory \<Rightarrow> HistoryEntry list" where
  "recent n h = take n (rev (entries h))"

record HistoryCounts =
  n_accepted :: u32
  n_rejected :: u32
  n_deferred :: u32
  n_pending :: u32

definition count_entry :: "HistoryEntry \<Rightarrow> HistoryCounts \<Rightarrow> HistoryCounts" where
  "count_entry e c =
     (case feedback e of
        Some Accepted \<Rightarrow> c\<lparr>n_accepted := n_accepted c + 1\<rparr>
      | Some Rejected \<Rightarrow> c\<lparr>n_rejected := n_rejected c + 1\<rparr>
      | Some Deferred \<Rightarrow> c\<lparr>n_deferred := n_deferred c + 1\<rparr>
      | None \<Rightarrow> c\<lparr>n_pending := n_pending c + 1\<rparr>)"

definition history_counts :: "SuggestionHistory \<Rightarrow> HistoryCounts" where
  "history_counts h = fold count_entry (entries h) \<lparr>n_accepted = 0, n_rejected = 0, n_deferred = 0, n_pending = 0\<rparr>"

interpretation history_fifo: bounded_fifo entries history_max push_back_history
  by unfold_locales (simp_all add: push_back_history_def Let_def)

lemma history_counts_sum:
  "n_accepted c + n_rejected c + n_deferred c + n_pending c = of_nat (length (entries h))"
  if "c = history_counts h"
proof -
  have "n_accepted (fold count_entry es c0) + n_rejected (fold count_entry es c0) + n_deferred (fold count_entry es c0)
      + n_pending (fold count_entry es c0)
      = n_accepted c0 + n_rejected c0 + n_deferred c0 + n_pending c0 + of_nat (length es)" for es c0
    by (induction es arbitrary: c0) (auto simp: count_entry_def split: option.splits FeedbackType.splits)
  then show ?thesis by (simp add: that history_counts_def)
qed

section \<open>Retrying feedback\<close>

record PendingFeedback =
  pf_suggestion_id :: string
  pf_feedback_type :: FeedbackType
  pf_comment :: "string option"
  attempts :: u32
  next_retry_at :: time

record FeedbackRetryQueue =
  retry_items :: "PendingFeedback list"
  retry_max :: nat
  max_attempts :: u32

definition retry_queue_new :: "nat \<Rightarrow> u32 \<Rightarrow> FeedbackRetryQueue" where
  "retry_queue_new n a = \<lparr>retry_items = [], retry_max = n, max_attempts = a\<rparr>"

definition retry_delay :: "u32 \<Rightarrow> int" where
  "retry_delay attempt =
     secs (if attempt = 0 then 5 else if attempt = 1 then 15 else if attempt = 2 then 45
           else if attempt = 3 then 120 else 300)"

definition push_back_retry :: "PendingFeedback \<Rightarrow> FeedbackRetryQueue \<Rightarrow> FeedbackRetryQueue" where
  "push_back_retry f q =
     (let kept = (if length (retry_items q) \<ge> retry_max q then drop 1 (retry_items q) else retry_items q)
      in q\<lparr>retry_items := kept @ [f]\<rparr>)"

definition enqueue_feedback :: "time \<Rightarrow> PendingFeedback \<Rightarrow> FeedbackRetryQueue \<Rightarrow> FeedbackRetryQueue" where
  "enqueue_feedback now f q = push_back_retry (f\<lparr>next_retry_at := now + retry_delay (attempts f)\<rparr>) q"

definition collect_ready :: "time \<Rightarrow> FeedbackRetryQueue \<Rightarrow> PendingFeedback list \<times> FeedbackRetryQueue" where
  "collect_ready now q =
     (filter (\<lambda>f. next_retry_at f \<le> now) (retry_items q),
      q\<lparr>retry_items := filter (\<lambda>f. \<not> next_retry_at f \<le> now) (retry_items q)\<rparr>)"

definition retry_failed :: "time \<Rightarrow> PendingFeedback \<Rightarrow> FeedbackRetryQueue \<Rightarrow> FeedbackRetryQueue" where
  "retry_failed now f q =
     (let f1 = f\<lparr>attempts := attempts f + 1\<rparr>
      in push_back_retry (f1\<lparr>next_retry_at := now + retry_delay (attempts f1)\<rparr>) q)"

definition drop_exhausted :: "string \<Rightarrow> FeedbackRetryQueue \<Rightarrow> FeedbackRetryQueue" where
  "drop_exhausted sid q = q\<lparr>retry_items := filter (\<lambda>f. pf_suggestion_id f \<noteq> sid) (retry_items q)\<rparr>"

definition is_exhausted :: "PendingFeedback \<Rightarrow> FeedbackRetryQueue \<Rightarrow> bool" where
  "is_exhausted f q \<longleftrightarrow> max_attempts q \<le> attempts f"

interpretation retry_fifo: bounded_fifo retry_items retry_max push_back_retry
  by unfold_locales (simp_all add: push_back_retry_def Let_def)

section \<open>Scorer\<close>

record FeedbackTally =
  accepted :: u32
  rejected :: u32
  deferred :: u32
  last_updated :: time

definition tally_new :: "time \<Rightarrow> FeedbackTally" where
  "tally_new now = \<lparr>accepted = 0, rejected = 0, deferred = 0, last_updated = now\<rparr>"

definition tally_total :: "FeedbackTally \<Rightarrow> u32" where
  "tally_total t = accepted t + rejected t + deferred t"

definition num_hours :: "int \<Rightarrow> int" where
  "num_hours d = (let s = num_seconds d in if 0 \<le> s then s div 3600 else - ((- s) div 3600))"

definition is_stale :: "time \<Rightarrow> FeedbackTally \<Rightarrow> bool" where
  "is_stale now t \<longleftrightarrow> num_hours (now - last_updated t) > 12"

type_synonym FeedbackScorer = "SuggestionType \<times> SuggestionSource \<rightharpoonup> FeedbackTally"

definition scorer_record ::
  "time \<Rightarrow> SuggestionType \<Rightarrow> SuggestionSource \<Rightarrow> FeedbackType \<Rightarrow> FeedbackScorer \<Rightarrow> FeedbackScorer" where
  "scorer_record now ty src f sc =
     (let t0 = (case sc (ty, src) of Some t \<Rightarrow> t | None \<Rightarrow> tally_new now);
          t1 = (if is_stale now t0 then tally_new now else t0);
          t2 = (case f of
                  Accepted \<Rightarrow> t1\<lparr>accepted := accepted t1 + 1\<rparr>
                | Rejected \<Rightarrow> t1\<lparr>rejected := rejected t1 + 1\<rparr>
                | Deferred \<Rightarrow> t1\<lparr>deferred := deferred t1 + 1\<rparr>)
      in sc((ty, src) \<mapsto> t2\<lparr>last_updated := now\<rparr>))"

definition f64_of_u32 :: "u32 \<Rightarrow> real" where "f64_of_u32 w = of_nat (unat w)"

definition score :: "time \<Rightarrow> SuggestionType \<Rightarrow> SuggestionSource \<Rightarrow> FeedbackScorer \<Rightarrow> real" where
  "score now ty src sc =
     (case sc (ty, src) of
        None \<Rightarrow> 0
      | Some t \<Rightarrow>
          if is_stale now t \<or> tally_total t < 5 then 0
          else
            (let n = f64_of_u32 (tally_total t);
                 rejection_ratio = f64 (f64_of_u32 (rejected t) / n);
                 acceptance_ratio = f64 (f64_of_u32 (accepted t) / n)
             in if rejection_ratio > f64 (7 / 10) then f64 (- 3 / 10)
                else if rejection_ratio > f64 (1 / 2) then f64 (- 15 / 100)
                else if acceptance_ratio > f64 (7 / 10) then f64 (1 / 10)
                else 0))"

definition adjust ::
  "time \<Rightarrow> SuggestionType \<Rightarrow> SuggestionSource \<Rightarrow> real \<Rightarrow> FeedbackScorer \<Rightarrow> bool \<times> real" where
  "adjust now ty src relevance sc =
     (let r = max 0 (min 1 (f64 (relevance + score now ty src sc)))
      in (f64 (2 / 10) \<le> r, r))"

lemma unat_add3:
  assumes "unat a + unat b + unat c < 2 ^ 32"
  shows "unat (a + b + c :: u32) = unat a + unat b + unat c"
proof -
  have "unat (a + b) = unat a + unat b" using assms by (intro unat_add_lem [THEN iffD1]) simp
  then show ?thesis using assms by (subst unat_add_lem [THEN iffD1]) simp_all
qed

text \<open>C15: the scorer's floating-point thresholds decide exactly as whole-number arithmetic on the counts
  would: with at least five reactions, fresh and not overflowing, the penalty is heavy when more than 7 in 10
  were rejections, light when more than half were, and there is a boost when more than 7 in 10 were accepted.
  No rounding of a ratio or a threshold changes the outcome.\<close>

theorem score_decides_exactly:
  assumes "sc (ty, src) = Some t" "\<not> is_stale now t"
    and "unat (accepted t) + unat (rejected t) + unat (deferred t) < 2 ^ 32"
  shows "score now ty src sc =
    (let n = unat (accepted t) + unat (rejected t) + unat (deferred t) in
     if n < 5 then 0
     else if 7 * n < 10 * unat (rejected t) then f64 (- 3 / 10)
     else if n < 2 * unat (rejected t) then f64 (- 15 / 100)
     else if 7 * n < 10 * unat (accepted t) then f64 (1 / 10)
     else 0)"
proof -
  define n where "n = unat (accepted t) + unat (rejected t) + unat (deferred t)"
  have n: "unat (tally_total t) = n" using unat_add3 [OF assms(3)] by (simp add: tally_total_def n_def)
  have lt: "tally_total t < 5 \<longleftrightarrow> n < 5" by (simp add: word_less_nat_alt n)
  have ratio: "f64 (of_nat m / of_nat k) < f64 (of_nat (unat a) / of_nat n) \<longleftrightarrow> m * n < k * unat a"
    if "unat a \<le> n" "5 \<le> n" "0 < k" "m \<le> k" "k \<le> 100" for a m k
    using that assms(3) by (intro f64_ratio_less_iff) (auto simp: n_def)
  have "unat (rejected t) \<le> n" "unat (accepted t) \<le> n" by (auto simp: n_def)
  with ratio [of "rejected t" 10 7] ratio [of "rejected t" 2 1] ratio [of "accepted t" 10 7]
  show ?thesis
    by (simp add: score_def assms(1,2) lt n f64_of_u32_def Let_def n_def [symmetric])
qed

definition sample_tally :: FeedbackTally where
  "sample_tally = \<lparr>accepted = 1, rejected = 8, deferred = 1, last_updated = 0\<rparr>"

theorem score_decides_exactly_witness:
  "score 0 EmailDraft LlmLocal [(EmailDraft, LlmLocal) \<mapsto> sample_tally] = f64 (- 3 / 10)"
  using score_decides_exactly [of "[(EmailDraft, LlmLocal) \<mapsto> sample_tally]" EmailDraft LlmLocal sample_tally 0]
  by (simp add: sample_tally_def is_stale_def num_hours_def num_seconds_def Let_def)

section \<open>Receiver\<close>

datatype SseEvent =
    Connected string
  | SseSuggestion Suggestion
  | SseUpdate json
  | SseHeartbeat time
  | SseError string
  | SseClose

text \<open>The receiver with what it sends out: the notifications shown and the counts given to the overlay.\<close>

record SuggestionReceiver =
  rqueue :: SuggestionQueue
  rscorer :: FeedbackScorer
  has_notifier :: bool
  has_on_new :: bool
  shown :: "Suggestion list"
  badges :: "nat list"

definition handle_suggestion ::
  "text_env \<Rightarrow> time \<Rightarrow> Suggestion \<Rightarrow> SuggestionReceiver \<Rightarrow> SuggestionReceiver option" where
  "handle_suggestion env now s r =
     (let (should_queue, relevance) = adjust now (suggestion_type s) (source s) (relevance_score s) (rscorer r);
          s1 = s\<lparr>relevance_score := relevance\<rparr>
      in if \<not> should_queue then Some r
         else case remove_expired env now (rqueue r) of
           None \<Rightarrow> None
         | Some (_, q1) \<Rightarrow>
             (case push env s1 q1 of
                None \<Rightarrow> None
              | Some (taken, q2) \<Rightarrow>
                  let r1 = r\<lparr>rqueue := q2\<rparr> in
                  if \<not> taken then Some r1
                  else Some (r1\<lparr>shown := shown r1 @ (if has_notifier r1 then [s1] else []),
                                badges := badges r1 @ (if has_on_new r1 then [length (items q2)] else [])\<rparr>)))"

fun receiver_run :: "text_env \<Rightarrow> (time \<times> SseEvent) list \<Rightarrow> SuggestionReceiver \<Rightarrow> SuggestionReceiver option" where
  "receiver_run env [] r = Some r"
| "receiver_run env ((now, ev) # evs) r =
     (case ev of
        SseSuggestion s \<Rightarrow>
          (case handle_suggestion env now s r of None \<Rightarrow> None | Some r1 \<Rightarrow> receiver_run env evs r1)
      | SseClose \<Rightarrow> Some r
      | _ \<Rightarrow> receiver_run env evs r)"

section \<open>Feedback sender\<close>

record SuggestionFeedback =
  fb_suggestion_id :: string
  fb_type :: FeedbackType
  fb_timestamp :: time
  fb_comment :: "string option"

datatype feedback_call = SinkCall SuggestionFeedback | ApiCall SuggestionFeedback

text \<open>The local sink is called first and its failure is only logged; the result is the server's.\<close>

definition send_feedback ::
  "bool \<Rightarrow> (SuggestionFeedback \<Rightarrow> 'e + unit) \<Rightarrow> time \<Rightarrow> string \<Rightarrow> FeedbackType \<Rightarrow> string option
   \<Rightarrow> feedback_call list \<times> ('e + unit)" where
  "send_feedback has_sink api now sid ft comment =
     (let fb = \<lparr>fb_suggestion_id = sid, fb_type = ft, fb_timestamp = now, fb_comment = comment\<rparr>
      in ((if has_sink then [SinkCall fb] else []) @ [ApiCall fb], api fb))"

section \<open>Maintenance tick\<close>

text \<open>One round of the maintenance loop of \<open>src-tauri/src/scheduler/loops/suggestions.rs\<close>, taken alone:
  deferred suggestions that are due go back to the queue, due feedback is sent again.\<close>

record maintenance =
  mqueue :: SuggestionQueue
  mdeferred :: DeferredManager
  mretry :: FeedbackRetryQueue
  mcalls :: "feedback_call list"
  mdeleted :: "string list"
  mbadges :: "nat list"

definition resurface_deferred :: "text_env \<Rightarrow> time \<Rightarrow> maintenance \<Rightarrow> maintenance option" where
  "resurface_deferred env now m =
     (let (resurfaced, d) = collect_resurfaced now (mdeferred m); m1 = m\<lparr>mdeferred := d\<rparr>
      in if resurfaced = [] then Some m1
         else map_option (\<lambda>q. m1\<lparr>mqueue := q, mbadges := mbadges m1 @ [length (items q)]\<rparr>)
                (push_all env resurfaced (mqueue m1)))"

definition retry_one ::
  "bool \<Rightarrow> (SuggestionFeedback \<Rightarrow> 'e + unit) \<Rightarrow> time \<Rightarrow> PendingFeedback \<Rightarrow> maintenance \<Rightarrow> maintenance" where
  "retry_one has_sink api now p m =
     (let (calls, result) = send_feedback has_sink api now (pf_suggestion_id p) (pf_feedback_type p) (pf_comment p);
          m1 = m\<lparr>mcalls := mcalls m @ calls\<rparr>
      in case result of
           Inr _ \<Rightarrow> m1\<lparr>mdeleted := mdeleted m1 @ [pf_suggestion_id p]\<rparr>
         | Inl _ \<Rightarrow>
             if is_exhausted p (mretry m1)
             then m1\<lparr>mretry := drop_exhausted (pf_suggestion_id p) (mretry m1),
                     mdeleted := mdeleted m1 @ [pf_suggestion_id p]\<rparr>
             else m1\<lparr>mretry := retry_failed now p (mretry m1)\<rparr>)"

definition process_retries ::
  "bool \<Rightarrow> (SuggestionFeedback \<Rightarrow> 'e + unit) \<Rightarrow> time \<Rightarrow> maintenance \<Rightarrow> maintenance" where
  "process_retries has_sink api now m =
     (let (ready, rq) = collect_ready now (mretry m)
      in fold (retry_one has_sink api now) ready (m\<lparr>mretry := rq\<rparr>))"

definition maintenance_tick ::
  "text_env \<Rightarrow> bool \<Rightarrow> (SuggestionFeedback \<Rightarrow> 'e + unit) \<Rightarrow> time \<Rightarrow> maintenance \<Rightarrow> maintenance option" where
  "maintenance_tick env has_sink api now m =
     map_option (process_retries has_sink api now) (resurface_deferred env now m)"

lemma retry_delay_le: "retry_delay a \<le> secs 300"
  by (simp add: retry_delay_def secs_def nanos_per_sec_def)

text \<open>After a round at time \<open>now\<close> in which everything was due, what is still queued has been tried once
  more than before and no more often than the limit, and is due again within five minutes.\<close>

definition retried :: "nat \<Rightarrow> time \<Rightarrow> FeedbackRetryQueue \<Rightarrow> bool" where
  "retried k now q \<longleftrightarrow>
     (\<forall>f \<in> set (retry_items q). k \<le> unat (attempts f) \<and> attempts f \<le> max_attempts q \<and> next_retry_at f \<le> now + secs 300)"

lemma set_push_back_retry: "set (retry_items (push_back_retry f q)) \<subseteq> insert f (set (retry_items q))"
  by (auto simp: push_back_retry_def Let_def dest: in_set_dropD)

lemma retry_one_retried:
  assumes "retried (Suc k) now (mretry m)" "k \<le> unat (attempts p)"
  shows "retried (Suc k) now (mretry (retry_one has_sink api now p m))
    \<and> max_attempts (mretry (retry_one has_sink api now p m)) = max_attempts (mretry m)"
proof -
  have again: "retried (Suc k) now (retry_failed now p (mretry m))" if "attempts p < max_attempts (mretry m)"
  proof -
    have le: "attempts p + 1 \<le> max_attempts (mretry m)" using that by (rule inc_le)
    have "unat (attempts p + 1) = Suc (unat (attempts p))" using unat_inc [OF that] by simp
    define f where "f = p\<lparr>attempts := attempts p + 1, next_retry_at := now + retry_delay (attempts p + 1)\<rparr>"
    have rf: "retry_failed now p (mretry m) = push_back_retry f (mretry m)"
      by (simp add: retry_failed_def f_def Let_def)
    have "Suc k \<le> unat (attempts f) \<and> attempts f \<le> max_attempts (mretry m) \<and> next_retry_at f \<le> now + secs 300"
      using le assms(2) retry_delay_le \<open>unat (attempts p + 1) = Suc (unat (attempts p))\<close> by (simp add: f_def)
    moreover have "max_attempts (push_back_retry f (mretry m)) = max_attempts (mretry m)"
      by (simp add: push_back_retry_def Let_def)
    ultimately show ?thesis
      unfolding rf retried_def using assms(1) set_push_back_retry [of f "mretry m"] unfolding retried_def by auto
  qed
  show ?thesis using assms(1) again
    by (auto simp: retry_one_def send_feedback_def is_exhausted_def drop_exhausted_def retried_def
        retry_failed_def push_back_retry_def Let_def not_le split: sum.splits)
qed

lemma fold_retry_one_retried:
  assumes "retried (Suc k) now (mretry m)" "\<forall>p \<in> set ps. k \<le> unat (attempts p)"
  shows "retried (Suc k) now (mretry (fold (retry_one has_sink api now) ps m))
    \<and> max_attempts (mretry (fold (retry_one has_sink api now) ps m)) = max_attempts (mretry m)"
  using assms
proof (induction ps arbitrary: m)
  case (Cons p ps)
  then have "retried (Suc k) now (mretry (retry_one has_sink api now p m))"
    "max_attempts (mretry (retry_one has_sink api now p m)) = max_attempts (mretry m)"
    using retry_one_retried [of k now m p has_sink api] by simp_all
  with Cons show ?case by simp
qed simp

lemma process_retries_retried:
  assumes "\<forall>f \<in> set (retry_items (mretry m)). k \<le> unat (attempts f) \<and> next_retry_at f \<le> now"
  shows "retried (Suc k) now (mretry (process_retries has_sink api now m))
    \<and> max_attempts (mretry (process_retries has_sink api now m)) = max_attempts (mretry m)"
proof -
  have "filter (\<lambda>f. next_retry_at f \<le> now) (retry_items (mretry m)) = retry_items (mretry m)"
    "filter (\<lambda>f. \<not> next_retry_at f \<le> now) (retry_items (mretry m)) = []"
    using assms by (auto simp: filter_id_conv filter_empty_conv)
  then have "process_retries has_sink api now m
      = fold (retry_one has_sink api now) (retry_items (mretry m)) (m\<lparr>mretry := (mretry m)\<lparr>retry_items := []\<rparr>\<rparr>)"
    by (simp add: process_retries_def collect_ready_def)
  moreover have "retried (Suc k) now (mretry (m\<lparr>mretry := (mretry m)\<lparr>retry_items := []\<rparr>\<rparr>))"
    by (simp add: retried_def)
  ultimately show ?thesis using fold_retry_one_retried assms by fastforce
qed

text \<open>The retry half of a sequence of rounds, each with its time and with what the server does then.\<close>

definition retry_rounds ::
  "bool \<Rightarrow> (time \<times> (SuggestionFeedback \<Rightarrow> 'e + unit)) list \<Rightarrow> maintenance \<Rightarrow> maintenance" where
  "retry_rounds has_sink ticks m = fold (\<lambda>(now, api). process_retries has_sink api now) ticks m"

lemma retry_rounds_retried:
  assumes "retried (Suc k) t (mretry m)" "\<forall>x \<in> set ticks. t + secs 300 \<le> fst x"
    and "sorted_wrt (\<lambda>a b. fst a + secs 300 \<le> fst b) ticks"
  shows "\<exists>t'. retried (Suc k + length ticks) t' (mretry (retry_rounds has_sink ticks m))
    \<and> max_attempts (mretry (retry_rounds has_sink ticks m)) = max_attempts (mretry m)"
  using assms
proof (induction ticks arbitrary: k t m)
  case Nil
  then show ?case by (auto simp: retry_rounds_def)
next
  case (Cons x ticks)
  obtain now api where x: "x = (now, api)" by (cases x)
  let ?m = "process_retries has_sink api now m"
  have "\<forall>f \<in> set (retry_items (mretry m)). Suc k \<le> unat (attempts f) \<and> next_retry_at f \<le> now"
    using Cons.prems(1,2) x by (fastforce simp: retried_def)
  from process_retries_retried [OF this]
  have m: "retried (Suc (Suc k)) now (mretry ?m)" "max_attempts (mretry ?m) = max_attempts (mretry m)" by auto
  from Cons.IH [OF m(1)] Cons.prems(3) x m(2) show ?case by (auto simp: retry_rounds_def)
qed

text \<open>No feedback is retried for ever: however the server answers, once every queued feedback is due,
  as many rounds as the attempt limit plus one, at least five minutes apart and with nothing new queued, leave the
  retry queue empty.\<close>

theorem retry_queue_drains:
  assumes "\<forall>f \<in> set (retry_items (mretry m)). next_retry_at f \<le> fst (hd ticks)"
    and "sorted_wrt (\<lambda>a b. fst a + secs 300 \<le> fst b) ticks"
    and "length ticks = unat (max_attempts (mretry m)) + 1"
  shows "retry_items (mretry (retry_rounds has_sink ticks m)) = []"
proof -
  obtain now api rest where t: "ticks = (now, api) # rest" using assms(3) by (cases ticks) auto
  let ?m = "process_retries has_sink api now m"
  have m: "retried (Suc 0) now (mretry ?m)" "max_attempts (mretry ?m) = max_attempts (mretry m)"
    using process_retries_retried [of m 0 now] assms(1) t by auto
  have eq: "retry_rounds has_sink ticks m = retry_rounds has_sink rest ?m" by (simp add: retry_rounds_def t)
  obtain t' where t': "retried (Suc 0 + length rest) t' (mretry (retry_rounds has_sink rest ?m))"
    "max_attempts (mretry (retry_rounds has_sink rest ?m)) = max_attempts (mretry m)"
    using retry_rounds_retried [OF m(1), of rest has_sink] assms(2) t m(2) by auto
  have "f \<notin> set (retry_items (mretry (retry_rounds has_sink rest ?m)))" for f
  proof
    assume "f \<in> set (retry_items (mretry (retry_rounds has_sink rest ?m)))"
    then have "Suc 0 + length rest \<le> unat (attempts f)" "attempts f \<le> max_attempts (mretry m)"
      using t' by (auto simp: retried_def)
    with assms(3) t show False by (simp add: word_le_nat_alt)
  qed
  then show ?thesis unfolding eq by (metis list.set_intros(1) neq_Nil_conv)
qed

definition sample_maintenance :: maintenance where
  "sample_maintenance = \<lparr>mqueue = queue_new 5, mdeferred = deferred_new 5,
     mretry = enqueue_feedback 0 \<lparr>pf_suggestion_id = ''s'', pf_feedback_type = Accepted, pf_comment = None,
       attempts = 0, next_retry_at = 0\<rparr> (retry_queue_new 100 1), mcalls = [], mdeleted = [], mbadges = []\<rparr>"

definition server_down :: "SuggestionFeedback \<Rightarrow> string + unit" where
  "server_down fb = Inl ''connection refused''"

theorem retry_queue_drains_witness:
  "length (retry_items (mretry sample_maintenance)) = 1
   \<and> retry_items (mretry (retry_rounds False [(secs 10, server_down), (secs 400, server_down)] sample_maintenance)) = []"
proof -
  have "\<forall>f \<in> set (retry_items (mretry sample_maintenance)). next_retry_at f \<le> fst (hd [(secs 10, server_down), (secs 400, server_down)])"
    "sorted_wrt (\<lambda>a b. fst a + secs 300 \<le> fst b) [(secs 10, server_down), (secs 400, server_down)]"
    "length [(secs 10, server_down), (secs 400, server_down)] = unat (max_attempts (mretry sample_maintenance)) + 1"
    "length (retry_items (mretry sample_maintenance)) = 1"
    by (simp_all add: sample_maintenance_def enqueue_feedback_def push_back_retry_def retry_queue_new_def
        retry_delay_def secs_def nanos_per_sec_def)
  with retry_queue_drains [OF this(1-3)] show ?thesis by blast
qed

end
