(* ===== verification/CoreErrors.thy ===== *)
theory CoreErrors
  imports Prelude
begin

text \<open>
  The error type of the ports, \<open>CoreError\<close> of \<open>crates/oneshim-core/src/error.rs\<close>, and the error type of the
  storage crate with its conversion (\<open>crates/oneshim-storage/src/error.rs\<close>); \<open>OAuthErrorKind\<close>, which one of them carries, is of
  \<open>crates/oneshim-core/src/ports/oauth.rs\<close>. The \<open>code\<close> fields, which name a
  wire code, are left out, and wrapped errors of other crates are their texts.
\<close>

datatype OAuthErrorKind =
    InvalidGrant | InvalidClient | InvalidScope | ServerError | NetworkError | RateLimited | UnknownKind string

datatype CoreError =
    CConfig string | CNetwork string | CRequestTimeout u64 | CRateLimit u64 | CServiceUnavailable string
  | CAuth string | COAuthError string string | COAuthRefreshError string OAuthErrorKind string | CValidation string string
  | CInvalidArguments string | CNotFound string string | CElementNotFound string | CInternal string
  | CPolicyDenied string | CConsentRequired string | CConsentExpired | CSandboxInit string
  | CSandboxExecution string | CSandboxUnsupported string | CExecutionTimeout u64 | CPrivacyDenied string
  | CPermissionDenied string | COcrError string | CAnalysis string | CAudioCapture string
  | CSpeechToText string | CStorage string | CTimeWindow string | CSecretStoreError string
  | CSerialization string | CIo string

datatype StoreError =
    StCore CoreError | StSqlite string | StIo string | StSecretStore string | StNotFound string string
  | StEncryption string | StValidation string string | StConfig string | StInternal string

definition core_of_store_error :: "StoreError \<Rightarrow> CoreError" where
  "core_of_store_error err =
     (case err of
        StCore e \<Rightarrow> e
      | StSqlite msg \<Rightarrow> CStorage msg
      | StIo msg \<Rightarrow> CIo msg
      | StSecretStore msg \<Rightarrow> CSecretStoreError msg
      | StNotFound ty i \<Rightarrow> CNotFound ty i
      | StEncryption msg \<Rightarrow> CStorage (''encryption: '' @ msg)
      | StValidation f msg \<Rightarrow> CValidation f msg
      | StConfig msg \<Rightarrow> CConfig msg
      | StInternal msg \<Rightarrow> CStorage msg)"

end
