(* ===== verification/GuiTicket.thy ===== *)
theory GuiTicket
  imports Complex_Main PolicyToken CoreErrors
begin

text \<open>
  The data of GUI interaction sessions (\<open>crates/oneshim-core/src/models/gui.rs\<close>, \<open>ui_scene.rs\<close>) and what
  \<open>crates/oneshim-automation/src/gui_interaction/{crypto,helpers}.rs\<close> compute on it: execution tickets and
  their signatures, the candidates of a scene, the actions for a candidate, and the mapping of port errors. HMAC-SHA256,
  SHA-256, the JSON of an action list, the two-digit rendering of a confidence and the display of an error
  belong to other crates and are fields of \<open>gui_env\<close>. The \<open>code\<close> field of an error is fixed by its
  constructor and left out.
\<close>

section \<open>Errors\<close>

datatype GuiInteractionError =
    Unauthorized | NotFound string | BadRequest string | Forbidden string | FocusDrift string
  | TicketInvalid string | Unavailable string | InternalGui string

record gui_env =
  g_hmac :: "string \<Rightarrow> string \<Rightarrow> u8 list"
  g_sha256 :: "string \<Rightarrow> u8 list"
  g_actions_json :: "AutomationAction list \<Rightarrow> string option"
  g_fmt_conf :: "real \<Rightarrow> string"
  g_display :: "CoreError \<Rightarrow> string"

definition map_core_error :: "gui_env \<Rightarrow> CoreError \<Rightarrow> GuiInteractionError" where
  "map_core_error env err =
     (case err of
        CAuth _ \<Rightarrow> Unauthorized
      | CPolicyDenied msg \<Rightarrow> Forbidden msg
      | CPrivacyDenied msg \<Rightarrow> Forbidden msg
      | CPermissionDenied msg \<Rightarrow> Forbidden msg
      | CConsentRequired msg \<Rightarrow> Forbidden msg
      | CConsentExpired \<Rightarrow> Forbidden (''consent expired '' @ [CHR 0xE2, CHR 0x80, CHR 0x94] @ '' re-authorization required'')
      | CInvalidArguments msg \<Rightarrow> BadRequest msg
      | CElementNotFound msg \<Rightarrow> BadRequest msg
      | CServiceUnavailable msg \<Rightarrow> Unavailable msg
      | CSandboxUnsupported msg \<Rightarrow> Unavailable msg
      | CSandboxInit msg \<Rightarrow> Unavailable msg
      | CRequestTimeout ms \<Rightarrow> Unavailable (''request timed out after '' @ show_nat (unat ms) @ ''ms'')
      | CRateLimit s \<Rightarrow> Unavailable (''rate limited; retry after '' @ show_nat (unat s) @ ''s'')
      | other \<Rightarrow> InternalGui (g_display env other))"

section \<open>Scenes, sessions, tickets\<close>

record ElementBounds =
  box_x :: int
  box_y :: int
  box_width :: u32
  box_height :: u32

text \<open>The bounds in fractions of the screen, role, intent, state and parent of an element are only carried along.\<close>

record UiSceneElement =
  element_id :: string
  bbox_abs :: ElementBounds
  bbox_norm :: "real \<times> real \<times> real \<times> real"
  elabel :: string
  erole :: "string option"
  eintent :: "string option"
  estate :: "string option"
  confidence :: real
  text_masked :: "string option"
  parent_id :: "string option"

record UiScene =
  scene_schema :: string
  scene_id :: string
  scene_app :: "string option"
  screen_id :: "string option"
  scene_captured_at :: time
  screen_width :: u32
  screen_height :: u32
  elements :: "UiSceneElement list"

record FocusSnapshot =
  app_name :: string
  window_title :: string
  pid :: u32
  window_bounds :: "(int \<times> int \<times> u32 \<times> u32) option"
  captured_at :: time
  focus_hash :: string

record ExecutionBinding =
  bind_focus_hash :: string
  bind_app_name :: "string option"
  bind_pid :: "u32 option"

record FocusValidation =
  valid :: bool
  reason :: "string option"
  current_focus :: "FocusSnapshot option"

record HighlightTarget =
  target_id :: string
  target_bbox :: ElementBounds
  target_color :: string
  target_label :: "string option"

datatype GuiActionType = Click | DoubleClick | RightClick | TypeText

record GuiActionRequest =
  action_type :: GuiActionType
  text_of :: "string option"

record GuiCandidate =
  element :: UiSceneElement
  ranking_reason :: "string option"
  eligible :: bool

datatype GuiSessionState = Proposed | Highlighted | Confirmed | Executing | Executed | Cancelled | Expired

record GuiExecutionTicket =
  t_schema :: string
  t_ticket_id :: string
  t_session_id :: string
  t_scene_id :: string
  t_element_id :: string
  t_action_hash :: string
  t_focus_hash :: string
  t_issued_at :: time
  t_expires_at :: time
  t_nonce :: string
  t_signature :: string

record GuiInteractionSession =
  s_schema :: string
  s_session_id :: string
  s_state :: GuiSessionState
  s_scene :: UiScene
  s_focus :: FocusSnapshot
  s_candidates :: "GuiCandidate list"
  s_selected :: "string option"
  s_created_at :: time
  s_updated_at :: time
  s_expires_at :: time

section \<open>Tickets\<close>

text \<open>\<open>timestamp_millis\<close> rounds towards the past.\<close>

definition timestamp_millis :: "time \<Rightarrow> int" where
  "timestamp_millis t = t div 1000000"

definition ticket_signature_payload :: "GuiExecutionTicket \<Rightarrow> string" where
  "ticket_signature_payload t =
     t_session_id t @ ''|'' @ t_scene_id t @ ''|'' @ t_element_id t @ ''|'' @ t_action_hash t @ ''|'' @
     t_focus_hash t @ ''|'' @ show_int (timestamp_millis (t_issued_at t)) @ ''|'' @
     show_int (timestamp_millis (t_expires_at t)) @ ''|'' @ t_nonce t"

definition sign_ticket :: "gui_env \<Rightarrow> string \<Rightarrow> GuiExecutionTicket \<Rightarrow> string" where
  "sign_ticket env secret t = hex_lower (g_hmac env secret (ticket_signature_payload t))"

text \<open>\<open>decode_hex\<close> slices the input two bytes at a time. A slice that ends inside a character panics
  (the outer \<open>None\<close>); a pair that is not hexadecimal ends the decoding (the inner \<open>None\<close>).\<close>

fun decode_pairs :: "string \<Rightarrow> u8 list option option" where
  "decode_pairs [] = Some (Some [])"
| "decode_pairs [a] = Some None"
| "decode_pairs (a # b # cs) =
     (if cs \<noteq> [] \<and> continuation_byte (hd cs) then None
      else case u8_from_hex_pair a b of
             None \<Rightarrow> Some None
           | Some x \<Rightarrow> map_option (map_option ((#) x)) (decode_pairs cs))"

definition decode_hex :: "string \<Rightarrow> u8 list option option" where
  "decode_hex s = (if length s mod 2 \<noteq> 0 then Some None else decode_pairs s)"

definition verify_ticket :: "gui_env \<Rightarrow> string \<Rightarrow> GuiExecutionTicket \<Rightarrow> (GuiInteractionError + unit) option" where
  "verify_ticket env secret t =
     (case decode_hex (t_signature t) of
        None \<Rightarrow> None
      | Some None \<Rightarrow> Some (Inl (TicketInvalid ''ticket signature format is invalid''))
      | Some (Some sig) \<Rightarrow>
          Some (if sig = g_hmac env secret (ticket_signature_payload t) then Inr ()
                else Inl (TicketInvalid ''ticket signature mismatch'')))"

definition hash_actions :: "gui_env \<Rightarrow> AutomationAction list \<Rightarrow> GuiInteractionError + string" where
  "hash_actions env acts =
     (case g_actions_json env acts of
        None \<Rightarrow> Inl (InternalGui ''action hash serialization failed'')
      | Some payload \<Rightarrow> Inr (hex_lower (g_sha256 env payload)))"

section \<open>Candidates and actions\<close>

definition build_candidates :: "gui_env \<Rightarrow> UiScene \<Rightarrow> real \<Rightarrow> nat \<Rightarrow> GuiCandidate list" where
  "build_candidates env scene min_confidence max_candidates =
     take max_candidates
       (sort_key (\<lambda>c. - confidence (element c))
          (map (\<lambda>e. \<lparr>element = e, ranking_reason = Some (''confidence='' @ g_fmt_conf env (confidence e)), eligible = True\<rparr>)
             (filter (\<lambda>e. min_confidence \<le> confidence e) (elements scene))))"

text \<open>32-bit signed arithmetic: \<open>as i32\<close> reads the two's complement, \<open>/\<close> truncates, \<open>+\<close> wraps.\<close>

definition wrap_i32 :: "int \<Rightarrow> int" where "wrap_i32 i = sint (word_of_int i :: u32)"

definition half_extent :: "u32 \<Rightarrow> int" where
  "half_extent w = (let i = sint w in if 0 \<le> i then i div 2 else - ((- i) div 2))"

definition build_actions_for_candidate ::
  "GuiCandidate \<Rightarrow> GuiActionRequest \<Rightarrow> GuiInteractionError + AutomationAction list" where
  "build_actions_for_candidate c req =
     (let b = bbox_abs (element c);
          cx = wrap_i32 (box_x b + half_extent (box_width b));
          cy = wrap_i32 (box_y b + half_extent (box_height b))
      in case action_type req of
           Click \<Rightarrow> Inr [MouseClick ''left'' cx cy]
         | DoubleClick \<Rightarrow> Inr [MouseClick ''left'' cx cy, MouseClick ''left'' cx cy]
         | RightClick \<Rightarrow> Inr [MouseClick ''right'' cx cy]
         | TypeText \<Rightarrow>
             (case text_of req of
                Some t \<Rightarrow>
                  if trim t \<noteq> [] then Inr [MouseClick ''left'' cx cy, KeyType t]
                  else Inl (BadRequest ''type_text action requires non-empty text'')
              | None \<Rightarrow> Inl (BadRequest ''type_text action requires non-empty text'')))"

definition is_expired :: "time \<Rightarrow> time \<Rightarrow> bool" where
  "is_expired now expires_at \<longleftrightarrow> expires_at \<le> now"

definition is_expired_past_grace :: "time \<Rightarrow> time \<Rightarrow> int \<Rightarrow> bool" where
  "is_expired_past_grace now expires_at grace_secs \<longleftrightarrow> expires_at + secs grace_secs \<le> now"

section \<open>Lemmas\<close>

lemma hex_digit_not_continuation: "n < 16 \<Longrightarrow> \<not> continuation_byte (hex_digit n)"
  using hex_digit_class [of n]
  by (auto simp: continuation_byte_def is_ascii_hexdigit_def is_ascii_digit_def)

lemma decode_hex_lower: "decode_hex (hex_lower bs) = Some (Some bs)"
proof -
  have "decode_pairs (hex_lower bs) = Some (Some bs)"
  proof (induction bs)
    case (Cons b bs)
    have ok: "u8_from_hex_pair (hex_digit (unat b div 16)) (hex_digit (unat b mod 16)) = Some b"
      using hex_decode_lower [of "[b]"] by (simp add: hex_lower_def split: option.splits)
    have "\<not> continuation_byte (hd (hex_lower bs))" if "hex_lower bs \<noteq> []"
      using that hex_digit_not_continuation byte_nibbles by (cases bs) (auto simp: hex_lower_def)
    with ok Cons show ?case by (auto simp: hex_lower_Cons)
  qed (simp add: hex_lower_def)
  then show ?thesis by (simp add: decode_hex_def)
qed

text \<open>A ticket verifies right after it was signed.\<close>

lemma verify_signed:
  "verify_ticket env secret (t\<lparr>t_signature := sign_ticket env secret t\<rparr>) = Some (Inr ())"
  by (simp add: verify_ticket_def sign_ticket_def decode_hex_lower ticket_signature_payload_def)

lemma verify_ticket_Inr:
  "verify_ticket env secret t = Some (Inr u) \<longleftrightarrow>
     decode_hex (t_signature t) = Some (Some (g_hmac env secret (ticket_signature_payload t)))"
  by (auto simp: verify_ticket_def split: option.splits)

lemma build_candidates_props:
  assumes "c \<in> set (build_candidates env scene m n)"
  shows "element c \<in> set (elements scene)" "m \<le> confidence (element c)" "eligible c"
  using assms in_set_takeD by (force simp: build_candidates_def dest: in_set_takeD)+

lemma build_candidates_sorted:
  "sorted_wrt (\<lambda>a b. confidence (element b) \<le> confidence (element a)) (build_candidates env scene m n)
   \<and> length (build_candidates env scene m n) \<le> n"
proof -
  let ?xs = "sort_key (\<lambda>c. - confidence (element c)) (map (\<lambda>e. \<lparr>element = e, ranking_reason =
    Some (''confidence='' @ g_fmt_conf env (confidence e)), eligible = True\<rparr>) (filter (\<lambda>e. m \<le> confidence e) (elements scene)))"
  have "sorted_wrt (\<lambda>a b. confidence (element b) \<le> confidence (element a)) ?xs"
    using sorted_sort_key [of "\<lambda>c. - confidence (element c)"] by (simp add: sorted_map)
  then show ?thesis by (simp add: build_candidates_def sorted_wrt_take)
qed

end
