(* ===== verification/GuiSession.thy ===== *)
theory GuiSession
  imports GuiTicket
begin

text \<open>
  The GUI interaction service of \<open>crates/oneshim-automation/src/gui_interaction/service.rs\<close> and
  \<open>service_execution.rs\<close>. The session table is a map; published events and cleared overlays are kept as
  lists. UUIDs, tokens, clock readings and the answers of the focus probe, the scene finder and the overlay
  driver are arguments. A method that lets go of the table's lock while it waits for a port is split where it
  does: what it read goes into a flight, and its second half is a definition of its own, so that other calls can
  come between. The iteration order of the table in \<open>expire_sessions\<close> is an argument.
\<close>

section \<open>State\<close>

record ConfirmedAction =
  ca_candidate_id :: string
  ca_actions :: "AutomationAction list"
  ca_action_hash :: string
  ca_ticket :: GuiExecutionTicket

record StoredSession =
  session :: GuiInteractionSession
  capability_token :: string
  overlay_handle_id :: "string option"
  confirmed_action :: "ConfirmedAction option"
  used_ticket_nonces :: "string set"

record GuiSessionEvent =
  ev_schema :: string
  ev_type :: string
  ev_session_id :: string
  ev_state :: GuiSessionState
  ev_emitted_at :: time
  ev_message :: "string option"

record GuiInteractionService =
  sessions :: "string \<rightharpoonup> StoredSession"
  hmac_secret :: "string option"
  gui_events :: "GuiSessionEvent list"
  cleared_overlays :: "string list"

record GuiExecutionPlan =
  plan_session_id :: string
  plan_command_id :: string
  plan_actions :: "AutomationAction list"
  plan_ticket :: GuiExecutionTicket

definition gui_service_new :: "string option \<Rightarrow> GuiInteractionService" where
  "gui_service_new secret = \<lparr>sessions = Map.empty,
     hmac_secret = (case map_option trim secret of Some v \<Rightarrow> if v \<noteq> [] then Some v else None | None \<Rightarrow> None),
     gui_events = [], cleared_overlays = []\<rparr>"

definition require_hmac_secret :: "GuiInteractionService \<Rightarrow> GuiInteractionError + string" where
  "require_hmac_secret g =
     (case hmac_secret g of
        Some s \<Rightarrow> Inr s
      | None \<Rightarrow> Inl (Unavailable ''ONESHIM_GUI_TICKET_HMAC_SECRET is missing or empty''))"

definition assert_capability_token :: "string \<Rightarrow> string \<Rightarrow> GuiInteractionService \<Rightarrow> GuiInteractionError + unit" where
  "assert_capability_token sid tok g =
     (case sessions g sid of
        None \<Rightarrow> Inl (NotFound sid)
      | Some st \<Rightarrow> if capability_token st \<noteq> trim tok then Inl Unauthorized else Inr ())"

definition publish_event ::
  "time \<Rightarrow> string \<Rightarrow> GuiSessionState \<Rightarrow> string \<Rightarrow> string option \<Rightarrow> GuiInteractionService \<Rightarrow> GuiInteractionService" where
  "publish_event now sid st ty msg g =
     g\<lparr>gui_events := gui_events g @ [\<lparr>ev_schema = ''automation.gui.event.v1'', ev_type = ty, ev_session_id = sid, ev_state = st, ev_emitted_at = now, ev_message = msg\<rparr>]\<rparr>"

definition put_session :: "string \<Rightarrow> StoredSession \<Rightarrow> GuiInteractionService \<Rightarrow> GuiInteractionService" where
  "put_session sid st g = g\<lparr>sessions := (sessions g)(sid \<mapsto> st)\<rparr>"

definition set_state :: "GuiSessionState \<Rightarrow> StoredSession \<Rightarrow> StoredSession" where
  "set_state x st = st\<lparr>session := (session st)\<lparr>s_state := x\<rparr>\<rparr>"

definition touch :: "time \<Rightarrow> StoredSession \<Rightarrow> StoredSession" where
  "touch now st = st\<lparr>session := (session st)\<lparr>s_updated_at := now\<rparr>\<rparr>"

definition clear_overlay :: "string option \<Rightarrow> GuiInteractionService \<Rightarrow> GuiInteractionService" where
  "clear_overlay h g = (case h of None \<Rightarrow> g | Some i \<Rightarrow> g\<lparr>cleared_overlays := cleared_overlays g @ [i]\<rparr>)"

section \<open>Sessions\<close>

record GuiCreateSessionRequest =
  req_app_name :: "string option"
  req_screen_id :: "string option"
  req_min_confidence :: "real option"
  req_max_candidates :: "nat option"
  req_session_ttl_secs :: "u64 option"

definition clamp :: "'a :: linorder \<Rightarrow> 'a \<Rightarrow> 'a \<Rightarrow> 'a" where
  "clamp lo hi x = max lo (min hi x)"

definition session_ttl :: "u64 option \<Rightarrow> int" where
  "session_ttl req = clamp 30 3600 (case req of Some v \<Rightarrow> sint v | None \<Rightarrow> 300)"

definition ticket_ttl :: "u64 option \<Rightarrow> int" where
  "ticket_ttl req = clamp 5 300 (case req of Some v \<Rightarrow> sint v | None \<Rightarrow> 30)"

definition new_stored ::
  "time \<Rightarrow> string \<Rightarrow> string \<Rightarrow> FocusSnapshot \<Rightarrow> UiScene \<Rightarrow> GuiCandidate list \<Rightarrow> u64 option \<Rightarrow> StoredSession" where
  "new_stored now sid token focus scene candidates ttl =
     \<lparr>session = \<lparr>s_schema = ''automation.gui.v2'', s_session_id = sid, s_state = Proposed, s_scene = scene,
        s_focus = focus, s_candidates = candidates, s_selected = None, s_created_at = now,
        s_updated_at = now, s_expires_at = now + secs (session_ttl ttl)\<rparr>,
      capability_token = token, overlay_handle_id = None, confirmed_action = None, used_ticket_nonces = {}\<rparr>"

definition create_session ::
  "gui_env \<Rightarrow> time \<Rightarrow> string \<Rightarrow> string \<Rightarrow> CoreError + FocusSnapshot \<Rightarrow> CoreError + UiScene
   \<Rightarrow> GuiCreateSessionRequest \<Rightarrow> GuiInteractionService
   \<Rightarrow> (GuiInteractionError + GuiInteractionSession \<times> string) \<times> GuiInteractionService" where
  "create_session env now sid token focus_answer scene_answer req g =
     (case require_hmac_secret g of
        Inl e \<Rightarrow> (Inl e, g)
      | Inr _ \<Rightarrow>
     (case focus_answer of
        Inl e \<Rightarrow> (Inl (map_core_error env e), g)
      | Inr focus \<Rightarrow>
     (case scene_answer of
        Inl e \<Rightarrow> (Inl (map_core_error env e), g)
      | Inr scene \<Rightarrow>
          (let max_candidates = clamp 1 1000 (case req_max_candidates req of Some n \<Rightarrow> n | None \<Rightarrow> 20);
               min_confidence = clamp 0 1 (case req_min_confidence req of Some c \<Rightarrow> c | None \<Rightarrow> 1 / 2);
               candidates = build_candidates env scene min_confidence max_candidates
           in if candidates = [] then (Inl (BadRequest ''No eligible GUI candidates found in scene''), g)
              else
                (let st = new_stored now sid token focus scene candidates (req_session_ttl_secs req)
                 in (Inr (session st, token),
                     publish_event now sid Proposed ''gui_session.proposed'' None (put_session sid st g)))))))"

definition get_session ::
  "time \<Rightarrow> string \<Rightarrow> string \<Rightarrow> GuiInteractionService
   \<Rightarrow> (GuiInteractionError + GuiInteractionSession) \<times> GuiInteractionService" where
  "get_session now sid tok g =
     (case assert_capability_token sid tok g of
        Inl e \<Rightarrow> (Inl e, g)
      | Inr _ \<Rightarrow>
     (case sessions g sid of
        None \<Rightarrow> (Inl (NotFound sid), g)
      | Some st \<Rightarrow>
          (let st' = (if is_expired now (s_expires_at (session st)) then set_state Expired st else st)
           in (Inr (session st'), put_session sid st' g))))"

definition candidate_wanted :: "string list option \<Rightarrow> GuiCandidate \<Rightarrow> bool" where
  "candidate_wanted ids c =
     (case map_option (\<lambda>l. filter (\<lambda>v. v \<noteq> []) (map trim l)) ids of
        Some l \<Rightarrow> element_id (element c) \<in> set l
      | None \<Rightarrow> True)"

definition highlight_begin ::
  "time \<Rightarrow> string \<Rightarrow> string \<Rightarrow> string list option \<Rightarrow> GuiInteractionService
   \<Rightarrow> (GuiInteractionError + string \<times> HighlightTarget list \<times> string option) \<times> GuiInteractionService" where
  "highlight_begin now sid tok ids g =
     (case assert_capability_token sid tok g of
        Inl e \<Rightarrow> (Inl e, g)
      | Inr _ \<Rightarrow>
     (case sessions g sid of
        None \<Rightarrow> (Inl (NotFound sid), g)
      | Some st \<Rightarrow>
          if is_expired now (s_expires_at (session st))
          then (Inl (TicketInvalid ''Session already expired''), put_session sid (set_state Expired st) g)
          else
            (let targets = map (\<lambda>c. \<lparr>target_id = element_id (element c), target_bbox = bbox_abs (element c),
                                      target_color = ''#22c55e'', target_label = text_masked (element c)\<rparr>)
                             (filter (\<lambda>c. eligible c \<and> candidate_wanted ids c) (s_candidates (session st)))
             in if targets = [] then (Inl (BadRequest ''No highlight targets available''), g)
                else (Inr (scene_id (s_scene (session st)), targets, overlay_handle_id st), g))))"

definition highlight_commit ::
  "time \<Rightarrow> string \<Rightarrow> string \<Rightarrow> GuiInteractionService
   \<Rightarrow> (GuiInteractionError + GuiInteractionSession) \<times> GuiInteractionService" where
  "highlight_commit now sid handle g =
     (case sessions g sid of
        None \<Rightarrow> (Inl (NotFound sid), g)
      | Some st \<Rightarrow>
          (let st' = touch now (set_state Highlighted (st\<lparr>overlay_handle_id := Some handle\<rparr>))
           in (Inr (session st'),
               publish_event now sid Highlighted ''gui_session.highlighted'' None (put_session sid st' g))))"

text \<open>The whole method when nothing comes between; \<open>show\<close> is the overlay driver's answer.\<close>

definition highlight_session ::
  "gui_env \<Rightarrow> time \<Rightarrow> string \<Rightarrow> string \<Rightarrow> string list option
   \<Rightarrow> (string \<Rightarrow> string \<Rightarrow> HighlightTarget list \<Rightarrow> CoreError + string) \<Rightarrow> GuiInteractionService
   \<Rightarrow> (GuiInteractionError + GuiInteractionSession) \<times> GuiInteractionService" where
  "highlight_session env now sid tok ids show_highlights g =
     (case highlight_begin now sid tok ids g of
        (Inl e, g1) \<Rightarrow> (Inl e, g1)
      | (Inr (scene, targets, previous), g1) \<Rightarrow>
          (let g2 = clear_overlay previous g1
           in case show_highlights sid scene targets of
                Inl e \<Rightarrow> (Inl (map_core_error env e), g2)
              | Inr handle \<Rightarrow> highlight_commit now sid handle g2))"

definition cancel_session ::
  "time \<Rightarrow> string \<Rightarrow> string \<Rightarrow> GuiInteractionService
   \<Rightarrow> (GuiInteractionError + GuiInteractionSession) \<times> GuiInteractionService" where
  "cancel_session now sid tok g =
     (case assert_capability_token sid tok g of
        Inl e \<Rightarrow> (Inl e, g)
      | Inr _ \<Rightarrow>
     (case sessions g sid of
        None \<Rightarrow> (Inl (NotFound sid), g)
      | Some st \<Rightarrow>
          (let st' = touch now (set_state Cancelled st)
           in (Inr (session st'),
               publish_event now sid Cancelled ''gui_session.cancelled'' None
                 (clear_overlay (overlay_handle_id st) (put_session sid (st'\<lparr>overlay_handle_id := None\<rparr>) g))))))"

definition expired_ids :: "time \<Rightarrow> GuiInteractionService \<Rightarrow> string set" where
  "expired_ids now g = {sid. \<exists>st. sessions g sid = Some st \<and> s_expires_at (session st) \<le> now}"

definition expire_sessions :: "time \<Rightarrow> string list \<Rightarrow> GuiInteractionService \<Rightarrow> GuiInteractionService" where
  "expire_sessions now ids g =
     (let overlays = map (\<lambda>sid. case sessions g sid of Some st \<Rightarrow> overlay_handle_id st | None \<Rightarrow> None) ids;
          g1 = g\<lparr>sessions := fold (\<lambda>sid m. m(sid := None)) ids (sessions g)\<rparr>;
          g2 = fold clear_overlay overlays g1
      in fold (\<lambda>sid. publish_event now sid Expired ''gui_session.expired'' None) ids g2)"

section \<open>Confirmation\<close>

record GuiConfirmRequest =
  req_candidate_id :: string
  req_action :: GuiActionRequest
  req_ticket_ttl_secs :: "u64 option"

text \<open>What \<open>confirm_candidate\<close> holds while it waits for the focus probe.\<close>

record confirm_flight =
  cf_session_id :: string
  cf_request :: GuiConfirmRequest
  cf_secret :: string
  cf_focus :: FocusSnapshot
  cf_candidate :: GuiCandidate
  cf_scene_id :: string

definition confirm_begin ::
  "time \<Rightarrow> string \<Rightarrow> string \<Rightarrow> GuiConfirmRequest \<Rightarrow> GuiInteractionService
   \<Rightarrow> (GuiInteractionError + confirm_flight) \<times> GuiInteractionService" where
  "confirm_begin now sid tok req g =
     (case require_hmac_secret g of
        Inl e \<Rightarrow> (Inl e, g)
      | Inr secret \<Rightarrow>
     (case assert_capability_token sid tok g of
        Inl e \<Rightarrow> (Inl e, g)
      | Inr _ \<Rightarrow>
     (case sessions g sid of
        None \<Rightarrow> (Inl (NotFound sid), g)
      | Some st \<Rightarrow>
          if is_expired now (s_expires_at (session st))
          then (Inl (TicketInvalid ''Session already expired''), put_session sid (set_state Expired st) g)
          else
            (case find (\<lambda>c. element_id (element c) = req_candidate_id req) (s_candidates (session st)) of
               None \<Rightarrow> (Inl (BadRequest (''Unknown candidate_id '' @ [CHR 0x27] @ req_candidate_id req @ [CHR 0x27])), g)
             | Some c \<Rightarrow>
                 if \<not> eligible c then (Inl (BadRequest ''Selected candidate is not eligible''), g)
                 else (Inr \<lparr>cf_session_id = sid, cf_request = req, cf_secret = secret, cf_focus = s_focus (session st),
                            cf_candidate = c, cf_scene_id = scene_id (s_scene (session st))\<rparr>, g)))))"

definition binding_of :: "FocusSnapshot \<Rightarrow> ExecutionBinding" where
  "binding_of f = \<lparr>bind_focus_hash = focus_hash f, bind_app_name = Some (app_name f), bind_pid = Some (pid f)\<rparr>"

definition drift_reason :: "FocusValidation \<Rightarrow> string" where
  "drift_reason v = (case reason v of Some r \<Rightarrow> r | None \<Rightarrow> ''Focused window changed'')"

definition make_ticket ::
  "gui_env \<Rightarrow> time \<Rightarrow> string \<Rightarrow> string \<Rightarrow> string \<Rightarrow> confirm_flight \<Rightarrow> GuiExecutionTicket" where
  "make_ticket env now ticket_uuid nonce_uuid action_hash f =
     (let t = \<lparr>t_schema = ''automation.gui.ticket.v1'', t_ticket_id = ticket_uuid, t_session_id = cf_session_id f,
               t_scene_id = cf_scene_id f, t_element_id = element_id (element (cf_candidate f)),
               t_action_hash = action_hash, t_focus_hash = focus_hash (cf_focus f), t_issued_at = now,
               t_expires_at = now + secs (ticket_ttl (req_ticket_ttl_secs (cf_request f))),
               t_nonce = nonce_uuid, t_signature = []\<rparr>
      in t\<lparr>t_signature := sign_ticket env (cf_secret f) t\<rparr>)"

definition store_confirmed :: "time \<Rightarrow> ConfirmedAction \<Rightarrow> StoredSession \<Rightarrow> StoredSession" where
  "store_confirmed now ca st =
     (let st1 = set_state Confirmed (st\<lparr>confirmed_action := Some ca\<rparr>)
      in touch now (st1\<lparr>session := (session st1)\<lparr>s_selected := Some (ca_candidate_id ca)\<rparr>\<rparr>))"

definition confirm_finish ::
  "gui_env \<Rightarrow> time \<Rightarrow> string \<Rightarrow> string \<Rightarrow> (ExecutionBinding \<Rightarrow> CoreError + FocusValidation) \<Rightarrow> confirm_flight
   \<Rightarrow> GuiInteractionService \<Rightarrow> (GuiInteractionError + GuiExecutionTicket) \<times> GuiInteractionService" where
  "confirm_finish env now ticket_uuid nonce_uuid probe f g =
     (case probe (binding_of (cf_focus f)) of
        Inl e \<Rightarrow> (Inl (map_core_error env e), g)
      | Inr v \<Rightarrow>
          if \<not> valid v then (Inl (FocusDrift (drift_reason v)), g)
          else
     (case build_actions_for_candidate (cf_candidate f) (req_action (cf_request f)) of
        Inl e \<Rightarrow> (Inl e, g)
      | Inr actions \<Rightarrow>
     (case hash_actions env actions of
        Inl e \<Rightarrow> (Inl e, g)
      | Inr action_hash \<Rightarrow>
          (let ticket = make_ticket env now ticket_uuid nonce_uuid action_hash f; sid = cf_session_id f
           in case sessions g sid of
                None \<Rightarrow> (Inl (NotFound sid), g)
              | Some st \<Rightarrow>
                  (let ca = \<lparr>ca_candidate_id = req_candidate_id (cf_request f), ca_actions = actions,
                             ca_action_hash = action_hash, ca_ticket = ticket\<rparr>
                   in (Inr ticket,
                       publish_event now sid Confirmed ''gui_session.confirmed''
                         (Some (''candidate_id='' @ req_candidate_id (cf_request f))) (put_session sid (store_confirmed now ca st) g)))))))"

definition confirm_candidate ::
  "gui_env \<Rightarrow> time \<Rightarrow> string \<Rightarrow> string \<Rightarrow> (ExecutionBinding \<Rightarrow> CoreError + FocusValidation) \<Rightarrow> string \<Rightarrow> string
   \<Rightarrow> GuiConfirmRequest \<Rightarrow> GuiInteractionService
   \<Rightarrow> (GuiInteractionError + GuiExecutionTicket) \<times> GuiInteractionService" where
  "confirm_candidate env now ticket_uuid nonce_uuid probe sid tok req g =
     (case confirm_begin now sid tok req g of
        (Inl e, g1) \<Rightarrow> (Inl e, g1)
      | (Inr f, g1) \<Rightarrow> confirm_finish env now ticket_uuid nonce_uuid probe f g1)"

section \<open>Execution\<close>

definition dbg_state :: "GuiSessionState \<Rightarrow> string" where
  "dbg_state s = (case s of
     Proposed \<Rightarrow> ''Proposed'' | Highlighted \<Rightarrow> ''Highlighted'' | Confirmed \<Rightarrow> ''Confirmed'' | Executing \<Rightarrow> ''Executing''
   | Executed \<Rightarrow> ''Executed'' | Cancelled \<Rightarrow> ''Cancelled'' | Expired \<Rightarrow> ''Expired'')"

text \<open>What \<open>prepare_execution\<close> holds while it waits for the focus probe.\<close>

record prepare_flight =
  pf_session_id :: string
  pf_ticket :: GuiExecutionTicket
  pf_focus :: FocusSnapshot
  pf_confirmed :: ConfirmedAction

definition prepare_check ::
  "gui_env \<Rightarrow> time \<Rightarrow> string \<Rightarrow> string \<Rightarrow> GuiExecutionTicket \<Rightarrow> GuiInteractionService
   \<Rightarrow> (GuiInteractionError + prepare_flight) option" where
  "prepare_check env now sid tok ticket g =
     (case require_hmac_secret g of
        Inl e \<Rightarrow> Some (Inl e)
      | Inr secret \<Rightarrow>
     (case assert_capability_token sid tok g of
        Inl e \<Rightarrow> Some (Inl e)
      | Inr _ \<Rightarrow>
     (case sessions g sid of
        None \<Rightarrow> Some (Inl (NotFound sid))
      | Some st \<Rightarrow>
     (case confirmed_action st of
        None \<Rightarrow> Some (Inl (TicketInvalid ''Session has no confirmed action''))
      | Some ca \<Rightarrow>
          if is_expired now (s_expires_at (session st)) then Some (Inl (TicketInvalid ''Session already expired''))
          else if s_state (session st) \<noteq> Confirmed
          then Some (Inl (TicketInvalid (''Session state must be confirmed, current='' @ dbg_state (s_state (session st)))))
          else
     (case verify_ticket env secret ticket of
        None \<Rightarrow> None
      | Some (Inl e) \<Rightarrow> Some (Inl e)
      | Some (Inr _) \<Rightarrow>
          Some (if t_session_id ticket \<noteq> sid then Inl (TicketInvalid ''ticket.session_id mismatch'')
                else if t_ticket_id ticket \<noteq> t_ticket_id (ca_ticket ca) then Inl (TicketInvalid ''ticket_id mismatch'')
                else if t_element_id ticket \<noteq> ca_candidate_id ca then Inl (TicketInvalid ''element_id mismatch'')
                else if t_action_hash ticket \<noteq> ca_action_hash ca then Inl (TicketInvalid ''action_hash mismatch'')
                else if is_expired_past_grace now (t_expires_at ticket) 5 then Inl (TicketInvalid ''ticket expired'')
                else Inr \<lparr>pf_session_id = sid, pf_ticket = ticket, pf_focus = s_focus (session st), pf_confirmed = ca\<rparr>))))))"

text \<open>The probe is asked up to three times; \<open>probe\<close> answers the n-th question.\<close>

fun focus_loop ::
  "gui_env \<Rightarrow> (nat \<Rightarrow> CoreError + FocusValidation) \<Rightarrow> nat \<Rightarrow> nat \<Rightarrow> string \<Rightarrow> GuiInteractionError + unit" where
  "focus_loop env probe attempt 0 last_drift_reason = Inl (FocusDrift last_drift_reason)"
| "focus_loop env probe attempt (Suc left) last_drift_reason =
     (case probe attempt of
        Inl e \<Rightarrow> Inl (map_core_error env e)
      | Inr v \<Rightarrow> if valid v then Inr () else focus_loop env probe (Suc attempt) left (drift_reason v))"

definition prepare_commit ::
  "time \<Rightarrow> prepare_flight \<Rightarrow> GuiInteractionService
   \<Rightarrow> (GuiInteractionError + GuiExecutionPlan) \<times> GuiInteractionService" where
  "prepare_commit now f g =
     (let sid = pf_session_id f; ticket = pf_ticket f
      in case sessions g sid of
           None \<Rightarrow> (Inl (NotFound sid), g)
         | Some st \<Rightarrow>
             if t_nonce ticket \<in> used_ticket_nonces st
             then (Inl (TicketInvalid ''ticket nonce replay detected''), g)
             else
               (let st' = touch now (set_state Executing
                            (st\<lparr>used_ticket_nonces := insert (t_nonce ticket) (used_ticket_nonces st)\<rparr>))
                in (Inr \<lparr>plan_session_id = sid,
                         plan_command_id = ''gui-action-'' @ show_int \<bar>timestamp_millis now\<bar>,
                         plan_actions = ca_actions (pf_confirmed f), plan_ticket = ticket\<rparr>,
                    publish_event now sid Executing ''gui_session.executing''
                      (Some (''ticket_id='' @ t_ticket_id ticket)) (put_session sid st' g))))"

definition prepare_finish ::
  "gui_env \<Rightarrow> time \<Rightarrow> (ExecutionBinding \<Rightarrow> nat \<Rightarrow> CoreError + FocusValidation) \<Rightarrow> prepare_flight \<Rightarrow> GuiInteractionService
   \<Rightarrow> (GuiInteractionError + GuiExecutionPlan) \<times> GuiInteractionService" where
  "prepare_finish env now probe f g =
     (case focus_loop env (probe (binding_of (pf_focus f))) 0 3 [] of
        Inl e \<Rightarrow> (Inl e, g)
      | Inr _ \<Rightarrow> prepare_commit now f g)"

definition prepare_execution ::
  "gui_env \<Rightarrow> time \<Rightarrow> (ExecutionBinding \<Rightarrow> nat \<Rightarrow> CoreError + FocusValidation) \<Rightarrow> string \<Rightarrow> string
   \<Rightarrow> GuiExecutionTicket \<Rightarrow> GuiInteractionService
   \<Rightarrow> ((GuiInteractionError + GuiExecutionPlan) \<times> GuiInteractionService) option" where
  "prepare_execution env now probe sid tok ticket g =
     (case prepare_check env now sid tok ticket g of
        None \<Rightarrow> None
      | Some (Inl e) \<Rightarrow> Some (Inl e, g)
      | Some (Inr f) \<Rightarrow> Some (prepare_finish env now probe f g))"

record GuiExecutionOutcome =
  out_session :: GuiInteractionSession
  out_succeeded :: bool
  out_detail :: "string option"
  out_steps_completed :: nat
  out_total_steps :: nat

definition complete_execution ::
  "time \<Rightarrow> string \<Rightarrow> bool \<Rightarrow> string option \<Rightarrow> nat \<Rightarrow> nat \<Rightarrow> GuiInteractionService
   \<Rightarrow> (GuiInteractionError + GuiExecutionOutcome) \<times> GuiInteractionService" where
  "complete_execution now sid succeeded detail steps_completed total_steps g =
     (case sessions g sid of
        None \<Rightarrow> (Inl (NotFound sid), g)
      | Some st \<Rightarrow>
          (let st1 = touch now (set_state (if succeeded then Executed else Confirmed) st);
               g1 = clear_overlay (overlay_handle_id st) (put_session sid (st1\<lparr>overlay_handle_id := None\<rparr>) g);
               g2 = publish_event now sid (s_state (session st1))
                      (if succeeded then ''gui_session.executed'' else ''gui_session.execution_failed'') detail g1
           in (Inr \<lparr>out_session = session st1, out_succeeded = succeeded, out_detail = detail,
                    out_steps_completed = steps_completed, out_total_steps = total_steps\<rparr>, g2)))"

end
