(* ===== verification/GuiRuns.thy ===== *)
theory GuiRuns
  imports GuiSession
begin

text \<open>
  Runs of the GUI interaction service in which calls overlap. A step is one critical section of a method; a flight
  is a call that has let go of the lock and is waiting for a port. The run also keeps what was handed out so far:
  session ids, offered candidates and execution plans. A flight is never taken away, so that the statements even
  cover one that finishes twice; an overlay answer may come at any time for any session.
\<close>

section \<open>Steps\<close>

record gui_run =
  svc :: GuiInteractionService
  confirms :: "confirm_flight set"
  prepares :: "prepare_flight set"
  issued_ids :: "string set"
  offered :: "(string \<times> GuiCandidate) set"
  plans :: "GuiExecutionPlan list"

definition gui_run_start :: "string option \<Rightarrow> gui_run" where
  "gui_run_start secret = \<lparr>svc = gui_service_new secret, confirms = {}, prepares = {}, issued_ids = {}, offered = {}, plans = []\<rparr>"

definition offers_of :: "string \<Rightarrow> GuiInteractionService \<Rightarrow> (string \<times> GuiCandidate) set" where
  "offers_of sid g = (case sessions g sid of Some st \<Rightarrow> Pair sid ` set (s_candidates (session st)) | None \<Rightarrow> {})"

text \<open>The hypothesis on session ids is that of random UUIDs: a new one was never used before.\<close>

inductive gui_step :: "gui_env \<Rightarrow> gui_run \<Rightarrow> gui_run \<Rightarrow> bool" for env where
  create: "\<lbrakk>sid \<notin> issued_ids r; create_session env now sid tok fa sa req (svc r) = (res, g)\<rbrakk> \<Longrightarrow>
     gui_step env r (r\<lparr>svc := g, issued_ids := insert sid (issued_ids r), offered := offered r \<union> offers_of sid g\<rparr>)"
| get: "get_session now sid tok (svc r) = (res, g) \<Longrightarrow> gui_step env r (r\<lparr>svc := g\<rparr>)"
| highlight_begin: "highlight_begin now sid tok cs (svc r) = (res, g) \<Longrightarrow> gui_step env r (r\<lparr>svc := g\<rparr>)"
| highlight_clear: "gui_step env r (r\<lparr>svc := clear_overlay h (svc r)\<rparr>)"
| highlight_commit: "highlight_commit now sid h (svc r) = (res, g) \<Longrightarrow> gui_step env r (r\<lparr>svc := g\<rparr>)"
| cancel: "cancel_session now sid tok (svc r) = (res, g) \<Longrightarrow> gui_step env r (r\<lparr>svc := g\<rparr>)"
| expire: "distinct ids \<Longrightarrow> set ids = expired_ids now (svc r) \<Longrightarrow>
     gui_step env r (r\<lparr>svc := expire_sessions now ids (svc r)\<rparr>)"
| confirm_refused: "confirm_begin now sid tok req (svc r) = (Inl e, g) \<Longrightarrow> gui_step env r (r\<lparr>svc := g\<rparr>)"
| confirm_begin: "confirm_begin now sid tok req (svc r) = (Inr f, g) \<Longrightarrow>
     gui_step env r (r\<lparr>svc := g, confirms := insert f (confirms r)\<rparr>)"
| confirm_finish: "\<lbrakk>f \<in> confirms r; confirm_finish env now tid nonce probe f (svc r) = (res, g)\<rbrakk> \<Longrightarrow>
     gui_step env r (r\<lparr>svc := g\<rparr>)"
| prepare_check: "prepare_check env now sid tok ticket (svc r) = Some (Inr f) \<Longrightarrow>
     gui_step env r (r\<lparr>prepares := insert f (prepares r)\<rparr>)"
| prepare_refused: "\<lbrakk>f \<in> prepares r; prepare_finish env now probe2 f (svc r) = (Inl e, g)\<rbrakk> \<Longrightarrow>
     gui_step env r (r\<lparr>svc := g\<rparr>)"
| prepare_finish: "\<lbrakk>f \<in> prepares r; prepare_finish env now probe2 f (svc r) = (Inr p, g)\<rbrakk> \<Longrightarrow>
     gui_step env r (r\<lparr>svc := g, plans := plans r @ [p]\<rparr>)"
| complete: "complete_execution now sid ok detail n m (svc r) = (res, g) \<Longrightarrow> gui_step env r (r\<lparr>svc := g\<rparr>)"

inductive gui_reach :: "gui_env \<Rightarrow> string option \<Rightarrow> gui_run \<Rightarrow> bool" for env secret where
  start: "gui_reach env secret (gui_run_start secret)"
| step: "gui_reach env secret r \<Longrightarrow> gui_step env r r' \<Longrightarrow> gui_reach env secret r'"

section \<open>Quiet steps\<close>

text \<open>Most critical sections only move a session between states or drop it: they keep its candidates and its
  confirmed action, and forget no nonce.\<close>

definition quiet :: "GuiInteractionService \<Rightarrow> GuiInteractionService \<Rightarrow> bool" where
  "quiet g g' \<longleftrightarrow> hmac_secret g' = hmac_secret g \<and>
     (\<forall>sid st'. sessions g' sid = Some st' \<longrightarrow>
        (\<exists>st. sessions g sid = Some st \<and> s_candidates (session st') = s_candidates (session st)
           \<and> confirmed_action st' = confirmed_action st \<and> used_ticket_nonces st \<subseteq> used_ticket_nonces st'))"

lemma quiet_refl [simp]: "quiet g g"
  by (auto simp: quiet_def)

lemma quiet_publish [simp]: "quiet g (publish_event now sid s ty msg g') = quiet g g'"
  by (simp add: quiet_def publish_event_def)

lemma quiet_clear [simp]: "quiet g (clear_overlay h g') = quiet g g'"
  by (simp add: quiet_def clear_overlay_def split: option.splits)

lemma quiet_put:
  assumes "sessions g sid = Some st" "s_candidates (session st') = s_candidates (session st)"
    and "confirmed_action st' = confirmed_action st" "used_ticket_nonces st \<subseteq> used_ticket_nonces st'"
  shows "quiet g (put_session sid st' g)"
  using assms by (auto simp: quiet_def put_session_def)

lemmas session_updates = set_state_def touch_def

lemma quiet_get: "get_session now sid tok g = (res, g') \<Longrightarrow> quiet g g'"
  by (auto simp: get_session_def Let_def session_updates split: sum.splits option.splits intro!: quiet_put)

lemma quiet_highlight_begin: "highlight_begin now sid tok cs g = (res, g') \<Longrightarrow> quiet g g'"
  by (auto simp: highlight_begin_def Let_def session_updates split: sum.splits option.splits if_splits intro!: quiet_put)

lemma quiet_highlight_commit: "highlight_commit now sid h g = (res, g') \<Longrightarrow> quiet g g'"
  by (auto simp: highlight_commit_def Let_def session_updates split: option.splits intro!: quiet_put)

lemma quiet_cancel: "cancel_session now sid tok g = (res, g') \<Longrightarrow> quiet g g'"
  by (auto simp: cancel_session_def Let_def session_updates split: sum.splits option.splits intro!: quiet_put)

lemma quiet_complete: "complete_execution now sid ok d n m g = (res, g') \<Longrightarrow> quiet g g'"
  by (auto simp: complete_execution_def Let_def session_updates split: option.splits intro!: quiet_put)

lemma quiet_confirm_begin: "confirm_begin now sid tok req g = (res, g') \<Longrightarrow> quiet g g'"
  by (auto simp: confirm_begin_def Let_def session_updates split: sum.splits option.splits if_splits intro!: quiet_put)

lemma quiet_prepare_finish: "prepare_finish env now probe f g = (res, g') \<Longrightarrow> quiet g g'"
  by (auto simp: prepare_finish_def prepare_commit_def Let_def session_updates
      split: sum.splits option.splits if_splits intro!: quiet_put)

lemma fold_drop: "fold (\<lambda>sid m. m(sid := None)) ids m = m |` (- set ids)"
  by (induction ids arbitrary: m) (auto simp: restrict_map_def fun_eq_iff)

lemma quiet_expire: "quiet g (expire_sessions now ids g)"
proof -
  have pub: "quiet g (fold (\<lambda>sid. publish_event now sid Expired ''gui_session.expired'' None) xs g') = quiet g g'" for xs g'
    by (induction xs arbitrary: g') auto
  have clr: "quiet g (fold clear_overlay hs g') = quiet g g'" for hs g'
    by (induction hs arbitrary: g') auto
  show ?thesis
    by (simp add: expire_sessions_def Let_def pub clr) (auto simp: quiet_def fold_drop restrict_map_def split: if_splits)
qed

section \<open>Invariant\<close>

text \<open>An action list is backed when it was built, for some request, from an eligible candidate that was offered
  to the session, and has the hash that goes with it.\<close>

definition backed ::
  "gui_env \<Rightarrow> (string \<times> GuiCandidate) set \<Rightarrow> string \<Rightarrow> string \<Rightarrow> AutomationAction list \<Rightarrow> string \<Rightarrow> bool" where
  "backed env off sid eid acts h \<longleftrightarrow>
     (\<exists>c req. (sid, c) \<in> off \<and> eligible c \<and> element_id (element c) = eid
        \<and> build_actions_for_candidate c req = Inr acts \<and> hash_actions env acts = Inr h)"

lemma backed_mono: "backed env off sid eid acts h \<Longrightarrow> off \<subseteq> off' \<Longrightarrow> backed env off' sid eid acts h"
  by (auto simp: backed_def)

definition plan_ok :: "gui_env \<Rightarrow> string option \<Rightarrow> (string \<times> GuiCandidate) set \<Rightarrow> GuiExecutionPlan \<Rightarrow> bool" where
  "plan_ok env secret off p \<longleftrightarrow>
     t_session_id (plan_ticket p) = plan_session_id p
     \<and> (\<exists>k. secret = Some k \<and> decode_hex (t_signature (plan_ticket p))
            = Some (Some (g_hmac env k (ticket_signature_payload (plan_ticket p)))))
     \<and> backed env off (plan_session_id p) (t_element_id (plan_ticket p)) (plan_actions p) (t_action_hash (plan_ticket p))"

definition svc_ok :: "gui_env \<Rightarrow> string option \<Rightarrow> string set \<Rightarrow> (string \<times> GuiCandidate) set \<Rightarrow> GuiInteractionService \<Rightarrow> bool" where
  "svc_ok env secret ids off g \<longleftrightarrow> hmac_secret g = secret \<and>
     (\<forall>sid st. sessions g sid = Some st \<longrightarrow> sid \<in> ids
        \<and> (\<forall>c \<in> set (s_candidates (session st)). (sid, c) \<in> off)
        \<and> (\<forall>ca. confirmed_action st = Some ca \<longrightarrow>
             backed env off sid (ca_candidate_id ca) (ca_actions ca) (ca_action_hash ca)))"

definition flight_ok :: "(string \<times> GuiCandidate) set \<Rightarrow> confirm_flight \<Rightarrow> bool" where
  "flight_ok off f \<longleftrightarrow> (cf_session_id f, cf_candidate f) \<in> off \<and> eligible (cf_candidate f)
     \<and> element_id (element (cf_candidate f)) = req_candidate_id (cf_request f)"

definition prep_ok :: "gui_env \<Rightarrow> string option \<Rightarrow> (string \<times> GuiCandidate) set \<Rightarrow> prepare_flight \<Rightarrow> bool" where
  "prep_ok env secret off f \<longleftrightarrow>
     plan_ok env secret off \<lparr>plan_session_id = pf_session_id f, plan_command_id = [],
       plan_actions = ca_actions (pf_confirmed f), plan_ticket = pf_ticket f\<rparr>"

definition plan_key :: "GuiExecutionPlan \<Rightarrow> string \<times> string" where
  "plan_key p = (plan_session_id p, t_nonce (plan_ticket p))"

definition spent :: "string set \<Rightarrow> GuiInteractionService \<Rightarrow> GuiExecutionPlan list \<Rightarrow> bool" where
  "spent ids g ps \<longleftrightarrow> (\<forall>p \<in> set ps. plan_session_id p \<in> ids
     \<and> (\<forall>st. sessions g (plan_session_id p) = Some st \<longrightarrow> t_nonce (plan_ticket p) \<in> used_ticket_nonces st))"

definition gui_inv :: "gui_env \<Rightarrow> string option \<Rightarrow> gui_run \<Rightarrow> bool" where
  "gui_inv env secret r \<longleftrightarrow>
     svc_ok env secret (issued_ids r) (offered r) (svc r)
     \<and> (\<forall>f \<in> confirms r. flight_ok (offered r) f)
     \<and> (\<forall>f \<in> prepares r. prep_ok env secret (offered r) f)
     \<and> (\<forall>p \<in> set (plans r). plan_ok env secret (offered r) p)
     \<and> spent (issued_ids r) (svc r) (plans r) \<and> distinct (map plan_key (plans r))"

lemma quiet_svc_ok: "svc_ok env secret ids off g \<Longrightarrow> quiet g g' \<Longrightarrow> svc_ok env secret ids off g'"
  unfolding svc_ok_def quiet_def by metis

lemma quiet_spent: "spent ids g ps \<Longrightarrow> quiet g g' \<Longrightarrow> spent ids g' ps"
  unfolding spent_def quiet_def by (meson subsetD)

lemma gui_inv_quiet: "gui_inv env secret r \<Longrightarrow> quiet (svc r) g \<Longrightarrow> gui_inv env secret (r\<lparr>svc := g\<rparr>)"
  by (auto simp: gui_inv_def intro: quiet_svc_ok quiet_spent)

lemma confirm_begin_flight:
  assumes "confirm_begin now sid tok req g = (Inr f, g')" "svc_ok env secret ids off g"
  shows "flight_ok off f"
  using assms by (auto simp: confirm_begin_def svc_ok_def flight_ok_def split: sum.splits option.splits if_splits
      dest!: find_SomeD)

lemma prepare_check_ok:
  assumes "prepare_check env now sid tok ticket g = Some (Inr f)" "svc_ok env secret ids off g"
  shows "prep_ok env secret off f"
  using assms
  by (auto simp: prepare_check_def prep_ok_def plan_ok_def svc_ok_def require_hmac_secret_def verify_ticket_Inr
      split: sum.splits option.splits if_splits)

lemma confirm_finish_cases:
  assumes "confirm_finish env now tid nonce probe f g = (res, g')"
  obtains "g' = g"
  | acts h st ca msg where "build_actions_for_candidate (cf_candidate f) (req_action (cf_request f)) = Inr acts"
      "hash_actions env acts = Inr h" "sessions g (cf_session_id f) = Some st"
      "ca = \<lparr>ca_candidate_id = req_candidate_id (cf_request f), ca_actions = acts, ca_action_hash = h,
             ca_ticket = make_ticket env now tid nonce h f\<rparr>"
      "g' = publish_event now (cf_session_id f) Confirmed ''gui_session.confirmed'' msg
              (put_session (cf_session_id f) (store_confirmed now ca st) g)"
proof -
  note cf = assms [unfolded confirm_finish_def Let_def]
  show thesis
  proof (cases "g' = g")
    case False
    obtain v where v: "probe (binding_of (cf_focus f)) = Inr v" "valid v"
      using cf False by (cases "probe (binding_of (cf_focus f))") (auto split: if_splits)
    obtain acts where acts: "build_actions_for_candidate (cf_candidate f) (req_action (cf_request f)) = Inr acts"
      using cf v False by (cases "build_actions_for_candidate (cf_candidate f) (req_action (cf_request f))") auto
    obtain h where h: "hash_actions env acts = Inr h" using cf v acts False by (cases "hash_actions env acts") auto
    obtain st where st: "sessions g (cf_session_id f) = Some st"
      using cf v acts h False by (cases "sessions g (cf_session_id f)") auto
    show thesis by (rule that(2) [OF acts h st refl]) (use cf v acts h st in auto)
  qed (rule that(1))
qed

lemma confirm_finish_ok:
  assumes "confirm_finish env now tid nonce probe f g = (res, g')" "flight_ok off f" "svc_ok env secret ids off g"
  shows "svc_ok env secret ids off g' \<and> (spent ids g ps \<longrightarrow> spent ids g' ps)"
  using assms(1)
proof (cases rule: confirm_finish_cases)
  case 1
  then show ?thesis using assms(3) by simp
next
  case (2 acts h st ca msg)
  have "backed env off (cf_session_id f) (ca_candidate_id ca) (ca_actions ca) (ca_action_hash ca)"
    using 2(1,2,4) assms(2) by (auto simp: backed_def flight_ok_def)
  moreover have "sessions g' = (sessions g)(cf_session_id f \<mapsto> store_confirmed now ca st)" "hmac_secret g' = hmac_secret g"
    using 2(5) by (simp_all add: publish_event_def put_session_def)
  moreover have "confirmed_action (store_confirmed now ca st) = Some ca"
    "s_candidates (session (store_confirmed now ca st)) = s_candidates (session st)"
    "used_ticket_nonces (store_confirmed now ca st) = used_ticket_nonces st"
    by (simp_all add: store_confirmed_def session_updates Let_def)
  ultimately show ?thesis using assms(3) 2(3) unfolding svc_ok_def spent_def by auto
qed

lemma create_session_cases:
  assumes "create_session env now sid tok fa sa req g = (res, g')"
  shows "g' = g \<or> (\<exists>st. confirmed_action st = None \<and> sessions g' = (sessions g)(sid \<mapsto> st) \<and> hmac_secret g' = hmac_secret g)"
proof -
  have "g' = g \<or> (\<exists>focus scene cands. g' = publish_event now sid Proposed ''gui_session.proposed'' None
      (put_session sid (new_stored now sid tok focus scene cands (req_session_ttl_secs req)) g))"
    using assms by (auto simp: create_session_def Let_def split: sum.splits if_splits)
  moreover have "confirmed_action (new_stored now sid tok focus scene cands ttl) = None" for focus scene cands ttl
    by (simp add: new_stored_def)
  moreover have "sessions (publish_event now sid s ty m (put_session sid st g)) = (sessions g)(sid \<mapsto> st)"
    "hmac_secret (publish_event now sid s ty m (put_session sid st g)) = hmac_secret g" for s ty m st
    by (simp_all add: publish_event_def put_session_def)
  ultimately show ?thesis by blast
qed

lemma create_session_ok:
  assumes "create_session env now sid tok fa sa req g = (res, g')" "sid \<notin> ids" "svc_ok env secret ids off g"
  shows "svc_ok env secret (insert sid ids) (off \<union> offers_of sid g') g'
    \<and> (spent ids g ps \<longrightarrow> spent (insert sid ids) g' ps)"
proof -
  have mono: "svc_ok env secret (insert sid ids) (off \<union> offers_of sid g') g"
    using assms(3) unfolding svc_ok_def by (meson Un_upper1 backed_mono insertI2 subsetD)
  from create_session_cases [OF assms(1)] show ?thesis
  proof (elim disjE exE conjE)
    assume "g' = g"
    then show ?thesis using mono by (auto simp: spent_def)
  next
    fix st assume st: "confirmed_action st = None" "sessions g' = (sessions g)(sid \<mapsto> st)" "hmac_secret g' = hmac_secret g"
    have "\<forall>c \<in> set (s_candidates (session st)). (sid, c) \<in> off \<union> offers_of sid g'"
      by (simp add: offers_of_def st(2))
    with mono st have "svc_ok env secret (insert sid ids) (off \<union> offers_of sid g') g'"
      unfolding svc_ok_def by auto
    then show ?thesis using st(2) assms(2) by (auto simp: spent_def)
  qed
qed

lemma prepare_finish_plan:
  assumes "prepare_finish env now probe f g = (Inr p, g')"
  shows "\<exists>st st'. sessions g (pf_session_id f) = Some st \<and> t_nonce (pf_ticket f) \<notin> used_ticket_nonces st
    \<and> plan_session_id p = pf_session_id f \<and> plan_ticket p = pf_ticket f \<and> plan_actions p = ca_actions (pf_confirmed f)
    \<and> sessions g' (pf_session_id f) = Some st' \<and> t_nonce (pf_ticket f) \<in> used_ticket_nonces st'"
  using assms
  by (auto simp: prepare_finish_def prepare_commit_def Let_def session_updates put_session_def publish_event_def
      split: sum.splits option.splits if_splits)

lemma gui_inv_plan:
  assumes inv: "gui_inv env secret r" and f: "f \<in> prepares r"
    and fin: "prepare_finish env now probe f (svc r) = (Inr p, g)"
  shows "gui_inv env secret (r\<lparr>svc := g, plans := plans r @ [p]\<rparr>)"
proof -
  obtain st st' where st: "sessions (svc r) (pf_session_id f) = Some st" "t_nonce (pf_ticket f) \<notin> used_ticket_nonces st"
    "plan_session_id p = pf_session_id f" "plan_ticket p = pf_ticket f" "plan_actions p = ca_actions (pf_confirmed f)"
    "sessions g (pf_session_id f) = Some st'" "t_nonce (pf_ticket f) \<in> used_ticket_nonces st'"
    using prepare_finish_plan [OF fin] by auto
  have q: "quiet (svc r) g" by (rule quiet_prepare_finish [OF fin])
  have old: "gui_inv env secret (r\<lparr>svc := g\<rparr>)" by (rule gui_inv_quiet [OF inv q])
  have "plan_ok env secret (offered r) p"
    using inv f st(3,4,5) by (auto simp: gui_inv_def prep_ok_def plan_ok_def)
  moreover have "plan_key p \<notin> plan_key ` set (plans r)"
    using inv st(1-4) by (auto simp: gui_inv_def spent_def plan_key_def)
  moreover have "pf_session_id f \<in> issued_ids r" using inv st(1) by (auto simp: gui_inv_def svc_ok_def)
  ultimately show ?thesis using old st by (auto simp: gui_inv_def spent_def)
qed

lemma gui_inv_create:
  assumes inv: "gui_inv env secret r" and new: "sid \<notin> issued_ids r"
    and c: "create_session env now sid tok fa sa req (svc r) = (res, g)"
  shows "gui_inv env secret (r\<lparr>svc := g, issued_ids := insert sid (issued_ids r), offered := offered r \<union> offers_of sid g\<rparr>)"
proof -
  have "svc_ok env secret (insert sid (issued_ids r)) (offered r \<union> offers_of sid g) g"
    "spent (insert sid (issued_ids r)) g (plans r)"
    using create_session_ok [OF c new] inv by (auto simp: gui_inv_def)
  moreover have "plan_ok env secret (offered r) p \<Longrightarrow> plan_ok env secret (offered r \<union> offers_of sid g) p" for p
    by (auto simp: plan_ok_def intro: backed_mono)
  ultimately show ?thesis using inv by (auto simp: gui_inv_def flight_ok_def prep_ok_def)
qed

lemma gui_inv_step: "gui_step env r r' \<Longrightarrow> gui_inv env secret r \<Longrightarrow> gui_inv env secret r'"
proof (induction rule: gui_step.induct)
  case (create sid r now tok fa sa req res g)
  then show ?case by (intro gui_inv_create)
next
  case (confirm_begin now sid tok req r f g)
  have "quiet (svc r) g" by (rule quiet_confirm_begin [OF confirm_begin.hyps])
  then have "gui_inv env secret (r\<lparr>svc := g\<rparr>)" by (rule gui_inv_quiet [OF confirm_begin.prems])
  moreover have "flight_ok (offered r) f"
    using confirm_begin.prems by (auto simp: gui_inv_def intro: confirm_begin_flight [OF confirm_begin.hyps])
  ultimately show ?case by (auto simp: gui_inv_def)
next
  case (confirm_finish f r now tid nonce probe res g)
  have "flight_ok (offered r) f" "svc_ok env secret (issued_ids r) (offered r) (svc r)"
    using confirm_finish.hyps(1) confirm_finish.prems by (auto simp: gui_inv_def)
  from confirm_finish_ok [OF confirm_finish.hyps(2) this, of "plans r"] confirm_finish.prems
  show ?case by (auto simp: gui_inv_def)
next
  case (prepare_check now sid tok ticket r f)
  then show ?case by (auto simp: gui_inv_def intro: prepare_check_ok)
next
  case (prepare_finish f r now probe2 p g)
  then show ?case by (intro gui_inv_plan)
qed (auto intro: gui_inv_quiet quiet_get quiet_highlight_begin quiet_highlight_commit quiet_cancel quiet_expire
    quiet_confirm_begin quiet_prepare_finish quiet_complete)

lemma gui_reach_inv:
  "gui_reach env s r \<Longrightarrow> gui_inv env (hmac_secret (gui_service_new s)) r"
proof (induction rule: gui_reach.induct)
  case start
  show ?case by (simp add: gui_inv_def gui_run_start_def svc_ok_def spent_def gui_service_new_def)
next
  case (step r r')
  then show ?case by (blast intro: gui_inv_step)
qed

section \<open>Confirming, then executing\<close>

lemma confirm_begin_Inr:
  assumes "confirm_begin now sid tok req g = (Inr f, g1)"
  obtains secret st c where "g1 = g" "hmac_secret g = Some secret" "sessions g sid = Some st"
    "capability_token st = trim tok" "\<not> is_expired now (s_expires_at (session st))"
    "find (\<lambda>c. element_id (element c) = req_candidate_id req) (s_candidates (session st)) = Some c" "eligible c"
    "f = \<lparr>cf_session_id = sid, cf_request = req, cf_secret = secret, cf_focus = s_focus (session st),
          cf_candidate = c, cf_scene_id = scene_id (s_scene (session st))\<rparr>"
  using assms
  by (auto simp: confirm_begin_def require_hmac_secret_def assert_capability_token_def
      split: sum.splits option.splits if_splits)

lemma confirm_finish_Inr:
  assumes "confirm_finish env now tid nonce probe f g = (Inr ticket, g1)"
  obtains acts h st where
    "build_actions_for_candidate (cf_candidate f) (req_action (cf_request f)) = Inr acts" "hash_actions env acts = Inr h"
    "sessions g (cf_session_id f) = Some st" "ticket = make_ticket env now tid nonce h f"
    "g1 = publish_event now (cf_session_id f) Confirmed ''gui_session.confirmed''
       (Some (''candidate_id='' @ req_candidate_id (cf_request f)))
       (put_session (cf_session_id f) (store_confirmed now \<lparr>ca_candidate_id = req_candidate_id (cf_request f),
          ca_actions = acts, ca_action_hash = h, ca_ticket = ticket\<rparr> st) g)"
  using assms by (auto simp: confirm_finish_def Let_def split: sum.splits option.splits if_splits)

lemma verify_make_ticket: "verify_ticket env (cf_secret f) (make_ticket env now tid nonce h f) = Some (Inr ())"
  unfolding make_ticket_def Let_def by (rule verify_signed)

lemma focus_loop_Inr:
  "focus_loop env probe 0 3 r = Inr () \<longleftrightarrow>
     (\<exists>k<3. (\<exists>v. probe k = Inr v \<and> valid v) \<and> (\<forall>j<k. \<exists>v. probe j = Inr v \<and> \<not> valid v))"
proof -
  have ex: "(\<exists>k<3. P k) \<longleftrightarrow> P 0 \<or> P 1 \<or> P (2 :: nat)" for P by (auto simp: numeral_3_eq_3 less_Suc_eq numeral_2_eq_2)
  show ?thesis unfolding ex
    by (auto simp: numeral_3_eq_3 numeral_2_eq_2 less_Suc_eq split: sum.splits if_splits)
qed

lemma prepare_confirmed:
  assumes conf: "confirm_candidate env now tid nonce probe sid tok req g = (Inr ticket, g1)"
    and st: "sessions g sid = Some st" and fresh: "nonce \<notin> used_ticket_nonces st"
    and time: "now2 < s_expires_at (session st)" "now2 < t_expires_at ticket + secs 5"
    and focus: "focus_loop env (probe2 (binding_of (s_focus (session st)))) 0 3 [] = Inr ()"
  shows "\<exists>c plan g2 st2. c \<in> set (s_candidates (session st)) \<and> eligible c
    \<and> element_id (element c) = req_candidate_id req
    \<and> prepare_execution env now2 probe2 sid tok ticket g1 = Some (Inr plan, g2)
    \<and> build_actions_for_candidate c (req_action req) = Inr (plan_actions plan)
    \<and> plan_session_id plan = sid \<and> plan_ticket plan = ticket
    \<and> sessions g2 sid = Some st2 \<and> s_state (session st2) = Executing \<and> s_expires_at (session st2) = s_expires_at (session st)
    \<and> capability_token st2 = trim tok \<and> hmac_secret g2 \<noteq> None \<and> confirmed_action st2 \<noteq> None"
proof -
  obtain f where b: "confirm_begin now sid tok req g = (Inr f, g)"
    and fin: "confirm_finish env now tid nonce probe f g = (Inr ticket, g1)"
    using conf by (auto simp: confirm_candidate_def split: prod.splits sum.splits elim: confirm_begin_Inr)
  from b obtain secret c where c: "hmac_secret g = Some secret" "capability_token st = trim tok"
    "find (\<lambda>c. element_id (element c) = req_candidate_id req) (s_candidates (session st)) = Some c" "eligible c"
    "f = \<lparr>cf_session_id = sid, cf_request = req, cf_secret = secret, cf_focus = s_focus (session st),
          cf_candidate = c, cf_scene_id = scene_id (s_scene (session st))\<rparr>"
    using st by (elim confirm_begin_Inr) auto
  have cand: "element_id (element c) = req_candidate_id req" "c \<in> set (s_candidates (session st))"
    using find_SomeD [OF c(3)] by auto
  from fin obtain acts h where a: "build_actions_for_candidate c (req_action req) = Inr acts" "hash_actions env acts = Inr h"
    "ticket = make_ticket env now tid nonce h f"
    "g1 = publish_event now sid Confirmed ''gui_session.confirmed'' (Some (''candidate_id='' @ req_candidate_id req))
       (put_session sid (store_confirmed now \<lparr>ca_candidate_id = req_candidate_id req,
          ca_actions = acts, ca_action_hash = h, ca_ticket = ticket\<rparr> st) g)"
    using c(5) st by (elim confirm_finish_Inr) auto
  define ca where "ca = \<lparr>ca_candidate_id = req_candidate_id req, ca_actions = acts, ca_action_hash = h, ca_ticket = ticket\<rparr>"
  define st1 where "st1 = store_confirmed now ca st"
  have s1: "sessions g1 sid = Some st1" "hmac_secret g1 = Some secret"
    by (simp_all add: a(4) publish_event_def put_session_def st1_def ca_def c(1))
  have st1: "capability_token st1 = trim tok" "confirmed_action st1 = Some ca" "s_state (session st1) = Confirmed"
    "s_expires_at (session st1) = s_expires_at (session st)" "s_focus (session st1) = s_focus (session st)"
    "used_ticket_nonces st1 = used_ticket_nonces st"
    by (simp_all add: st1_def store_confirmed_def session_updates Let_def c(2))
  have v: "verify_ticket env secret ticket = Some (Inr ())"
    using verify_make_ticket [of env f now tid nonce h] c(5) a(3) by simp
  have t: "t_session_id ticket = sid" "t_ticket_id ticket = t_ticket_id (ca_ticket ca)" "t_element_id ticket = req_candidate_id req"
    "t_action_hash ticket = h" "t_nonce ticket = nonce"
    by (simp_all add: a(3) ca_def make_ticket_def Let_def c(5) cand(1))
  have chk: "prepare_check env now2 sid tok ticket g1
      = Some (Inr \<lparr>pf_session_id = sid, pf_ticket = ticket, pf_focus = s_focus (session st), pf_confirmed = ca\<rparr>)"
    using s1 st1 v t time
    by (simp add: prepare_check_def require_hmac_secret_def assert_capability_token_def is_expired_def
        is_expired_past_grace_def ca_def)
  show ?thesis using chk focus s1 st1 fresh t a(1) cand c(4)
    by (simp add: prepare_execution_def prepare_finish_def prepare_commit_def session_updates Let_def
        publish_event_def put_session_def ca_def)
      blast
qed

text \<open>Calls made one after the other are runs.\<close>

lemma reach_confirm:
  assumes r: "gui_reach env secret r"
    and conf: "confirm_candidate env now tid nonce probe sid tok req (svc r) = (Inr ticket, g1)"
  shows "\<exists>C. gui_reach env secret (r\<lparr>confirms := C, svc := g1\<rparr>)"
proof -
  obtain f where b: "confirm_begin now sid tok req (svc r) = (Inr f, svc r)"
    and fin: "confirm_finish env now tid nonce probe f (svc r) = (Inr ticket, g1)"
    using conf by (auto simp: confirm_candidate_def split: prod.splits sum.splits elim: confirm_begin_Inr)
  let ?r = "r\<lparr>svc := svc r, confirms := insert f (confirms r)\<rparr>"
  have "gui_reach env secret ?r" by (rule gui_reach.step [OF r gui_step.confirm_begin [OF b]])
  moreover have "gui_step env ?r (?r\<lparr>svc := g1\<rparr>)"
    by (rule gui_step.confirm_finish [where f = f and now = now and tid = tid and nonce = nonce and probe = probe
          and res = "Inr ticket"]) (simp_all add: fin)
  ultimately have "gui_reach env secret (?r\<lparr>svc := g1\<rparr>)" by (rule gui_reach.step)
  then show ?thesis by auto
qed

lemma reach_prepare:
  assumes r: "gui_reach env secret r"
    and prep: "prepare_execution env now probe sid tok ticket (svc r) = Some (Inr plan, g2)"
  shows "\<exists>P. gui_reach env secret (r\<lparr>prepares := P, svc := g2, plans := plans r @ [plan]\<rparr>)"
proof -
  obtain f where c: "prepare_check env now sid tok ticket (svc r) = Some (Inr f)"
    and fin: "prepare_finish env now probe f (svc r) = (Inr plan, g2)"
    using prep by (auto simp: prepare_execution_def split: option.splits sum.splits)
  let ?r = "r\<lparr>prepares := insert f (prepares r)\<rparr>"
  have "gui_reach env secret ?r" by (rule gui_reach.step [OF r gui_step.prepare_check [OF c]])
  moreover have "gui_step env ?r (?r\<lparr>svc := g2, plans := plans ?r @ [plan]\<rparr>)"
    by (rule gui_step.prepare_finish [where f = f and now = now and ?probe2.0 = probe]) (simp_all add: fin)
  ultimately have "gui_reach env secret (?r\<lparr>svc := g2, plans := plans ?r @ [plan]\<rparr>)" by (rule gui_reach.step)
  then show ?thesis by auto
qed

section \<open>A sample session\<close>

definition gui_sample_env :: gui_env where
  "gui_sample_env = \<lparr>g_hmac = (\<lambda>k p. [of_nat (length k), of_nat (length p)]), g_sha256 = (\<lambda>p. [of_nat (length p)]),
     g_actions_json = (\<lambda>a. Some (replicate (length a) CHR ''a'')), g_fmt_conf = (\<lambda>x. ''0.90''),
     g_display = (\<lambda>e. ''error'')\<rparr>"

definition save_button :: UiSceneElement where
  "save_button = \<lparr>element_id = ''el-1'', bbox_abs = \<lparr>box_x = 10, box_y = 20, box_width = 100, box_height = 30\<rparr>,
     bbox_norm = (0, 0, 1, 1), elabel = ''Save'', erole = None, eintent = None, estate = None, confidence = 9 / 10,
     text_masked = None, parent_id = None\<rparr>"

definition editor_scene :: UiScene where
  "editor_scene = \<lparr>scene_schema = ''ui_scene.v1'', scene_id = ''scene'', scene_app = None, screen_id = None,
     scene_captured_at = 0, screen_width = 800, screen_height = 600, elements = [save_button]\<rparr>"

definition editor_focus :: FocusSnapshot where
  "editor_focus = \<lparr>app_name = ''editor'', window_title = ''doc'', pid = 7, window_bounds = None, captured_at = 0, focus_hash = ''fh''\<rparr>"

definition plain_request :: GuiCreateSessionRequest where
  "plain_request = \<lparr>req_app_name = None, req_screen_id = None, req_min_confidence = None,
     req_max_candidates = None, req_session_ttl_secs = None\<rparr>"

definition click_save :: GuiConfirmRequest where
  "click_save = \<lparr>req_candidate_id = ''el-1'', req_action = \<lparr>action_type = Click, text_of = None\<rparr>, req_ticket_ttl_secs = None\<rparr>"

definition save_candidate :: GuiCandidate where
  "save_candidate = \<lparr>element = save_button, ranking_reason = Some ''confidence=0.90'', eligible = True\<rparr>"

definition focus_kept :: FocusValidation where
  "focus_kept = \<lparr>valid = True, reason = None, current_focus = None\<rparr>"

definition svc_created :: GuiInteractionService where
  "svc_created = snd (create_session gui_sample_env 0 ''s1'' ''tok'' (Inr editor_focus) (Inr editor_scene) plain_request
     (gui_service_new (Some ''key'')))"

definition stored_created :: StoredSession where
  "stored_created = new_stored 0 ''s1'' ''tok'' editor_focus editor_scene [save_candidate] None"

lemma sample_secret: "hmac_secret (gui_service_new (Some ''key'')) = Some ''key''"
  by (simp add: gui_service_new_def trim_graphic graphic_def)

lemma sample_candidates: "build_candidates gui_sample_env editor_scene (1 / 2) 20 = [save_candidate]"
  by (simp add: build_candidates_def editor_scene_def save_candidate_def gui_sample_env_def save_button_def)

lemma sample_created:
  "svc_created = publish_event 0 ''s1'' Proposed ''gui_session.proposed'' None
     (put_session ''s1'' stored_created (gui_service_new (Some ''key'')))"
  by (simp add: svc_created_def create_session_def require_hmac_secret_def sample_secret plain_request_def clamp_def
      sample_candidates stored_created_def Let_def)

lemma svc_created_simps [simp]:
  "sessions svc_created = [''s1'' \<mapsto> stored_created]" "hmac_secret svc_created = Some ''key''"
  by (simp_all add: sample_created publish_event_def put_session_def sample_secret, simp add: gui_service_new_def)

lemma sample_run: "\<exists>I off. gui_reach gui_sample_env (Some ''key'')
  \<lparr>svc = svc_created, confirms = {}, prepares = {}, issued_ids = I, offered = off, plans = []\<rparr>"
proof -
  have "create_session gui_sample_env 0 ''s1'' ''tok'' (Inr editor_focus) (Inr editor_scene) plain_request
      (svc (gui_run_start (Some ''key'')))
    = (fst (create_session gui_sample_env 0 ''s1'' ''tok'' (Inr editor_focus) (Inr editor_scene) plain_request
      (gui_service_new (Some ''key''))), svc_created)"
    by (simp add: svc_created_def gui_run_start_def)
  from gui_reach.step [OF gui_reach.start gui_step.create [OF _ this]] show ?thesis
    by (auto simp: gui_run_start_def)
qed

definition save_ticket :: GuiExecutionTicket where
  "save_ticket = projr (fst (confirm_candidate gui_sample_env 0 ''t1'' ''n1'' (\<lambda>b. Inr focus_kept) ''s1'' ''tok'' click_save svc_created))"

definition svc_confirmed :: GuiInteractionService where
  "svc_confirmed = snd (confirm_candidate gui_sample_env 0 ''t1'' ''n1'' (\<lambda>b. Inr focus_kept) ''s1'' ''tok'' click_save svc_created)"

lemma sample_token [simp]: "trim ''tok'' = ''tok''"
  by (simp add: trim_graphic graphic_def)

lemma sample_confirm:
  "confirm_candidate gui_sample_env 0 ''t1'' ''n1'' (\<lambda>b. Inr focus_kept) ''s1'' ''tok'' click_save svc_created
   = (Inr save_ticket, svc_confirmed) \<and> t_expires_at save_ticket = secs 30"
proof -
  have "confirm_begin 0 ''s1'' ''tok'' click_save svc_created = (Inr \<lparr>cf_session_id = ''s1'', cf_request = click_save,
      cf_secret = ''key'', cf_focus = editor_focus, cf_candidate = save_candidate, cf_scene_id = ''scene''\<rparr>, svc_created)"
    by (simp add: confirm_begin_def require_hmac_secret_def assert_capability_token_def stored_created_def new_stored_def
        is_expired_def session_ttl_def clamp_def secs_def nanos_per_sec_def save_candidate_def save_button_def click_save_def
        editor_scene_def)
  then show ?thesis
    by (simp add: svc_confirmed_def save_ticket_def confirm_candidate_def confirm_finish_def focus_kept_def
        build_actions_for_candidate_def click_save_def hash_actions_def gui_sample_env_def Let_def make_ticket_def
        ticket_ttl_def clamp_def)
qed

lemma sample_focus_loop: "focus_loop gui_sample_env (\<lambda>n. Inr focus_kept) 0 3 [] = Inr ()"
  by (simp add: numeral_3_eq_3 focus_kept_def)

lemma sample_stored [simp]:
  "used_ticket_nonces stored_created = {}" "s_expires_at (session stored_created) = secs 300"
  "capability_token stored_created = ''tok''"
  by (simp_all add: stored_created_def new_stored_def session_ttl_def clamp_def)

lemma sample_prepare:
  "\<exists>plan g2. prepare_execution gui_sample_env 5 (\<lambda>b n. Inr focus_kept) ''s1'' ''tok'' save_ticket svc_confirmed = Some (Inr plan, g2)
     \<and> plan_ticket plan = save_ticket"
  using prepare_confirmed [OF conjunct1 [OF sample_confirm], of stored_created 5 "\<lambda>b n. Inr focus_kept"]
    sample_focus_loop conjunct2 [OF sample_confirm]
  by (auto simp: secs_def nanos_per_sec_def)

lemma sample_plan_run: "\<exists>r plan. gui_reach gui_sample_env (Some ''key'') r \<and> plans r = [plan] \<and> plan_ticket plan = save_ticket"
proof -
  obtain I off where r: "gui_reach gui_sample_env (Some ''key'')
    \<lparr>svc = svc_created, confirms = {}, prepares = {}, issued_ids = I, offered = off, plans = []\<rparr>"
    using sample_run by blast
  obtain C where r2: "gui_reach gui_sample_env (Some ''key'')
    \<lparr>svc = svc_confirmed, confirms = C, prepares = {}, issued_ids = I, offered = off, plans = []\<rparr>"
    using reach_confirm [OF r, of 0 "''t1''" "''n1''" "\<lambda>b. Inr focus_kept" "''s1''" "''tok''" click_save save_ticket svc_confirmed]
      sample_confirm by auto
  obtain plan g2 where p: "prepare_execution gui_sample_env 5 (\<lambda>b n. Inr focus_kept) ''s1'' ''tok'' save_ticket svc_confirmed = Some (Inr plan, g2)"
    "plan_ticket plan = save_ticket" using sample_prepare by blast
  obtain P where "gui_reach gui_sample_env (Some ''key'')
    \<lparr>svc = g2, confirms = C, prepares = P, issued_ids = I, offered = off, plans = [plan]\<rparr>"
    using reach_prepare [OF r2, of 5 "\<lambda>b n. Inr focus_kept" "''s1''" "''tok''" save_ticket plan g2] p by auto
  then show ?thesis using p(2) by force
qed

section \<open>Properties\<close>

text \<open>C16: however calls overlap, a ticket runs at most once: among all execution plans ever handed out, no two
  are for the same session with the same ticket nonce, even when two requests with one ticket pass every check before
  either is committed.\<close>

theorem gui_ticket_runs_once:
  assumes "gui_reach env secret r"
  shows "distinct (map (\<lambda>p. (plan_session_id p, t_nonce (plan_ticket p))) (plans r))"
  using gui_reach_inv [OF assms] unfolding gui_inv_def plan_key_def by simp

theorem gui_ticket_runs_once_witness:
  "\<exists>(r :: gui_run). length (plans r) = 1 \<and> distinct (map (\<lambda>p. (plan_session_id p, t_nonce (plan_ticket p))) (plans r))"
proof -
  obtain r p where r: "gui_reach gui_sample_env (Some ''key'') r" "plans r = [p]" using sample_plan_run by blast
  show ?thesis using gui_ticket_runs_once [OF r(1)] r(2) by (intro exI [of _ r]) simp
qed

text \<open>C17: however calls overlap, every execution plan is authorized: its ticket is for its session and carries a
  signature that decodes to the HMAC of the ticket under the service's secret, and its actions are those built, for some
  request, from an eligible candidate that was offered to that session and is the one the ticket names, with the hash the
  ticket carries.\<close>

theorem gui_plan_authorized:
  assumes "gui_reach env secret r" "p \<in> set (plans r)"
  shows "t_session_id (plan_ticket p) = plan_session_id p
    \<and> (\<exists>k. hmac_secret (gui_service_new secret) = Some k
         \<and> decode_hex (t_signature (plan_ticket p)) = Some (Some (g_hmac env k (ticket_signature_payload (plan_ticket p)))))
    \<and> (\<exists>c req. (plan_session_id p, c) \<in> offered r \<and> eligible c \<and> element_id (element c) = t_element_id (plan_ticket p)
         \<and> build_actions_for_candidate c req = Inr (plan_actions p)
         \<and> hash_actions env (plan_actions p) = Inr (t_action_hash (plan_ticket p)))"
  using gui_reach_inv [OF assms(1)] assms(2) unfolding gui_inv_def plan_ok_def backed_def by blast

theorem gui_plan_authorized_witness:
  "\<exists>(r :: gui_run) p. p \<in> set (plans r) \<and> plan_ticket p = save_ticket \<and> t_session_id (plan_ticket p) = plan_session_id p
     \<and> hash_actions gui_sample_env (plan_actions p) = Inr (t_action_hash (plan_ticket p))"
proof -
  obtain r p where r: "gui_reach gui_sample_env (Some ''key'') r" "plans r = [p]" "plan_ticket p = save_ticket"
    using sample_plan_run by blast
  then have p: "p \<in> set (plans r)" by simp
  show ?thesis using gui_plan_authorized [OF r(1) p] r(3) p by (intro exI [of _ r] exI [of _ p]) auto
qed

text \<open>A ticket returned by \<open>confirm_candidate\<close> is good for exactly the confirmed action: presented before the
  session ends and within five seconds of its own expiry, while one of three focus probes confirms the window, it yields a
  plan with the actions built for the chosen candidate. Presented again it is refused.\<close>

theorem gui_confirmed_ticket_executes:
  assumes "confirm_candidate env now tid nonce probe sid tok req g = (Inr ticket, g1)"
    and "sessions g sid = Some st" "nonce \<notin> used_ticket_nonces st"
    and "now2 < s_expires_at (session st)" "now2 < t_expires_at ticket + secs 5"
    and "k < 3" "probe2 (binding_of (s_focus (session st))) k = Inr v" "valid v"
    and "\<forall>j<k. \<exists>w. probe2 (binding_of (s_focus (session st))) j = Inr w \<and> \<not> valid w"
  shows "\<exists>c plan g2. c \<in> set (s_candidates (session st)) \<and> eligible c \<and> element_id (element c) = req_candidate_id req
    \<and> prepare_execution env now2 probe2 sid tok ticket g1 = Some (Inr plan, g2)
    \<and> build_actions_for_candidate c (req_action req) = Inr (plan_actions plan) \<and> plan_ticket plan = ticket
    \<and> (\<forall>now3 probe3 ticket'. \<exists>e. prepare_execution env now3 probe3 sid tok ticket' g2 = Some (Inl (TicketInvalid e), g2))"
proof -
  have "focus_loop env (probe2 (binding_of (s_focus (session st)))) 0 3 [] = Inr ()"
    using assms(6-9) unfolding focus_loop_Inr by blast
  from prepare_confirmed [where ?probe2.0 = probe2, OF assms(1-5) this] obtain c plan g2 st2 where p:
    "c \<in> set (s_candidates (session st))" "eligible c" "element_id (element c) = req_candidate_id req"
    "prepare_execution env now2 probe2 sid tok ticket g1 = Some (Inr plan, g2)"
    "build_actions_for_candidate c (req_action req) = Inr (plan_actions plan)" "plan_ticket plan = ticket"
    "sessions g2 sid = Some st2" "s_state (session st2) = Executing" "capability_token st2 = trim tok"
    "hmac_secret g2 \<noteq> None" "confirmed_action st2 \<noteq> None" by auto
  have "\<exists>e. prepare_execution env now3 probe3 sid tok ticket' g2 = Some (Inl (TicketInvalid e), g2)" for now3 probe3 ticket'
    using p(7-) by (auto simp: prepare_execution_def prepare_check_def require_hmac_secret_def assert_capability_token_def)
  with p(1-6) show ?thesis by blast
qed

theorem gui_confirmed_ticket_executes_witness:
  "\<exists>plan g2. prepare_execution gui_sample_env 5 (\<lambda>b n. Inr focus_kept) ''s1'' ''tok'' save_ticket svc_confirmed = Some (Inr plan, g2)
     \<and> plan_ticket plan = save_ticket"
  using gui_confirmed_ticket_executes [OF conjunct1 [OF sample_confirm], of stored_created 5 0 "\<lambda>b n. Inr focus_kept" focus_kept]
    conjunct2 [OF sample_confirm]
  by (auto simp: secs_def nanos_per_sec_def focus_kept_def)

text \<open>Cancelling a session does not end it: \<open>confirm_candidate\<close> looks at the expiry but not at the state, so
  that on a cancelled session it returns the ticket it would have returned before, and puts the session back into the
  confirmed state, from where it can be executed.\<close>

theorem gui_cancel_is_not_final:
  assumes "cancel_session now0 sid tok g = (Inr s, g0)" "s_state s = Cancelled"
    and "confirm_candidate env now tid nonce probe sid tok req g = (Inr ticket, g1)"
  shows "\<exists>g2 st2. confirm_candidate env now tid nonce probe sid tok req g0 = (Inr ticket, g2)
    \<and> sessions g2 sid = Some st2 \<and> s_state (session st2) = Confirmed"
proof -
  obtain f where b: "confirm_begin now sid tok req g = (Inr f, g)"
    and fin: "confirm_finish env now tid nonce probe f g = (Inr ticket, g1)"
    using assms(3) by (auto simp: confirm_candidate_def split: prod.splits sum.splits elim: confirm_begin_Inr)
  obtain st where st: "sessions g sid = Some st" using b by (elim confirm_begin_Inr) auto
  have g0: "sessions g0 sid = Some (touch now0 (set_state Cancelled st)\<lparr>overlay_handle_id := None\<rparr>)"
    "hmac_secret g0 = hmac_secret g"
    using assms(1) st by (auto simp: cancel_session_def Let_def publish_event_def clear_overlay_def put_session_def
        split: sum.splits option.splits)
  have "confirm_begin now sid tok req g0 = (Inr f, g0)"
    using b st g0 by (elim confirm_begin_Inr)
      (simp add: confirm_begin_def require_hmac_secret_def assert_capability_token_def session_updates)
  moreover have "\<exists>g2 st2. confirm_finish env now tid nonce probe f g0 = (Inr ticket, g2)
      \<and> sessions g2 sid = Some st2 \<and> s_state (session st2) = Confirmed"
  proof -
    have sid: "cf_session_id f = sid" using b by (elim confirm_begin_Inr) simp
    show ?thesis using fin g0 sid
      by (auto simp: confirm_finish_def Let_def publish_event_def put_session_def store_confirmed_def session_updates
          split: sum.splits option.splits if_splits)
  qed
  ultimately show ?thesis by (simp add: confirm_candidate_def)
qed

theorem gui_cancel_is_not_final_witness:
  "\<exists>g2 st2. confirm_candidate gui_sample_env 0 ''t1'' ''n1'' (\<lambda>b. Inr focus_kept) ''s1'' ''tok'' click_save
       (snd (cancel_session 0 ''s1'' ''tok'' svc_created)) = (Inr save_ticket, g2)
     \<and> sessions g2 ''s1'' = Some st2 \<and> s_state (session st2) = Confirmed"
proof -
  have "cancel_session 0 ''s1'' ''tok'' svc_created
      = (Inr (session (touch 0 (set_state Cancelled stored_created))), snd (cancel_session 0 ''s1'' ''tok'' svc_created))"
    by (simp add: cancel_session_def assert_capability_token_def Let_def)
  from gui_cancel_is_not_final [OF this _ conjunct1 [OF sample_confirm]] show ?thesis by (simp add: session_updates)
qed

section \<open>Further observations\<close>

text \<open>A cancellation that comes while \<open>prepare_execution\<close> waits for the focus probe has no effect on it.\<close>

lemma cancel_during_prepare_ignored:
  assumes "cancel_session now0 (pf_session_id f) tok g = (Inr s, g0)" "prepare_commit now f g = (Inr p, g1)"
  shows "\<exists>g2. prepare_commit now f g0 = (Inr p, g2)"
  using assms
  by (auto simp: cancel_session_def prepare_commit_def Let_def publish_event_def clear_overlay_def put_session_def
      session_updates split: sum.splits option.splits if_splits)

text \<open>A ticket signature with a two-byte character in an odd place makes \<open>prepare_execution\<close> panic.\<close>

lemma multibyte_signature_panics:
  "prepare_execution gui_sample_env 5 probe ''s1'' ''tok''
     (save_ticket\<lparr>t_signature := [CHR ''a'', CHR 0xC3, CHR 0xA9, CHR ''b'']\<rparr>) svc_confirmed = None"
proof -
  have "decode_hex [CHR ''a'', CHR 0xC3, CHR 0xA9, CHR ''b''] = None" by code_simp
  then have v: "verify_ticket env k (save_ticket\<lparr>t_signature := [CHR ''a'', CHR 0xC3, CHR 0xA9, CHR ''b'']\<rparr>) = None" for env k
    by (simp add: verify_ticket_def)
  obtain plan g2 where "prepare_execution gui_sample_env 5 (\<lambda>b n. Inr focus_kept) ''s1'' ''tok'' save_ticket svc_confirmed = Some (Inr plan, g2)"
    using sample_prepare by blast
  then show ?thesis
    by (auto simp: prepare_execution_def prepare_check_def v split: sum.splits option.splits if_splits)
qed

end
