(* ===== verification/IntegrationStore.thy ===== *)
theory IntegrationStore
  imports CoreErrors JsonValue
begin

text \<open>
  The integration messages of \<open>crates/oneshim-core/src/models/integration.rs\<close> and the file-backed state store of
  \<open>crates/oneshim-storage/src/integration_state_store\<close>. A \<open>BTreeMap\<close> is the list of its entries in the order of its
  keys. The store is the registry in memory together with what the file holds; writing the file may fail, and the argument
  \<open>io\<close> says whether it does. The memory is changed before the file is written, as in the code. UUIDs and clock
  readings are arguments.
\<close>

section \<open>Messages\<close>

datatype IntegrationMessageType = MInsightPacket | MProactivePrompt | MSessionState | MBootstrap | MPromptReceipt | MAck

datatype IntegrationTransportKind = WebSocket | HttpsSse | HttpsLongPoll | GrpcBidirectional

datatype IntegrationAuthScheme = BearerToken | DpopBearer

datatype IntegrationCapabilityScope = InsightWrite | PromptRead | PromptAck | DevicePresenceWrite | SessionManage | PolicyRead

record IntegrationOrigin =
  o_device_id :: string
  o_workspace_id :: "string option"
  o_session_id :: "string option"
  o_source :: string

record IntegrationEnvelope =
  envelope_id :: string
  env_schema_version :: string
  message_type :: IntegrationMessageType
  env_timestamp :: time
  env_nonce :: string
  origin :: IntegrationOrigin
  capability_scope :: IntegrationCapabilityScope

datatype IntegrationPrivacyClassification = DeviceLocal | DerivedSummary | UserApprovedAttachment

record InsightPacket =
  packet_id :: string
  summary :: string
  derived_tags :: "string list"
  source_window :: "time \<times> time"
  privacy_classification :: IntegrationPrivacyClassification
  audit_reference_id :: "string option"

datatype IntegrationPromptReceiptAction = RAcknowledged | RDismissed

record IntegrationPromptReceipt =
  receipt_id :: string
  r_prompt_id :: string
  r_action :: IntegrationPromptReceiptAction
  occurred_at :: time
  r_reason :: "string option"

datatype IntegrationOutboundPayload = Insight InsightPacket | PromptReceipt IntegrationPromptReceipt

record QueuedIntegrationEgressMessage =
  queue_id :: string
  envelope :: IntegrationEnvelope
  payload :: IntegrationOutboundPayload
  queued_at :: time

datatype ProactivePromptCategory = CatInsight | CatTask | CatReminder | CatEscalation

datatype ProactivePromptPriority = PLow | PMedium | PHigh | PCritical

datatype ProactivePromptActionType = OpenLink | OpenSettings | RunAutomation | ADismiss

record ProactivePromptAction =
  action_id :: string
  action_label :: string
  pa_type :: ProactivePromptActionType
  pa_payload :: "json option"

record PromptProvenance =
  source_system :: string
  source_actor :: "string option"
  correlation_id :: "string option"

record ProactivePrompt =
  prompt_id :: string
  category :: ProactivePromptCategory
  p_title :: string
  body :: string
  p_priority :: ProactivePromptPriority
  actions :: "ProactivePromptAction list"
  p_expires_at :: "time option"
  provenance :: PromptProvenance

datatype IntegrationInboxItemStatus = IPending | IAcknowledged | IDismissed | IExpired

record StoredProactivePrompt =
  prompt :: ProactivePrompt
  received_at :: time
  istatus :: IntegrationInboxItemStatus
  status_updated_at :: time
  presented_at :: "time option"
  dismiss_reason :: "string option"

definition to_inbox_status :: "IntegrationPromptReceiptAction \<Rightarrow> IntegrationInboxItemStatus" where
  "to_inbox_status a = (case a of RAcknowledged \<Rightarrow> IAcknowledged | RDismissed \<Rightarrow> IDismissed)"

record IntegrationAckCursor =
  stream_id :: string
  cursor :: string
  acknowledged_at :: time

datatype IntegrationSessionStatus = Disconnected | Connecting | SConnected | Degraded | Reconnecting | SFailed

record IntegrationSessionState =
  is_session_id :: string
  is_device_id :: string
  is_status :: IntegrationSessionStatus
  transport_kind :: IntegrationTransportKind
  auth_scheme :: IntegrationAuthScheme
  connected_at :: "time option"
  last_heartbeat_at :: "time option"
  requested_scopes :: "IntegrationCapabilityScope list"
  granted_scopes :: "IntegrationCapabilityScope list"
  ack_cursors :: "IntegrationAckCursor list"

datatype IntegrationEgressDisposition = Allow | Deny | RequireUserApproval

record IntegrationInsightAuditRecord =
  record_id :: string
  ar_envelope_id :: string
  ar_packet_id :: string
  ar_disposition :: IntegrationEgressDisposition
  ar_reason :: "string option"
  ar_classification :: IntegrationPrivacyClassification
  ar_scope :: IntegrationCapabilityScope
  ar_occurred_at :: time

section \<open>Ordered maps\<close>

type_synonym 'v btree = "(string \<times> 'v) list"

fun bt_put :: "string \<Rightarrow> 'v \<Rightarrow> 'v btree \<Rightarrow> 'v btree" where
  "bt_put k v [] = [(k, v)]"
| "bt_put k v ((k', v') # xs) =
     (if k < k' then (k, v) # (k', v') # xs else if k = k' then (k, v) # xs else (k', v') # bt_put k v xs)"

definition bt_remove :: "string \<Rightarrow> 'v btree \<Rightarrow> 'v btree" where
  "bt_remove k xs = filter (\<lambda>e. fst e \<noteq> k) xs"

abbreviation bt_ok :: "'v btree \<Rightarrow> bool" where
  "bt_ok xs \<equiv> sorted_wrt (<) (map fst xs)"

lemma set_fst_bt_put: "fst ` set (bt_put k v xs) = insert k (fst ` set xs)"
  by (induction k v xs rule: bt_put.induct) auto

lemma bt_ok_put: "bt_ok xs \<Longrightarrow> bt_ok (bt_put k v xs)"
proof (induction k v xs rule: bt_put.induct)
  case (2 k v k' v' xs)
  then show ?case using set_fst_bt_put [of k v xs] by auto
qed simp

lemma bt_ok_filter: "bt_ok xs \<Longrightarrow> bt_ok (filter p xs)"
  by (induction xs) auto

lemma bt_ok_distinct: "bt_ok xs \<Longrightarrow> distinct (map fst xs)"
  by (induction xs) auto

lemma map_of_bt_put: "bt_ok xs \<Longrightarrow> map_of (bt_put k v xs) = (map_of xs)(k \<mapsto> v)"
proof (induction k v xs rule: bt_put.induct)
  case (2 k v k' v' xs)
  show ?case
  proof (cases "k < k'")
    case False
    then show ?thesis using 2 by (auto simp: fun_eq_iff)
  qed (simp add: fun_eq_iff)
qed simp

lemma map_of_bt_remove: "map_of (bt_remove k xs) = (map_of xs)(k := None)"
  by (induction xs) (auto simp: bt_remove_def fun_eq_iff)

section \<open>Registry and file\<close>

record FileIntegrationStateRegistry =
  version :: u32
  reg_session :: "IntegrationSessionState option"
  outbox :: "QueuedIntegrationEgressMessage list"
  outbox_ack_cursor :: "IntegrationAckCursor option"
  inbox :: "StoredProactivePrompt btree"
  inbox_ack_cursor :: "IntegrationAckCursor option"
  producer_checkpoints :: "string btree"
  audit_records :: "IntegrationInsightAuditRecord list"

definition registry_empty :: FileIntegrationStateRegistry where
  "registry_empty = \<lparr>version = 1, reg_session = None, outbox = [], outbox_ack_cursor = None, inbox = [],
     inbox_ack_cursor = None, producer_checkpoints = [], audit_records = []\<rparr>"

record IntegrationStateStorePolicy =
  max_stored_prompts :: nat
  redact_completed_prompt_bodies :: bool

definition store_policy_default :: IntegrationStateStorePolicy where
  "store_policy_default = \<lparr>max_stored_prompts = 256, redact_completed_prompt_bodies = True\<rparr>"

text \<open>The file: absent, not readable, not parsable as a registry, or a registry.\<close>

datatype registry_file = NoFile | Unreadable string | Corrupt string | Saved FileIntegrationStateRegistry

record istore =
  registry :: FileIntegrationStateRegistry
  reg_file :: registry_file
  store_policy :: IntegrationStateStorePolicy

definition load_or_default :: "registry_file \<Rightarrow> StoreError + FileIntegrationStateRegistry" where
  "load_or_default f =
     (case f of
        Saved r \<Rightarrow> Inr r
      | Corrupt msg \<Rightarrow> Inl (StInternal (''integration state registry parse: '' @ msg))
      | NoFile \<Rightarrow> Inr registry_empty
      | Unreadable msg \<Rightarrow> Inl (StIo msg))"

definition istore_open :: "IntegrationStateStorePolicy \<Rightarrow> registry_file \<Rightarrow> StoreError + istore" where
  "istore_open pol f = rbind (load_or_default f) (\<lambda>r. Inr \<lparr>registry = r, reg_file = f, store_policy = pol\<rparr>)"

text \<open>The temporary file is written and renamed, so the file changes completely or not at all.\<close>

definition save_registry :: "bool \<Rightarrow> 'a \<Rightarrow> FileIntegrationStateRegistry \<Rightarrow> istore \<Rightarrow> (StoreError + 'a) \<times> istore" where
  "save_registry io a r s =
     (if io then (Inr a, s\<lparr>registry := r, reg_file := Saved r\<rparr>)
      else (Inl (StIo ''registry not written''), s\<lparr>registry := r\<rparr>))"

section \<open>Sessions, outbox, checkpoints, audit\<close>

definition store_session_sync :: "bool \<Rightarrow> IntegrationSessionState \<Rightarrow> istore \<Rightarrow> (StoreError + unit) \<times> istore" where
  "store_session_sync io st s = save_registry io () ((registry s)\<lparr>reg_session := Some st\<rparr>) s"

definition clear_session_sync :: "bool \<Rightarrow> istore \<Rightarrow> (StoreError + unit) \<times> istore" where
  "clear_session_sync io s = save_registry io () ((registry s)\<lparr>reg_session := None\<rparr>) s"

definition enqueue_outbox_sync ::
  "bool \<Rightarrow> time \<Rightarrow> string \<Rightarrow> IntegrationEnvelope \<Rightarrow> IntegrationOutboundPayload \<Rightarrow> istore \<Rightarrow> (StoreError + string) \<times> istore" where
  "enqueue_outbox_sync io now uuid env p s =
     (let qid = ''integration_queue_'' @ uuid
      in save_registry io qid
           ((registry s)\<lparr>outbox := outbox (registry s) @ [\<lparr>queue_id = qid, envelope = env, payload = p, queued_at = now\<rparr>]\<rparr>) s)"

definition list_outbox_sync :: "nat \<Rightarrow> istore \<Rightarrow> QueuedIntegrationEgressMessage list" where
  "list_outbox_sync limit s = take limit (outbox (registry s))"

definition delete_outbox_sync :: "bool \<Rightarrow> string list \<Rightarrow> istore \<Rightarrow> (StoreError + unit) \<times> istore" where
  "delete_outbox_sync io ids s =
     save_registry io () ((registry s)\<lparr>outbox := filter (\<lambda>m. queue_id m \<notin> set ids) (outbox (registry s))\<rparr>) s"

definition store_outbox_ack_cursor_sync :: "bool \<Rightarrow> IntegrationAckCursor \<Rightarrow> istore \<Rightarrow> (StoreError + unit) \<times> istore" where
  "store_outbox_ack_cursor_sync io c s = save_registry io () ((registry s)\<lparr>outbox_ack_cursor := Some c\<rparr>) s"

definition store_inbox_ack_cursor_sync :: "bool \<Rightarrow> IntegrationAckCursor \<Rightarrow> istore \<Rightarrow> (StoreError + unit) \<times> istore" where
  "store_inbox_ack_cursor_sync io c s = save_registry io () ((registry s)\<lparr>inbox_ack_cursor := Some c\<rparr>) s"

definition load_checkpoint_sync :: "string \<Rightarrow> istore \<Rightarrow> string option" where
  "load_checkpoint_sync ns s = map_of (producer_checkpoints (registry s)) ns"

definition store_checkpoint_sync :: "bool \<Rightarrow> string \<Rightarrow> string \<Rightarrow> istore \<Rightarrow> (StoreError + unit) \<times> istore" where
  "store_checkpoint_sync io ns c s =
     save_registry io () ((registry s)\<lparr>producer_checkpoints := bt_put ns c (producer_checkpoints (registry s))\<rparr>) s"

definition record_audit_sync :: "bool \<Rightarrow> IntegrationInsightAuditRecord \<Rightarrow> istore \<Rightarrow> (StoreError + unit) \<times> istore" where
  "record_audit_sync io a s =
     (let recs = audit_records (registry s) @ [a]
      in save_registry io () ((registry s)\<lparr>audit_records := drop (length recs - 512) recs\<rparr>) s)"

definition recent_audit_sync :: "nat \<Rightarrow> istore \<Rightarrow> IntegrationInsightAuditRecord list" where
  "recent_audit_sync limit s = take (max limit 1) (rev (audit_records (registry s)))"

section \<open>Inbox\<close>

definition redact_prompt_body_if_needed ::
  "IntegrationStateStorePolicy \<Rightarrow> IntegrationInboxItemStatus \<Rightarrow> StoredProactivePrompt \<Rightarrow> StoredProactivePrompt" where
  "redact_prompt_body_if_needed pol st p =
     (if redact_completed_prompt_bodies pol \<and> st \<noteq> IPending then p\<lparr>prompt := (prompt p)\<lparr>body := []\<rparr>\<rparr> else p)"

definition prune_candidates :: "StoredProactivePrompt btree \<Rightarrow> (bool \<times> time \<times> string) list" where
  "prune_candidates xs =
     sort_key (\<lambda>(pend, at, pid). (pend, at))
       (map (\<lambda>(k, p). (istatus p = IPending, received_at p, prompt_id (prompt p))) xs)"

definition prune_inbox :: "IntegrationStateStorePolicy \<Rightarrow> StoredProactivePrompt btree \<Rightarrow> StoredProactivePrompt btree" where
  "prune_inbox pol xs =
     (let m = max (max_stored_prompts pol) 1
      in if length xs \<le> m then xs
         else fold (\<lambda>(pend, at, pid). bt_remove pid) (take (length xs - m) (prune_candidates xs)) xs)"

definition upsert_one :: "StoredProactivePrompt \<Rightarrow> StoredProactivePrompt btree \<Rightarrow> StoredProactivePrompt btree" where
  "upsert_one p xs =
     (let pid = prompt_id (prompt p)
      in case map_of xs pid of
           Some old \<Rightarrow>
             bt_put pid (old\<lparr>prompt := prompt p,
               presented_at := (case presented_at old of Some t \<Rightarrow> Some t | None \<Rightarrow> presented_at p)\<rparr>) xs
         | None \<Rightarrow> bt_put pid p xs)"

definition upsert_inbox_sync :: "bool \<Rightarrow> StoredProactivePrompt list \<Rightarrow> istore \<Rightarrow> (StoreError + unit) \<times> istore" where
  "upsert_inbox_sync io ps s =
     save_registry io () ((registry s)\<lparr>inbox := prune_inbox (store_policy s) (fold upsert_one ps (inbox (registry s)))\<rparr>) s"

definition list_inbox_pending_sync :: "istore \<Rightarrow> StoredProactivePrompt list" where
  "list_inbox_pending_sync s =
     sort_key received_at (filter (\<lambda>p. istatus p = IPending) (map snd (inbox (registry s))))"

definition list_inbox_unpresented_sync :: "nat \<Rightarrow> istore \<Rightarrow> StoredProactivePrompt list" where
  "list_inbox_unpresented_sync limit s =
     take limit (sort_key received_at
       (filter (\<lambda>p. istatus p = IPending \<and> presented_at p = None) (map snd (inbox (registry s)))))"

definition inbox_pending_count_sync :: "istore \<Rightarrow> nat" where
  "inbox_pending_count_sync s = length (filter (\<lambda>p. istatus p = IPending) (map snd (inbox (registry s))))"

definition update_inbox_status_sync ::
  "bool \<Rightarrow> time \<Rightarrow> string \<Rightarrow> IntegrationInboxItemStatus \<Rightarrow> string option \<Rightarrow> istore \<Rightarrow> (StoreError + unit) \<times> istore" where
  "update_inbox_status_sync io now pid st rsn s =
     (case map_of (inbox (registry s)) pid of
        None \<Rightarrow> (Inl (StNotFound ''integration_prompt'' pid), s)
      | Some p \<Rightarrow>
          save_registry io () ((registry s)\<lparr>inbox := bt_put pid (redact_prompt_body_if_needed (store_policy s) st
            (p\<lparr>istatus := st, status_updated_at := now, dismiss_reason := rsn\<rparr>)) (inbox (registry s))\<rparr>) s)"

definition dbg_inbox_status :: "IntegrationInboxItemStatus \<Rightarrow> string" where
  "dbg_inbox_status st = (case st of IPending \<Rightarrow> ''Pending'' | IAcknowledged \<Rightarrow> ''Acknowledged'' | IDismissed \<Rightarrow> ''Dismissed'' | IExpired \<Rightarrow> ''Expired'')"

definition receipt_applied :: "IntegrationStateStorePolicy \<Rightarrow> IntegrationPromptReceipt \<Rightarrow> StoredProactivePrompt \<Rightarrow> StoredProactivePrompt" where
  "receipt_applied pol r p =
     redact_prompt_body_if_needed pol (to_inbox_status (r_action r))
       (p\<lparr>istatus := to_inbox_status (r_action r), status_updated_at := occurred_at r,
          dismiss_reason := (case r_action r of RAcknowledged \<Rightarrow> None | RDismissed \<Rightarrow> r_reason r)\<rparr>)"

definition record_prompt_receipt_sync ::
  "bool \<Rightarrow> time \<Rightarrow> string \<Rightarrow> string \<Rightarrow> IntegrationEnvelope \<Rightarrow> IntegrationPromptReceipt \<Rightarrow> istore \<Rightarrow> (StoreError + string) \<times> istore" where
  "record_prompt_receipt_sync io now uuid pid env r s =
     (if r_prompt_id r \<noteq> pid
      then (Inl (StValidation ''integration.prompt_receipt.prompt_id''
              ''prompt receipt prompt_id does not match the stored prompt target''), s)
      else case map_of (inbox (registry s)) pid of
        None \<Rightarrow> (Inl (StNotFound ''integration_prompt'' pid), s)
      | Some p \<Rightarrow>
          if istatus p \<noteq> IPending
          then (Inl (StValidation ''integration.prompt_receipt.status''
                  (''prompt receipts can only be recorded from the pending state, found '' @ dbg_inbox_status (istatus p))), s)
          else
            (let qid = ''integration_queue_'' @ uuid
             in save_registry io qid
                  ((registry s)\<lparr>inbox := bt_put pid (receipt_applied (store_policy s) r p) (inbox (registry s)),
                     outbox := outbox (registry s) @
                       [\<lparr>queue_id = qid, envelope = env, payload = PromptReceipt r, queued_at = now\<rparr>]\<rparr>) s))"

definition mark_presented_sync :: "bool \<Rightarrow> string \<Rightarrow> time \<Rightarrow> istore \<Rightarrow> (StoreError + unit) \<times> istore" where
  "mark_presented_sync io pid at s =
     (case map_of (inbox (registry s)) pid of
        None \<Rightarrow> (Inl (StNotFound ''integration_prompt'' pid), s)
      | Some p \<Rightarrow> save_registry io () ((registry s)\<lparr>inbox := bt_put pid (p\<lparr>presented_at := Some at\<rparr>) (inbox (registry s))\<rparr>) s)"

definition prompt_stale :: "time \<Rightarrow> StoredProactivePrompt \<Rightarrow> bool" where
  "prompt_stale now p \<longleftrightarrow> istatus p = IPending \<and> (case p_expires_at (prompt p) of Some t \<Rightarrow> t \<le> now | None \<Rightarrow> False)"

definition expire_inbox_sync :: "bool \<Rightarrow> time \<Rightarrow> istore \<Rightarrow> (StoreError + nat) \<times> istore" where
  "expire_inbox_sync io now s =
     (let xs = inbox (registry s);
          n = length (filter (prompt_stale now) (map snd xs));
          ys = map (\<lambda>(k, p). (k, if prompt_stale now p
                 then redact_prompt_body_if_needed (store_policy s) IExpired (p\<lparr>istatus := IExpired, status_updated_at := now\<rparr>)
                 else p)) xs
      in if n > 0 then save_registry io n ((registry s)\<lparr>inbox := ys\<rparr>) s else (Inr n, s))"

end
