(* ===== verification/IntegrationFlow.thy ===== *)
theory IntegrationFlow
  imports IntegrationStore
begin

text \<open>
  The coordinators of \<open>crates/oneshim-network/src/integration\<close> over the file-backed store: the session
  (\<open>session_coordinator.rs\<close>), outbound delivery (\<open>egress_coordinator.rs\<close>, \<open>policy_egress.rs\<close>), the inbox
  (\<open>inbox_coordinator.rs\<close>), the insight producer (\<open>producer_coordinator.rs\<close>) and the cycles of
  \<open>runtime_loop.rs\<close>. The answers of the transport, the candidates of the insight source and the PII sanitizer are
  arguments. \<open>io n\<close> says whether the n-th write of the state file in a call succeeds. A call that waits for the
  transport is split there, since other calls may run in between.
\<close>

section \<open>State and results\<close>

record irt =
  irstore :: istore
  mem_session :: "IntegrationSessionState option"

record IntegrationSessionRuntimeProfile =
  client_version :: string
  device_label :: "string option"
  preferred_transports :: "IntegrationTransportKind list"
  supported_auth_schemes :: "IntegrationAuthScheme list"
  resource_indicator :: "string option"

record IntegrationTransportConnectRequest =
  cr_device_id :: string
  cr_client_version :: string
  cr_device_label :: "string option"
  cr_requested_scopes :: "IntegrationCapabilityScope list"
  cr_preferred_transports :: "IntegrationTransportKind list"
  cr_supported_auth_schemes :: "IntegrationAuthScheme list"
  cr_resource_indicator :: "string option"

record IntegrationTransportConnectResponse =
  cs_session_id :: string
  cs_connected_at :: time
  cs_granted_scopes :: "IntegrationCapabilityScope list"
  cs_transport_kind :: IntegrationTransportKind
  cs_auth_scheme :: IntegrationAuthScheme

record IntegrationEgressTransportResponse =
  er_acknowledged_queue_ids :: "string list"
  er_ack_cursor :: "IntegrationAckCursor option"

record IntegrationInboxTransportResponse =
  ir_prompts :: "ProactivePrompt list"
  ir_ack_cursor :: "IntegrationAckCursor option"

text \<open>A coordinator: its device id, its profile and whether it has a session store.\<close>

record IntegrationSessionCoordinator =
  sc_device_id :: string
  sc_profile :: IntegrationSessionRuntimeProfile
  sc_has_store :: bool

type_synonym 'a icall = "irt \<Rightarrow> (CoreError + 'a) \<times> irt"

definition ibind :: "'a icall \<Rightarrow> ('a \<Rightarrow> 'b icall) \<Rightarrow> 'b icall" where
  "ibind m k s = (case m s of (Inl e, s') \<Rightarrow> (Inl e, s') | (Inr a, s') \<Rightarrow> k a s')"

definition iret :: "'a \<Rightarrow> 'a icall" where "iret a s = (Inr a, s)"

definition ierr :: "CoreError \<Rightarrow> 'a icall" where "ierr e s = (Inl e, s)"

text \<open>The port implementations run an operation of the store and convert its error.\<close>

definition via_port :: "(istore \<Rightarrow> (StoreError + 'a) \<times> istore) \<Rightarrow> 'a icall" where
  "via_port f s = (case f (irstore s) of (r, st) \<Rightarrow>
     (case r of Inl e \<Rightarrow> Inl (core_of_store_error e) | Inr a \<Rightarrow> Inr a, s\<lparr>irstore := st\<rparr>))"

definition set_mem :: "IntegrationSessionState option \<Rightarrow> unit icall" where
  "set_mem m s = (Inr (), s\<lparr>mem_session := m\<rparr>)"

section \<open>Sessions\<close>

definition profile_default :: "string \<Rightarrow> IntegrationSessionRuntimeProfile" where
  "profile_default ver = \<lparr>client_version = ver, device_label = None,
     preferred_transports = [WebSocket, HttpsSse, HttpsLongPoll],
     supported_auth_schemes = [DpopBearer, BearerToken], resource_indicator = None\<rparr>"

definition scopes_satisfied :: "IntegrationSessionState \<Rightarrow> IntegrationCapabilityScope list \<Rightarrow> bool" where
  "scopes_satisfied st rs \<longleftrightarrow> list_all (\<lambda>sc. sc \<in> set (granted_scopes st)) rs"

definition persist_state :: "IntegrationSessionCoordinator \<Rightarrow> bool \<Rightarrow> IntegrationSessionState \<Rightarrow> unit icall" where
  "persist_state c io st = (if sc_has_store c then via_port (store_session_sync io st) else iret ())"

definition clear_persisted_state :: "IntegrationSessionCoordinator \<Rightarrow> bool \<Rightarrow> unit icall" where
  "clear_persisted_state c io = (if sc_has_store c then via_port (clear_session_sync io) else iret ())"

definition load_persisted_state :: "IntegrationSessionCoordinator \<Rightarrow> IntegrationSessionState option icall" where
  "load_persisted_state c s =
     (case mem_session s of
        Some st \<Rightarrow> (Inr (Some st), s)
      | None \<Rightarrow>
          if \<not> sc_has_store c then (Inr None, s)
          else (case reg_session (registry (irstore s)) of
                  Some st \<Rightarrow> (Inr (Some st), s\<lparr>mem_session := Some st\<rparr>)
                | None \<Rightarrow> (Inr None, s)))"

abbreviation current_session :: "IntegrationSessionCoordinator \<Rightarrow> IntegrationSessionState option icall" where
  "current_session \<equiv> load_persisted_state"

definition failed_state :: "string \<Rightarrow> IntegrationCapabilityScope list \<Rightarrow> IntegrationSessionState" where
  "failed_state dev rs = \<lparr>is_session_id = [], is_device_id = dev, is_status = SFailed, transport_kind = WebSocket,
     auth_scheme = BearerToken, connected_at = None, last_heartbeat_at = None, requested_scopes = rs,
     granted_scopes = [], ack_cursors = []\<rparr>"

text \<open>The error of storing the failed state is only logged.\<close>

definition set_failed_state :: "IntegrationSessionCoordinator \<Rightarrow> bool \<Rightarrow> IntegrationCapabilityScope list \<Rightarrow> irt \<Rightarrow> irt" where
  "set_failed_state c io rs s =
     (let st = failed_state (sc_device_id c) rs
      in snd (persist_state c io st (s\<lparr>mem_session := Some st\<rparr>)))"

definition no_session :: "string \<Rightarrow> CoreError" where "no_session sid = CNotFound ''integration_session'' sid"

definition heartbeat ::
  "IntegrationSessionCoordinator \<Rightarrow> bool \<Rightarrow> CoreError + time \<Rightarrow> string \<Rightarrow> IntegrationSessionState icall" where
  "heartbeat c io ans sid s =
     (case ans of
        Inl e \<Rightarrow>
          (Inl e, case mem_session s of
             Some st \<Rightarrow> if is_session_id st = sid then s\<lparr>mem_session := Some (st\<lparr>is_status := Degraded\<rparr>)\<rparr> else s
           | None \<Rightarrow> s)
      | Inr at \<Rightarrow>
          (case mem_session s of
             None \<Rightarrow> (Inl (no_session sid), s)
           | Some st \<Rightarrow>
               if is_session_id st \<noteq> sid then (Inl (no_session sid), s)
               else (let up = st\<lparr>is_status := SConnected, last_heartbeat_at := Some at\<rparr>
                     in ibind (persist_state c io up) (\<lambda>_. iret up) (s\<lparr>mem_session := Some up\<rparr>))))"

definition connecting_state :: "IntegrationSessionCoordinator \<Rightarrow> IntegrationCapabilityScope list \<Rightarrow> IntegrationSessionState" where
  "connecting_state c rs =
     \<lparr>is_session_id = [], is_device_id = sc_device_id c, is_status = Connecting,
      transport_kind = (case preferred_transports (sc_profile c) of [] \<Rightarrow> WebSocket | t # _ \<Rightarrow> t),
      auth_scheme = (case rev (supported_auth_schemes (sc_profile c)) of [] \<Rightarrow> BearerToken | a # _ \<Rightarrow> a),
      connected_at = None, last_heartbeat_at = None, requested_scopes = rs, granted_scopes = [], ack_cursors = []\<rparr>"

definition connect_request :: "IntegrationSessionCoordinator \<Rightarrow> IntegrationCapabilityScope list \<Rightarrow> IntegrationTransportConnectRequest" where
  "connect_request c rs =
     \<lparr>cr_device_id = sc_device_id c, cr_client_version = client_version (sc_profile c),
      cr_device_label = device_label (sc_profile c), cr_requested_scopes = rs,
      cr_preferred_transports = preferred_transports (sc_profile c),
      cr_supported_auth_schemes = supported_auth_schemes (sc_profile c),
      cr_resource_indicator = resource_indicator (sc_profile c)\<rparr>"

definition connected_state ::
  "IntegrationSessionCoordinator \<Rightarrow> IntegrationCapabilityScope list \<Rightarrow> IntegrationTransportConnectResponse \<Rightarrow> IntegrationSessionState" where
  "connected_state c rs r =
     \<lparr>is_session_id = cs_session_id r, is_device_id = sc_device_id c, is_status = SConnected,
      transport_kind = cs_transport_kind r, auth_scheme = cs_auth_scheme r,
      connected_at = Some (cs_connected_at r), last_heartbeat_at = Some (cs_connected_at r),
      requested_scopes = rs, granted_scopes = cs_granted_scopes r, ack_cursors = []\<rparr>"

text \<open>Opening a new session, after the decision not to reuse the existing one.\<close>

definition connect_fresh ::
  "IntegrationSessionCoordinator \<Rightarrow> bool \<Rightarrow> (IntegrationTransportConnectRequest \<Rightarrow> CoreError + IntegrationTransportConnectResponse)
     \<Rightarrow> IntegrationCapabilityScope list \<Rightarrow> IntegrationSessionState icall" where
  "connect_fresh c io conn rs s =
     (let s1 = s\<lparr>mem_session := Some (connecting_state c rs)\<rparr>
      in case conn (connect_request c rs) of
           Inl e \<Rightarrow> (Inl e, set_failed_state c io rs s1)
         | Inr r \<Rightarrow>
             (let st = connected_state c rs r
              in ibind (persist_state c io st) (\<lambda>_. iret st) (s1\<lparr>mem_session := Some st\<rparr>)))"

definition connect ::
  "IntegrationSessionCoordinator \<Rightarrow> (nat \<Rightarrow> bool) \<Rightarrow> (string \<Rightarrow> CoreError + time)
     \<Rightarrow> (IntegrationTransportConnectRequest \<Rightarrow> CoreError + IntegrationTransportConnectResponse)
     \<Rightarrow> IntegrationCapabilityScope list \<Rightarrow> IntegrationSessionState icall" where
  "connect c io beat conn rs =
     ibind (load_persisted_state c) (\<lambda>ex.
       case ex of
         None \<Rightarrow> connect_fresh c (io 0) conn rs
       | Some st \<Rightarrow>
           if scopes_satisfied st rs \<and> is_status st = SConnected then iret st
           else if scopes_satisfied st rs \<and> is_status st = Degraded \<and> is_session_id st \<noteq> []
           then (\<lambda>s. case heartbeat c (io 0) (beat (is_session_id st)) (is_session_id st) s of
                       (Inr st', s') \<Rightarrow> (Inr st', s')
                     | (Inl _, s') \<Rightarrow> connect_fresh c (io 1) conn rs s')
           else connect_fresh c (io 0) conn rs)"

fun put_cursor :: "IntegrationAckCursor \<Rightarrow> IntegrationAckCursor list \<Rightarrow> IntegrationAckCursor list" where
  "put_cursor c [] = [c]"
| "put_cursor c (d # ds) = (if stream_id d = stream_id c then c # ds else d # put_cursor c ds)"

definition session_store_ack_cursor ::
  "IntegrationSessionCoordinator \<Rightarrow> bool \<Rightarrow> string \<Rightarrow> IntegrationAckCursor \<Rightarrow> IntegrationSessionState icall" where
  "session_store_ack_cursor c io sid cur s =
     (case mem_session s of
        None \<Rightarrow> (Inl (no_session sid), s)
      | Some st \<Rightarrow>
          if is_session_id st \<noteq> sid then (Inl (no_session sid), s)
          else (let up = st\<lparr>ack_cursors := put_cursor cur (ack_cursors st)\<rparr>
                in ibind (persist_state c io up) (\<lambda>_. iret up) (s\<lparr>mem_session := Some up\<rparr>)))"

definition disconnect :: "IntegrationSessionCoordinator \<Rightarrow> bool \<Rightarrow> CoreError + unit \<Rightarrow> unit icall" where
  "disconnect c io ans =
     (case ans of Inl e \<Rightarrow> ierr e
      | Inr _ \<Rightarrow> ibind (set_mem None) (\<lambda>_. clear_persisted_state c io))"

section \<open>Outbound delivery\<close>

definition dbg_scope :: "IntegrationCapabilityScope \<Rightarrow> string" where
  "dbg_scope sc = (case sc of InsightWrite \<Rightarrow> ''InsightWrite'' | PromptRead \<Rightarrow> ''PromptRead'' | PromptAck \<Rightarrow> ''PromptAck''
     | DevicePresenceWrite \<Rightarrow> ''DevicePresenceWrite'' | SessionManage \<Rightarrow> ''SessionManage'' | PolicyRead \<Rightarrow> ''PolicyRead'')"

definition validate_scopes :: "IntegrationSessionState \<Rightarrow> QueuedIntegrationEgressMessage list \<Rightarrow> CoreError + unit" where
  "validate_scopes st items =
     (case find (\<lambda>m. capability_scope (envelope m) \<notin> set (granted_scopes st)) items of
        Some m \<Rightarrow> Inl (CAuth (''integration session is missing required scope: '' @ dbg_scope (capability_scope (envelope m))))
      | None \<Rightarrow> Inr ())"

definition acknowledged_queue_ids ::
  "QueuedIntegrationEgressMessage list \<Rightarrow> IntegrationEgressTransportResponse \<Rightarrow> CoreError + string list" where
  "acknowledged_queue_ids items r =
     (case find (\<lambda>q. q \<notin> queue_id ` set items) (er_acknowledged_queue_ids r) of
        Some q \<Rightarrow> Inl (CInternal (''integration egress transport acknowledged unknown queue id: '' @ q))
      | None \<Rightarrow> Inr (er_acknowledged_queue_ids r))"

definition session_open :: "IntegrationSessionState \<Rightarrow> bool" where
  "session_open st \<longleftrightarrow> is_status st \<in> {SConnected, Degraded} \<and> is_session_id st \<noteq> []"

definition require_session :: "IntegrationSessionCoordinator \<Rightarrow> IntegrationSessionState icall" where
  "require_session c = ibind (current_session c) (\<lambda>ex. case ex of
     None \<Rightarrow> ierr (CServiceUnavailable ''integration session is not connected'') | Some st \<Rightarrow> iret st)"

definition enqueue_message ::
  "bool \<Rightarrow> time \<Rightarrow> string \<Rightarrow> IntegrationEnvelope \<Rightarrow> IntegrationOutboundPayload \<Rightarrow> unit icall" where
  "enqueue_message io now uuid env p = ibind (via_port (enqueue_outbox_sync io now uuid env p)) (\<lambda>_. iret ())"

text \<open>\<open>flush\<close> up to the request to the transport: the session and the batch to send; an empty batch ends the call.\<close>

definition flush_begin ::
  "IntegrationSessionCoordinator \<Rightarrow> nat \<Rightarrow> (IntegrationSessionState \<times> QueuedIntegrationEgressMessage list) icall" where
  "flush_begin c batch =
     ibind (require_session c) (\<lambda>st.
       if \<not> session_open st then ierr (CServiceUnavailable ''integration session is not ready for outbound egress'')
       else (\<lambda>s. (let items = list_outbox_sync (max batch 1) (irstore s)
                  in rbind (validate_scopes st items) (\<lambda>_. Inr (st, items)), s)))"

text \<open>\<open>flush\<close> from the transport's answer on.\<close>

definition flush_commit ::
  "IntegrationSessionCoordinator \<Rightarrow> (nat \<Rightarrow> bool) \<Rightarrow> IntegrationSessionState \<Rightarrow> QueuedIntegrationEgressMessage list
     \<Rightarrow> IntegrationEgressTransportResponse \<Rightarrow> nat icall" where
  "flush_commit c io st items r =
     (case acknowledged_queue_ids items r of
        Inl e \<Rightarrow> ierr e
      | Inr ids \<Rightarrow>
          ibind (if ids \<noteq> [] then via_port (delete_outbox_sync (io 0) ids) else iret ()) (\<lambda>_.
          ibind (case er_ack_cursor r of
                   None \<Rightarrow> iret ()
                 | Some cur \<Rightarrow>
                     ibind (via_port (store_outbox_ack_cursor_sync (io 1) cur)) (\<lambda>_.
                     ibind (session_store_ack_cursor c (io 2) (is_session_id st) cur) (\<lambda>_. iret ())))
            (\<lambda>_. iret (length ids))))"

definition flush ::
  "IntegrationSessionCoordinator \<Rightarrow> nat \<Rightarrow> (nat \<Rightarrow> bool)
     \<Rightarrow> (string \<Rightarrow> QueuedIntegrationEgressMessage list \<Rightarrow> CoreError + IntegrationEgressTransportResponse) \<Rightarrow> nat icall" where
  "flush c batch io send =
     ibind (flush_begin c batch) (\<lambda>(st, items).
       if items = [] then iret 0
       else case send (is_session_id st) items of
              Inl e \<Rightarrow> ierr e
            | Inr r \<Rightarrow> flush_commit c io st items r)"

section \<open>Policy before delivery\<close>

record IntegrationEgressDecision =
  disposition :: IntegrationEgressDisposition
  ed_reason :: "string option"
  audit_required :: bool

definition decision_allow :: IntegrationEgressDecision where
  "decision_allow = \<lparr>disposition = Allow, ed_reason = None, audit_required = True\<rparr>"

definition decision_deny :: "string \<Rightarrow> IntegrationEgressDecision" where
  "decision_deny rsn = \<lparr>disposition = Deny, ed_reason = Some rsn, audit_required = True\<rparr>"

definition decision_require_user_approval :: "string \<Rightarrow> IntegrationEgressDecision" where
  "decision_require_user_approval rsn = \<lparr>disposition = RequireUserApproval, ed_reason = Some rsn, audit_required = True\<rparr>"

definition authorize_insight :: "InsightPacket \<Rightarrow> IntegrationEgressDecision" where
  "authorize_insight p =
     (case privacy_classification p of
        DerivedSummary \<Rightarrow> decision_allow
      | DeviceLocal \<Rightarrow> decision_deny
          ''device-local insights must remain on-device and cannot be sent to integration backends''
      | UserApprovedAttachment \<Rightarrow> decision_require_user_approval
          ''integration delivery for user-approved attachments requires an explicit outbound approval path'')"

definition sanitize_packet :: "(string \<Rightarrow> string) option \<Rightarrow> InsightPacket \<Rightarrow> InsightPacket" where
  "sanitize_packet san p =
     (case san of
        None \<Rightarrow> p
      | Some f \<Rightarrow> p\<lparr>summary := f (summary p), derived_tags := map f (derived_tags p)\<rparr>)"

definition to_audit_record :: "time \<Rightarrow> IntegrationEnvelope \<Rightarrow> InsightPacket \<Rightarrow> IntegrationEgressDecision \<Rightarrow> IntegrationInsightAuditRecord" where
  "to_audit_record now env p d =
     \<lparr>record_id = envelope_id env @ '':'' @ packet_id p, ar_envelope_id = envelope_id env, ar_packet_id = packet_id p,
      ar_disposition = disposition d, ar_reason = ed_reason d, ar_classification = privacy_classification p,
      ar_scope = capability_scope env, ar_occurred_at = now\<rparr>"

definition policy_enqueue_message ::
  "(string \<Rightarrow> string) option \<Rightarrow> (IntegrationEnvelope \<Rightarrow> InsightPacket \<Rightarrow> CoreError + IntegrationEgressDecision)
     \<Rightarrow> (nat \<Rightarrow> bool) \<Rightarrow> time \<Rightarrow> string \<Rightarrow> IntegrationEnvelope \<Rightarrow> IntegrationOutboundPayload \<Rightarrow> unit icall" where
  "policy_enqueue_message san pol io now uuid env p =
     (case p of
        PromptReceipt _ \<Rightarrow> enqueue_message (io 0) now uuid env p
      | Insight pk \<Rightarrow>
          (case pol env pk of
             Inl e \<Rightarrow> ierr e
           | Inr d \<Rightarrow>
               ibind (if audit_required d then via_port (record_audit_sync (io 0) (to_audit_record now env pk d)) else iret ())
                 (\<lambda>_. case disposition d of
                        Allow \<Rightarrow> enqueue_message (io 1) now uuid env (Insight (sanitize_packet san pk))
                      | Deny \<Rightarrow> ierr (CPolicyDenied (case ed_reason d of Some m \<Rightarrow> m | None \<Rightarrow> ''integration egress denied''))
                      | RequireUserApproval \<Rightarrow> ierr (CConsentRequired
                          (case ed_reason d of Some m \<Rightarrow> m | None \<Rightarrow> ''integration egress requires user approval'')))))"

section \<open>Insight producer\<close>

record IntegrationInsightCandidate =
  source_cursor :: string
  ic_envelope :: IntegrationEnvelope
  ic_packet :: InsightPacket

text \<open>One candidate with the disk outcomes, time and UUID of its turn in the loop.\<close>

type_synonym turn = "(nat \<Rightarrow> bool) \<times> time \<times> string"

fun produce_loop ::
  "(string \<Rightarrow> string) option \<Rightarrow> (IntegrationEnvelope \<Rightarrow> InsightPacket \<Rightarrow> CoreError + IntegrationEgressDecision)
     \<Rightarrow> string \<Rightarrow> (nat \<Rightarrow> turn) \<Rightarrow> nat \<Rightarrow> IntegrationInsightCandidate list \<Rightarrow> nat icall" where
  "produce_loop san pol ns env produced [] = iret produced"
| "produce_loop san pol ns env produced (cd # cds) =
     (case env produced of (io, now, uuid) \<Rightarrow>
        ibind (policy_enqueue_message san pol io now uuid (ic_envelope cd) (Insight (ic_packet cd))) (\<lambda>_.
        ibind (via_port (store_checkpoint_sync (io 2) ns (source_cursor cd))) (\<lambda>_.
        produce_loop san pol ns env (Suc produced) cds)))"

definition produce_pending ::
  "(string \<Rightarrow> string) option \<Rightarrow> (IntegrationEnvelope \<Rightarrow> InsightPacket \<Rightarrow> CoreError + IntegrationEgressDecision)
     \<Rightarrow> string \<Rightarrow> (nat \<Rightarrow> turn) \<Rightarrow> nat \<Rightarrow> (string option \<Rightarrow> nat \<Rightarrow> CoreError + IntegrationInsightCandidate list) \<Rightarrow> nat icall" where
  "produce_pending san pol ns env batch src s =
     (case src (load_checkpoint_sync ns (irstore s)) (max batch 1) of
        Inl e \<Rightarrow> (Inl e, s)
      | Inr cds \<Rightarrow> produce_loop san pol ns env 0 cds s)"

section \<open>Inbox\<close>

definition session_ready_for_inbox :: "IntegrationSessionState \<Rightarrow> CoreError + unit" where
  "session_ready_for_inbox st =
     (if \<not> session_open st then Inl (CServiceUnavailable ''integration session is not ready for inbox refresh'')
      else if PromptRead \<notin> set (granted_scopes st)
      then Inl (CAuth ''integration session is missing required scope: PromptRead'')
      else Inr ())"

definition to_stored_prompts :: "time \<Rightarrow> ProactivePrompt list \<Rightarrow> StoredProactivePrompt list" where
  "to_stored_prompts now ps =
     map (\<lambda>p. \<lparr>prompt = p, received_at = now, istatus = IPending, status_updated_at = now,
                presented_at = None, dismiss_reason = None\<rparr>) ps"

definition build_receipt_envelope ::
  "IntegrationSessionCoordinator \<Rightarrow> string \<Rightarrow> time \<Rightarrow> string \<Rightarrow> string \<Rightarrow> IntegrationPromptReceiptAction \<Rightarrow> IntegrationEnvelope icall" where
  "build_receipt_envelope c dev now uuid nonce act =
     ibind (current_session c) (\<lambda>ex. iret
       \<lparr>envelope_id = ''integration-envelope-'' @ uuid, env_schema_version = ''integration.prompt_receipt.v1'',
        message_type = MPromptReceipt, env_timestamp = now, env_nonce = nonce,
        origin = \<lparr>o_device_id = (case ex of Some st \<Rightarrow> is_device_id st | None \<Rightarrow> dev), o_workspace_id = None,
                   o_session_id = map_option is_session_id ex, o_source = ''desktop-client''\<rparr>,
        capability_scope = (case act of RAcknowledged \<Rightarrow> PromptAck | RDismissed \<Rightarrow> PromptAck)\<rparr>)"

text \<open>\<open>uu n\<close> is the n-th UUID drawn in the call.\<close>

definition record_prompt_receipt ::
  "IntegrationSessionCoordinator \<Rightarrow> string \<Rightarrow> bool \<Rightarrow> time \<Rightarrow> (nat \<Rightarrow> string) \<Rightarrow> string \<Rightarrow> IntegrationPromptReceiptAction
     \<Rightarrow> string option \<Rightarrow> unit icall" where
  "record_prompt_receipt c dev io now uu pid act rsn =
     ibind (build_receipt_envelope c dev now (uu 0) (uu 1) act) (\<lambda>env.
     ibind (via_port (record_prompt_receipt_sync io now (uu 3) pid env
              \<lparr>receipt_id = ''integration-prompt-receipt-'' @ uu 2, r_prompt_id = pid, r_action = act,
               occurred_at = now, r_reason = rsn\<rparr>)) (\<lambda>_. iret ()))"

definition acknowledge where
  "acknowledge c dev io now uu pid = record_prompt_receipt c dev io now uu pid RAcknowledged None"

definition dismiss where
  "dismiss c dev io now uu pid rsn = record_prompt_receipt c dev io now uu pid RDismissed rsn"

definition inbox_list_pending :: "bool \<Rightarrow> time \<Rightarrow> StoredProactivePrompt list icall" where
  "inbox_list_pending io now = ibind (via_port (expire_inbox_sync io now)) (\<lambda>_ s. (Inr (list_inbox_pending_sync (irstore s)), s))"

text \<open>\<open>refresh\<close> up to the request: the session and the cursor to continue from.\<close>

definition refresh_begin ::
  "IntegrationSessionCoordinator \<Rightarrow> bool \<Rightarrow> time \<Rightarrow> (IntegrationSessionState \<times> IntegrationAckCursor option) icall" where
  "refresh_begin c io now =
     ibind (via_port (expire_inbox_sync io now)) (\<lambda>_.
     ibind (require_session c) (\<lambda>st.
       case session_ready_for_inbox st of
         Inl e \<Rightarrow> ierr e
       | Inr _ \<Rightarrow> (\<lambda>s. (Inr (st, inbox_ack_cursor (registry (irstore s))), s))))"

definition refresh_commit ::
  "IntegrationSessionCoordinator \<Rightarrow> (nat \<Rightarrow> bool) \<Rightarrow> time \<Rightarrow> IntegrationSessionState \<Rightarrow> IntegrationInboxTransportResponse \<Rightarrow> nat icall" where
  "refresh_commit c io now st r =
     (let n = length (ir_prompts r)
      in ibind (if n > 0 then via_port (upsert_inbox_sync (io 1) (to_stored_prompts now (ir_prompts r))) else iret ()) (\<lambda>_.
         ibind (case ir_ack_cursor r of
                  None \<Rightarrow> iret ()
                | Some cur \<Rightarrow>
                    ibind (via_port (store_inbox_ack_cursor_sync (io 2) cur)) (\<lambda>_.
                    ibind (session_store_ack_cursor c (io 3) (is_session_id st) cur) (\<lambda>_. iret ())))
           (\<lambda>_. iret n)))"

definition refresh ::
  "IntegrationSessionCoordinator \<Rightarrow> nat \<Rightarrow> (nat \<Rightarrow> bool) \<Rightarrow> time \<Rightarrow> time
     \<Rightarrow> (string \<Rightarrow> IntegrationAckCursor option \<Rightarrow> nat \<Rightarrow> CoreError + IntegrationInboxTransportResponse) \<Rightarrow> nat icall" where
  "refresh c batch io now now' recv =
     ibind (refresh_begin c (io 0) now) (\<lambda>(st, cur).
       case recv (is_session_id st) cur (max batch 1) of
         Inl e \<Rightarrow> ierr e
       | Inr r \<Rightarrow> refresh_commit c io now' st r)"

section \<open>Cycles of the runtime loop\<close>

definition session_satisfies_scopes :: "IntegrationSessionState \<Rightarrow> IntegrationCapabilityScope list \<Rightarrow> bool" where
  "session_satisfies_scopes st rs \<longleftrightarrow> session_open st \<and> list_all (\<lambda>sc. sc \<in> set (granted_scopes st)) rs"

definition ensure_session_ready ::
  "IntegrationSessionCoordinator \<Rightarrow> (nat \<Rightarrow> bool) \<Rightarrow> (string \<Rightarrow> CoreError + time)
     \<Rightarrow> (IntegrationTransportConnectRequest \<Rightarrow> CoreError + IntegrationTransportConnectResponse)
     \<Rightarrow> IntegrationCapabilityScope list \<Rightarrow> unit icall" where
  "ensure_session_ready c io beat conn rs =
     ibind (current_session c) (\<lambda>ex.
       if (case ex of Some st \<Rightarrow> session_satisfies_scopes st rs | None \<Rightarrow> False) then iret ()
       else ibind (connect c io beat conn rs) (\<lambda>_. iret ()))"

definition run_egress_cycle where
  "run_egress_cycle c io beat conn rs batch io' send =
     ibind (ensure_session_ready c io beat conn rs) (\<lambda>_. flush c batch io' send)"

definition run_inbox_cycle where
  "run_inbox_cycle c io beat conn rs batch io' now now' recv =
     ibind (ensure_session_ready c io beat conn rs) (\<lambda>_. refresh c batch io' now now' recv)"

definition run_heartbeat_cycle :: "IntegrationSessionCoordinator \<Rightarrow> bool \<Rightarrow> (string \<Rightarrow> CoreError + time) \<Rightarrow> unit icall" where
  "run_heartbeat_cycle c io beat =
     ibind (current_session c) (\<lambda>ex.
       case ex of
         None \<Rightarrow> iret ()
       | Some st \<Rightarrow>
           if session_open st then ibind (heartbeat c io (beat (is_session_id st)) (is_session_id st)) (\<lambda>_. iret ())
           else iret ())"

end
