(* ===== verification/IntegrationRuns.thy ===== *)
theory IntegrationRuns
  imports IntegrationFlow
begin

text \<open>
  Runs of the integration coordinators. A call waits for the transport between its two halves, so the state of a run
  holds the batches that are on their way, and any other call may run in between; the program may stop at any point
  and start again from its file, and any write of the file may fail. The locale \<open>store_rel\<close> carries a relation
  between stores through every call; it is instantiated with the relations of the properties.
\<close>

section \<open>Relations kept by calls\<close>

definition keeps :: "(istore \<Rightarrow> istore \<Rightarrow> bool) \<Rightarrow> 'a icall \<Rightarrow> bool" where
  "keeps R m \<longleftrightarrow> (\<forall>s. R (irstore s) (irstore (snd (m s))))"

lemma snd_save_registry:
  "snd (save_registry io a r s) = (if io then s\<lparr>registry := r, reg_file := Saved r\<rparr> else s\<lparr>registry := r\<rparr>)"
  by (simp add: save_registry_def)

lemma fst_save_registry: "fst (save_registry io a r s) = Inr b \<longleftrightarrow> io \<and> a = b"
  by (simp add: save_registry_def)

lemma irstore_via_port [simp]: "irstore (snd (via_port f s)) = snd (f (irstore s))"
  by (simp add: via_port_def split: prod.splits)

lemma load_persisted_store [simp]: "irstore (snd (load_persisted_state c s)) = irstore s"
  by (simp add: load_persisted_state_def split: option.splits)

lemma load_persistedD: "load_persisted_state c s = (x, s') \<Longrightarrow> irstore s' = irstore s"
  using load_persisted_store [of c s] by simp

locale store_rel =
  fixes R :: "istore \<Rightarrow> istore \<Rightarrow> bool"
  assumes R_refl: "R s s"
    and R_trans: "R s t \<Longrightarrow> R t u \<Longrightarrow> R s u"
    and R_memory: "outbox r = outbox (registry s) \<Longrightarrow> inbox r = inbox (registry s) \<Longrightarrow> R s (s\<lparr>registry := r\<rparr>)"
    and R_file: "outbox r = outbox (registry s) \<Longrightarrow> inbox r = inbox (registry s)
                   \<Longrightarrow> R s (s\<lparr>registry := r, reg_file := Saved r\<rparr>)"
begin

lemma R_session:
  "outbox r = outbox (registry s) \<Longrightarrow> inbox r = inbox (registry s) \<Longrightarrow> R s (snd (save_registry io a r s))"
  by (simp add: snd_save_registry R_memory R_file)

lemma keeps_ret: "keeps R (iret a)" and keeps_err: "keeps R (ierr e)"
  by (simp_all add: keeps_def iret_def ierr_def R_refl)

lemma keeps_bind:
  assumes "keeps R m" and "\<And>a. keeps R (k a)"
  shows "keeps R (ibind m k)"
  unfolding keeps_def
proof
  fix s
  obtain x s' where m: "m s = (x, s')" by (cases "m s")
  have st: "R (irstore s) (irstore s')" using assms(1) m by (auto simp: keeps_def dest: spec [of _ s])
  show "R (irstore s) (irstore (snd (ibind m k s)))"
  proof (cases x)
    case (Inr a)
    then have "R (irstore s') (irstore (snd (ibind m k s)))"
      using assms(2) [of a] m by (simp add: ibind_def keeps_def)
    then show ?thesis by (rule R_trans [OF st])
  qed (simp add: ibind_def m st)
qed

lemma keeps_port: "(\<And>st. R st (snd (f st))) \<Longrightarrow> keeps R (via_port f)"
  by (simp add: keeps_def)

lemma keeps_load: "keeps R (load_persisted_state c)"
  by (simp add: keeps_def R_refl)

lemma keeps_persist: "keeps R (persist_state c io st)"
  by (simp add: persist_state_def keeps_ret keeps_port store_session_sync_def R_session)

lemma keeps_clear: "keeps R (clear_persisted_state c io)"
  by (simp add: clear_persisted_state_def keeps_ret keeps_port clear_session_sync_def R_session)

lemma keeps_store_then: "keeps R (ibind (persist_state c io st) (\<lambda>_. iret st))"
  by (intro keeps_bind keeps_persist keeps_ret)

lemma keepsD: "keeps R m \<Longrightarrow> irstore s = st \<Longrightarrow> R st (irstore (snd (m s)))"
  by (auto simp: keeps_def)

lemma keeps_heartbeat: "keeps R (heartbeat c io ans sid)"
  unfolding keeps_def heartbeat_def
  by (auto simp: R_refl Let_def intro!: keepsD [OF keeps_store_then] split: sum.splits option.splits)

lemma keeps_connect_fresh: "keeps R (connect_fresh c io conn rs)"
  unfolding keeps_def connect_fresh_def set_failed_state_def
  by (auto simp: Let_def intro!: keepsD [OF keeps_store_then] keepsD [OF keeps_persist] split: sum.splits)

lemma keeps_reconnect:
  "keeps R (\<lambda>s. case heartbeat c io ans sid s of (Inr st', s') \<Rightarrow> (Inr st', s') | (Inl _, s') \<Rightarrow> connect_fresh c io' conn rs s')"
  unfolding keeps_def
proof
  fix s
  obtain x s' where h: "heartbeat c io ans sid s = (x, s')" by (cases "heartbeat c io ans sid s")
  have "R (irstore s) (irstore s')" using keepsD [OF keeps_heartbeat refl, of s c io ans sid] h by simp
  then show "R (irstore s) (irstore (snd (case heartbeat c io ans sid s of
      (Inr st', s') \<Rightarrow> (Inr st', s') | (Inl _, s') \<Rightarrow> connect_fresh c io' conn rs s')))"
    using keepsD [OF keeps_connect_fresh refl, of s' c io' conn rs]
    by (cases x) (auto simp: h intro: R_trans)
qed

lemma keeps_connect: "keeps R (connect c io beat conn rs)"
  unfolding connect_def
  by (intro keeps_bind keeps_load) (auto simp: keeps_connect_fresh keeps_ret keeps_reconnect split: option.splits)

lemma keeps_cursor: "keeps R (session_store_ack_cursor c io sid cur)"
  unfolding keeps_def session_store_ack_cursor_def
  by (auto simp: R_refl Let_def intro!: keepsD [OF keeps_store_then] split: option.splits)

lemma keeps_disconnect: "keeps R (disconnect c io ans)"
  unfolding disconnect_def
  by (cases ans) (auto simp: keeps_err set_mem_def keeps_def [of R "set_mem None"] R_refl intro!: keeps_bind keeps_clear)

lemma keeps_require: "keeps R (require_session c)"
  unfolding require_session_def
  by (intro keeps_bind keeps_load) (auto simp: keeps_ret keeps_err split: option.splits)

lemma keeps_flush_begin: "keeps R (flush_begin c batch)"
  unfolding flush_begin_def
  by (intro keeps_bind keeps_require) (auto simp: ierr_def keeps_def R_refl)

lemma keeps_audit: "keeps R (via_port (record_audit_sync io a))"
  by (intro keeps_port) (simp add: record_audit_sync_def Let_def R_session)

lemma keeps_checkpoint: "keeps R (via_port (store_checkpoint_sync io ns cur))"
  by (intro keeps_port) (simp add: store_checkpoint_sync_def R_session)

lemma keeps_cursors:
  "keeps R (via_port (store_outbox_ack_cursor_sync io cur))" "keeps R (via_port (store_inbox_ack_cursor_sync io cur))"
  by (intro keeps_port, simp add: store_outbox_ack_cursor_sync_def store_inbox_ack_cursor_sync_def R_session)+

lemma keeps_ack:
  "keeps R (ibind (via_port (store_outbox_ack_cursor_sync io cur)) (\<lambda>_.
     ibind (session_store_ack_cursor c io' sid cur) (\<lambda>_. iret a)))"
  "keeps R (ibind (via_port (store_inbox_ack_cursor_sync io cur)) (\<lambda>_.
     ibind (session_store_ack_cursor c io' sid cur) (\<lambda>_. iret a)))"
  by (intro keeps_bind keeps_cursors keeps_cursor keeps_ret)+

lemma keeps_flush_commit:
  assumes "\<And>st. set (er_acknowledged_queue_ids r) \<subseteq> queue_id ` set items
                  \<Longrightarrow> R st (snd (delete_outbox_sync (io 0) (er_acknowledged_queue_ids r) st))"
  shows "keeps R (flush_commit c io st items r)"
proof (cases "acknowledged_queue_ids items r")
  case (Inr ids)
  then have "ids = er_acknowledged_queue_ids r" "set ids \<subseteq> queue_id ` set items"
    by (auto simp: acknowledged_queue_ids_def find_None_iff' split: option.splits)
  then show ?thesis
    unfolding flush_commit_def Inr sum.case using assms
    by (intro keeps_bind) (auto intro!: keeps_port simp: keeps_ret keeps_ack split: option.splits)
qed (simp add: flush_commit_def keeps_err)

end

text \<open>A relation that also survives the operations which add messages and change the inbox.\<close>

locale call_rel = store_rel +
  fixes P :: "IntegrationOutboundPayload \<Rightarrow> bool"
  assumes R_enqueue: "P p \<Longrightarrow> R st (snd (enqueue_outbox_sync io now uuid env p st))"
    and R_upsert: "R st (snd (upsert_inbox_sync io ps st))"
    and R_receipt: "R st (snd (record_prompt_receipt_sync io now uuid pid env r st))"
    and R_expire: "R st (snd (expire_inbox_sync io now st))"
    and R_present: "R st (snd (mark_presented_sync io pid at st))"
begin

lemma keeps_enqueue: "P p \<Longrightarrow> keeps R (enqueue_message io now uuid env p)"
  unfolding enqueue_message_def by (intro keeps_bind keeps_ret keeps_port R_enqueue)

lemma keeps_policy_enqueue:
  assumes "\<And>pk d. p = Insight pk \<Longrightarrow> pol env pk = Inr d \<Longrightarrow> disposition d = Allow \<Longrightarrow> P (Insight (sanitize_packet san pk))"
    and "\<And>rc. p = PromptReceipt rc \<Longrightarrow> P p"
  shows "keeps R (policy_enqueue_message san pol io now uuid env p)"
proof (cases p)
  case (Insight pk)
  show ?thesis
  proof (cases "pol env pk")
    case (Inr d)
    have "keeps R (case disposition d of
          Allow \<Rightarrow> enqueue_message (io 1) now uuid env (Insight (sanitize_packet san pk))
        | Deny \<Rightarrow> ierr e1 | RequireUserApproval \<Rightarrow> ierr e2)" for e1 e2
      using assms(1) [OF Insight Inr] by (cases "disposition d") (simp_all add: keeps_err keeps_enqueue)
    then show ?thesis
      unfolding policy_enqueue_message_def Insight IntegrationOutboundPayload.case Inr sum.case
      by (intro keeps_bind) (simp_all add: keeps_audit keeps_ret)
  qed (simp add: policy_enqueue_message_def Insight keeps_err)
qed (use assms(2) in \<open>simp add: policy_enqueue_message_def keeps_enqueue\<close>)

lemma keeps_produce_loop:
  assumes "\<And>e pk d. pol e pk = Inr d \<Longrightarrow> disposition d = Allow \<Longrightarrow> P (Insight (sanitize_packet san pk))"
  shows "keeps R (produce_loop san pol ns env n cds)"
proof (induction cds arbitrary: n)
  case (Cons cd cds)
  obtain io now uuid where e: "env n = (io, now, uuid)" by (cases "env n")
  show ?case
    unfolding produce_loop.simps e prod.case
    by (intro keeps_bind keeps_policy_enqueue keeps_checkpoint Cons.IH) (auto intro: assms)
qed (simp add: keeps_ret)

lemma keeps_produce:
  assumes "\<And>e pk d. pol e pk = Inr d \<Longrightarrow> disposition d = Allow \<Longrightarrow> P (Insight (sanitize_packet san pk))"
  shows "keeps R (produce_pending san pol ns env batch src)"
  using keeps_produce_loop [OF assms, where ns = ns and env = env] R_refl
  by (auto simp: keeps_def produce_pending_def split: sum.splits)

lemma keeps_receipt: "keeps R (record_prompt_receipt c dev io now uu pid act rsn)"
  unfolding record_prompt_receipt_def build_receipt_envelope_def
  by (intro keeps_bind keeps_load keeps_ret keeps_port R_receipt)

lemma keeps_list_pending: "keeps R (inbox_list_pending io now)"
  unfolding inbox_list_pending_def
  by (intro keeps_bind keeps_port R_expire) (simp add: keeps_def R_refl)

lemma keeps_refresh_begin: "keeps R (refresh_begin c io now)"
  unfolding refresh_begin_def
  by (intro keeps_bind keeps_port R_expire keeps_require)
    (auto simp: keeps_err keeps_def R_refl ierr_def split: sum.splits)

lemma keeps_refresh_commit: "keeps R (refresh_commit c io now st r)"
  unfolding refresh_commit_def Let_def
  by (intro keeps_bind) (auto simp: keeps_ret keeps_ack R_upsert intro!: keeps_port split: option.splits)

end

section \<open>Runs\<close>

text \<open>The calls that finish without a batch on its way. \<open>pol\<close> and \<open>san\<close> are the egress policy and the sanitizer.\<close>

inductive local_call ::
  "IntegrationSessionCoordinator \<Rightarrow> (string \<Rightarrow> string) option
     \<Rightarrow> (IntegrationEnvelope \<Rightarrow> InsightPacket \<Rightarrow> CoreError + IntegrationEgressDecision) \<Rightarrow> irt \<Rightarrow> irt \<Rightarrow> bool"
  for c san pol where
  lc_enqueue: "local_call c san pol s (snd (policy_enqueue_message san pol io now uuid env p s))"
| lc_produce: "local_call c san pol s (snd (produce_pending san pol ns turns batch src s))"
| lc_connect: "local_call c san pol s (snd (connect c io beat conn rs s))"
| lc_heartbeat: "local_call c san pol s (snd (heartbeat c io0 ans sid s))"
| lc_disconnect: "local_call c san pol s (snd (disconnect c io0 dans s))"
| lc_receipt: "local_call c san pol s (snd (record_prompt_receipt c dev io0 now uu pid act rsn s))"
| lc_list: "local_call c san pol s (snd (inbox_list_pending io0 now s))"
| lc_refresh_begin: "local_call c san pol s (snd (refresh_begin c io0 now s))"
| lc_refresh_commit: "local_call c san pol s (snd (refresh_commit c io now st ans' s))"
| lc_present: "local_call c san pol s (snd (via_port (mark_presented_sync io0 pid at) s))"
| lc_flush_refused: "flush_begin c batch s = (Inl e, s') \<Longrightarrow> local_call c san pol s s'"

type_synonym flight = "IntegrationSessionState \<times> QueuedIntegrationEgressMessage list"
type_synonym answer = "QueuedIntegrationEgressMessage list \<times> IntegrationEgressTransportResponse"

inductive istep ::
  "IntegrationSessionCoordinator \<Rightarrow> (string \<Rightarrow> string) option
     \<Rightarrow> (IntegrationEnvelope \<Rightarrow> InsightPacket \<Rightarrow> CoreError + IntegrationEgressDecision)
     \<Rightarrow> irt \<times> flight list \<Rightarrow> answer list \<Rightarrow> irt \<times> flight list \<Rightarrow> bool"
  for c san pol where
  is_local: "local_call c san pol s s' \<Longrightarrow> istep c san pol (s, fl) [] (s', fl)"
| is_send: "flush_begin c batch s = (Inr (st, items), s') \<Longrightarrow> istep c san pol (s, fl) [] (s', (st, items) # fl)"
| is_answer: "(st, items) \<in> set fl \<Longrightarrow>
     istep c san pol (s, fl) [(items, r)] (snd (flush_commit c io st items r s), remove1 (st, items) fl)"
| is_restart: "istore_open (store_policy (irstore s)) (reg_file (irstore s)) = Inr st' \<Longrightarrow>
     istep c san pol (s, fl) [] (\<lparr>irstore = st', mem_session = None\<rparr>, [])"

inductive irun ::
  "IntegrationSessionCoordinator \<Rightarrow> (string \<Rightarrow> string) option
     \<Rightarrow> (IntegrationEnvelope \<Rightarrow> InsightPacket \<Rightarrow> CoreError + IntegrationEgressDecision)
     \<Rightarrow> irt \<times> flight list \<Rightarrow> answer list \<Rightarrow> irt \<times> flight list \<Rightarrow> bool"
  for c san pol where
  irun_nil: "irun c san pol x [] x"
| irun_step: "irun c san pol x l y \<Longrightarrow> istep c san pol y l' z \<Longrightarrow> irun c san pol x (l @ l') z"

text \<open>The ids that the transport acknowledged in its answer to a batch with a message of that id.\<close>

definition acked :: "answer list \<Rightarrow> string set" where
  "acked l = (\<Union>(items, r) \<in> set l. queue_id ` set items \<inter> set (er_acknowledged_queue_ids r))"

lemma acked_append [simp]: "acked (l @ l') = acked l \<union> acked l'"
  by (auto simp: acked_def)

context call_rel
begin

lemma R_local:
  assumes "local_call c san pol s s'"
    and pol: "\<And>e pk d. pol e pk = Inr d \<Longrightarrow> disposition d = Allow \<Longrightarrow> P (Insight (sanitize_packet san pk))"
    and rc: "\<And>rc. P (PromptReceipt rc)"
  shows "R (irstore s) (irstore s')"
  using assms(1)
proof cases
  case (lc_flush_refused batch e)
  then show ?thesis using keepsD [OF keeps_flush_begin refl, of s c batch] by simp
qed (auto intro!: keepsD [OF _ refl] keeps_policy_enqueue keeps_produce keeps_connect keeps_heartbeat keeps_disconnect
      keeps_receipt keeps_list_pending keeps_refresh_begin keeps_refresh_commit keeps_port R_present R_refl
      intro: pol rc simp del: irstore_via_port)

text \<open>A relation holds along a run if acknowledged deletions and restarts keep it, too.\<close>

lemma R_run:
  assumes "irun c san pol x l y"
    and pol: "\<And>e pk d. pol e pk = Inr d \<Longrightarrow> disposition d = Allow \<Longrightarrow> P (Insight (sanitize_packet san pk))"
    and rc: "\<And>rc. P (PromptReceipt rc)"
    and del: "\<And>io ids st. set ids \<subseteq> acked l \<Longrightarrow> R st (snd (delete_outbox_sync io ids st))"
    and restart: "\<And>st st'. istore_open (store_policy st) (reg_file st) = Inr st' \<Longrightarrow> R st st'"
  shows "R (irstore (fst x)) (irstore (fst y))"
  using assms(1) del
proof (induction rule: irun.induct)
  case (irun_step x l y l' z)
  have "R (irstore (fst y)) (irstore (fst z))"
    using irun_step.hyps(2)
  proof cases
    case (is_send batch s st items s' fl)
    then show ?thesis using keepsD [OF keeps_flush_begin refl, of s c batch] by simp
  next
    case (is_answer st items fl s r io)
    have "R st' (snd (delete_outbox_sync (io 0) (er_acknowledged_queue_ids r) st'))"
      if "set (er_acknowledged_queue_ids r) \<subseteq> queue_id ` set items" for st'
    proof (rule irun_step.prems)
      show "set (er_acknowledged_queue_ids r) \<subseteq> acked (l @ l')"
        using that is_answer(2) by (auto simp: acked_def)
    qed
    then show ?thesis using is_answer keepsD [OF keeps_flush_commit refl] by simp
  qed (auto intro: R_local [OF _ pol rc] restart)
  moreover have "R (irstore (fst x)) (irstore (fst y))"
    using irun_step.IH irun_step.prems by (simp add: le_supI1)
  ultimately show ?case by (blast intro: R_trans)
qed (rule R_refl)

end

text \<open>An invariant of the store gives such a relation.\<close>

locale call_inv =
  fixes I :: "istore \<Rightarrow> bool" and P :: "IntegrationOutboundPayload \<Rightarrow> bool"
  assumes I_memory: "I s \<Longrightarrow> outbox r = outbox (registry s) \<Longrightarrow> inbox r = inbox (registry s) \<Longrightarrow> I (s\<lparr>registry := r\<rparr>)"
    and I_file: "I s \<Longrightarrow> outbox r = outbox (registry s) \<Longrightarrow> inbox r = inbox (registry s)
                   \<Longrightarrow> I (s\<lparr>registry := r, reg_file := Saved r\<rparr>)"
    and I_enqueue: "I st \<Longrightarrow> P p \<Longrightarrow> I (snd (enqueue_outbox_sync io now uuid env p st))"
    and I_upsert: "I st \<Longrightarrow> I (snd (upsert_inbox_sync io ps st))"
    and I_receipt: "I st \<Longrightarrow> I (snd (record_prompt_receipt_sync io now uuid pid env rc st))"
    and I_expire: "I st \<Longrightarrow> I (snd (expire_inbox_sync io now st))"
    and I_present: "I st \<Longrightarrow> I (snd (mark_presented_sync io pid at st))"

sublocale call_inv \<subseteq> call_rel "\<lambda>s t. I s \<longrightarrow> I t" P
  by unfold_locales (blast intro: I_memory I_file I_enqueue I_upsert I_receipt I_expire I_present)+

end
