(* ===== verification/IntegrationProperties.thy ===== *)
theory IntegrationProperties
  imports IntegrationRuns
begin

text \<open>
  What runs of the integration coordinators guarantee: a message that was queued successfully stays queued, in memory
  and in the file, until the transport acknowledges it; only packets that the policy allows are ever queued, sanitised
  when a sanitizer is configured; the inbox stays bounded; a working transport empties the outbox; and a completed
  prompt's body comes back when the prompt is delivered again.
\<close>

section \<open>Messages are kept until they are acknowledged\<close>

definition in_file :: "QueuedIntegrationEgressMessage \<Rightarrow> registry_file \<Rightarrow> bool" where
  "in_file m f = (case f of Saved r \<Rightarrow> m \<in> set (outbox r) | _ \<Rightarrow> False)"

definition queued_or_acked :: "string set \<Rightarrow> QueuedIntegrationEgressMessage \<Rightarrow> istore \<Rightarrow> bool" where
  "queued_or_acked A m s \<longleftrightarrow> queue_id m \<in> A \<or> (m \<in> set (outbox (registry s)) \<and> in_file m (reg_file s))"

lemma queued_save:
  assumes "queued_or_acked A m s" and "m \<in> set (outbox (registry s)) \<Longrightarrow> m \<in> set (outbox r) \<or> queue_id m \<in> A"
  shows "queued_or_acked A m (snd (save_registry io a r s))"
  using assms by (auto simp: queued_or_acked_def snd_save_registry in_file_def)

lemma queued_delete:
  "queued_or_acked A m s \<Longrightarrow> set ids \<subseteq> A \<Longrightarrow> queued_or_acked A m (snd (delete_outbox_sync io ids s))"
  unfolding delete_outbox_sync_def by (rule queued_save) auto

lemma queued_restart:
  "queued_or_acked A m st \<Longrightarrow> istore_open pol (reg_file st) = Inr st' \<Longrightarrow> queued_or_acked A m st'"
  by (auto simp: queued_or_acked_def istore_open_def load_or_default_def in_file_def rbind_def split: registry_file.splits)

lemmas store_ops = upsert_inbox_sync_def enqueue_outbox_sync_def mark_presented_sync_def expire_inbox_sync_def
  record_prompt_receipt_sync_def Let_def

interpretation ob: call_inv "queued_or_acked A m" "\<lambda>p. True"
  by unfold_locales
    (auto simp: store_ops queued_or_acked_def in_file_def snd_save_registry split: option.splits)

lemma enqueued_is_queued:
  assumes "fst (enqueue_message io now uuid env p s) = Inr ()"
  shows "queued_or_acked A \<lparr>queue_id = ''integration_queue_'' @ uuid, envelope = env, payload = p, queued_at = now\<rparr>
           (irstore (snd (enqueue_message io now uuid env p s)))"
  using assms
  by (cases io) (auto simp: enqueue_message_def ibind_def via_port_def enqueue_outbox_sync_def save_registry_def iret_def
      queued_or_acked_def in_file_def Let_def)

text \<open>A small system for the witnesses: one session, one packet, one queued message.\<close>

definition w_coord :: IntegrationSessionCoordinator where
  "w_coord = \<lparr>sc_device_id = ''d'', sc_profile = profile_default ''1'', sc_has_store = True\<rparr>"

definition w_session :: IntegrationSessionState where
  "w_session = connected_state w_coord [InsightWrite] \<lparr>cs_session_id = ''s'', cs_connected_at = 1,
     cs_granted_scopes = [InsightWrite, PromptRead], cs_transport_kind = WebSocket, cs_auth_scheme = BearerToken\<rparr>"

definition w_start :: irt where
  "w_start = \<lparr>irstore = \<lparr>registry = registry_empty, reg_file = NoFile, store_policy = store_policy_default\<rparr>,
     mem_session = Some w_session\<rparr>"

definition w_envelope :: IntegrationEnvelope where
  "w_envelope = \<lparr>envelope_id = ''e'', env_schema_version = ''v'', message_type = MInsightPacket, env_timestamp = 1, env_nonce = ''n'',
     origin = \<lparr>o_device_id = ''d'', o_workspace_id = None, o_session_id = None, o_source = ''x''\<rparr>, capability_scope = InsightWrite\<rparr>"

definition w_packet :: InsightPacket where
  "w_packet = \<lparr>packet_id = ''p'', summary = ''ab'', derived_tags = [''t''], source_window = (1, 2),
     privacy_classification = DerivedSummary, audit_reference_id = None\<rparr>"

definition w_message :: QueuedIntegrationEgressMessage where
  "w_message = \<lparr>queue_id = ''integration_queue_u'', envelope = w_envelope, payload = Insight w_packet, queued_at = 5\<rparr>"

definition w_queued :: irt where
  "w_queued = snd (enqueue_message True 5 ''u'' w_envelope (Insight w_packet) w_start)"

lemmas w_defs = w_coord_def w_session_def w_start_def w_envelope_def w_packet_def w_message_def w_queued_def

lemma w_queued: "enqueue_message True 5 ''u'' w_envelope (Insight w_packet) w_start = (Inr (), w_queued)"
  by (simp add: w_queued_def enqueue_message_def ibind_def via_port_def enqueue_outbox_sync_def save_registry_def iret_def Let_def)

lemma w_queued_file: "reg_file (irstore w_queued) = Saved (registry (irstore w_queued))"
  "outbox (registry (irstore w_queued)) = [w_message]" "mem_session w_queued = Some w_session"
  by (simp_all add: w_queued_def enqueue_message_def ibind_def via_port_def enqueue_outbox_sync_def save_registry_def iret_def Let_def
      w_start_def registry_empty_def w_message_def)

definition w_restarted :: irt where
  "w_restarted = \<lparr>irstore = irstore w_queued, mem_session = None\<rparr>"

lemma w_restart: "irun w_coord None (\<lambda>_ pk. Inr (authorize_insight pk)) (w_queued, []) [] (w_restarted, [])"
proof -
  have "istore_open (store_policy (irstore w_queued)) (reg_file (irstore w_queued)) = Inr (irstore w_queued)"
    by (simp add: istore_open_def load_or_default_def w_queued_file(1))
  then have "istep w_coord None (\<lambda>_ pk. Inr (authorize_insight pk)) (w_queued, []) [] (w_restarted, [])"
    unfolding w_restarted_def by (rule is_restart)
  from irun_step [OF irun_nil this] show ?thesis by simp
qed

text \<open>C18: A message whose \<open>enqueue_message\<close> succeeded is, after any further run (with other calls overlapping a
  flush, failing writes and restarts from the file), either still in the outbox, in memory and in the file, or the
  transport has acknowledged its queue id in its answer to a batch that contained this id.\<close>

theorem outbox_keeps_until_acknowledged:
  assumes "enqueue_message io now uuid env p s = (Inr (), s1)"
    and "irun c san pol (s1, fl) l (s2, fl')"
    and "m = \<lparr>queue_id = ''integration_queue_'' @ uuid, envelope = env, payload = p, queued_at = now\<rparr>"
    and "queue_id m \<notin> acked l"
  shows "m \<in> set (outbox (registry (irstore s2))) \<and> in_file m (reg_file (irstore s2))"
proof -
  have "queued_or_acked (acked l) m (irstore s1)"
    using enqueued_is_queued [of io now uuid env p s "acked l"] assms(1,3) by simp
  moreover have "queued_or_acked (acked l) m (irstore (fst (s1, fl))) \<longrightarrow> queued_or_acked (acked l) m (irstore (fst (s2, fl')))"
    using assms(2) by (rule ob.R_run) (auto intro: queued_delete queued_restart)
  ultimately show ?thesis using assms(4) by (auto simp: queued_or_acked_def)
qed

theorem outbox_keeps_until_acknowledged_witness:
  "enqueue_message True 5 ''u'' w_envelope (Insight w_packet) w_start = (Inr (), w_queued)
   \<and> irun w_coord None (\<lambda>_ pk. Inr (authorize_insight pk)) (w_queued, []) [] (w_restarted, [])
   \<and> w_message \<in> set (outbox (registry (irstore w_restarted))) \<and> in_file w_message (reg_file (irstore w_restarted))"
  using outbox_keeps_until_acknowledged [OF w_queued w_restart, of w_message] w_queued w_restart
  by (simp add: w_message_def acked_def)

section \<open>Only what the policy allows leaves the device\<close>

abbreviation default_egress_policy :: "IntegrationEnvelope \<Rightarrow> InsightPacket \<Rightarrow> CoreError + IntegrationEgressDecision" where
  "default_egress_policy \<equiv> (\<lambda>_ pk. Inr (authorize_insight pk))"

text \<open>A receipt, or the sanitised form of a derived summary.\<close>

definition payload_allowed :: "(string \<Rightarrow> string) option \<Rightarrow> IntegrationOutboundPayload \<Rightarrow> bool" where
  "payload_allowed san p =
     (case p of
        Insight pk \<Rightarrow> \<exists>orig. privacy_classification orig = DerivedSummary \<and> pk = sanitize_packet san orig
      | PromptReceipt _ \<Rightarrow> True)"

definition outbox_allowed :: "(string \<Rightarrow> string) option \<Rightarrow> FileIntegrationStateRegistry \<Rightarrow> bool" where
  "outbox_allowed san r \<longleftrightarrow> (\<forall>m \<in> set (outbox r). payload_allowed san (payload m))"

definition store_allowed :: "(string \<Rightarrow> string) option \<Rightarrow> istore \<Rightarrow> bool" where
  "store_allowed san s \<longleftrightarrow>
     outbox_allowed san (registry s) \<and> (case reg_file s of Saved r \<Rightarrow> outbox_allowed san r | _ \<Rightarrow> True)"

lemma store_allowed_save:
  "store_allowed san s \<Longrightarrow> outbox_allowed san r \<Longrightarrow> store_allowed san (snd (save_registry io a r s))"
  by (auto simp: store_allowed_def snd_save_registry)

lemma store_allowed_delete: "store_allowed san s \<Longrightarrow> store_allowed san (snd (delete_outbox_sync io ids s))"
  unfolding delete_outbox_sync_def by (rule store_allowed_save) (auto simp: store_allowed_def outbox_allowed_def)

lemma store_allowed_restart:
  "store_allowed san st \<Longrightarrow> istore_open pol (reg_file st) = Inr st' \<Longrightarrow> store_allowed san st'"
  by (auto simp: store_allowed_def istore_open_def load_or_default_def rbind_def outbox_allowed_def registry_empty_def
      split: registry_file.splits)

lemma authorize_allows: "disposition (authorize_insight pk) = Allow \<Longrightarrow> privacy_classification pk = DerivedSummary"
  by (simp add: authorize_insight_def decision_deny_def decision_require_user_approval_def
      split: IntegrationPrivacyClassification.splits)

interpretation pa: call_inv "store_allowed san" "payload_allowed san"
  by unfold_locales
    (auto simp: store_ops store_allowed_def outbox_allowed_def snd_save_registry payload_allowed_def
       split: option.splits registry_file.splits)

lemma run_store_allowed:
  assumes "irun c san default_egress_policy x l y" and "store_allowed san (irstore (fst x))"
  shows "store_allowed san (irstore (fst y))"
proof -
  have "store_allowed san (irstore (fst x)) \<longrightarrow> store_allowed san (irstore (fst y))"
    using assms(1) by (rule pa.R_run)
      (auto simp: payload_allowed_def intro: authorize_allows store_allowed_delete store_allowed_restart)
  then show ?thesis using assms(2) by simp
qed

definition flight_ok :: "(string \<Rightarrow> string) option \<Rightarrow> flight \<Rightarrow> bool" where
  "flight_ok san f \<longleftrightarrow> session_open (fst f) \<and>
     (\<forall>m \<in> set (snd f). capability_scope (envelope m) \<in> set (granted_scopes (fst f)) \<and> payload_allowed san (payload m))"

lemma flush_begin_ok:
  assumes "flush_begin c batch s = (Inr (st, items), s')" and "store_allowed san (irstore s)"
  shows "flight_ok san (st, items)"
proof -
  have "session_open st \<and> validate_scopes st items = Inr () \<and> set items \<subseteq> set (outbox (registry (irstore s)))"
    using assms(1)
    by (auto simp: flush_begin_def require_session_def ibind_def iret_def ierr_def list_outbox_sync_def Let_def rbind_eq_Inr
        dest!: in_set_takeD load_persistedD split: prod.splits sum.splits option.splits if_splits)
  then show ?thesis
    using assms(2) by (auto simp: flight_ok_def validate_scopes_def find_None_iff' store_allowed_def outbox_allowed_def
        split: option.splits)
qed

lemma run_flights_ok:
  assumes "irun c san default_egress_policy x l y" and "store_allowed san (irstore (fst x))"
    and "list_all (flight_ok san) (snd x)"
  shows "list_all (flight_ok san) (snd y)"
  using assms
proof (induction rule: irun.induct)
  case (irun_step x l y l' z)
  then have "list_all (flight_ok san) (snd y)" "store_allowed san (irstore (fst y))"
    using run_store_allowed by blast+
  with irun_step.hyps(2) show ?case
    by cases (auto simp: list_all_iff flush_begin_ok dest: notin_set_remove1)
qed simp

text \<open>C19: With the default policy, whatever calls overlap, fail or are cut off by a restart, every message of a batch on
  its way to the backend has a scope that the open session it is sent on was granted, and is a prompt receipt or the
  sanitised form of a packet classified as derived summary; device-local packets and attachments never leave.\<close>

theorem only_allowed_payloads_leave:
  assumes "istore_open spol NoFile = Inr (irstore s)"
    and "irun c san default_egress_policy (s, []) l (s', fl)"
    and "(st, items) \<in> set fl" and "m \<in> set items"
  shows "session_open st \<and> capability_scope (envelope m) \<in> set (granted_scopes st) \<and> payload_allowed san (payload m)"
proof -
  have "irstore s = \<lparr>registry = registry_empty, reg_file = NoFile, store_policy = spol\<rparr>"
    using assms(1) by (simp add: istore_open_def load_or_default_def)
  then have "store_allowed san (irstore s)"
    by (simp add: store_allowed_def outbox_allowed_def registry_empty_def)
  then have "list_all (flight_ok san) fl"
    using run_flights_ok [OF assms(2)] by simp
  then show ?thesis using assms(3,4) by (auto simp: list_all_iff flight_ok_def)
qed

definition w_shout :: "string \<Rightarrow> string" where "w_shout t = t @ ''!''"

definition w_authorized :: irt where
  "w_authorized = snd (policy_enqueue_message (Some w_shout) default_egress_policy (\<lambda>_. True) 5 ''u'' w_envelope (Insight w_packet) w_start)"

definition w_sent :: QueuedIntegrationEgressMessage where
  "w_sent = w_message\<lparr>payload := Insight (w_packet\<lparr>summary := ''ab!'', derived_tags := [''t!'']\<rparr>)\<rparr>"

lemma w_authorized: "outbox (registry (irstore w_authorized)) = [w_sent]" "mem_session w_authorized = Some w_session"
  by (simp_all add: w_authorized_def policy_enqueue_message_def authorize_insight_def decision_allow_def enqueue_message_def
      ibind_def via_port_def enqueue_outbox_sync_def record_audit_sync_def save_registry_def iret_def Let_def sanitize_packet_def
      w_defs w_shout_def w_sent_def registry_empty_def)

lemma w_flight: "flush_begin w_coord 10 w_authorized = (Inr (w_session, [w_sent]), w_authorized)"
  by (simp add: flush_begin_def require_session_def ibind_def load_persisted_state_def iret_def list_outbox_sync_def w_authorized
      validate_scopes_def session_open_def) (simp add: w_defs w_sent_def connected_state_def)

lemma w_run: "irun w_coord (Some w_shout) default_egress_policy (w_start, []) [] (w_authorized, [(w_session, [w_sent])])"
proof -
  have "istep w_coord (Some w_shout) default_egress_policy (w_start, []) [] (w_authorized, [])"
    unfolding w_authorized_def by (intro is_local lc_enqueue)
  from irun_step [OF irun_step [OF irun_nil this] is_send [OF w_flight]] show ?thesis by simp
qed

theorem only_allowed_payloads_leave_witness:
  "irun w_coord (Some w_shout) default_egress_policy (w_start, []) [] (w_authorized, [(w_session, [w_sent])])
   \<and> session_open w_session \<and> capability_scope (envelope w_sent) \<in> set (granted_scopes w_session)
   \<and> payload_allowed (Some w_shout) (payload w_sent)"
  using only_allowed_payloads_leave [OF _ w_run, of store_policy_default w_session "[w_sent]" w_sent] w_run
  by (simp add: w_start_def istore_open_def load_or_default_def)

section \<open>A working transport empties the outbox\<close>

lemma filter_take_ids:
  "length (filter (\<lambda>m. f m \<notin> f ` set (take k xs)) xs) \<le> length xs - k"
proof -
  have "filter (\<lambda>m. f m \<notin> f ` set (take k xs)) xs = filter (\<lambda>m. f m \<notin> f ` set (take k xs)) (take k xs @ drop k xs)"
    by simp
  also have "\<dots> = filter (\<lambda>m. f m \<notin> f ` set (take k xs)) (drop k xs)"
    unfolding filter_append by (simp add: filter_empty_conv)
  finally show ?thesis by (metis length_drop length_filter_le)
qed

definition ready_session :: "IntegrationCapabilityScope list \<Rightarrow> irt \<Rightarrow> bool" where
  "ready_session G s \<longleftrightarrow> (\<exists>st. mem_session s = Some st \<and> session_open st \<and> granted_scopes st = G)"

definition outbox_in_scope :: "IntegrationCapabilityScope list \<Rightarrow> irt \<Rightarrow> bool" where
  "outbox_in_scope G s \<longleftrightarrow> (\<forall>m \<in> set (outbox (registry (irstore s))). capability_scope (envelope m) \<in> set G)"

abbreviation acks_all :: "QueuedIntegrationEgressMessage list \<Rightarrow> IntegrationEgressTransportResponse" where
  "acks_all items \<equiv> \<lparr>er_acknowledged_queue_ids = map queue_id items, er_ack_cursor = None\<rparr>"

lemma flush_acked:
  fixes batch
  assumes "mem_session s = Some st" and "session_open st" and "outbox_in_scope (granted_scopes st) s"
    and "outbox (registry (irstore s)) \<noteq> []"
  defines "items \<equiv> take (max batch 1) (outbox (registry (irstore s)))"
  shows "snd (flush c batch io (\<lambda>_ items. Inr (acks_all items)) s) =
           s\<lparr>irstore := snd (delete_outbox_sync (io 0) (map queue_id items) (irstore s))\<rparr>"
proof -
  have "validate_scopes st items = Inr ()"
    using assms(3) by (auto simp: validate_scopes_def find_None_iff' outbox_in_scope_def items_def dest: in_set_takeD
        split: option.splits)
  moreover have "items \<noteq> []" using assms(4) by (simp add: items_def max_def)
  moreover have "acknowledged_queue_ids items (acks_all items) = Inr (map queue_id items)"
    by (auto simp: acknowledged_queue_ids_def find_None_iff' split: option.splits dest: find_SomeD)
  ultimately show ?thesis
    using assms(1,2)
    by (auto simp: flush_def flush_begin_def require_session_def ibind_def load_persisted_state_def iret_def list_outbox_sync_def
        items_def flush_commit_def via_port_def Let_def split: prod.splits sum.splits)
qed

lemma flush_acked_shrinks:
  fixes batch and io and c
  assumes "ready_session G s" and "outbox_in_scope G s"
  defines "s' \<equiv> snd (flush c batch io (\<lambda>_ items. Inr (acks_all items)) s)"
  shows "ready_session G s' \<and> outbox_in_scope G s' \<and>
         length (outbox (registry (irstore s'))) \<le> length (outbox (registry (irstore s))) - max batch 1"
proof -
  obtain st where st: "mem_session s = Some st" "session_open st" "granted_scopes st = G"
    using assms(1) by (auto simp: ready_session_def)
  show ?thesis
  proof (cases "outbox (registry (irstore s)) = []")
    case True
    then have "s' = s" using st
      by (simp add: s'_def flush_def flush_begin_def require_session_def ibind_def load_persisted_state_def iret_def
          list_outbox_sync_def validate_scopes_def)
    then show ?thesis using assms(1,2) True by simp
  next
    case False
    from flush_acked [OF st(1,2) _ False, of c batch io] assms(2) st
    have "s' = s\<lparr>irstore := snd (delete_outbox_sync (io 0) (map queue_id (take (max batch 1) (outbox (registry (irstore s))))) (irstore s))\<rparr>"
      by (simp add: s'_def)
    then show ?thesis
      using st assms(2) filter_take_ids [of queue_id "max batch 1" "outbox (registry (irstore s))"]
      by (auto simp: ready_session_def outbox_in_scope_def delete_outbox_sync_def snd_save_registry)
  qed
qed

text \<open>C20: With an open session that was granted the scopes of the queued messages and a transport that acknowledges what
  it is sent, the outbox is empty after at most as many flushes as it has batches, also when writes of the state file
  fail.\<close>

theorem outbox_drains:
  assumes "ready_session G s" and "outbox_in_scope G s"
    and "length (outbox (registry (irstore s))) \<le> n * max batch 1"
  shows "outbox (registry (irstore (((\<lambda>s. snd (flush c batch io (\<lambda>_ items. Inr (acks_all items)) s)) ^^ n) s))) = []"
  using assms
proof (induction n arbitrary: s)
  case (Suc n)
  note sh = flush_acked_shrinks [OF Suc.prems(1,2), of c batch io]
  have "length (outbox (registry (irstore (snd (flush c batch io (\<lambda>_ items. Inr (acks_all items)) s))))) \<le> n * max batch 1"
    using sh Suc.prems(3) by (auto simp: algebra_simps)
  with sh Suc.IH show ?case by (simp del: funpow.simps add: funpow_Suc_right)
qed simp

theorem outbox_drains_witness:
  "outbox (registry (irstore w_queued)) = [w_message]
   \<and> outbox (registry (irstore (((\<lambda>s. snd (flush w_coord 10 (\<lambda>_. False) (\<lambda>_ items. Inr (acks_all items)) s)) ^^ 1) w_queued))) = []"
proof -
  have "ready_session [InsightWrite, PromptRead] w_queued" "outbox_in_scope [InsightWrite, PromptRead] w_queued"
    by (simp_all add: ready_session_def outbox_in_scope_def w_queued_file session_open_def)
      (simp_all add: w_defs connected_state_def)
  from outbox_drains [OF this, of 1 10 w_coord "\<lambda>_. False"] show ?thesis by (simp add: w_queued_file)
qed

text \<open>One queued message whose scope the session was not granted blocks delivery while it is among the oldest
  \<open>max_batch_size\<close> messages: every flush fails, sends nothing and leaves the outbox as it is.\<close>

lemma ungranted_scope_blocks_flush:
  assumes "mem_session s = Some st" and "session_open st"
    and "m \<in> set (take (max batch 1) (outbox (registry (irstore s))))"
    and "capability_scope (envelope m) \<notin> set (granted_scopes st)"
  shows "\<exists>msg. flush c batch io send s = (Inl (CAuth msg), s)"
  using assms
  by (auto simp: flush_def flush_begin_def require_session_def ibind_def load_persisted_state_def iret_def list_outbox_sync_def
      validate_scopes_def find_None_iff' Let_def split: option.splits)

section \<open>A denied candidate stops the producer\<close>

text \<open>When the policy denies the first candidate after the stored checkpoint, a call of \<open>produce_pending\<close> fails and
  leaves the outbox and the checkpoint as they were, so the candidates after it are not queued.\<close>

lemma denied_candidate_stops_producer:
  assumes "src (load_checkpoint_sync ns (irstore s)) (max batch 1) = Inr (cd # cds)"
    and "privacy_classification (ic_packet cd) \<noteq> DerivedSummary"
  shows "\<exists>e s'. produce_pending san default_egress_policy ns turns batch src s = (Inl e, s')
           \<and> outbox (registry (irstore s')) = outbox (registry (irstore s))
           \<and> load_checkpoint_sync ns (irstore s') = load_checkpoint_sync ns (irstore s)"
  using assms
  by (cases "privacy_classification (ic_packet cd)")
    (auto simp: produce_pending_def policy_enqueue_message_def authorize_insight_def decision_deny_def
      decision_require_user_approval_def ibind_def via_port_def record_audit_sync_def save_registry_def ierr_def
      load_checkpoint_sync_def Let_def split: prod.splits sum.splits)

end
