(* ===== verification/IntegrationInbox.thy ===== *)
theory IntegrationInbox
  imports IntegrationProperties "HOL-Library.Multiset"
begin

text \<open>
  The inbox of the integration store: its keys are the prompt ids, its size is bounded, pruning takes completed
  prompts first, completed prompts stay completed, and what happens to a redacted body when a prompt is delivered again.
\<close>

section \<open>Shape of the inbox\<close>

definition inbox_ok :: "StoredProactivePrompt btree \<Rightarrow> bool" where
  "inbox_ok xs \<longleftrightarrow> bt_ok xs \<and> list_all (\<lambda>(k, p). prompt_id (prompt p) = k) xs"

lemma set_bt_put: "set (bt_put k v xs) \<subseteq> insert (k, v) (set xs)"
  by (induction k v xs rule: bt_put.induct) auto

lemma inbox_ok_put: "inbox_ok xs \<Longrightarrow> prompt_id (prompt p) = k \<Longrightarrow> inbox_ok (bt_put k p xs)"
  using set_bt_put [of k p xs] by (auto simp: inbox_ok_def bt_ok_put list_all_iff)

lemma inbox_ok_lookup: "inbox_ok xs \<Longrightarrow> map_of xs k = Some p \<Longrightarrow> prompt_id (prompt p) = k"
  by (auto simp: inbox_ok_def list_all_iff dest: map_of_SomeD)

lemma length_bt_put: "map_of xs k = Some v' \<Longrightarrow> bt_ok xs \<Longrightarrow> length (bt_put k v xs) = length xs"
  by (induction k v xs rule: bt_put.induct) (force split: if_splits dest: map_of_SomeD)+

lemma inbox_ok_filter: "inbox_ok xs \<Longrightarrow> inbox_ok (filter q xs)"
  by (auto simp: inbox_ok_def list_all_iff bt_ok_filter)

lemma inbox_ok_upsert: "inbox_ok xs \<Longrightarrow> inbox_ok (upsert_one p xs)"
  by (auto simp: upsert_one_def Let_def intro!: inbox_ok_put split: option.splits)

lemma inbox_ok_upserts: "inbox_ok xs \<Longrightarrow> inbox_ok (fold upsert_one ps xs)"
  by (induction ps arbitrary: xs) (auto intro: inbox_ok_upsert)

section \<open>Pruning\<close>

lemma fold_bt_remove:
  "fold (\<lambda>(a, b, k). bt_remove k) cs xs = filter (\<lambda>e. fst e \<notin> set (map (snd \<circ> snd) cs)) xs"
proof (induction cs arbitrary: xs)
  case (Cons c cs)
  then show ?case by (cases c) (auto simp: bt_remove_def intro!: filter_cong)
qed simp

lemma candidate_ids:
  assumes "inbox_ok xs"
  shows "mset (map (snd \<circ> snd) (prune_candidates xs)) = mset (map fst xs)"
proof -
  have "mset (map (snd \<circ> snd) (prune_candidates xs)) =
          mset (map (snd \<circ> snd) (map (\<lambda>(k, p). (istatus p = IPending, received_at p, prompt_id (prompt p))) xs))"
    unfolding prune_candidates_def by (simp only: mset_map mset_sort)
  also have "map (snd \<circ> snd) (map (\<lambda>(k, p). (istatus p = IPending, received_at p, prompt_id (prompt p))) xs) = map fst xs"
    using assms by (auto simp: inbox_ok_def list_all_iff)
  finally show ?thesis .
qed

lemma prune_length:
  assumes "inbox_ok xs"
  shows "length (prune_inbox pol xs) \<le> max (max_stored_prompts pol) 1"
proof -
  define m where "m = max (max_stored_prompts pol) 1"
  define ids where "ids = map (snd \<circ> snd) (prune_candidates xs)"
  have ids: "distinct ids" "set ids = fst ` set xs" "length ids = length xs"
  proof -
    note eq = candidate_ids [OF assms, folded ids_def]
    show "distinct ids" using mset_eq_imp_distinct_iff [OF eq] assms by (simp add: inbox_ok_def bt_ok_distinct)
    show "set ids = fst ` set xs" using mset_eq_setD [OF eq] by simp
    show "length ids = length xs" using mset_eq_length [OF eq] by simp
  qed
  have "length (filter (\<lambda>e. fst e \<in> set (take k ids)) xs) = k" if "k \<le> length xs" for k
  proof -
    have "length (filter (\<lambda>e. fst e \<in> set (take k ids)) xs) = card (fst ` set (filter (\<lambda>e. fst e \<in> set (take k ids)) xs))"
      using assms bt_ok_filter bt_ok_distinct by (metis distinct_card inbox_ok_def length_map list.set_map)
    also have "fst ` set (filter (\<lambda>e. fst e \<in> set (take k ids)) xs) = set (take k ids)"
      using ids(2) by (auto dest: in_set_takeD)
    also have "card \<dots> = k" using ids(1,3) that by (simp add: distinct_card)
    finally show ?thesis .
  qed
  from this [of "length xs - m"]
  have "length (filter (\<lambda>e. fst e \<notin> set (take (length xs - m) ids)) xs) \<le> m"
    using sum_length_filter_compl [of "\<lambda>e. fst e \<in> set (take (length xs - m) ids)" xs] by simp
  then show ?thesis
    unfolding prune_inbox_def Let_def fold_bt_remove by (simp add: m_def ids_def take_map)
qed

lemma inbox_ok_prune: "inbox_ok xs \<Longrightarrow> inbox_ok (prune_inbox pol xs)"
  by (simp add: prune_inbox_def Let_def fold_bt_remove inbox_ok_filter)

lemma sorted_bools_take:
  assumes "sorted bs" and "k \<le> length (filter Not bs)"
  shows "True \<notin> set (take k bs)"
  using assms
proof (induction bs arbitrary: k)
  case (Cons b bs)
  show ?case
  proof (cases b)
    case True
    then have "filter Not (b # bs) = []" using Cons.prems(1) by (auto simp: filter_empty_conv)
    then show ?thesis using Cons.prems(2) by (metis le_zero_eq list.size(3) take0 list.set(1) empty_iff)
  next
    case False
    then show ?thesis using Cons by (cases k) auto
  qed
qed simp

lemma prune_spares_pending_list:
  assumes "inbox_ok xs" and "(k, p) \<in> set xs" and "istatus p = IPending"
    and few: "length (filter (\<lambda>q. istatus q = IPending) (map snd xs)) \<le> max (max_stored_prompts pol) 1"
  shows "(k, p) \<in> set (prune_inbox pol xs)"
proof -
  define n where "n = length xs - max (max_stored_prompts pol) 1"
  have sorted: "sorted (map fst (prune_candidates xs))"
  proof -
    have "sorted (map (\<lambda>(pend, at, pid). (pend, at)) (prune_candidates xs))"
      unfolding prune_candidates_def by (rule sorted_sort_key)
    then show ?thesis
      unfolding sorted_map by (rule sorted_wrt_mono_rel [rotated]) (auto simp: less_eq_prod_def)
  qed
  have "mset (map fst (prune_candidates xs)) = mset (map (\<lambda>q. istatus q = IPending) (map snd xs))"
    unfolding prune_candidates_def by (simp add: case_prod_beta image_mset.compositionality o_def)
  from arg_cong [OF this, of "\<lambda>M. size (filter_mset Not M)"]
  have cnt: "length (filter Not (map fst (prune_candidates xs))) = length (filter (\<lambda>q. istatus q \<noteq> IPending) (map snd xs))"
    by (simp only: mset_filter [symmetric] size_mset filter_map length_map o_def)
  have "n \<le> length (filter Not (map fst (prune_candidates xs)))"
    unfolding cnt n_def using few sum_length_filter_compl [of "\<lambda>q. istatus q = IPending" "map snd xs"] by simp
  from sorted_bools_take [OF sorted this]
  have completed: "\<not> fst c" if "c \<in> set (take n (prune_candidates xs))" for c
    using that by (force simp: take_map)
  have "k \<noteq> snd (snd c)" if c: "c \<in> set (take n (prune_candidates xs))" for c
  proof
    assume "k = snd (snd c)"
    obtain k' p' where "(k', p') \<in> set xs" "c = (istatus p' = IPending, received_at p', prompt_id (prompt p'))"
      using in_set_takeD [OF c] by (auto simp: prune_candidates_def)
    then have "p' = p" using \<open>k = snd (snd c)\<close> assms(1,2) bt_ok_distinct
      by (metis (mono_tags, lifting) case_prodD eq_key_imp_eq_value inbox_ok_def list_all_iff snd_conv)
    then show False using completed [OF c] \<open>c = _\<close> assms(3) by simp
  qed
  then show ?thesis using assms(2) by (auto simp: prune_inbox_def Let_def fold_bt_remove n_def)
qed

section \<open>The inbox along runs\<close>

definition inbox_good :: "IntegrationStateStorePolicy \<Rightarrow> FileIntegrationStateRegistry \<Rightarrow> bool" where
  "inbox_good pol r \<longleftrightarrow> inbox_ok (inbox r) \<and> length (inbox r) \<le> max (max_stored_prompts pol) 1"

definition store_good :: "IntegrationStateStorePolicy \<Rightarrow> istore \<Rightarrow> bool" where
  "store_good pol s \<longleftrightarrow> store_policy s = pol \<and> inbox_good pol (registry s) \<and>
     (case reg_file s of Saved r \<Rightarrow> inbox_good pol r | _ \<Rightarrow> True)"

lemma store_good_save:
  "store_good pol s \<Longrightarrow> inbox_good pol r \<Longrightarrow> store_good pol (snd (save_registry io a r s))"
  by (auto simp: store_good_def snd_save_registry)

lemma prompt_id_redact [simp]:
  "prompt_id (prompt (redact_prompt_body_if_needed pol st p)) = prompt_id (prompt p)"
  "prompt_id (prompt (receipt_applied pol r p)) = prompt_id (prompt p)"
  by (simp_all add: redact_prompt_body_if_needed_def receipt_applied_def)

lemma inbox_good_put:
  assumes "inbox_good pol r" and "map_of (inbox r) k = Some p" and "prompt_id (prompt q) = prompt_id (prompt p)"
  shows "inbox_good pol (r\<lparr>inbox := bt_put k q (inbox r)\<rparr>)"
  using assms inbox_ok_lookup [of "inbox r" k p]
  by (auto simp: inbox_good_def inbox_ok_put length_bt_put inbox_ok_def [of "inbox r"])

lemma inbox_good_expire:
  assumes "inbox_good pol r"
  shows "inbox_good pol (r\<lparr>inbox := map (\<lambda>(k, p). (k, if prompt_stale now p
     then redact_prompt_body_if_needed pol' IExpired (p\<lparr>istatus := IExpired, status_updated_at := now\<rparr>) else p)) (inbox r)\<rparr>)"
  using assms
  by (auto simp: inbox_good_def inbox_ok_def list_all_iff case_prod_beta o_def)

lemma inbox_good_upsert:
  "inbox_good pol r \<Longrightarrow> inbox_good pol (r\<lparr>inbox := prune_inbox pol (fold upsert_one ps (inbox r))\<rparr>)"
  by (simp add: inbox_good_def inbox_ok_prune inbox_ok_upserts prune_length [simplified])

interpretation ib: call_inv "store_good pol" "\<lambda>p. True"
proof
  fix st io now uuid pid env rc
  assume g: "store_good pol st"
  show "store_good pol (snd (record_prompt_receipt_sync io now uuid pid env rc st))"
  proof (cases "map_of (inbox (registry st)) pid")
    case (Some p)
    have "inbox_good pol ((registry st)\<lparr>inbox := bt_put pid (receipt_applied (store_policy st) rc p) (inbox (registry st)),
            outbox := os\<rparr>)" for os
      using inbox_good_put [OF _ Some, of pol "receipt_applied (store_policy st) rc p"] g
      by (simp add: store_good_def inbox_good_def)
    then show ?thesis using g Some by (auto simp: record_prompt_receipt_sync_def Let_def intro!: store_good_save)
  qed (simp add: record_prompt_receipt_sync_def g)
next
  fix st io pid at
  assume g: "store_good pol st"
  then show "store_good pol (snd (mark_presented_sync io pid at st))"
    by (auto simp: mark_presented_sync_def store_good_def [of _ st] intro!: store_good_save inbox_good_put split: option.splits)
next
  fix st io ps
  assume "store_good pol st"
  then show "store_good pol (snd (upsert_inbox_sync io ps st))"
    by (auto simp: upsert_inbox_sync_def store_good_def [of _ st] intro!: store_good_save inbox_good_upsert)
next
  fix st io now
  assume "store_good pol st"
  then show "store_good pol (snd (expire_inbox_sync io now st))"
    by (auto simp: expire_inbox_sync_def Let_def store_good_def [of _ st] intro!: store_good_save inbox_good_expire)
qed (auto simp: store_good_def inbox_good_def enqueue_outbox_sync_def snd_save_registry Let_def)

lemma store_good_restart:
  "store_good pol st \<Longrightarrow> istore_open (store_policy st) (reg_file st) = Inr st' \<Longrightarrow> store_good pol st'"
  by (auto simp: store_good_def istore_open_def load_or_default_def rbind_def inbox_good_def inbox_ok_def registry_empty_def
      split: registry_file.splits)

lemma store_good_delete: "store_good pol s \<Longrightarrow> store_good pol (snd (delete_outbox_sync io ids s))"
  unfolding delete_outbox_sync_def by (rule store_good_save) (auto simp: store_good_def inbox_good_def)

lemma run_store_good:
  assumes "istore_open spol NoFile = Inr (irstore s)" and "irun c san pol (s, fl) l (s', fl')"
  shows "store_good spol (irstore s')"
proof -
  have "store_good spol (irstore (fst (s, fl))) \<longrightarrow> store_good spol (irstore (fst (s', fl')))"
    using assms(2) by (rule ib.R_run) (auto intro: store_good_delete store_good_restart)
  moreover have "irstore s = \<lparr>registry = registry_empty, reg_file = NoFile, store_policy = spol\<rparr>"
    using assms(1) by (simp add: istore_open_def load_or_default_def)
  ultimately show ?thesis by (simp add: store_good_def inbox_good_def inbox_ok_def registry_empty_def)
qed

section \<open>What a refresh does to the inbox\<close>

abbreviation same_inbox :: "istore \<Rightarrow> istore \<Rightarrow> bool" where
  "same_inbox s t \<equiv> inbox (registry t) = inbox (registry s)"

interpretation ie: store_rel same_inbox
  by unfold_locales auto

lemma inbox_bind:
  assumes "\<And>a. keeps same_inbox (k a)"
  shows "inbox (registry (irstore (snd (ibind m k s)))) = inbox (registry (irstore (snd (m s))))"
proof (cases "m s")
  case (Pair x s')
  show ?thesis
  proof (cases x)
    case (Inr a)
    then show ?thesis using ie.keepsD [OF assms [of a] refl, of s'] Pair by (simp add: ibind_def)
  qed (simp add: ibind_def Pair)
qed

lemma refresh_commit_inbox:
  "inbox (registry (irstore (snd (refresh_commit c io now st r s)))) =
     (if ir_prompts r = [] then inbox (registry (irstore s))
      else prune_inbox (store_policy (irstore s))
             (fold upsert_one (to_stored_prompts now (ir_prompts r)) (inbox (registry (irstore s)))))"
proof -
  have "inbox (registry (irstore (snd (refresh_commit c io now st r s)))) =
    inbox (registry (irstore (snd ((if length (ir_prompts r) > 0
      then via_port (upsert_inbox_sync (io 1) (to_stored_prompts now (ir_prompts r))) else iret ()) s))))"
    unfolding refresh_commit_def Let_def
    by (intro inbox_bind ie.keeps_bind) (auto simp: ie.keeps_ret ie.keeps_ack split: option.splits)
  then show ?thesis by (simp add: iret_def upsert_inbox_sync_def snd_save_registry)
qed

text \<open>A store that keeps one prompt, which was received and acknowledged, for the witnesses.\<close>

definition w_prompt :: "string \<Rightarrow> ProactivePrompt" where
  "w_prompt pid = \<lparr>prompt_id = pid, category = CatTask, p_title = ''t'', body = ''b'', p_priority = PLow, actions = [],
     p_expires_at = None, provenance = \<lparr>source_system = ''y'', source_actor = None, correlation_id = None\<rparr>\<rparr>"

definition w_small :: IntegrationStateStorePolicy where
  "w_small = \<lparr>max_stored_prompts = 1, redact_completed_prompt_bodies = True\<rparr>"

definition w_empty :: irt where
  "w_empty = \<lparr>irstore = \<lparr>registry = registry_empty, reg_file = NoFile, store_policy = w_small\<rparr>, mem_session = Some w_session\<rparr>"

definition w_answer :: "string \<Rightarrow> IntegrationInboxTransportResponse" where
  "w_answer pid = \<lparr>ir_prompts = [w_prompt pid], ir_ack_cursor = None\<rparr>"

definition w_received :: irt where
  "w_received = snd (refresh_commit w_coord (\<lambda>_. True) 3 w_session (w_answer ''a'') w_empty)"

definition w_completed :: irt where
  "w_completed = snd (record_prompt_receipt w_coord ''d'' True 4 (\<lambda>_. ''u'') ''a'' RAcknowledged None w_received)"

definition w_done :: StoredProactivePrompt where
  "w_done = \<lparr>prompt = (w_prompt ''a'')\<lparr>body := []\<rparr>, received_at = 3, istatus = IAcknowledged, status_updated_at = 4,
     presented_at = None, dismiss_reason = None\<rparr>"

lemma w_open: "istore_open w_small NoFile = Inr (irstore w_empty)"
  by (simp add: w_empty_def istore_open_def load_or_default_def)

lemma w_received: "irstore w_received = snd (upsert_inbox_sync True (to_stored_prompts 3 [w_prompt ''a'']) (irstore w_empty))"
  "mem_session w_received = Some w_session"
  by (simp_all add: w_received_def refresh_commit_def ibind_def via_port_def upsert_inbox_sync_def save_registry_def iret_def
      w_answer_def w_empty_def)

lemma w_completed: "inbox (registry (irstore w_completed)) = [(''a'', w_done)]" "store_policy (irstore w_completed) = w_small"
  by (simp_all add: w_completed_def w_received record_prompt_receipt_def build_receipt_envelope_def ibind_def load_persisted_state_def
      via_port_def record_prompt_receipt_sync_def upsert_inbox_sync_def save_registry_def iret_def Let_def w_empty_def
      to_stored_prompts_def upsert_one_def prune_inbox_def registry_empty_def w_prompt_def receipt_applied_def
      redact_prompt_body_if_needed_def to_inbox_status_def w_done_def w_small_def)

lemma w_inbox_run: "irun w_coord None default_egress_policy (w_empty, []) [] (w_completed, [])"
proof -
  have "istep w_coord None default_egress_policy (w_empty, []) [] (w_received, [])"
    unfolding w_received_def by (intro is_local lc_refresh_commit)
  moreover have "istep w_coord None default_egress_policy (w_received, []) [] (w_completed, [])"
    unfolding w_completed_def by (intro is_local lc_receipt)
  ultimately show ?thesis using irun_step [OF irun_step [OF irun_nil]] by fastforce
qed

text \<open>However the coordinators' calls overlap, fail or are cut off by restarts, the inbox never holds more prompts
  than the policy's maximum (at least one).\<close>

theorem inbox_stays_bounded:
  assumes "istore_open spol NoFile = Inr (irstore s)" and "irun c san pol (s, fl) l (s', fl')"
  shows "length (inbox (registry (irstore s'))) \<le> max (max_stored_prompts spol) 1"
  using run_store_good [OF assms] by (simp add: store_good_def inbox_good_def)

theorem inbox_stays_bounded_witness:
  "irun w_coord None default_egress_policy (w_empty, []) [] (w_completed, []) \<and> length (inbox (registry (irstore w_completed))) \<le> 1"
  using inbox_stays_bounded [OF w_open w_inbox_run] w_inbox_run by (simp add: w_small_def)

text \<open>A refresh that overflows the inbox evicts completed prompts first: if the prompts that are pending after
  merging the answer fit into the inbox, every one of them is still there, unchanged.\<close>

theorem refresh_evicts_completed_first:
  assumes "istore_open spol NoFile = Inr (irstore s)" and "irun c san pol (s, fl) l (s', fl')"
    and "merged = fold upsert_one (to_stored_prompts now (ir_prompts r)) (inbox (registry (irstore s')))"
    and "length (filter (\<lambda>q. istatus q = IPending) (map snd merged)) \<le> max (max_stored_prompts spol) 1"
    and "map_of merged k = Some p" and "istatus p = IPending"
  shows "map_of (inbox (registry (irstore (snd (refresh_commit c io now st r s'))))) k = Some p"
proof -
  have good: "inbox_ok (inbox (registry (irstore s')))" "store_policy (irstore s') = spol"
    using run_store_good [OF assms(1,2)] by (simp_all add: store_good_def inbox_good_def)
  have ok: "inbox_ok merged" using inbox_ok_upserts [OF good(1)] assms(3) by simp
  have "(k, p) \<in> set (prune_inbox spol merged)"
    using prune_spares_pending_list [OF ok map_of_SomeD [OF assms(5)] assms(6,4)] .
  then have "map_of (prune_inbox spol merged) k = Some p"
    using inbox_ok_prune [OF ok] by (simp add: inbox_ok_def bt_ok_distinct)
  then show ?thesis
    using assms(3,5) good(2) by (auto simp: refresh_commit_inbox to_stored_prompts_def)
qed

theorem refresh_evicts_completed_first_witness:
  "map_of (inbox (registry (irstore (snd (refresh_commit w_coord (\<lambda>_. True) 5 w_session (w_answer ''b'') w_completed))))) ''b''
     = Some (hd (to_stored_prompts 5 [w_prompt ''b'']))"
proof -
  have "fold upsert_one (to_stored_prompts 5 (ir_prompts (w_answer ''b''))) (inbox (registry (irstore w_completed)))
          = [(''a'', w_done), (''b'', hd (to_stored_prompts 5 [w_prompt ''b'']))]"
    by (simp add: w_completed w_answer_def to_stored_prompts_def upsert_one_def w_prompt_def Let_def)
  from refresh_evicts_completed_first [OF w_open w_inbox_run this [symmetric],
      of "''b''" "hd (to_stored_prompts 5 [w_prompt ''b''])" "\<lambda>_. True" w_session]
  show ?thesis by (simp add: w_done_def to_stored_prompts_def w_small_def)
qed

section \<open>Completed prompts\<close>

lemma upsert_keeps_status:
  assumes "bt_ok xs" and "map_of xs k = Some p"
  shows "\<exists>q. map_of (upsert_one n xs) k = Some q \<and> istatus q = istatus p \<and> dismiss_reason q = dismiss_reason p"
  using assms by (auto simp: upsert_one_def Let_def map_of_bt_put split: option.splits)

lemma receipt_completes:
  assumes "bt_ok (inbox (registry s))"
    and "record_prompt_receipt_sync io now uuid pid env r s = (Inr q, s1)"
  shows "\<exists>p. map_of (inbox (registry s1)) pid = Some p \<and> istatus p = to_inbox_status (r_action r)"
  using assms
  by (auto simp: record_prompt_receipt_sync_def Let_def save_registry_def map_of_bt_put receipt_applied_def
      redact_prompt_body_if_needed_def split: option.splits if_splits)

text \<open>A prompt takes one receipt: after a receipt was recorded for it, every further one is refused and changes
  nothing, as long as the inbox still stores the prompt with its status.\<close>

lemma one_receipt_per_prompt:
  assumes "bt_ok (inbox (registry s))"
    and "record_prompt_receipt_sync io now uuid pid env r s = (Inr q, s1)"
    and "map_of (inbox (registry s2)) pid = map_of (inbox (registry s1)) pid"
    and "r_prompt_id r' = pid"
  shows "\<exists>msg. record_prompt_receipt_sync io' now' uuid' pid env' r' s2 =
           (Inl (StValidation ''integration.prompt_receipt.status'' msg), s2)"
  using receipt_completes [OF assms(1,2)] assms(3,4)
  by (auto simp: record_prompt_receipt_sync_def to_inbox_status_def split: IntegrationPromptReceiptAction.splits)

text \<open>The body of a completed prompt, cleared because the policy redacts completed prompts, is stored again when
  the backend delivers the prompt again, although the prompt stays completed.\<close>

theorem redelivery_restores_redacted_body:
  assumes "bt_ok (inbox (registry (irstore s)))"
    and "length (inbox (registry (irstore s))) \<le> max (max_stored_prompts (store_policy (irstore s))) 1"
    and "redact_completed_prompt_bodies (store_policy (irstore s))"
    and "map_of (inbox (registry (irstore s))) (prompt_id p) = Some old"
    and "istatus old \<noteq> IPending" and "body (prompt old) = []"
    and "body p \<noteq> []" and "ir_prompts r = [p]"
  shows "\<exists>new. map_of (inbox (registry (irstore (snd (refresh_commit c io now st r s))))) (prompt_id p) = Some new
           \<and> istatus new = istatus old \<and> body (prompt new) = body p"
proof -
  have "length (upsert_one (hd (to_stored_prompts now [p])) (inbox (registry (irstore s)))) = length (inbox (registry (irstore s)))"
    using assms(1,4) by (simp add: upsert_one_def to_stored_prompts_def length_bt_put)
  then show ?thesis
    using assms(1,2,4,8)
    by (auto simp: refresh_commit_inbox to_stored_prompts_def prune_inbox_def upsert_one_def Let_def map_of_bt_put)
qed

theorem redelivery_restores_redacted_body_witness:
  "map_of (inbox (registry (irstore w_completed))) ''a'' = Some w_done \<and> body (prompt w_done) = []
   \<and> (\<exists>new. map_of (inbox (registry (irstore (snd (refresh_commit w_coord (\<lambda>_. True) 5 w_session (w_answer ''a'') w_completed)))))
         ''a'' = Some new \<and> istatus new = IAcknowledged \<and> body (prompt new) = ''b'')"
  using redelivery_restores_redacted_body [of w_completed "w_prompt ''a''" w_done "w_answer ''a''" w_coord "\<lambda>_. True" 5 w_session]
  by (simp add: w_completed w_done_def w_answer_def w_prompt_def w_small_def)

end
