(* ===== verification/IntegrationLoop.thy ===== *)
theory IntegrationLoop
  imports IntegrationFlow
begin

text \<open>
  The retry gate of \<open>crates/oneshim-network/src/resilience.rs\<close>, the lane telemetry of
  \<open>integration/runtime_telemetry.rs\<close> and the select loop of \<open>integration/runtime_loop.rs\<close>. Durations are non-negative
  nanoseconds, the value drawn for the jitter is an argument. Adding a duration to an \<open>Instant\<close> or a \<open>DateTime\<close> panics
  when the sum is not representable; the limits are arguments and a panic is \<open>None\<close>.
\<close>

section \<open>Retry gate\<close>

datatype NetworkError =
    NCore CoreError | NHttp string | NTimeout u64 | NRateLimited u64 | NServiceUnavailable string | NAuth string
  | NNotFound string string | NConfig string | NValidation string string | NAnalysis string | NPolicyDenied string
  | NInternal string | NCircuitOpen

text \<open>\<open>disp\<close> is the \<open>Display\<close> text of an error.\<close>

definition core_to_network_error :: "(CoreError \<Rightarrow> string) \<Rightarrow> CoreError \<Rightarrow> NetworkError" where
  "core_to_network_error disp e =
     (case e of
        CRateLimit n \<Rightarrow> NRateLimited n
      | CRequestTimeout n \<Rightarrow> NTimeout n
      | CServiceUnavailable m \<Rightarrow> NServiceUnavailable m
      | CAuth m \<Rightarrow> NAuth m
      | _ \<Rightarrow> NHttp (disp e))"

definition nanos_per_milli :: int where "nanos_per_milli = 1000000"

definition as_millis :: "int \<Rightarrow> int" where "as_millis d = d div nanos_per_milli"

definition u64_max :: int where "u64_max = 2 ^ 64 - 1"

definition scale_duration :: "int \<Rightarrow> u32 \<Rightarrow> int" where
  "scale_duration d factor = min (as_millis d * uint factor) u64_max * nanos_per_milli"

text \<open>\<open>rng m\<close> is the number drawn from the range from 0 to m.\<close>

definition backoff_exp_ms :: "u32 \<Rightarrow> int \<Rightarrow> int" where
  "backoff_exp_ms attempt base_ms = min (base_ms * 2 ^ min (unat attempt) 10) u64_max"

definition jittered_backoff_delay :: "(int \<Rightarrow> int) \<Rightarrow> u32 \<Rightarrow> int \<Rightarrow> int \<Rightarrow> int" where
  "jittered_backoff_delay rng attempt base mx =
     (let base_ms = min (as_millis base) u64_max; max_ms = min (as_millis mx) u64_max
      in if base_ms = 0 \<or> max_ms = 0 then 0
         else (let exp_ms = backoff_exp_ms attempt base_ms;
                   jitter_max_ms = exp_ms div 4;
                   jitter_ms = (if jitter_max_ms = 0 then 0 else rng jitter_max_ms)
               in min (min (exp_ms + jitter_ms) u64_max) max_ms * nanos_per_milli))"

record RetryBackoffPolicy =
  base_delay :: int
  max_delay :: int

record RetryBackoffGate =
  gate_policy :: RetryBackoffPolicy
  gate_failures :: u32
  blocked_until :: "int option"

definition gate_new :: "RetryBackoffPolicy \<Rightarrow> RetryBackoffGate" where
  "gate_new p = \<lparr>gate_policy = p, gate_failures = 0, blocked_until = None\<rparr>"

definition is_ready :: "int \<Rightarrow> RetryBackoffGate \<Rightarrow> bool" where
  "is_ready now g = (case blocked_until g of None \<Rightarrow> True | Some u \<Rightarrow> now \<ge> u)"

definition on_success :: "RetryBackoffGate \<Rightarrow> RetryBackoffGate" where
  "on_success g = g\<lparr>gate_failures := 0, blocked_until := None\<rparr>"

definition sat_inc :: "u32 \<Rightarrow> u32" where "sat_inc n = (if n = - 1 then n else n + 1)"

definition sat_dec :: "u32 \<Rightarrow> u32" where "sat_dec n = (if n = 0 then 0 else n - 1)"

definition failure_delay :: "(int \<Rightarrow> int) \<Rightarrow> NetworkError \<Rightarrow> RetryBackoffGate \<Rightarrow> int" where
  "failure_delay rng err g =
     (case err of
        NRateLimited n \<Rightarrow> secs (uint n)
      | _ \<Rightarrow> jittered_backoff_delay rng (sat_dec (gate_failures g)) (base_delay (gate_policy g)) (max_delay (gate_policy g)))"

definition on_failure :: "int \<Rightarrow> (int \<Rightarrow> int) \<Rightarrow> int \<Rightarrow> NetworkError \<Rightarrow> RetryBackoffGate \<Rightarrow> (int \<times> RetryBackoffGate) option" where
  "on_failure instant_max rng now err g =
     (let g1 = g\<lparr>gate_failures := sat_inc (gate_failures g)\<rparr>;
          delay = failure_delay rng err g1
      in if now + delay > instant_max then None else Some (delay, g1\<lparr>blocked_until := Some (now + delay)\<rparr>))"

datatype BreakerSignal = BSuccess | BFailure | BNeutral

definition classify_for_breaker :: "16 word option \<Rightarrow> bool \<Rightarrow> BreakerSignal" where
  "classify_for_breaker st transport_err =
     (if transport_err then BFailure
      else case st of
        None \<Rightarrow> BFailure
      | Some s \<Rightarrow>
          if 200 \<le> s \<and> s < 300 then BSuccess
          else if s = 401 \<or> s = 429 then BFailure
          else if s \<ge> 500 then BFailure
          else BNeutral)"

section \<open>Telemetry\<close>

datatype IntegrationRuntimeLane = LConnect | LHeartbeat | LEgress | LInbox

record IntegrationRuntimeLaneTelemetry =
  lt_failures :: u32
  lt_last_success_at :: "time option"
  lt_last_failure_at :: "time option"
  lt_backoff_until :: "time option"
  lt_last_error :: "string option"

definition lane_empty :: IntegrationRuntimeLaneTelemetry where
  "lane_empty = \<lparr>lt_failures = 0, lt_last_success_at = None, lt_last_failure_at = None, lt_backoff_until = None, lt_last_error = None\<rparr>"

type_synonym telemetry = "IntegrationRuntimeLane \<Rightarrow> IntegrationRuntimeLaneTelemetry"

definition telemetry_success :: "time \<Rightarrow> IntegrationRuntimeLane \<Rightarrow> telemetry \<Rightarrow> telemetry" where
  "telemetry_success utc lane t =
     t(lane := (t lane)\<lparr>lt_failures := 0, lt_last_success_at := Some utc, lt_backoff_until := None, lt_last_error := None\<rparr>)"

text \<open>The limits of the standard library and of chrono: the last instant, the longest \<open>chrono::Duration\<close>, the last date.\<close>

record limits =
  instant_max :: int
  delta_max :: int
  date_max :: int

definition telemetry_failure :: "limits \<Rightarrow> (CoreError \<Rightarrow> string) \<Rightarrow> time \<Rightarrow> IntegrationRuntimeLane \<Rightarrow> CoreError \<Rightarrow> int \<Rightarrow> telemetry
    \<Rightarrow> telemetry option" where
  "telemetry_failure lim disp utc lane err delay t =
     (let until = (if delay > delta_max lim then Some None
                   else if utc + delay > date_max lim then None else Some (Some (utc + delay)))
      in case until of
           None \<Rightarrow> None
         | Some u \<Rightarrow> Some (t(lane := (t lane)\<lparr>lt_failures := sat_inc (lt_failures (t lane)), lt_last_failure_at := Some utc,
                       lt_backoff_until := u, lt_last_error := Some (disp err)\<rparr>)))"

section \<open>The loop\<close>

record IntegrationRuntimeLoopProfile =
  lp_requested_scopes :: "IntegrationCapabilityScope list"
  connect_retry_interval :: int
  heartbeat_interval :: int
  egress_interval :: int
  inbox_refresh_interval :: int

record runtime =
  rt_state :: irt
  gates :: "IntegrationRuntimeLane \<Rightarrow> RetryBackoffGate"
  tele :: "telemetry option"

definition lane_policy :: "IntegrationRuntimeLoopProfile \<Rightarrow> IntegrationRuntimeLane \<Rightarrow> RetryBackoffPolicy" where
  "lane_policy p lane =
     (case lane of
        LConnect \<Rightarrow> \<lparr>base_delay = connect_retry_interval p, max_delay = scale_duration (connect_retry_interval p) 8\<rparr>
      | LHeartbeat \<Rightarrow> \<lparr>base_delay = heartbeat_interval p, max_delay = scale_duration (heartbeat_interval p) 4\<rparr>
      | LEgress \<Rightarrow> \<lparr>base_delay = egress_interval p, max_delay = scale_duration (egress_interval p) 8\<rparr>
      | LInbox \<Rightarrow> \<lparr>base_delay = inbox_refresh_interval p, max_delay = scale_duration (inbox_refresh_interval p) 8\<rparr>)"

definition runtime_start :: "IntegrationRuntimeLoopProfile \<Rightarrow> irt \<Rightarrow> telemetry option \<Rightarrow> runtime" where
  "runtime_start p s t = \<lparr>rt_state = s, gates = (\<lambda>lane. gate_new (lane_policy p lane)), tele = t\<rparr>"

text \<open>What a turn of the loop reads from outside: the clocks and the jitter.\<close>

record readings =
  rd_now :: int
  rd_utc :: time
  rd_rng :: "int \<Rightarrow> int"
  rd_disp :: "CoreError \<Rightarrow> string"

definition lane_failed :: "limits \<Rightarrow> readings \<Rightarrow> IntegrationRuntimeLane \<Rightarrow> CoreError \<Rightarrow> runtime \<Rightarrow> runtime option" where
  "lane_failed lim rd lane err r =
     (case on_failure (instant_max lim) (rd_rng rd) (rd_now rd) (core_to_network_error (rd_disp rd) err) (gates r lane) of
        None \<Rightarrow> None
      | Some (delay, g) \<Rightarrow>
          (let r1 = r\<lparr>gates := (gates r)(lane := g)\<rparr>
           in case tele r of
                None \<Rightarrow> Some r1
              | Some t \<Rightarrow>
                  map_option (\<lambda>t'. r1\<lparr>tele := Some t'\<rparr>) (telemetry_failure lim (rd_disp rd) (rd_utc rd) lane err delay t)))"

definition lane_succeeded :: "readings \<Rightarrow> IntegrationRuntimeLane \<Rightarrow> runtime \<Rightarrow> runtime" where
  "lane_succeeded rd lane r =
     r\<lparr>gates := (gates r)(lane := on_success (gates r lane)), tele := map_option (telemetry_success (rd_utc rd) lane) (tele r)\<rparr>"

text \<open>A tick of a lane whose cycle is \<open>cyc\<close>; each lane has its own cycle and its own gate.\<close>

definition lane_tick :: "limits \<Rightarrow> readings \<Rightarrow> IntegrationRuntimeLane \<Rightarrow> 'a icall \<Rightarrow> runtime \<Rightarrow> runtime option" where
  "lane_tick lim rd lane cyc r =
     (if \<not> is_ready (rd_now rd) (gates r lane) then Some r
      else case cyc (rt_state r) of
             (Inl err, s) \<Rightarrow> lane_failed lim rd lane err (r\<lparr>rt_state := s\<rparr>)
           | (Inr _, s) \<Rightarrow> Some (lane_succeeded rd lane (r\<lparr>rt_state := s\<rparr>)))"

text \<open>A signal wakes the egress or the inbox lane; waiting for it may fail.\<close>

definition lane_signal :: "limits \<Rightarrow> readings \<Rightarrow> IntegrationRuntimeLane \<Rightarrow> CoreError + bool \<Rightarrow> 'a icall \<Rightarrow> runtime \<Rightarrow> runtime option" where
  "lane_signal lim rd lane sig cyc r =
     (case sig of
        Inl err \<Rightarrow> lane_failed lim rd lane err r
      | Inr True \<Rightarrow> lane_tick lim rd lane cyc r
      | Inr False \<Rightarrow> Some r)"

section \<open>Bounds of the delay\<close>

lemma jittered_le_max:
  assumes "0 \<le> mx"
  shows "jittered_backoff_delay rng attempt base mx \<le> mx"
proof -
  have "min (min a u64_max) (min (as_millis mx) u64_max) * nanos_per_milli \<le> mx" for a
  proof -
    have "min (min a u64_max) (min (as_millis mx) u64_max) * nanos_per_milli \<le> mx div nanos_per_milli * nanos_per_milli"
      by (rule mult_right_mono) (simp_all add: as_millis_def nanos_per_milli_def)
    also have "\<dots> \<le> mx" by (simp add: nanos_per_milli_def)
    finally show ?thesis .
  qed
  then show ?thesis using assms by (simp add: jittered_backoff_delay_def Let_def)
qed

lemma jittered_ge:
  assumes "0 \<le> base" and "0 \<le> mx" and "\<And>m. 0 \<le> m \<Longrightarrow> 0 \<le> rng m"
    and "base_ms = min (as_millis base) u64_max" and "max_ms = min (as_millis mx) u64_max"
    and "0 < base_ms" and "0 < max_ms"
  shows "min (backoff_exp_ms attempt base_ms) max_ms * nanos_per_milli \<le> jittered_backoff_delay rng attempt base mx"
proof -
  define E where "E = backoff_exp_ms attempt base_ms"
  define J where "J = (if E div 4 = 0 then 0 else rng (E div 4))"
  have e: "0 \<le> E" "E \<le> u64_max"
    using assms(6) by (simp_all add: E_def backoff_exp_ms_def u64_max_def)
  have "jittered_backoff_delay rng attempt base mx = min (min (E + J) u64_max) max_ms * nanos_per_milli"
    using assms(6,7) by (simp add: jittered_backoff_delay_def Let_def E_def J_def flip: assms(4,5))
  moreover have "0 \<le> J" using assms(3) e by (simp add: J_def)
  then have "min E max_ms \<le> min (min (E + J) u64_max) max_ms" using e by auto
  ultimately show ?thesis by (simp add: E_def nanos_per_milli_def)
qed

text \<open>The exponent stops at ten: from the eleventh failure in a row on, the delay before the jitter no longer grows.\<close>

lemma backoff_exp_stable: "10 \<le> unat a \<Longrightarrow> 10 \<le> unat b \<Longrightarrow> backoff_exp_ms a base_ms = backoff_exp_ms b base_ms"
  by (simp add: backoff_exp_ms_def)

lemma backoff_exp_mono: "0 \<le> base_ms \<Longrightarrow> a \<le> b \<Longrightarrow> backoff_exp_ms a base_ms \<le> backoff_exp_ms b base_ms"
proof -
  assume "0 \<le> base_ms" and "a \<le> b"
  then have "base_ms * 2 ^ min (unat a) 10 \<le> base_ms * 2 ^ min (unat b) 10"
    by (intro mult_left_mono power_increasing) (auto simp: word_le_nat_alt)
  then show ?thesis by (simp add: backoff_exp_ms_def)
qed

section \<open>Lanes wait for their gates\<close>

lemma on_failure_blocks:
  assumes "on_failure im rng now err g = Some (delay, g')"
  shows "is_ready t g' \<longleftrightarrow> now + delay \<le> t"
  using assms by (auto simp: on_failure_def is_ready_def Let_def split: if_splits)

lemma on_success_opens: "is_ready t (on_success g)"
  by (simp add: is_ready_def on_success_def)

lemma sat_inc_pos: "sat_inc n \<noteq> 0"
proof -
  have "n + 1 \<noteq> 0" if "n \<noteq> - 1" using that by (metis add.commute add_eq_0_iff)
  then show ?thesis by (simp add: sat_inc_def)
qed

lemma blocked_lane_idle:
  assumes "lane_failed lim rd lane err r = Some r1" and "\<And>n. err \<noteq> CRateLimit n"
    and "0 \<le> max_delay (gate_policy (gates r lane))"
  shows "\<exists>delay \<le> max_delay (gate_policy (gates r lane)). \<forall>rd' cyc r2.
           gates r2 lane = gates r1 lane \<longrightarrow> rd_now rd' < rd_now rd + delay \<longrightarrow> lane_tick lim rd' lane cyc r2 = Some r2"
proof -
  obtain delay g where f: "on_failure (instant_max lim) (rd_rng rd) (rd_now rd)
      (core_to_network_error (rd_disp rd) err) (gates r lane) = Some (delay, g)" and g: "gates r1 lane = g"
    using assms(1) by (auto simp: lane_failed_def Let_def split: option.splits)
  have "delay \<le> max_delay (gate_policy (gates r lane))"
    using f assms(2,3) jittered_le_max
    by (auto simp: on_failure_def Let_def failure_delay_def core_to_network_error_def split: if_splits CoreError.splits)
  then show ?thesis using on_failure_blocks [OF f] g by (auto simp: lane_tick_def)
qed

text \<open>A rate limit sets the lane's pause to whatever number of seconds the server sends. A number for which the end of the
  pause is no longer representable as an instant panics the loop.\<close>

lemma huge_retry_after_panics:
  assumes "is_ready (rd_now rd) (gates r lane)" and "cyc (rt_state r) = (Inl (CRateLimit n), s)"
    and "instant_max lim < rd_now rd + secs (uint n)"
  shows "lane_tick lim rd lane cyc r = None"
  using assms by (simp add: lane_tick_def lane_failed_def on_failure_def failure_delay_def core_to_network_error_def Let_def)

text \<open>Without a rate limit, and with dates and instants that reach as far as the longest pause, no turn of the loop panics.\<close>

lemma lane_failed_returns:
  assumes "\<And>n. err \<noteq> CRateLimit n" and "0 \<le> max_delay (gate_policy (gates r lane))"
    and "rd_now rd + max_delay (gate_policy (gates r lane)) \<le> instant_max lim"
    and "rd_utc rd + max_delay (gate_policy (gates r lane)) \<le> date_max lim"
  shows "\<exists>r'. lane_failed lim rd lane err r = Some r'"
proof -
  let ?g = "(gates r lane)\<lparr>gate_failures := sat_inc (gate_failures (gates r lane))\<rparr>"
  let ?d = "failure_delay (rd_rng rd) (core_to_network_error (rd_disp rd) err) ?g"
  have d: "?d \<le> max_delay (gate_policy (gates r lane))"
    using assms(1,2) jittered_le_max
    by (auto simp: failure_delay_def core_to_network_error_def split: CoreError.splits)
  then have "on_failure (instant_max lim) (rd_rng rd) (rd_now rd) (core_to_network_error (rd_disp rd) err) (gates r lane)
      = Some (?d, ?g\<lparr>blocked_until := Some (rd_now rd + ?d)\<rparr>)"
    using assms(3) by (simp add: on_failure_def Let_def)
  then show ?thesis
    using d assms(4) by (auto simp: lane_failed_def telemetry_failure_def Let_def split: option.splits)
qed

text \<open>The lanes are independent: a turn of one lane leaves the gates of the others as they are.\<close>

lemma lane_tick_other_gates:
  assumes "lane_tick lim rd lane cyc r = Some r'" and "lane' \<noteq> lane"
  shows "gates r' lane' = gates r lane'"
  using assms
  by (auto simp: lane_tick_def lane_failed_def lane_succeeded_def Let_def split: if_splits prod.splits sum.splits option.splits)

end
