(* ===== verification/BatchUploader.thy ===== *)
theory BatchUploader
  imports CircuitBreaker SuggestionFlow IntegrationLoop
begin

text \<open>
  The event upload queue of \<open>crates/oneshim-network/src/batch_uploader.rs\<close>. The events are of any type. The counters are
  atomics beside a lock-free queue; each enqueue is one step, and a flush is split at the upload, during which other
  calls run. The answers of the server to the attempts of one flush are an argument. \<open>usize\<close> is \<open>nat\<close>, with the
  wrap-around of the one product written out.
\<close>

section \<open>State and operations\<close>

record 'e uploader =
  up_queue :: "'e list"
  up_size :: nat
  up_max_batch :: nat
  up_max_retries :: u32
  dynamic_batch :: bool
  max_queue_size :: nat
  pressure_warned :: bool
  failed_batches :: nat
  total_dropped :: nat
  last_upload_ok :: "bool option"
  up_breaker :: InnerState
  cycle_dropped :: nat

definition uploader_new :: "nat \<Rightarrow> u32 \<Rightarrow> 'e uploader" where
  "uploader_new mb mr =
     \<lparr>up_queue = [], up_size = 0, up_max_batch = mb, up_max_retries = mr, dynamic_batch = True, max_queue_size = 10000,
      pressure_warned = False, failed_batches = 0, total_dropped = 0, last_upload_ok = None,
      up_breaker = breaker_new circuit_config_default, cycle_dropped = 0\<rparr>"

definition drop_oldest :: "nat \<Rightarrow> 'e uploader \<Rightarrow> 'e uploader" where
  "drop_oldest count u =
     (let dropped = min count (length (up_queue u))
      in u\<lparr>up_queue := drop dropped (up_queue u), up_size := up_size u - dropped,
           total_dropped := total_dropped u + dropped, cycle_dropped := cycle_dropped u + dropped\<rparr>)"

text \<open>The comparison of the fill ratio with a threshold; a capacity of zero gives infinity, or \<open>NaN\<close> for an empty queue.\<close>

definition ratio_at_least :: "real \<Rightarrow> nat \<Rightarrow> nat \<Rightarrow> bool" where
  "ratio_at_least thr sz mx = (if mx = 0 then sz > 0 else f64 (f64 (of_nat sz) / f64 (of_nat mx)) \<ge> f64 thr)"

definition check_pressure :: "nat \<Rightarrow> 'e uploader \<Rightarrow> 'e uploader" where
  "check_pressure sz u =
     (if ratio_at_least (9 / 10) sz (max_queue_size u) then u\<lparr>pressure_warned := True\<rparr>
      else if ratio_at_least (8 / 10) sz (max_queue_size u) then u\<lparr>pressure_warned := True\<rparr>
      else u\<lparr>pressure_warned := False\<rparr>)"

definition append_events :: "'e list \<Rightarrow> 'e uploader \<Rightarrow> 'e uploader" where
  "append_events es u = u\<lparr>up_queue := up_queue u @ es, up_size := up_size u + length es\<rparr>"

definition enqueue :: "'e \<Rightarrow> 'e uploader \<Rightarrow> 'e uploader" where
  "enqueue e u =
     (let u1 = (if up_size u \<ge> max_queue_size u then drop_oldest 1 u else u);
          u2 = append_events [e] u1
      in check_pressure (up_size u2) u2)"

definition enqueue_many :: "'e list \<Rightarrow> 'e uploader \<Rightarrow> 'e uploader" where
  "enqueue_many es u =
     (if es = [] then u
      else (let total = up_size u + length es;
                u1 = (if total > max_queue_size u then drop_oldest (total - max_queue_size u) u else u);
                u2 = append_events es u1
            in check_pressure (up_size u2) u2))"

definition requeue_failed_events :: "'e list \<Rightarrow> 'e uploader \<Rightarrow> 'e uploader" where
  "requeue_failed_events es u =
     (let total = up_size u + length es;
          u1 = (if total > max_queue_size u then drop_oldest (total - max_queue_size u) u else u)
      in append_events es u1)"

definition compute_batch_size :: "nat \<Rightarrow> 'e uploader \<Rightarrow> nat" where
  "compute_batch_size len u =
     (if \<not> dynamic_batch u then up_max_batch u
      else if len < 10 then len
      else if len > 50 then min (up_max_batch u * 2 mod 2 ^ 64) len
      else up_max_batch u)"

definition take_dropped_since_last :: "'e uploader \<Rightarrow> nat \<times> 'e uploader" where
  "take_dropped_since_last u = (cycle_dropped u, u\<lparr>cycle_dropped := 0\<rparr>)"

text \<open>\<open>flush\<close> up to the upload: the batch to send, or the value returned without one.\<close>

definition uploader_drain :: "bool \<Rightarrow> int \<Rightarrow> 'e uploader \<Rightarrow> (NetworkError + 'e list) \<times> 'e uploader" where
  "uploader_drain suppressed now u =
     (if suppressed then (Inr [], u)
      else if up_size u = 0 then (Inr [], u)
      else (case check now (up_breaker u) of
        (Open _, b) \<Rightarrow> (Inl NCircuitOpen, u\<lparr>up_breaker := b\<rparr>)
      | (_, b) \<Rightarrow>
          (let n = min (up_size u) (compute_batch_size (up_size u) u);
               events = take n (up_queue u)
           in (Inr events, u\<lparr>up_breaker := b, up_queue := drop n (up_queue u), up_size := up_size u - length events\<rparr>))))"

text \<open>The attempts: the error of attempt \<open>n\<close> is \<open>ans n\<close>. The result is the error of the last attempt, or success.\<close>

fun upload_attempts :: "(nat \<Rightarrow> CoreError option) \<Rightarrow> nat \<Rightarrow> nat \<Rightarrow> CoreError option" where
  "upload_attempts ans attempt 0 = ans attempt"
| "upload_attempts ans attempt (Suc left) =
     (case ans attempt of None \<Rightarrow> None | Some _ \<Rightarrow> upload_attempts ans (Suc attempt) left)"

definition uploader_finish :: "int \<Rightarrow> CoreError option \<Rightarrow> 'e list \<Rightarrow> 'e uploader \<Rightarrow> (NetworkError + nat) \<times> 'e uploader" where
  "uploader_finish now result events u =
     (case result of
        None \<Rightarrow> (Inr (length events), u\<lparr>last_upload_ok := map_option (\<lambda>_. True) (last_upload_ok u),
                    up_breaker := record_success circuit_config_default (up_breaker u)\<rparr>)
      | Some e \<Rightarrow>
          (Inl (NCore e), requeue_failed_events events
             (u\<lparr>last_upload_ok := map_option (\<lambda>_. False) (last_upload_ok u),
                up_breaker := record_failure circuit_config_default now (up_breaker u),
                failed_batches := failed_batches u + 1\<rparr>)))"

definition uploader_flush :: "bool \<Rightarrow> int \<Rightarrow> int \<Rightarrow> (nat \<Rightarrow> CoreError option) \<Rightarrow> 'e uploader \<Rightarrow> (NetworkError + nat) \<times> 'e uploader" where
  "uploader_flush suppressed now now' ans u =
     (case uploader_drain suppressed now u of
        (Inl e, u') \<Rightarrow> (Inl e, u')
      | (Inr events, u') \<Rightarrow>
          if events = [] then (Inr 0, u')
          else uploader_finish now' (upload_attempts ans 0 (unat (up_max_retries u))) events u')"

section \<open>Accounting\<close>

text \<open>The batches on their way, and how many events were enqueued and uploaded so far.\<close>

record 'e upload_run =
  ur_state :: "'e uploader"
  ur_flights :: "'e list list"
  ur_enqueued :: nat
  ur_uploaded :: nat

inductive ustep :: "'e upload_run \<Rightarrow> 'e upload_run \<Rightarrow> bool" where
  us_enqueue: "ustep r (r\<lparr>ur_state := enqueue e (ur_state r), ur_enqueued := ur_enqueued r + 1\<rparr>)"
| us_enqueue_many: "ustep r (r\<lparr>ur_state := enqueue_many es (ur_state r), ur_enqueued := ur_enqueued r + length es\<rparr>)"
| us_drain: "uploader_drain sp now (ur_state r) = (Inr es, u) \<Longrightarrow> ustep r (r\<lparr>ur_state := u, ur_flights := es # ur_flights r\<rparr>)"
| us_refused: "uploader_drain sp now (ur_state r) = (Inl e, u) \<Longrightarrow> ustep r (r\<lparr>ur_state := u\<rparr>)"
| us_finish: "es \<in> set (ur_flights r) \<Longrightarrow>
    ustep r (r\<lparr>ur_state := snd (uploader_finish now res es (ur_state r)), ur_flights := remove1 es (ur_flights r),
               ur_uploaded := ur_uploaded r + (if res = None then length es else 0)\<rparr>)"
| us_take: "ustep r (r\<lparr>ur_state := snd (take_dropped_since_last (ur_state r))\<rparr>)"

definition upload_start :: "nat \<Rightarrow> u32 \<Rightarrow> nat \<Rightarrow> 'e upload_run" where
  "upload_start mb mr mx = \<lparr>ur_state = (uploader_new mb mr)\<lparr>max_queue_size := mx\<rparr>, ur_flights = [], ur_enqueued = 0, ur_uploaded = 0\<rparr>"

definition accounted :: "'e upload_run \<Rightarrow> bool" where
  "accounted r \<longleftrightarrow> up_size (ur_state r) = length (up_queue (ur_state r)) \<and>
     ur_enqueued r = length (up_queue (ur_state r)) + sum_list (map length (ur_flights r)) + ur_uploaded r + total_dropped (ur_state r)"

lemma check_pressure_simps [simp]:
  "up_queue (check_pressure n u) = up_queue u" "up_size (check_pressure n u) = up_size u"
  "total_dropped (check_pressure n u) = total_dropped u" "max_queue_size (check_pressure n u) = max_queue_size u"
  by (simp_all add: check_pressure_def)

lemma drop_oldest_counts:
  assumes "up_size u = length (up_queue u)"
  shows "up_size (drop_oldest n u) = length (up_queue (drop_oldest n u))"
    and "length (up_queue (drop_oldest n u)) + total_dropped (drop_oldest n u) = length (up_queue u) + total_dropped u"
    and "length (up_queue (drop_oldest n u)) = length (up_queue u) - n"
  using assms by (auto simp: drop_oldest_def Let_def)

lemma enqueue_counts:
  assumes "up_size u = length (up_queue u)"
  shows "up_size (enqueue e u) = length (up_queue (enqueue e u))"
    and "length (up_queue (enqueue e u)) + total_dropped (enqueue e u) = length (up_queue u) + total_dropped u + 1"
  using assms drop_oldest_counts [OF assms, of 1] by (auto simp: enqueue_def append_events_def Let_def)

lemma requeue_counts:
  assumes "up_size u = length (up_queue u)"
  shows "up_size (requeue_failed_events es u) = length (up_queue (requeue_failed_events es u))"
    and "length (up_queue (requeue_failed_events es u)) + total_dropped (requeue_failed_events es u)
           = length (up_queue u) + total_dropped u + length es"
  using assms drop_oldest_counts [OF assms, of "up_size u + length es - max_queue_size u"]
  by (auto simp: requeue_failed_events_def append_events_def Let_def)

lemma enqueue_many_counts:
  assumes "up_size u = length (up_queue u)"
  shows "up_size (enqueue_many es u) = length (up_queue (enqueue_many es u))"
    and "length (up_queue (enqueue_many es u)) + total_dropped (enqueue_many es u)
           = length (up_queue u) + total_dropped u + length es"
  using assms drop_oldest_counts [OF assms, of "up_size u + length es - max_queue_size u"]
  by (auto simp: enqueue_many_def append_events_def Let_def)

lemma drain_counts:
  assumes "uploader_drain sp now u = (x, u')" and "up_size u = length (up_queue u)"
  shows "up_size u' = length (up_queue u') \<and> total_dropped u' = total_dropped u
    \<and> length (up_queue u') + (case x of Inl _ \<Rightarrow> 0 | Inr es \<Rightarrow> length es) = length (up_queue u)"
  using assms by (auto simp: uploader_drain_def Let_def split: if_splits prod.splits CircuitState.splits)

lemma sum_list_remove1: "es \<in> set fl \<Longrightarrow> sum_list (map length (remove1 es fl)) + length es = sum_list (map length fl)"
  by (induction fl) auto

lemma ustep_accounted: "ustep r r' \<Longrightarrow> accounted r \<Longrightarrow> accounted r'"
proof (induction rule: ustep.induct)
  case (us_enqueue r e)
  then show ?case using enqueue_counts [of "ur_state r" e] by (simp add: accounted_def)
next
  case (us_enqueue_many r es)
  then show ?case using enqueue_many_counts [of "ur_state r" es] by (simp add: accounted_def)
next
  case (us_drain sp now r es u)
  then show ?case using drain_counts [OF us_drain(1)] by (simp add: accounted_def)
next
  case (us_refused sp now r e u)
  then show ?case using drain_counts [OF us_refused(1)] by (simp add: accounted_def)
next
  case (us_finish es r res now)
  let ?u = "ur_state r\<lparr>last_upload_ok := map_option (\<lambda>_. False) (last_upload_ok (ur_state r)),
     up_breaker := record_failure circuit_config_default now (up_breaker (ur_state r)),
     failed_batches := failed_batches (ur_state r) + 1\<rparr>"
  show ?case
    using us_finish sum_list_remove1 [OF us_finish(1)] requeue_counts [of ?u es]
    by (auto simp: accounted_def uploader_finish_def split: option.splits)
next
  case (us_take r)
  then show ?case by (simp add: accounted_def take_dropped_since_last_def)
qed


definition w_upload_run :: "nat upload_run" where
  "w_upload_run = \<lparr>ur_state = enqueue_many [1, 2, 3] ((uploader_new 5 0)\<lparr>max_queue_size := 2\<rparr>), ur_flights = [],
     ur_enqueued = 3, ur_uploaded = 0\<rparr>"


section \<open>Capacity\<close>

lemma enqueue_bounded:
  assumes "up_size u = length (up_queue u)" and "up_size u \<le> max_queue_size u" and "0 < max_queue_size u"
  shows "length (up_queue (enqueue e u)) \<le> max_queue_size (enqueue e u)"
  using assms by (auto simp: enqueue_def append_events_def drop_oldest_def Let_def)

text \<open>The queue keeps the newest events: an enqueue at capacity removes the oldest one.\<close>

lemma enqueue_newest:
  assumes "up_size u = length (up_queue u)"
  shows "up_queue (enqueue e u) = (if max_queue_size u \<le> length (up_queue u) then drop 1 (up_queue u) else up_queue u) @ [e]"
  using assms by (cases "up_queue u") (auto simp: enqueue_def append_events_def drop_oldest_def Let_def)

text \<open>\<open>enqueue_many\<close> respects the capacity only for lists that fit into it: a longer list empties the queue and is then
  pushed as a whole.\<close>

lemma enqueue_many_fits:
  assumes "up_size u = length (up_queue u)" and "up_size u \<le> max_queue_size u" and "length es \<le> max_queue_size u"
  shows "length (up_queue (enqueue_many es u)) \<le> max_queue_size u"
  using assms drop_oldest_counts(3) [OF assms(1), of "up_size u + length es - max_queue_size u"]
  by (auto simp: enqueue_many_def append_events_def Let_def)

text \<open>A list of events longer than the queue's capacity leaves the queue with all of them, above the capacity.\<close>

theorem enqueue_many_exceeds_capacity:
  assumes "up_size u = length (up_queue u)" and "max_queue_size u < length es"
  shows "up_queue (enqueue_many es u) = es \<and> max_queue_size (enqueue_many es u) < length (up_queue (enqueue_many es u))"
proof -
  have "es \<noteq> []" using assms(2) by auto
  then show ?thesis using assms
    by (auto simp: enqueue_many_def append_events_def drop_oldest_def Let_def)
qed

theorem enqueue_many_exceeds_capacity_witness:
  "up_queue (enqueue_many [1, 2, 3 :: nat] ((uploader_new 5 0)\<lparr>max_queue_size := 2\<rparr>)) = [1, 2, 3]"
  using enqueue_many_exceeds_capacity [of "(uploader_new 5 0)\<lparr>max_queue_size := 2\<rparr>" "[1, 2, 3 :: nat]"]
  by (simp add: uploader_new_def)

text \<open>A failed batch that is put back into a full queue pushes out events that were enqueued after it, and is sent after
  the events that are left.\<close>

lemma requeue_drops_newer:
  assumes "up_size u = length (up_queue u)" and "up_size u = max_queue_size u" and "length es \<le> max_queue_size u"
  shows "up_queue (requeue_failed_events es u) = drop (length es) (up_queue u) @ es"
  using assms by (auto simp: requeue_failed_events_def append_events_def drop_oldest_def Let_def)

lemma upload_attempts_ok: "upload_attempts ans a n = None \<longleftrightarrow> (\<exists>i \<le> n. ans (a + i) = None)"
proof (induction n arbitrary: a)
  case (Suc n)
  show ?case
  proof (cases "ans a")
    case None
    then have "ans (a + 0) = None" by simp
    then show ?thesis using None by (auto intro: exI [of _ 0])
  next
    case (Some e)
    have "(\<exists>i\<le>Suc n. ans (a + i) = None) \<longleftrightarrow> (\<exists>i\<le>n. ans (Suc a + i) = None)"
    proof
      assume "\<exists>i\<le>Suc n. ans (a + i) = None"
      then obtain i where "i \<le> Suc n" "ans (a + i) = None" by blast
      then show "\<exists>i\<le>n. ans (Suc a + i) = None" using Some by (cases i) auto
    next
      assume "\<exists>i\<le>n. ans (Suc a + i) = None"
      then show "\<exists>i\<le>Suc n. ans (a + i) = None" by (metis Suc_le_mono add_Suc add_Suc_right)
    qed
    then show ?thesis using Some Suc.IH by simp
  qed
qed simp

text \<open>While the breaker is open and its pause not over, a flush sends nothing and changes nothing.\<close>

lemma open_breaker_refuses:
  assumes "status (up_breaker u) = Open until" and "now < until" and "0 < up_size u"
  shows "uploader_flush False now now' ans u = (Inl NCircuitOpen, u)"
  using assms by (simp add: uploader_flush_def uploader_drain_def check_def Let_def)

end
