(* ===== verification/TrackingSchedule.thy ===== *)
theory TrackingSchedule
  imports ByteString Consent
begin

text \<open>
  The tracking schedule: windows of wall-clock time during which capture is muted
  (\<open>crates/oneshim-core/src/config/sections/tracking_schedule.rs\<close>), the privacy gate that reads them
  (\<open>src-tauri/src/scheduler/loops/tracking_schedule_helper.rs\<close>, \<open>scheduler/mod.rs\<close>) and the status shown to the user
  (\<open>src-tauri/src/commands/tracking_schedule.rs\<close>). An instant is nanoseconds since the epoch; a \<open>DateTime\<close> in a zone is
  the instant with the zone's offset at that instant, and its wall-clock time is their sum. The zone database belongs to
  another crate: \<open>tz\<close> gives the offset of a named zone at an instant, or \<open>None\<close> for an unknown name.
\<close>

section \<open>Calendar\<close>

datatype Weekday = Mon | Tue | Wed | Thu | Fri | Sat | Sun

definition day_nanos :: int where "day_nanos = 86400 * nanos_per_sec"

definition minute_nanos :: int where "minute_nanos = 60 * nanos_per_sec"

text \<open>The weekday of a day counted from the epoch, a Thursday.\<close>

definition weekday_of :: "int \<Rightarrow> Weekday" where
  "weekday_of day = [Thu, Fri, Sat, Sun, Mon, Tue, Wed] ! nat (day mod 7)"

definition wall_day :: "int \<Rightarrow> int" where "wall_day w = w div day_nanos"

definition wall_time :: "int \<Rightarrow> int" where "wall_time w = w mod day_nanos"

definition weekday_succ :: "Weekday \<Rightarrow> Weekday" where
  "weekday_succ d = (case d of Mon \<Rightarrow> Tue | Tue \<Rightarrow> Wed | Wed \<Rightarrow> Thu | Thu \<Rightarrow> Fri | Fri \<Rightarrow> Sat | Sat \<Rightarrow> Sun | Sun \<Rightarrow> Mon)"

definition weekday_pred :: "Weekday \<Rightarrow> Weekday" where
  "weekday_pred d = (case d of Mon \<Rightarrow> Sun | Tue \<Rightarrow> Mon | Wed \<Rightarrow> Tue | Thu \<Rightarrow> Wed | Fri \<Rightarrow> Thu | Sat \<Rightarrow> Fri | Sun \<Rightarrow> Sat)"

lemma weekday_succ_of: "weekday_succ (weekday_of d) = weekday_of (d + 1)"
proof -
  have "d mod 7 < 7" "0 \<le> d mod 7" by simp_all
  then have "d mod 7 = 0 \<or> d mod 7 = 1 \<or> d mod 7 = 2 \<or> d mod 7 = 3 \<or> d mod 7 = 4 \<or> d mod 7 = 5 \<or> d mod 7 = 6" by linarith
  moreover have "(d + 1) mod 7 = (d mod 7 + 1) mod 7" by (simp add: mod_add_left_eq)
  ultimately show ?thesis by (auto simp: weekday_of_def weekday_succ_def)
qed

lemma weekday_succ_pred [simp]: "weekday_succ (weekday_pred d) = d" "weekday_pred (weekday_succ d) = d"
  by (cases d; simp add: weekday_succ_def weekday_pred_def)+

section \<open>Windows\<close>

record TrackingWindow =
  win_start :: string
  win_end :: string
  days_of_week :: "Weekday list"
  win_label :: string

record TrackingScheduleConfig =
  ts_enabled :: bool
  windows :: "TrackingWindow list"
  timezone :: string

definition schedule_default :: TrackingScheduleConfig where
  "schedule_default = \<lparr>ts_enabled = False, windows = [], timezone = ''Local''\<rparr>"

text \<open>\<open>splitn(2, c)\<close> and \<open>str::parse::<u32>\<close>, which accepts a leading plus sign.\<close>

fun splitn2 :: "char \<Rightarrow> string \<Rightarrow> string list" where
  "splitn2 d s = (case dropWhile (\<lambda>c. c \<noteq> d) s of [] \<Rightarrow> [s] | _ # rest \<Rightarrow> [takeWhile (\<lambda>c. c \<noteq> d) s, rest])"

definition digits_value :: "string \<Rightarrow> nat" where
  "digits_value s = fold (\<lambda>c n. 10 * n + (ord_of c - 48)) s 0"

definition parse_u32 :: "string \<Rightarrow> nat option" where
  "parse_u32 s =
     (let ds = (case s of c # cs \<Rightarrow> if c = CHR ''+'' then cs else s | [] \<Rightarrow> s)
      in if ds \<noteq> [] \<and> list_all is_ascii_digit ds \<and> digits_value ds < 2 ^ 32 then Some (digits_value ds) else None)"

text \<open>A \<open>NaiveTime\<close> of whole minutes, in nanoseconds since midnight; the error carries the given prefix.\<close>

definition from_hm :: "nat \<Rightarrow> nat \<Rightarrow> int option" where
  "from_hm h m = (if h < 24 \<and> m < 60 then Some ((int h * 60 + int m) * minute_nanos) else None)"

definition hhmm_error :: "string \<Rightarrow> string \<Rightarrow> string \<Rightarrow> string" where
  "hhmm_error field what s = [CHR 0x27] @ field @ [CHR 0x27] @ what @ '' (got '' @ [CHR 0x27] @ s @ [CHR 0x27] @ '')''"

definition parse_hhmm_local :: "string \<Rightarrow> string \<Rightarrow> string + int" where
  "parse_hhmm_local s field =
     (if s = [] then Inl ([CHR 0x27] @ field @ [CHR 0x27] @ '' must not be empty'')
      else case splitn2 CHR '':'' s of
        [a, b] \<Rightarrow>
          if length a \<noteq> 2 \<or> length b \<noteq> 2 then Inl (hhmm_error field '' is not a valid HH:MM value'' s)
          else (case parse_u32 a of
                  None \<Rightarrow> Inl (hhmm_error field '' hour is not a number'' s)
                | Some h \<Rightarrow>
                    (case parse_u32 b of
                       None \<Rightarrow> Inl (hhmm_error field '' minute is not a number'' s)
                     | Some m \<Rightarrow>
                         (case from_hm h m of
                            None \<Rightarrow> Inl (hhmm_error field '' is out of range'' s)
                          | Some t \<Rightarrow> Inr t)))
      | _ \<Rightarrow> Inl (hhmm_error field '' is not a valid HH:MM value'' s))"

definition parse_hhmm :: "string \<Rightarrow> string \<Rightarrow> string + int" where
  "parse_hhmm s field =
     (case parse_hhmm_local s field of Inl msg \<Rightarrow> Inl (''validation.invalid_field: '' @ msg) | Inr t \<Rightarrow> Inr t)"

text \<open>Validation of a window read from the configuration file.\<close>

definition window_try_from :: "TrackingWindow \<Rightarrow> string + TrackingWindow" where
  "window_try_from raw =
     rbind (parse_hhmm (win_start raw) ''start'') (\<lambda>st.
     rbind (parse_hhmm (win_end raw) ''end'') (\<lambda>en.
       if st = en
       then Inl (''validation.invalid_field: '' @ [CHR 0x27] @ ''start'' @ [CHR 0x27] @ '' and '' @ [CHR 0x27] @ ''end'' @
              [CHR 0x27] @ '' must not be equal (got '' @ [CHR 0x27] @ win_start raw @ [CHR 0x27] @ '')'')
       else if en < st \<and> (en div minute_nanos + 24 * 60) - st div minute_nanos > 16 * 60
       then (let n = (en div minute_nanos + 24 * 60) - st div minute_nanos
             in Inl (''validation.invalid_field: overnight window '' @ [CHR 0x27] @ win_start raw @ [CHR 0xE2, CHR 0x80, CHR 0x93] @
                  win_end raw @ [CHR 0x27] @ '' spans '' @ show_int (n div 60) @ ''h '' @ show_int (n mod 60) @
                  ''m which exceeds the 16-hour safety threshold; did you swap start/end? Use a shorter window or split into two windows.''))
       else Inr raw))"

definition schedule_try_from :: "(string \<Rightarrow> bool) \<Rightarrow> TrackingScheduleConfig \<Rightarrow> string + TrackingScheduleConfig" where
  "schedule_try_from known_zone raw =
     (if timezone raw \<noteq> ''Local'' \<and> \<not> known_zone (timezone raw)
      then Inl (''config.invalid: unknown timezone '' @ [CHR 0x27] @ timezone raw @ [CHR 0x27])
      else Inr raw)"

definition window_is_active :: "TrackingWindow \<Rightarrow> int \<Rightarrow> bool" where
  "window_is_active w now =
     (if days_of_week w = [] then False
      else case (parse_hhmm (win_start w) ''start'', parse_hhmm (win_end w) ''end'') of
        (Inr st, Inr en) \<Rightarrow>
          (let t = wall_time now; d = weekday_of (wall_day now)
           in if en > st then d \<in> set (days_of_week w) \<and> t \<ge> st \<and> t < en
              else (d \<in> set (days_of_week w) \<and> t \<ge> st) \<or> (list_ex (\<lambda>x. weekday_succ x = d) (days_of_week w) \<and> t < en))
      | _ \<Rightarrow> False)"

section \<open>The gate\<close>

record ScheduleConfig =
  active_hours_enabled :: bool
  active_start_hour :: u8
  active_end_hour :: u8
  active_days :: "Weekday list"

text \<open>The parts of \<open>AppConfig\<close> that the gate reads.\<close>

record AppConfig =
  schedule :: ScheduleConfig
  tracking_schedule :: TrackingScheduleConfig
  ts_notify :: bool

definition hour_nanos :: int where "hour_nanos = 3600 * nanos_per_sec"

definition should_run_now_with_time :: "AppConfig \<Rightarrow> int \<Rightarrow> bool" where
  "should_run_now_with_time cfg now =
     (let sc = schedule cfg;
          hour = (of_int (wall_time now div hour_nanos) :: u8);
          weekday = weekday_of (wall_day now);
          st = active_start_hour sc; en = active_end_hour sc
      in if \<not> active_hours_enabled sc then True
         else if en > st then weekday \<in> set (active_days sc) \<and> hour \<ge> st \<and> hour < en
         else if en < st then
           (if hour \<ge> st then weekday \<in> set (active_days sc)
            else if hour < en then weekday_pred weekday \<in> set (active_days sc)
            else False)
         else False)"

text \<open>The scheduler passes the local wall-clock time.\<close>

definition tracking_schedule_active :: "AppConfig \<Rightarrow> int \<Rightarrow> bool" where
  "tracking_schedule_active cfg now =
     (let ts = tracking_schedule cfg
      in if \<not> ts_enabled ts then False else list_ex (\<lambda>w. window_is_active w now) (windows ts))"

definition capture_permitted_now :: "AppConfig \<Rightarrow> ConsentPermissions \<Rightarrow> bool \<Rightarrow> int \<Rightarrow> bool" where
  "capture_permitted_now cfg consent paused now =
     (screen_capture consent \<and> should_run_now_with_time cfg now \<and> \<not> tracking_schedule_active cfg now \<and> \<not> paused)"

datatype ts_notice = ScheduleActive | ScheduleEnded

text \<open>Notifications, debounced: the result is the notice sent, if any, and the instant of the last one.\<close>

definition evaluate_and_notify_transitions ::
  "AppConfig \<Rightarrow> bool \<Rightarrow> bool \<Rightarrow> int \<Rightarrow> int option \<Rightarrow> bool \<Rightarrow> ts_notice option \<times> int option" where
  "evaluate_and_notify_transitions cfg prev act now lst has_notifier =
     (if \<not> ts_notify cfg then (None, lst)
      else if prev = act then (None, lst)
      else if (case lst of Some l \<Rightarrow> num_seconds (max 0 (now - l)) < 60 | None \<Rightarrow> False) then (None, lst)
      else (if has_notifier then Some (if act then ScheduleActive else ScheduleEnded) else None, Some now))"

section \<open>Status\<close>

record TrackingScheduleStatus =
  active_now :: bool
  ends_at :: "int option"
  next_starts_at :: "int option"
  status_label :: string

text \<open>The wall-clock time that the status uses: that of the configured zone, or the local one.\<close>

definition convert_to_target_tz :: "(string \<Rightarrow> int \<Rightarrow> int option) \<Rightarrow> int \<Rightarrow> int \<Rightarrow> string \<Rightarrow> int" where
  "convert_to_target_tz tz local_off now zone =
     (if zone = ''Local'' then now + local_off
      else case tz zone now of Some off \<Rightarrow> now + off | None \<Rightarrow> now + local_off)"

text \<open>The walk of \<open>compute_ends_at\<close>, on wall-clock times with the offset of the start.\<close>

function ends_walk :: "TrackingWindow \<Rightarrow> int \<Rightarrow> int \<Rightarrow> int" where
  "ends_walk w cap probe =
     (if probe < cap
      then (if \<not> window_is_active w (probe + minute_nanos) then probe + minute_nanos
            else ends_walk w cap (probe + minute_nanos))
      else cap)"
  by pat_completeness auto
termination
  by (relation "measure (\<lambda>(w, cap, probe). nat (cap - probe))") (auto simp: minute_nanos_def nanos_per_sec_def)

definition compute_ends_at :: "int \<Rightarrow> TrackingWindow \<Rightarrow> int" where
  "compute_ends_at now w = ends_walk w (now + day_nanos) now"

function starts_walk :: "TrackingWindow list \<Rightarrow> int \<Rightarrow> bool \<Rightarrow> int \<Rightarrow> int option" where
  "starts_walk ws horizon prev probe =
     (if probe \<le> horizon
      then (let cur = list_ex (\<lambda>w. window_is_active w probe) ws
            in if \<not> prev \<and> cur then Some probe else starts_walk ws horizon cur (probe + minute_nanos))
      else None)"
  by pat_completeness auto
termination
  by (relation "measure (\<lambda>(ws, horizon, prev, probe). nat (horizon + 1 - probe))") (auto simp: minute_nanos_def nanos_per_sec_def)

declare ends_walk.simps [simp del] starts_walk.simps [simp del]

definition compute_next_starts_at :: "(string \<Rightarrow> int \<Rightarrow> int option) \<Rightarrow> int \<Rightarrow> int \<Rightarrow> TrackingScheduleConfig \<Rightarrow> int option" where
  "compute_next_starts_at tz local_off now cfg =
     (if \<not> ts_enabled cfg \<or> windows cfg = [] then None
      else (let w = convert_to_target_tz tz local_off now (timezone cfg)
            in map_option (\<lambda>p. p - (w - now))
                 (starts_walk (windows cfg) (w + 7 * day_nanos) (list_ex (\<lambda>x. window_is_active x w) (windows cfg)) (w + minute_nanos))))"

text \<open>The clock is read again for the next start.\<close>

definition get_tracking_schedule_status_inner ::
  "(string \<Rightarrow> int \<Rightarrow> int option) \<Rightarrow> int \<Rightarrow> int \<Rightarrow> int \<Rightarrow> TrackingScheduleConfig \<Rightarrow> TrackingScheduleStatus" where
  "get_tracking_schedule_status_inner tz local_off now now' cfg =
     (if \<not> ts_enabled cfg \<or> windows cfg = []
      then \<lparr>active_now = False, ends_at = None, next_starts_at = compute_next_starts_at tz local_off now cfg, status_label = []\<rparr>
      else (let w = convert_to_target_tz tz local_off now (timezone cfg)
            in case find (\<lambda>x. window_is_active x w) (windows cfg) of
                 Some x \<Rightarrow> \<lparr>active_now = True, ends_at = Some (compute_ends_at w x - (w - now)),
                            next_starts_at = compute_next_starts_at tz local_off now' cfg, status_label = win_label x\<rparr>
               | None \<Rightarrow> \<lparr>active_now = False, ends_at = None,
                          next_starts_at = compute_next_starts_at tz local_off now' cfg, status_label = []\<rparr>))"

section \<open>Windows are sets of occurrences\<close>

definition window_span :: "int \<Rightarrow> int \<Rightarrow> int" where
  "window_span st en = (if st < en then en - st else en + day_nanos - st)"

text \<open>The occurrence of a window that opens on a day: from its start, for its span.\<close>

definition occurs_at :: "TrackingWindow \<Rightarrow> int \<Rightarrow> int \<Rightarrow> int \<Rightarrow> int \<Rightarrow> bool" where
  "occurs_at w st en d now \<longleftrightarrow> weekday_of d \<in> set (days_of_week w) \<and>
     d * day_nanos + st \<le> now \<and> now < d * day_nanos + st + window_span st en"

lemma day_nanos_pos: "0 < day_nanos" "0 < minute_nanos"
  by (simp_all add: day_nanos_def minute_nanos_def nanos_per_sec_def)

lemma from_hm_range: "from_hm h m = Some t \<Longrightarrow> 0 \<le> t \<and> t \<le> day_nanos - minute_nanos \<and> t mod minute_nanos = 0"
proof -
  assume a: "from_hm h m = Some t"
  then have hm: "h < 24" "m < 60" "t = (int h * 60 + int m) * minute_nanos" by (auto simp: from_hm_def split: if_splits)
  then have "int h * 60 + int m \<le> 1439" by simp
  then have "t \<le> 1439 * minute_nanos" unfolding hm(3) by (rule mult_right_mono) (simp add: minute_nanos_def nanos_per_sec_def)
  then show ?thesis using hm(3) by (simp add: day_nanos_def minute_nanos_def nanos_per_sec_def)
qed

lemma parse_hhmm_range: "parse_hhmm s f = Inr t \<Longrightarrow> 0 \<le> t \<and> t \<le> day_nanos - minute_nanos \<and> t mod minute_nanos = 0"
  by (auto simp: parse_hhmm_def parse_hhmm_local_def from_hm_range split: sum.splits if_splits list.splits option.splits)

lemma wall_split: "now = wall_day now * day_nanos + wall_time now" "0 \<le> wall_time now" "wall_time now < day_nanos"
  using day_nanos_pos(1) by (simp_all add: wall_day_def wall_time_def)

lemma wall_dayI:
  assumes "d * day_nanos \<le> now" and "now < d * day_nanos + day_nanos"
  shows "wall_day now = d"
proof -
  have "now div day_nanos = d"
  proof (rule int_div_pos_eq [of now day_nanos d "now - d * day_nanos"])
    show "now = day_nanos * d + (now - d * day_nanos)" by (simp add: mult.commute)
  qed (use assms in auto)
  then show ?thesis by (simp add: wall_day_def)
qed

lemma occurs_iff:
  assumes st: "0 \<le> st" "st < day_nanos" and en: "0 \<le> en" "en < day_nanos"
  shows "(\<exists>d. occurs_at w st en d now) \<longleftrightarrow>
    (let t = wall_time now; d = wall_day now in
     if en > st then weekday_of d \<in> set (days_of_week w) \<and> st \<le> t \<and> t < en
     else (weekday_of d \<in> set (days_of_week w) \<and> st \<le> t) \<or> (weekday_of (d - 1) \<in> set (days_of_week w) \<and> t < en))"
    (is "?L \<longleftrightarrow> ?R")
proof
  assume ?L
  then obtain d where d: "weekday_of d \<in> set (days_of_week w)" "d * day_nanos + st \<le> now"
    "now < d * day_nanos + st + window_span st en" by (auto simp: occurs_at_def)
  show ?R
  proof (cases "now < d * day_nanos + day_nanos")
    case True
    then have "wall_day now = d" using d(2) st(1) by (intro wall_dayI) auto
    then show ?thesis using d wall_split [of now] by (auto simp: Let_def window_span_def)
  next
    case False
    then have *: "\<not> st < en" using d(3) en(2) by (auto simp: window_span_def)
    then have lt: "now < d * day_nanos + day_nanos + en" using d(3) by (simp add: window_span_def)
    then have "wall_day now = d + 1" using False en(2) lt by (intro wall_dayI) (auto simp: algebra_simps)
    then show ?thesis using * d(1) lt wall_split [of now] by (auto simp: Let_def algebra_simps)
  qed
next
  assume R: ?R
  have sp: "now = wall_day now * day_nanos + wall_time now" and t: "0 \<le> wall_time now" "wall_time now < day_nanos"
    by (fact wall_split)+
  consider (same) "weekday_of (wall_day now) \<in> set (days_of_week w)" "st \<le> wall_time now" "st < en \<longrightarrow> wall_time now < en"
    | (carry) "\<not> st < en" "weekday_of (wall_day now - 1) \<in> set (days_of_week w)" "wall_time now < en"
    using R by (auto simp: Let_def split: if_splits)
  then show ?L
  proof cases
    case same
    then have "occurs_at w st en (wall_day now) now" using sp t en(1) by (auto simp: occurs_at_def window_span_def)
    then show ?thesis ..
  next
    case carry
    have "(wall_day now - 1) * day_nanos = wall_day now * day_nanos - day_nanos" by (simp add: algebra_simps)
    then have "occurs_at w st en (wall_day now - 1) now" using carry sp t st(2) by (auto simp: occurs_at_def window_span_def)
    then show ?thesis ..
  qed
qed

lemma carry_over_iff: "list_ex (\<lambda>x. weekday_succ x = weekday_of d) ds \<longleftrightarrow> weekday_of (d - 1) \<in> set ds"
proof -
  have "weekday_succ x = weekday_of d \<longleftrightarrow> x = weekday_of (d - 1)" for x
    using weekday_succ_of [of "d - 1"] by (metis diff_add_cancel weekday_succ_pred(2))
  then show ?thesis by (simp add: list_ex_iff)
qed

text \<open>C21: A window with readable times is active at a wall-clock time exactly when the time lies in an occurrence of the
  window that opens on a configured day, counting an overnight window to its end on the following day.\<close>

theorem window_active_in_occurrences:
  assumes "parse_hhmm (win_start w) ''start'' = Inr st" and "parse_hhmm (win_end w) ''end'' = Inr en"
  shows "window_is_active w now \<longleftrightarrow> (\<exists>d. occurs_at w st en d now)"
proof -
  have r: "0 \<le> st" "st < day_nanos" "0 \<le> en" "en < day_nanos"
    using parse_hhmm_range [OF assms(1)] parse_hhmm_range [OF assms(2)] day_nanos_pos by auto
  show ?thesis
    unfolding occurs_iff [OF r] window_is_active_def assms prod.case sum.case by (auto simp: Let_def carry_over_iff)
qed

theorem window_active_in_occurrences_witness:
  "window_is_active \<lparr>win_start = ''22:00'', win_end = ''06:00'', days_of_week = [Thu], win_label = []\<rparr> (day_nanos + 3 * hour_nanos)"
proof -
  have "parse_hhmm ''22:00'' ''start'' = Inr (22 * 60 * minute_nanos)" "parse_hhmm ''06:00'' ''end'' = Inr (6 * 60 * minute_nanos)"
    by (simp_all add: parse_hhmm_def parse_hhmm_local_def parse_u32_def digits_value_def is_ascii_digit_def from_hm_def)
  then have "window_is_active \<lparr>win_start = ''22:00'', win_end = ''06:00'', days_of_week = [Thu], win_label = []\<rparr> (day_nanos + 3 * hour_nanos)
      \<longleftrightarrow> (\<exists>d. occurs_at \<lparr>win_start = ''22:00'', win_end = ''06:00'', days_of_week = [Thu], win_label = []\<rparr>
             (22 * 60 * minute_nanos) (6 * 60 * minute_nanos) d (day_nanos + 3 * hour_nanos))"
    by (intro window_active_in_occurrences) simp_all
  moreover have "occurs_at \<lparr>win_start = ''22:00'', win_end = ''06:00'', days_of_week = [Thu], win_label = []\<rparr>
      (22 * 60 * minute_nanos) (6 * 60 * minute_nanos) 0 (day_nanos + 3 * hour_nanos)"
    by (simp add: occurs_at_def window_span_def weekday_of_def day_nanos_def minute_nanos_def hour_nanos_def nanos_per_sec_def)
  ultimately show ?thesis by blast
qed

section \<open>The end shown to the user\<close>

lemma valid_window_span:
  assumes "window_try_from w = Inr w'" and "parse_hhmm (win_start w) ''start'' = Inr st" and "parse_hhmm (win_end w) ''end'' = Inr en"
  shows "0 < window_span st en \<and> window_span st en \<le> day_nanos - minute_nanos"
proof -
  have st: "0 \<le> st" "st \<le> day_nanos - minute_nanos" "st mod minute_nanos = 0"
    and en: "0 \<le> en" "en \<le> day_nanos - minute_nanos" "en mod minute_nanos = 0"
    using parse_hhmm_range assms(2,3) by blast+
  have ne: "st \<noteq> en" and lim: "en < st \<longrightarrow> (en div minute_nanos + 24 * 60) - st div minute_nanos \<le> 16 * 60"
    using assms by (auto simp: window_try_from_def Let_def split: if_splits)
  show ?thesis
  proof (cases "st < en")
    case False
    obtain a b where ab: "st = minute_nanos * a" "en = minute_nanos * b" using st(3) en(3) by (auto elim!: dvdE simp: mod_0_imp_dvd dvd_def)
    have "b - a \<le> - 480" using lim False ne ab day_nanos_pos(2) by auto
    then have "minute_nanos * (b - a) \<le> minute_nanos * - 480" using day_nanos_pos(2) by (intro mult_left_mono) auto
    then have "en + day_nanos - st \<le> day_nanos - 480 * minute_nanos" using ab by (simp add: algebra_simps)
    then show ?thesis using False en st day_nanos_pos by (simp add: window_span_def)
  qed (use st en in \<open>simp add: window_span_def\<close>)
qed

lemma inactive_after_end:
  assumes "window_span st en \<le> day_nanos - minute_nanos"
    and "x \<ge> d * day_nanos + st + window_span st en" and "x < d * day_nanos + st + window_span st en + minute_nanos"
  shows "\<not> occurs_at w st en d' x"
proof
  assume o: "occurs_at w st en d' x"
  show False
  proof (cases "d' \<le> d")
    case True
    then have "d' * day_nanos \<le> d * day_nanos" using day_nanos_pos(1) by (intro mult_right_mono) auto
    then show False using o assms(2) by (simp add: occurs_at_def)
  next
    case False
    then have "(d + 1) * day_nanos \<le> d' * day_nanos" using day_nanos_pos(1) by (intro mult_right_mono) auto
    then show False using o assms(1,3) by (simp add: occurs_at_def algebra_simps)
  qed
qed

lemma ends_walk_bounds:
  assumes "parse_hhmm (win_start w) ''start'' = Inr st" and "parse_hhmm (win_end w) ''end'' = Inr en"
    and "window_span st en \<le> day_nanos - minute_nanos" and "weekday_of d \<in> set (days_of_week w)"
    and "E = d * day_nanos + st + window_span st en" and "E \<le> cap"
    and "d * day_nanos + st \<le> probe" and "probe < E"
  shows "E \<le> ends_walk w cap probe \<and> ends_walk w cap probe < E + minute_nanos"
  using assms
proof (induction w cap probe rule: ends_walk.induct)
  case (1 w cap probe)
  note act = window_active_in_occurrences [OF 1(2,3)]
  show ?case
  proof (cases "probe + minute_nanos < E")
    case True
    then have "occurs_at w st en d (probe + minute_nanos)"
      using 1(5,6,8) day_nanos_pos(2) by (simp add: occurs_at_def)
    then have on: "window_is_active w (probe + minute_nanos)" unfolding act by blast
    then have "ends_walk w cap probe = ends_walk w cap (probe + minute_nanos)"
      using 1(7,9) by (subst ends_walk.simps) simp
    moreover have "E \<le> ends_walk w cap (probe + minute_nanos) \<and> ends_walk w cap (probe + minute_nanos) < E + minute_nanos"
      using 1 on True day_nanos_pos(2) by simp
    ultimately show ?thesis by simp
  next
    case False
    then have "\<not> occurs_at w st en d' (probe + minute_nanos)" for d'
      using inactive_after_end [OF 1(4), of d "probe + minute_nanos"] 1(6,9) by simp
    then have "\<not> window_is_active w (probe + minute_nanos)" unfolding act by blast
    then have "ends_walk w cap probe = probe + minute_nanos"
      using 1(7,9) by (subst ends_walk.simps) simp
    then show ?thesis using False 1(9) by simp
  qed
qed

text \<open>For a validated window and a time in one of its occurrences, the end that the status shows lies at the end of this
  occurrence or less than a minute after it, in the offset that held at the time of the request.\<close>

theorem shown_end_within_a_minute:
  assumes "window_try_from w = Inr w'"
    and "parse_hhmm (win_start w) ''start'' = Inr st" and "parse_hhmm (win_end w) ''end'' = Inr en"
    and "occurs_at w st en d now"
  shows "d * day_nanos + st + window_span st en \<le> compute_ends_at now w
    \<and> compute_ends_at now w < d * day_nanos + st + window_span st en + minute_nanos"
proof -
  have "window_span st en \<le> day_nanos - minute_nanos" using valid_window_span [OF assms(1-3)] by simp
  then show ?thesis
    unfolding compute_ends_at_def using assms(4) day_nanos_pos(2)
    by (intro ends_walk_bounds [OF assms(2,3)]) (auto simp: occurs_at_def)
qed

definition w_night :: TrackingWindow where
  "w_night = \<lparr>win_start = ''22:00'', win_end = ''06:00'', days_of_week = [Thu], win_label = ''night''\<rparr>"

lemma w_night: "parse_hhmm (win_start w_night) ''start'' = Inr (22 * 60 * minute_nanos)"
  "parse_hhmm (win_end w_night) ''end'' = Inr (6 * 60 * minute_nanos)"
  by (simp_all add: w_night_def parse_hhmm_def parse_hhmm_local_def parse_u32_def digits_value_def is_ascii_digit_def from_hm_def)

theorem shown_end_within_a_minute_witness:
  "day_nanos + 6 * hour_nanos \<le> compute_ends_at (day_nanos + 3 * hour_nanos) w_night
   \<and> compute_ends_at (day_nanos + 3 * hour_nanos) w_night < day_nanos + 6 * hour_nanos + minute_nanos"
proof -
  have "window_try_from w_night = Inr w_night"
    by (simp add: window_try_from_def w_night minute_nanos_def nanos_per_sec_def)
  moreover have "occurs_at w_night (22 * 60 * minute_nanos) (6 * 60 * minute_nanos) 0 (day_nanos + 3 * hour_nanos)"
    by (simp add: w_night_def occurs_at_def window_span_def weekday_of_def day_nanos_def minute_nanos_def hour_nanos_def nanos_per_sec_def)
  ultimately show ?thesis
    using shown_end_within_a_minute [OF _ w_night, of w_night 0 "day_nanos + 3 * hour_nanos"]
    by (simp add: window_span_def day_nanos_def minute_nanos_def hour_nanos_def nanos_per_sec_def)
qed

section \<open>The zone of the schedule\<close>

text \<open>The gate matches the windows against the local time whatever zone the schedule names: when a window is active in the
  configured zone but not in the local one, the status says that tracking is muted while capture is permitted.\<close>

theorem muted_in_zone_but_captured:
  assumes "ts_enabled (tracking_schedule cfg)" and "windows (tracking_schedule cfg) = [w]"
    and "timezone (tracking_schedule cfg) \<noteq> ''Local''" and "tz (timezone (tracking_schedule cfg)) now = Some off"
    and "window_is_active w (now + off)" and "\<not> window_is_active w (now + local_off)"
    and "screen_capture consent" and "\<not> active_hours_enabled (schedule cfg)"
  shows "active_now (get_tracking_schedule_status_inner tz local_off now now' (tracking_schedule cfg))
    \<and> capture_permitted_now cfg consent False (now + local_off)"
  using assms
  by (simp add: get_tracking_schedule_status_inner_def convert_to_target_tz_def capture_permitted_now_def
      tracking_schedule_active_def should_run_now_with_time_def Let_def)

definition w_zone_cfg :: AppConfig where
  "w_zone_cfg = \<lparr>schedule = \<lparr>active_hours_enabled = False, active_start_hour = 9, active_end_hour = 18, active_days = []\<rparr>,
     tracking_schedule = \<lparr>ts_enabled = True, windows = [w_night], timezone = ''Asia/Seoul''\<rparr>, ts_notify = True\<rparr>"

theorem muted_in_zone_but_captured_witness:
  "active_now (get_tracking_schedule_status_inner (\<lambda>z t. Some (9 * hour_nanos)) 0 (14 * hour_nanos) (14 * hour_nanos) (tracking_schedule w_zone_cfg))
   \<and> capture_permitted_now w_zone_cfg all_permissions False (14 * hour_nanos)"
proof -
  have "window_is_active w_night (14 * hour_nanos + 9 * hour_nanos)" "\<not> window_is_active w_night (14 * hour_nanos + 0)"
    unfolding window_is_active_def w_night
    by (simp_all add: w_night_def Let_def wall_time_def wall_day_def weekday_of_def weekday_succ_def day_nanos_def minute_nanos_def
        hour_nanos_def nanos_per_sec_def)
  then show ?thesis
    using muted_in_zone_but_captured [of w_zone_cfg w_night "\<lambda>z t. Some (9 * hour_nanos)" "14 * hour_nanos" "9 * hour_nanos" 0
        all_permissions "14 * hour_nanos"]
    by (simp add: w_zone_cfg_def all_permissions_def)
qed

text \<open>The reader of times takes a sign in place of a digit.\<close>

lemma signed_time_accepted: "parse_hhmm ''+9:+5'' field = parse_hhmm ''09:05'' field"
  by (simp add: parse_hhmm_def parse_hhmm_local_def parse_u32_def digits_value_def is_ascii_digit_def from_hm_def)

section \<open>The gate and the notices\<close>

text \<open>Any one of the four conditions closes the gate.\<close>

lemma capture_needs_all_gates:
  "capture_permitted_now cfg consent paused now \<longleftrightarrow> screen_capture consent \<and> \<not> paused \<and> should_run_now_with_time cfg now
     \<and> (ts_enabled (tracking_schedule cfg) \<longrightarrow> (\<forall>w \<in> set (windows (tracking_schedule cfg)). \<not> window_is_active w now))"
  by (auto simp: capture_permitted_now_def tracking_schedule_active_def Let_def list_ex_iff)

text \<open>A change of state within a minute of the last notice is not announced, and not made up for later: the loop stores the new
  state, so that the next tick sees no change.\<close>

lemma debounced_change_is_silent:
  assumes "lst = Some l" and "l \<le> now" and "now - l < secs 60"
  shows "evaluate_and_notify_transitions cfg prev act now lst n = (None, lst)"
  using assms num_seconds_less_iff [of "now - l" 60] by (simp add: evaluate_and_notify_transitions_def max_def)

lemma notice_on_change:
  assumes "ts_notify cfg" and "prev \<noteq> act" and "lst = None"
  shows "evaluate_and_notify_transitions cfg prev act now lst True = (Some (if act then ScheduleActive else ScheduleEnded), Some now)"
  using assms by (simp add: evaluate_and_notify_transitions_def)

text \<open>The next start is the first whole-minute step at which a window becomes active.\<close>

lemma starts_walk_sound:
  "starts_walk ws horizon prev probe = Some p \<Longrightarrow> probe \<le> p \<and> p \<le> horizon \<and> list_ex (\<lambda>w. window_is_active w p) ws"
proof (induction ws horizon prev probe rule: starts_walk.induct)
  case (1 ws horizon prev probe)
  from 1(2) show ?case
    using 1(1) day_nanos_pos(2) by (subst (asm) starts_walk.simps) (fastforce simp: Let_def split: if_splits)
qed

end
