(* ===== verification/PiiText.thy ===== *)
theory PiiText
  imports Prelude
begin

text \<open>
  Texts as the lists of their code points, for the code of \<open>crates/oneshim-vision/src/privacy.rs\<close>, which works on vectors of
  \<open>char\<close> and on byte offsets into \<open>str\<close>: the ASCII classes, white space, UTF-8 lengths, slicing at a byte offset (\<open>None\<close>
  where the slice would panic), the search functions of \<open>str\<close>, and the scanning loop that most of the masks are.
\<close>

type_synonym uchar = nat
type_synonym utext = "uchar list"

definition lit :: "string \<Rightarrow> utext" where "lit s = map of_char s"

section \<open>Characters\<close>

definition is_digit :: "uchar \<Rightarrow> bool" where "is_digit c \<longleftrightarrow> 48 \<le> c \<and> c \<le> 57"

definition is_upper :: "uchar \<Rightarrow> bool" where "is_upper c \<longleftrightarrow> 65 \<le> c \<and> c \<le> 90"

definition is_alphabetic :: "uchar \<Rightarrow> bool" where "is_alphabetic c \<longleftrightarrow> is_upper c \<or> 97 \<le> c \<and> c \<le> 122"

definition is_alnum :: "uchar \<Rightarrow> bool" where "is_alnum c \<longleftrightarrow> is_digit c \<or> is_alphabetic c"

text \<open>\<open>char::is_whitespace\<close>, the property White\_Space.\<close>

definition is_white :: "uchar \<Rightarrow> bool" where
  "is_white c \<longleftrightarrow> 9 \<le> c \<and> c \<le> 13 \<or> c = 32 \<or> c = 0x85 \<or> c = 0xA0 \<or> c = 0x1680 \<or> 0x2000 \<le> c \<and> c \<le> 0x200A
     \<or> c = 0x2028 \<or> c = 0x2029 \<or> c = 0x202F \<or> c = 0x205F \<or> c = 0x3000"

definition utf8_len :: "uchar \<Rightarrow> nat" where
  "utf8_len c = (if c < 0x80 then 1 else if c < 0x800 then 2 else if c < 0x10000 then 3 else 4)"

definition byte_len :: "utext \<Rightarrow> nat" where "byte_len t = sum_list (map utf8_len t)"

lemma utf8_len_pos: "0 < utf8_len c"
  by (simp add: utf8_len_def)

lemma byte_len_simps [simp]: "byte_len [] = 0" "byte_len (c # t) = utf8_len c + byte_len t"
  "byte_len (t @ t') = byte_len t + byte_len t'"
  by (simp_all add: byte_len_def)

lemma length_le_byte_len: "length t \<le> byte_len t"
proof (induction t)
  case (Cons c t)
  then show ?case using utf8_len_pos [of c] by simp
qed simp

lemma byte_len_ascii: "(\<And>c. c \<in> set t \<Longrightarrow> c < 0x80) \<Longrightarrow> byte_len t = length t"
  by (induction t) (auto simp: utf8_len_def)

lemma digit_ascii: "is_digit c \<Longrightarrow> c < 0x80"
  by (simp add: is_digit_def)

section \<open>Slices and searches\<close>

text \<open>\<open>(&s[..n], &s[n..])\<close>.\<close>

fun split_bytes :: "nat \<Rightarrow> utext \<Rightarrow> (utext \<times> utext) option" where
  "split_bytes n [] = (if n = 0 then Some ([], []) else None)"
| "split_bytes n (c # t) =
     (if n = 0 then Some ([], c # t)
      else if utf8_len c \<le> n then map_option (\<lambda>(a, b). (c # a, b)) (split_bytes (n - utf8_len c) t) else None)"

lemma split_bytes_append: "split_bytes (byte_len a) (a @ b) = Some (a, b)"
proof (induction a)
  case (Cons c a)
  then show ?case using utf8_len_pos [of c] by simp
next
  case Nil
  show ?case by (cases b) simp_all
qed

lemma split_bytes_Some: "split_bytes n t = Some (a, b) \<Longrightarrow> t = a @ b \<and> byte_len a = n"
  by (induction n t arbitrary: a b rule: split_bytes.induct) (fastforce split: if_splits)+

fun has_prefix :: "utext \<Rightarrow> utext \<Rightarrow> bool" where
  "has_prefix [] t = True"
| "has_prefix (p # ps) [] = False"
| "has_prefix (p # ps) (c # cs) = (p = c \<and> has_prefix ps cs)"

lemma has_prefix_iff: "has_prefix p t \<longleftrightarrow> (\<exists>r. t = p @ r)"
  by (induction p t rule: has_prefix.induct) auto

text \<open>The text before the first occurrence of a needle and the text after it.\<close>

fun find_sub :: "utext \<Rightarrow> utext \<Rightarrow> (utext \<times> utext) option" where
  "find_sub n t =
     (if has_prefix n t then Some ([], drop (length n) t)
      else case t of [] \<Rightarrow> None | c # cs \<Rightarrow> map_option (\<lambda>(a, b). (c # a, b)) (find_sub n cs))"

declare find_sub.simps [simp del]

lemma find_sub_Some: "find_sub n t = Some (a, b) \<Longrightarrow> t = a @ n @ b"
proof (induction t arbitrary: a)
  case (Cons c cs)
  show ?case
  proof (cases "has_prefix n (c # cs)")
    case True
    then obtain r where "c # cs = n @ r" by (auto simp: has_prefix_iff)
    then show ?thesis using Cons.prems True by (subst (asm) find_sub.simps) (auto simp flip: append_eq_conv_conj)
  next
    case False
    then obtain a' where "a = c # a'" "find_sub n cs = Some (a', b)"
      using Cons.prems by (subst (asm) find_sub.simps) auto
    then show ?thesis using Cons.IH by simp
  qed
next
  case Nil
  then show ?case by (subst (asm) find_sub.simps) (auto simp: has_prefix_iff split: if_splits)
qed

lemma find_sub_None: "find_sub n t = None \<longleftrightarrow> \<not> (\<exists>a b. t = a @ n @ b)"
proof (induction t)
  case Nil
  show ?case by (subst find_sub.simps) (auto simp: has_prefix_iff)
next
  case (Cons c cs)
  have "(\<exists>a b. c # cs = a @ n @ b) \<longleftrightarrow> has_prefix n (c # cs) \<or> (\<exists>a b. cs = a @ n @ b)"
    by (auto simp: has_prefix_iff Cons_eq_append_conv)
  then show ?case using Cons.IH by (subst find_sub.simps) auto
qed

text \<open>The first occurrence is the leftmost one.\<close>

lemma find_sub_first: "find_sub n t = Some (a, b) \<Longrightarrow> t = a' @ n @ b' \<Longrightarrow> length a \<le> length a'"
proof (induction t arbitrary: a a')
  case Nil
  then show ?case by (simp add: find_sub.simps)
next
  case (Cons c cs)
  show ?case
  proof (cases a')
    case Nil
    then have "has_prefix n (c # cs)" using Cons.prems(2) by (auto simp: has_prefix_iff)
    then show ?thesis using Cons.prems(1) by (subst (asm) find_sub.simps) auto
  next
    case (Cons x xs)
    then show ?thesis using Cons.IH Cons.prems
      by (subst (asm) (2) find_sub.simps) (fastforce split: if_splits)
  qed
qed

definition contains :: "utext \<Rightarrow> utext \<Rightarrow> bool" where
  "contains t n \<longleftrightarrow> find_sub n t \<noteq> None"

lemma contains_iff: "contains t n \<longleftrightarrow> (\<exists>a b. t = a @ n @ b)"
  by (simp add: contains_def find_sub_None)

text \<open>\<open>str::replace\<close> for a needle that is not empty.\<close>

function replace_all :: "utext \<Rightarrow> utext \<Rightarrow> utext \<Rightarrow> utext" where
  "replace_all n r t =
     (case find_sub n t of
        None \<Rightarrow> t
      | Some (a, b) \<Rightarrow> if n = [] then t else a @ r @ replace_all n r b)"
  by pat_completeness auto
termination
  by (relation "measure (\<lambda>(n, r, t). length t)") (auto dest!: find_sub_Some)

declare replace_all.simps [simp del]

section \<open>The scanning loop\<close>

text \<open>
  Most of the masks walk over the characters: at a position, a matcher that sees the character before it (of the input) and
  the rest of the input may recognise some characters, which are replaced; otherwise the character is copied.
  A matcher never recognises an empty text.
\<close>

type_synonym matcher = "uchar option \<Rightarrow> utext \<Rightarrow> (nat \<times> utext) option"

function scan :: "matcher \<Rightarrow> uchar option \<Rightarrow> utext \<Rightarrow> utext" where
  "scan m prev [] = []"
| "scan m prev (c # cs) =
     (case m prev (c # cs) of
        None \<Rightarrow> c # scan m (Some c) cs
      | Some (k, r) \<Rightarrow> r @ scan m (Some (last (c # take (k - 1) cs))) (drop (k - 1) cs))"
  by pat_completeness auto
termination
  by (relation "measure (\<lambda>(m, prev, t). length t)") auto

end
