(* ===== verification/PiiMask.thy ===== *)
theory PiiMask
  imports PiiText
begin

text \<open>
  The masks of \<open>crates/oneshim-vision/src/privacy.rs\<close>, in the order of the source.
  A result of \<open>None\<close> is a panic (a slice whose bounds are wrong or inside a character) or, for the two loops that
  are \<open>partial_function\<close>s, a loop that does not end. The Unicode tables of the standard library are arguments:
  \<open>alnum\<close> is \<open>char::is_alphanumeric\<close>, \<open>low\<close> is \<open>str::to_lowercase\<close>.
\<close>

section \<open>E-mail addresses\<close>

definition email_open :: "uchar \<Rightarrow> bool" where "email_open c \<longleftrightarrow> is_white c \<or> c = 60 \<or> c = 40"

definition email_close :: "uchar \<Rightarrow> bool" where "email_close c \<longleftrightarrow> is_white c \<or> c = 62 \<or> c = 41"

fun position :: "('a \<Rightarrow> bool) \<Rightarrow> 'a list \<Rightarrow> nat option" where
  "position p [] = None"
| "position p (x # xs) = (if p x then Some 0 else map_option Suc (position p xs))"

definition rposition :: "('a \<Rightarrow> bool) \<Rightarrow> 'a list \<Rightarrow> nat option" where
  "rposition p xs = map_option (\<lambda>k. length xs - 1 - k) (position p (rev xs))"

text \<open>The bounds of the address around the at sign at \<open>at\<close>, searched from \<open>i\<close>.\<close>

definition email_start :: "utext \<Rightarrow> nat \<Rightarrow> nat \<Rightarrow> nat" where
  "email_start cs i at = (case rposition email_open (take at cs) of Some p \<Rightarrow> p + 1 | None \<Rightarrow> i)"

definition email_end :: "utext \<Rightarrow> nat \<Rightarrow> nat" where
  "email_end cs at = (case position email_close (drop (at + 1) cs) of Some p \<Rightarrow> at + 1 + p | None \<Rightarrow> length cs)"

function mask_emails_from :: "utext \<Rightarrow> nat \<Rightarrow> utext option" where
  "mask_emails_from cs i =
     (if i < length cs
      then (case position (\<lambda>c. c = 64) (drop i cs) of
              Some k \<Rightarrow>
                (let at = i + k; st = email_start cs i at; en = email_end cs at
                 in if at > st \<and> en > at + 1
                    then (if st < i then None
                          else map_option (\<lambda>r. take (st - i) (drop i cs) @ lit ''[EMAIL]'' @ r) (mask_emails_from cs en))
                    else map_option (\<lambda>r. cs ! i # r) (mask_emails_from cs (i + 1)))
            | None \<Rightarrow> map_option (\<lambda>r. cs ! i # r) (mask_emails_from cs (i + 1)))
      else Some [])"
  by pat_completeness auto
termination
  by (relation "measure (\<lambda>(cs, i). length cs - i)") auto

declare mask_emails_from.simps [simp del]

definition mask_emails :: "utext \<Rightarrow> utext option" where "mask_emails t = mask_emails_from t 0"

section \<open>Phone numbers\<close>

text \<open>The loop of \<open>find_phone_number_end\<close>: digits, separators and characters consumed. The fifth separator is counted, not consumed.\<close>

fun phone_loop :: "utext \<Rightarrow> nat \<Rightarrow> nat \<Rightarrow> nat \<Rightarrow> nat \<times> nat \<times> nat" where
  "phone_loop [] d s n = (d, s, n)"
| "phone_loop (c # cs) d s n =
     (if is_digit c then phone_loop cs (d + 1) s (n + 1)
      else if c = 45 \<or> c = 32 \<or> c = 46
      then (if s + 1 > 4 then (d, s + 1, n) else phone_loop cs d (s + 1) (n + 1))
      else (d, s, n))"

definition find_phone_number_end :: "utext \<Rightarrow> nat option" where
  "find_phone_number_end t =
     (let (d, s, n) = (case t of c # cs \<Rightarrow> if c = 43 then phone_loop cs 0 0 1 else phone_loop t 0 0 0 | [] \<Rightarrow> (0, 0, 0))
      in if d \<ge> 9 \<and> s \<ge> 1 then Some n else None)"

definition is_phone_number_start :: "uchar \<Rightarrow> bool" where "is_phone_number_start c \<longleftrightarrow> c = 43 \<or> c = 48"

definition phone_matcher :: matcher where
  "phone_matcher prev t =
     (case t of
        c # cs \<Rightarrow> if (c = 43 \<or> is_digit c) \<and> is_phone_number_start c
                   then map_option (\<lambda>n. (n, lit ''[PHONE]'')) (find_phone_number_end t) else None
      | [] \<Rightarrow> None)"

definition mask_phone_numbers :: "utext \<Rightarrow> utext" where "mask_phone_numbers t = scan phone_matcher None t"

section \<open>Card numbers\<close>

text \<open>A run of digits with single spaces or dashes between them: digits and characters consumed.\<close>

fun card_run :: "utext \<Rightarrow> nat \<Rightarrow> nat \<Rightarrow> nat \<times> nat" where
  "card_run [] d n = (d, n)"
| "card_run (c # cs) d n =
     (if is_digit c then card_run cs (d + 1) (n + 1)
      else if (c = 32 \<or> c = 45) \<and> (case cs of c' # _ \<Rightarrow> is_digit c' | [] \<Rightarrow> False) then card_run cs d (n + 1)
      else (d, n))"

definition card_matcher :: matcher where
  "card_matcher prev t =
     (case t of
        c # cs \<Rightarrow> if is_digit c
                   then (let (d, n) = card_run t 0 0
                         in Some (n, if 13 \<le> d \<and> d \<le> 19 then lit ''[CARD]'' else take n t))
                   else None
      | [] \<Rightarrow> None)"

definition mask_credit_cards :: "utext \<Rightarrow> utext" where "mask_credit_cards t = scan card_matcher None t"

section \<open>Korean identity numbers\<close>

fun split_char :: "uchar \<Rightarrow> utext \<Rightarrow> utext list" where
  "split_char d [] = [[]]"
| "split_char d (c # cs) =
     (if c = d then [] # split_char d cs else (case split_char d cs of p # ps \<Rightarrow> (c # p) # ps | [] \<Rightarrow> [[c]]))"

definition kr_needle :: "utext \<Rightarrow> utext \<Rightarrow> utext option option" where
  "kr_needle a b =
     (if byte_len a \<ge> 6 \<and> list_all is_digit (take 6 (rev a)) \<and> byte_len b \<ge> 7 \<and> list_all is_digit (take 7 b)
      then (case (split_bytes (byte_len a - 6) a, split_bytes 7 b) of
              (Some (_, x), Some (y, _)) \<Rightarrow> Some (Some (x @ lit ''-'' @ y))
            | _ \<Rightarrow> None)
      else Some None)"

fun kr_windows :: "utext list \<Rightarrow> utext \<Rightarrow> utext option" where
  "kr_windows (a # b # ps) r =
     (case kr_needle a b of
        None \<Rightarrow> None
      | Some None \<Rightarrow> kr_windows (b # ps) r
      | Some (Some n) \<Rightarrow> kr_windows (b # ps) (replace_all n (lit ''[KR_ID]'') r))"
| "kr_windows _ r = Some r"

definition mask_korean_id :: "utext \<Rightarrow> utext option" where
  "mask_korean_id t = (if 45 \<in> set t then kr_windows (split_char 45 t) t else Some t)"

section \<open>Social security numbers\<close>

definition ssn_shape :: "utext \<Rightarrow> bool" where
  "ssn_shape t \<longleftrightarrow> length t = 11 \<and> list_all is_digit (take 3 t) \<and> t ! 3 = 45 \<and> is_digit (t ! 4) \<and> is_digit (t ! 5)
     \<and> t ! 6 = 45 \<and> list_all is_digit (drop 7 t)"

definition ssn_matcher :: matcher where
  "ssn_matcher prev t =
     (if 11 \<le> length t \<and> ssn_shape (take 11 t)
         \<and> \<not> (case prev of Some p \<Rightarrow> is_digit p | None \<Rightarrow> False) \<and> \<not> (11 < length t \<and> is_digit (t ! 11))
      then Some (11, lit ''[SSN]'') else None)"

definition mask_ssn :: "utext \<Rightarrow> utext" where "mask_ssn t = scan ssn_matcher None t"

section \<open>Keys and tokens\<close>

definition token_stop :: "uchar \<Rightarrow> bool" where "token_stop c \<longleftrightarrow> is_white c \<or> c = 34 \<or> c = 39 \<or> c = 44 \<or> c = 59"

definition api_prefixes :: "utext list" where
  "api_prefixes = map lit [''sk-'', ''pk-'', ''sk_'', ''pk_'', ''api_'', ''key_'', ''token_'', ''secret_'', ''AKIA'', ''ghp_'', ''gho_'',
     ''ghs_'', ''github_pat_'', ''xoxb-'', ''xoxp-'']"

text \<open>The loop for one prefix; it stops at the first occurrence that is too short for a key.\<close>

partial_function (option) api_loop :: "utext \<Rightarrow> utext \<Rightarrow> utext option" where
  "api_loop pre t =
     (case find_sub pre t of
        None \<Rightarrow> Some t
      | Some (a, b) \<Rightarrow>
          if byte_len (takeWhile (\<lambda>c. \<not> token_stop c) b) \<ge> 8
          then api_loop pre (a @ lit ''[API_KEY]'' @ dropWhile (\<lambda>c. \<not> token_stop c) b)
          else Some t)"

declare api_loop.simps [code]

fun api_prefix_loops :: "utext list \<Rightarrow> utext \<Rightarrow> utext option" where
  "api_prefix_loops [] t = Some t"
| "api_prefix_loops (p # ps) t = Option.bind (api_loop p t) (api_prefix_loops ps)"

text \<open>The offsets of \<open>mask_bearer_tokens\<close> are found in the lowercase text and used on the text itself.\<close>

partial_function (option) bearer_loop :: "(utext \<Rightarrow> utext) \<Rightarrow> utext \<Rightarrow> nat \<Rightarrow> utext option" where
  "bearer_loop low t search_from =
     (if search_from \<ge> byte_len (low t) then Some t
      else case split_bytes search_from (low t) of
        None \<Rightarrow> None
      | Some (_, l) \<Rightarrow>
          (case find_sub (lit ''bearer '') l of
             None \<Rightarrow> Some t
           | Some (a, _) \<Rightarrow>
               (case split_bytes (search_from + byte_len a + 7) t of
                  None \<Rightarrow> None
                | Some (_, after) \<Rightarrow>
                    if byte_len (takeWhile (\<lambda>c. \<not> token_stop c) after) \<ge> 8
                    then (case split_bytes (search_from + byte_len a) t of
                            None \<Rightarrow> None
                          | Some (before, _) \<Rightarrow>
                              bearer_loop low (before @ lit ''Bearer [API_KEY]'' @ dropWhile (\<lambda>c. \<not> token_stop c) after)
                                (search_from + byte_len a + 16))
                    else bearer_loop low t
                           (search_from + byte_len a + 7 + max (byte_len (takeWhile (\<lambda>c. \<not> token_stop c) after)) 1))))"

declare bearer_loop.simps [code]

definition mask_bearer_tokens :: "(utext \<Rightarrow> utext) \<Rightarrow> utext \<Rightarrow> utext option" where
  "mask_bearer_tokens low t = bearer_loop low t 0"

text \<open>The loop of \<open>mask_private_key_blocks\<close>: the text before the position of the search and the text after it.\<close>

function key_blocks :: "utext \<Rightarrow> utext \<Rightarrow> utext" where
  "key_blocks pre rest =
     (case find_sub (lit ''-----BEGIN '') rest of
        None \<Rightarrow> pre @ rest
      | Some (a, b) \<Rightarrow>
          (case find_sub (lit ''-----'') b of
             None \<Rightarrow> pre @ rest
           | Some (label, _) \<Rightarrow>
               if \<not> contains label (lit ''PRIVATE KEY'') then key_blocks (pre @ a @ lit ''-----BEGIN '') b
               else (case find_sub (lit ''-----END '' @ label @ lit ''-----'') b of
                       Some (_, r) \<Rightarrow> key_blocks (pre @ a @ lit ''[PRIVATE_KEY]'') r
                     | None \<Rightarrow> key_blocks (pre @ a @ lit ''[PRIVATE_KEY]'') [])))"
  by pat_completeness auto
termination
  by (relation "measure (\<lambda>(d, r). length r)") (auto dest!: find_sub_Some simp: lit_def)

declare key_blocks.simps [simp del]

definition mask_private_key_blocks :: "utext \<Rightarrow> utext" where
  "mask_private_key_blocks t =
     (if \<not> contains t (lit ''-----BEGIN '') \<or> \<not> contains t (lit ''PRIVATE KEY-----'') then t else key_blocks [] t)"

definition mask_api_keys :: "(utext \<Rightarrow> utext) \<Rightarrow> utext \<Rightarrow> utext option" where
  "mask_api_keys low t =
     Option.bind (api_prefix_loops api_prefixes t) (\<lambda>r. map_option mask_private_key_blocks (mask_bearer_tokens low r))"

section \<open>Network addresses\<close>

definition digits_num :: "utext \<Rightarrow> nat" where "digits_num t = fold (\<lambda>c n. 10 * n + (c - 48)) t 0"

text \<open>\<open>octets\<close> more octets, from a text: the characters consumed.\<close>

fun parse_octets :: "nat \<Rightarrow> utext \<Rightarrow> nat option" where
  "parse_octets 0 t = (case t of c # _ \<Rightarrow> if is_digit c then None else Some 0 | [] \<Rightarrow> Some 0)"
| "parse_octets (Suc n) t =
     (let oc = takeWhile is_digit t; r = dropWhile is_digit t
      in if oc = [] \<or> length oc > 3 then None
         else if digits_num oc > 255 then None
         else if n = 0 then map_option (\<lambda>k. length oc + k) (parse_octets 0 r)
         else (case r of c # cs \<Rightarrow> if c = 46 then map_option (\<lambda>k. length oc + 1 + k) (parse_octets n cs) else None | [] \<Rightarrow> None))"

definition try_parse_ipv4 :: "utext \<Rightarrow> nat option" where "try_parse_ipv4 t = parse_octets 4 t"

definition ip_matcher :: matcher where
  "ip_matcher prev t =
     (case t of c # cs \<Rightarrow> if is_digit c then map_option (\<lambda>n. (n, lit ''[IP]'')) (try_parse_ipv4 t) else None | [] \<Rightarrow> None)"

definition mask_ip_addresses :: "utext \<Rightarrow> utext" where "mask_ip_addresses t = scan ip_matcher None t"

section \<open>Bank accounts, passports and user directories\<close>

definition prev_is :: "(uchar \<Rightarrow> bool) \<Rightarrow> uchar option \<Rightarrow> bool" where
  "prev_is p prev \<longleftrightarrow> (case prev of Some c \<Rightarrow> p c | None \<Rightarrow> False)"

definition iban_char :: "uchar \<Rightarrow> bool" where "iban_char c \<longleftrightarrow> is_alnum c \<or> c = 32 \<or> c = 45"

definition try_parse_iban :: "(uchar \<Rightarrow> bool) \<Rightarrow> uchar option \<Rightarrow> utext \<Rightarrow> (nat \<times> nat) option" where
  "try_parse_iban alnum prev t =
     (if length t < 15 then None
      else if prev_is alnum prev then None
      else if \<not> is_upper (t ! 0) \<or> \<not> is_upper (t ! 1) then None
      else if \<not> is_digit (t ! 2) \<or> \<not> is_digit (t ! 3) then None
      else (let body = takeWhile iban_char (drop 4 t); n = length (filter is_alnum body)
            in if 11 \<le> n \<and> n \<le> 30 then Some (4 + length body, 4) else None))"

definition iban_matcher :: "(uchar \<Rightarrow> bool) \<Rightarrow> matcher" where
  "iban_matcher alnum prev t = map_option (\<lambda>(n, p). (n, take p t @ lit ''[IBAN]'')) (try_parse_iban alnum prev t)"

definition mask_iban :: "(uchar \<Rightarrow> bool) \<Rightarrow> utext \<Rightarrow> utext" where "mask_iban alnum t = scan (iban_matcher alnum) None t"

definition passport_matcher :: "(uchar \<Rightarrow> bool) \<Rightarrow> matcher" where
  "passport_matcher alnum prev t =
     (case t of
        [] \<Rightarrow> None
      | c # cs \<Rightarrow>
          if is_alphabetic c \<and> 8 \<le> length t \<and> \<not> prev_is alnum prev
          then (let d = length (takeWhile is_digit cs)
                in if 7 \<le> d \<and> d \<le> 8 \<and> \<not> (case dropWhile is_digit cs of x # _ \<Rightarrow> alnum x | [] \<Rightarrow> False)
                   then Some (1 + d, lit ''[PASSPORT]'') else None)
          else None)"

definition mask_passport :: "(uchar \<Rightarrow> bool) \<Rightarrow> utext \<Rightarrow> utext" where
  "mask_passport alnum t = scan (passport_matcher alnum) None t"

definition path_stop :: "uchar \<Rightarrow> uchar \<Rightarrow> bool" where "path_stop sep c \<longleftrightarrow> c = sep \<or> is_white c"

text \<open>The text from \<open>search_from\<close> on; the prefixes of the callers are not empty, without which the loop would not advance.\<close>

function mask_user_paths_os :: "utext \<Rightarrow> uchar \<Rightarrow> utext \<Rightarrow> utext" where
  "mask_user_paths_os pre sep t =
     (if t = [] \<or> pre = [] then t
      else case find_sub pre t of
        None \<Rightarrow> t
      | Some (a, b) \<Rightarrow>
          if b = [] then t
          else if takeWhile (\<lambda>c. \<not> path_stop sep c) b = [] then a @ pre @ mask_user_paths_os pre sep b
          else a @ pre @ lit ''[USER]'' @ mask_user_paths_os pre sep (dropWhile (\<lambda>c. \<not> path_stop sep c) b))"
  by pat_completeness auto
termination
  by (relation "measure (\<lambda>(p, s, t). length t)")
    (auto dest!: find_sub_Some intro: le_less_trans [OF length_dropWhile_le])

declare mask_user_paths_os.simps [simp del]

definition mask_user_paths :: "utext \<Rightarrow> utext" where
  "mask_user_paths t =
     mask_user_paths_os (lit ''C:'' @ [92] @ lit ''Users'' @ [92]) 92 (mask_user_paths_os (lit ''/home/'') 47 (mask_user_paths_os (lit ''/Users/'') 47 t))"

end
