(* ===== verification/PiiFilter.thy ===== *)
theory PiiFilter
  imports PiiMask "HOL-Library.Monad_Syntax"
begin

text \<open>
  The filter levels of \<open>crates/oneshim-vision/src/privacy.rs\<close>: which masks a level composes and in which order, the markers
  found by comparing a text with its masked form, and the applications and titles excluded from capture.
  \<open>alnum\<close> and \<open>low\<close> stand for \<open>char::is_alphanumeric\<close> and \<open>str::to_lowercase\<close>; \<open>None\<close> is a panic.
\<close>

section \<open>Filter levels\<close>

datatype PiiFilterLevel = Off | Basic | Standard | Strict

fun level_rank :: "PiiFilterLevel \<Rightarrow> nat" where
  "level_rank Off = 0" | "level_rank Basic = 1" | "level_rank Standard = 2" | "level_rank Strict = 3"

function (sequential) sanitize_title_with_level ::
    "(uchar \<Rightarrow> bool) \<Rightarrow> (utext \<Rightarrow> utext) \<Rightarrow> utext \<Rightarrow> PiiFilterLevel \<Rightarrow> utext option" where
  "sanitize_title_with_level alnum low t Off = Some t"
| "sanitize_title_with_level alnum low t Basic = map_option mask_phone_numbers (mask_emails t)"
| "sanitize_title_with_level alnum low t Standard =
     do { r \<leftarrow> sanitize_title_with_level alnum low (mask_iban alnum t) Basic;
          r \<leftarrow> mask_korean_id (mask_credit_cards r);
          Some (mask_user_paths (mask_ssn r)) }"
| "sanitize_title_with_level alnum low t Strict =
     do { r \<leftarrow> sanitize_title_with_level alnum low t Standard;
          r \<leftarrow> mask_api_keys low r;
          Some (mask_passport alnum (mask_ip_addresses r)) }"
  by pat_completeness auto
termination
  by (relation "measure (\<lambda>(_, _, _, l). level_rank l)") auto

definition sanitize_title :: "(uchar \<Rightarrow> bool) \<Rightarrow> (utext \<Rightarrow> utext) \<Rightarrow> utext \<Rightarrow> utext option" where
  "sanitize_title alnum low t = sanitize_title_with_level alnum low t Standard"

section \<open>Markers\<close>

datatype PiiMarker = Email | Phone | Card | KoreanId | Ssn | Iban | ApiKey | Ip | UserPath | Passport

definition marker_inserted :: "utext \<Rightarrow> utext \<Rightarrow> utext \<Rightarrow> bool" where
  "marker_inserted original masked marker \<longleftrightarrow>
     contains masked marker \<and> (\<not> contains original marker \<or> masked \<noteq> original)"

definition marker_table :: "(string \<times> PiiMarker) list" where
  "marker_table = [(''[EMAIL]'', Email), (''[PHONE]'', Phone), (''[CARD]'', Card), (''[KR_ID]'', KoreanId), (''[SSN]'', Ssn),
     (''[IBAN]'', Iban), (''[API_KEY]'', ApiKey), (''[IP]'', Ip), (''[USER]'', UserPath), (''[PASSPORT]'', Passport)]"

definition detect_pii_markers_with_level ::
    "(uchar \<Rightarrow> bool) \<Rightarrow> (utext \<Rightarrow> utext) \<Rightarrow> utext \<Rightarrow> PiiFilterLevel \<Rightarrow> PiiMarker list option" where
  "detect_pii_markers_with_level alnum low t l =
     map_option (\<lambda>masked. map snd (filter (\<lambda>(m, _). marker_inserted t masked (lit m)) marker_table))
       (sanitize_title_with_level alnum low t l)"

definition is_sensitive_segment_with_level ::
    "(uchar \<Rightarrow> bool) \<Rightarrow> (utext \<Rightarrow> utext) \<Rightarrow> utext \<Rightarrow> PiiFilterLevel \<Rightarrow> bool option" where
  "is_sensitive_segment_with_level alnum low t l =
     map_option (\<lambda>ms. ms \<noteq> []) (detect_pii_markers_with_level alnum low t l)"

section \<open>Excluded applications and titles\<close>

definition SENSITIVE_APP_KEYWORDS :: "utext list" where
  "SENSITIVE_APP_KEYWORDS = map lit [''1password'', ''lastpass'', ''bitwarden'', ''dashlane'', ''keepass'', ''enpass'', ''nordpass'',
     ''bank'', ''banking'', ''wallet'', ''trading'', ''crypto'', ''coinbase'', ''binance'', ''authenticator'', ''2fa'', ''otp'',
     ''vault'', ''keychain'', ''signal'']"

definition is_sensitive_app :: "(utext \<Rightarrow> utext) \<Rightarrow> utext \<Rightarrow> bool" where
  "is_sensitive_app low app = list_ex (contains (low app)) SENSITIVE_APP_KEYWORDS"

text \<open>\<open>ends_with\<close> and \<open>strip_suffix\<close> of a character.\<close>

definition has_suffix :: "utext \<Rightarrow> utext \<Rightarrow> bool" where "has_suffix s t \<longleftrightarrow> has_prefix (rev s) (rev t)"

definition strip_last :: "uchar \<Rightarrow> utext \<Rightarrow> utext option" where
  "strip_last c t = (if t \<noteq> [] \<and> last t = c then Some (butlast t) else None)"

definition pattern_matches :: "utext \<Rightarrow> utext \<Rightarrow> bool" where
  "pattern_matches name pat =
     (case pat of
        c # rest \<Rightarrow>
          if c = 42 then (case strip_last 42 rest of Some keyword \<Rightarrow> contains name keyword | None \<Rightarrow> has_suffix rest name)
          else (case strip_last 42 pat of Some prefix \<Rightarrow> has_prefix prefix name | None \<Rightarrow> name = pat)
      | [] \<Rightarrow> name = pat)"

definition matches_exclusion_pattern :: "(utext \<Rightarrow> utext) \<Rightarrow> utext \<Rightarrow> utext list \<Rightarrow> bool" where
  "matches_exclusion_pattern low name patterns = list_ex (\<lambda>p. pattern_matches (low name) (low p)) patterns"

definition should_exclude ::
    "(utext \<Rightarrow> utext) \<Rightarrow> utext \<Rightarrow> utext \<Rightarrow> utext list \<Rightarrow> utext list \<Rightarrow> utext list \<Rightarrow> bool \<Rightarrow> bool" where
  "should_exclude low app title excluded_apps app_patterns title_patterns auto_exclude =
     (if list_ex (\<lambda>a. low a = low app) excluded_apps then True
      else if matches_exclusion_pattern low app app_patterns then True
      else if matches_exclusion_pattern low title title_patterns then True
      else if auto_exclude \<and> is_sensitive_app low app then True
      else False)"

end
