(* ===== verification/PrivacyGateway.thy ===== *)
theory PrivacyGateway
  imports PiiFilter Consent "HOL-Library.Product_Lexorder"
begin

text \<open>
  The gateway of \<open>crates/oneshim-vision/src/privacy_gateway.rs\<close>: what may leave the machine for external recognition, and how an
  image is redacted first. The image library, the recogniser and the encoder are arguments (\<open>decode\<close>, \<open>ocr\<close>, \<open>to_rgba8\<close>,
  \<open>blur\<close>, \<open>encode_png\<close>); \<open>None\<close> of a result is a panic of the text filter. Coordinates are 32-bit signed integers,
  written as integers with their wrap-around.
\<close>

section \<open>Data\<close>

datatype ExternalDataPolicy = PiiFilterStrict | PiiFilterStandard | AllowFiltered

datatype PrivacyDenied = NoConsent | SensitiveApp utext | ExcludedByPolicy

record PrivacyConfig =
  excluded_apps :: "utext list"
  excluded_app_patterns :: "utext list"
  excluded_title_patterns :: "utext list"
  auto_exclude_sensitive :: bool
  config_filter_level :: PiiFilterLevel

record PrivacyGateway =
  consent_manager :: ConsentManager
  pii_filter_level :: PiiFilterLevel
  external_data_policy :: ExternalDataPolicy
  privacy_config :: PrivacyConfig

record OcrWordBox =
  box_text :: utext
  box_x :: int
  box_y :: int
  box_w :: int
  box_h :: int

record SensitiveRegion =
  reg_x :: int
  reg_y :: int
  reg_w :: int
  reg_h :: int

record Rgba =
  img_w :: nat
  img_h :: nat
  pixels :: "nat \<Rightarrow> nat \<Rightarrow> nat"

record 'b SanitizedImage =
  image_data :: 'b
  metadata_stripped :: bool
  redacted_regions :: nat

definition i32 :: "int \<Rightarrow> int" where "i32 n = (n + 2 ^ 31) mod 2 ^ 32 - 2 ^ 31"

definition as_u32 :: "int \<Rightarrow> nat" where "as_u32 n = nat (n mod 2 ^ 32)"

section \<open>Levels\<close>

definition resolve_filter_level :: "PiiFilterLevel \<Rightarrow> ExternalDataPolicy \<Rightarrow> bool \<Rightarrow> PiiFilterLevel" where
  "resolve_filter_level level policy allow_unredacted =
     (if allow_unredacted then Off
      else (case policy of PiiFilterStrict \<Rightarrow> Strict | PiiFilterStandard \<Rightarrow> Standard | AllowFiltered \<Rightarrow> level))"

definition effective_filter_level :: "PrivacyGateway \<Rightarrow> PiiFilterLevel" where
  "effective_filter_level g = resolve_filter_level (pii_filter_level g) (external_data_policy g) False"

section \<open>Sensitive regions\<close>

definition near :: "SensitiveRegion \<Rightarrow> SensitiveRegion \<Rightarrow> bool" where
  "near c r \<longleftrightarrow>
     reg_x r \<le> i32 (i32 (reg_x c + reg_w c) + 10) \<and> i32 (i32 (reg_x r + reg_w r) + 10) \<ge> reg_x c
     \<and> reg_y r \<le> i32 (i32 (reg_y c + reg_h c) + 10) \<and> i32 (i32 (reg_y r + reg_h r) + 10) \<ge> reg_y c"

definition join_regions :: "SensitiveRegion \<Rightarrow> SensitiveRegion \<Rightarrow> SensitiveRegion" where
  "join_regions c r =
     (let left = min (reg_x c) (reg_x r); top = min (reg_y c) (reg_y r);
          right = max (i32 (reg_x c + reg_w c)) (i32 (reg_x r + reg_w r));
          bottom = max (i32 (reg_y c + reg_h c)) (i32 (reg_y r + reg_h r))
      in \<lparr>reg_x = left, reg_y = top, reg_w = max (i32 (right - left)) 1, reg_h = max (i32 (bottom - top)) 1\<rparr>)"

fun merge_region :: "SensitiveRegion \<Rightarrow> SensitiveRegion list \<Rightarrow> SensitiveRegion list" where
  "merge_region r [] = [r]"
| "merge_region r (c # cs) = (if near c r then join_regions c r # cs else c # merge_region r cs)"

definition merge_sensitive_regions :: "SensitiveRegion list \<Rightarrow> SensitiveRegion list" where
  "merge_sensitive_regions rs = fold merge_region (sort_key (\<lambda>r. (reg_y r, reg_x r)) rs) []"

definition box_region :: "OcrWordBox \<Rightarrow> SensitiveRegion" where
  "box_region wb = \<lparr>reg_x = box_x wb, reg_y = box_y wb, reg_w = max (box_w wb) 1, reg_h = max (box_h wb) 1\<rparr>"

definition windows :: "nat \<Rightarrow> 'a list \<Rightarrow> 'a list list" where
  "windows k xs = (if k \<le> length xs then map (\<lambda>i. take k (drop i xs)) [0..<length xs - k + 1] else [])"

definition mark_word :: "(utext \<Rightarrow> bool option) \<Rightarrow> nat \<times> OcrWordBox \<Rightarrow> nat set option \<Rightarrow> nat set option" where
  "mark_word sensitive w acc =
     do { marked \<leftarrow> acc; s \<leftarrow> sensitive (box_text (snd w)); Some (if s then insert (fst w) marked else marked) }"

fun join_texts :: "utext \<Rightarrow> utext list \<Rightarrow> utext" where
  "join_texts sep [] = []"
| "join_texts sep [t] = t"
| "join_texts sep (t # ts) = t @ sep @ join_texts sep ts"

definition one_line :: "(nat \<times> OcrWordBox) list \<Rightarrow> bool" where
  "one_line w \<longleftrightarrow> (let ys = map (box_y \<circ> snd) w in i32 \<bar>i32 (Max (set ys) - Min (set ys))\<bar> \<le> 14)"

definition mark_window ::
    "(utext \<Rightarrow> bool option) \<Rightarrow> (nat \<times> OcrWordBox) list \<Rightarrow> nat set option \<Rightarrow> nat set option" where
  "mark_window sensitive w acc =
     do { marked \<leftarrow> acc;
          if \<not> one_line w then Some marked
          else do { let texts = map (box_text \<circ> snd) w;
                    compact \<leftarrow> sensitive (join_texts [] texts);
                    spaced \<leftarrow> (if compact then Some True else sensitive (join_texts [32] texts));
                    Some (if spaced then set (map fst w) \<union> marked else marked) } }"

definition sensitive_indices :: "(utext \<Rightarrow> bool option) \<Rightarrow> OcrWordBox list \<Rightarrow> nat set option" where
  "sensitive_indices sensitive boxes =
     (let indexed = sort_key (\<lambda>w. (box_y (snd w), box_x (snd w))) (zip [0..<length boxes] boxes)
      in fold (mark_window sensitive) (concat (map (\<lambda>k. windows k indexed) [2..<6])) (fold (mark_word sensitive) indexed (Some {})))"

definition detect_sensitive_regions :: "(utext \<Rightarrow> bool option) \<Rightarrow> OcrWordBox list \<Rightarrow> SensitiveRegion list option" where
  "detect_sensitive_regions sensitive boxes =
     map_option (\<lambda>marked. merge_sensitive_regions (map (box_region \<circ> snd) (filter (\<lambda>w. fst w \<in> marked) (zip [0..<length boxes] boxes))))
       (sensitive_indices sensitive boxes)"

section \<open>Redaction\<close>

definition crop_imm :: "Rgba \<Rightarrow> nat \<Rightarrow> nat \<Rightarrow> nat \<Rightarrow> nat \<Rightarrow> Rgba" where
  "crop_imm im x y w h = \<lparr>img_w = w, img_h = h, pixels = (\<lambda>dx dy. pixels im (x + dx) (y + dy))\<rparr>"

text \<open>The two inner loops: the pixels of a patch, as far as they lie inside the image.\<close>

definition put_patch :: "Rgba \<Rightarrow> nat \<Rightarrow> nat \<Rightarrow> nat \<Rightarrow> nat \<Rightarrow> Rgba \<Rightarrow> Rgba" where
  "put_patch im x y w h patch =
     im\<lparr>pixels := (\<lambda>px py.
       if x \<le> px \<and> px < x + min w (img_w patch) \<and> y \<le> py \<and> py < y + min h (img_h patch) \<and> px < img_w im \<and> py < img_h im
       then pixels patch (px - x) (py - y) else pixels im px py)\<rparr>"

definition blur_region :: "(Rgba \<Rightarrow> Rgba) \<Rightarrow> SensitiveRegion \<Rightarrow> Rgba \<Rightarrow> Rgba" where
  "blur_region blur r im =
     (let x = as_u32 (max (i32 (reg_x r - 4)) 0); y = as_u32 (max (i32 (reg_y r - 4)) 0);
          w = min (as_u32 (i32 (reg_w r + 8))) (img_w im - x); h = min (as_u32 (i32 (reg_h r + 8))) (img_h im - y)
      in if w = 0 \<or> h = 0 then im else put_patch im x y w h (blur (crop_imm im x y w h)))"

record ('b, 'i) image_ops =
  decode :: "'b \<Rightarrow> 'i option"
  ocr :: "'i \<Rightarrow> OcrWordBox list option"
  to_rgba8 :: "'i \<Rightarrow> Rgba"
  blur8 :: "Rgba \<Rightarrow> Rgba"
  encode_png :: "Rgba \<Rightarrow> 'b option"
  ocr_feature :: bool

definition blur_pii_regions ::
    "(uchar \<Rightarrow> bool) \<Rightarrow> (utext \<Rightarrow> utext) \<Rightarrow> ('b, 'i) image_ops \<Rightarrow> 'b \<Rightarrow> PiiFilterLevel \<Rightarrow> ('b \<times> nat) option" where
  "blur_pii_regions alnum low ops data level =
     (if \<not> ocr_feature ops then Some (data, 0)
      else case decode ops data of
        None \<Rightarrow> Some (data, 0)
      | Some img \<Rightarrow>
          (case ocr ops img of
             None \<Rightarrow> Some (data, 0)
           | Some boxes \<Rightarrow>
               if boxes = [] then Some (data, 0)
               else do { regions \<leftarrow> detect_sensitive_regions (\<lambda>t. is_sensitive_segment_with_level alnum low t level) boxes;
                         if regions = [] then Some (data, 0)
                         else (case encode_png ops (fold (blur_region (blur8 ops)) regions (to_rgba8 ops img)) of
                                 None \<Rightarrow> Some (data, 0)
                               | Some out \<Rightarrow> Some (out, length regions)) }))"

section \<open>The gateway\<close>

definition sanitize_image_for_external_policy ::
    "(uchar \<Rightarrow> bool) \<Rightarrow> (utext \<Rightarrow> utext) \<Rightarrow> ('b, 'i) image_ops \<Rightarrow> 'b \<Rightarrow> PiiFilterLevel \<Rightarrow> ExternalDataPolicy \<Rightarrow> bool
      \<Rightarrow> 'b SanitizedImage option" where
  "sanitize_image_for_external_policy alnum low ops data level policy allow_unredacted =
     (let filter_level = resolve_filter_level level policy allow_unredacted
      in map_option (\<lambda>(d, n). \<lparr>image_data = d, metadata_stripped = True, redacted_regions = n\<rparr>)
           (if filter_level = Off then Some (data, 0) else blur_pii_regions alnum low ops data filter_level))"

definition prepare_image_for_external_with_override ::
    "(uchar \<Rightarrow> bool) \<Rightarrow> (utext \<Rightarrow> utext) \<Rightarrow> ('b, 'i) image_ops \<Rightarrow> PrivacyGateway \<Rightarrow> 'b \<Rightarrow> utext \<Rightarrow> utext \<Rightarrow> bool
      \<Rightarrow> (PrivacyDenied + 'b SanitizedImage) option" where
  "prepare_image_for_external_with_override alnum low ops g data app title allow_unredacted =
     (if \<not> is_permitted ocr_processing (consent_manager g) then Some (Inl NoConsent)
      else if is_sensitive_app low app then Some (Inl (SensitiveApp app))
      else if should_exclude low app title (excluded_apps (privacy_config g)) (excluded_app_patterns (privacy_config g))
                (excluded_title_patterns (privacy_config g)) (auto_exclude_sensitive (privacy_config g))
      then Some (Inl ExcludedByPolicy)
      else (let filter_level = resolve_filter_level (pii_filter_level g) (external_data_policy g) allow_unredacted
            in map_option (\<lambda>(d, n). Inr \<lparr>image_data = d, metadata_stripped = True, redacted_regions = n\<rparr>)
                 (if filter_level = Off then Some (data, 0) else blur_pii_regions alnum low ops data filter_level)))"

definition prepare_image_for_external ::
    "(uchar \<Rightarrow> bool) \<Rightarrow> (utext \<Rightarrow> utext) \<Rightarrow> ('b, 'i) image_ops \<Rightarrow> PrivacyGateway \<Rightarrow> 'b \<Rightarrow> utext \<Rightarrow> utext
      \<Rightarrow> (PrivacyDenied + 'b SanitizedImage) option" where
  "prepare_image_for_external alnum low ops g data app title =
     prepare_image_for_external_with_override alnum low ops g data app title False"

definition prepare_text_for_external ::
    "(uchar \<Rightarrow> bool) \<Rightarrow> (utext \<Rightarrow> utext) \<Rightarrow> PrivacyGateway \<Rightarrow> utext list \<Rightarrow> (PrivacyDenied + utext list) option" where
  "prepare_text_for_external alnum low g texts =
     (if \<not> is_permitted ocr_processing (consent_manager g) then Some (Inl NoConsent)
      else map_option Inr (those (map (\<lambda>t. sanitize_title_with_level alnum low t (effective_filter_level g)) texts)))"

end
