(* ===== verification/PiiScan.thy ===== *)
theory PiiScan
  imports PiiFilter
begin

text \<open>
  What a mask that is a scanning loop leaves behind. The locale \<open>clean_scanner\<close> states what a matcher has to promise so that
  nothing it would recognise is left in the output of its loop; the matchers of \<open>mask_ssn\<close> and \<open>mask_passport\<close> are
  instances of it, so their output holds no social security number and no passport number that stands alone.
\<close>

section \<open>Clean output\<close>

fun clean :: "matcher \<Rightarrow> uchar option \<Rightarrow> utext \<Rightarrow> bool" where
  "clean m p [] = True"
| "clean m p (c # cs) = (m p (c # cs) = None \<and> clean m (Some c) cs)"

definition prev_of :: "uchar option \<Rightarrow> utext \<Rightarrow> uchar option" where
  "prev_of p a = (if a = [] then p else Some (last a))"

lemma prev_of_simps [simp]: "prev_of p [] = p" "prev_of p (a @ [c]) = Some c" "prev_of p (c # a) = prev_of (Some c) a"
  by (simp_all add: prev_of_def)

lemma clean_append: "clean m p (a @ b) \<Longrightarrow> clean m (prev_of p a) b"
proof (induction a arbitrary: p)
  case (Cons c a)
  then show ?case by auto
qed simp

lemma clean_at: "clean m p (a @ c # b) \<Longrightarrow> m (prev_of p a) (c # b) = None"
  using clean_append [of m p a "c # b"] by simp

locale clean_scanner =
  fixes m :: matcher and body :: "uchar \<Rightarrow> bool" and start :: "uchar \<Rightarrow> bool"
  assumes bracket: "\<not> body 91"
    and run: "m p t = None \<longleftrightarrow> m p (takeWhile body t) = None"
    and starts: "m p (c # cs) \<noteq> None \<Longrightarrow> start c \<and> body c"
    and nothing: "m p [] = None"
    and stops: "m p (c # cs) = Some (k, r) \<Longrightarrow> 0 < k \<and> (drop (k - 1) cs = [] \<or> \<not> start (hd (drop (k - 1) cs)))"
    and replaced: "m p (c # cs) = Some (k, r) \<Longrightarrow>
      (\<exists>r'. r = 91 # r' @ [93]) \<and> (\<forall>j q x. j < length r \<longrightarrow> m q (drop j r @ x) = None)"
    and whole: "m p (x @ y) = None \<Longrightarrow> x \<noteq> [] \<Longrightarrow> m (Some (last x)) y \<noteq> None \<Longrightarrow> m p x = None"
begin

lemma not_start: "\<not> start c \<Longrightarrow> m p (c # cs) = None"
  using starts by blast

lemma head_copied: "\<not> start c \<Longrightarrow> scan m p (c # cs) = c # scan m (Some c) cs"
  by (simp add: not_start)

text \<open>The body characters at the front of the output are those of the input, or those in front of a match.\<close>

lemma output_run:
  "\<exists>x y. t = x @ y \<and> takeWhile body (scan m q t) = x \<and> list_all body x
     \<and> (y = [] \<or> \<not> body (hd y) \<or> m (prev_of q x) y \<noteq> None)"
proof (induction t arbitrary: q)
  case (Cons c cs)
  show ?case
  proof (cases "m q (c # cs)")
    case None
    show ?thesis
    proof (cases "body c")
      case True
      obtain x y where "cs = x @ y" "takeWhile body (scan m (Some c) cs) = x" "list_all body x"
        "y = [] \<or> \<not> body (hd y) \<or> m (prev_of (Some c) x) y \<noteq> None"
        using Cons.IH by blast
      then show ?thesis using None True by (intro exI [of _ "c # x"] exI [of _ y]) simp
    qed (use None in auto)
  next
    case (Some kr)
    then obtain k r where "m q (c # cs) = Some (k, r)" by (cases kr) auto
    moreover then obtain r' where "r = 91 # r' @ [93]" using replaced by blast
    ultimately show ?thesis using bracket by (intro exI [of _ "[]"] exI [of _ "c # cs"]) simp
  qed
qed simp

lemma copied_clean:
  assumes "m p (c # cs) = None"
  shows "m p (c # scan m (Some c) cs) = None"
proof (cases "body c")
  case False
  then show ?thesis using starts [of p c "scan m (Some c) cs"] by blast
next
  case True
  obtain x y where xy: "cs = x @ y" "takeWhile body (scan m (Some c) cs) = x" "list_all body x"
    "y = [] \<or> \<not> body (hd y) \<or> m (prev_of (Some c) x) y \<noteq> None"
    using output_run by blast
  have "m p (c # x) = None"
  proof (cases "m (Some (last (c # x))) y = None")
    case True
    then have "y = [] \<or> \<not> body (hd y)" using xy(4) by (auto simp: prev_of_def split: if_splits)
    then have "takeWhile body (x @ y) = x" using xy(3) by (cases y) (auto simp: takeWhile_append list_all_iff)
    then show ?thesis using run [of p "c # cs"] assms \<open>body c\<close> xy(1) by simp
  next
    case False
    then show ?thesis using whole [of p "c # x" y] assms xy(1) by simp
  qed
  then show ?thesis using run [of p "c # scan m (Some c) cs"] True xy(2) by simp
qed

lemma clean_replacement:
  "(\<And>j q x. j < length r \<Longrightarrow> m q (drop j r @ x) = None) \<Longrightarrow> clean m (prev_of p r) out \<Longrightarrow> clean m p (r @ out)"
proof (induction r arbitrary: p)
  case (Cons c r)
  have "m q (drop j r @ x) = None" if "j < length r" for j q x
    using Cons.prems(1) [of "Suc j" q x] that by simp
  then have "clean m (Some c) (r @ out)" using Cons.IH [of "Some c"] Cons.prems(2) by simp
  then show ?case using Cons.prems(1) [of 0 p out] by simp
qed simp

lemma scan_clean: "clean m p (scan m p t)"
proof (induction t arbitrary: p rule: length_induct)
  case (1 t)
  show ?case
  proof (cases t)
    case (Cons c cs)
    show ?thesis
    proof (cases "m p t")
      case None
      then show ?thesis using 1 copied_clean [of p c cs] Cons by simp
    next
      case (Some kr)
      then obtain k r where kr: "m p (c # cs) = Some (k, r)" by (cases kr) (auto simp: Cons)
      define q where "q = Some (last (c # take (k - 1) cs))"
      define rest where "rest = drop (k - 1) cs"
      have "clean m q (scan m q rest)" using 1 Cons by (simp add: rest_def)
      moreover have "rest = [] \<or> \<not> start (hd rest)" using stops [OF kr] by (simp add: rest_def)
      then have "clean m (Some 93) (scan m q rest)"
        using calculation by (cases rest) (auto simp: not_start)
      moreover have "\<exists>r'. r = 91 # r' @ [93]" using replaced [OF kr] by simp
      moreover have "m x (drop j r @ y) = None" if "j < length r" for j x y
        using replaced [OF kr] that by simp
      ultimately have "clean m p (r @ scan m q rest)"
        by (intro clean_replacement) (auto simp: prev_of_def)
      then show ?thesis using kr Cons by (simp add: q_def rest_def)
    qed
  qed simp
qed

end

section \<open>Tokens that stand alone\<close>

text \<open>
  A token stands alone when neither the character before it nor the one after it belongs to the class that would make
  it part of a longer word.
\<close>

definition token_at :: "(utext \<Rightarrow> bool) \<Rightarrow> (uchar \<Rightarrow> bool) \<Rightarrow> uchar option \<Rightarrow> utext \<Rightarrow> bool" where
  "token_at shape word p t \<longleftrightarrow> (\<exists>s b. t = s @ b \<and> shape s \<and> \<not> prev_is word p \<and> (b = [] \<or> \<not> word (hd b)))"

definition stands_alone :: "(utext \<Rightarrow> bool) \<Rightarrow> (uchar \<Rightarrow> bool) \<Rightarrow> utext \<Rightarrow> bool" where
  "stands_alone shape word t \<longleftrightarrow>
     (\<exists>a s b. t = a @ s @ b \<and> shape s \<and> (a = [] \<or> \<not> word (last a)) \<and> (b = [] \<or> \<not> word (hd b)))"

lemma token_atE:
  assumes "token_at shape word p t"
  obtains s b where "t = s @ b" "shape s" "\<not> prev_is word p" "b = [] \<or> \<not> word (hd b)"
  using assms unfolding token_at_def by blast

lemma token_atI: "t = s @ b \<Longrightarrow> shape s \<Longrightarrow> \<not> prev_is word p \<Longrightarrow> b = [] \<or> \<not> word (hd b) \<Longrightarrow> token_at shape word p t"
  unfolding token_at_def by blast

locale isolated_token =
  fixes m :: matcher and shape :: "utext \<Rightarrow> bool" and word :: "uchar \<Rightarrow> bool" and body :: "uchar \<Rightarrow> bool"
    and start :: "uchar \<Rightarrow> bool" and rep :: utext
  assumes no_bracket: "\<not> body 91"
    and matcher: "m p t = None \<longleftrightarrow> \<not> token_at shape word p t"
    and matched: "m p t = Some (k, r) \<Longrightarrow> r = rep \<and> (\<exists>s b. t = s @ b \<and> shape s \<and> k = length s \<and> (b = [] \<or> \<not> word (hd b)))"
    and shape_body: "shape s \<Longrightarrow> list_all body s"
    and shape_ends: "shape s \<Longrightarrow> s \<noteq> [] \<and> start (hd s) \<and> word (last s)"
    and classes: "start c \<Longrightarrow> word c" "word c \<Longrightarrow> body c"
    and rep_brackets: "\<exists>r'. rep = 91 # r' @ [93]"
    and rep_none: "j < length rep \<Longrightarrow> m q (drop j rep @ x) = None"
begin

lemma token_at_run: "token_at shape word p (takeWhile body t) \<longleftrightarrow> token_at shape word p t"
proof
  assume "token_at shape word p t"
  then obtain s b where sb: "t = s @ b" "shape s" "\<not> prev_is word p" "b = [] \<or> \<not> word (hd b)" by (rule token_atE)
  moreover then have "takeWhile body t = s @ takeWhile body b" using shape_body [of s] by (auto simp: list_all_iff)
  moreover have "takeWhile body b = [] \<or> \<not> word (hd (takeWhile body b))" using sb(4) by (cases b) auto
  ultimately show "token_at shape word p (takeWhile body t)" by (intro token_atI)
next
  assume "token_at shape word p (takeWhile body t)"
  then obtain s b where sb: "takeWhile body t = s @ b" "shape s" "\<not> prev_is word p" "b = [] \<or> \<not> word (hd b)" by (rule token_atE)
  moreover have "t = s @ b @ dropWhile body t" using sb(1) takeWhile_dropWhile_id [of body t] by simp
  moreover have "b @ dropWhile body t = [] \<or> \<not> word (hd (b @ dropWhile body t))"
    using sb(4) hd_dropWhile [of body t] classes(2) by (cases b) auto
  ultimately show "token_at shape word p t" by (intro token_atI)
qed

lemma token_in_front:
  assumes "m p (x @ y) = None" and "m (Some (last x)) y \<noteq> None"
  shows "m p x = None"
proof (rule ccontr)
  assume "m p x \<noteq> None"
  then have "token_at shape word p x" by (simp add: matcher)
  then obtain s b where sb: "x = s @ b" "shape s" "\<not> prev_is word p" "b = [] \<or> \<not> word (hd b)" by (rule token_atE)
  have "b \<noteq> []"
    using assms(2) sb shape_ends [of s] by (auto simp: matcher prev_is_def elim: token_atE)
  then have "token_at shape word p (x @ y)" using sb by (intro token_atI [of _ s "b @ y"]) auto
  then show False using assms(1) by (simp add: matcher)
qed

end

sublocale isolated_token \<subseteq> clean_scanner m body start
proof
  show "m p t = None \<longleftrightarrow> m p (takeWhile body t) = None" for p t
    by (simp add: matcher token_at_run)
  show "start c \<and> body c" if "m p (c # cs) \<noteq> None" for p c cs
    using that shape_ends classes by (auto simp: matcher elim!: token_atE) (metis hd_append2 list.sel(1))+
  show "m p [] = None" for p
    using shape_ends by (auto simp: matcher elim!: token_atE)
  show "0 < k \<and> (drop (k - 1) cs = [] \<or> \<not> start (hd (drop (k - 1) cs)))" if m: "m p (c # cs) = Some (k, r)" for p c cs k r
  proof -
    obtain s b where sb: "c # cs = s @ b" "shape s" "k = length s" "b = [] \<or> \<not> word (hd b)" using matched [OF m] by blast
    moreover then have "0 < k" using shape_ends by simp
    moreover then have "drop (k - 1) cs = b" using sb by (cases s) auto
    ultimately show ?thesis using classes(1) by blast
  qed
  show "(\<exists>r'. r = 91 # r' @ [93]) \<and> (\<forall>j q x. j < length r \<longrightarrow> m q (drop j r @ x) = None)"
    if "m p (c # cs) = Some (k, r)" for p c cs k r
    using matched [OF that] rep_brackets rep_none by auto
qed (use no_bracket token_in_front in blast)+

context isolated_token
begin

lemma none_stands_alone: "\<not> stands_alone shape word (scan m None t)"
proof
  assume "stands_alone shape word (scan m None t)"
  then obtain a s b where out: "scan m None t = a @ s @ b" "shape s" "a = [] \<or> \<not> word (last a)" "b = [] \<or> \<not> word (hd b)"
    unfolding stands_alone_def by blast
  obtain c cs where s: "s = c # cs" using shape_ends [OF out(2)] by (cases s) auto
  have "m (prev_of None a) (s @ b) = None"
    using clean_at [of m None a c "cs @ b"] scan_clean [of None t] out(1) s by simp
  moreover have "token_at shape word (prev_of None a) (s @ b)"
    using out by (intro token_atI) (auto simp: prev_is_def prev_of_def)
  ultimately show False by (simp add: matcher)
qed

end

section \<open>Social security numbers\<close>

definition ssn_char :: "uchar \<Rightarrow> bool" where "ssn_char c \<longleftrightarrow> is_digit c \<or> c = 45"

lemma ssn_shape_explode:
  "ssn_shape t \<longleftrightarrow> (\<exists>a b c d e f g h i. t = [a, b, c, 45, d, e, 45, f, g, h, i]
     \<and> list_all is_digit [a, b, c, d, e, f, g, h, i])"
proof
  assume s: "ssn_shape t"
  then have "length t = Suc (Suc (Suc (Suc (Suc (Suc (Suc (Suc (Suc (Suc (Suc 0))))))))))" by (simp add: ssn_shape_def)
  then show "\<exists>a b c d e f g h i. t = [a, b, c, 45, d, e, 45, f, g, h, i] \<and> list_all is_digit [a, b, c, d, e, f, g, h, i]"
    using s by (simp only: length_Suc_conv) (auto simp: ssn_shape_def)
qed (auto simp: ssn_shape_def)

lemma ssn_shape_length: "ssn_shape s \<Longrightarrow> length s = 11"
  by (simp add: ssn_shape_def)

lemma ssn_matcher_eq: "ssn_matcher p t = (if token_at ssn_shape is_digit p t then Some (11, lit ''[SSN]'') else None)"
proof -
  have "11 \<le> length t \<and> ssn_shape (take 11 t) \<and> \<not> prev_is is_digit p \<and> \<not> (11 < length t \<and> is_digit (t ! 11))
      \<longleftrightarrow> token_at ssn_shape is_digit p t" (is "?l \<longleftrightarrow> _")
  proof
    assume ?l
    moreover then have "t = take 11 t @ drop 11 t" "drop 11 t = [] \<or> \<not> is_digit (hd (drop 11 t))" by (auto simp: hd_drop_conv_nth)
    ultimately show "token_at ssn_shape is_digit p t" by (intro token_atI [of _ "take 11 t" "drop 11 t"]) auto
  next
    assume "token_at ssn_shape is_digit p t"
    then obtain s b where "t = s @ b" "ssn_shape s" "\<not> prev_is is_digit p" "b = [] \<or> \<not> is_digit (hd b)" by (rule token_atE)
    moreover then have "length s = 11" by (simp add: ssn_shape_def)
    ultimately show ?l by (auto simp: nth_append hd_conv_nth)
  qed
  then show ?thesis unfolding ssn_matcher_def prev_is_def by simp
qed

lemma ssn_not_digit: "\<not> is_digit (hd t) \<Longrightarrow> ssn_matcher q t = None"
  by (auto simp: ssn_matcher_eq token_at_def ssn_shape_explode)

interpretation ssn: isolated_token ssn_matcher ssn_shape is_digit ssn_char is_digit "lit ''[SSN]''"
proof
  show "r = lit ''[SSN]'' \<and> (\<exists>s b. t = s @ b \<and> ssn_shape s \<and> k = length s \<and> (b = [] \<or> \<not> is_digit (hd b)))"
    if "ssn_matcher p t = Some (k, r)" for p t k r
  proof -
    have "token_at ssn_shape is_digit p t" "k = 11" "r = lit ''[SSN]''" using that by (auto simp: ssn_matcher_eq split: if_splits)
    then show ?thesis using ssn_shape_length by (metis token_atE)
  qed
  show "ssn_matcher q (drop j (lit ''[SSN]'') @ x) = None" if "j < length (lit ''[SSN]'')" for j q x
    using that by (intro ssn_not_digit) (auto simp: lit_def less_Suc_eq is_digit_def)
qed (auto simp: ssn_matcher_eq ssn_char_def is_digit_def ssn_shape_explode lit_def)

section \<open>Passport numbers\<close>

definition passport_shape :: "utext \<Rightarrow> bool" where
  "passport_shape s \<longleftrightarrow> s \<noteq> [] \<and> is_alphabetic (hd s) \<and> list_all is_digit (List.tl s) \<and> (length s = 8 \<or> length s = 9)"

lemma passport_matcher_eq:
  assumes alnum: "\<And>c. c < 128 \<Longrightarrow> alnum c = is_alnum c"
  shows "passport_matcher alnum p t =
    (if token_at passport_shape alnum p t then Some (1 + length (takeWhile is_digit (List.tl t)), lit ''[PASSPORT]'') else None)"
proof (cases t)
  case (Cons c cs)
  let ?d = "takeWhile is_digit cs" and ?r = "dropWhile is_digit cs"
  have digit: "is_digit x \<Longrightarrow> alnum x" for x using alnum [of x] by (auto simp: is_digit_def is_alnum_def)
  have "token_at passport_shape alnum p t \<longleftrightarrow>
      is_alphabetic c \<and> \<not> prev_is alnum p \<and> 7 \<le> length ?d \<and> length ?d \<le> 8 \<and> (?r = [] \<or> \<not> alnum (hd ?r))" (is "_ \<longleftrightarrow> ?l")
  proof
    assume "token_at passport_shape alnum p t"
    then obtain s b where sb: "t = s @ b" "passport_shape s" "\<not> prev_is alnum p" "b = [] \<or> \<not> alnum (hd b)" by (rule token_atE)
    then obtain ds where ds: "s = c # ds" "cs = ds @ b" "list_all is_digit ds" "is_alphabetic c" "length ds = 7 \<or> length ds = 8"
      using Cons by (cases s) (auto simp: passport_shape_def)
    have "takeWhile is_digit b = []" using sb(4) digit by (cases b) auto
    then have "?d = ds" "?r = b" using ds(2,3) sb(4) digit
      by (auto simp: list_all_iff takeWhile_append dropWhile_append takeWhile_eq_Nil_iff dropWhile_eq_self_iff)
    then show ?l using sb ds by auto
  next
    assume ?l
    moreover have "t = (c # ?d) @ ?r" using Cons by simp
    moreover have "list_all is_digit ?d" by (auto simp: list_all_iff dest: set_takeWhileD)
    ultimately show "token_at passport_shape alnum p t"
      by (intro token_atI [of _ "c # ?d" ?r]) (auto simp: passport_shape_def)
  qed
  moreover have "length ?d \<le> length cs" by (rule length_takeWhile_le)
  ultimately show ?thesis using Cons by (cases ?r) (auto simp: passport_matcher_def simp del: dropWhile_eq_Nil_conv)
qed (auto simp: passport_matcher_def token_at_def passport_shape_def)

lemma passport_isolated:
  assumes alnum: "\<And>c. c < 128 \<Longrightarrow> alnum c = is_alnum c"
  shows "isolated_token (passport_matcher alnum) passport_shape alnum alnum is_alphabetic (lit ''[PASSPORT]'')"
proof
  have digit: "is_digit x \<Longrightarrow> alnum x" for x using alnum [of x] by (auto simp: is_digit_def is_alnum_def)
  have letter: "is_alphabetic x \<Longrightarrow> alnum x" for x using alnum [of x] by (auto simp: is_alphabetic_def is_upper_def is_alnum_def)
  show "\<not> alnum 91" using alnum [of 91] by (simp add: is_alnum_def is_digit_def is_alphabetic_def is_upper_def)
  show "passport_matcher alnum p t = None \<longleftrightarrow> \<not> token_at passport_shape alnum p t" for p t
    by (simp add: passport_matcher_eq alnum)
  show "r = lit ''[PASSPORT]'' \<and> (\<exists>s b. t = s @ b \<and> passport_shape s \<and> k = length s \<and> (b = [] \<or> \<not> alnum (hd b)))"
    if m: "passport_matcher alnum p t = Some (k, r)" for p t k r
  proof -
    have "token_at passport_shape alnum p t" and kr: "k = 1 + length (takeWhile is_digit (List.tl t))" "r = lit ''[PASSPORT]''"
      using m by (auto simp: passport_matcher_eq alnum split: if_splits)
    then obtain s b where sb: "t = s @ b" "passport_shape s" "b = [] \<or> \<not> alnum (hd b)" by (blast elim: token_atE)
    have "takeWhile is_digit b = []" using sb(3) digit by (cases b) auto
    then have "takeWhile is_digit (List.tl t) = List.tl s"
      using sb(1,2) by (cases s) (auto simp: passport_shape_def list_all_iff takeWhile_append)
    then have "k = length s" using sb(2) kr(1) by (cases s) (auto simp: passport_shape_def)
    then show ?thesis using sb kr(2) by blast
  qed
  show "list_all alnum s" if "passport_shape s" for s
    using that digit letter by (cases s) (auto simp: passport_shape_def list_all_iff)
  show "s \<noteq> [] \<and> is_alphabetic (hd s) \<and> alnum (last s)" if "passport_shape s" for s
    using that digit by (cases s) (auto simp: passport_shape_def list_all_iff)
  show "is_alphabetic c \<Longrightarrow> alnum c" for c by (rule letter)
  show "\<exists>r'. lit ''[PASSPORT]'' = 91 # r' @ [93]" by (simp add: lit_def)
  show "passport_matcher alnum q (drop j (lit ''[PASSPORT]'') @ x) = None" if "j < length (lit ''[PASSPORT]'')" for j q x
    using that by (auto simp: passport_matcher_def lit_def less_Suc_eq is_digit_def Let_def is_alphabetic_def is_upper_def)
qed

end
