(* ===== verification/PiiTotal.thy ===== *)
theory PiiTotal
  imports PiiScan
begin

text \<open>
  When the masks return, and what the e-mail mask leaves behind. The e-mail mask slices \<open>chars[i..start]\<close> with a start that
  may lie before \<open>i\<close>; a text without closing brackets in which no at sign follows white space or an opening bracket
  is safe from that. The Korean identity numbers never panic; the key loops end; the bearer loop returns on ASCII.
\<close>

section \<open>Positions\<close>

lemma position_Some: "position p xs = Some k \<longleftrightarrow> k < length xs \<and> p (xs ! k) \<and> (\<forall>j<k. \<not> p (xs ! j))"
proof (induction xs arbitrary: k)
  case (Cons x xs)
  show ?case
  proof (cases k)
    case 0
    then show ?thesis by auto
  next
    case (Suc k')
    then show ?thesis using Cons.IH [of k'] by (auto simp: less_Suc_eq_0_disj)
  qed
qed simp

lemma position_None: "position p xs = None \<longleftrightarrow> (\<forall>x\<in>set xs. \<not> p x)"
  by (induction xs) auto

lemma rposition_Some: "rposition p xs = Some k \<Longrightarrow> k < length xs \<and> p (xs ! k) \<and> (\<forall>j. k < j \<longrightarrow> j < length xs \<longrightarrow> \<not> p (xs ! j))"
proof -
  assume "rposition p xs = Some k"
  then obtain l where l: "position p (rev xs) = Some l" and k: "k = length xs - 1 - l" by (auto simp: rposition_def)
  have "l < length xs" "p (rev xs ! l)" and first: "j < l \<Longrightarrow> \<not> p (rev xs ! j)" for j using l by (auto simp: position_Some)
  moreover have "\<not> p (xs ! j)" if "k < j" "j < length xs" for j
    using first [of "length xs - 1 - j"] that k \<open>l < length xs\<close> by (simp add: rev_nth)
  ultimately show ?thesis using k by (auto simp: rev_nth)
qed

lemma rposition_None: "rposition p xs = None \<longleftrightarrow> (\<forall>x\<in>set xs. \<not> p x)"
  by (simp add: rposition_def position_None)

section \<open>The bounds of an address\<close>

lemma email_end_bounds: "at < length cs \<Longrightarrow> at < email_end cs at \<and> email_end cs at \<le> length cs"
  by (auto simp: email_end_def position_Some split: option.splits)

lemma email_end_closed: "email_end cs at < length cs \<Longrightarrow> email_close (cs ! email_end cs at)"
proof (cases "position email_close (drop (at + 1) cs)")
  case (Some p)
  moreover then have "p < length (drop (at + 1) cs)" "email_close (drop (at + 1) cs ! p)" by (simp_all only: position_Some)
  ultimately show ?thesis by (simp add: email_end_def)
qed (simp add: email_end_def)

lemma email_end_next: "email_end cs at \<le> at + 1 \<Longrightarrow> at + 1 < length cs \<Longrightarrow> email_close (cs ! (at + 1))"
  by (auto simp: email_end_def position_Some split: option.splits)

lemma email_start_last:
  assumes "q < at" "at \<le> length cs" "email_open (cs ! q)"
  shows "q < email_start cs i at \<and> email_start cs i at \<le> at"
proof -
  have "cs ! q \<in> set (take at cs)" using assms by (auto simp: in_set_conv_nth)
  then obtain k where k: "rposition email_open (take at cs) = Some k" using assms(3) rposition_None by fastforce
  moreover have "\<not> k < q" "k < at" using rposition_Some [OF k] assms by auto
  ultimately show ?thesis by (simp add: email_start_def)
qed

lemma email_start_open:
  assumes "q < at" "at \<le> length cs" "email_open (cs ! q)"
  shows "email_open (cs ! (email_start cs i at - 1))"
proof -
  have "cs ! q \<in> set (take at cs)" using assms by (auto simp: in_set_conv_nth)
  then obtain k where "rposition email_open (take at cs) = Some k" using assms(3) rposition_None by fastforce
  then show ?thesis using rposition_Some [of email_open "take at cs" k] by (auto simp: email_start_def)
qed

lemma email_start_le: "i \<le> at \<Longrightarrow> at \<le> length cs \<Longrightarrow> email_start cs i at \<le> at"
  using rposition_Some by (fastforce simp: email_start_def split: option.splits)

lemma email_start_none: "(\<And>q. q < at \<Longrightarrow> \<not> email_open (cs ! q)) \<Longrightarrow> at \<le> length cs \<Longrightarrow> email_start cs i at = i"
  by (auto simp: email_start_def in_set_conv_nth dest!: rposition_Some split: option.splits)

lemma email_start_same: "q < at \<Longrightarrow> at \<le> length cs \<Longrightarrow> email_open (cs ! q) \<Longrightarrow> email_start cs i at = email_start cs i' at"
  using rposition_None [of email_open "take at cs"]
  by (fastforce simp: email_start_def in_set_conv_nth split: option.splits)

section \<open>Texts the e-mail mask is safe on\<close>

fun safe_from :: "uchar option \<Rightarrow> utext \<Rightarrow> bool" where
  "safe_from p [] = True"
| "safe_from p (c # cs) = (c \<noteq> 41 \<and> c \<noteq> 62 \<and> (c = 64 \<longrightarrow> \<not> prev_is email_open p) \<and> safe_from (Some c) cs)"

lemma safe_from_nth:
  "safe_from p cs \<Longrightarrow> j < length cs \<Longrightarrow> cs ! j \<noteq> 41 \<and> cs ! j \<noteq> 62 \<and> (cs ! j = 64 \<longrightarrow> 0 < j \<longrightarrow> \<not> email_open (cs ! (j - 1)))"
proof (induction cs arbitrary: p j)
  case (Cons c cs)
  show ?case
  proof (cases j)
    case (Suc k)
    show ?thesis
    proof (cases k)
      case 0
      then show ?thesis using Cons.prems Suc by (cases cs) (auto simp: prev_is_def)
    next
      case (Suc l)
      then show ?thesis using Cons.IH [of "Some c" k] Cons.prems \<open>j = Suc k\<close> by simp
    qed
  qed (use Cons.prems in simp)
qed simp

definition address_at :: "utext \<Rightarrow> nat \<Rightarrow> nat \<Rightarrow> bool" where
  "address_at cs i at \<longleftrightarrow> at > email_start cs i at \<and> email_end cs at > at + 1"

definition first_at :: "utext \<Rightarrow> nat \<Rightarrow> nat \<Rightarrow> bool" where
  "first_at cs i at \<longleftrightarrow> i \<le> at \<and> at < length cs \<and> cs ! at = 64 \<and> (\<forall>j. i \<le> j \<longrightarrow> j < at \<longrightarrow> cs ! j \<noteq> 64)"

text \<open>The slice in front of the next address is well formed.\<close>

definition slice_ok :: "utext \<Rightarrow> nat \<Rightarrow> bool" where
  "slice_ok cs i \<longleftrightarrow> (\<forall>at. first_at cs i at \<longrightarrow> i \<le> email_start cs i at \<or> \<not> address_at cs i at)"

lemma position_first_at:
  "position (\<lambda>c. c = 64) (drop i cs) = Some k \<Longrightarrow> i \<le> length cs \<Longrightarrow> first_at cs i (i + k)"
proof -
  assume "position (\<lambda>c. c = 64) (drop i cs) = Some k" "i \<le> length cs"
  then have k: "k < length cs - i" "cs ! (i + k) = 64" and "j < k \<Longrightarrow> cs ! (i + j) \<noteq> 64" for j
    by (auto simp: position_Some)
  then have "cs ! j \<noteq> 64" if "i \<le> j" "j < i + k" for j using that by (metis add_less_cancel_left le_Suc_ex)
  then show ?thesis using k by (auto simp: first_at_def)
qed

lemma no_at_sign: "position (\<lambda>c. c = 64) (drop i cs) = None \<Longrightarrow> i \<le> j \<Longrightarrow> \<not> first_at cs j at"
  using nth_mem [of "at - i" "drop i cs"] by (auto simp: position_None first_at_def)

lemma close_is_open: "email_close c \<Longrightarrow> c \<noteq> 41 \<Longrightarrow> c \<noteq> 62 \<Longrightarrow> email_open c"
  by (auto simp: email_close_def email_open_def)

lemma at_sign_plain: "\<not> email_close 64" "\<not> email_open 64"
  by (simp_all add: email_close_def email_open_def is_white_def)

lemma slice_ok_after:
  assumes safe: "safe_from None cs" and at: "at < length cs"
  shows "slice_ok cs (email_end cs at)"
  unfolding slice_ok_def
proof (intro allI impI)
  fix at'
  assume first: "first_at cs (email_end cs at) at'"
  let ?e = "email_end cs at"
  have e: "?e < length cs" "?e \<le> at'" "at' < length cs" "cs ! at' = 64" using first by (auto simp: first_at_def)
  then have c: "email_close (cs ! ?e)" using email_end_closed by blast
  then have "?e < at'" using e at_sign_plain by (metis le_neq_implies_less)
  moreover have "email_open (cs ! ?e)" using c safe_from_nth [OF safe e(1)] close_is_open by blast
  ultimately have "?e < email_start cs ?e at'" using email_start_last e(3) by (metis less_imp_le)
  then show "?e \<le> email_start cs ?e at' \<or> \<not> address_at cs ?e at'" by simp
qed

lemma slice_ok_copied:
  assumes safe: "safe_from None cs" and first: "first_at cs i at" and no: "\<not> address_at cs i at"
  shows "slice_ok cs (i + 1)"
  unfolding slice_ok_def
proof (intro allI impI)
  fix at'
  assume "first_at cs (i + 1) at'"
  then have at': "i + 1 \<le> at'" "at' < length cs" "cs ! at' = 64" and least: "i + 1 \<le> j \<Longrightarrow> j < at' \<Longrightarrow> cs ! j \<noteq> 64" for j
    by (auto simp: first_at_def)
  have at: "i \<le> at" "at < length cs" "cs ! at = 64" and first': "i \<le> j \<Longrightarrow> j < at \<Longrightarrow> cs ! j \<noteq> 64" for j
    using first by (auto simp: first_at_def)
  have late: "i + 1 \<le> email_start cs (i + 1) at' \<or> \<not> address_at cs (i + 1) at'" if "q < at'" "i \<le> q" "email_open (cs ! q)" for q
    using email_start_last [of q at' cs "i + 1"] that at' by simp
  consider (same) "i < at" "at' = at" | (copied) "at = i"
    using at(1) at(3) at'(1,3) least [of at] first' [of at'] by force
  then show "i + 1 \<le> email_start cs (i + 1) at' \<or> \<not> address_at cs (i + 1) at'"
  proof cases
    case same
    then show ?thesis using no email_start_none [of at cs "i + 1"] email_start_same [of _ at cs i "i + 1"] at
      unfolding address_at_def by (metis less_imp_le order_refl)
  next
    case copied
    show ?thesis
    proof (cases "\<exists>q<i. email_open (cs ! q)")
      case True
      then obtain q where q: "q < at" "email_open (cs ! q)" using copied by blast
      have "email_start cs i at \<noteq> at"
        using email_start_open [of q at cs i] q at safe_from_nth [OF safe at(2)] by auto
      then have "\<not> email_end cs at > at + 1"
        using email_start_last [of q at cs i] q at no by (auto simp: address_at_def)
      then have "email_close (cs ! (at + 1))" using email_end_next at' copied by simp
      moreover then have "at + 1 < at'" using at' copied at_sign_plain by (metis le_neq_implies_less)
      ultimately show ?thesis using late [of "at + 1"] close_is_open safe_from_nth [OF safe, of "at + 1"] at' copied by simp
    next
      case False
      then show ?thesis using late email_start_none [of at' cs "i + 1"] at' by (metis less_imp_le not_less order_refl)
    qed
  qed
qed

lemma mask_emails_from_returns:
  assumes "safe_from None cs" and "slice_ok cs i"
  shows "\<exists>r. mask_emails_from cs i = Some r"
  using assms(2)
proof (induction "length cs - i" arbitrary: i rule: less_induct)
  case less
  show ?case
  proof (cases "i < length cs")
    case True
    show ?thesis
    proof (cases "position (\<lambda>c. c = 64) (drop i cs)")
      case None
      then have "\<not> first_at cs (i + 1) at" for at
        using no_at_sign [OF None] by simp
      then have "slice_ok cs (i + 1)" by (simp add: slice_ok_def)
      then obtain r where "mask_emails_from cs (i + 1) = Some r"
        using less.hyps [of "i + 1"] True by (meson diff_less_mono2 less_add_one)
      then show ?thesis using True None by (subst mask_emails_from.simps) simp
    next
      case (Some k)
      have first: "first_at cs i (i + k)" using position_first_at [OF Some] True by simp
      then have at: "i + k < length cs" by (simp add: first_at_def)
      show ?thesis
      proof (cases "address_at cs i (i + k)")
        case addr: True
        have "\<not> email_start cs i (i + k) < i" using less.prems first addr by (auto simp: slice_ok_def)
        moreover have "length cs - email_end cs (i + k) < length cs - i"
          using email_end_bounds [OF at] True by linarith
        then obtain r where "mask_emails_from cs (email_end cs (i + k)) = Some r"
          using less.hyps slice_ok_after [OF assms(1) at] by blast
        ultimately show ?thesis using True Some addr
          by (subst mask_emails_from.simps) (simp add: address_at_def Let_def)
      next
        case False
        obtain r where "mask_emails_from cs (i + 1) = Some r"
          using less.hyps [of "i + 1"] slice_ok_copied [OF assms(1) first False] True by (meson diff_less_mono2 less_add_one)
        then show ?thesis using True Some False
          by (subst mask_emails_from.simps) (auto simp: address_at_def Let_def)
      qed
    qed
  qed (simp add: mask_emails_from.simps)
qed

lemma mask_emails_returns: "safe_from None t \<Longrightarrow> \<exists>r. mask_emails t = Some r"
  unfolding mask_emails_def by (rule mask_emails_from_returns) (auto simp: slice_ok_def)

section \<open>What the e-mail mask leaves behind\<close>

text \<open>Every at sign has a character of an address on both sides.\<close>

definition all_addresses :: "utext \<Rightarrow> bool" where
  "all_addresses t \<longleftrightarrow> list_all (\<lambda>j. t ! j = 64 \<longrightarrow> 0 < j \<and> \<not> email_open (t ! (j - 1)) \<and> j + 1 < length t \<and> \<not> email_close (t ! (j + 1)))
     [0..<length t]"

lemma all_addresses_at:
  assumes all: "all_addresses cs" and at: "first_at cs i at" "i < at"
  shows "address_at cs i at"
proof -
  have j: "at < length cs" "cs ! at = 64" using at by (auto simp: first_at_def)
  then have nb: "0 < at" "\<not> email_open (cs ! (at - 1))" "at + 1 < length cs" "\<not> email_close (cs ! (at + 1))"
    using all by (auto simp: all_addresses_def list_all_iff)
  have "email_end cs at \<noteq> at + 1" using email_end_closed [of cs at] nb by auto
  moreover have "email_start cs i at \<noteq> at"
  proof (cases "\<exists>q<at. email_open (cs ! q)")
    case True
    then show ?thesis using email_start_open [of _ at cs i] j nb by fastforce
  next
    case False
    then show ?thesis using email_start_none [of at cs i] j at(2) by auto
  qed
  ultimately show ?thesis
    using email_end_bounds [OF j(1)] email_start_le [of i at cs] at(2) j(1) by (simp add: address_at_def)
qed

lemma mask_emails_from_clean:
  assumes all: "all_addresses cs"
  shows "mask_emails_from cs i = Some r \<Longrightarrow> (i < length cs \<Longrightarrow> cs ! i \<noteq> 64) \<Longrightarrow> 64 \<notin> set r"
proof (induction "length cs - i" arbitrary: i r rule: less_induct)
  case less
  show ?case
  proof (cases "i < length cs")
    case True
    show ?thesis
    proof (cases "position (\<lambda>c. c = 64) (drop i cs)")
      case None
      then obtain r' where r': "mask_emails_from cs (i + 1) = Some r'" "r = cs ! i # r'"
        using less.prems(1) True by (subst (asm) mask_emails_from.simps) auto
      moreover have "i + 1 < length cs \<Longrightarrow> cs ! (i + 1) \<noteq> 64"
        using None nth_mem [of 1 "drop i cs"] by (auto simp: position_None)
      ultimately show ?thesis using less.hyps [of "i + 1" r'] less.prems(2) True by simp
    next
      case (Some k)
      have first: "first_at cs i (i + k)" using position_first_at [OF Some] True by simp
      then have at: "i + k < length cs" and least: "i \<le> j \<Longrightarrow> j < i + k \<Longrightarrow> cs ! j \<noteq> 64" for j by (auto simp: first_at_def)
      have "k \<noteq> 0" using first less.prems(2) by (auto simp: first_at_def intro!: gr0I)
      then have addr: "address_at cs i (i + k)" using all_addresses_at [OF all first] by simp
      let ?st = "email_start cs i (i + k)" and ?en = "email_end cs (i + k)"
      obtain r' where r': "mask_emails_from cs ?en = Some r'" "r = take (?st - i) (drop i cs) @ lit ''[EMAIL]'' @ r'"
        using less.prems(1) True Some addr
        by (subst (asm) mask_emails_from.simps) (auto simp: address_at_def Let_def split: if_splits)
      have "64 \<notin> set r'"
        using less.hyps [of ?en r'] r'(1) email_end_bounds [OF at] email_end_closed [of cs "i + k"] at_sign_plain True by fastforce
      moreover have "64 \<notin> set (take (?st - i) (drop i cs))"
        using least addr at by (auto simp: in_set_conv_nth address_at_def)
      ultimately show ?thesis using r'(2) by (simp add: lit_def)
    qed
  next
    case False
    then show ?thesis using less.prems(1) by (simp add: mask_emails_from.simps)
  qed
qed

section \<open>The other masks return\<close>

lemma kr_needle_returns: "kr_needle a b \<noteq> None"
proof -
  have "\<exists>x y. split_bytes (byte_len a - 6) a = Some (x, y)" if "byte_len a \<ge> 6" "list_all is_digit (take 6 (rev a))"
  proof -
    let ?n = "length a - 6"
    have d: "list_all is_digit (drop ?n a)" using that(2) by (simp add: take_rev)
    then have l: "byte_len (drop ?n a) = length (drop ?n a)" by (intro byte_len_ascii) (auto simp: list_all_iff digit_ascii)
    have "6 \<le> length a"
    proof (rule ccontr)
      assume "\<not> 6 \<le> length a"
      then show False using l that(1) by simp
    qed
    then have "byte_len a - 6 = byte_len (take ?n a)" using l byte_len_simps(3) [of "take ?n a" "drop ?n a"] by simp
    then show ?thesis using split_bytes_append [of "take ?n a" "drop ?n a"] by auto
  qed
  moreover have "\<exists>x y. split_bytes 7 b = Some (x, y)" if "byte_len b \<ge> 7" "list_all is_digit (take 7 b)"
  proof -
    have l: "byte_len (take 7 b) = length (take 7 b)" using that(2) by (intro byte_len_ascii) (auto simp: list_all_iff digit_ascii)
    have "7 \<le> length b"
    proof (rule ccontr)
      assume "\<not> 7 \<le> length b"
      then show False using l that(1) by simp
    qed
    then have "byte_len (take 7 b) = 7" using l by simp
    then show ?thesis using split_bytes_append [of "take 7 b" "drop 7 b"] by auto
  qed
  ultimately show ?thesis by (auto simp: kr_needle_def split: option.splits)
qed

lemma mask_korean_id_returns: "\<exists>r. mask_korean_id t = Some r"
proof -
  have "\<exists>r. kr_windows ps t = Some r" for ps t
    by (induction ps t rule: kr_windows.induct) (auto simp: kr_needle_returns split: option.splits)
  then show ?thesis by (simp add: mask_korean_id_def)
qed

text \<open>A replaced key makes the text shorter, because the prefix and the eight bytes are longer than the marker.\<close>

lemma byte_len_split: "byte_len (takeWhile p t) + byte_len (dropWhile p t) = byte_len t"
  by (metis byte_len_simps(3) takeWhile_dropWhile_id)

lemma byte_len_API_KEY: "byte_len (lit ''[API_KEY]'') = 9"
  by (simp add: lit_def utf8_len_def)

lemma api_loop_returns:
  assumes "2 \<le> byte_len pre"
  shows "\<exists>r. api_loop pre t = Some r"
proof (induction "byte_len t" arbitrary: t rule: less_induct)
  case less
  show ?case
  proof (cases "find_sub pre t")
    case None
    then show ?thesis by (simp add: api_loop.simps)
  next
    case (Some ab)
    then obtain a b where ab: "find_sub pre t = Some (a, b)" by (cases ab) auto
    let ?k = "takeWhile (\<lambda>c. \<not> token_stop c) b" and ?r = "dropWhile (\<lambda>c. \<not> token_stop c) b"
    show ?thesis
    proof (cases "8 \<le> byte_len ?k")
      case True
      then have "byte_len (a @ lit ''[API_KEY]'' @ ?r) < byte_len t"
        using find_sub_Some [OF ab] assms byte_len_split [of "\<lambda>c. \<not> token_stop c" b] by (simp add: byte_len_API_KEY)
      then show ?thesis using less [of "a @ lit ''[API_KEY]'' @ ?r"] ab True by (simp add: api_loop.simps [of pre t])
    next
      case False
      then show ?thesis using ab by (simp add: api_loop.simps [of pre t])
    qed
  qed
qed

lemma api_prefix_loops_returns: "(\<And>p. p \<in> set ps \<Longrightarrow> 2 \<le> byte_len p) \<Longrightarrow> \<exists>r. api_prefix_loops ps t = Some r"
proof (induction ps arbitrary: t)
  case (Cons p ps)
  then obtain r where "api_loop p t = Some r" using api_loop_returns [of p t] by auto
  then show ?case using Cons by simp
qed simp

lemma api_prefixes_long: "p \<in> set api_prefixes \<Longrightarrow> 2 \<le> byte_len p"
  by (auto simp: api_prefixes_def lit_def utf8_len_def)

section \<open>Every level returns on plain text\<close>

definition ascii :: "utext \<Rightarrow> bool" where "ascii t \<longleftrightarrow> list_all (\<lambda>c. c < 128) t"

definition ascii_lower :: "uchar \<Rightarrow> uchar" where "ascii_lower c = (if is_upper c then c + 32 else c)"

lemma ascii_simps [simp]: "ascii []" "ascii (c # t) \<longleftrightarrow> c < 128 \<and> ascii t" "ascii (a @ b) \<longleftrightarrow> ascii a \<and> ascii b"
  by (simp_all add: ascii_def)

lemma ascii_subset: "ascii t \<Longrightarrow> set t' \<subseteq> set t \<Longrightarrow> ascii t'"
  by (auto simp: ascii_def list_all_iff)

lemma ascii_sub: "ascii t \<Longrightarrow> ascii (take n t)" "ascii t \<Longrightarrow> ascii (drop n t)" "ascii t \<Longrightarrow> ascii (takeWhile p t)" "ascii t \<Longrightarrow> ascii (dropWhile p t)"
  by (auto elim!: ascii_subset dest: in_set_takeD in_set_dropD set_takeWhileD set_dropWhileD)

lemma ascii_byte_len: "ascii t \<Longrightarrow> byte_len t = length t"
  by (intro byte_len_ascii) (auto simp: ascii_def list_all_iff)

lemma ascii_split: "ascii t \<Longrightarrow> n \<le> length t \<Longrightarrow> split_bytes n t = Some (take n t, drop n t)"
  using split_bytes_append [of "take n t" "drop n t"] by (simp add: ascii_byte_len ascii_sub)

lemma ascii_lit [simp]: "ascii (lit ''[EMAIL]'')" "ascii (lit ''[PHONE]'')" "ascii (lit ''[CARD]'')" "ascii (lit ''[KR_ID]'')" "ascii (lit ''[SSN]'')"
  "ascii (lit ''[IBAN]'')" "ascii (lit ''[API_KEY]'')" "ascii (lit ''[USER]'')" "ascii (lit ''Bearer [API_KEY]'')"
  by (simp_all add: lit_def)

locale ascii_matcher =
  fixes m :: matcher
  assumes keeps_ascii: "ascii t \<Longrightarrow> m p t = Some (k, r) \<Longrightarrow> ascii r"
begin

lemma scan_ascii: "ascii t \<Longrightarrow> ascii (scan m p t)"
proof (induction t arbitrary: p rule: length_induct)
  case (1 t)
  show ?case
  proof (cases t)
    case (Cons c cs)
    have sub: "ascii (scan m q (drop n cs))" for q n using 1 Cons by (simp add: ascii_sub)
    show ?thesis
    proof (cases "m p t")
      case None
      then show ?thesis using Cons 1 sub [of _ 0] by simp
    next
      case (Some kr)
      then obtain k r where "m p t = Some (k, r)" by (cases kr) auto
      then show ?thesis using Cons keeps_ascii [OF "1.prems"] sub by simp
    qed
  qed simp
qed

end

interpretation phone_ascii: ascii_matcher phone_matcher
  by unfold_locales (auto simp: phone_matcher_def split: list.splits if_splits)

interpretation card_ascii: ascii_matcher card_matcher
  by unfold_locales (auto simp: card_matcher_def ascii_sub split: list.splits if_splits prod.splits)

interpretation ssn_ascii: ascii_matcher ssn_matcher
  by unfold_locales (auto simp: ssn_matcher_def split: if_splits)

interpretation iban_ascii: ascii_matcher "iban_matcher alnum" for alnum
  by unfold_locales (auto simp: iban_matcher_def ascii_sub)

lemma mask_emails_ascii: "ascii cs \<Longrightarrow> mask_emails_from cs i = Some r \<Longrightarrow> ascii r"
proof (induction cs i arbitrary: r rule: mask_emails_from.induct)
  case (1 cs i)
  show ?case
  proof (cases "i < length cs")
    case True
    have c: "cs ! i < 128" using "1.prems"(1) True by (auto simp: ascii_def list_all_iff)
    show ?thesis
    proof (cases "position (\<lambda>c. c = 64) (drop i cs)")
      case None
      then obtain r' where r': "mask_emails_from cs (i + 1) = Some r'" "r = cs ! i # r'"
        using "1.prems"(2) True by (subst (asm) mask_emails_from.simps) auto
      then show ?thesis using "1.IH"(1) [OF True None "1.prems"(1)] c by simp
    next
      case (Some k)
      let ?st = "email_start cs i (i + k)" and ?en = "email_end cs (i + k)"
      have "mask_emails_from cs ?en = Some r' \<Longrightarrow> ?st < i + k \<and> i + k + 1 < ?en \<Longrightarrow> \<not> ?st < i \<Longrightarrow> ascii r'" for r'
        using "1.IH"(2) [OF True Some refl refl refl] "1.prems"(1) by blast
      moreover have "mask_emails_from cs (i + 1) = Some r' \<Longrightarrow> \<not> (?st < i + k \<and> i + k + 1 < ?en) \<Longrightarrow> ascii r'" for r'
        using "1.IH"(3) [OF True Some refl refl refl] "1.prems"(1) by blast
      moreover have "(\<exists>r'. mask_emails_from cs ?en = Some r' \<and> ?st < i + k \<and> i + k + 1 < ?en \<and> \<not> ?st < i
            \<and> r = take (?st - i) (drop i cs) @ lit ''[EMAIL]'' @ r')
          \<or> (\<exists>r'. mask_emails_from cs (i + 1) = Some r' \<and> \<not> (?st < i + k \<and> i + k + 1 < ?en) \<and> r = cs ! i # r')"
        using "1.prems"(2) True Some by (subst (asm) mask_emails_from.simps) (auto simp: Let_def split: if_splits)
      ultimately show ?thesis using c "1.prems"(1) by (auto simp: ascii_sub)
    qed
  next
    case False
    then show ?thesis using "1.prems" by (simp add: mask_emails_from.simps)
  qed
qed

lemma find_sub_ascii: "ascii t \<Longrightarrow> find_sub n t = Some (a, b) \<Longrightarrow> ascii a \<and> ascii b"
  using find_sub_Some by fastforce

lemma replace_all_ascii: "ascii t \<Longrightarrow> ascii r \<Longrightarrow> ascii (replace_all n r t)"
proof (induction "length t" arbitrary: t rule: less_induct)
  case less
  show ?case
  proof (cases "find_sub n t")
    case (Some ab)
    then obtain a b where ab: "find_sub n t = Some (a, b)" by (cases ab) auto
    have "n \<noteq> [] \<Longrightarrow> length b < length t" using find_sub_Some [OF ab] by simp
    moreover have "ascii a" "ascii b" using find_sub_ascii [OF less.prems(1) ab] by simp_all
    ultimately show ?thesis using less ab by (subst replace_all.simps) simp
  qed (use less in \<open>simp add: replace_all.simps\<close>)
qed

lemma mask_korean_id_ascii: "ascii t \<Longrightarrow> mask_korean_id t = Some r \<Longrightarrow> ascii r"
proof -
  have "ascii t \<Longrightarrow> kr_windows ps t = Some r \<Longrightarrow> ascii r" for ps t
    by (induction ps t rule: kr_windows.induct) (auto simp: replace_all_ascii split: option.splits)
  then show "ascii t \<Longrightarrow> mask_korean_id t = Some r \<Longrightarrow> ascii r" by (auto simp: mask_korean_id_def split: if_splits)
qed

lemma mask_user_paths_os_ascii: "ascii t \<Longrightarrow> ascii (mask_user_paths_os pre sep t)"
proof (induction "length t" arbitrary: t rule: less_induct)
  case less
  show ?case
  proof (cases "t = [] \<or> pre = [] \<or> find_sub pre t = None")
    case False
    then obtain a b where ab: "find_sub pre t = Some (a, b)" by auto
    have "ascii a" "ascii b" "ascii pre" "length b < length t" using find_sub_Some [OF ab] False less.prems by auto
    moreover then have "length (dropWhile (\<lambda>c. \<not> path_stop sep c) b) < length t" using length_dropWhile_le [of _ b] by (meson le_less_trans)
    ultimately show ?thesis using less ab by (subst mask_user_paths_os.simps) (simp add: ascii_sub)
  qed (use less in \<open>auto simp: mask_user_paths_os.simps\<close>)
qed

lemma api_loop_ascii: "ascii t \<Longrightarrow> api_loop pre t = Some r \<Longrightarrow> ascii r"
proof -
  have "api_loop pre t = Some r \<Longrightarrow> ascii t \<longrightarrow> ascii r"
    by (rule api_loop.raw_induct [where P = "\<lambda>pre t r. ascii t \<longrightarrow> ascii r"])
      (auto split: option.splits if_splits, metis ascii_simps(3) ascii_sub(4) ascii_lit(7) find_sub_ascii)
  then show "ascii t \<Longrightarrow> api_loop pre t = Some r \<Longrightarrow> ascii r" by blast
qed

lemma api_prefix_loops_ascii: "ascii t \<Longrightarrow> api_prefix_loops ps t = Some r \<Longrightarrow> ascii r"
  by (induction ps arbitrary: t) (auto dest: api_loop_ascii split: bind_splits)

lemma ascii_map_lower: "ascii t \<Longrightarrow> ascii (map ascii_lower t)"
  by (auto simp: ascii_def list_all_iff ascii_lower_def is_upper_def)

lemma low_length: "ascii t \<Longrightarrow> byte_len (map ascii_lower t) = length t"
  by (simp add: ascii_byte_len ascii_map_lower)

lemma bearer_loop_returns:
  assumes low: "\<And>t. ascii t \<Longrightarrow> low t = map ascii_lower t" and "ascii t"
  shows "\<exists>r. bearer_loop low t n = Some r \<and> ascii r"
  using assms(2)
proof (induction "length t - n" arbitrary: t n rule: less_induct)
  case less
  have ll: "byte_len (low t) = length t" using low low_length less.prems by simp
  show ?case
  proof (cases "length t \<le> n")
    case True
    then show ?thesis using ll less.prems by (simp add: bearer_loop.simps)
  next
    case False
    let ?l = "drop n (map ascii_lower t)" and ?p = "\<lambda>c. \<not> token_stop c"
    have spl: "split_bytes n (low t) = Some (take n (low t), ?l)"
      using False less.prems by (simp add: low ascii_split ascii_map_lower)
    show ?thesis
    proof (cases "find_sub (lit ''bearer '') ?l")
      case None
      then show ?thesis using False ll spl less.prems by (simp add: bearer_loop.simps [of low t n])
    next
      case (Some ab)
      then obtain a b where ab: "find_sub (lit ''bearer '') ?l = Some (a, b)" by (cases ab) auto
      have "?l = a @ lit ''bearer '' @ b" using find_sub_Some [OF ab] .
      moreover have "length (lit ''bearer '') = 7" by (simp add: lit_def)
      ultimately have len: "length t - n = length a + 7 + length b" using length_drop [of n "map ascii_lower t"] by simp
      have "ascii ?l" using less.prems by (simp add: ascii_sub ascii_map_lower)
      then have a: "byte_len a = length a" using find_sub_ascii [OF _ ab] ascii_byte_len by blast
      let ?t = "drop (n + length a + 7) t"
      have s7: "split_bytes (n + length a + 7) t = Some (take (n + length a + 7) t, ?t)"
        and s0: "split_bytes (n + length a) t = Some (take (n + length a) t, drop (n + length a) t)"
        using len False less.prems by (simp_all add: ascii_split)
      note step = bearer_loop.simps [of low t n] ll spl ab a s7 s0
      show ?thesis
      proof (cases "8 \<le> byte_len (takeWhile ?p ?t)")
        case True
        let ?t' = "take (n + length a) t @ lit ''Bearer [API_KEY]'' @ dropWhile ?p ?t"
        have "length (lit ''Bearer [API_KEY]'') = 16" by (simp add: lit_def)
        then have "length ?t' - (n + length a + 16) < length t - n"
          using len length_dropWhile_le [of ?p ?t] False by (simp del: length_dropWhile_le)
        then show ?thesis using less.hyps [of ?t' "n + length a + 16"] True False less.prems by (simp add: step ascii_sub)
      next
        case short: False
        let ?n = "n + length a + 7 + max (byte_len (takeWhile ?p ?t)) 1"
        have "length t - ?n < length t - n" using False by simp
        then show ?thesis using less.hyps [of t ?n] short False less.prems by (simp add: step)
      qed
    qed
  qed
qed

section \<open>Safe texts stay safe\<close>

lemma safe_from_weaken: "safe_from p t \<Longrightarrow> \<not> prev_is email_open q \<Longrightarrow> safe_from q t"
  by (cases t) auto

lemma safe_from_append: "safe_from p (a @ b) \<longleftrightarrow> safe_from p a \<and> safe_from (prev_of p a) b"
  by (induction a arbitrary: p) auto

lemma iban_prefix_safe:
  assumes "safe_from p t" "iban_matcher alnum p t = Some (k, r)"
  shows "safe_from p r \<and> last r = 93 \<and> r \<noteq> [] \<and> 0 < k"
proof -
  have r: "r = take 4 t @ lit ''[IBAN]''" "0 < k"
    using assms(2) by (auto simp: iban_matcher_def try_parse_iban_def Let_def split: if_splits)
  have "safe_from p (take 4 t)" using assms(1) safe_from_append [of p "take 4 t" "drop 4 t"] by simp
  then show ?thesis using r by (simp add: safe_from_append lit_def prev_is_def)
qed

lemma mask_iban_safe: "safe_from p t \<Longrightarrow> safe_from p (scan (iban_matcher alnum) p t)"
proof (induction t arbitrary: p rule: length_induct)
  case (1 t)
  show ?case
  proof (cases t)
    case (Cons c cs)
    show ?thesis
    proof (cases "iban_matcher alnum p t")
      case None
      then show ?thesis using Cons 1 by simp
    next
      case (Some kr)
      then obtain k r where kr: "iban_matcher alnum p t = Some (k, r)" by (cases kr) auto
      let ?q = "Some (last (c # take (k - 1) cs))"
      have "safe_from ?q (drop (k - 1) cs)"
        using "1.prems" Cons safe_from_append [of "Some c" "take (k - 1) cs" "drop (k - 1) cs"] by (auto simp: prev_of_def split: if_splits)
      then have "safe_from ?q (scan (iban_matcher alnum) ?q (drop (k - 1) cs))" using 1 Cons by simp
      then have "safe_from (Some 93) (scan (iban_matcher alnum) ?q (drop (k - 1) cs))"
        by (rule safe_from_weaken) (simp add: prev_is_def email_open_def is_white_def)
      then show ?thesis using Cons kr iban_prefix_safe [OF "1.prems" kr] by (simp add: safe_from_append prev_of_def)
    qed
  qed simp
qed

end
