(* ===== verification/PiiProperties.thy ===== *)
theory PiiProperties
  imports PiiTotal "HOL-Library.Sublist" "HOL-Library.Code_Target_Nat"
begin

text \<open>
  The properties of the filter of \<open>crates/oneshim-vision/src/privacy.rs\<close>: when every level returns, what a level leaves in
  the text, what the loop over key prefixes misses, and that the exclusion patterns are the globs they look like.
\<close>

section \<open>Every level returns\<close>

lemma basic_returns: "safe_from None t \<Longrightarrow> \<exists>r. sanitize_title_with_level alnum low t Basic = Some r"
  using mask_emails_returns by fastforce

lemma standard_returns:
  assumes "safe_from None t"
  shows "\<exists>r. sanitize_title_with_level alnum low t Standard = Some r"
proof -
  obtain r where "sanitize_title_with_level alnum low (mask_iban alnum t) Basic = Some r"
    using basic_returns [of "mask_iban alnum t"] mask_iban_safe [OF assms] by (auto simp: mask_iban_def)
  moreover obtain r' where "mask_korean_id (mask_credit_cards r) = Some r'" using mask_korean_id_returns by blast
  ultimately show ?thesis by auto
qed

lemma standard_ascii:
  assumes "ascii t" "sanitize_title_with_level alnum low t Standard = Some r"
  shows "ascii r"
proof -
  obtain e k where e: "mask_emails (mask_iban alnum t) = Some e"
    and k: "mask_korean_id (mask_credit_cards (mask_phone_numbers e)) = Some k" and r: "r = mask_user_paths (mask_ssn k)"
    using assms(2) by (auto split: bind_splits)
  have "ascii (mask_iban alnum t)" unfolding mask_iban_def by (rule iban_ascii.scan_ascii [OF assms(1)])
  then have "ascii e" using e mask_emails_ascii unfolding mask_emails_def by blast
  then have "ascii (mask_credit_cards (mask_phone_numbers e))"
    by (simp add: mask_credit_cards_def mask_phone_numbers_def phone_ascii.scan_ascii card_ascii.scan_ascii)
  then have "ascii k" using k mask_korean_id_ascii by blast
  then show ?thesis by (simp add: r mask_user_paths_def mask_ssn_def ssn_ascii.scan_ascii mask_user_paths_os_ascii)
qed

lemma strict_returns:
  assumes low: "\<And>t. ascii t \<Longrightarrow> low t = map ascii_lower t" and "safe_from None t" "ascii t"
  shows "\<exists>r. sanitize_title_with_level alnum low t Strict = Some r"
proof -
  obtain s where s: "sanitize_title_with_level alnum low t Standard = Some s" using standard_returns [OF assms(2)] by blast
  obtain k where k: "api_prefix_loops api_prefixes s = Some k" using api_prefix_loops_returns api_prefixes_long by blast
  have "ascii k" using api_prefix_loops_ascii [OF standard_ascii [OF assms(3) s] k] .
  then obtain b where "mask_bearer_tokens low k = Some b" using bearer_loop_returns [OF low] unfolding mask_bearer_tokens_def by blast
  then show ?thesis using s k by (simp add: mask_api_keys_def)
qed



section \<open>What is left in the text\<close>

text \<open>On a safe text in which every at sign stands inside an address, the e-mail mask returns a text without any at sign.
\<close>

theorem mask_emails_leaves_no_address:
  assumes "safe_from None t" and "all_addresses t"
  shows "\<exists>r. mask_emails t = Some r \<and> 64 \<notin> set r"
proof -
  obtain r where r: "mask_emails t = Some r" using mask_emails_returns [OF assms(1)] by blast
  have "0 < length t \<Longrightarrow> t ! 0 \<noteq> 64" using assms(2) by (auto simp: all_addresses_def list_all_iff)
  then show ?thesis using r mask_emails_from_clean [OF assms(2), of 0 r] by (simp add: mask_emails_def)
qed

theorem mask_emails_leaves_no_address_witness:
  "\<exists>r. mask_emails (lit ''to a@b.c <d@e.f x'') = Some r \<and> 64 \<notin> set r"
  by (rule mask_emails_leaves_no_address)
    (simp_all add: lit_def prev_is_def email_open_def email_close_def is_white_def all_addresses_def upt_rec)

text \<open>The mask for social security numbers leaves none that stands alone: no group of three, two and four digits
  joined by dashes without a digit right before or right after it.
\<close>

theorem mask_ssn_leaves_none: "\<not> stands_alone ssn_shape is_digit (mask_ssn t)"
  unfolding mask_ssn_def by (rule ssn.none_stands_alone)

text \<open>The strict filter leaves no passport number (a letter and seven or eight digits) that stands alone, whatever
  \<open>is_alphanumeric\<close> says of characters outside ASCII.
\<close>

theorem strict_leaves_no_passport:
  assumes "\<And>c. c < 128 \<Longrightarrow> alnum c = is_alnum c" and "sanitize_title_with_level alnum low t Strict = Some r"
  shows "\<not> stands_alone passport_shape alnum r"
proof -
  obtain x where "r = mask_passport alnum x" using assms(2) by (auto split: bind_splits)
  then show ?thesis unfolding mask_passport_def
    using isolated_token.none_stands_alone [OF passport_isolated [OF assms(1)]] by simp
qed

theorem strict_leaves_no_passport_witness:
  "\<exists>r. sanitize_title_with_level is_alnum (map ascii_lower) (lit ''id M1234567'') Strict = Some r \<and> \<not> stands_alone passport_shape is_alnum r"
proof -
  obtain r where r: "sanitize_title_with_level is_alnum (map ascii_lower) (lit ''id M1234567'') Strict = Some r"
    using strict_returns [of "map ascii_lower" "lit ''id M1234567''" is_alnum]
    by (auto simp: lit_def prev_is_def email_open_def is_white_def)
  then show ?thesis using strict_leaves_no_passport [OF refl r] by blast
qed

section \<open>Panics and misses\<close>

text \<open>A handle with two at signs after a space, and a second address after a closing bracket.\<close>

lemma mask_emails_panics: "mask_emails (lit ''hi @me@site'') = None" "mask_emails (lit ''<a@b>,c@d'') = None"
  by code_simp+

text \<open>A prefix that is not followed by a key hides the keys of that prefix behind it.\<close>

lemma api_loop_stops:
  "find_sub pre t = Some (a, b) \<Longrightarrow> byte_len (takeWhile (\<lambda>c. \<not> token_stop c) b) < 8 \<Longrightarrow> api_loop pre t = Some t"
  by (simp add: api_loop.simps)

lemma key_behind_short_prefix: "api_loop (lit ''sk-'') (lit ''task-list sk-0123456789abcdef'') = Some (lit ''task-list sk-0123456789abcdef'')"
  by code_simp

text \<open>A white space character of more than one byte after \<open>bearer\<close> leaves the search inside that character.\<close>

lemma bearer_loop_panics: "mask_bearer_tokens (map ascii_lower) (lit ''bearer '' @ [0x3000, 97]) = None"
  by code_simp

lemma long_run_not_masked:
  "mask_credit_cards (lit ''4111 1111 1111 1111 12 25 123'') = lit ''4111 1111 1111 1111 12 25 123''"
  by code_simp

lemma korean_id_as_phone:
  "sanitize_title_with_level is_alnum (map ascii_lower) (lit ''900101-1234567'') Standard = Some (lit ''9[PHONE]'')"
  by code_simp

section \<open>Exclusion patterns\<close>

text \<open>A glob: an asterisk stands for any text.\<close>

fun glob :: "utext \<Rightarrow> utext \<Rightarrow> bool" where
  "glob [] n = (n = [])"
| "glob (c # p) n = (if c = 42 then list_ex (glob p) (suffixes n) else (case n of [] \<Rightarrow> False | x # xs \<Rightarrow> x = c \<and> glob p xs))"

lemma glob_literal: "42 \<notin> set p \<Longrightarrow> glob p n \<longleftrightarrow> n = p"
  by (induction p arbitrary: n) (auto split: list.splits)

lemma glob_prefix: "42 \<notin> set p \<Longrightarrow> glob (p @ [42]) n \<longleftrightarrow> has_prefix p n"
proof (induction p arbitrary: n)
  case Nil
  show ?case by (auto simp: list_ex_iff)
next
  case (Cons c p)
  then show ?case by (cases n) auto
qed

lemma glob_star: "glob (42 # p) n \<longleftrightarrow> (\<exists>a b. n = a @ b \<and> glob p b)"
  unfolding glob.simps(2) by (auto simp: list_ex_iff suffix_def) blast

lemma has_suffix_iff: "has_suffix s t \<longleftrightarrow> (\<exists>a. t = a @ s)"
  unfolding has_suffix_def has_prefix_iff by (metis rev_append rev_rev_ident)

lemma strip_last_Some: "strip_last c t = Some s \<longleftrightarrow> t = s @ [c]"
  unfolding strip_last_def by (cases t rule: rev_cases) auto

text \<open>An exclusion pattern whose asterisks are its first or last character excludes exactly the names the glob matches.
\<close>

theorem pattern_matches_glob:
  assumes "42 \<notin> set (butlast (List.tl pat))"
  shows "pattern_matches name pat \<longleftrightarrow> glob pat name"
proof (cases pat)
  case (Cons c rest)
  show ?thesis
  proof (cases "strip_last 42 rest")
    case None
    then have rest: "42 \<notin> set rest" using assms Cons
      by (cases rest rule: rev_cases) (auto simp: strip_last_def)
    then have "c \<noteq> 42 \<Longrightarrow> strip_last 42 pat = None" using Cons by (cases rest rule: rev_cases) (auto simp: strip_last_def)
    then show ?thesis using None Cons rest glob_literal [of pat name]
      by (auto simp: pattern_matches_def glob_star glob_literal has_suffix_iff simp del: glob.simps(2))
  next
    case (Some kw)
    then have kw: "rest = kw @ [42]" by (simp add: strip_last_Some)
    then have "42 \<notin> set kw" "c \<noteq> 42 \<Longrightarrow> strip_last 42 pat = Some (c # kw)" using assms Cons by (simp_all add: strip_last_Some)
    then show ?thesis using Some Cons kw glob_prefix [of "c # kw" name]
      by (auto simp: pattern_matches_def glob_star glob_prefix contains_iff has_prefix_iff simp del: glob.simps(2))
  qed
qed (simp add: pattern_matches_def)

theorem pattern_matches_glob_witness:
  "pattern_matches (lit ''my bank app'') (lit ''*bank*'') \<longleftrightarrow> glob (lit ''*bank*'') (lit ''my bank app'')"
  by (rule pattern_matches_glob) (simp add: lit_def)

end
