(* ===== verification/PrivacyRedaction.thy ===== *)
theory PrivacyRedaction
  imports PrivacyGateway PiiProperties "HOL-Library.Code_Target_Nat"
begin

text \<open>
  What the gateway lets out: nothing without consent or from an excluded application, and of an image only pixels of the
  blur where a sensitive word stands.
\<close>

section \<open>Regions\<close>

text \<open>Coordinates far from the limits of 32 bits, so that no sum of two of them wraps.\<close>

definition in_bounds :: "SensitiveRegion \<Rightarrow> bool" where
  "in_bounds r \<longleftrightarrow> - (2 ^ 28) \<le> reg_x r \<and> - (2 ^ 28) \<le> reg_y r \<and> 1 \<le> reg_w r \<and> 1 \<le> reg_h r
     \<and> reg_x r + reg_w r \<le> 2 ^ 28 \<and> reg_y r + reg_h r \<le> 2 ^ 28"

definition covers :: "SensitiveRegion \<Rightarrow> SensitiveRegion \<Rightarrow> bool" where
  "covers m r \<longleftrightarrow> reg_x m \<le> reg_x r \<and> reg_y m \<le> reg_y r
     \<and> reg_x r + reg_w r \<le> reg_x m + reg_w m \<and> reg_y r + reg_h r \<le> reg_y m + reg_h m"

lemma i32_id: "- (2 ^ 31) \<le> n \<Longrightarrow> n < 2 ^ 31 \<Longrightarrow> i32 n = n"
  by (simp add: i32_def)

lemma covers_trans: "covers a b \<Longrightarrow> covers b c \<Longrightarrow> covers a c"
  by (auto simp: covers_def)

lemma covers_refl: "covers a a"
  by (simp add: covers_def)

lemma join_regions_covers:
  assumes "in_bounds c" "in_bounds r"
  shows "in_bounds (join_regions c r) \<and> covers (join_regions c r) c \<and> covers (join_regions c r) r"
proof -
  let ?l = "min (reg_x c) (reg_x r)" and ?t = "min (reg_y c) (reg_y r)"
  let ?r = "max (reg_x c + reg_w c) (reg_x r + reg_w r)" and ?b = "max (reg_y c + reg_h c) (reg_y r + reg_h r)"
  have "i32 (reg_x c + reg_w c) = reg_x c + reg_w c" "i32 (reg_x r + reg_w r) = reg_x r + reg_w r"
    "i32 (reg_y c + reg_h c) = reg_y c + reg_h c" "i32 (reg_y r + reg_h r) = reg_y r + reg_h r"
    "i32 (?r - ?l) = ?r - ?l" "i32 (?b - ?t) = ?b - ?t"
    using assms by (auto simp: in_bounds_def intro!: i32_id)
  then have j: "join_regions c r = \<lparr>reg_x = ?l, reg_y = ?t, reg_w = max (?r - ?l) 1, reg_h = max (?b - ?t) 1\<rparr>"
    by (simp add: join_regions_def Let_def)
  show ?thesis unfolding j using assms by (auto simp: in_bounds_def covers_def)
qed

lemma merge_region_covers:
  assumes "in_bounds r" "list_all in_bounds ms"
  shows "list_all in_bounds (merge_region r ms) \<and> list_ex (\<lambda>m. covers m r) (merge_region r ms)
    \<and> (\<forall>c. list_ex (\<lambda>m. covers m c) ms \<longrightarrow> list_ex (\<lambda>m. covers m c) (merge_region r ms))"
  using assms(2)
proof (induction ms)
  case Nil
  then show ?case using assms(1) by (simp add: covers_refl)
next
  case (Cons c ms)
  then show ?case using assms(1) join_regions_covers [of c r] by (auto intro: covers_trans)
qed

lemma fold_merge_covers:
  assumes "list_all in_bounds rs" "list_all in_bounds ms"
  shows "list_all in_bounds (fold merge_region rs ms)
    \<and> (\<forall>c. c \<in> set rs \<or> list_ex (\<lambda>m. covers m c) ms \<longrightarrow> list_ex (\<lambda>m. covers m c) (fold merge_region rs ms))"
  using assms
proof (induction rs arbitrary: ms)
  case (Cons r rs)
  then show ?case using merge_region_covers [of r ms] Cons.IH [of "merge_region r ms"] by auto
qed simp

lemma merge_sensitive_regions_covers:
  assumes "list_all in_bounds rs"
  shows "list_all in_bounds (merge_sensitive_regions rs) \<and> (\<forall>r\<in>set rs. \<exists>m\<in>set (merge_sensitive_regions rs). covers m r)"
proof -
  have "list_all in_bounds (sort_key (\<lambda>r. (reg_y r, reg_x r)) rs)" using assms by (simp add: list_all_iff)
  then show ?thesis using fold_merge_covers [of "sort_key (\<lambda>r. (reg_y r, reg_x r)) rs" "[]"]
    unfolding merge_sensitive_regions_def by (auto simp: list_ex_iff)
qed

section \<open>Marked words\<close>

lemma mark_word_mono: "mark_word s w (Some a) = Some b \<Longrightarrow> a \<subseteq> b"
  by (auto simp: mark_word_def split: bind_splits)

lemma mark_window_mono: "mark_window s w (Some a) = Some b \<Longrightarrow> a \<subseteq> b"
  by (auto simp: mark_window_def Let_def split: bind_splits if_splits)

lemma fold_None: "(\<And>x. f x None = None) \<Longrightarrow> fold f xs None = None"
  by (induction xs) auto

lemma fold_mono:
  assumes "\<And>x. f x None = None" "\<And>x a b. f x (Some a) = Some b \<Longrightarrow> a \<subseteq> b"
  shows "fold f xs (Some a) = Some b \<Longrightarrow> a \<subseteq> (b :: nat set)"
proof (induction xs arbitrary: a)
  case (Cons x xs)
  then obtain c where c: "f x (Some a) = Some c" "fold f xs (Some c) = Some b"
    using fold_None [of f xs] assms(1) by (cases "f x (Some a)") auto
  then show ?case using Cons.IH assms(2) by blast
qed simp

lemma mark_None: "mark_word s w None = None" "mark_window s ws None = None"
  by (simp_all add: mark_word_def mark_window_def)

lemma words_marked:
  "fold (mark_word s) ws (Some a) = Some b \<Longrightarrow> (i, wb) \<in> set ws \<Longrightarrow> s (box_text wb) = Some True \<Longrightarrow> i \<in> b"
proof (induction ws arbitrary: a)
  case (Cons w ws)
  then obtain c where c: "mark_word s w (Some a) = Some c" "fold (mark_word s) ws (Some c) = Some b"
    using fold_None [of "mark_word s"] mark_None by (cases "mark_word s w (Some a)") auto
  show ?case
  proof (cases "w = (i, wb)")
    case True
    then have "i \<in> c" using c(1) Cons.prems(3) by (auto simp: mark_word_def)
    then show ?thesis using fold_mono [of "mark_word s", OF _ _ c(2)] mark_None(1) mark_word_mono by blast
  next
    case False
    then show ?thesis using Cons c(2) by auto
  qed
qed simp

lemma sensitive_word_marked:
  assumes "sensitive_indices s boxes = Some marked" "i < length boxes" "s (box_text (boxes ! i)) = Some True"
  shows "i \<in> marked"
proof -
  let ?ix = "sort_key (\<lambda>w. (box_y (snd w), box_x (snd w))) (zip [0..<length boxes] boxes)"
  obtain a where a: "fold (mark_word s) ?ix (Some {}) = Some a"
    and b: "fold (mark_window s) (concat (map (\<lambda>k. windows k ?ix) [2..<6])) (Some a) = Some marked"
    using assms(1) fold_None [of "mark_window s"] mark_None unfolding sensitive_indices_def Let_def
    by (cases "fold (mark_word s) ?ix (Some {})") auto
  have "(i, boxes ! i) \<in> set ?ix" using assms(2) by (auto simp: in_set_zip intro!: exI [of _ i])
  then have "i \<in> a" using words_marked [OF a] assms(3) by blast
  then show ?thesis using fold_mono [of "mark_window s", OF _ _ b] mark_None(2) mark_window_mono by blast
qed

lemma detected_cover:
  assumes det: "detect_sensitive_regions s boxes = Some regions" and i: "i < length boxes" "s (box_text (boxes ! i)) = Some True"
    and bounds: "list_all (in_bounds \<circ> box_region) boxes"
  shows "list_all in_bounds regions \<and> (\<exists>m\<in>set regions. covers m (box_region (boxes ! i)))"
proof -
  obtain marked where marked: "sensitive_indices s boxes = Some marked"
    and regions: "regions = merge_sensitive_regions (map (box_region \<circ> snd) (filter (\<lambda>w. fst w \<in> marked) (zip [0..<length boxes] boxes)))"
    using det by (auto simp: detect_sensitive_regions_def)
  let ?raw = "map (box_region \<circ> snd) (filter (\<lambda>w. fst w \<in> marked) (zip [0..<length boxes] boxes))"
  have "list_all in_bounds ?raw" using bounds by (auto simp: list_all_iff dest: set_zip_rightD)
  moreover have "i \<in> marked" using sensitive_word_marked [OF marked i] .
  then have "box_region (boxes ! i) \<in> set ?raw" using i(1) by (force simp: in_set_zip image_iff)
  ultimately show ?thesis using merge_sensitive_regions_covers [of ?raw] regions by blast
qed

section \<open>Pixels\<close>

text \<open>A point of the image inside a region.\<close>

definition inside :: "SensitiveRegion \<Rightarrow> nat \<Rightarrow> nat \<Rightarrow> bool" where
  "inside r px py \<longleftrightarrow> reg_x r \<le> int px \<and> int px < reg_x r + reg_w r \<and> reg_y r \<le> int py \<and> int py < reg_y r + reg_h r"

lemma inside_covers: "covers m r \<Longrightarrow> inside r px py \<Longrightarrow> inside m px py"
  by (auto simp: covers_def inside_def)

lemma margin_inside:
  assumes "z \<le> int p" "int p < z + l" "1 \<le> l" "p < n"
  shows "nat (max (z - 4) 0) \<le> p" "p < nat (max (z - 4) 0) + min (nat (l + 8)) (n - nat (max (z - 4) 0))"
proof -
  show a: "nat (max (z - 4) 0) \<le> p" using assms(1) by (simp add: nat_le_iff)
  have "int p < max (z - 4) 0 + (l + 8)" using assms by linarith
  then have "p < nat (max (z - 4) 0) + nat (l + 8)" using assms(3) by linarith
  then show "p < nat (max (z - 4) 0) + min (nat (l + 8)) (n - nat (max (z - 4) 0))" using a assms(4) by linarith
qed

lemma put_patch_dims: "img_w (put_patch im x y w h patch) = img_w im" "img_h (put_patch im x y w h patch) = img_h im"
  by (simp_all add: put_patch_def)

lemma put_patch_inside:
  "x \<le> px \<Longrightarrow> px < x + w \<Longrightarrow> y \<le> py \<Longrightarrow> py < y + h \<Longrightarrow> px < img_w im \<Longrightarrow> py < img_h im
    \<Longrightarrow> img_w patch = w \<Longrightarrow> img_h patch = h \<Longrightarrow> pixels (put_patch im x y w h patch) px py = pixels patch (px - x) (py - y)"
  by (simp add: put_patch_def)

lemma crop_dims: "img_w (crop_imm im x y w h) = w" "img_h (crop_imm im x y w h) = h"
  by (simp_all add: crop_imm_def)

text \<open>What is asked of the blur: it keeps the size of the patch, and all its pixels have a property of blurred pixels.\<close>

definition smearing :: "(Rgba \<Rightarrow> Rgba) \<Rightarrow> (nat \<Rightarrow> bool) \<Rightarrow> bool" where
  "smearing blur smeared \<longleftrightarrow> (\<forall>im. img_w (blur im) = img_w im \<and> img_h (blur im) = img_h im
     \<and> (\<forall>x y. x < img_w im \<longrightarrow> y < img_h im \<longrightarrow> smeared (pixels (blur im) x y)))"

lemma dims: "smearing blur smeared \<Longrightarrow> img_w (blur im) = img_w im" "smearing blur smeared \<Longrightarrow> img_h (blur im) = img_h im"
  and smears: "smearing blur smeared \<Longrightarrow> x < img_w im \<Longrightarrow> y < img_h im \<Longrightarrow> smeared (pixels (blur im) x y)"
  by (auto simp: smearing_def)

lemma blur_region_dims [simp]: "img_w (blur_region blur r im) = img_w im" "img_h (blur_region blur r im) = img_h im"
  unfolding blur_region_def Let_def by (simp_all only: put_patch_dims split: if_split) simp_all

lemma put_patch_keeps:
  "(\<And>a b. a < img_w patch \<Longrightarrow> b < img_h patch \<Longrightarrow> smeared (pixels patch a b)) \<Longrightarrow> smeared (pixels im px py)
    \<Longrightarrow> smeared (pixels (put_patch im x y w h patch) px py)"
  by (auto simp: put_patch_def)

lemma blur_region_keeps:
  assumes "smearing blur smeared" "smeared (pixels im px py)"
  shows "smeared (pixels (blur_region blur r im) px py)"
proof -
  have "smeared (pixels (put_patch im x y w h (blur (crop_imm im x y w h))) px py)" for x y w h
    by (rule put_patch_keeps) (use assms smears [OF assms(1)] in \<open>auto simp: dims [OF assms(1)]\<close>)
  then show ?thesis unfolding blur_region_def Let_def using assms(2) by (split if_split) blast
qed

lemma patch_smears:
  assumes blur: "smearing blur smeared" and "x \<le> px" "px < x + w" "y \<le> py" "py < y + h" "px < img_w im" "py < img_h im"
  shows "smeared (pixels (if w = 0 \<or> h = 0 then im else put_patch im x y w h (blur (crop_imm im x y w h))) px py)"
  using assms smears [OF blur, of "px - x" "crop_imm im x y w h" "py - y"] by (auto simp: put_patch_inside dims [OF blur] crop_dims)

lemma blur_region_smears:
  assumes blur: "smearing blur smeared" and bounds: "in_bounds r" "inside r px py" "px < img_w im" "py < img_h im"
  shows "smeared (pixels (blur_region blur r im) px py)"
proof -
  let ?x = "nat (max (reg_x r - 4) 0)" and ?y = "nat (max (reg_y r - 4) 0)"
  let ?w = "min (nat (reg_w r + 8)) (img_w im - ?x)" and ?h = "min (nat (reg_h r + 8)) (img_h im - ?y)"
  have "i32 (reg_x r - 4) = reg_x r - 4" "i32 (reg_y r - 4) = reg_y r - 4" "i32 (reg_w r + 8) = reg_w r + 8" "i32 (reg_h r + 8) = reg_h r + 8"
    using bounds(1) by (auto simp: in_bounds_def intro!: i32_id)
  moreover have "as_u32 n = nat n" if "0 \<le> n" "n < 2 ^ 31" for n using that by (simp add: as_u32_def)
  ultimately have xywh: "as_u32 (max (i32 (reg_x r - 4)) 0) = ?x" "as_u32 (max (i32 (reg_y r - 4)) 0) = ?y"
      "as_u32 (i32 (reg_w r + 8)) = nat (reg_w r + 8)" "as_u32 (i32 (reg_h r + 8)) = nat (reg_h r + 8)"
    using bounds(1) by (auto simp: in_bounds_def)
  have "?x \<le> px" "px < ?x + ?w" "?y \<le> py" "py < ?y + ?h"
    using bounds unfolding inside_def in_bounds_def by (blast intro: margin_inside)+
  then show ?thesis using bounds(3,4) unfolding blur_region_def xywh Let_def by (rule patch_smears [OF blur])
qed

lemma fold_blur_smears:
  assumes blur: "smearing blur smeared" and "list_all in_bounds rs" "px < img_w im" "py < img_h im"
    and "smeared (pixels im px py) \<or> (\<exists>r\<in>set rs. inside r px py)"
  shows "smeared (pixels (fold (blur_region blur) rs im) px py)"
  using assms(2-)
proof (induction rs arbitrary: im)
  case (Cons r rs)
  then show ?case using blur_region_smears [OF blur, of r px py im] blur_region_keeps [OF blur, of im px py r]
    by (cases "smeared (pixels im px py) \<or> inside r px py") (auto intro!: Cons.IH)
qed simp

section \<open>What leaves the machine\<close>

text \<open>C22: an image is prepared for an external service only when the user has consented to text recognition, the application
  in front is not a sensitive one, and neither it nor its title is excluded, whatever the override says.
\<close>

theorem image_leaves_only_permitted:
  assumes "prepare_image_for_external_with_override alnum low ops g data app title allow = Some (Inr img)"
  shows "is_permitted ocr_processing (consent_manager g) \<and> \<not> is_sensitive_app low app
    \<and> \<not> list_ex (\<lambda>a. low a = low app) (excluded_apps (privacy_config g))
    \<and> \<not> matches_exclusion_pattern low app (excluded_app_patterns (privacy_config g))
    \<and> \<not> matches_exclusion_pattern low title (excluded_title_patterns (privacy_config g))"
  using assms by (auto simp: prepare_image_for_external_with_override_def should_exclude_def split: if_splits)

definition sample_gateway :: PrivacyGateway where
  "sample_gateway =
     \<lparr>consent_manager = \<lparr>current_consent = Some \<lparr>consent_id = ''c'', version = CURRENT_POLICY_VERSION, granted_at = 0, expires_at = None,
        revoked_at = None, data_deletion_requested = False,
        permissions = \<lparr>screen_capture = True, ocr_processing = True, telemetry = False, process_monitoring = False, input_activity = False,
          window_title_collection = True, app_usage_analytics = False, clipboard_monitoring = False, file_access_monitoring = False,
          activity_pattern_learning = False, cross_device_sync = False, full_text_extraction = False\<rparr>,
        data_retention_days = 30\<rparr>, pending_deletion = False\<rparr>,
      pii_filter_level = Standard, external_data_policy = AllowFiltered,
      privacy_config = \<lparr>excluded_apps = [lit ''Mail''], excluded_app_patterns = [lit ''*pay*''], excluded_title_patterns = [lit ''*secret*''],
        auto_exclude_sensitive = True, config_filter_level = Standard\<rparr>\<rparr>"

definition idle_image_ops :: "(utext, unit) image_ops" where
  "idle_image_ops = \<lparr>decode = (\<lambda>_. None), ocr = (\<lambda>_. None), to_rgba8 = (\<lambda>_. \<lparr>img_w = 0, img_h = 0, pixels = (\<lambda>_ _. 0)\<rparr>), blur8 = (\<lambda>im. im),
     encode_png = (\<lambda>_. None), ocr_feature = True\<rparr>"

theorem image_leaves_only_permitted_witness:
  "is_permitted ocr_processing (consent_manager sample_gateway) \<and> \<not> is_sensitive_app (map ascii_lower) (lit ''Code'')"
proof -
  have "prepare_image_for_external_with_override is_alnum (map ascii_lower) idle_image_ops sample_gateway (lit ''png'') (lit ''Code'') (lit ''x.rs'') False
      = Some (Inr \<lparr>image_data = lit ''png'', metadata_stripped = True, redacted_regions = 0\<rparr>)"
    by code_simp
  from image_leaves_only_permitted [OF this] show ?thesis by blast
qed

text \<open>C23: in a redacted image every pixel of a word the filter finds sensitive is a pixel of the blur (has the property \<open>smeared\<close>
  that the blur gives to all its pixels), for words whose boxes are far from the limits of 32-bit coordinates.
\<close>

theorem sensitive_words_blurred:
  assumes det: "detect_sensitive_regions (\<lambda>t. is_sensitive_segment_with_level alnum low t level) boxes = Some regions"
    and word: "i < length boxes" "is_sensitive_segment_with_level alnum low (box_text (boxes ! i)) level = Some True"
    and bounds: "list_all (in_bounds \<circ> box_region) boxes"
    and blur: "smearing blur smeared"
    and point: "inside (box_region (boxes ! i)) px py" "px < img_w im" "py < img_h im"
  shows "smeared (pixels (fold (blur_region blur) regions im) px py)"
proof -
  obtain m where m: "m \<in> set regions" "covers m (box_region (boxes ! i))" and b: "list_all in_bounds regions"
    using detected_cover [OF det word bounds] by blast
  then show ?thesis using fold_blur_smears [OF blur b point(2,3)] inside_covers [OF m(2) point(1)] by blast
qed

definition sample_box :: OcrWordBox where
  "sample_box = \<lparr>box_text = lit ''a@b.c'', box_x = 3, box_y = 2, box_w = 5, box_h = 4\<rparr>"

definition grey :: "Rgba \<Rightarrow> Rgba" where "grey im = im\<lparr>pixels := (\<lambda>_ _. 7)\<rparr>"

theorem sensitive_words_blurred_witness:
  "pixels (fold (blur_region grey) [box_region sample_box] \<lparr>img_w = 20, img_h = 10, pixels = (\<lambda>_ _. 0)\<rparr>) 4 3 = 7"
proof (rule sensitive_words_blurred [where boxes = "[sample_box]" and i = 0 and level = Basic and alnum = is_alnum and low = "map ascii_lower"
      and smeared = "\<lambda>p. p = 7"])
  show "detect_sensitive_regions (\<lambda>t. is_sensitive_segment_with_level is_alnum (map ascii_lower) t Basic) [sample_box] = Some [box_region sample_box]"
    by code_simp
  show "is_sensitive_segment_with_level is_alnum (map ascii_lower) (box_text ([sample_box] ! 0)) Basic = Some True"
    by code_simp
qed (simp_all add: sample_box_def box_region_def in_bounds_def inside_def smearing_def grey_def)

end
