(* ===== verification/UpdateCoordinator.thy ===== *)
theory UpdateCoordinator
  imports ByteString
begin

text \<open>
  The update coordinator of \<open>src-tauri/src/update_coordinator.rs\<close> with the status of
  \<open>crates/oneshim-api-contracts/src/update.rs\<close>, the startup check of \<open>src-tauri/src/update_runtime.rs\<close> and the rollback notice of
  \<open>crates/oneshim-web/src/update_control.rs\<close>. The executor (network, disk, installer) is an argument: the record \<open>UpdateExecutor\<close> holds
  what its methods answer while one action is handled, and the calls made to it are logged. \<open>clk n\<close> is the time
  stamped on the write that makes the revision \<open>n\<close>. A handler runs to its end before the next action, tick,
  startup result or rollback notice is taken.
\<close>

section \<open>Data\<close>

datatype UpdatePhase = Idle | Checking | PendingApproval | Downloading | ReadyToInstall | Installing | Updated | Deferred | PhaseError | RolledBack

datatype RollbackReason = RepeatedStartupFailure

record RollbackInfo =
  from_version :: string
  from_published_at :: "string option"
  to_version :: string
  to_published_at :: "string option"
  rollback_reason :: RollbackReason
  rolled_back_at :: string

record PendingUpdateInfo =
  current_version :: string
  latest_version :: string
  release_url :: string
  release_name :: "string option"
  pending_published_at :: "string option"
  pending_download_url :: string
  release_notes :: "string option"
  download_size_bytes :: "u64 option"

text \<open>The percentage is kept as the bits of the \<open>f32\<close>.\<close>

record DownloadProgress =
  bytes_downloaded :: u64
  total_bytes :: u64
  percent :: "32 word"

record UpdateStatus =
  enabled :: bool
  auto_install :: bool
  phase :: UpdatePhase
  message :: "string option"
  pending :: "PendingUpdateInfo option"
  download_progress :: "DownloadProgress option"
  rollback :: "RollbackInfo option"
  revision :: u64
  updated_at :: string

datatype UpdateAction = Approve | Defer | CheckNow

datatype UpdateError = ApiRequest string | ParseResponse string | VersionParse string | Download string | Install string
  | UnsupportedPlatform string | Filesystem string | Disabled | AlreadyLatest | NoSuitableAsset | Integrity string

fun display :: "UpdateError \<Rightarrow> string" where
  "display (ApiRequest e) = ''GitHub API request failed: '' @ e"
| "display (ParseResponse e) = ''Failed to parse API response: '' @ e"
| "display (VersionParse e) = ''Failed to parse version: '' @ e"
| "display (Download e) = ''Download failed: '' @ e"
| "display (Install e) = ''Installation failed: '' @ e"
| "display (UnsupportedPlatform e) = ''Unsupported platform: '' @ e"
| "display (Filesystem e) = ''Filesystem error: '' @ e"
| "display Disabled = ''Auto-update is disabled''"
| "display AlreadyLatest = ''Already on latest version''"
| "display NoSuitableAsset = ''No suitable release asset found for current platform''"
| "display (Integrity e) = ''Integrity verification failed: '' @ e"

datatype UpdateAssetType = FullBinary | DeltaPatch string

record ReleaseAsset =
  asset_name :: string
  browser_download_url :: string
  asset_size :: u64
  content_type :: string

record ReleaseInfo =
  tag_name :: string
  rel_name :: "string option"
  rel_body :: "string option"
  prerelease :: bool
  assets :: "ReleaseAsset list"
  html_url :: string
  published_at :: "string option"

datatype UpdateCheckResult =
    Available (av_current: string) (av_latest: string) (av_release: ReleaseInfo) (av_url: string) (av_size: "u64 option") (av_asset: UpdateAssetType)
  | UpToDate string

record UpdateExecutor =
  ex_check :: "UpdateError + UpdateCheckResult"
  ex_progress :: "DownloadProgress list"
  ex_final :: DownloadProgress
  ex_download :: "UpdateError + string"
  ex_install :: "UpdateError + unit"

text \<open>The calls, with what they returned where a later step depends on it.\<close>

datatype call = CallCheck "UpdateError + UpdateCheckResult" | CallSave | CallDownload string "UpdateError + string" | CallInstall string

record coordinator =
  status :: UpdateStatus
  downloaded_path :: "string option"
  has_tx :: bool
  sent :: "UpdateStatus list"
  calls :: "call list"

section \<open>Status writes\<close>

definition initial_status :: "bool \<Rightarrow> bool \<Rightarrow> string \<Rightarrow> UpdateStatus" where
  "initial_status en auto now =
     \<lparr>enabled = en, auto_install = auto, phase = Idle, message = None, pending = None, download_progress = None, rollback = None,
      revision = 0, updated_at = now\<rparr>"

definition touch_status :: "(u64 \<Rightarrow> string) \<Rightarrow> UpdateStatus \<Rightarrow> UpdateStatus" where
  "touch_status clk s = (let r = (if revision s = - 1 then - 1 else revision s + 1) in s\<lparr>revision := r, updated_at := clk r\<rparr>)"

text \<open>One write under the lock: the fields, the revision, and \<open>broadcast_status\<close>.\<close>

definition broadcast_status :: "UpdateStatus \<Rightarrow> coordinator \<Rightarrow> coordinator" where
  "broadcast_status s c = c\<lparr>sent := (if has_tx c then sent c @ [s] else sent c)\<rparr>"

definition write_status :: "(u64 \<Rightarrow> string) \<Rightarrow> (UpdateStatus \<Rightarrow> UpdateStatus) \<Rightarrow> coordinator \<Rightarrow> coordinator" where
  "write_status clk f c = (let s = touch_status clk (f (status c)) in broadcast_status s (c\<lparr>status := s\<rparr>))"

text \<open>A write by another task than the coordinator: it sends on the channel itself.\<close>

definition publish_status :: "(u64 \<Rightarrow> string) \<Rightarrow> (UpdateStatus \<Rightarrow> UpdateStatus) \<Rightarrow> coordinator \<Rightarrow> coordinator" where
  "publish_status clk f c = (let s = touch_status clk (f (status c)) in c\<lparr>status := s, sent := sent c @ [s]\<rparr>)"

definition log_call :: "call \<Rightarrow> coordinator \<Rightarrow> coordinator" where
  "log_call k c = c\<lparr>calls := calls c @ [k]\<rparr>"

definition emit_error :: "(u64 \<Rightarrow> string) \<Rightarrow> string \<Rightarrow> coordinator \<Rightarrow> coordinator" where
  "emit_error clk msg = write_status clk (\<lambda>s. s\<lparr>phase := PhaseError, message := Some msg, download_progress := None\<rparr>)"

section \<open>Download and installation\<close>

definition no_progress :: DownloadProgress where "no_progress = \<lparr>bytes_downloaded = 0, total_bytes = 0, percent = 0\<rparr>"

definition run_download :: "(u64 \<Rightarrow> string) \<Rightarrow> UpdateExecutor \<Rightarrow> coordinator \<Rightarrow> (UpdateError + unit) \<times> coordinator" where
  "run_download clk ex c =
     (case pending (status c) of
        None \<Rightarrow> (Inr (), write_status clk (\<lambda>s. s\<lparr>phase := Idle, message := Some ''No pending update to download'', download_progress := None\<rparr>) c)
      | Some p \<Rightarrow>
          (let c = write_status clk (\<lambda>s. s\<lparr>phase := Downloading, message := Some (''Downloading version '' @ latest_version p),
                                          download_progress := Some no_progress\<rparr>) c;
               c = log_call (CallDownload (pending_download_url p) (ex_download ex)) c;
               c = fold (\<lambda>snap. write_status clk (\<lambda>s. s\<lparr>download_progress := Some snap\<rparr>)) (ex_progress ex) c;
               c = write_status clk (\<lambda>s. s\<lparr>download_progress := Some (ex_final ex)\<rparr>) c
           in case ex_download ex of
                Inr path \<Rightarrow>
                  (Inr (), write_status clk (\<lambda>s. s\<lparr>phase := ReadyToInstall,
                     message := Some (''Download complete. Ready to install version '' @ latest_version p), download_progress := None\<rparr>)
                     (c\<lparr>downloaded_path := Some path\<rparr>))
              | Inl e \<Rightarrow> (Inl e, c\<lparr>downloaded_path := None\<rparr>)))"

definition run_install :: "(u64 \<Rightarrow> string) \<Rightarrow> UpdateExecutor \<Rightarrow> coordinator \<Rightarrow> (UpdateError + unit) \<times> coordinator" where
  "run_install clk ex c =
     (case downloaded_path c of
        None \<Rightarrow> (Inl (Install ''No downloaded file available for installation''), c)
      | Some path \<Rightarrow>
          (let c = c\<lparr>downloaded_path := None\<rparr>;
               label = (case pending (status c) of Some p \<Rightarrow> latest_version p | None \<Rightarrow> ''unknown'');
               c = write_status clk (\<lambda>s. s\<lparr>phase := Installing, message := Some (''Installing version '' @ label), download_progress := None\<rparr>) c;
               c = log_call (CallInstall path) c
           in case ex_install ex of
                Inr _ \<Rightarrow> (Inr (), write_status clk (\<lambda>s. s\<lparr>phase := Updated, message := Some (''Updated to version '' @ label),
                                                      pending := None, download_progress := None\<rparr>) c)
              | Inl e \<Rightarrow> (Inl e, write_status clk (\<lambda>s. s\<lparr>phase := PhaseError, message := Some (''Update installation failed: '' @ display e),
                                                      download_progress := None\<rparr>) c)))"

section \<open>Checks\<close>

definition pending_of :: "string \<Rightarrow> string \<Rightarrow> ReleaseInfo \<Rightarrow> string \<Rightarrow> u64 option \<Rightarrow> PendingUpdateInfo" where
  "pending_of current latest release url size' =
     \<lparr>current_version = current, latest_version = latest, release_url = html_url release, release_name = rel_name release,
      pending_published_at = published_at release, pending_download_url = url, release_notes = rel_body release,
      download_size_bytes = size'\<rparr>"

definition found_status :: "UpdateCheckResult \<Rightarrow> UpdateStatus \<Rightarrow> UpdateStatus" where
  "found_status r s =
     (case r of
        Available current latest release url sz _ \<Rightarrow>
          s\<lparr>phase := PendingApproval, message := Some (''New version detected: '' @ current @ '' -> '' @ latest),
            pending := Some (pending_of current latest release url sz)\<rparr>
      | UpToDate _ \<Rightarrow> s)"

definition run_check :: "(u64 \<Rightarrow> string) \<Rightarrow> UpdateExecutor \<Rightarrow> bool \<Rightarrow> coordinator \<Rightarrow> coordinator" where
  "run_check clk ex auto c =
     (let c = write_status clk (\<lambda>s. s\<lparr>phase := Checking, message := Some ''Checking for new version'', pending := None, download_progress := None\<rparr>) c;
          c = log_call (CallCheck (ex_check ex)) c;
          idle = (\<lambda>msg. write_status clk (\<lambda>s. s\<lparr>phase := Idle, message := Some msg, pending := None\<rparr>) c)
      in case ex_check ex of
           Inr (UpToDate current) \<Rightarrow> log_call CallSave (idle (''Already on latest version: '' @ current))
         | Inr r \<Rightarrow>
             (let c = write_status clk (found_status r) c
              in if \<not> auto then log_call CallSave c
                 else (case run_download clk ex c of
                         (Inl e, c) \<Rightarrow> emit_error clk (''Auto-download failed: '' @ display e) c
                       | (Inr _, c) \<Rightarrow>
                           (case run_install clk ex c of
                              (Inl e, c) \<Rightarrow> log_call CallSave (emit_error clk (''Auto-install failed: '' @ display e) c)
                            | (Inr _, c) \<Rightarrow> log_call CallSave c)))
         | Inl Disabled \<Rightarrow> log_call CallSave (idle ''Update feature is disabled'')
         | Inl e \<Rightarrow> log_call CallSave (write_status clk (\<lambda>s. s\<lparr>phase := PhaseError, message := Some (''Failed to check for updates: '' @ display e),
                                         pending := None\<rparr>) c))"

section \<open>The loop\<close>

definition on_approve :: "(u64 \<Rightarrow> string) \<Rightarrow> UpdateExecutor \<Rightarrow> bool \<Rightarrow> coordinator \<Rightarrow> coordinator" where
  "on_approve clk ex auto c =
     (case phase (status c) of
        PendingApproval \<Rightarrow>
          (case run_download clk ex c of
             (Inl e, c) \<Rightarrow> emit_error clk (''Download failed: '' @ display e) c
           | (Inr _, c) \<Rightarrow>
               if \<not> auto then c
               else (case run_install clk ex c of
                       (Inl e, c) \<Rightarrow> emit_error clk (''Auto-install failed: '' @ display e) c
                     | (Inr _, c) \<Rightarrow> c))
      | ReadyToInstall \<Rightarrow>
          (case run_install clk ex c of
             (Inl e, c) \<Rightarrow> emit_error clk (''Installation failed: '' @ display e) c
           | (Inr _, c) \<Rightarrow> c)
      | _ \<Rightarrow> c)"

definition on_defer :: "(u64 \<Rightarrow> string) \<Rightarrow> coordinator \<Rightarrow> coordinator" where
  "on_defer clk c =
     (if phase (status c) \<in> {PendingApproval, ReadyToInstall}
      then write_status clk (\<lambda>s. s\<lparr>phase := Deferred, message := Some ''Update was deferred'', pending := None, download_progress := None\<rparr>)
             (c\<lparr>downloaded_path := None\<rparr>)
      else c)"

definition on_tick :: "(u64 \<Rightarrow> string) \<Rightarrow> UpdateExecutor \<Rightarrow> bool \<Rightarrow> coordinator \<Rightarrow> coordinator" where
  "on_tick clk ex auto c =
     (if phase (status c) \<in> {Idle, Deferred, PhaseError} then run_check clk ex auto c else c)"

definition on_action :: "(u64 \<Rightarrow> string) \<Rightarrow> UpdateExecutor \<Rightarrow> bool \<Rightarrow> UpdateAction \<Rightarrow> coordinator \<Rightarrow> coordinator" where
  "on_action clk ex auto a c =
     (case a of CheckNow \<Rightarrow> run_check clk ex auto c | Approve \<Rightarrow> on_approve clk ex auto c | Defer \<Rightarrow> on_defer clk c)"

text \<open>The startup: the first snapshot, then a check when one is due (\<open>due\<close> is \<open>should_check_for_updates\<close>).\<close>

definition start_coordinator :: "(u64 \<Rightarrow> string) \<Rightarrow> UpdateExecutor \<Rightarrow> bool \<Rightarrow> bool \<Rightarrow> UpdateStatus \<Rightarrow> bool \<Rightarrow> coordinator" where
  "start_coordinator clk ex auto due s tx =
     (let c = broadcast_status s \<lparr>status = s, downloaded_path = None, has_tx = tx, sent = [], calls = []\<rparr>
      in if due then run_check clk ex auto c else c)"

definition disabled_coordinator :: "(u64 \<Rightarrow> string) \<Rightarrow> coordinator \<Rightarrow> coordinator" where
  "disabled_coordinator clk = write_status clk (\<lambda>s. s\<lparr>phase := Idle, message := Some ''Update feature is disabled'', pending := None\<rparr>)"

definition recheck_secs :: "32 word \<Rightarrow> u64" where
  "recheck_secs hours = ucast (max hours 1) * 3600"

text \<open>The check of \<open>build_and_spawn\<close> at startup writes the status by itself; it ignores every other outcome.\<close>

definition startup_check :: "(u64 \<Rightarrow> string) \<Rightarrow> UpdateCheckResult \<Rightarrow> coordinator \<Rightarrow> coordinator" where
  "startup_check clk r c = (case r of Available _ _ _ _ _ _ \<Rightarrow> publish_status clk (found_status r) (log_call (CallCheck (Inr r)) c) | UpToDate _ \<Rightarrow> c)"

definition set_rolled_back :: "(u64 \<Rightarrow> string) \<Rightarrow> RollbackInfo \<Rightarrow> coordinator \<Rightarrow> coordinator" where
  "set_rolled_back clk info =
     publish_status clk (\<lambda>s. s\<lparr>phase := RolledBack, rollback := Some info,
       message := Some ''Previous install reverted after repeated startup failures''\<rparr>)"

end
