(* ===== verification/UpdateRuns.thy ===== *)
theory UpdateRuns
  imports UpdateCoordinator
begin

text \<open>
  Runs of the update coordinator: actions of the user, timer ticks, the startup check and the rollback notice in any order.
  What holds between two of them, and what can be said of the files it installs.
\<close>

section \<open>Steps\<close>

inductive coord_step :: "(u64 \<Rightarrow> string) \<Rightarrow> bool \<Rightarrow> coordinator \<Rightarrow> coordinator \<Rightarrow> bool" for clk auto where
  action: "coord_step clk auto c (on_action clk ex auto a c)"
| tick: "coord_step clk auto c (on_tick clk ex auto c)"
| startup: "coord_step clk auto c (startup_check clk r c)"
| rolled_back: "coord_step clk auto c (set_rolled_back clk info c)"

inductive coord_reach :: "(u64 \<Rightarrow> string) \<Rightarrow> bool \<Rightarrow> coordinator \<Rightarrow> bool" for clk auto where
  start: "coord_reach clk auto (start_coordinator clk ex auto due (initial_status True auto now) tx)"
| step: "coord_reach clk auto c \<Longrightarrow> coord_step clk auto c c' \<Longrightarrow> coord_reach clk auto c'"

inductive_cases coord_stepE: "coord_step clk auto c c'"

named_theorems coord_simps \<open>what the writes do to the fields of the coordinator\<close>

lemma write_status_fields [coord_simps]:
  "phase (status (write_status clk f c)) = phase (f (status c))"
  "pending (status (write_status clk f c)) = pending (f (status c))"
  "downloaded_path (write_status clk f c) = downloaded_path c"
  "calls (write_status clk f c) = calls c"
  "has_tx (write_status clk f c) = has_tx c"
  by (simp_all add: write_status_def broadcast_status_def touch_status_def Let_def)

lemma publish_status_fields [coord_simps]:
  "phase (status (publish_status clk f c)) = phase (f (status c))"
  "pending (status (publish_status clk f c)) = pending (f (status c))"
  "downloaded_path (publish_status clk f c) = downloaded_path c"
  "calls (publish_status clk f c) = calls c"
  by (simp_all add: publish_status_def touch_status_def Let_def)

lemma log_call_fields [coord_simps]:
  "status (log_call k c) = status c" "downloaded_path (log_call k c) = downloaded_path c"
  "calls (log_call k c) = calls c @ [k]" "sent (log_call k c) = sent c" "has_tx (log_call k c) = has_tx c"
  by (simp_all add: log_call_def)

lemma progress_fields [coord_simps]:
  "phase (status (fold (\<lambda>snap. write_status clk (\<lambda>s. s\<lparr>download_progress := Some snap\<rparr>)) ps c)) = phase (status c)"
  "pending (status (fold (\<lambda>snap. write_status clk (\<lambda>s. s\<lparr>download_progress := Some snap\<rparr>)) ps c)) = pending (status c)"
  "downloaded_path (fold (\<lambda>snap. write_status clk (\<lambda>s. s\<lparr>download_progress := Some snap\<rparr>)) ps c) = downloaded_path c"
  "calls (fold (\<lambda>snap. write_status clk (\<lambda>s. s\<lparr>download_progress := Some snap\<rparr>)) ps c) = calls c"
  "has_tx (fold (\<lambda>snap. write_status clk (\<lambda>s. s\<lparr>download_progress := Some snap\<rparr>)) ps c) = has_tx c"
  by (induction ps arbitrary: c) (simp_all add: coord_simps)

section \<open>Between two handlers\<close>

definition at_rest :: "coordinator \<Rightarrow> bool" where
  "at_rest c \<longleftrightarrow> phase (status c) \<notin> {Checking, Downloading, Installing}
     \<and> (phase (status c) = PendingApproval \<longrightarrow> pending (status c) \<noteq> None)
     \<and> (phase (status c) = ReadyToInstall \<longrightarrow> pending (status c) \<noteq> None \<and> downloaded_path c \<noteq> None)"

text \<open>What a download and an installation leave.\<close>

lemma run_download_pending:
  assumes "pending (status c) = Some p"
  obtains c' where "run_download clk ex c = (map_sum id (\<lambda>_. ()) (ex_download ex), c')" "pending (status c') = Some p"
    "calls c' = calls c @ [CallDownload (pending_download_url p) (ex_download ex)]"
    "downloaded_path c' = (case ex_download ex of Inr path \<Rightarrow> Some path | Inl _ \<Rightarrow> None)"
    "\<not> isl (ex_download ex) \<Longrightarrow> phase (status c') = ReadyToInstall"
proof (cases "ex_download ex")
  case (Inl e)
  then show ?thesis using assms by (intro that [of "snd (run_download clk ex c)"]) (auto simp: run_download_def Let_def coord_simps)
next
  case (Inr path)
  then show ?thesis using assms by (intro that [of "snd (run_download clk ex c)"]) (auto simp: run_download_def Let_def coord_simps)
qed

lemma run_install_downloaded:
  assumes "downloaded_path c = Some path"
  obtains c' where "run_install clk ex c = (map_sum id (\<lambda>_. ()) (ex_install ex), c')" "downloaded_path c' = None"
    "calls c' = calls c @ [CallInstall path]" "phase (status c') = (if isl (ex_install ex) then PhaseError else Updated)"
    "pending (status c') = None \<or> pending (status c') = pending (status c)"
proof (cases "ex_install ex")
  case (Inl e)
  then show ?thesis using assms by (intro that [of "snd (run_install clk ex c)"]) (auto simp: run_install_def Let_def coord_simps)
next
  case (Inr path)
  then show ?thesis using assms by (intro that [of "snd (run_install clk ex c)"]) (auto simp: run_install_def Let_def coord_simps)
qed

lemma emit_error_fields [coord_simps]:
  "phase (status (emit_error clk msg c)) = PhaseError" "pending (status (emit_error clk msg c)) = pending (status c)"
  "downloaded_path (emit_error clk msg c) = downloaded_path c" "calls (emit_error clk msg c) = calls c"
  by (simp_all add: emit_error_def coord_simps)

lemma found_status_fields [coord_simps]:
  "phase (found_status (Available cur lat rel url sz ty) s) = PendingApproval"
  "pending (found_status (Available cur lat rel url sz ty) s) = Some (pending_of cur lat rel url sz)"
  by (simp_all add: found_status_def)

lemma pending_of_url [simp]: "pending_download_url (pending_of cur lat rel url sz) = url"
  by (simp add: pending_of_def)

text \<open>
  What a handler did to the coordinator: it is at rest, and the calls it made, with a file to install only from a download
  of the pending address.
\<close>

definition delivers :: "bool \<Rightarrow> PendingUpdateInfo \<Rightarrow> coordinator \<Rightarrow> coordinator \<Rightarrow> bool" where
  "delivers inst p c c' \<longleftrightarrow> at_rest c' \<and> (pending (status c') = None \<or> pending (status c') = Some p) \<and>
     ((\<exists>e. calls c' = calls c @ [CallDownload (pending_download_url p) (Inl e)] \<and> downloaded_path c' = None) \<or>
      (\<exists>path. if inst
        then calls c' = calls c @ [CallDownload (pending_download_url p) (Inr path), CallInstall path] \<and> downloaded_path c' = None
        else calls c' = calls c @ [CallDownload (pending_download_url p) (Inr path)] \<and> downloaded_path c' = Some path))"

lemma approve_pending:
  assumes "phase (status c) = PendingApproval" "pending (status c) = Some p"
  shows "delivers auto p c (on_approve clk ex auto c)"
proof -
  obtain c1 where c1: "run_download clk ex c = (map_sum id (\<lambda>_. ()) (ex_download ex), c1)" "pending (status c1) = Some p"
    "calls c1 = calls c @ [CallDownload (pending_download_url p) (ex_download ex)]"
    "downloaded_path c1 = (case ex_download ex of Inr path \<Rightarrow> Some path | Inl _ \<Rightarrow> None)"
    "\<not> isl (ex_download ex) \<Longrightarrow> phase (status c1) = ReadyToInstall"
    by (rule run_download_pending [OF assms(2), where clk = clk and ex = ex]) auto
  show ?thesis
  proof (cases "ex_download ex")
    case (Inl e)
    then show ?thesis using c1 assms by (auto simp: on_approve_def delivers_def at_rest_def coord_simps)
  next
    case (Inr path)
    obtain c2 where c2: "run_install clk ex c1 = (map_sum id (\<lambda>_. ()) (ex_install ex), c2)" "downloaded_path c2 = None"
      "calls c2 = calls c1 @ [CallInstall path]" "phase (status c2) = (if isl (ex_install ex) then PhaseError else Updated)"
      "pending (status c2) = None \<or> pending (status c2) = pending (status c1)"
      using run_install_downloaded [of c1 path] c1(4) Inr by auto
    show ?thesis using c1 c2 assms Inr
      by (cases "ex_install ex") (auto simp: on_approve_def delivers_def at_rest_def coord_simps)
  qed
qed

lemma approve_ready:
  assumes "phase (status c) = ReadyToInstall" "downloaded_path c = Some path"
  shows "at_rest (on_approve clk ex auto c) \<and> calls (on_approve clk ex auto c) = calls c @ [CallInstall path]
    \<and> downloaded_path (on_approve clk ex auto c) = None
    \<and> (pending (status (on_approve clk ex auto c)) = None \<or> pending (status (on_approve clk ex auto c)) = pending (status c))"
proof -
  obtain c2 where "run_install clk ex c = (map_sum id (\<lambda>_. ()) (ex_install ex), c2)" "downloaded_path c2 = None"
    "calls c2 = calls c @ [CallInstall path]" "phase (status c2) = (if isl (ex_install ex) then PhaseError else Updated)"
    "pending (status c2) = None \<or> pending (status c2) = pending (status c)"
    by (rule run_install_downloaded [OF assms(2)])
  then show ?thesis using assms by (cases "ex_install ex") (auto simp: on_approve_def at_rest_def coord_simps)
qed

text \<open>The calls of a check: a search, and in automatic mode a download and the installation of the file it returned.\<close>

definition check_calls :: "bool \<Rightarrow> UpdateExecutor \<Rightarrow> call list \<Rightarrow> bool" where
  "check_calls auto ex k \<longleftrightarrow>
     k = [CallCheck (ex_check ex), CallSave]
     \<or> auto \<and> (\<exists>cur lat rel url sz ty. ex_check ex = Inr (Available cur lat rel url sz ty) \<and>
         ((\<exists>e. k = [CallCheck (ex_check ex), CallDownload url (Inl e)])
          \<or> (\<exists>path. k = [CallCheck (ex_check ex), CallDownload url (Inr path), CallInstall path, CallSave])))"

lemma run_check_post:
  "at_rest (run_check clk ex auto c) \<and> (\<exists>k. calls (run_check clk ex auto c) = calls c @ k \<and> check_calls auto ex k)
    \<and> (downloaded_path (run_check clk ex auto c) = None \<or> downloaded_path (run_check clk ex auto c) = downloaded_path c)
    \<and> (pending (status (run_check clk ex auto c)) = None \<or> (\<exists>cur lat rel url sz ty. ex_check ex = Inr (Available cur lat rel url sz ty)
         \<and> pending (status (run_check clk ex auto c)) = Some (pending_of cur lat rel url sz)))"
proof (cases "ex_check ex")
  case (Inl e)
  then show ?thesis by (cases e) (simp_all add: run_check_def Let_def at_rest_def check_calls_def coord_simps)
next
  case (Inr r)
  show ?thesis
  proof (cases r)
    case av: (Available cur lat rel url sz ty)
    let ?c = "write_status clk (found_status r) (log_call (CallCheck (ex_check ex)) (write_status clk
       (\<lambda>s. s\<lparr>phase := Checking, message := Some ''Checking for new version'', pending := None, download_progress := None\<rparr>) c))"
    have p: "pending (status ?c) = Some (pending_of cur lat rel url sz)" by (simp add: av coord_simps)
    obtain c1 where c1: "run_download clk ex ?c = (map_sum id (\<lambda>_. ()) (ex_download ex), c1)"
      "calls c1 = calls ?c @ [CallDownload url (ex_download ex)]"
      "downloaded_path c1 = (case ex_download ex of Inr path \<Rightarrow> Some path | Inl _ \<Rightarrow> None)"
      "pending (status c1) = Some (pending_of cur lat rel url sz)"
      by (rule run_download_pending [OF p]) auto
    have rc: "run_check clk ex auto c = (if \<not> auto then log_call CallSave ?c
        else (case run_download clk ex ?c of
                (Inl e, c) \<Rightarrow> emit_error clk (''Auto-download failed: '' @ display e) c
              | (Inr _, c) \<Rightarrow>
                  (case run_install clk ex c of
                     (Inl e, c) \<Rightarrow> log_call CallSave (emit_error clk (''Auto-install failed: '' @ display e) c)
                   | (Inr _, c) \<Rightarrow> log_call CallSave c)))"
      by (simp add: run_check_def Let_def Inr av)
    show ?thesis
    proof (cases "ex_download ex")
      case (Inl e)
      then show ?thesis using c1 \<open>ex_check ex = Inr r\<close> av unfolding rc by (auto simp: at_rest_def check_calls_def coord_simps)
    next
      case dl: (Inr path)
      obtain c2 where "run_install clk ex c1 = (map_sum id (\<lambda>_. ()) (ex_install ex), c2)" "downloaded_path c2 = None"
        "calls c2 = calls c1 @ [CallInstall path]" "phase (status c2) = (if isl (ex_install ex) then PhaseError else Updated)"
        "pending (status c2) = None \<or> pending (status c2) = pending (status c1)"
        using run_install_downloaded [of c1 path] c1(3) dl by auto
      then show ?thesis using c1 dl \<open>ex_check ex = Inr r\<close> av unfolding rc
        by (cases "ex_install ex") (auto simp: at_rest_def check_calls_def coord_simps)
    qed
  next
    case (UpToDate v)
    then show ?thesis using Inr by (simp add: run_check_def Let_def at_rest_def check_calls_def coord_simps)
  qed
qed

section \<open>Installed files\<close>

text \<open>
  Every file handed to the installer was returned by an earlier download, from an address an earlier check offered, and so
  was the file waiting for installation; a pending address was offered by a check.
\<close>

definition offered :: "call list \<Rightarrow> string \<Rightarrow> bool" where
  "offered ks url \<longleftrightarrow> (\<exists>cur lat rel sz ty. CallCheck (Inr (Available cur lat rel url sz ty)) \<in> set ks)"

definition obtained :: "call list \<Rightarrow> string \<Rightarrow> bool" where
  "obtained ks path \<longleftrightarrow> (\<exists>url. CallDownload url (Inr path) \<in> set ks \<and> offered ks url)"

definition installs_ok :: "call list \<Rightarrow> bool" where
  "installs_ok ks \<longleftrightarrow> (\<forall>xs path ys. ks = xs @ CallInstall path # ys \<longrightarrow> obtained xs path)"

definition traced :: "coordinator \<Rightarrow> bool" where
  "traced c \<longleftrightarrow> installs_ok (calls c)
     \<and> (\<forall>path. downloaded_path c = Some path \<longrightarrow> obtained (calls c) path)
     \<and> (\<forall>p. pending (status c) = Some p \<longrightarrow> offered (calls c) (pending_download_url p))"

lemma offeredI: "CallCheck (Inr (Available cur lat rel url sz ty)) \<in> set ks \<Longrightarrow> offered ks url"
  unfolding offered_def by blast

lemma offered_append: "offered ks url \<Longrightarrow> offered (ks @ ks') url"
  unfolding offered_def set_append by blast

lemma obtained_append: "obtained ks path \<Longrightarrow> obtained (ks @ ks') path"
  using offered_append by (fastforce simp: obtained_def)

lemma installs_ok_Nil: "installs_ok []"
  by (simp add: installs_ok_def)

lemma installs_ok_snoc: "installs_ok (ks @ [k]) \<longleftrightarrow> installs_ok ks \<and> (\<forall>path. k = CallInstall path \<longrightarrow> obtained ks path)"
proof
  assume l: "installs_ok (ks @ [k])"
  have "obtained xs path" if "ks = xs @ CallInstall path # ys" for xs path ys
    using l that unfolding installs_ok_def by (metis append.assoc append_Cons)
  then show "installs_ok ks \<and> (\<forall>path. k = CallInstall path \<longrightarrow> obtained ks path)"
    using l by (auto simp: installs_ok_def)
next
  assume r: "installs_ok ks \<and> (\<forall>path. k = CallInstall path \<longrightarrow> obtained ks path)"
  show "installs_ok (ks @ [k])" unfolding installs_ok_def
  proof (intro allI impI)
    fix xs path ys
    assume "ks @ [k] = xs @ CallInstall path # ys"
    then show "obtained xs path" using r by (cases ys rule: rev_cases) (auto simp: installs_ok_def)
  qed
qed

lemma offered_here: "offered (ks @ CallCheck (Inr (Available cur lat rel url sz ty)) # ks') url"
  by (rule offeredI [of cur lat rel url sz ty]) simp

lemma obtained_here: "offered ks url \<Longrightarrow> obtained (ks @ [CallDownload url (Inr path)]) path"
  unfolding obtained_def using offered_append by fastforce

text \<open>The calls of a handler keep the list of calls in order, given what was pending and downloaded before.\<close>

lemma installs_ok_check:
  assumes "installs_ok ks" "check_calls auto ex k"
  shows "installs_ok (ks @ k)"
proof -
  have "installs_ok (ks @ [CallCheck r])" for r using assms(1) by (simp add: installs_ok_snoc)
  moreover have "installs_ok (ks @ [CallCheck (Inr (Available cur lat rel url sz ty)), CallDownload url (Inr path), CallInstall path, CallSave])"
    for cur lat rel url sz ty path
  proof -
    let ?ks = "ks @ [CallCheck (Inr (Available cur lat rel url sz ty))]"
    have "obtained (?ks @ [CallDownload url (Inr path)]) path" using offered_here [of ks _ _ _ _ _ _ "[]"] by (intro obtained_here) simp
    then have "installs_ok ((((?ks @ [CallDownload url (Inr path)]) @ [CallInstall path])) @ [CallSave])"
      using calculation by (simp only: installs_ok_snoc) simp
    then show ?thesis by simp
  qed
  moreover have "installs_ok (ks @ [CallCheck r, x])" if "\<forall>path. x \<noteq> CallInstall path" for r x
    using calculation(1) [of r] that installs_ok_snoc [of "ks @ [CallCheck r]" x] by simp
  ultimately show ?thesis using assms(2) unfolding check_calls_def by auto
qed

lemma check_calls_offer: "check_calls auto ex k \<Longrightarrow> ex_check ex = Inr (Available cur lat rel url sz ty) \<Longrightarrow> offered (ks @ k) url"
  by (rule offeredI [of cur lat rel url sz ty]) (auto simp: check_calls_def)

lemma run_check_traced:
  assumes "traced c"
  shows "traced (run_check clk ex auto c)"
proof -
  let ?c' = "run_check clk ex auto c"
  obtain k where k: "calls ?c' = calls c @ k" "check_calls auto ex k" using run_check_post [of clk ex auto c] by blast
  have "installs_ok (calls ?c')" using assms k installs_ok_check unfolding traced_def by metis
  moreover have "obtained (calls ?c') path" if "downloaded_path ?c' = Some path" for path
    using run_check_post [of clk ex auto c] that assms k(1) obtained_append unfolding traced_def by fastforce
  moreover have "offered (calls ?c') (pending_download_url p)" if "pending (status ?c') = Some p" for p
    using run_check_post [of clk ex auto c] that k check_calls_offer [OF k(2)] by force
  ultimately show ?thesis unfolding traced_def by blast
qed

lemma on_approve_keeps:
  assumes "traced c" "at_rest c"
  shows "traced (on_approve clk ex auto c) \<and> at_rest (on_approve clk ex auto c)"
proof (cases "phase (status c) \<in> {PendingApproval, ReadyToInstall}")
  case False
  then show ?thesis using assms by (cases "phase (status c)") (simp_all add: on_approve_def)
next
  case True
  then obtain p where p: "pending (status c) = Some p" and u: "offered (calls c) (pending_download_url p)"
    using assms unfolding at_rest_def traced_def by fastforce
  let ?d = "\<lambda>r. CallDownload (pending_download_url p) r"
  show ?thesis
  proof (cases "phase (status c) = PendingApproval")
    case pa: True
    have d: "delivers auto p c (on_approve clk ex auto c)" using approve_pending pa p by blast
    have "installs_ok (calls c @ [?d r])" for r using assms(1) by (simp add: traced_def installs_ok_snoc)
    moreover have ob: "obtained (calls c @ [?d (Inr path)]) path" for path using u by (rule obtained_here)
    moreover then have "installs_ok (calls c @ [?d (Inr path), CallInstall path])" for path
      using calculation installs_ok_snoc [of "calls c @ [?d (Inr path)]"] by simp
    moreover have "offered (calls c @ k) (pending_download_url p)" for k using u by (rule offered_append)
    ultimately show ?thesis using d unfolding delivers_def traced_def by (auto split: if_splits)
  next
    case False
    then have "phase (status c) = ReadyToInstall" using True by blast
    moreover then obtain path where "downloaded_path c = Some path" using assms(2) by (auto simp: at_rest_def)
    ultimately show ?thesis using approve_ready [of c path clk ex auto] assms(1) p u offered_append
      unfolding traced_def by (auto simp: installs_ok_snoc)
  qed
qed

lemma step_keeps:
  assumes "coord_step clk auto c c'" "traced c" "at_rest c"
  shows "traced c' \<and> at_rest c'"
  using assms(1)
proof cases
  case (action ex a)
  then show ?thesis using assms(2,3) on_approve_keeps run_check_traced run_check_post
    by (cases a) (auto simp: on_action_def on_defer_def at_rest_def traced_def coord_simps)
next
  case (tick ex)
  then show ?thesis using assms(2,3) run_check_traced run_check_post by (auto simp: on_tick_def)
next
  case (startup r)
  then show ?thesis using assms(2,3) offered_here [of "calls c" _ _ _ _ _ _ "[]"] offered_append obtained_append
    by (cases r) (auto simp: startup_check_def at_rest_def traced_def coord_simps installs_ok_snoc)
next
  case (rolled_back info)
  then show ?thesis using assms(2,3) by (auto simp: set_rolled_back_def at_rest_def traced_def coord_simps)
qed

lemma start_keeps: "traced (start_coordinator clk ex auto due s tx) \<and> at_rest (start_coordinator clk ex auto due s tx)"
  if "pending s = None" "phase s = Idle"
proof -
  let ?c = "broadcast_status s \<lparr>status = s, downloaded_path = None, has_tx = tx, sent = [], calls = []\<rparr>"
  have "traced ?c \<and> at_rest ?c" using that by (simp add: broadcast_status_def traced_def at_rest_def installs_ok_Nil)
  then show ?thesis using run_check_traced run_check_post by (auto simp: start_coordinator_def Let_def)
qed

lemma reach_keeps: "coord_reach clk auto c \<Longrightarrow> traced c \<and> at_rest c"
proof (induction rule: coord_reach.induct)
  case (start ex due now tx)
  show ?case by (rule start_keeps) (simp_all add: initial_status_def)
next
  case (step c c')
  then show ?case using step_keeps by blast
qed

text \<open>C25: in every run of the coordinator, between two events no phase is left busy (checking, downloading or installing), an
  update waiting for approval is known, and an update ready to install has its file.
\<close>

theorem coordinator_at_rest:
  assumes "coord_reach clk auto c"
  shows "phase (status c) \<notin> {Checking, Downloading, Installing}
    \<and> (phase (status c) = PendingApproval \<longrightarrow> pending (status c) \<noteq> None)
    \<and> (phase (status c) = ReadyToInstall \<longrightarrow> pending (status c) \<noteq> None \<and> downloaded_path c \<noteq> None)"
  using reach_keeps [OF assms] unfolding at_rest_def by blast

definition quiet_executor :: UpdateExecutor where
  "quiet_executor = \<lparr>ex_check = Inr (UpToDate ''1.0.0''), ex_progress = [], ex_final = no_progress, ex_download = Inl Disabled, ex_install = Inl Disabled\<rparr>"

definition quiet_start :: coordinator where
  "quiet_start = start_coordinator (\<lambda>_. ''t'') quiet_executor False True (initial_status True False ''t'') True"

theorem coordinator_at_rest_witness:
  "phase (status quiet_start) \<notin> {Checking, Downloading, Installing} \<and> phase (status quiet_start) = Idle"
proof -
  have "coord_reach (\<lambda>_. ''t'') False quiet_start" unfolding quiet_start_def by (rule coord_reach.start)
  from coordinator_at_rest [OF this] show ?thesis
    by (simp add: quiet_start_def quiet_executor_def start_coordinator_def run_check_def Let_def coord_simps)
qed

text \<open>In every run, a file handed to the installer was returned by an earlier download, and the address of that
  download was offered by an earlier successful check.
\<close>

theorem installed_file_was_offered:
  assumes "coord_reach clk auto c" and "calls c = xs @ CallInstall path # ys"
  shows "\<exists>url cur lat rel sz ty. CallDownload url (Inr path) \<in> set xs \<and> CallCheck (Inr (Available cur lat rel url sz ty)) \<in> set xs"
proof -
  have "obtained xs path" using reach_keeps [OF assms(1)] assms(2) unfolding traced_def installs_ok_def by blast
  then show ?thesis unfolding obtained_def offered_def by blast
qed

definition sample_release :: ReleaseInfo where
  "sample_release = \<lparr>tag_name = ''v2'', rel_name = None, rel_body = None, prerelease = False, assets = [], html_url = ''u'', published_at = None\<rparr>"

definition release_executor :: UpdateExecutor where
  "release_executor = \<lparr>ex_check = Inr (Available ''1'' ''2'' sample_release ''https://github.com/f'' None FullBinary), ex_progress = [], ex_final = no_progress,
     ex_download = Inr ''/tmp/f'', ex_install = Inr ()\<rparr>"

definition auto_run :: coordinator where
  "auto_run = start_coordinator (\<lambda>_. ''t'') release_executor True True (initial_status True True ''t'') True"

lemma auto_run_calls:
  "calls auto_run = [CallCheck (ex_check release_executor), CallDownload ''https://github.com/f'' (Inr ''/tmp/f'')] @ CallInstall ''/tmp/f'' # [CallSave]"
  by (simp add: auto_run_def start_coordinator_def run_check_def release_executor_def run_download_def run_install_def broadcast_status_def
      Let_def coord_simps)

theorem installed_file_was_offered_witness:
  "\<exists>url cur lat rel sz ty. CallDownload url (Inr ''/tmp/f'') \<in> set [CallCheck (ex_check release_executor), CallDownload ''https://github.com/f'' (Inr ''/tmp/f'')]
     \<and> CallCheck (Inr (Available cur lat rel url sz ty)) \<in> set [CallCheck (ex_check release_executor), CallDownload ''https://github.com/f'' (Inr ''/tmp/f'')]"
proof (rule installed_file_was_offered [OF _ auto_run_calls])
  show "coord_reach (\<lambda>_. ''t'') True auto_run" unfolding auto_run_def by (rule coord_reach.start)
qed

section \<open>Approval\<close>

lemma check_calls_no_install: "check_calls False ex k \<Longrightarrow> CallInstall path \<notin> set k"
  by (auto simp: check_calls_def)

lemma run_check_no_install: "CallInstall path \<notin> set (drop (length (calls c)) (calls (run_check clk ex False c)))"
  using run_check_post [of clk ex False c] check_calls_no_install by auto

lemma approve_installs:
  assumes "at_rest c" "CallInstall path \<in> set (drop (length (calls c)) (calls (on_approve clk ex False c)))"
  shows "phase (status c) = ReadyToInstall \<and> downloaded_path c = Some path"
proof (cases "phase (status c) \<in> {PendingApproval, ReadyToInstall}")
  case False
  then show ?thesis using assms(2) by (cases "phase (status c)") (simp_all add: on_approve_def)
next
  case True
  show ?thesis
  proof (cases "phase (status c) = PendingApproval")
    case pa: True
    then obtain p where "pending (status c) = Some p" using assms(1) by (auto simp: at_rest_def)
    then show ?thesis using approve_pending [OF pa, of p False clk ex] assms(2) by (auto simp: delivers_def)
  next
    case False
    then have "phase (status c) = ReadyToInstall" using True by blast
    moreover then obtain q where "downloaded_path c = Some q" using assms(1) by (auto simp: at_rest_def)
    ultimately show ?thesis using approve_ready [of c q clk ex False] assms(2) by simp
  qed
qed

text \<open>C26: without automatic installation, an installation happens only when the user approves an update whose download is
  complete, and installs the file of that download; no check, tick, deferral, startup result or rollback notice installs anything.
\<close>

theorem installs_only_when_approved:
  assumes "coord_reach clk False c" and "coord_step clk False c c'"
    and "CallInstall path \<in> set (drop (length (calls c)) (calls c'))"
  shows "phase (status c) = ReadyToInstall \<and> downloaded_path c = Some path \<and> (\<exists>ex. c' = on_action clk ex False Approve c)"
  using assms(2)
proof cases
  case (action ex a)
  show ?thesis
  proof (cases a)
    case Approve
    then show ?thesis using approve_installs reach_keeps [OF assms(1)] assms(3) action unfolding on_action_def by auto
  next
    case Defer
    then show ?thesis using assms(3) action by (simp add: on_action_def on_defer_def coord_simps split: if_splits)
  next
    case CheckNow
    then show ?thesis using assms(3) action run_check_no_install [of path c clk ex] by (simp add: on_action_def)
  qed
next
  case (tick ex)
  then show ?thesis using assms(3) run_check_no_install [of path c clk ex] by (simp add: on_tick_def split: if_splits)
next
  case (startup r)
  then show ?thesis using assms(3) by (cases r) (auto simp: startup_check_def coord_simps)
next
  case (rolled_back info)
  then show ?thesis using assms(3) by (auto simp: set_rolled_back_def coord_simps)
qed

definition manual_ready :: coordinator where
  "manual_ready = on_action (\<lambda>_. ''t'') release_executor False Approve
     (start_coordinator (\<lambda>_. ''t'') release_executor False True (initial_status True False ''t'') True)"

theorem installs_only_when_approved_witness:
  "phase (status manual_ready) = ReadyToInstall \<and> downloaded_path manual_ready = Some ''/tmp/f''"
proof -
  have start: "coord_reach (\<lambda>_. ''t'') False (start_coordinator (\<lambda>_. ''t'') release_executor False True (initial_status True False ''t'') True)"
    by (rule coord_reach.start)
  have reach: "coord_reach (\<lambda>_. ''t'') False manual_ready"
    unfolding manual_ready_def by (rule coord_reach.step [OF start coord_step.action])
  have fields: "phase (status manual_ready) = ReadyToInstall" "downloaded_path manual_ready = Some ''/tmp/f''"
    by (simp_all add: manual_ready_def on_action_def on_approve_def start_coordinator_def run_check_def release_executor_def run_download_def
        broadcast_status_def Let_def coord_simps)
  have "calls (on_action (\<lambda>_. ''t'') release_executor False Approve manual_ready) = calls manual_ready @ [CallInstall ''/tmp/f'']"
    using approve_ready [OF fields] by (simp add: on_action_def)
  then have "CallInstall ''/tmp/f'' \<in> set (drop (length (calls manual_ready)) (calls (on_action (\<lambda>_. ''t'') release_executor False Approve manual_ready)))"
    by simp
  from installs_only_when_approved [OF reach coord_step.action this] show ?thesis by simp
qed

section \<open>Broadcasts\<close>

text \<open>Until the revision saturates, the snapshots sent carry strictly growing revisions, none beyond the current one.\<close>

definition sent_ok :: "coordinator \<Rightarrow> bool" where
  "sent_ok c \<longleftrightarrow> (revision (status c) \<noteq> - 1 \<longrightarrow>
     sorted_wrt (<) (map revision (sent c)) \<and> (\<forall>s\<in>set (sent c). revision s \<le> revision (status c)))"

lemma revision_grows: "(r :: u64) \<noteq> - 1 \<Longrightarrow> r < r + 1"
  using unat_inc [of r "- 1"] by (simp add: word_order.not_eq_extremum word_less_nat_alt)

lemma write_status_sent_ok:
  assumes "\<And>s. revision (f s) = revision s" "sent_ok c"
  shows "sent_ok (write_status clk f c)"
proof (cases "revision (status c) = - 1")
  case True
  then show ?thesis using assms by (simp add: sent_ok_def write_status_def touch_status_def broadcast_status_def Let_def)
next
  case False
  then have "revision (status c) < revision (status c) + 1" by (rule revision_grows)
  then show ?thesis using assms False
    by (fastforce simp: sent_ok_def write_status_def touch_status_def broadcast_status_def Let_def sorted_wrt_append)
qed

lemma publish_status_sent_ok:
  assumes "\<And>s. revision (f s) = revision s" "sent_ok c"
  shows "sent_ok (publish_status clk f c)"
proof -
  have "publish_status clk f c = (write_status clk f (c\<lparr>has_tx := True\<rparr>))\<lparr>has_tx := has_tx c\<rparr>"
    by (simp add: publish_status_def write_status_def broadcast_status_def Let_def)
  moreover have "sent_ok (c\<lparr>has_tx := True\<rparr>)" using assms(2) by (simp add: sent_ok_def)
  ultimately show ?thesis using write_status_sent_ok [of f "c\<lparr>has_tx := True\<rparr>" clk] assms(1) by (simp add: sent_ok_def)
qed

lemma log_call_sent_ok: "sent_ok (log_call k c) \<longleftrightarrow> sent_ok c"
  by (simp add: sent_ok_def coord_simps)

lemma path_sent_ok: "sent_ok (c\<lparr>downloaded_path := x\<rparr>) \<longleftrightarrow> sent_ok c"
  by (simp add: sent_ok_def)

lemma progress_sent_ok: "sent_ok c \<Longrightarrow> sent_ok (fold (\<lambda>snap. write_status clk (\<lambda>s. s\<lparr>download_progress := Some snap\<rparr>)) ps c)"
  by (induction ps arbitrary: c) (simp_all add: write_status_sent_ok)

lemma found_status_revision: "revision (found_status r s) = revision s"
  by (cases r) (simp_all add: found_status_def)

lemmas sent_intros = write_status_sent_ok publish_status_sent_ok progress_sent_ok log_call_sent_ok [THEN iffD2] path_sent_ok [THEN iffD2]

lemma run_download_sent_ok: "sent_ok c \<Longrightarrow> run_download clk ex c = (r, c') \<Longrightarrow> sent_ok c'"
  by (auto simp: run_download_def Let_def intro!: sent_intros split: option.splits sum.splits)

lemma run_install_sent_ok: "sent_ok c \<Longrightarrow> run_install clk ex c = (r, c') \<Longrightarrow> sent_ok c'"
  by (auto simp: run_install_def Let_def intro!: sent_intros split: option.splits sum.splits)

lemma emit_error_sent_ok: "sent_ok c \<Longrightarrow> sent_ok (emit_error clk msg c)"
  by (auto simp: emit_error_def intro!: sent_intros)

lemma run_check_sent_ok: "sent_ok c \<Longrightarrow> sent_ok (run_check clk ex auto c)"
  unfolding run_check_def Let_def
  by (auto intro!: sent_intros emit_error_sent_ok simp: found_status_revision
      elim!: run_download_sent_ok [rotated] run_install_sent_ok [rotated]
      split: sum.splits UpdateCheckResult.splits UpdateError.splits prod.splits)

lemma on_approve_sent_ok: "sent_ok c \<Longrightarrow> sent_ok (on_approve clk ex auto c)"
  unfolding on_approve_def
  by (auto intro!: emit_error_sent_ok elim!: run_download_sent_ok [rotated] run_install_sent_ok [rotated]
      split: sum.splits UpdatePhase.splits prod.splits)

lemma step_sent_ok:
  assumes "coord_step clk auto c c'" "sent_ok c"
  shows "sent_ok c'"
  using assms(1)
proof cases
  case (action ex a)
  then show ?thesis using assms(2) on_approve_sent_ok run_check_sent_ok
    by (cases a) (auto simp: on_action_def on_defer_def intro!: sent_intros)
next
  case (tick ex)
  then show ?thesis using assms(2) run_check_sent_ok by (simp add: on_tick_def)
next
  case (startup r)
  then show ?thesis using assms(2) by (cases r) (auto simp: startup_check_def found_status_revision intro!: sent_intros)
next
  case (rolled_back info)
  then show ?thesis using assms(2) by (auto simp: set_rolled_back_def intro!: sent_intros)
qed

text \<open>The snapshots broadcast in a run carry strictly increasing revisions, none above the revision of the current status,
  so a subscriber never sees an older status after a newer one, as long as the 64-bit revision has not saturated.
\<close>

theorem broadcasts_in_order:
  assumes "coord_reach clk auto c" and "revision (status c) \<noteq> - 1"
  shows "sorted_wrt (<) (map revision (sent c)) \<and> list_all (\<lambda>s. revision s \<le> revision (status c)) (sent c)"
proof -
  have "sent_ok c" using assms(1)
  proof (induction rule: coord_reach.induct)
    case (start ex due now tx)
    have "sent_ok (broadcast_status s \<lparr>status = s, downloaded_path = None, has_tx = tx, sent = [], calls = []\<rparr>)" for s
      by (simp add: sent_ok_def broadcast_status_def)
    then show ?case by (simp add: start_coordinator_def Let_def run_check_sent_ok)
  next
    case (step c c')
    then show ?case using step_sent_ok by blast
  qed
  then show ?thesis using assms(2) by (simp add: sent_ok_def list_all_iff)
qed

theorem broadcasts_in_order_witness: "sorted_wrt (<) (map revision (sent quiet_start)) \<and> length (sent quiet_start) = 3"
proof -
  have "coord_reach (\<lambda>_. ''t'') False quiet_start" unfolding quiet_start_def by (rule coord_reach.start)
  moreover have "revision (status quiet_start) = 2"
    by (simp add: quiet_start_def quiet_executor_def start_coordinator_def run_check_def initial_status_def write_status_def broadcast_status_def
        touch_status_def log_call_def Let_def)
  ultimately have "sorted_wrt (<) (map revision (sent quiet_start))" using broadcasts_in_order [of "\<lambda>_. ''t''" False quiet_start] by simp
  moreover have "length (sent quiet_start) = 3"
    by (simp add: quiet_start_def quiet_executor_def start_coordinator_def run_check_def initial_status_def write_status_def broadcast_status_def
        touch_status_def log_call_def Let_def)
  ultimately show ?thesis by simp
qed

end
