(* ===== verification/UpdateSelect.thy ===== *)
theory UpdateSelect
  imports UpdateCoordinator "HOL-Library.Sublist"
begin

text \<open>
  Which update is offered and which file is accepted: \<open>src-tauri/src/updater/mod.rs\<close>, \<open>github.rs\<close>, \<open>state.rs\<close> and the download half of
  \<open>install.rs\<close>. Versions (the crate \<open>semver\<close>), URLs, JSON, HTTP, SHA-256 and Ed25519 are arguments.
\<close>

section \<open>Configuration\<close>

datatype UpdateChannel = Stable | PreRelease | Nightly

record UpdateConfig =
  cfg_enabled :: bool
  repo_owner :: string
  repo_name :: string
  check_interval_hours :: u32
  channel :: UpdateChannel
  include_prerelease :: bool
  cfg_auto_install :: bool
  installation_id :: "string option"
  require_signature_verification :: bool
  signature_public_key :: string
  min_allowed_version :: "string option"

definition includes_prerelease :: "UpdateChannel \<Rightarrow> bool" where
  "includes_prerelease ch = (ch = PreRelease \<or> ch = Nightly)"

definition effective_channel :: "UpdateConfig \<Rightarrow> UpdateChannel" where
  "effective_channel cfg = (if channel cfg = Stable \<and> include_prerelease cfg then PreRelease else channel cfg)"

section \<open>Staged rollout\<close>

unbundle bit_operations_syntax

text \<open>The loop of \<open>fnv1a_hash\<close>; the multiplication wraps.\<close>

definition fnv1a_hash :: "u8 list \<Rightarrow> u64" where
  "fnv1a_hash data = fold (\<lambda>byte hash. (hash XOR ucast byte) * 0x100000001b3) data 0xcbf29ce484222325"

definition str_bytes :: "string \<Rightarrow> u8 list" where "str_bytes s = map (\<lambda>c. of_nat (of_char c)) s"

definition is_eligible_for_rollout :: "string \<Rightarrow> string \<Rightarrow> u8 \<Rightarrow> bool" where
  "is_eligible_for_rollout inst_id version rollout_percent =
     (if rollout_percent \<ge> 100 then True
      else if rollout_percent = 0 then False
      else fnv1a_hash (str_bytes inst_id @ str_bytes version) mod 100 < ucast rollout_percent)"

text \<open>\<open>str::find\<close>: what follows the first occurrence, and what precedes it.\<close>

fun find_str :: "string \<Rightarrow> string \<Rightarrow> (string \<times> string) option" where
  "find_str n s =
     (if starts_with n s then Some ([], drop (length n) s)
      else (case s of [] \<Rightarrow> None | c # cs \<Rightarrow> map_option (\<lambda>(a, b). (c # a, b)) (find_str n cs)))"

declare find_str.simps [simp del]

definition dec_value :: "string \<Rightarrow> nat" where
  "dec_value s = fold (\<lambda>c n. 10 * n + (of_char c - 48)) s 0"

text \<open>\<open>str::parse\<close> for unsigned and signed integers of at most \<open>hi\<close> (at least \<open>- lo\<close>): an optional sign, then digits.\<close>

definition parse_digits :: "string \<Rightarrow> nat option" where
  "parse_digits s = (if s \<noteq> [] \<and> list_all is_ascii_digit s then Some (dec_value s) else None)"

definition parse_unsigned :: "nat \<Rightarrow> string \<Rightarrow> nat option" where
  "parse_unsigned hi s =
     (case parse_digits (if starts_with ''+'' s then List.tl s else s) of
        Some n \<Rightarrow> if n \<le> hi then Some n else None | None \<Rightarrow> None)"

definition parse_i64 :: "string \<Rightarrow> int option" where
  "parse_i64 s =
     (if starts_with ''-'' s
      then (case parse_digits (List.tl s) of Some n \<Rightarrow> if n \<le> 2 ^ 63 then Some (- int n) else None | None \<Rightarrow> None)
      else map_option int (parse_unsigned (2 ^ 63 - 1) s))"

definition parse_rollout_percent :: "string option \<Rightarrow> u8" where
  "parse_rollout_percent body =
     (case body of
        None \<Rightarrow> 100
      | Some b \<Rightarrow>
          (case find_str ''<!-- rollout:'' b of
             None \<Rightarrow> 100
           | Some (_, after) \<Rightarrow>
               (case find_str ''-->'' after of
                  None \<Rightarrow> 100
                | Some (inner, _) \<Rightarrow>
                    (case parse_unsigned 255 (trim inner) of None \<Rightarrow> 100 | Some n \<Rightarrow> min (of_nat n) 100))))"

section \<open>Assets\<close>

definition get_platform_tag :: "string \<Rightarrow> string \<Rightarrow> string" where
  "get_platform_tag os arch = os @ ''-'' @ (if arch = ''aarch64'' then ''arm64'' else if arch = ''x86_64'' then ''x64'' else arch)"

definition find_patch_asset :: "ReleaseAsset list \<Rightarrow> string \<Rightarrow> string \<Rightarrow> string \<Rightarrow> (string \<times> u64) option" where
  "find_patch_asset as platform current target =
     map_option (\<lambda>a. (browser_download_url a, asset_size a))
       (find (\<lambda>a. asset_name a = ''oneshim-'' @ platform @ ''-'' @ current @ ''-to-'' @ target @ ''.patch'') as)"

definition get_platform_patterns :: "string \<Rightarrow> string \<Rightarrow> UpdateError + string list" where
  "get_platform_patterns os arch =
     (if os = ''macos'' \<and> arch = ''aarch64'' then Inr [''macos-arm64'', ''darwin-arm64'', ''macos-aarch64'', ''darwin-aarch64'']
      else if os = ''macos'' \<and> arch = ''x86_64'' then Inr [''macos-x64'', ''darwin-x64'', ''macos-x86_64'', ''darwin-x86_64'']
      else if os = ''windows'' \<and> arch = ''x86_64'' then Inr [''windows-x64'', ''windows-x86_64'', ''win64'', ''win-x64'']
      else if os = ''windows'' \<and> arch = ''aarch64'' then Inr [''windows-arm64'', ''windows-aarch64'', ''win-arm64'']
      else if os = ''linux'' \<and> arch = ''x86_64'' then Inr [''linux-x64'', ''linux-x86_64'', ''linux-amd64'']
      else if os = ''linux'' \<and> arch = ''aarch64'' then Inr [''linux-arm64'', ''linux-aarch64'']
      else Inl (UnsupportedPlatform (os @ ''-'' @ arch)))"

definition find_platform_asset :: "(string \<Rightarrow> string) \<Rightarrow> string \<Rightarrow> string \<Rightarrow> ReleaseInfo \<Rightarrow> UpdateError + string \<times> u64" where
  "find_platform_asset lower os arch release =
     rbind (get_platform_patterns os arch) (\<lambda>patterns.
       case find (\<lambda>a. list_ex (\<lambda>p. find_str p (lower (asset_name a)) \<noteq> None) patterns) (assets release) of
         Some a \<Rightarrow> Inr (browser_download_url a, asset_size a)
       | None \<Rightarrow> Inl NoSuitableAsset)"

section \<open>Checking\<close>

text \<open>What the code uses of \<open>semver\<close>: parsing, the order and the text of a version.\<close>

record 'v semver =
  sv_parse :: "string \<Rightarrow> string + 'v"
  sv_less :: "'v \<Rightarrow> 'v \<Rightarrow> bool"
  sv_show :: "'v \<Rightarrow> string"

definition parse_version :: "'v semver \<Rightarrow> string \<Rightarrow> UpdateError + 'v" where
  "parse_version sv s = (case sv_parse sv s of Inl e \<Rightarrow> Inl (VersionParse e) | Inr v \<Rightarrow> Inr v)"

definition enforce_version_floor :: "'v semver \<Rightarrow> UpdateConfig \<Rightarrow> 'v \<Rightarrow> UpdateError + unit" where
  "enforce_version_floor sv cfg latest =
     (case min_allowed_version cfg of
        None \<Rightarrow> Inr ()
      | Some m \<Rightarrow>
          if trim m = [] then Inr ()
          else (case sv_parse sv m of
                  Inl e \<Rightarrow> Inl (Integrity (''Invalid min_allowed_version: '' @ e))
                | Inr floor' \<Rightarrow>
                    if sv_less sv latest floor'
                    then Inl (Integrity (''Release version '' @ sv_show sv latest @ '' is below configured minimum '' @ sv_show sv floor'))
                    else Inr ()))"

record api_response =
  is_success :: bool
  http_status :: string
  json_releases :: "UpdateError + ReleaseInfo list"
  json_release :: "UpdateError + ReleaseInfo"

definition release_url_for :: "UpdateConfig \<Rightarrow> string \<Rightarrow> string" where
  "release_url_for cfg base =
     base @ ''/repos/'' @ repo_owner cfg @ ''/'' @ repo_name cfg @
       (if includes_prerelease (effective_channel cfg) then ''/releases?per_page=1'' else ''/releases/latest'')"

definition fetch_target_release :: "(string \<Rightarrow> UpdateError + api_response) \<Rightarrow> UpdateConfig \<Rightarrow> string \<Rightarrow> UpdateError + ReleaseInfo" where
  "fetch_target_release get cfg base =
     rbind (get (release_url_for cfg base)) (\<lambda>r.
       if \<not> is_success r then Inl (ParseResponse (''API response status: '' @ http_status r))
       else if includes_prerelease (effective_channel cfg)
       then rbind (json_releases r) (\<lambda>rs. case rs of [] \<Rightarrow> Inl (ParseResponse ''No releases found'') | x # _ \<Rightarrow> Inr x)
       else json_release r)"

record 'v updater_env =
  env_sv :: "'v semver"
  env_get :: "string \<Rightarrow> UpdateError + api_response"
  env_lower :: "string \<Rightarrow> string"
  env_os :: string
  env_arch :: string
  env_version :: string

definition offer_update :: "'v updater_env \<Rightarrow> UpdateConfig \<Rightarrow> 'v \<Rightarrow> 'v \<Rightarrow> ReleaseInfo \<Rightarrow> UpdateError + UpdateCheckResult" where
  "offer_update env cfg current latest release =
     (let latest_str = sv_show (env_sv env) latest; current_str = sv_show (env_sv env) current;
          rollout_percent = parse_rollout_percent (rel_body release)
      in case installation_id cfg of
           None \<Rightarrow> Inr (UpToDate current_str)
         | Some inst \<Rightarrow>
             if \<not> is_eligible_for_rollout inst latest_str rollout_percent then Inr (UpToDate current_str)
             else (case find_patch_asset (assets release) (get_platform_tag (env_os env) (env_arch env)) current_str latest_str of
                     Some (url, sz) \<Rightarrow> Inr (Available current_str latest_str release url (Some sz) (DeltaPatch current_str))
                   | None \<Rightarrow>
                       rbind (find_platform_asset (env_lower env) (env_os env) (env_arch env) release) (\<lambda>(url, sz).
                         Inr (Available current_str latest_str release url (Some sz) FullBinary))))"

definition check_for_updates_from :: "'v updater_env \<Rightarrow> UpdateConfig \<Rightarrow> string \<Rightarrow> UpdateError + UpdateCheckResult" where
  "check_for_updates_from env cfg base =
     (if \<not> cfg_enabled cfg then Inl Disabled
      else rbind (parse_version (env_sv env) (env_version env)) (\<lambda>current.
           rbind (fetch_target_release (env_get env) cfg base) (\<lambda>release.
           rbind (parse_version (env_sv env) (dropWhile (\<lambda>c. c = CHR ''v'') (tag_name release))) (\<lambda>latest.
           rbind (enforce_version_floor (env_sv env) cfg latest) (\<lambda>_.
             if sv_less (env_sv env) current latest then offer_update env cfg current latest release
             else Inr (UpToDate (sv_show (env_sv env) current)))))))"

definition check_for_updates :: "'v updater_env \<Rightarrow> UpdateConfig \<Rightarrow> UpdateError + UpdateCheckResult" where
  "check_for_updates env cfg = check_for_updates_from env cfg ''https://api.github.com''"

record UpdatePreview =
  preview_version :: string
  preview_bytes :: u64
  asset_count :: nat

definition preview_update_availability :: "'v updater_env \<Rightarrow> UpdateConfig \<Rightarrow> UpdateError + UpdatePreview" where
  "preview_update_availability env cfg =
     rbind (check_for_updates env cfg) (\<lambda>r.
       case r of
         Available _ latest release _ _ _ \<Rightarrow>
           Inr \<lparr>preview_version = latest, preview_bytes = sum_list (map asset_size (assets release)), asset_count = length (assets release)\<rparr>
       | UpToDate current \<Rightarrow> Inr \<lparr>preview_version = current, preview_bytes = 0, asset_count = 0\<rparr>)"

text \<open>The file of the last check: absent, unreadable, or its content; the time and the content are in seconds.\<close>

datatype last_check = NoFile | Unreadable | Content string

definition should_check_for_updates :: "UpdateConfig \<Rightarrow> last_check \<Rightarrow> int \<Rightarrow> bool" where
  "should_check_for_updates cfg file now =
     (if \<not> cfg_enabled cfg then False
      else case file of
        NoFile \<Rightarrow> True
      | Unreadable \<Rightarrow> True
      | Content s \<Rightarrow>
          (case parse_i64 (trim s) of
             None \<Rightarrow> True
           | Some last_check \<Rightarrow> now - last_check \<ge> uint (check_interval_hours cfg) * 3600))"

definition save_last_check_time :: "int \<Rightarrow> last_check" where "save_last_check_time now = Content (show_int now)"

end
