(* ===== verification/UpdateInstall.thy ===== *)
theory UpdateInstall
  imports UpdateSelect "HOL-Library.AList"
begin

text \<open>
  Downloading, verifying, installing and rolling back: \<open>src-tauri/src/updater/install.rs\<close>, \<open>src-tauri/src/updater/health_probe.rs\<close> and
  \<open>src-tauri/src/app_runtime_launch_health_probe.rs\<close>. The install directory is an association list of file names to contents, in the order
  of its listing; what the operating system may refuse is an argument.
\<close>

section \<open>Accepting a download\<close>

definition ALLOWED_DOWNLOAD_HOSTS :: "string list" where
  "ALLOWED_DOWNLOAD_HOSTS = [''github.com'', ''api.github.com'', ''objects.githubusercontent.com'', ''githubusercontent.com'']"

definition is_allowed_download_host :: "string \<Rightarrow> bool" where
  "is_allowed_download_host host = list_ex (\<lambda>a. host = a \<or> ends_with (''.'' @ a) host) ALLOWED_DOWNLOAD_HOSTS"

record url =
  scheme :: string
  host_str :: "string option"
  path_name :: "string option"
  as_str :: string

definition validate_download_url :: "(string \<Rightarrow> string + url) \<Rightarrow> string \<Rightarrow> UpdateError + url" where
  "validate_download_url parse s =
     (case parse s of
        Inl e \<Rightarrow> Inl (Download (''Failed to parse download URL: '' @ e))
      | Inr u \<Rightarrow>
          (case host_str u of
             None \<Rightarrow> Inl (Download ''Download URL host is missing'')
           | Some host \<Rightarrow>
               if scheme u \<noteq> ''https'' then Inl (Download (''Only HTTPS download URLs are allowed: '' @ as_str u))
               else if \<not> is_allowed_download_host host then Inl (Download (''Disallowed download host: '' @ host))
               else Inr u))"

text \<open>\<open>split_whitespace().next()\<close>: up to the next white space (of any encoding) after the leading one.\<close>

fun until_white :: "string \<Rightarrow> string" where
  "until_white [] = []"
| "until_white (c # cs) = (if list_ex (\<lambda>w. starts_with w (c # cs)) white_space then [] else c # until_white cs)"

definition first_word :: "string \<Rightarrow> string option" where
  "first_word s = (let t = trim_start s in if t = [] then None else Some (until_white t))"

definition parse_sha256_manifest :: "string \<Rightarrow> UpdateError + string" where
  "parse_sha256_manifest content =
     (case first_word content of
        None \<Rightarrow> Inl (Integrity ''Checksum file is empty'')
      | Some w \<Rightarrow>
          (let hash = map to_ascii_lowercase w
           in if length hash = 64 \<and> list_all is_ascii_hexdigit hash then Inr hash
              else Inl (Integrity (''Invalid SHA-256 format: '' @ hash))))"

text \<open>The crypto and the network: \<open>verify key payload signature\<close> is \<open>try_verify_with_key_b64\<close> returning \<open>Ok\<close>.\<close>

record net =
  parse_url :: "string \<Rightarrow> string + url"
  http_get :: "string \<Rightarrow> UpdateError + bool \<times> string \<times> u8 list"
  utf8 :: "u8 list \<Rightarrow> string + string"
  b64 :: "string \<Rightarrow> string + u8 list"
  sha256 :: "u8 list \<Rightarrow> u8 list"
  verify_key :: "string \<Rightarrow> u8 list \<Rightarrow> u8 list \<Rightarrow> bool"

definition sha256_hex :: "net \<Rightarrow> u8 list \<Rightarrow> string" where "sha256_hex n bs = hex_lower (sha256 n bs)"

definition parse_suffixed :: "net \<Rightarrow> string \<Rightarrow> url \<Rightarrow> string \<Rightarrow> UpdateError + url" where
  "parse_suffixed n what u ext =
     (case parse_url n (as_str u @ ext) of
        Inl e \<Rightarrow> Inl (Integrity (''Failed to parse '' @ what @ '' URL: '' @ e))
      | Inr u' \<Rightarrow> rbind (validate_download_url (parse_url n) (as_str u')) (\<lambda>_. Inr u'))"

definition fetch_expected_sha256 :: "net \<Rightarrow> url \<Rightarrow> UpdateError + string" where
  "fetch_expected_sha256 n u =
     rbind (parse_suffixed n ''checksum'' u ''.sha256'') (\<lambda>cu.
     rbind (http_get n (as_str cu)) (\<lambda>(ok, st, body).
       if \<not> ok then Inl (Integrity (''Failed to download checksum file: HTTP '' @ st @ '' ('' @ as_str cu @ '')''))
       else case utf8 n body of
         Inl e \<Rightarrow> Inl (Integrity (''Invalid checksum file encoding: '' @ e))
       | Inr text \<Rightarrow> parse_sha256_manifest text))"

definition fetch_signature :: "net \<Rightarrow> url \<Rightarrow> UpdateError + u8 list" where
  "fetch_signature n u =
     rbind (parse_suffixed n ''signature'' u ''.sig'') (\<lambda>su.
     rbind (http_get n (as_str su)) (\<lambda>(ok, st, body).
       if \<not> ok then Inl (Integrity (''Failed to download signature file: HTTP '' @ st @ '' ('' @ as_str su @ '')''))
       else case utf8 n body of
         Inl e \<Rightarrow> Inl (Integrity (''Invalid signature file encoding: '' @ e))
       | Inr text \<Rightarrow>
           (case first_word text of
              None \<Rightarrow> Inl (Integrity ''Signature file is empty'')
            | Some w \<Rightarrow>
                (case b64 n w of Inl e \<Rightarrow> Inl (Integrity (''Failed to decode signature base64: '' @ e)) | Inr sig \<Rightarrow> Inr sig))))"

definition verify_signature_with_keys :: "net \<Rightarrow> string list \<Rightarrow> string option \<Rightarrow> u8 list \<Rightarrow> u8 list \<Rightarrow> UpdateError + unit" where
  "verify_signature_with_keys n trusted configured payload sig =
     (if length sig \<noteq> 64
      then Inl (Integrity (''Invalid signature length: '' @ show_nat (length sig) @ '' bytes (expected 64)''))
      else if list_ex (\<lambda>k. verify_key n k payload sig) trusted then Inr ()
      else (case configured of
              Some k \<Rightarrow> if k \<notin> set trusted \<and> verify_key n k payload sig then Inr ()
                         else Inl (Integrity ''no trusted key validated the signature'')
            | None \<Rightarrow> Inl (Integrity ''no trusted key validated the signature'')))"

definition TRUSTED_PUBLIC_KEYS :: "string list" where
  "TRUSTED_PUBLIC_KEYS = [''GIdf7Wg4kvvvoT7jR0xwKLKna8hUR1kvowONbHbPz1E='']"

definition verify_signature :: "net \<Rightarrow> UpdateConfig \<Rightarrow> u8 list \<Rightarrow> u8 list \<Rightarrow> UpdateError + unit" where
  "verify_signature n cfg payload sig =
     (let configured = (case first_word (signature_public_key cfg) of Some k \<Rightarrow> if trim k \<noteq> [] then Some k else None | None \<Rightarrow> None)
      in verify_signature_with_keys n TRUSTED_PUBLIC_KEYS configured payload sig)"

text \<open>Temporary files: the name and the bytes. The result also says which temporary file is left.\<close>

definition temp_name :: "url \<Rightarrow> string \<Rightarrow> string" where
  "temp_name u unique = ''oneshim-'' @ unique @ ''-'' @ trim (case path_name u of Some p \<Rightarrow> p | None \<Rightarrow> ''oneshim-update'')"

definition download_update :: "net \<Rightarrow> UpdateConfig \<Rightarrow> (UpdateError + unit) \<Rightarrow> string \<Rightarrow> string \<Rightarrow> UpdateError + string \<times> u8 list" where
  "download_update n cfg disk unique download_url =
     rbind (validate_download_url (parse_url n) download_url) (\<lambda>u.
     rbind (http_get n (as_str u)) (\<lambda>(ok, st, bytes).
       if \<not> ok then Inl (Download (''Download failed: HTTP '' @ st))
       else rbind (fetch_expected_sha256 n u) (\<lambda>expected.
         if sha256_hex n bytes \<noteq> expected
         then Inl (Integrity (''Checksum mismatch: expected='' @ expected @ '', actual='' @ sha256_hex n bytes))
         else rbind (if require_signature_verification cfg
                     then rbind (fetch_signature n u) (verify_signature n cfg bytes) else Inr ()) (\<lambda>_.
              rbind disk (\<lambda>_. Inr (temp_name u unique, bytes))))))"

text \<open>The streamed form: the chunks (or the error that ends the stream), the writes, the file read back.\<close>

fun write_chunks :: "(UpdateError + unit) \<Rightarrow> (string + u8 list) list \<Rightarrow> u8 list \<Rightarrow> (UpdateError + unit) \<times> u8 list" where
  "write_chunks disk [] acc = (Inr (), acc)"
| "write_chunks disk (Inl e # _) acc = (Inl (Download (''Stream error: '' @ e)), acc)"
| "write_chunks disk (Inr ch # cs) acc = (case disk of Inl e \<Rightarrow> (Inl e, acc) | Inr _ \<Rightarrow> write_chunks disk cs (acc @ ch))"

definition download_update_with_progress ::
    "net \<Rightarrow> UpdateConfig \<Rightarrow> (UpdateError + unit) \<Rightarrow> (string \<Rightarrow> UpdateError + bool \<times> string \<times> (string + u8 list) list) \<Rightarrow> string \<Rightarrow> string
      \<Rightarrow> (UpdateError + string) \<times> (string \<times> u8 list) option" where
  "download_update_with_progress n cfg disk stream unique download_url =
     (case rbind (validate_download_url (parse_url n) download_url) (\<lambda>u. rbind (stream (as_str u)) (\<lambda>r. Inr (u, r))) of
        Inl e \<Rightarrow> (Inl e, None)
      | Inr (u, ok, st, chunks) \<Rightarrow>
          if \<not> ok then (Inl (Download (''Download failed: HTTP '' @ st)), None)
          else (case disk of
                  Inl e \<Rightarrow> (Inl e, None)
                | Inr _ \<Rightarrow>
                    (case write_chunks disk chunks [] of
                       (Inl e, partial) \<Rightarrow> (Inl e, Some (temp_name u unique, partial))
                     | (Inr _, bytes) \<Rightarrow>
                         (case fetch_expected_sha256 n u of
                            Inl e \<Rightarrow> (Inl e, Some (temp_name u unique, bytes))
                          | Inr expected \<Rightarrow>
                              if sha256_hex n bytes \<noteq> expected
                              then (Inl (Integrity (''Checksum mismatch: expected='' @ expected @ '', actual='' @ sha256_hex n bytes)), None)
                              else if \<not> require_signature_verification cfg
                              then (Inr (temp_name u unique), Some (temp_name u unique, bytes))
                              else (case rbind (fetch_signature n u) (verify_signature n cfg bytes) of
                                      Inl e \<Rightarrow> (Inl e, Some (temp_name u unique, bytes))
                                    | Inr _ \<Rightarrow> (Inr (temp_name u unique), Some (temp_name u unique, bytes)))))))"

section \<open>The install directory\<close>

datatype Component = Prefix | RootDir | CurDir | ParentDir | Normal string

definition is_safe_archive_path :: "Component list \<Rightarrow> bool" where
  "is_safe_archive_path p = list_all (\<lambda>c. case c of Normal _ \<Rightarrow> True | CurDir \<Rightarrow> True | _ \<Rightarrow> False) p"

record InstallPending =
  installed_at :: string
  previous_version :: string
  backup_path :: string

datatype content = Binary "u8 list" | PendingJson InstallPending | Notice RollbackInfo | Text string | Garbage

type_synonym dir = "(string \<times> content) list"

definition fs_write :: "string \<Rightarrow> content \<Rightarrow> dir \<Rightarrow> dir" where "fs_write f c d = AList.update f c d"

definition fs_remove :: "string \<Rightarrow> dir \<Rightarrow> dir" where "fs_remove f d = AList.delete f d"

definition fs_rename :: "string \<Rightarrow> string \<Rightarrow> dir \<Rightarrow> dir" where
  "fs_rename f g d = (case map_of d f of Some c \<Rightarrow> fs_write g c (if f = g then d else fs_remove f d) | None \<Rightarrow> d)"

section \<open>Installation\<close>

definition backup_name :: "string \<Rightarrow> string \<Rightarrow> string" where "backup_name exe ts = exe @ ''.rollback.'' @ ts"

definition pending_name :: "string \<Rightarrow> string" where "pending_name v = ''.install_pending_'' @ v"

datatype archive_kind = TarGz | Zip | Loose

definition archive_kind_of :: "string \<Rightarrow> archive_kind" where
  "archive_kind_of file_name =
     (if ends_with ''.tar.gz'' file_name \<or> ends_with ''.tgz'' file_name then TarGz
      else if ends_with ''.zip'' file_name then Zip else Loose)"

text \<open>
  What the system answers during one installation: the copy of the running binary, the unpacking of an archive (the binary
  found in it), the two replacements of the binary, the marker and the restart.
\<close>

record install_env =
  copy_ok :: "UpdateError + unit"
  unpack :: "archive_kind \<Rightarrow> u8 list \<Rightarrow> UpdateError + u8 list"
  replace_ok :: "UpdateError + unit"
  marker_ok :: "UpdateError + unit"
  restart_ok :: "UpdateError + unit"
  restore_ok :: "UpdateError + unit"
  stamp :: string
  now_text :: string
  old_version :: string

definition extract_if_archive :: "install_env \<Rightarrow> string \<Rightarrow> u8 list \<Rightarrow> UpdateError + u8 list" where
  "extract_if_archive e file_name bytes =
     (case archive_kind_of file_name of Loose \<Rightarrow> Inr bytes | k \<Rightarrow> unpack e k bytes)"

definition write_install_pending :: "install_env \<Rightarrow> string \<Rightarrow> string \<Rightarrow> dir \<Rightarrow> (UpdateError + unit) \<times> dir" where
  "write_install_pending e new_version backup d =
     (case marker_ok e of
        Inl err \<Rightarrow> (Inl err, d)
      | Inr _ \<Rightarrow> (Inr (), fs_write (pending_name new_version)
                   (PendingJson \<lparr>installed_at = now_text e, previous_version = old_version e, backup_path = backup\<rparr>) d))"

definition install_and_restart_with_ops ::
    "install_env \<Rightarrow> string \<Rightarrow> string \<Rightarrow> u8 list \<Rightarrow> string option \<Rightarrow> dir \<Rightarrow> (UpdateError + unit) \<times> dir" where
  "install_and_restart_with_ops e exe file_name bytes new_version d =
     (let backup = backup_name exe (stamp e)
      in case rbind (copy_ok e) (\<lambda>_. case map_of d exe of Some c \<Rightarrow> Inr c | None \<Rightarrow> Inl (Filesystem ''not found'')) of
           Inl err \<Rightarrow> (Inl err, d)
         | Inr old \<Rightarrow>
             (let d = fs_write backup old d
              in case extract_if_archive e file_name bytes of
                   Inl err \<Rightarrow> (Inl err, fs_remove backup d)
                 | Inr binary \<Rightarrow>
                     (case replace_ok e of
                        Inl err \<Rightarrow> (Inl err, fs_remove backup d)
                      | Inr _ \<Rightarrow>
                          (let d = fs_write exe (Binary binary) d;
                               (marked, d) = (case new_version of None \<Rightarrow> (Inr (), d) | Some v \<Rightarrow> write_install_pending e v backup d)
                           in case marked of
                                Inl err \<Rightarrow> (Inl err, d)
                              | Inr _ \<Rightarrow>
                                  (case restart_ok e of
                                     Inr _ \<Rightarrow> (Inr (), d)
                                   | Inl restart_err \<Rightarrow>
                                       (case restore_ok e of
                                          Inr _ \<Rightarrow> (Inl (Install (''Rollback completed after restart failure: '' @ display restart_err)), fs_write exe old d)
                                        | Inl rollback_err \<Rightarrow>
                                            (Inl (Install (''Restart failed and rollback failed: restart='' @ display restart_err @ '', rollback='' @
                                               display rollback_err)), d)))))))"

definition install_and_restart_versioned :: "install_env \<Rightarrow> string \<Rightarrow> string \<Rightarrow> u8 list \<Rightarrow> string option \<Rightarrow> dir \<Rightarrow> (UpdateError + unit) \<times> dir" where
  "install_and_restart_versioned e exe file_name bytes new_version d = install_and_restart_with_ops e exe file_name bytes new_version d"

definition install_and_restart :: "install_env \<Rightarrow> string \<Rightarrow> string \<Rightarrow> u8 list \<Rightarrow> dir \<Rightarrow> (UpdateError + unit) \<times> dir" where
  "install_and_restart e exe file_name bytes d = install_and_restart_versioned e exe file_name bytes None d"

end
