(* ===== verification/UpdateProbe.thy ===== *)
theory UpdateProbe
  imports UpdateInstall
begin

text \<open>
  The health probe of \<open>src-tauri/src/updater/health_probe.rs\<close>, the rollback of \<open>src-tauri/src/updater/install.rs\<close> and the startup phase of
  \<open>src-tauri/src/app_runtime_launch_health_probe.rs\<close> on the install directory. Times are nanoseconds; \<open>rfc3339\<close> stands for the parser of
  time stamps.
\<close>

section \<open>Data\<close>

record HealthProbe =
  probe_version :: string
  healthy_threshold :: int
  failed_boot_threshold :: u8

definition probe_new :: "string \<Rightarrow> HealthProbe" where
  "probe_new v = \<lparr>probe_version = v, healthy_threshold = secs 30, failed_boot_threshold = 2\<rparr>"

datatype StartupAction = NormalStart | RollbackRequired (rb_from: string) (rb_to: string) (rb_backup: string) (rb_reason: RollbackReason)

datatype ProbeError = InstallPendingParse | ProbeIo

datatype listing = Listed | ListNotFound | ListFailed

text \<open>What the system refuses: the read of the marker, the listing, the new boot marker, and the removal of some files.\<close>

record probe_io =
  marker_readable :: bool
  listing_of :: listing
  marker_creatable :: bool
  stuck :: "string \<Rightarrow> bool"
  healthy_writable :: bool

definition STALENESS_CUTOFF :: int where "STALENESS_CUTOFF = secs (24 * 60 * 60)"

section \<open>Names\<close>

definition legacy_boot_count_name :: "string \<Rightarrow> string" where "legacy_boot_count_name v = ''.boot_count_'' @ v"

definition boot_count_pid_prefix :: "string \<Rightarrow> string" where "boot_count_pid_prefix v = ''.boot_count_pid_'' @ v @ ''_''"

definition boot_count_pid_name :: "string \<Rightarrow> nat \<Rightarrow> string" where "boot_count_pid_name v pid = boot_count_pid_prefix v @ show_nat pid"

definition self_healthy_name :: "string \<Rightarrow> string" where "self_healthy_name v = ''.self_healthy_'' @ v"

definition exists_file :: "dir \<Rightarrow> string \<Rightarrow> bool" where "exists_file d f \<longleftrightarrow> map_of d f \<noteq> None"

text \<open>\<open>let _ = remove_file(..)\<close>.\<close>

definition try_remove :: "probe_io \<Rightarrow> string \<Rightarrow> dir \<Rightarrow> dir" where
  "try_remove io f d = (if stuck io f then d else fs_remove f d)"

definition listed :: "probe_io \<Rightarrow> dir \<Rightarrow> string list" where
  "listed io d = (if listing_of io = Listed then map fst d else [])"

section \<open>The boot counter\<close>

definition boot_count :: "probe_io \<Rightarrow> string \<Rightarrow> dir \<Rightarrow> ProbeError + nat" where
  "boot_count io v d =
     (case listing_of io of
        ListNotFound \<Rightarrow> Inr 0
      | ListFailed \<Rightarrow> Inl ProbeIo
      | Listed \<Rightarrow> Inr (min (length (filter (starts_with (boot_count_pid_prefix v)) (map fst d))) (2 ^ 32 - 1)))"

definition record_boot_attempt :: "probe_io \<Rightarrow> string \<Rightarrow> nat \<Rightarrow> dir \<Rightarrow> (ProbeError + unit) \<times> dir" where
  "record_boot_attempt io v pid d =
     (if exists_file d (boot_count_pid_name v pid) then (Inr (), d)
      else if \<not> marker_creatable io then (Inl ProbeIo, d)
      else (Inr (), fs_write (boot_count_pid_name v pid) (Text []) d))"

definition cleanup_boot_count_markers :: "probe_io \<Rightarrow> string \<Rightarrow> dir \<Rightarrow> dir" where
  "cleanup_boot_count_markers io v d =
     try_remove io (legacy_boot_count_name v)
       (fold (try_remove io) (filter (starts_with (boot_count_pid_prefix v)) (listed io d)) d)"

section \<open>The startup check\<close>

definition read_install_pending :: "probe_io \<Rightarrow> string \<Rightarrow> dir \<Rightarrow> ProbeError + InstallPending" where
  "read_install_pending io f d =
     (if \<not> marker_readable io then Inl ProbeIo
      else case map_of d f of Some (PendingJson p) \<Rightarrow> Inr p | Some _ \<Rightarrow> Inl InstallPendingParse | None \<Rightarrow> Inl ProbeIo)"

definition marker_is_stale :: "(string \<Rightarrow> int option) \<Rightarrow> int \<Rightarrow> string \<Rightarrow> int \<Rightarrow> bool" where
  "marker_is_stale rfc3339 now ts cutoff =
     (case rfc3339 ts of None \<Rightarrow> False | Some t \<Rightarrow> if now - t < 0 then False else now - t > cutoff)"

definition check_startup_state_inner ::
    "(string \<Rightarrow> int option) \<Rightarrow> probe_io \<Rightarrow> int \<Rightarrow> nat \<Rightarrow> HealthProbe \<Rightarrow> dir \<Rightarrow> (ProbeError + StartupAction) \<times> dir" where
  "check_startup_state_inner rfc3339 io now pid h d =
     (let v = probe_version h
      in if exists_file d (self_healthy_name v) then (Inr NormalStart, d)
         else if \<not> exists_file d (pending_name v) then (Inr NormalStart, d)
         else case read_install_pending io (pending_name v) d of
           Inl e \<Rightarrow> (Inl e, d)
         | Inr p \<Rightarrow>
             if marker_is_stale rfc3339 now (installed_at p) STALENESS_CUTOFF
             then (Inr NormalStart, cleanup_boot_count_markers io v (try_remove io (pending_name v) d))
             else (let d = try_remove io (legacy_boot_count_name v) d;
                       current_count = (case boot_count io v d of Inr n \<Rightarrow> n | Inl _ \<Rightarrow> 0)
                   in if current_count \<ge> unat (failed_boot_threshold h)
                      then (Inr (RollbackRequired v (previous_version p) (backup_path p) RepeatedStartupFailure), d)
                      else (case record_boot_attempt io v pid d of
                              (Inl e, d) \<Rightarrow> (Inl e, d)
                            | (Inr _, d) \<Rightarrow> (Inr NormalStart, d))))"

definition check_startup_state ::
    "(string \<Rightarrow> int option) \<Rightarrow> probe_io \<Rightarrow> int \<Rightarrow> nat \<Rightarrow> HealthProbe \<Rightarrow> dir \<Rightarrow> StartupAction \<times> dir" where
  "check_startup_state rfc3339 io now pid h d =
     (case check_startup_state_inner rfc3339 io now pid h d of (Inr a, d) \<Rightarrow> (a, d) | (Inl _, d) \<Rightarrow> (NormalStart, d))"

section \<open>The healthy marker\<close>

definition strip_prefix :: "string \<Rightarrow> string \<Rightarrow> string option" where
  "strip_prefix p s = (if starts_with p s then Some (drop (length p) s) else None)"

text \<open>The part before the last underscore.\<close>

definition rsplit_version :: "string \<Rightarrow> string option" where
  "rsplit_version s = (if CHR ''_'' \<in> set s then Some (rev (List.tl (dropWhile (\<lambda>c. c \<noteq> CHR ''_'') (rev s)))) else None)"

definition swept :: "string \<Rightarrow> string option \<Rightarrow> string \<Rightarrow> bool" where
  "swept v keep name =
     (if find_str ''.rollback.'' name \<noteq> None then keep \<noteq> Some name
      else case strip_prefix ''.boot_count_pid_'' name of
        Some s \<Rightarrow> (case rsplit_version s of Some ver \<Rightarrow> ver \<noteq> [] \<and> ver \<noteq> v | None \<Rightarrow> False)
      | None \<Rightarrow>
          (case strip_prefix ''.boot_count_'' name of
             Some s \<Rightarrow> s \<noteq> []
           | None \<Rightarrow>
               (case strip_prefix ''.install_pending_'' name of
                  Some s \<Rightarrow> s \<noteq> [] \<and> s \<noteq> v
                | None \<Rightarrow> (case strip_prefix ''.self_healthy_'' name of Some s \<Rightarrow> s \<noteq> [] \<and> s \<noteq> v | None \<Rightarrow> False))))"

definition write_self_healthy_and_cleanup :: "probe_io \<Rightarrow> string \<Rightarrow> string \<Rightarrow> dir \<Rightarrow> (ProbeError + unit) \<times> dir" where
  "write_self_healthy_and_cleanup io now v d =
     (let keep = (case read_install_pending io (pending_name v) d of Inr p \<Rightarrow> Some (backup_path p) | Inl _ \<Rightarrow> None)
      in if \<not> healthy_writable io then (Inl ProbeIo, d)
         else (let d = fs_write (self_healthy_name v) (Text now) d;
                   d = try_remove io (pending_name v) d;
                   d = fold (try_remove io) (filter (starts_with (boot_count_pid_prefix v)) (listed io d)) d;
                   d = try_remove io (legacy_boot_count_name v) d
               in (Inr (), fold (try_remove io) (filter (swept v keep) (listed io d)) d)))"

section \<open>Rollback\<close>

definition notice_name :: "string \<Rightarrow> string" where "notice_name v = ''.rolled_back_notification_'' @ v"

text \<open>On Unix; every file of the directory is a regular one, \<open>notice_ok\<close> and \<open>rename_ok\<close> are the answers of the system.\<close>

definition execute_rollback_swap_only ::
    "bool \<Rightarrow> (UpdateError + unit) \<Rightarrow> string \<Rightarrow> string \<Rightarrow> string \<Rightarrow> string \<Rightarrow> string \<Rightarrow> RollbackReason \<Rightarrow> dir
      \<Rightarrow> (UpdateError + RollbackInfo) \<times> dir" where
  "execute_rollback_swap_only notice_ok rename_ok now backup exe from_v to_v reason d =
     (if \<not> exists_file d backup then (Inl (Install (''rollback backup not found: '' @ backup)), d)
      else (let info = \<lparr>from_version = from_v, from_published_at = None, to_version = to_v, to_published_at = None,
                        rollback_reason = reason, rolled_back_at = now\<rparr>;
                d = (if notice_ok then fs_write (notice_name to_v) (Notice info) d else d)
            in case rename_ok of Inl e \<Rightarrow> (Inl e, d) | Inr _ \<Rightarrow> (Inr info, fs_rename backup exe d)))"

datatype startup_outcome = Running "HealthProbe option" | ReplacedBy RollbackInfo

text \<open>The notices found at startup: those for the running version are shown, all are removed.\<close>

definition rolled_back_scan :: "probe_io \<Rightarrow> string \<Rightarrow> dir \<Rightarrow> RollbackInfo list \<times> dir" where
  "rolled_back_scan io v d =
     (let names = filter (starts_with ''.rolled_back_notification_'') (listed io d)
      in (concat (map (\<lambda>f. case map_of d f of Some (Notice info) \<Rightarrow> if to_version info = v then [info] else [] | _ \<Rightarrow> []) names),
          fold (try_remove io) names d))"

definition execute_startup_probe ::
    "(string \<Rightarrow> int option) \<Rightarrow> probe_io \<Rightarrow> int \<Rightarrow> nat \<Rightarrow> bool \<Rightarrow> (UpdateError + unit) \<Rightarrow> (UpdateError + unit) \<Rightarrow> string \<Rightarrow> string \<Rightarrow> string \<Rightarrow> dir
      \<Rightarrow> startup_outcome \<times> dir" where
  "execute_startup_probe rfc3339 io now pid notice_ok rename_ok spawn_ok now_txt exe v d =
     (case check_startup_state rfc3339 io now pid (probe_new v) d of
        (NormalStart, d) \<Rightarrow> (Running (Some (probe_new v)), d)
      | (RollbackRequired from_v to_v backup reason, d) \<Rightarrow>
          (case execute_rollback_swap_only notice_ok rename_ok now_txt backup exe from_v to_v reason d of
             (Inl e, d) \<Rightarrow> (Running None, d)
           | (Inr info, d) \<Rightarrow> (case spawn_ok of Inl _ \<Rightarrow> (Running None, d) | Inr _ \<Rightarrow> (ReplacedBy info, d))))"

end
