(* ===== verification/UpdateProperties.thy ===== *)
theory UpdateProperties
  imports UpdateRuns UpdateProbe
begin

text \<open>
  The properties of the updater that join its parts: the rollout, the addresses and the files it accepts, what a failed
  installation leaves, and the rollback after two boots that never became healthy.
\<close>

declare show_nat.simps [simp del] map_of_eq_Some_iff [simp del] Some_eq_map_of_iff [simp del]

section \<open>Files\<close>

named_theorems fs_simps \<open>lookups in the install directory\<close>

lemma map_of_fs [fs_simps]:
  "map_of (fs_write f c d) = (map_of d)(f \<mapsto> c)" "map_of (fs_remove f d) = (map_of d)(f := None)"
  by (simp_all add: fs_write_def fs_remove_def AList.update_conv' AList.delete_conv')

lemma map_of_fs_rename [fs_simps]:
  "f \<noteq> g \<Longrightarrow> map_of d f = Some c \<Longrightarrow> map_of (fs_rename f g d) = (map_of d)(f := None, g \<mapsto> c)"
  by (simp add: fs_rename_def fs_simps)

lemma distinct_fs [simp]:
  "distinct (map fst d) \<Longrightarrow> distinct (map fst (fs_write f c d))" "distinct (map fst d) \<Longrightarrow> distinct (map fst (fs_remove f d))"
  by (simp_all add: fs_write_def fs_remove_def AList.distinct_update AList.distinct_delete)

lemma names_map_of: "fst ` set d = dom (map_of d)"
  by (simp add: dom_map_of_conv_image_fst)

text \<open>The names of the files the probe keeps are different from each other and from the program.\<close>

definition plain_name :: "string \<Rightarrow> bool" where "plain_name f \<longleftrightarrow> f \<noteq> [] \<and> hd f \<noteq> CHR ''.''"

lemma names_differ [simp]:
  "pending_name v \<noteq> self_healthy_name w" "pending_name v \<noteq> legacy_boot_count_name w" "pending_name v \<noteq> notice_name w"
  "self_healthy_name w \<noteq> pending_name v" "legacy_boot_count_name w \<noteq> pending_name v" "notice_name w \<noteq> pending_name v"
  "self_healthy_name v \<noteq> legacy_boot_count_name w" "legacy_boot_count_name w \<noteq> self_healthy_name v"
  "pending_name v \<noteq> boot_count_pid_name w p" "boot_count_pid_name w p \<noteq> pending_name v"
  "self_healthy_name v \<noteq> boot_count_pid_name w p" "boot_count_pid_name w p \<noteq> self_healthy_name v"
  by (simp_all add: pending_name_def self_healthy_name_def legacy_boot_count_name_def notice_name_def boot_count_pid_name_def boot_count_pid_prefix_def)

lemma plain_differs [simp]:
  assumes "plain_name f"
  shows "f \<noteq> pending_name v" "f \<noteq> self_healthy_name v" "f \<noteq> legacy_boot_count_name v" "f \<noteq> notice_name v" "f \<noteq> boot_count_pid_name v p"
    "\<not> starts_with (boot_count_pid_prefix v) f"
  using assms by (auto simp: plain_name_def pending_name_def self_healthy_name_def legacy_boot_count_name_def notice_name_def
      boot_count_pid_name_def boot_count_pid_prefix_def starts_with_iff)

lemmas plain_differs' [simp] = plain_differs(1-5) [symmetric]

lemma backup_plain: "plain_name exe \<Longrightarrow> plain_name (backup_name exe ts)"
  by (auto simp: plain_name_def backup_name_def)

lemma backup_differs [simp]: "backup_name exe ts \<noteq> exe" "exe \<noteq> backup_name exe ts"
  by (simp_all add: backup_name_def)

lemma marker_prefix [simp]:
  "starts_with (boot_count_pid_prefix v) (boot_count_pid_name v p)" "\<not> starts_with (boot_count_pid_prefix v) (pending_name w)"
  "\<not> starts_with (boot_count_pid_prefix v) (self_healthy_name w)"
  by (auto simp: boot_count_pid_name_def starts_with_iff boot_count_pid_prefix_def pending_name_def self_healthy_name_def)

section \<open>Two failed boots\<close>

text \<open>A directory in which the installation of \<open>v\<close> is pending and the boots with the given markers were counted.\<close>

definition armed :: "string \<Rightarrow> InstallPending \<Rightarrow> content \<Rightarrow> string set \<Rightarrow> dir \<Rightarrow> bool" where
  "armed v p old M d \<longleftrightarrow> map_of d (pending_name v) = Some (PendingJson p) \<and> map_of d (backup_path p) = Some old
     \<and> map_of d (self_healthy_name v) = None \<and> distinct (map fst d)
     \<and> {f \<in> dom (map_of d). starts_with (boot_count_pid_prefix v) f} = M"

definition willing :: "probe_io \<Rightarrow> bool" where
  "willing io \<longleftrightarrow> marker_readable io \<and> listing_of io = Listed \<and> marker_creatable io"

lemma count_markers:
  assumes "distinct (map fst d)"
  shows "length (filter P (map fst d)) = card {f \<in> dom (map_of d). P f}"
proof -
  have "length (filter P (map fst d)) = card (set (filter P (map fst d)))" using assms by (metis distinct_card distinct_filter)
  also have "set (filter P (map fst d)) = {f \<in> dom (map_of d). P f}" by (auto simp: dom_map_of_conv_image_fst)
  finally show ?thesis .
qed

lemma armed_remove_legacy:
  assumes "armed v p old M d" "plain_name (backup_path p)" "legacy_boot_count_name v \<notin> M"
  shows "armed v p old M (try_remove io (legacy_boot_count_name v) d)"
proof -
  have "{f \<in> dom ((map_of d)(legacy_boot_count_name v := None)). starts_with (boot_count_pid_prefix v) f} = M"
    using assms(1,3) by (auto simp: armed_def)
  then show ?thesis using assms(1,2) by (auto simp: armed_def try_remove_def fs_simps)
qed

lemma armed_record:
  assumes "armed v p old M d" "plain_name (backup_path p)"
  shows "armed v p old (insert (boot_count_pid_name v pid) M) (fs_write (boot_count_pid_name v pid) (Text []) d)"
  using assms by (auto simp: armed_def fs_simps)

lemma probe_new_fields [simp]: "probe_version (probe_new v) = v" "failed_boot_threshold (probe_new v) = 2"
  by (simp_all add: probe_new_def)

lemma armed_count:
  assumes "armed v p old M d" "willing io" "finite M" "card M < 2 ^ 32"
  shows "boot_count io v d = Inr (card M)"
  using assms count_markers [of d "starts_with (boot_count_pid_prefix v)"] by (simp add: armed_def willing_def boot_count_def)

lemma armed_check:
  assumes armed: "armed v p old M d" and io: "willing io" and names: "plain_name (backup_path p)" "legacy_boot_count_name v \<notin> M"
    and fresh: "\<not> marker_is_stale rfc3339 now (installed_at p) STALENESS_CUTOFF" and M: "finite M" "card M < 2 ^ 32"
  shows "check_startup_state_inner rfc3339 io now pid (probe_new v) d =
    (let d = try_remove io (legacy_boot_count_name v) d
     in if card M \<ge> 2 then (Inr (RollbackRequired v (previous_version p) (backup_path p) RepeatedStartupFailure), d)
        else (case record_boot_attempt io v pid d of (Inl e, d) \<Rightarrow> (Inl e, d) | (Inr _, d) \<Rightarrow> (Inr NormalStart, d)))"
  using armed_count [OF armed_remove_legacy [OF armed names] io M] armed io fresh
  by (simp add: check_startup_state_inner_def exists_file_def armed_def read_install_pending_def willing_def)

text \<open>A boot below the threshold starts normally and is counted; at the threshold the rollback is due.\<close>

lemma armed_boot:
  assumes armed: "armed v p old M d" and io: "willing io" and names: "plain_name (backup_path p)" "legacy_boot_count_name v \<notin> M"
    and fresh: "\<not> marker_is_stale rfc3339 now (installed_at p) STALENESS_CUTOFF" and M: "finite M" "card M < 2"
    and pid: "boot_count_pid_name v pid \<notin> M"
  obtains d' where "check_startup_state rfc3339 io now pid (probe_new v) d = (NormalStart, d')"
    "armed v p old (insert (boot_count_pid_name v pid) M) d'"
    "\<And>f. plain_name f \<Longrightarrow> map_of d' f = map_of d f"
proof -
  let ?d = "try_remove io (legacy_boot_count_name v) d" and ?d' = "fs_write (boot_count_pid_name v pid) (Text []) (try_remove io (legacy_boot_count_name v) d)"
  have a: "armed v p old M ?d" by (rule armed_remove_legacy [OF armed names])
  then have "\<not> exists_file ?d (boot_count_pid_name v pid)" using pid by (auto simp: armed_def exists_file_def)
  then have "check_startup_state rfc3339 io now pid (probe_new v) d = (NormalStart, ?d')"
    using armed_check [OF armed io names fresh M(1), of pid] M(2) io
    by (simp add: check_startup_state_def record_boot_attempt_def willing_def)
  moreover have "map_of ?d' f = map_of d f" if "plain_name f" for f using that by (simp add: fs_simps try_remove_def)
  ultimately show ?thesis using that armed_record [OF a names(1)] by blast
qed

lemma armed_rollback:
  assumes armed: "armed v p old M d" and io: "willing io" and names: "plain_name (backup_path p)" "legacy_boot_count_name v \<notin> M" "plain_name exe" "exe \<noteq> backup_path p"
    and fresh: "\<not> marker_is_stale rfc3339 now (installed_at p) STALENESS_CUTOFF" and M: "finite M" "card M = 2"
  obtains info d' where "execute_startup_probe rfc3339 io now pid notice_ok (Inr ()) (Inr ()) now_txt exe v d = (ReplacedBy info, d')"
    "map_of d' exe = Some old" "from_version info = v" "to_version info = previous_version p"
proof -
  let ?d = "try_remove io (legacy_boot_count_name v) d"
  have a: "armed v p old M ?d" by (rule armed_remove_legacy [OF armed names(1,2)])
  have "check_startup_state rfc3339 io now pid (probe_new v) d = (RollbackRequired v (previous_version p) (backup_path p) RepeatedStartupFailure, ?d)"
    using armed_check [OF armed io names(1,2) fresh M(1), of pid] M(2) by (simp add: check_startup_state_def)
  then show ?thesis using a names
    by (intro that [of "\<lparr>from_version = v, from_published_at = None, to_version = previous_version p, to_published_at = None,
          rollback_reason = RepeatedStartupFailure, rolled_back_at = now_txt\<rparr>"
          "snd (execute_startup_probe rfc3339 io now pid notice_ok (Inr ()) (Inr ()) now_txt exe v d)"])
      (auto simp: execute_startup_probe_def execute_rollback_swap_only_def exists_file_def armed_def fs_simps Let_def)
qed

lemma digit_inj: "char_of (48 + x) = (char_of (48 + y) :: char) \<Longrightarrow> x < 10 \<Longrightarrow> y < 10 \<Longrightarrow> x = y" for x y :: nat
  by (drule arg_cong [where f = "of_char :: char \<Rightarrow> nat"]) simp

lemma show_nat_not_Nil: "show_nat n \<noteq> []" "[] \<noteq> show_nat n"
  by (subst show_nat.simps, simp)+

lemma show_nat_inj: "show_nat a = show_nat b \<Longrightarrow> a = b"
proof (induction a arbitrary: b rule: show_nat.induct)
  case (1 a)
  have d: "show_nat x = (if x < 10 then [] else show_nat (x div 10)) @ [char_of (48 + x mod 10)]" for x
    by (subst show_nat.simps) simp
  have e: "(if a < 10 then [] else show_nat (a div 10)) = (if b < 10 then [] else show_nat (b div 10))" "a mod 10 = b mod 10"
    using "1.prems" d [of a] d [of b] digit_inj [of "a mod 10" "b mod 10"] by simp_all
  then have "a div 10 = b div 10" using "1.IH" show_nat_not_Nil by (auto split: if_splits)
  then show ?case using e(2) by (metis div_mult_mod_eq)
qed

text \<open>A completed installation that was told its version.\<close>

lemma install_arms:
  assumes "install_and_restart_versioned e exe file bytes (Some v) d = (Inr (), d1)" "plain_name exe" "map_of d exe = Some old"
    and "distinct (map fst d)" "map_of d (self_healthy_name v) = None" "\<And>f. f \<in> dom (map_of d) \<Longrightarrow> \<not> starts_with (boot_count_pid_prefix v) f"
  shows "armed v \<lparr>installed_at = now_text e, previous_version = old_version e, backup_path = backup_name exe (stamp e)\<rparr> old {} d1"
proof -
  obtain binary where "d1 = fs_write (pending_name v) (PendingJson \<lparr>installed_at = now_text e, previous_version = old_version e,
      backup_path = backup_name exe (stamp e)\<rparr>) (fs_write exe (Binary binary) (fs_write (backup_name exe (stamp e)) old d))"
    using assms(1,3) by (auto simp: install_and_restart_versioned_def install_and_restart_with_ops_def write_install_pending_def Let_def
        rbind_def split: sum.splits prod.splits)
  then show ?thesis using assms backup_plain [OF assms(2), of "stamp e"]
    by (auto simp: armed_def fs_simps)
qed

text \<open>C29: a versioned installation that completes, followed by two boots of the new version that start but never write the healthy
  marker, makes the third boot put the previous binary back: the program file holds its old content again and the notice
  names both versions. The boots have different process ids and fall within the day after the installation, and the
  system lets the probe read, list and create its files.
\<close>

theorem two_failed_boots_roll_back:
  assumes inst: "install_and_restart_versioned e exe file bytes (Some v) d = (Inr (), d1)" and exe: "plain_name exe" "map_of d exe = Some old"
    and clean: "distinct (map fst d)" "map_of d (self_healthy_name v) = None" "\<And>f. f \<in> dom (map_of d) \<Longrightarrow> \<not> starts_with (boot_count_pid_prefix v) f"
    and io: "willing io" and pids: "pid1 \<noteq> pid2"
    and fresh: "\<And>t. t \<in> {t1, t2, t3} \<Longrightarrow> \<not> marker_is_stale rfc3339 t (now_text e) STALENESS_CUTOFF"
  shows "\<exists>d2 d3 d4 info.
      check_startup_state rfc3339 io t1 pid1 (probe_new v) d1 = (NormalStart, d2)
      \<and> check_startup_state rfc3339 io t2 pid2 (probe_new v) d2 = (NormalStart, d3)
      \<and> execute_startup_probe rfc3339 io t3 pid3 notice_ok (Inr ()) (Inr ()) now_txt exe v d3 = (ReplacedBy info, d4)
      \<and> map_of d4 exe = Some old \<and> from_version info = v \<and> to_version info = old_version e"
proof -
  let ?p = "\<lparr>installed_at = now_text e, previous_version = old_version e, backup_path = backup_name exe (stamp e)\<rparr>"
  let ?m1 = "boot_count_pid_name v pid1" and ?m2 = "boot_count_pid_name v pid2"
  have a1: "armed v ?p old {} d1" by (rule install_arms [OF inst exe clean])
  have plain: "plain_name (backup_path ?p)" using backup_plain [OF exe(1)] by simp
  have marks: "?m1 \<noteq> ?m2" using pids show_nat_inj by (auto simp: boot_count_pid_name_def)
  have legacy: "legacy_boot_count_name v \<noteq> boot_count_pid_name v q" for q
    by (auto simp: legacy_boot_count_name_def boot_count_pid_name_def boot_count_pid_prefix_def dest: arg_cong [where f = length])
  have stale: "\<not> marker_is_stale rfc3339 t (installed_at ?p) STALENESS_CUTOFF" if "t \<in> {t1, t2, t3}" for t using fresh [OF that] by simp
  obtain d2 where d2: "check_startup_state rfc3339 io t1 pid1 (probe_new v) d1 = (NormalStart, d2)" "armed v ?p old {?m1} d2"
    by (rule armed_boot [OF a1 io plain, of rfc3339 t1 pid1]) (use stale in auto)
  obtain d3 where d3: "check_startup_state rfc3339 io t2 pid2 (probe_new v) d2 = (NormalStart, d3)" "armed v ?p old {?m2, ?m1} d3"
    by (rule armed_boot [OF d2(2) io plain, of rfc3339 t2 pid2]) (use stale marks legacy in auto)
  obtain info d4 where "execute_startup_probe rfc3339 io t3 pid3 notice_ok (Inr ()) (Inr ()) now_txt exe v d3 = (ReplacedBy info, d4)"
    "map_of d4 exe = Some old" "from_version info = v" "to_version info = previous_version ?p"
    by (rule armed_rollback [OF d3(2) io plain, of exe rfc3339 t3 pid3 notice_ok now_txt]) (use stale marks legacy exe in auto)
  then show ?thesis using d2(1) d3(1) by fastforce
qed

definition install_sample :: install_env where
  "install_sample = \<lparr>copy_ok = Inr (), unpack = (\<lambda>_ b. Inr b), replace_ok = Inr (), marker_ok = Inr (), restart_ok = Inr (), restore_ok = Inr (),
     stamp = ''7'', now_text = ''0'', old_version = ''1''\<rparr>"

definition sample_dir :: dir where "sample_dir = [(''oneshim'', Binary [1])]"

definition sample_io :: probe_io where
  "sample_io = \<lparr>marker_readable = True, listing_of = Listed, marker_creatable = True, stuck = (\<lambda>_. False), healthy_writable = True\<rparr>"

definition installed_dir :: dir where
  "installed_dir = snd (install_and_restart_versioned install_sample ''oneshim'' ''new'' [2] (Some ''2'') sample_dir)"

theorem two_failed_boots_roll_back_witness:
  "\<exists>d2 d3 d4 info.
      check_startup_state (\<lambda>_. Some 0) sample_io 1 10 (probe_new ''2'') installed_dir = (NormalStart, d2)
      \<and> check_startup_state (\<lambda>_. Some 0) sample_io 2 11 (probe_new ''2'') d2 = (NormalStart, d3)
      \<and> execute_startup_probe (\<lambda>_. Some 0) sample_io 3 12 True (Inr ()) (Inr ()) ''n'' ''oneshim'' ''2'' d3 = (ReplacedBy info, d4)
      \<and> map_of d4 ''oneshim'' = Some (Binary [1]) \<and> from_version info = ''2'' \<and> to_version info = old_version install_sample"
proof (rule two_failed_boots_roll_back)
  show "install_and_restart_versioned install_sample ''oneshim'' ''new'' [2] (Some ''2'') sample_dir = (Inr (), installed_dir)"
    by (simp add: installed_dir_def install_and_restart_versioned_def install_and_restart_with_ops_def install_sample_def sample_dir_def
        extract_if_archive_def archive_kind_of_def ends_with_def write_install_pending_def Let_def)
  show "\<And>f. f \<in> dom (map_of sample_dir) \<Longrightarrow> \<not> starts_with (boot_count_pid_prefix ''2'') f"
    by (auto simp: sample_dir_def boot_count_pid_prefix_def split: if_splits)
  show "\<And>t. t \<in> {1, 2, 3} \<Longrightarrow> \<not> marker_is_stale (\<lambda>_. Some 0) t (now_text install_sample) STALENESS_CUTOFF"
    by (auto simp: marker_is_stale_def STALENESS_CUTOFF_def secs_def nanos_per_sec_def)
qed (simp_all add: sample_dir_def plain_name_def self_healthy_name_def willing_def sample_io_def)

section \<open>Installations\<close>

text \<open>An installation that reports an error leaves the program it found: either nothing in the directory changed, or the
  restart failed and the old binary was put back, unless the system also refused to restore it, or the marker of the probe
  could not be written and the new binary stays.
\<close>

theorem failed_install_keeps_program:
  assumes "install_and_restart_with_ops e exe file bytes nv d = (Inl err, d')" and "map_of d (backup_name exe (stamp e)) = None"
    and "plain_name exe"
  shows "map_of d' = map_of d \<or> map_of d' exe = map_of d exe
    \<or> isl (restart_ok e) \<and> isl (restore_ok e) \<or> nv \<noteq> None \<and> isl (marker_ok e)"
proof (cases "rbind (copy_ok e) (\<lambda>_. case map_of d exe of Some c \<Rightarrow> Inr c | None \<Rightarrow> Inl (Filesystem ''not found''))")
  case (Inl x)
  then show ?thesis using assms(1) by (simp add: install_and_restart_with_ops_def Let_def)
next
  case (Inr old)
  then have "map_of d exe = Some old" by (auto simp: rbind_def split: sum.splits option.splits)
  then show ?thesis using assms Inr
    by (auto simp: install_and_restart_with_ops_def write_install_pending_def Let_def fs_simps fun_upd_idem split: sum.splits option.splits)
qed

theorem failed_install_keeps_program_witness:
  "map_of (snd (install_and_restart_with_ops (install_sample\<lparr>restart_ok := Inl (Install ''r'')\<rparr>) ''oneshim'' ''new'' [2] None sample_dir)) ''oneshim''
     = Some (Binary [1])"
proof -
  let ?e = "install_sample\<lparr>restart_ok := Inl (Install ''r'')\<rparr>"
  let ?r = "install_and_restart_with_ops ?e ''oneshim'' ''new'' [2] None sample_dir"
  have r: "?r = (Inl (Install (''Rollback completed after restart failure: '' @ display (Install ''r''))), snd ?r)"
    by (simp add: install_and_restart_with_ops_def install_sample_def sample_dir_def extract_if_archive_def archive_kind_of_def ends_with_def Let_def)
  have "map_of sample_dir (backup_name ''oneshim'' (stamp ?e)) = None" "plain_name ''oneshim''"
    by (simp_all add: sample_dir_def backup_name_def plain_name_def)
  from failed_install_keeps_program [OF r this]
  have "map_of (snd ?r) ''oneshim'' = map_of sample_dir ''oneshim''" by (auto simp: install_sample_def)
  then show ?thesis by (simp add: sample_dir_def)
qed

text \<open>
  The coordinator installs without a version (\<open>install_and_restart\<close>), so no marker is written and the probe never rolls back.
\<close>

lemma unversioned_install_unarmed:
  assumes "install_and_restart e exe file bytes d = (r, d')" "plain_name exe"
  shows "map_of d' (pending_name v) = map_of d (pending_name v)"
  using assms backup_plain [OF assms(2), of "stamp e"]
  by (auto simp: install_and_restart_def install_and_restart_versioned_def install_and_restart_with_ops_def Let_def fs_simps
      split: sum.splits option.splits)

lemma unarmed_never_rolls_back:
  assumes "map_of d (pending_name v) = None"
  shows "check_startup_state rfc3339 io now pid (probe_new v) d = (NormalStart, d)"
  using assms by (simp add: check_startup_state_def check_startup_state_inner_def exists_file_def)

text \<open>After an installation by the coordinator, every boot of the new version starts normally and changes nothing, however many
  boots before it failed: the automatic rollback is never armed on this path.
\<close>

theorem coordinator_install_never_rolls_back:
  assumes "install_and_restart e exe file bytes d = (Inr (), d1)" and "plain_name exe" and "map_of d (pending_name v) = None"
  shows "check_startup_state rfc3339 io now pid (probe_new v) d1 = (NormalStart, d1)"
  using unarmed_never_rolls_back unversioned_install_unarmed [OF assms(1,2), of v] assms(3) by simp

theorem coordinator_install_never_rolls_back_witness:
  "check_startup_state (\<lambda>_. Some 0) sample_io 1 10 (probe_new ''2'') (snd (install_and_restart install_sample ''oneshim'' ''new'' [2] sample_dir))
     = (NormalStart, snd (install_and_restart install_sample ''oneshim'' ''new'' [2] sample_dir))"
proof (rule coordinator_install_never_rolls_back)
  show "install_and_restart install_sample ''oneshim'' ''new'' [2] sample_dir
      = (Inr (), snd (install_and_restart install_sample ''oneshim'' ''new'' [2] sample_dir))"
    by (simp add: install_and_restart_def install_and_restart_versioned_def install_and_restart_with_ops_def install_sample_def sample_dir_def
        extract_if_archive_def archive_kind_of_def ends_with_def Let_def)
qed (simp_all add: plain_name_def sample_dir_def pending_name_def)

section \<open>Healthy versions\<close>

lemma try_remove_keeps: "f \<noteq> g \<Longrightarrow> map_of (try_remove io g d) f = map_of d f"
  by (simp add: try_remove_def fs_simps)

lemma fold_try_remove_keeps: "f \<notin> set gs \<Longrightarrow> map_of (fold (try_remove io) gs d) f = map_of d f"
  by (induction gs arbitrary: d) (simp_all add: try_remove_keeps)

lemma starts_with_append [simp]: "starts_with p (p @ s)"
  by (simp add: starts_with_iff)

lemma healthy_not_swept:
  assumes "find_str ''.rollback.'' (self_healthy_name v) = None"
  shows "\<not> swept v keep (self_healthy_name v)"
  using assms by (simp add: swept_def strip_prefix_def self_healthy_name_def)

text \<open>Once a version has written its healthy marker it is never rolled back: every later startup check of that version returns
  normally and leaves the directory as it is, and the backup of the previous binary is still there.
\<close>

theorem healthy_version_stays:
  assumes "write_self_healthy_and_cleanup io now_txt v d = (Inr (), d1)" and "find_str ''.rollback.'' (self_healthy_name v) = None"
    and "marker_readable io" and "map_of d (pending_name v) = Some (PendingJson p)" and "map_of d (backup_path p) = Some old"
    and "find_str ''.rollback.'' (backup_path p) \<noteq> None" and "plain_name (backup_path p)"
  shows "check_startup_state rfc3339 io' now pid (probe_new v) d1 = (NormalStart, d1) \<and> map_of d1 (backup_path p) = Some old"
proof -
  let ?w = "try_remove io (pending_name v) (fs_write (self_healthy_name v) (Text now_txt) d)"
  let ?m = "fold (try_remove io) (filter (starts_with (boot_count_pid_prefix v)) (listed io ?w)) ?w"
  let ?l = "try_remove io (legacy_boot_count_name v) ?m"
  have d1: "d1 = fold (try_remove io) (filter (swept v (Some (backup_path p))) (listed io ?l)) ?l"
    using assms(1,3,4) by (auto simp: write_self_healthy_and_cleanup_def read_install_pending_def Let_def split: if_splits)
  have "map_of d1 (self_healthy_name v) = Some (Text now_txt)"
    using healthy_not_swept [OF assms(2)] unfolding d1 by (simp add: fold_try_remove_keeps try_remove_keeps fs_simps)
  moreover have "\<not> swept v (Some (backup_path p)) (backup_path p)" using assms(6) by (simp add: swept_def)
  then have "map_of d1 (backup_path p) = Some old"
    using assms(5,7) unfolding d1 by (simp add: fold_try_remove_keeps try_remove_keeps fs_simps)
  ultimately show ?thesis by (simp add: check_startup_state_def check_startup_state_inner_def exists_file_def)
qed

theorem healthy_version_stays_witness:
  "check_startup_state (\<lambda>_. None) sample_io 9 12 (probe_new ''2'') (snd (write_self_healthy_and_cleanup sample_io ''t'' ''2'' installed_dir))
      = (NormalStart, snd (write_self_healthy_and_cleanup sample_io ''t'' ''2'' installed_dir))
    \<and> map_of (snd (write_self_healthy_and_cleanup sample_io ''t'' ''2'' installed_dir)) ''oneshim.rollback.7'' = Some (Binary [1])"
proof -
  let ?p = "\<lparr>installed_at = ''0'', previous_version = ''1'', backup_path = ''oneshim.rollback.7''\<rparr>"
  have d: "installed_dir = [(''oneshim'', Binary [2]), (''oneshim.rollback.7'', Binary [1]), (''.install_pending_2'', PendingJson ?p)]"
    by (simp add: installed_dir_def install_and_restart_versioned_def install_and_restart_with_ops_def install_sample_def sample_dir_def
        extract_if_archive_def archive_kind_of_def ends_with_def write_install_pending_def fs_write_def backup_name_def pending_name_def Let_def)
  have "write_self_healthy_and_cleanup sample_io ''t'' ''2'' installed_dir = (Inr (), snd (write_self_healthy_and_cleanup sample_io ''t'' ''2'' installed_dir))"
    by (simp add: write_self_healthy_and_cleanup_def sample_io_def Let_def)
  from healthy_version_stays [OF this, of ?p "Binary [1]" "\<lambda>_. None" sample_io 9 12] show ?thesis
    by (simp add: d sample_io_def pending_name_def self_healthy_name_def plain_name_def find_str.simps)
qed

end
