(* ===== verification/UpdateOffers.thy ===== *)
theory UpdateOffers
  imports UpdateProperties
begin

text \<open>
  The properties of the updater's decisions: which release is offered, how a staged rollout widens, and which bytes are
  accepted as an update.
\<close>

section \<open>Rollout\<close>

lemma ucast_u8_le: "(p :: u8) \<le> q \<Longrightarrow> (ucast p :: u64) \<le> ucast q"
proof -
  have "unat (ucast x :: u64) = unat x" for x :: u8
  proof -
    have "unat x < 2 ^ LENGTH(8)" by (rule unsigned_less)
    then show ?thesis by (simp add: unsigned_ucast_eq take_bit_nat_eq_self_iff)
  qed
  then show "p \<le> q \<Longrightarrow> (ucast p :: u64) \<le> ucast q" by (simp add: word_le_nat_alt)
qed

text \<open>A staged rollout only widens: a device that is offered a version at some percentage is offered it at every higher
  percentage; at 0 nobody is, from 100 on everybody is.
\<close>

theorem rollout_widens:
  assumes "is_eligible_for_rollout inst_id version p" and "p \<le> q"
  shows "is_eligible_for_rollout inst_id version q \<and> \<not> is_eligible_for_rollout inst_id version 0 \<and> is_eligible_for_rollout inst_id version 100"
proof -
  have "q \<noteq> 0 \<or> \<not> q < 100 \<or> p = 0" using assms(2) by auto
  moreover have "p < 100 \<Longrightarrow> p \<noteq> 0 \<Longrightarrow> fnv1a_hash (str_bytes inst_id @ str_bytes version) mod 100 < ucast q"
    using assms ucast_u8_le [OF assms(2)] by (auto simp: is_eligible_for_rollout_def split: if_splits)
  ultimately show ?thesis using assms by (auto simp: is_eligible_for_rollout_def not_le split: if_splits)
qed

theorem rollout_widens_witness: "is_eligible_for_rollout ''id'' ''2.0.0'' 100"
  using rollout_widens [of "''id''" "''2.0.0''" 100 100] by (simp add: is_eligible_for_rollout_def)

section \<open>Offers\<close>

lemma find_patch_asset_mem: "find_patch_asset as pl c t = Some (url, sz) \<Longrightarrow> \<exists>a\<in>set as. browser_download_url a = url"
  by (auto simp: find_patch_asset_def dest!: find_SomeD)

lemma find_platform_asset_mem: "find_platform_asset low os arch rel = Inr (url, sz) \<Longrightarrow> \<exists>a\<in>set (assets rel). browser_download_url a = url"
  by (cases "get_platform_patterns os arch") (auto simp: find_platform_asset_def dest!: find_SomeD split: option.splits)

lemma offer_update_Available:
  assumes "offer_update env cfg c l r = Inr (Available cur lat rel url sz ty)"
  shows "r = rel \<and> lat = sv_show (env_sv env) l \<and> (\<exists>a\<in>set (assets rel). browser_download_url a = url)
    \<and> (\<exists>inst. installation_id cfg = Some inst \<and> is_eligible_for_rollout inst lat (parse_rollout_percent (rel_body rel)))"
proof (cases "installation_id cfg")
  case None
  then show ?thesis using assms by (simp add: offer_update_def Let_def)
next
  case (Some inst)
  let ?patch = "find_patch_asset (assets r) (get_platform_tag (env_os env) (env_arch env)) (sv_show (env_sv env) c) (sv_show (env_sv env) l)"
  have el: "is_eligible_for_rollout inst (sv_show (env_sv env) l) (parse_rollout_percent (rel_body r))"
    using assms Some by (auto simp: offer_update_def Let_def split: if_splits)
  show ?thesis
  proof (cases ?patch)
    case None
    obtain u z where "find_platform_asset (env_lower env) (env_os env) (env_arch env) r = Inr (u, z)" "url = u" "r = rel" "lat = sv_show (env_sv env) l"
      using assms Some el None by (auto simp: offer_update_def Let_def rbind_eq_Inr)
    then show ?thesis using Some el find_platform_asset_mem by auto
  next
    case (Some uz)
    then show ?thesis using assms \<open>installation_id cfg = Some inst\<close> el find_patch_asset_mem
      by (cases uz) (auto simp: offer_update_def Let_def)
  qed
qed


definition sample_semver :: "nat semver" where
  "sample_semver = \<lparr>sv_parse = (\<lambda>s. Inr (length s)), sv_less = (<), sv_show = (\<lambda>n. replicate n (CHR ''1''))\<rparr>"

definition offered_release :: ReleaseInfo where
  "offered_release = sample_release\<lparr>tag_name := ''v11'', assets :=
     [\<lparr>asset_name = ''oneshim-linux-x64.tar.gz'', browser_download_url = ''t'', asset_size = 9, content_type = ''x''\<rparr>]\<rparr>"

definition sample_updater :: "nat updater_env" where
  "sample_updater = \<lparr>env_sv = sample_semver, env_get = (\<lambda>_. Inr \<lparr>is_success = True, http_status = ''200'', json_releases = Inr [], json_release = Inr offered_release\<rparr>),
     env_lower = (\<lambda>s. s), env_os = ''linux'', env_arch = ''x86_64'', env_version = ''1''\<rparr>"

definition sample_config :: UpdateConfig where
  "sample_config = \<lparr>cfg_enabled = True, repo_owner = ''o'', repo_name = ''r'', check_interval_hours = 24, channel = Stable, include_prerelease = False,
     cfg_auto_install = False, installation_id = Some ''id'', require_signature_verification = True, signature_public_key = [], min_allowed_version = None\<rparr>"


text \<open>A release with a patch from the running version is offered by the address of the patch.\<close>

lemma patch_is_offered:
  assumes "installation_id cfg = Some inst" "is_eligible_for_rollout inst (sv_show (env_sv env) l) (parse_rollout_percent (rel_body rel))"
    and "a \<in> set (assets rel)" "asset_name a = ''oneshim-'' @ get_platform_tag (env_os env) (env_arch env) @ ''-'' @ sv_show (env_sv env) c @ ''-to-'' @
      sv_show (env_sv env) l @ ''.patch''"
  shows "\<exists>url sz. offer_update env cfg c l rel = Inr (Available (sv_show (env_sv env) c) (sv_show (env_sv env) l) rel url (Some sz)
    (DeltaPatch (sv_show (env_sv env) c)))"
proof -
  obtain b where "find (\<lambda>x. asset_name x = asset_name a) (assets rel) = Some b"
    using assms(3) find_None_iff' [of "\<lambda>x. asset_name x = asset_name a" "assets rel"] by (cases "find (\<lambda>x. asset_name x = asset_name a) (assets rel)") auto
  then show ?thesis using assms by (simp add: offer_update_def find_patch_asset_def Let_def)
qed

text \<open>A patch is not an archive, so it is put in place of the program as it is.\<close>

lemma patch_installed_raw: "extract_if_archive e (name @ ''.patch'') bytes = Inr bytes"
  by (simp add: extract_if_archive_def archive_kind_of_def ends_with_def)

text \<open>A patch from another version is taken for the full binary of the platform when it is listed first.\<close>

definition patched_release :: ReleaseInfo where
  "patched_release = sample_release\<lparr>assets :=
     [\<lparr>asset_name = ''oneshim-linux-x64-0.4.1-to-0.5.0.patch'', browser_download_url = ''p'', asset_size = 1, content_type = ''x''\<rparr>,
      \<lparr>asset_name = ''oneshim-linux-x64.tar.gz'', browser_download_url = ''t'', asset_size = 9, content_type = ''x''\<rparr>]\<rparr>"

lemma foreign_patch_taken: "find_platform_asset (\<lambda>s. s) ''linux'' ''x86_64'' patched_release = Inr (''p'', 1)"
  by (simp add: find_platform_asset_def get_platform_patterns_def patched_release_def find_str.simps)

section \<open>Accepted files\<close>

lemma allowed_host_cases:
  assumes "is_allowed_download_host host"
  shows "\<exists>a\<in>set ALLOWED_DOWNLOAD_HOSTS. host = a \<or> (\<exists>sub. host = sub @ ''.'' @ a)"
proof -
  obtain a where "a \<in> set ALLOWED_DOWNLOAD_HOSTS" "host = a \<or> ends_with (''.'' @ a) host"
    using assms by (auto simp: is_allowed_download_host_def list_ex_iff)
  then show ?thesis by (metis ends_with_iff)
qed

lemma validate_sound:
  "validate_download_url parse s = Inr u \<Longrightarrow> parse s = Inr u \<and> scheme u = ''https'' \<and> (\<exists>h. host_str u = Some h \<and> is_allowed_download_host h)"
  by (auto simp: validate_download_url_def split: sum.splits option.splits if_splits)

lemma verify_sound:
  "verify_signature_with_keys n trusted configured payload sig = Inr () \<Longrightarrow>
     length sig = 64 \<and> (\<exists>k. (k \<in> set trusted \<or> configured = Some k) \<and> verify_key n k payload sig)"
  by (auto simp: verify_signature_with_keys_def list_ex_iff split: if_splits option.splits)

lemma verify_signature_sound:
  assumes "verify_signature n cfg payload sig = Inr ()"
  shows "\<exists>k. (k \<in> set TRUSTED_PUBLIC_KEYS \<or> first_word (signature_public_key cfg) = Some k) \<and> verify_key n k payload sig"
  using verify_sound [OF assms [unfolded verify_signature_def Let_def]] by (auto split: option.splits if_splits)

text \<open>C27: a streamed download is reported as complete only for an HTTPS address on an allowed host, with the file on disk holding
  exactly the bytes whose SHA-256 is the published checksum and, when signatures are required, a signature over those bytes that a
  built-in key or the configured key verifies.
\<close>

theorem accepted_download_verified:
  assumes "download_update_with_progress n cfg disk stream unique address = (Inr path, left)"
  shows "\<exists>u bytes. parse_url n address = Inr u \<and> scheme u = ''https'' \<and> (\<exists>h. host_str u = Some h \<and> is_allowed_download_host h)
    \<and> left = Some (path, bytes) \<and> fetch_expected_sha256 n u = Inr (sha256_hex n bytes)
    \<and> (require_signature_verification cfg \<longrightarrow> (\<exists>sig k. fetch_signature n u = Inr sig \<and> verify_key n k bytes sig
         \<and> (k \<in> set TRUSTED_PUBLIC_KEYS \<or> first_word (signature_public_key cfg) = Some k)))"
proof -
  obtain u ok st chunks where u: "validate_download_url (parse_url n) address = Inr u" "stream (as_str u) = Inr (ok, st, chunks)"
    using assms by (auto simp: download_update_with_progress_def rbind_def split: sum.splits prod.splits)
  then obtain bytes where b: "fetch_expected_sha256 n u = Inr (sha256_hex n bytes)" "left = Some (path, bytes)"
      "require_signature_verification cfg \<longrightarrow> rbind (fetch_signature n u) (verify_signature n cfg bytes) = Inr ()"
    using assms by (auto simp: download_update_with_progress_def split: sum.splits prod.splits if_splits)
  have "\<exists>sig k. fetch_signature n u = Inr sig \<and> verify_key n k bytes sig
         \<and> (k \<in> set TRUSTED_PUBLIC_KEYS \<or> first_word (signature_public_key cfg) = Some k)" if req: "require_signature_verification cfg"
  proof -
    obtain sig where "fetch_signature n u = Inr sig" "verify_signature n cfg bytes sig = Inr ()"
      using b(3) req by (auto simp: rbind_eq_Inr)
    then show ?thesis using verify_signature_sound by blast
  qed
  then show ?thesis using validate_sound [OF u(1)] b(1,2) by blast
qed

definition sample_net :: net where
  "sample_net = \<lparr>parse_url = (\<lambda>s. Inr \<lparr>scheme = ''https'', host_str = Some ''github.com'', path_name = Some ''f'', as_str = s\<rparr>),
     http_get = (\<lambda>_. Inr (True, ''200'', [])), utf8 = (\<lambda>_. Inr (replicate 64 (CHR ''0''))), b64 = (\<lambda>_. Inr (replicate 64 0)),
     sha256 = (\<lambda>_. replicate 32 0), verify_key = (\<lambda>_ _ _. True)\<rparr>"

theorem accepted_download_verified_witness:
  "\<exists>u bytes. parse_url sample_net ''a'' = Inr u \<and> scheme u = ''https'' \<and> fetch_expected_sha256 sample_net u = Inr (sha256_hex sample_net bytes)"
proof -
  have "download_update_with_progress sample_net sample_config (Inr ()) (\<lambda>_. Inr (True, ''200'', [Inr [1], Inr [2]])) ''u'' ''a''
      = (Inr ''oneshim-u-f'', Some (''oneshim-u-f'', [1, 2]))"
    by code_simp
  from accepted_download_verified [OF this] show ?thesis by blast
qed

text \<open>A checksum file is read as the first word, which has to be 64 hexadecimal digits.\<close>

lemma lower_hexdigit: "is_ascii_hexdigit c \<Longrightarrow> \<not> is_ascii_upper c \<Longrightarrow> to_ascii_lowercase c = c"
  by (simp add: to_ascii_lowercase_def)

lemma parse_sha256_manifest_sound:
  "parse_sha256_manifest content = Inr h \<Longrightarrow> length h = 64 \<and> list_all is_ascii_hexdigit h \<and> (\<exists>w. first_word content = Some w \<and> h = map to_ascii_lowercase w)"
  by (auto simp: parse_sha256_manifest_def Let_def split: option.splits if_splits)

text \<open>Archive entries cannot leave the directory they are unpacked in.\<close>

fun resolve :: "string list \<Rightarrow> Component list \<Rightarrow> string list option" where
  "resolve base [] = Some base"
| "resolve base (Normal f # cs) = resolve (base @ [f]) cs"
| "resolve base (CurDir # cs) = resolve base cs"
| "resolve base (ParentDir # cs) = (if base = [] then None else resolve (butlast base) cs)"
| "resolve base (RootDir # cs) = resolve [] cs"
| "resolve base (Prefix # cs) = resolve [] cs"

text \<open>An archive entry whose path is accepted resolves to a path below the directory it is unpacked in.
\<close>

theorem safe_archive_path_stays_inside:
  assumes "is_safe_archive_path p"
  shows "\<exists>rest. resolve base p = Some (base @ rest)"
  using assms
proof (induction p arbitrary: base)
  case (Cons c p)
  then obtain rest where "resolve (base @ (case c of Normal f \<Rightarrow> [f] | _ \<Rightarrow> [])) p = Some ((base @ (case c of Normal f \<Rightarrow> [f] | _ \<Rightarrow> [])) @ rest)"
    by (fastforce simp: is_safe_archive_path_def)
  then show ?case using Cons.prems by (cases c) (auto simp: is_safe_archive_path_def)
qed simp

theorem safe_archive_path_stays_inside_witness: "\<exists>rest. resolve [''tmp''] [CurDir, Normal ''bin'', Normal ''oneshim''] = Some ([''tmp''] @ rest)"
  by (rule safe_archive_path_stays_inside) (simp add: is_safe_archive_path_def)

end
