(* ===== verification/FrameStore.thy ===== *)
theory FrameStore
  imports ByteString CoreErrors "HOL-Library.AList"
begin

text \<open>
  The screen frames on disk, \<open>crates/oneshim-storage/src/frame_storage.rs\<close>, with the encryption of frame files,
  \<open>crates/oneshim-storage/src/encryption.rs\<close>. The base directory is a tree of named nodes in the order of its listings; file names are
  UTF-8 and there are no symbolic links. What the operating system may refuse, the cipher, the random generator, the clock and the
  calendar of \<open>chrono\<close> are arguments. Tasks spawned in one call work on different paths and are run one after the other.
\<close>

section \<open>Directories\<close>

datatype node = File "u8 list" | Dir "(string \<times> node) list"

type_synonym entries = "(string \<times> node) list"
type_synonym path = "string list"

text \<open>The answers of the operating system that are not determined by the tree: \<open>rm_left\<close> is what a failed
  \<open>remove_dir_all\<close> leaves of a directory, \<open>write_left\<close> what a failed write leaves of a file.\<close>

record fs_answers =
  open_err :: "path \<Rightarrow> string option"
  entry_err :: "path \<Rightarrow> (nat \<times> string) option"
  meta_err :: "path \<Rightarrow> string option"
  mkdir_err :: "path \<Rightarrow> string option"
  rm_left :: "path \<Rightarrow> node option"
  read_err :: "path \<Rightarrow> string option"
  write_err :: "path \<Rightarrow> string option"
  write_left :: "path \<Rightarrow> u8 list option"
  enotdir :: string
  eisdir :: string

definition is_file :: "fs_answers \<Rightarrow> path \<Rightarrow> node \<Rightarrow> bool" where
  "is_file a p x = (meta_err a p = None \<and> (case x of File _ \<Rightarrow> True | Dir _ \<Rightarrow> False))"

definition is_dir :: "fs_answers \<Rightarrow> path \<Rightarrow> node \<Rightarrow> bool" where
  "is_dir a p x = (meta_err a p = None \<and> (case x of File _ \<Rightarrow> False | Dir _ \<Rightarrow> True))"

text \<open>\<open>read_dir\<close> and the calls of \<open>next_entry\<close> after it: the entries delivered, and the error that ended them.\<close>

definition read_dir :: "fs_answers \<Rightarrow> path \<Rightarrow> node \<Rightarrow> string + entries \<times> string option" where
  "read_dir a p x =
     (case x of
        File _ \<Rightarrow> Inl (enotdir a)
      | Dir es \<Rightarrow>
          (case open_err a p of
             Some e \<Rightarrow> Inl e
           | None \<Rightarrow>
               (case entry_err a p of
                  Some (n, e) \<Rightarrow> Inr (if n \<le> length es then (take n es, Some e) else (es, None))
                | None \<Rightarrow> Inr (es, None))))"

definition count_files_in_dir :: "fs_answers \<Rightarrow> path \<Rightarrow> node \<Rightarrow> nat" where
  "count_files_in_dir a p x =
     (case read_dir a p x of
        Inl _ \<Rightarrow> 0
      | Inr (es, _) \<Rightarrow> length (filter (\<lambda>(n, y). is_file a (p @ [n]) y) es))"

text \<open>The loop of \<open>calculate_dir_size\<close>; \<open>k\<close> is the number of entries until \<open>next_entry\<close> fails, with its error.\<close>

definition next_entry_err :: "(nat \<times> string) option \<Rightarrow> string option" where
  "next_entry_err k = Option.bind k (\<lambda>(j, e). if j = 0 then Some e else None)"

function (sequential) calculate_dir_size :: "fs_answers \<Rightarrow> path \<Rightarrow> node \<Rightarrow> StoreError + u64"
  and sum_entries :: "fs_answers \<Rightarrow> path \<Rightarrow> (nat \<times> string) option \<Rightarrow> entries \<Rightarrow> u64 \<Rightarrow> StoreError + u64" where
  "calculate_dir_size a p (File _) = Inl (StInternal (''Failed to read directory: '' @ enotdir a))"
| "calculate_dir_size a p (Dir es) =
     (case open_err a p of
        Some e \<Rightarrow> Inl (StInternal (''Failed to read directory: '' @ e))
      | None \<Rightarrow> sum_entries a p (entry_err a p) es 0)"
| "sum_entries a p k [] acc =
     (case next_entry_err k of Some e \<Rightarrow> Inl (StInternal (''Failed to read entry: '' @ e)) | None \<Rightarrow> Inr acc)"
| "sum_entries a p k ((n, x) # es) acc =
     (case next_entry_err k of
        Some e \<Rightarrow> Inl (StInternal (''Failed to read entry: '' @ e))
      | None \<Rightarrow>
          (case meta_err a (p @ [n]) of
             Some e \<Rightarrow> Inl (StInternal (''Failed to read metadata: '' @ e))
           | None \<Rightarrow>
               rbind (case x of File bs \<Rightarrow> Inr (of_nat (length bs)) | Dir ys \<Rightarrow> calculate_dir_size a (p @ [n]) (Dir ys))
                 (\<lambda>s. sum_entries a p (map_option (\<lambda>(j, e). (j - 1, e)) k) es (acc + s))))"
  by pat_completeness auto
termination
  by (relation "measure (case_sum (\<lambda>(a, p, x). size x) (\<lambda>(a, p, k, es, t). size_list (size_prod (\<lambda>_. 0) size) es))") auto

text \<open>Five characters and a dash: \<open>chars().nth(4)\<close> is the fifth byte that begins a character.\<close>

definition date_named :: "string \<Rightarrow> bool" where
  "date_named name = (length name = 10 \<and>
     (let cs = filter (\<lambda>c. \<not> continuation_byte c) name in 4 < length cs \<and> cs ! 4 = CHR ''-''))"

definition list_date_dirs :: "fs_answers \<Rightarrow> path \<Rightarrow> node option \<Rightarrow> StoreError + string list" where
  "list_date_dirs a p frames =
     (case frames of
        None \<Rightarrow> Inr []
      | Some x \<Rightarrow>
          (case read_dir a p x of
             Inl e \<Rightarrow> Inl (StInternal (''Failed to read frames directory: '' @ e))
           | Inr (es, Some e) \<Rightarrow> Inl (StInternal (''Failed to read entry: '' @ e))
           | Inr (es, None) \<Rightarrow> Inr (map fst (filter (\<lambda>(n, y). is_dir a (p @ [n]) y \<and> date_named n) es))))"

text \<open>\<open>remove_dir_all\<close> of an entry: whether it succeeded, and the entries after it. It refuses a file.\<close>

definition remove_dir_all :: "fs_answers \<Rightarrow> path \<Rightarrow> string \<Rightarrow> entries \<Rightarrow> bool \<times> entries" where
  "remove_dir_all a p n es =
     (case map_of es n of
        Some (Dir _) \<Rightarrow>
          (case rm_left a (p @ [n]) of
             None \<Rightarrow> (True, AList.delete n es)
           | Some left \<Rightarrow> (False, AList.update n left es))
      | _ \<Rightarrow> (False, es))"

fun node_at :: "entries \<Rightarrow> path \<Rightarrow> node option" where
  "node_at es [] = Some (Dir es)"
| "node_at es (n # ns) =
     (case map_of es n of
        None \<Rightarrow> None
      | Some (File bs) \<Rightarrow> if ns = [] then Some (File bs) else None
      | Some (Dir ys) \<Rightarrow> node_at ys ns)"

text \<open>\<open>create_dir_all\<close> and \<open>write\<close> below a directory at \<open>p\<close>: the error, if any, and the entries left.\<close>

fun create_dir_all :: "fs_answers \<Rightarrow> path \<Rightarrow> path \<Rightarrow> entries \<Rightarrow> string option \<times> entries" where
  "create_dir_all a p [] es = (None, es)"
| "create_dir_all a p (n # ns) es =
     (case map_of es n of
        Some (File _) \<Rightarrow> (Some (enotdir a), es)
      | Some (Dir ys) \<Rightarrow> (let (e, zs) = create_dir_all a (p @ [n]) ns ys in (e, AList.update n (Dir zs) es))
      | None \<Rightarrow>
          (case mkdir_err a (p @ [n]) of
             Some e \<Rightarrow> (Some e, es)
           | None \<Rightarrow> (let (e, zs) = create_dir_all a (p @ [n]) ns [] in (e, AList.update n (Dir zs) es))))"

fun write_file :: "fs_answers \<Rightarrow> path \<Rightarrow> path \<Rightarrow> u8 list \<Rightarrow> entries \<Rightarrow> string option \<times> entries" where
  "write_file a p [] bs es = (Some (eisdir a), es)"
| "write_file a p [n] bs es =
     (case map_of es n of
        Some (Dir _) \<Rightarrow> (Some (eisdir a), es)
      | _ \<Rightarrow>
          (case write_err a (p @ [n]) of
             None \<Rightarrow> (None, AList.update n (File bs) es)
           | Some e \<Rightarrow> (Some e, (case write_left a (p @ [n]) of None \<Rightarrow> es | Some left \<Rightarrow> AList.update n (File left) es))))"
| "write_file a p (n # ns) bs es =
     (case map_of es n of
        Some (Dir ys) \<Rightarrow> (let (e, zs) = write_file a (p @ [n]) ns bs ys in (e, AList.update n (Dir zs) es))
      | _ \<Rightarrow> (Some (enotdir a), es))"

section \<open>Encryption of frame files\<close>

text \<open>AES-256-GCM: \<open>seal key nonce plaintext\<close> and \<open>unseal key nonce ciphertext\<close>. A key has 32 bytes.\<close>

record aead =
  seal :: "u8 list \<Rightarrow> u8 list \<Rightarrow> u8 list \<Rightarrow> string + u8 list"
  unseal :: "u8 list \<Rightarrow> u8 list \<Rightarrow> u8 list \<Rightarrow> string + u8 list"

type_synonym EncryptionKey = "u8 list"

definition cipher_init :: "EncryptionKey \<Rightarrow> StoreError + EncryptionKey" where
  "cipher_init key = (if length key = 32 then Inr key else Inl (StEncryption ''cipher init: Invalid Length''))"

text \<open>\<open>fill\<close> is what the random generator puts into the twelve bytes of the nonce, or its error.\<close>

definition encrypt :: "aead \<Rightarrow> string + u8 list \<Rightarrow> EncryptionKey \<Rightarrow> u8 list \<Rightarrow> StoreError + u8 list" where
  "encrypt c fill key plaintext =
     rbind (cipher_init key) (\<lambda>k.
       case fill of
         Inl e \<Rightarrow> Inl (StEncryption (''nonce generation: '' @ e))
       | Inr nonce \<Rightarrow>
           (case seal c k nonce plaintext of
              Inl e \<Rightarrow> Inl (StEncryption (''encrypt: '' @ e))
            | Inr ciphertext \<Rightarrow> Inr (nonce @ ciphertext)))"

definition decrypt :: "aead \<Rightarrow> EncryptionKey \<Rightarrow> u8 list \<Rightarrow> StoreError + u8 list" where
  "decrypt c key data =
     (if length data < 12 then Inl (StEncryption ''ciphertext too short (< 12 bytes)'')
      else rbind (cipher_init key) (\<lambda>k.
        case unseal c k (take 12 data) (drop 12 data) of
          Inl e \<Rightarrow> Inl (StEncryption (''decrypt: '' @ e))
        | Inr plaintext \<Rightarrow> Inr plaintext))"

definition as_hex :: "EncryptionKey \<Rightarrow> string" where "as_hex key = hex_lower key"

definition key_load_from_file :: "fs_answers \<Rightarrow> string \<Rightarrow> node \<Rightarrow> StoreError + EncryptionKey" where
  "key_load_from_file a shown x =
     (case (case x of Dir _ \<Rightarrow> Inl (eisdir a)
                    | File bs \<Rightarrow> (case read_err a [''.db_key''] of Some e \<Rightarrow> Inl e | None \<Rightarrow> Inr bs)) of
        Inl e \<Rightarrow> Inl (StInternal (''Key file read failed ('' @ shown @ ''): '' @ e))
      | Inr bytes \<Rightarrow>
          if length bytes \<noteq> 32
          then Inl (StInternal (''Key file size error: expected 32 bytes, got '' @ show_nat (length bytes) @ '' bytes''))
          else Inr bytes)"

text \<open>On Unix: write the key, then restrict the file to its owner (\<open>chmod\<close> is the error of that call).\<close>

definition key_save_to_file :: "fs_answers \<Rightarrow> string option \<Rightarrow> string \<Rightarrow> EncryptionKey \<Rightarrow> entries \<Rightarrow> (StoreError + unit) \<times> entries" where
  "key_save_to_file a chmod shown key es =
     (case write_file a [] [''.db_key''] key es of
        (Some e, es') \<Rightarrow> (Inl (StInternal (''Key file write failed ('' @ shown @ ''): '' @ e)), es')
      | (None, es') \<Rightarrow>
          (case chmod of
             Some e \<Rightarrow> (Inl (StInternal (''Key file permission set failed: '' @ e)), es')
           | None \<Rightarrow> (Inr (), es')))"

definition key_generate :: "string + u8 list \<Rightarrow> StoreError + EncryptionKey" where
  "key_generate fill =
     (case fill of Inl e \<Rightarrow> Inl (StEncryption (''OS random number generation failed: '' @ e)) | Inr key \<Rightarrow> Inr key)"

definition load_or_create ::
    "fs_answers \<Rightarrow> string + u8 list \<Rightarrow> string option \<Rightarrow> string \<Rightarrow> entries \<Rightarrow> (StoreError + EncryptionKey) \<times> entries" where
  "load_or_create a fill chmod shown es =
     (case map_of es ''.db_key'' of
        Some x \<Rightarrow> (key_load_from_file a shown x, es)
      | None \<Rightarrow>
          (case key_generate fill of
             Inl e \<Rightarrow> (Inl e, es)
           | Inr key \<Rightarrow>
               (case key_save_to_file a chmod shown key es of
                  (Inl e, es') \<Rightarrow> (Inl e, es')
                | (Inr _, es') \<Rightarrow> (Inr key, es'))))"

end
