(* ===== verification/FrameOps.thy ===== *)
theory FrameOps
  imports FrameStore
begin

text \<open>
  The operations of \<open>FrameFileStorage\<close> (\<open>crates/oneshim-storage/src/frame_storage.rs\<close>): saving frames one by one and in batches,
  loading them, the retention by age, the limit by size, the deletion of everything and the size tracker, with the disk-space cache
  and the buffer pool they use. A state is the storage object and its base directory (\<open>None\<close> when it does not exist).
\<close>

section \<open>Disk space and buffers\<close>

definition DISK_CHECK_INTERVAL :: int where "DISK_CHECK_INTERVAL = secs 5"
definition DISK_SPACE_CRITICAL_MB :: u64 where "DISK_SPACE_CRITICAL_MB = 50"
definition BUFFER_POOL_SIZE :: nat where "BUFFER_POOL_SIZE = 16"

record DiskSpaceCache =
  last_check :: "time option"
  cached_free_mb :: u64

definition disk_space_cache_new :: DiskSpaceCache where
  "disk_space_cache_new = \<lparr>last_check = None, cached_free_mb = - 1\<rparr>"

text \<open>On Unix; \<open>stat\<close> is the available blocks and their size, or \<open>None\<close> when \<open>statvfs\<close> fails.\<close>

definition query_disk_free_mb :: "(u64 \<times> u64) option \<Rightarrow> u64" where
  "query_disk_free_mb stat = (case stat of Some (bavail, frsize) \<Rightarrow> bavail * frsize div (1024 * 1024) | None \<Rightarrow> - 1)"

definition get_free_mb :: "time \<Rightarrow> (u64 \<times> u64) option \<Rightarrow> DiskSpaceCache \<Rightarrow> u64 \<times> DiskSpaceCache" where
  "get_free_mb now stat c =
     (if (case last_check c of Some t \<Rightarrow> max 0 (now - t) < DISK_CHECK_INTERVAL | None \<Rightarrow> False)
      then (cached_free_mb c, c)
      else (let free = query_disk_free_mb stat in (free, \<lparr>last_check = Some now, cached_free_mb = free\<rparr>)))"

text \<open>The pool is a bounded queue of buffers; their capacities are not modelled.\<close>

type_synonym BufferPool = "u8 list list"

definition buffer_pool_new :: "nat \<Rightarrow> BufferPool" where "buffer_pool_new capacity = replicate capacity []"

definition pool_acquire :: "BufferPool \<Rightarrow> u8 list \<times> BufferPool" where
  "pool_acquire pool = (case pool of [] \<Rightarrow> ([], []) | b # bs \<Rightarrow> (b, bs))"

definition pool_release :: "u8 list \<Rightarrow> BufferPool \<Rightarrow> BufferPool" where
  "pool_release buffer pool = (if length pool < BUFFER_POOL_SIZE then pool @ [[]] else pool)"

section \<open>Dates\<close>

text \<open>A \<open>DateTime<Utc>\<close> in the calendar, and the formats of \<open>chrono\<close> the storage uses: \<open>%Y\<close> has at least four digits and a
  sign outside 0 to 9999, the others two.\<close>

record civil =
  year :: int
  month :: nat
  day :: nat
  hour :: nat
  minute :: nat
  second :: nat

definition zero_padded :: "nat \<Rightarrow> nat \<Rightarrow> string" where
  "zero_padded w n = replicate (w - length (show_nat n)) CHR ''0'' @ show_nat n"

definition format_year :: "int \<Rightarrow> string" where
  "format_year y = (if y < 0 then ''-'' else if 9999 < y then ''+'' else []) @ zero_padded 4 (nat \<bar>y\<bar>)"

definition date_str :: "civil \<Rightarrow> string" where
  "date_str c = format_year (year c) @ ''-'' @ zero_padded 2 (month c) @ ''-'' @ zero_padded 2 (day c)"

definition time_str :: "civil \<Rightarrow> string" where
  "time_str c = zero_padded 2 (hour c) @ ''-'' @ zero_padded 2 (minute c) @ ''-'' @ zero_padded 2 (second c)"

definition frame_file_name :: "civil \<Rightarrow> u32 \<Rightarrow> string" where
  "frame_file_name c counter = time_str c @ ''-'' @ zero_padded 3 (unat counter) @ ''.webp''"

section \<open>The storage\<close>

record FrameFileStorage =
  max_storage_mb :: u64
  retention_days :: u32
  frame_counter :: u32
  buffer_pool :: BufferPool
  disk_cache :: DiskSpaceCache
  encryption_key :: "EncryptionKey option"
  cached_size_bytes :: u64
  cached_size_initialized :: bool

type_synonym disk = "entries option"
type_synonym frame_state = "FrameFileStorage \<times> disk"

text \<open>The surroundings: \<open>minus_days\<close> is the subtraction of days from an instant, \<open>None\<close> when \<open>chrono\<close> panics because the result
  is out of its range; \<open>lower\<close> is \<open>to_lowercase\<close>.\<close>

record frame_env =
  os :: fs_answers
  crypto :: aead
  civil_of :: "time \<Rightarrow> civil"
  minus_days :: "time \<Rightarrow> nat \<Rightarrow> time option"
  lower :: "string \<Rightarrow> string"

definition frames_of :: "disk \<Rightarrow> node option" where
  "frames_of d = Option.bind d (\<lambda>es. map_of es ''frames'')"

definition set_frames :: "entries \<Rightarrow> disk \<Rightarrow> disk" where
  "set_frames es d = map_option (AList.update ''frames'' (Dir es)) d"

definition make_dirs :: "frame_env \<Rightarrow> path \<Rightarrow> disk \<Rightarrow> string option \<times> disk" where
  "make_dirs env p d =
     (case d of
        Some es \<Rightarrow> map_prod id Some (create_dir_all (os env) [] p es)
      | None \<Rightarrow>
          (case mkdir_err (os env) [] of
             Some e \<Rightarrow> (Some e, None)
           | None \<Rightarrow> map_prod id Some (create_dir_all (os env) [] p [])))"

definition with_encryption ::
    "frame_env \<Rightarrow> u64 \<Rightarrow> u32 \<Rightarrow> EncryptionKey option \<Rightarrow> disk \<Rightarrow> (StoreError + FrameFileStorage) \<times> disk" where
  "with_encryption env max_mb days key d =
     (case make_dirs env [''frames''] d of
        (Some e, d') \<Rightarrow> (Inl (StInternal (''Failed to create frame directory: '' @ e)), d')
      | (None, d') \<Rightarrow>
          (Inr \<lparr>max_storage_mb = max_mb, retention_days = days, frame_counter = 0,
                buffer_pool = buffer_pool_new BUFFER_POOL_SIZE, disk_cache = disk_space_cache_new,
                encryption_key = key, cached_size_bytes = 0, cached_size_initialized = False\<rparr>, d'))"

definition storage_new :: "frame_env \<Rightarrow> u64 \<Rightarrow> u32 \<Rightarrow> disk \<Rightarrow> (StoreError + FrameFileStorage) \<times> disk" where
  "storage_new env max_mb days d = with_encryption env max_mb days None d"

subsection \<open>Saving\<close>

text \<open>Encrypting and writing one frame, for \<open>save_frame\<close> and for the tasks of \<open>save_frames_batch\<close>: the bytes written.\<close>

definition write_frame ::
    "frame_env \<Rightarrow> EncryptionKey option \<Rightarrow> string + u8 list \<Rightarrow> path \<Rightarrow> u8 list \<Rightarrow> disk \<Rightarrow> (StoreError + u64) \<times> disk" where
  "write_frame env key fill p data d =
     (case (case key of Some k \<Rightarrow> encrypt (crypto env) fill k data | None \<Rightarrow> Inr data) of
        Inl e \<Rightarrow> (Inl e, d)
      | Inr out \<Rightarrow>
          (case write_file (os env) [] p out (case d of Some es \<Rightarrow> es | None \<Rightarrow> []) of
             (Some e, es) \<Rightarrow> (Inl (StInternal (''frame file save failure: '' @ e)), map_option (\<lambda>_. es) d)
           | (None, es) \<Rightarrow> (Inr (of_nat (length out)), map_option (\<lambda>_. es) d)))"

definition disk_critical :: "time \<Rightarrow> (u64 \<times> u64) option \<Rightarrow> FrameFileStorage \<Rightarrow> bool \<times> FrameFileStorage" where
  "disk_critical now stat s =
     (let (free_mb, c) = get_free_mb now stat (disk_cache s) in (free_mb < DISK_SPACE_CRITICAL_MB, s\<lparr>disk_cache := c\<rparr>))"

definition save_frame ::
    "frame_env \<Rightarrow> time \<Rightarrow> (u64 \<times> u64) option \<Rightarrow> string + u8 list \<Rightarrow> time \<Rightarrow> u8 list \<Rightarrow> frame_state \<Rightarrow> (StoreError + path) \<times> frame_state" where
  "save_frame env now stat fill timestamp data st =
     (let (s, d) = st; (critical, s) = disk_critical now stat s; c = civil_of env timestamp in
      if critical then (Inl (StInternal ''disk space critical''), s, d)
      else
        (case make_dirs env [''frames'', date_str c] d of
           (Some e, d) \<Rightarrow> (Inl (StInternal (''Failed to create dated folder: '' @ e)), s, d)
         | (None, d) \<Rightarrow>
             (let counter = frame_counter s mod 1000;
                  s = s\<lparr>frame_counter := frame_counter s + 1\<rparr>;
                  p = [''frames'', date_str c, frame_file_name c counter]
              in case write_frame env (encryption_key s) fill p data d of
                   (Inl e, d) \<Rightarrow> (Inl e, s, d)
                 | (Inr written_len, d) \<Rightarrow> (Inr p, s\<lparr>cached_size_bytes := cached_size_bytes s + written_len\<rparr>, d))))"

text \<open>A task of \<open>save_frames_batch\<close>, with the counter it was given.\<close>

definition save_task ::
    "frame_env \<Rightarrow> EncryptionKey option \<Rightarrow> u32 \<Rightarrow> string + u8 list \<Rightarrow> time \<Rightarrow> u8 list \<Rightarrow> disk \<Rightarrow> (StoreError + path \<times> u64) \<times> disk" where
  "save_task env key counter fill timestamp data d =
     (let c = civil_of env timestamp; p = [''frames'', date_str c, frame_file_name c counter] in
      case make_dirs env [''frames'', date_str c] d of
        (Some e, d) \<Rightarrow> (Inl (StInternal (''Failed to create dated folder: '' @ e)), d)
      | (None, d) \<Rightarrow>
          (case write_frame env key fill p data d of
             (Inl e, d) \<Rightarrow> (Inl e, d)
           | (Inr n, d) \<Rightarrow> (Inr (p, n), d)))"

fun save_tasks ::
    "frame_env \<Rightarrow> EncryptionKey option \<Rightarrow> (time \<times> u8 list \<times> (string + u8 list)) list \<Rightarrow> u32 \<Rightarrow> disk \<Rightarrow>
     (StoreError + path \<times> u64) list \<times> u32 \<times> disk" where
  "save_tasks env key [] counter d = ([], counter, d)"
| "save_tasks env key ((timestamp, data, fill) # fs) counter d =
     (let (r, d) = save_task env key (counter mod 1000) fill timestamp data d;
          (rs, counter', d) = save_tasks env key fs (counter + 1) d
      in (r # rs, counter', d))"

definition save_frames_batch ::
    "frame_env \<Rightarrow> time \<Rightarrow> (u64 \<times> u64) option \<Rightarrow> (time \<times> u8 list \<times> (string + u8 list)) list \<Rightarrow> frame_state \<Rightarrow>
     (StoreError + path) list \<times> frame_state" where
  "save_frames_batch env now stat frames st =
     (let (s, d) = st; (critical, s) = disk_critical now stat s in
      if critical then (map (\<lambda>_. Inl (StInternal ''disk space critical'')) frames, s, d)
      else
        (let (rs, counter, d) = save_tasks env (encryption_key s) frames (frame_counter s) d;
             total_written = sum_list (map (case_sum (\<lambda>_. 0) snd) rs)
         in (map (map_sum id fst) rs,
             s\<lparr>frame_counter := counter,
               cached_size_bytes := (if 0 < total_written then cached_size_bytes s + total_written else cached_size_bytes s)\<rparr>,
             d)))"

subsection \<open>Loading\<close>

definition disk_node :: "disk \<Rightarrow> path \<Rightarrow> node option" where
  "disk_node d p = Option.bind d (\<lambda>es. node_at es p)"

text \<open>\<open>p\<close> is a path below the base directory; \<open>display\<close> is how it is shown.\<close>

definition load_frame :: "frame_env \<Rightarrow> string \<Rightarrow> path \<Rightarrow> frame_state \<Rightarrow> (StoreError + u8 list) \<times> frame_state" where
  "load_frame env display p st =
     (let (s, d) = st in
      case disk_node d p of
        None \<Rightarrow> (Inl (StNotFound ''Frame'' display), s, d)
      | Some x \<Rightarrow>
          (let (buffer, pool) = pool_acquire (buffer_pool s); s = s\<lparr>buffer_pool := pool\<rparr> in
           case (case x of Dir _ \<Rightarrow> Inl (eisdir (os env))
                         | File bs \<Rightarrow> (case read_err (os env) p of Some e \<Rightarrow> Inl e | None \<Rightarrow> Inr bs)) of
             Inl e \<Rightarrow> (Inl (StInternal (''frame file read failure: '' @ e)), s, d)
           | Inr raw \<Rightarrow>
               (case (case encryption_key s of Some k \<Rightarrow> decrypt (crypto env) k raw | None \<Rightarrow> Inr raw) of
                  Inl e \<Rightarrow> (Inl e, s, d)
                | Inr data \<Rightarrow>
                    (let buffer = buffer @ data
                     in (Inr buffer, s\<lparr>buffer_pool := pool_release buffer (buffer_pool s)\<rparr>, d)))))"

fun load_frames_batch :: "frame_env \<Rightarrow> (path \<times> string) list \<Rightarrow> frame_state \<Rightarrow> (StoreError + u8 list) list \<times> frame_state" where
  "load_frames_batch env [] st = ([], st)"
| "load_frames_batch env ((p, display) # ps) st =
     (let (r, st) = load_frame env display p st; (rs, st) = load_frames_batch env ps st in (r # rs, st))"

text \<open>\<open>Path::extension\<close> of a file name: what follows the last dot, when something precedes it.\<close>

definition file_extension :: "string \<Rightarrow> string option" where
  "file_extension name =
     (if name = ''..'' \<or> CHR ''.'' \<notin> set name then None
      else (let (after, before) = (takeWhile (\<lambda>c. c \<noteq> CHR ''.'') (rev name), List.tl (dropWhile (\<lambda>c. c \<noteq> CHR ''.'') (rev name)))
            in if before = [] then None else Some (rev after)))"

fun latest_in_days ::
    "frame_env \<Rightarrow> (path \<Rightarrow> string) \<Rightarrow> entries \<Rightarrow> string list \<Rightarrow> frame_state \<Rightarrow> (StoreError + (u8 list \<times> string) option) \<times> frame_state" where
  "latest_in_days env display fes [] st = (Inr None, st)"
| "latest_in_days env display fes (dy # days) st =
     (case map_of fes dy of
        None \<Rightarrow> latest_in_days env display fes days st
      | Some x \<Rightarrow>
          (case read_dir (os env) [''frames'', dy] x of
             Inl e \<Rightarrow> (Inl (StInternal (''frame folder read failure: '' @ e)), st)
           | Inr (es, Some e) \<Rightarrow> (Inl (StInternal (''Failed to read frame entry: '' @ e)), st)
           | Inr (es, None) \<Rightarrow>
               (case rev (sort (map fst (filter (\<lambda>(n, y). is_file (os env) [''frames'', dy, n] y) es))) of
                  [] \<Rightarrow> latest_in_days env display fes days st
                | latest # _ \<Rightarrow>
                    (let p = [''frames'', dy, latest] in
                     case load_frame env (display p) p st of
                       (Inl e, st) \<Rightarrow> (Inl e, st)
                     | (Inr bytes, st) \<Rightarrow>
                         (Inr (Some (bytes, (case file_extension latest of Some x \<Rightarrow> lower env x | None \<Rightarrow> ''webp''))), st)))))"

definition load_latest_frame ::
    "frame_env \<Rightarrow> (path \<Rightarrow> string) \<Rightarrow> frame_state \<Rightarrow> (StoreError + (u8 list \<times> string) option) \<times> frame_state" where
  "load_latest_frame env display st =
     (case frames_of (snd st) of
        None \<Rightarrow> (Inr None, st)
      | Some x \<Rightarrow>
          (case list_date_dirs (os env) [''frames''] (Some x) of
             Inl e \<Rightarrow> (Inl e, st)
           | Inr day_dirs \<Rightarrow>
               latest_in_days env display (case x of Dir es \<Rightarrow> es | File _ \<Rightarrow> []) (rev (sort day_dirs)) st))"

subsection \<open>Deleting\<close>

definition day_count :: "frame_env \<Rightarrow> string \<Rightarrow> entries \<Rightarrow> nat" where
  "day_count env n es = (case map_of es n of Some x \<Rightarrow> count_files_in_dir (os env) [''frames'', n] x | None \<Rightarrow> 0)"

definition day_size :: "frame_env \<Rightarrow> string \<Rightarrow> entries \<Rightarrow> u64" where
  "day_size env n es =
     (case map_of es n of
        Some x \<Rightarrow> (case calculate_dir_size (os env) [''frames'', n] x of Inr b \<Rightarrow> b | Inl _ \<Rightarrow> 0)
      | None \<Rightarrow> 0)"

text \<open>The tasks that count the files of a directory and remove it, of \<open>enforce_retention\<close> and \<open>delete_all_files\<close>: the files
  counted in the directories that were removed.\<close>

fun remove_dirs :: "frame_env \<Rightarrow> string list \<Rightarrow> entries \<Rightarrow> nat \<times> entries" where
  "remove_dirs env [] es = (0, es)"
| "remove_dirs env (n # ns) es =
     (let count = day_count env n es;
          (ok, es) = remove_dir_all (os env) [''frames''] n es;
          (k, es) = remove_dirs env ns es
      in ((if ok then count else 0) + k, es))"

definition frames_size :: "frame_env \<Rightarrow> disk \<Rightarrow> StoreError + u64" where
  "frames_size env d = (case frames_of d of Some x \<Rightarrow> calculate_dir_size (os env) [''frames''] x | None \<Rightarrow> Inr 0)"

text \<open>The cutoff is computed by \<open>chrono\<close>, whose subtraction panics out of its range: then the call does not return (\<open>None\<close>).\<close>

definition enforce_retention :: "frame_env \<Rightarrow> time \<Rightarrow> frame_state \<Rightarrow> ((StoreError + nat) \<times> frame_state) option" where
  "enforce_retention env now st =
     (let (s, d) = st in
      case frames_of d of
        None \<Rightarrow> Some (Inr 0, s, d)
      | Some x \<Rightarrow>
          (case minus_days env now (unat (retention_days s)) of
             None \<Rightarrow> None
           | Some t \<Rightarrow>
               (let cutoff_date = date_str (civil_of env t) in
                case read_dir (os env) [''frames''] x of
                  Inl e \<Rightarrow> Some (Inl (StInternal (''Failed to read frames directory: '' @ e)), s, d)
                | Inr (es, Some e) \<Rightarrow> Some (Inl (StInternal (''Failed to read directory entry: '' @ e)), s, d)
                | Inr (es, None) \<Rightarrow>
                    (let dirs_to_delete = map fst (filter (\<lambda>(n, _). length n = 10 \<and> n < cutoff_date) es) in
                     if dirs_to_delete = [] then Some (Inr 0, s, d)
                     else
                       (let (deleted_count, es) = remove_dirs env dirs_to_delete es;
                            d = set_frames es d;
                            actual_size = (case frames_size env d of Inr n \<Rightarrow> n | Inl _ \<Rightarrow> 0)
                        in Some (Inr deleted_count, s\<lparr>cached_size_bytes := actual_size\<rparr>, d))))))"

definition init_size :: "frame_env \<Rightarrow> frame_state \<Rightarrow> StoreError + FrameFileStorage" where
  "init_size env st =
     (let (s, d) = st in
      if cached_size_initialized s then Inr s
      else rbind (frames_size env d) (\<lambda>n. Inr (s\<lparr>cached_size_bytes := n, cached_size_initialized := True\<rparr>)))"

definition total_size_mb :: "frame_env \<Rightarrow> frame_state \<Rightarrow> (StoreError + u64) \<times> frame_state" where
  "total_size_mb env st =
     (case init_size env st of
        Inl e \<Rightarrow> (Inl e, st)
      | Inr s \<Rightarrow> (Inr (cached_size_bytes s div 1024 div 1024), s, snd st))"

definition saturating_sub :: "u64 \<Rightarrow> u64 \<Rightarrow> u64" where "saturating_sub x y = (if y \<le> x then x - y else 0)"

text \<open>The loop of \<open>enforce_storage_limit\<close>: files counted, bytes removed and the entries left. The files of a directory
  are counted also when its removal fails.\<close>

fun limit_loop :: "frame_env \<Rightarrow> u64 \<Rightarrow> string list \<Rightarrow> u64 \<Rightarrow> entries \<Rightarrow> nat \<times> u64 \<times> entries" where
  "limit_loop env max_mb [] current_mb es = (0, 0, es)"
| "limit_loop env max_mb (n # ns) current_mb es =
     (if current_mb \<le> max_mb then (0, 0, es)
      else
        (let dir_size_bytes = day_size env n es;
             count = day_count env n es;
             (ok, es) = remove_dir_all (os env) [''frames''] n es;
             current_mb = (if ok then saturating_sub current_mb (dir_size_bytes div 1024 div 1024) else current_mb);
             (k, b, es) = limit_loop env max_mb ns current_mb es
         in (count + k, (if ok then dir_size_bytes else 0) + b, es)))"

definition enforce_storage_limit :: "frame_env \<Rightarrow> frame_state \<Rightarrow> (StoreError + nat) \<times> frame_state" where
  "enforce_storage_limit env st =
     (let (s, d) = st in
      case frames_of d of
        None \<Rightarrow> (Inr 0, s, d)
      | Some x \<Rightarrow>
          (case init_size env st of
             Inl e \<Rightarrow> (Inl e, s, d)
           | Inr s \<Rightarrow>
               (let current_mb = cached_size_bytes s div 1024 div 1024 in
                if current_mb \<le> max_storage_mb s then (Inr 0, s, d)
                else
                  (case list_date_dirs (os env) [''frames''] (Some x) of
                     Inl e \<Rightarrow> (Inl e, s, d)
                   | Inr dirs \<Rightarrow>
                       (let (deleted_count, total_deleted_bytes, es) =
                              limit_loop env (max_storage_mb s) (sort dirs) current_mb (case x of Dir es \<Rightarrow> es | File _ \<Rightarrow> [])
                        in (Inr deleted_count,
                            (if 0 < total_deleted_bytes
                             then s\<lparr>cached_size_bytes := saturating_sub (cached_size_bytes s) total_deleted_bytes\<rparr> else s),
                            set_frames es d))))))"

definition delete_all_files :: "frame_env \<Rightarrow> frame_state \<Rightarrow> (StoreError + nat) \<times> frame_state" where
  "delete_all_files env st =
     (let (s, d) = st in
      case frames_of d of
        None \<Rightarrow> (Inr 0, s, d)
      | Some x \<Rightarrow>
          (case list_date_dirs (os env) [''frames''] (Some x) of
             Inl e \<Rightarrow> (Inl e, s, d)
           | Inr dirs \<Rightarrow>
               if dirs = [] then (Inr 0, s, d)
               else
                 (let (deleted, es) = remove_dirs env dirs (case x of Dir es \<Rightarrow> es | File _ \<Rightarrow> [])
                  in (Inr deleted, (if 0 < deleted then s\<lparr>cached_size_bytes := 0\<rparr> else s), set_frames es d))))"

subsection \<open>Size tracker and status\<close>

fun sum_files :: "frame_env \<Rightarrow> entries \<Rightarrow> u64 \<Rightarrow> string + u64" where
  "sum_files env [] acc = Inr acc"
| "sum_files env ((n, x) # es) acc =
     (case x of
        Dir _ \<Rightarrow> sum_files env es acc
      | File bs \<Rightarrow> if meta_err (os env) [n] = None then sum_files env es (acc + of_nat (length bs)) else sum_files env es acc)"

text \<open>\<open>is_file\<close> and \<open>metadata\<close> ask for the same metadata: a file whose metadata cannot be read is not counted.\<close>

definition reconcile_cache_size :: "frame_env \<Rightarrow> frame_state \<Rightarrow> (string + u64) \<times> frame_state" where
  "reconcile_cache_size env st =
     (let (s, d) = st in
      case (case d of
              None \<Rightarrow> Inr 0
            | Some es \<Rightarrow>
                (case read_dir (os env) [] (Dir es) of
                   Inl e \<Rightarrow> Inl e
                 | Inr (es, stop) \<Rightarrow>
                     rbind (sum_files env es 0) (\<lambda>n. case stop of Some e \<Rightarrow> Inl e | None \<Rightarrow> Inr n))) of
        Inl e \<Rightarrow> (Inl e, s, d)
      | Inr n \<Rightarrow> (Inr n, s\<lparr>cached_size_bytes := n\<rparr>, d))"

definition disk_status :: "time \<Rightarrow> (u64 \<times> u64) option \<Rightarrow> FrameFileStorage \<Rightarrow> (u64 \<times> bool) \<times> FrameFileStorage" where
  "disk_status now stat s =
     (let (free_mb, c) = get_free_mb now stat (disk_cache s) in ((free_mb, DISK_SPACE_CRITICAL_MB \<le> free_mb), s\<lparr>disk_cache := c\<rparr>))"

text \<open>\<open>enforce_frame_retention\<close> of \<open>src-tauri/src/scheduler/loops/helpers.rs\<close>, which the monitor loop calls every 100 seconds and
  the upload loop repeats inline: errors of the two calls are only logged.\<close>

definition enforce_frame_retention :: "frame_env \<Rightarrow> time \<Rightarrow> frame_state \<Rightarrow> frame_state option" where
  "enforce_frame_retention env now st =
     map_option (\<lambda>(_, st). snd (enforce_storage_limit env st)) (enforce_retention env now st)"

end
