(* ===== verification/FrameProperties.thy ===== *)
theory FrameProperties
  imports FrameOps
begin

text \<open>
  Properties of the frame storage: sizes of trees, the order of date names, retention by age, the limit by size, the round trip of a
  frame through the (encrypted) file, and the exactness of the size tracker in every run.
\<close>

section \<open>Sizes\<close>

primrec node_bytes :: "node \<Rightarrow> nat" where
  "node_bytes (File bs) = length bs"
| "node_bytes (Dir es) = sum_list (map snd (map (map_prod id node_bytes) es))"

definition entries_bytes :: "entries \<Rightarrow> nat" where "entries_bytes es = (\<Sum>e\<leftarrow>es. node_bytes (snd e))"

lemma node_bytes_Dir [simp]: "node_bytes (Dir es) = entries_bytes es"
  by (simp add: entries_bytes_def comp_def)

declare node_bytes.simps(2) [simp del]

lemma entries_bytes_simps [simp]:
  "entries_bytes [] = 0"
  "entries_bytes (e # es) = node_bytes (snd e) + entries_bytes es"
  "entries_bytes (es @ fs) = entries_bytes es + entries_bytes fs"
  by (simp_all add: entries_bytes_def)

text \<open>An operating system that refuses nothing.\<close>

definition calm :: "fs_answers \<Rightarrow> bool" where
  "calm a = (\<forall>p. open_err a p = None \<and> entry_err a p = None \<and> meta_err a p = None \<and> mkdir_err a p = None \<and> rm_left a p = None
     \<and> read_err a p = None \<and> write_err a p = None)"

lemma calmD [simp]:
  assumes "calm a"
  shows "open_err a p = None" "entry_err a p = None" "meta_err a p = None" "mkdir_err a p = None" "rm_left a p = None"
    "read_err a p = None" "write_err a p = None"
  using assms by (simp_all add: calm_def)

lemma calculate_dir_size_calm:
  assumes "calm a"
  shows "calculate_dir_size a p x = (case x of File _ \<Rightarrow> Inl (StInternal (''Failed to read directory: '' @ enotdir a)) | Dir es \<Rightarrow> Inr (of_nat (entries_bytes es)))"
    and "k = None \<Longrightarrow> sum_entries a p k es acc = Inr (acc + of_nat (entries_bytes es))"
  using assms
proof (induction a p x and a p k es acc rule: calculate_dir_size_sum_entries.induct)
qed (auto simp: next_entry_err_def split: node.splits)

lemma read_dir_calm [simp]: "calm a \<Longrightarrow> read_dir a p (Dir es) = Inr (es, None)"
  by (simp add: read_dir_def)

lemma is_dir_calm [simp]: "calm a \<Longrightarrow> is_dir a p x \<longleftrightarrow> (\<exists>es. x = Dir es)"
  by (cases x) (simp_all add: is_dir_def)

lemma is_file_calm [simp]: "calm a \<Longrightarrow> is_file a p x \<longleftrightarrow> (\<exists>bs. x = File bs)"
  by (cases x) (simp_all add: is_file_def)

lemma delete_filter: "AList.delete n es = filter (\<lambda>(m, _). m \<noteq> n) es"
  by (simp add: AList.delete_eq case_prod_unfold eq_commute)

lemma map_of_filter_name: "map_of (filter (\<lambda>(m, _). P m) es) n = (if P n then map_of es n else None)"
  by (induction es) (auto split: if_splits)

lemma entries_bytes_filter_le: "entries_bytes (filter P es) \<le> entries_bytes es"
  by (induction es) auto

lemma entries_bytes_delete:
  assumes "distinct (map fst es)" and "map_of es n = Some x"
  shows "entries_bytes (AList.delete n es) + node_bytes x = entries_bytes es"
  using assms
proof (induction es)
  case (Cons e es)
  show ?case
  proof (cases "fst e = n")
    case True
    then have "n \<notin> fst ` set es" using Cons.prems(1) by auto
    then have "AList.delete n es = es" by (force simp: delete_filter filter_id_conv)
    with True Cons.prems show ?thesis by (cases e) (auto simp: delete_filter)
  next
    case False
    with Cons show ?thesis by (cases e) (auto simp: delete_filter)
  qed
qed simp

lemma entries_bytes_update:
  "entries_bytes (AList.update n x es) + (case map_of es n of Some y \<Rightarrow> node_bytes y | None \<Rightarrow> 0) = entries_bytes es + node_bytes x"
  by (induction es) auto

lemma remove_dir_all_calm:
  "calm a \<Longrightarrow> map_of es n = Some (Dir ys) \<Longrightarrow> remove_dir_all a p n es = (True, AList.delete n es)"
  by (simp add: remove_dir_all_def)

section \<open>Names of days\<close>

lemma show_nat_small:
  "n < 10 \<Longrightarrow> show_nat n = [char_of (48 + n)]"
  "10 \<le> n \<Longrightarrow> show_nat n = show_nat (n div 10) @ [char_of (48 + n mod 10)]"
  by (subst show_nat.simps, simp)+

lemmas show_nat.simps [simp del]

definition digit :: "nat \<Rightarrow> char" where "digit k = char_of (48 + k)"

lemma digit_0: "CHR ''0'' = digit 0"
  by code_simp

lemma digit_less_iff [simp]: "i < 10 \<Longrightarrow> j < 10 \<Longrightarrow> digit i < digit j \<longleftrightarrow> i < j"
  by (simp add: digit_def less_char_def)

lemma digit_eq_iff [simp]: "i < 10 \<Longrightarrow> j < 10 \<Longrightarrow> digit i = digit j \<longleftrightarrow> i = j"
  using digit_less_iff [of i j] digit_less_iff [of j i] by (metis less_irrefl linorder_less_linear)

lemma zero_padded_2: "n < 100 \<Longrightarrow> zero_padded 2 n = [digit (n div 10), digit (n mod 10)]"
  by (cases "n < 10") (simp_all add: zero_padded_def show_nat_small digit_0 digit_def [symmetric])

lemma zero_padded_4:
  assumes "n < 10000"
  shows "zero_padded 4 n = [digit (n div 1000), digit (n div 100 mod 10), digit (n div 10 mod 10), digit (n mod 10)]"
proof -
  have q: "n div 10 div 10 = n div 100" "n div 100 div 10 = n div 1000" by (simp_all add: div_mult2_eq [symmetric])
  consider "n < 10" | "10 \<le> n" "n < 100" | "100 \<le> n" "n < 1000" | "1000 \<le> n" by linarith
  then show ?thesis
  proof cases
    case 4
    then have "10 \<le> n div 10" "10 \<le> n div 100" "n div 1000 < 10" using assms by linarith+
    with 4 show ?thesis by (simp add: zero_padded_def show_nat_small digit_def [symmetric] q)
  next
    case 3
    then have "10 \<le> n div 10" "n div 100 < 10" "n div 1000 = 0" by simp_all
    with 3 show ?thesis by (simp add: zero_padded_def show_nat_small digit_0 digit_def [symmetric] q)
  next
    case 2
    then have "n div 10 < 10" "n div 100 = 0" "n div 1000 = 0" by simp_all
    with 2 show ?thesis by (simp add: zero_padded_def show_nat_small digit_0 digit_def [symmetric] numeral_2_eq_2)
  next
    case 1
    then show ?thesis by (simp add: zero_padded_def show_nat_small digit_0 digit_def [symmetric] numeral_3_eq_3)
  qed
qed

text \<open>A calendar date as \<open>chrono\<close> gives it for the years of the common era up to 9999.\<close>

definition plain_date :: "civil \<Rightarrow> bool" where
  "plain_date c = (0 \<le> year c \<and> year c \<le> 9999 \<and> 1 \<le> month c \<and> month c \<le> 12 \<and> 1 \<le> day c \<and> day c \<le> 31)"

definition ymd :: "civil \<Rightarrow> int \<times> nat \<times> nat" where "ymd c = (year c, month c, day c)"

lemma list_less_Cons: "(x # xs :: 'a :: linorder list) < y # ys \<longleftrightarrow> x < y \<or> x = y \<and> xs < ys"
  by simp

lemma nat_less_digits:
  fixes n m d :: nat
  shows "n < m \<longleftrightarrow> n div d < m div d \<or> n div d = m div d \<and> n mod d < m mod d"
proof -
  have nm: "n = n div d * d + n mod d" "m = m div d * d + m mod d" by simp_all
  show ?thesis
  proof (cases "n div d = m div d")
    case True
    with nm show ?thesis by (metis add_less_cancel_left less_irrefl)
  next
    case False
    then show ?thesis by (metis div_le_mono less_le_not_le linorder_not_less nat_less_le)
  qed
qed

lemma padded_2_append_less:
  assumes "n < 100" and "m < 100"
  shows "zero_padded 2 n @ xs < zero_padded 2 m @ ys \<longleftrightarrow> n < m \<or> n = m \<and> xs < ys"
proof -
  have "n = m \<longleftrightarrow> n div 10 = m div 10 \<and> n mod 10 = m mod 10" by (metis div_mult_mod_eq)
  moreover have "n div 10 < 10" "m div 10 < 10" using assms by simp_all
  ultimately show ?thesis using assms nat_less_digits [of n m 10] by (auto simp: zero_padded_2)
qed

lemma padded_4_append_less:
  assumes "n < 10000" and "m < 10000"
  shows "zero_padded 4 n @ xs < zero_padded 4 m @ ys \<longleftrightarrow> n < m \<or> n = m \<and> xs < ys"
proof -
  have split4: "zero_padded 4 k = zero_padded 2 (k div 100) @ zero_padded 2 (k mod 100)" if "k < 10000" for k
  proof -
    have "k div 100 < 100" "k mod 100 < 100" using that by simp_all
    moreover have "k div 100 div 10 = k div 1000" "k mod 100 div 10 = k div 10 mod 10" "k mod 100 mod 10 = k mod 10"
      using mod_mult2_eq [of k 10 10] by (simp_all add: div_mult2_eq [symmetric] mod_mod_cancel)
    ultimately show ?thesis using that by (simp add: zero_padded_4 zero_padded_2)
  qed
  have b: "n div 100 < 100" "m div 100 < 100" "n mod 100 < 100" "m mod 100 < 100" using assms by simp_all
  have "n < m \<longleftrightarrow> n div 100 < m div 100 \<or> n div 100 = m div 100 \<and> n mod 100 < m mod 100" by (rule nat_less_digits)
  moreover have "n = m \<longleftrightarrow> n div 100 = m div 100 \<and> n mod 100 = m mod 100" by (metis div_mult_mod_eq)
  ultimately show ?thesis using b by (auto simp: split4 [OF assms(1)] split4 [OF assms(2)] padded_2_append_less)
qed

lemma date_str_plain:
  assumes "plain_date c"
  shows "date_str c = zero_padded 4 (nat (year c)) @ CHR ''-'' # zero_padded 2 (month c) @ CHR ''-'' # zero_padded 2 (day c) @ []"
  using assms by (simp add: date_str_def format_year_def plain_date_def)

lemma date_str_less_iff:
  assumes "plain_date c" and "plain_date c'"
  shows "date_str c < date_str c' \<longleftrightarrow> ymd c < ymd c'"
proof -
  have b: "nat (year c) < 10000" "nat (year c') < 10000" "month c < 100" "month c' < 100" "day c < 100" "day c' < 100"
    and y: "nat (year c) < nat (year c') \<longleftrightarrow> year c < year c'" "nat (year c) = nat (year c') \<longleftrightarrow> year c = year c'"
    using assms by (auto simp: plain_date_def)
  have less: "CHR ''-'' # xs < CHR ''-'' # ys \<longleftrightarrow> xs < ys" for xs ys :: string by simp
  show ?thesis
    unfolding date_str_plain [OF assms(1)] date_str_plain [OF assms(2)] padded_4_append_less [OF b(1,2)]
      padded_2_append_less [OF b(3,4)] padded_2_append_less [OF b(5,6)] less y
    by (simp add: ymd_def less_prod_def')
qed

lemma date_str_shape:
  assumes "plain_date c"
  shows "length (date_str c) = 10" "date_named (date_str c)"
proof -
  have b: "nat (year c) < 10000" "month c < 100" "day c < 100" using assms by (auto simp: plain_date_def)
  show "length (date_str c) = 10" using b by (simp add: date_str_plain [OF assms] zero_padded_4 zero_padded_2)
  have plain: "\<not> continuation_byte (digit k)" if "k < 10" for k
    using that by (simp add: continuation_byte_def digit_def)
  have dash: "\<not> continuation_byte (CHR ''-'')" by code_simp
  show "date_named (date_str c)"
    using b by (simp add: date_named_def date_str_plain [OF assms] zero_padded_4 zero_padded_2 plain dash)
qed

section \<open>Removing days\<close>

definition dir_in :: "string set \<Rightarrow> string \<times> node \<Rightarrow> bool" where
  "dir_in N e = (fst e \<in> N \<and> (\<exists>ys. snd e = Dir ys))"

lemma dir_in_simps [simp]: "dir_in N (n, File bs) \<longleftrightarrow> False" "dir_in N (n, Dir ys) \<longleftrightarrow> n \<in> N" "\<not> dir_in {} e"
  by (simp_all add: dir_in_def)

lemma map_of_filter_dir_in:
  assumes "distinct (map fst es)"
  shows "map_of (filter (\<lambda>e. \<not> dir_in N e) es) n =
    (case map_of es n of Some (Dir ys) \<Rightarrow> if n \<in> N then None else Some (Dir ys) | x \<Rightarrow> x)"
  using assms
proof (induction es)
  case (Cons e es)
  obtain m x where e [simp]: "e = (m, x)" by (cases e)
  have none: "map_of es m = None" using Cons.prems by (simp add: map_of_eq_None_iff)
  then show ?case using Cons by (cases x) (auto split: option.splits node.splits)
qed simp

lemma remove_dir_all_filter:
  assumes "calm a" and "distinct (map fst es)"
  shows "snd (remove_dir_all a p n es) = filter (\<lambda>e. \<not> dir_in {n} e) es"
proof -
  have only: "map_of es n = Some (snd e)" if "e \<in> set es" "fst e = n" for e
    using assms(2) that by (cases e) auto
  show ?thesis
  proof (cases "map_of es n")
    case None
    then have "filter (\<lambda>e. \<not> dir_in {n} e) es = es" using only by (auto simp: filter_id_conv dir_in_def)
    with None show ?thesis by (simp add: remove_dir_all_def)
  next
    case (Some x)
    then show ?thesis
    proof (cases x)
      case (File bs)
      with Some have "filter (\<lambda>e. \<not> dir_in {n} e) es = es" using only by (fastforce simp: filter_id_conv dir_in_def)
      with Some File show ?thesis by (simp add: remove_dir_all_def)
    next
      case (Dir ys)
      with Some have "filter (\<lambda>e. \<not> dir_in {n} e) es = filter (\<lambda>(m, _). m \<noteq> n) es"
        using only by (intro filter_cong refl) (fastforce simp: dir_in_def)
      with Some Dir assms(1) show ?thesis by (simp add: remove_dir_all_def delete_filter)
    qed
  qed
qed

lemma distinct_fst_filter: "distinct (map fst es) \<Longrightarrow> distinct (map fst (filter P es))"
  by (induction es) auto

lemma dir_in_insert: "dir_in (insert n M) e \<longleftrightarrow> dir_in {n} e \<or> dir_in M e"
  by (auto simp: dir_in_def)

lemma remove_dirs_filter:
  assumes "calm (os env)" and "distinct (map fst es)"
  shows "snd (remove_dirs env ns es) = filter (\<lambda>e. \<not> dir_in (set ns) e) es"
  using assms(2)
proof (induction ns arbitrary: es)
  case (Cons n ns)
  obtain ok es1 where rm: "remove_dir_all (os env) [''frames''] n es = (ok, es1)" by (cases "remove_dir_all (os env) [''frames''] n es")
  then have es1: "es1 = filter (\<lambda>e. \<not> dir_in {n} e) es" using remove_dir_all_filter [OF assms(1) Cons.prems] by (metis snd_conv)
  then have "distinct (map fst es1)" using Cons.prems by (simp add: distinct_fst_filter)
  from Cons.IH [OF this] rm show ?case
    by (auto simp: es1 dir_in_insert [of n "set ns"] split: prod.split)
qed simp

lemma frames_of_set_frames: "frames_of d = Some x \<Longrightarrow> frames_of (set_frames es d) = Some (Dir es)"
  by (cases d) (simp_all add: frames_of_def set_frames_def AList.update_conv')

lemma disk_node_frames:
  "frames_of d = Some (Dir es) \<Longrightarrow> disk_node d (''frames'' # p) = node_at es p"
  by (cases d) (auto simp: frames_of_def disk_node_def)

lemma enforce_retention_calm:
  assumes calm: "calm (os env)" and frames: "frames_of d = Some (Dir es)" "distinct (map fst es)"
    and cutoff: "minus_days env now (unat (retention_days s)) = Some t"
  obtains r s' d' es' where "enforce_retention env now (s, d) = Some (Inr r, s', d')" "frames_of d' = Some (Dir es')"
    "es' = filter (\<lambda>e. \<not> dir_in {n. length n = 10 \<and> n < date_str (civil_of env t)} e) es"
    "s' = s \<and> d' = d \<or> s' = s\<lparr>cached_size_bytes := of_nat (entries_bytes es')\<rparr> \<and> d' = set_frames es' d"
proof -
  let ?old = "\<lambda>n. length n = 10 \<and> n < date_str (civil_of env t)"
  define dirs where "dirs = map fst (filter (\<lambda>(n, _ :: node). ?old n) es)"
  have names: "dir_in (set dirs) e \<longleftrightarrow> dir_in {n. ?old n} e" if "e \<in> set es" for e
    using that by (force simp: dirs_def dir_in_def)
  have left: "filter (\<lambda>e. \<not> dir_in (set dirs) e) es = filter (\<lambda>e. \<not> dir_in {n. ?old n} e) es"
    using names by (intro filter_cong refl) simp
  show ?thesis
  proof (cases "dirs = []")
    case True
    then have "enforce_retention env now (s, d) = Some (Inr 0, s, d)"
      using frames cutoff calm by (simp add: enforce_retention_def dirs_def)
    moreover have "filter (\<lambda>e. \<not> dir_in {n. ?old n} e) es = es" using left True by simp
    ultimately show ?thesis using that frames(1) by metis
  next
    case False
    obtain k es1 where rm: "remove_dirs env dirs es = (k, es1)" by (cases "remove_dirs env dirs es")
    have es1: "es1 = filter (\<lambda>e. \<not> dir_in {n. ?old n} e) es"
      using remove_dirs_filter [OF calm frames(2), of dirs] rm left by simp
    have "enforce_retention env now (s, d) = Some (Inr k, s\<lparr>cached_size_bytes := of_nat (entries_bytes es1)\<rparr>, set_frames es1 d)"
      using False frames cutoff calm rm
      by (simp add: enforce_retention_def dirs_def frames_size_def frames_of_set_frames calculate_dir_size_calm)
    then show ?thesis using that es1 frames_of_set_frames [OF frames(1)] by blast
  qed
qed

section \<open>The limit by size\<close>

abbreviation mb :: "nat \<Rightarrow> nat" where "mb n \<equiv> n div 1048576"

lemma unat_mb: "unat (x div 1024 div 1024 :: u64) = mb (unat x)"
  by (simp add: unat_div div_mult2_eq [symmetric])

lemma unat_saturating_sub: "unat (saturating_sub x y) = unat x - unat y"
  by (simp add: saturating_sub_def unat_sub word_le_nat_alt)

lemma mb_diff_le: "a + b = c \<Longrightarrow> mb a \<le> mb c - mb b"
  using div_add1_eq [of a b 1048576] by simp

lemma unat_of_nat_u64: "n < 2 ^ 64 \<Longrightarrow> unat (of_nat n :: u64) = n"
  by (simp add: unat_of_nat)

text \<open>What the limit leaves: the days after the first \<open>k\<close> names, and everything that is not a directory of a day.\<close>

definition without_days :: "string list \<Rightarrow> entries \<Rightarrow> entries" where
  "without_days ns es = filter (\<lambda>e. \<not> dir_in (set ns) e) es"

lemma without_days_Nil [simp]: "without_days [] es = es"
  by (simp add: without_days_def)

lemma without_days_Cons: "without_days (n # ns) es = without_days ns (without_days [n] es)"
  by (auto simp: without_days_def dir_in_def intro: filter_cong)

lemma distinct_without_days: "distinct (map fst es) \<Longrightarrow> distinct (map fst (without_days ns es))"
  by (simp add: without_days_def distinct_fst_filter)

lemma without_days_bytes_le: "entries_bytes (without_days ns es) \<le> entries_bytes es"
  by (simp add: without_days_def entries_bytes_filter_le)

lemma limit_loop_calm:
  assumes calm: "calm (os env)" and "distinct (map fst es)" "distinct ns" "\<forall>n \<in> set ns. \<exists>ys. map_of es n = Some (Dir ys)"
    and "mb (entries_bytes es) \<le> unat cur" "entries_bytes es < 2 ^ 64"
  shows "\<exists>k \<le> length ns. \<exists>c. limit_loop env max_mb ns cur es =
      (c, of_nat (entries_bytes es - entries_bytes (without_days (take k ns) es)), without_days (take k ns) es)
    \<and> (k = length ns \<or> mb (entries_bytes (without_days (take k ns) es)) \<le> unat max_mb)"
  using assms(2-)
proof (induction ns arbitrary: cur es)
  case (Cons n ns)
  show ?case
  proof (cases "cur \<le> max_mb")
    case True
    then have "mb (entries_bytes es) \<le> unat max_mb" using Cons.prems(4) by (simp add: word_le_nat_alt)
    with True show ?thesis by (intro exI [of _ 0]) simp
  next
    case False
    obtain ys where ys: "map_of es n = Some (Dir ys)" using Cons.prems(3) by auto
    define es1 where "es1 = without_days [n] es"
    have rm: "remove_dir_all (os env) [''frames''] n es = (True, es1)"
      using remove_dir_all_calm [OF calm ys, of "[''frames'']"] remove_dir_all_filter [OF calm Cons.prems(1), of "[''frames'']" n]
      by (simp add: es1_def without_days_def)
    then have "es1 = AList.delete n es" using remove_dir_all_calm [OF calm ys, of "[''frames'']"] by simp
    then have bytes: "entries_bytes es1 + entries_bytes ys = entries_bytes es"
      using entries_bytes_delete [OF Cons.prems(1) ys] by simp
    have size: "day_size env n es = of_nat (entries_bytes ys)" "unat (day_size env n es) = entries_bytes ys"
      using ys calm bytes Cons.prems(5) by (simp_all add: day_size_def calculate_dir_size_calm unat_of_nat_u64)
    let ?cur = "saturating_sub cur (day_size env n es div 1024 div 1024)"
    have "mb (entries_bytes es1) \<le> unat ?cur"
      using mb_diff_le [OF bytes] Cons.prems(4) by (simp add: unat_saturating_sub unat_mb size(2))
    moreover have "\<forall>m \<in> set ns. \<exists>zs. map_of es1 m = Some (Dir zs)"
      using Cons.prems(2,3) by (auto simp: es1_def without_days_def map_of_filter_dir_in [OF Cons.prems(1)])
    moreover have "distinct (map fst es1)" "entries_bytes es1 < 2 ^ 64"
      using Cons.prems(1,5) bytes by (simp_all add: es1_def distinct_without_days)
    ultimately obtain k c where k: "k \<le> length ns"
      "limit_loop env max_mb ns ?cur es1 =
        (c, of_nat (entries_bytes es1 - entries_bytes (without_days (take k ns) es1)), without_days (take k ns) es1)"
      "k = length ns \<or> mb (entries_bytes (without_days (take k ns) es1)) \<le> unat max_mb"
      using Cons.IH [of es1 ?cur] Cons.prems(2) by auto
    have sum: "(of_nat (entries_bytes ys) :: u64) + of_nat (entries_bytes es1 - m) = of_nat (entries_bytes es - m)" if "m \<le> entries_bytes es1" for m
      using that bytes by (simp add: of_nat_add [symmetric] add.commute del: of_nat_add)
    have "limit_loop env max_mb (n # ns) cur es =
        (day_count env n es + c, of_nat (entries_bytes es - entries_bytes (without_days (take k ns) es1)), without_days (take k ns) es1)"
      using False by (simp add: rm k(2) [unfolded size(1)] size(1) sum [OF without_days_bytes_le])
    with k show ?thesis by (intro exI [of _ "Suc k"]) (simp add: without_days_Cons [of n "take k ns" es] es1_def [symmetric])
  qed
qed simp

text \<open>A frames directory with distinct names, and a size tracker that is either unset or exact.\<close>

definition tracker_exact :: "FrameFileStorage \<Rightarrow> entries \<Rightarrow> bool" where
  "tracker_exact s es = (cached_size_initialized s \<longrightarrow> cached_size_bytes s = of_nat (entries_bytes es))"

lemma init_size_calm:
  assumes "calm (os env)" "frames_of d = Some (Dir es)" "tracker_exact s es"
  shows "init_size env (s, d) = Inr (s\<lparr>cached_size_bytes := of_nat (entries_bytes es), cached_size_initialized := True\<rparr>)"
  using assms by (cases "cached_size_initialized s")
    (auto simp: init_size_def frames_size_def calculate_dir_size_calm tracker_exact_def)

definition date_dirs :: "entries \<Rightarrow> string list" where
  "date_dirs es = map fst (filter (\<lambda>(n, x). (\<exists>ys. x = Dir ys) \<and> date_named n) es)"

lemma list_date_dirs_calm: "calm a \<Longrightarrow> list_date_dirs a p (Some (Dir es)) = Inr (date_dirs es)"
  by (auto simp: list_date_dirs_def date_dirs_def intro!: filter_cong)

lemma date_dirs_dir: "distinct (map fst es) \<Longrightarrow> n \<in> set (date_dirs es) \<Longrightarrow> \<exists>ys. map_of es n = Some (Dir ys)"
  by (auto simp: date_dirs_def)

lemma enforce_storage_limit_calm:
  assumes calm: "calm (os env)" and frames: "frames_of d = Some (Dir es)" "distinct (map fst es)"
    and small: "entries_bytes es < 2 ^ 64" and exact: "tracker_exact s es"
  obtains k c s' d' where "k \<le> length (date_dirs es)" "enforce_storage_limit env (s, d) = (Inr c, s', d')"
    "frames_of d' = Some (Dir (without_days (take k (sort (date_dirs es))) es))"
    "s' = s\<lparr>cached_size_bytes := of_nat (entries_bytes (without_days (take k (sort (date_dirs es))) es)), cached_size_initialized := True\<rparr>"
    "mb (entries_bytes es) \<le> unat (max_storage_mb s) \<longrightarrow> k = 0"
    "k = length (date_dirs es) \<or> mb (entries_bytes (without_days (take k (sort (date_dirs es))) es)) \<le> unat (max_storage_mb s)"
proof -
  let ?b = "of_nat (entries_bytes es) :: u64"
  let ?s = "s\<lparr>cached_size_bytes := ?b, cached_size_initialized := True\<rparr>"
  have b: "unat ?b = entries_bytes es" using small by (rule unat_of_nat_u64)
  have cur: "unat (?b div 1024 div 1024) = mb (entries_bytes es)" by (simp add: unat_mb b)
  show ?thesis
  proof (cases "?b div 1024 div 1024 \<le> max_storage_mb s")
    case True
    then have le: "mb (entries_bytes es) \<le> unat (max_storage_mb s)" using cur by (simp add: word_le_nat_alt)
    have "enforce_storage_limit env (s, d) = (Inr 0, ?s, d)"
      using True frames(1) by (simp add: enforce_storage_limit_def init_size_calm [OF calm frames(1) exact])
    then show ?thesis using le frames(1) by (intro that [of 0 0 ?s d]) simp_all
  next
    case False
    define ds where "ds = sort (date_dirs es)"
    have "distinct ds" using frames(2) by (simp add: ds_def date_dirs_def distinct_fst_filter)
    moreover have "\<forall>n \<in> set ds. \<exists>ys. map_of es n = Some (Dir ys)" using date_dirs_dir [OF frames(2)] by (auto simp: ds_def)
    ultimately obtain k c where k: "k \<le> length ds"
      "limit_loop env (max_storage_mb s) ds (?b div 1024 div 1024) es =
        (c, of_nat (entries_bytes es - entries_bytes (without_days (take k ds) es)), without_days (take k ds) es)"
      "k = length ds \<or> mb (entries_bytes (without_days (take k ds) es)) \<le> unat (max_storage_mb s)"
      using limit_loop_calm [OF calm frames(2), of ds "?b div 1024 div 1024" "max_storage_mb s"] cur small by auto
    let ?es = "without_days (take k ds) es"
    let ?gone = "entries_bytes es - entries_bytes ?es"
    have gone: "unat (of_nat ?gone :: u64) = ?gone" using small by (simp add: unat_of_nat_u64)
    have sub: "saturating_sub ?b (of_nat ?gone) = of_nat (entries_bytes ?es)"
      using without_days_bytes_le [of "take k ds" es] b gone small
      by (intro word_unat_eq_iff [THEN iffD2]) (simp add: unat_saturating_sub unat_of_nat_u64)
    have zero: "entries_bytes ?es = entries_bytes es" if "\<not> 0 < (of_nat ?gone :: u64)"
      using that gone without_days_bytes_le [of "take k ds" es] by (simp add: word_less_nat_alt)
    have "enforce_storage_limit env (s, d) =
        (Inr c, s\<lparr>cached_size_bytes := of_nat (entries_bytes ?es), cached_size_initialized := True\<rparr>, set_frames ?es d)"
      using False frames(1) sub zero
      by (simp add: enforce_storage_limit_def init_size_calm [OF calm frames(1) exact] list_date_dirs_calm [OF calm] ds_def [symmetric] k(2))
        (metis zero)
    moreover have "\<not> mb (entries_bytes es) \<le> unat (max_storage_mb s)" using False cur by (simp add: word_le_nat_alt)
    ultimately show ?thesis
      using k frames_of_set_frames [OF frames(1)]
      by (intro that [of k c "s\<lparr>cached_size_bytes := of_nat (entries_bytes ?es), cached_size_initialized := True\<rparr>" "set_frames ?es d"])
        (simp_all add: ds_def)
  qed
qed

text \<open>Days below one megabyte do not lower the running total, so the loop does not stop.\<close>

lemma limit_loop_small_days:
  assumes calm: "calm (os env)" and "distinct (map fst es)" "distinct ns"
    and "\<forall>n \<in> set ns. \<exists>ys. map_of es n = Some (Dir ys) \<and> entries_bytes ys < 1048576" and over: "\<not> cur \<le> max_mb"
  shows "snd (snd (limit_loop env max_mb ns cur es)) = without_days ns es"
  using assms(2-4)
proof (induction ns arbitrary: es)
  case (Cons n ns)
  obtain ys where ys: "map_of es n = Some (Dir ys)" "entries_bytes ys < 1048576" using Cons.prems(3) by auto
  define es1 where "es1 = without_days [n] es"
  have rm: "remove_dir_all (os env) [''frames''] n es = (True, es1)"
    using remove_dir_all_calm [OF calm ys(1), of "[''frames'']"] remove_dir_all_filter [OF calm Cons.prems(1), of "[''frames'']" n]
    by (simp add: es1_def without_days_def)
  have "unat (day_size env n es div 1024 div 1024) = 0"
    using ys calm by (simp add: unat_mb day_size_def calculate_dir_size_calm unat_of_nat_u64)
  then have zero: "day_size env n es div 1024 div 1024 = 0" by (simp add: unat_eq_0)
  have "snd (snd (limit_loop env max_mb ns cur es1)) = without_days ns es1"
    using Cons.IH [of es1] Cons.prems
    by (auto simp: es1_def distinct_without_days) (auto simp: without_days_def map_of_filter_dir_in [OF Cons.prems(1)])
  with over show ?case
    by (auto simp: rm zero saturating_sub_def without_days_Cons [of n ns es] es1_def [symmetric] split: prod.split)
qed simp

section \<open>Writing and reading a frame\<close>

lemma node_at_update: "node_at (AList.update n x es) (n # p) = (case x of Dir ys \<Rightarrow> node_at ys p | File bs \<Rightarrow> if p = [] then Some (File bs) else None)"
  by (simp add: AList.update_conv' split: node.split)

lemma write_file_node_at: "write_file a q p bs es = (None, es') \<Longrightarrow> node_at es' p = Some (File bs)"
proof (induction a q p bs es arbitrary: es' rule: write_file.induct)
  case (2 a q n bs es)
  then show ?case by (auto simp: AList.update_conv' split: option.splits node.splits)
next
  case (3 a q n m ns bs es)
  from "3.prems" obtain ys zs where ys: "map_of es n = Some (Dir ys)" "write_file a (q @ [n]) (m # ns) bs ys = (None, zs)"
    "es' = AList.update n (Dir zs) es"
    by (auto simp del: write_file.simps(2) split: option.splits node.splits prod.splits)
  with "3.IH" [OF ys(1) refl ys(2)] show ?case by (simp only: node_at_update node.case)
qed simp

lemma make_dirs_Some: "make_dirs env p d = (None, d') \<Longrightarrow> \<exists>es. d' = Some es"
  by (auto simp: make_dirs_def map_prod_def split: option.splits prod.splits)

lemma write_frame_node:
  assumes "write_frame env key fill p data (Some es) = (Inr n, d')"
  obtains out where "disk_node d' p = Some (File out)" "(case key of Some k \<Rightarrow> encrypt (crypto env) fill k data | None \<Rightarrow> Inr data) = Inr out"
    "n = of_nat (length out)"
  using assms by (auto simp: write_frame_def disk_node_def split: sum.splits prod.splits option.splits dest!: write_file_node_at)

lemma decrypt_encrypt:
  assumes "encrypt c fill k data = Inr out"
    and "\<forall>k nonce x y. seal c k nonce x = Inr y \<longrightarrow> unseal c k nonce y = Inr x" and "\<forall>nonce. fill = Inr nonce \<longrightarrow> length nonce = 12"
  shows "decrypt c k out = Inr data"
proof -
  from assms(1) obtain nonce y where k: "length k = 32" "fill = Inr nonce" "seal c k nonce data = Inr y" "out = nonce @ y"
    by (cases fill; cases "length k = 32"; cases "seal c k (projr fill) data") (auto simp: encrypt_def cipher_init_def)
  moreover have "length nonce = 12" "unseal c k nonce y = Inr data" using k assms(2,3) by auto
  ultimately show ?thesis by (simp add: decrypt_def cipher_init_def)
qed

lemma save_frame_cases:
  assumes "save_frame env now stat fill ts data (s, d) = (Inr p, s', d')"
  obtains out where "disk_node d' p = Some (File out)"
    "(case encryption_key s of Some k \<Rightarrow> encrypt (crypto env) fill k data | None \<Rightarrow> Inr data) = Inr out"
    "encryption_key s' = encryption_key s" "buffer_pool s' = buffer_pool s"
proof -
  let ?c = "civil_of env ts"
  obtain crit s1 where crit: "disk_critical now stat s = (crit, s1)" by (cases "disk_critical now stat s")
  then have s1: "encryption_key s1 = encryption_key s" "buffer_pool s1 = buffer_pool s"
    by (auto simp: disk_critical_def Let_def split: prod.splits)
  obtain e d1 where mk: "make_dirs env [''frames'', date_str ?c] d = (e, d1)" by (cases "make_dirs env [''frames'', date_str ?c] d")
  from assms crit mk have e: "e = None" by (auto simp: save_frame_def Let_def split: if_splits option.splits)
  with mk obtain es where d1: "d1 = Some es" using make_dirs_Some by blast
  from assms crit mk e obtain n where
    wr: "write_frame env (encryption_key s1) fill p data d1 = (Inr n, d')"
    and s': "encryption_key s' = encryption_key s1" "buffer_pool s' = buffer_pool s1"
    by (auto simp: save_frame_def Let_def split: if_splits sum.splits prod.splits)
  from write_frame_node [OF wr [unfolded d1]] s1 s' that show ?thesis by metis
qed

end
