(* ===== verification/FrameRuns.thy ===== *)
theory FrameRuns
  imports FrameProperties "HOL-Library.Code_Target_Nat"
begin

text \<open>
  Runs of the frame storage: the invariant of the frames directory, the size tracker and the buffer pool, that every operation
  keeps it, and the properties of saving, retention and the size limit.
\<close>

section \<open>The invariant\<close>

definition frame_files :: "node \<Rightarrow> bool" where
  "frame_files x = (case x of Dir ys \<Rightarrow> list_all (\<lambda>(_, y). case y of File _ \<Rightarrow> True | Dir _ \<Rightarrow> False) ys | File _ \<Rightarrow> False)"

text \<open>The frames directory holds only days, each with files only.\<close>

definition tidy :: "entries \<Rightarrow> bool" where
  "tidy es = (distinct (map fst es) \<and> list_all (\<lambda>(n, x). date_named n \<and> frame_files x) es)"

definition pool_clean :: "BufferPool \<Rightarrow> bool" where
  "pool_clean pool = (length pool \<le> BUFFER_POOL_SIZE \<and> list_all (\<lambda>b. b = []) pool)"

definition frame_ok :: "frame_state \<Rightarrow> bool" where
  "frame_ok st = (case frames_of (snd st) of
     Some (Dir es) \<Rightarrow> tidy es \<and> tracker_exact (fst st) es \<and> pool_clean (buffer_pool (fst st))
   | _ \<Rightarrow> False)"

lemma frame_okE:
  assumes "frame_ok (s, d)"
  obtains es where "frames_of d = Some (Dir es)" "tidy es" "tracker_exact s es" "pool_clean (buffer_pool s)"
  using assms by (auto simp: frame_ok_def split: option.splits node.splits)

lemma frame_okI [inv_intros]:
  "frames_of d = Some (Dir es) \<Longrightarrow> tidy es \<Longrightarrow> tracker_exact s es \<Longrightarrow> pool_clean (buffer_pool s) \<Longrightarrow> frame_ok (s, d)"
  by (simp add: frame_ok_def)

lemma frame_files_Dir: "frame_files x \<Longrightarrow> \<exists>ys. x = Dir ys \<and> frame_files (Dir ys)"
  by (cases x) (simp_all add: frame_files_def)

lemma tidy_day: "tidy es \<Longrightarrow> map_of es n = Some x \<Longrightarrow> date_named n \<and> (\<exists>ys. x = Dir ys \<and> frame_files (Dir ys))"
  by (drule map_of_SomeD) (auto simp: tidy_def list_all_iff dest: frame_files_Dir)

lemma tidy_filter [inv_intros]: "tidy es \<Longrightarrow> tidy (filter P es)"
  by (simp add: tidy_def distinct_fst_filter list_all_iff)

lemma tidy_without_days [inv_intros]: "tidy es \<Longrightarrow> tidy (without_days ns es)"
  by (simp add: without_days_def tidy_filter)

lemma tidy_update [inv_intros]:
  assumes "tidy es" and "date_named n" and "frame_files x"
  shows "tidy (AList.update n x es)"
proof -
  have "set (AList.update n x es) \<subseteq> insert (n, x) (set es)" by (induction es) auto
  with assms show ?thesis by (auto simp: tidy_def list_all_iff AList.distinct_update)
qed

lemma frame_files_update: "frame_files (Dir ys) \<Longrightarrow> frame_files (Dir (AList.update f (File bs) ys))"
proof -
  have "set (AList.update f (File bs) ys) \<subseteq> insert (f, File bs) (set ys)" by (induction ys) auto
  then show "frame_files (Dir ys) \<Longrightarrow> ?thesis" by (auto simp: frame_files_def list_all_iff)
qed

section \<open>Saving keeps the invariant\<close>

definition day_of :: "entries \<Rightarrow> string \<Rightarrow> entries" where
  "day_of es n = (case map_of es n of Some (Dir ys) \<Rightarrow> ys | _ \<Rightarrow> [])"

lemma make_dirs_day:
  assumes calm: "calm (os env)" and fr: "frames_of d = Some (Dir es)" and tidy: "tidy es"
  shows "make_dirs env [''frames'', n] d = (None, set_frames (AList.update n (Dir (day_of es n)) es) d)"
proof -
  from fr obtain bs where d: "d = Some bs" "map_of bs ''frames'' = Some (Dir es)" by (cases d) (auto simp: frames_of_def)
  show ?thesis
  proof (cases "map_of es n")
    case None
    with d calm show ?thesis by (simp add: make_dirs_def set_frames_def day_of_def)
  next
    case (Some x)
    with tidy_day [OF tidy Some] obtain ys where "map_of es n = Some (Dir ys)" by auto
    with d calm show ?thesis by (simp add: make_dirs_def set_frames_def day_of_def)
  qed
qed

lemma write_frame_day:
  assumes calm: "calm (os env)" and fr: "frames_of d = Some (Dir es)" and dy: "map_of es n = Some (Dir ys)" and fresh: "map_of ys f = None"
  shows "write_frame env key fill [''frames'', n, f] data d =
    (case (case key of Some k \<Rightarrow> encrypt (crypto env) fill k data | None \<Rightarrow> Inr data) of
       Inl e \<Rightarrow> (Inl e, d)
     | Inr out \<Rightarrow> (Inr (of_nat (length out)), set_frames (AList.update n (Dir (AList.update f (File out) ys)) es) d))"
proof -
  from fr obtain bs where d: "d = Some bs" "map_of bs ''frames'' = Some (Dir es)" by (cases d) (auto simp: frames_of_def)
  with calm dy fresh show ?thesis
    by (simp add: write_frame_def set_frames_def split: sum.split)
qed

lemma day_of_update [simp]: "map_of (AList.update n (Dir (day_of es n)) es) n = Some (Dir (day_of es n))"
  by (simp add: AList.update_conv')

lemma day_of_files: "tidy es \<Longrightarrow> frame_files (Dir (day_of es n))"
  by (auto simp: day_of_def frame_files_def split: option.split node.split dest!: tidy_day)

lemma node_at_file: "node_at es [n, f] = (case map_of (day_of es n) f of Some x \<Rightarrow> Some x | None \<Rightarrow> None)"
  by (auto simp: day_of_def split: option.split node.split)

lemma day_of_after_update: "day_of (AList.update n (Dir ys) es) m = (if m = n then ys else day_of es m)"
  by (simp add: day_of_def AList.update_conv')

lemma entries_bytes_add_day: "tidy es \<Longrightarrow> entries_bytes (AList.update n (Dir (day_of es n)) es) = entries_bytes es"
  using entries_bytes_update [of n "Dir (day_of es n)" es] by (auto simp: day_of_def split: option.splits dest: tidy_day)

text \<open>Creating the day and writing a frame under a free name.\<close>

lemma save_task_ok:
  assumes calm: "calm (os env)" and fr: "frames_of d = Some (Dir es)" and tidy: "tidy es"
    and date: "plain_date (civil_of env ts)" and p: "p = [''frames'', date_str (civil_of env ts), frame_file_name (civil_of env ts) k]"
    and fresh: "disk_node d p = None"
    and save: "save_task env key k fill ts data d = (r, d')"
  obtains es' where "frames_of d' = Some (Dir es')" "tidy es'"
    "\<And>q. ''frames'' # q \<noteq> p \<Longrightarrow> length q = 2 \<Longrightarrow> node_at es' q = node_at es q"
    "(case r of Inl _ \<Rightarrow> entries_bytes es' = entries_bytes es
      | Inr (q, n) \<Rightarrow> q = p \<and> (\<exists>m. n = of_nat m \<and> entries_bytes es' = entries_bytes es + m))"
proof -
  let ?c = "civil_of env ts"
  define n f where "n = date_str ?c" and "f = frame_file_name ?c k"
  define es1 where "es1 = AList.update n (Dir (day_of es n)) es"
  have mk: "make_dirs env [''frames'', n] d = (None, set_frames es1 d)" using make_dirs_day [OF calm fr tidy] by (simp add: es1_def)
  have fr1: "frames_of (set_frames es1 d) = Some (Dir es1)" using fr by (rule frames_of_set_frames)
  have dn: "date_named n" using date by (simp add: n_def date_str_shape)
  have tidy1: "tidy es1" unfolding es1_def by (intro inv_intros tidy dn day_of_files)
  have free: "map_of (day_of es n) f = None"
    using fresh by (simp add: p n_def [symmetric] f_def [symmetric] disk_node_frames [OF fr] node_at_file del: node_at.simps split: option.splits)
  have day1: "map_of es1 n = Some (Dir (day_of es n))" by (simp add: es1_def)
  have same1: "node_at es1 [a, b] = node_at es [a, b]" for a b by (simp add: node_at_file es1_def day_of_after_update del: node_at.simps)
  have bytes1: "entries_bytes es1 = entries_bytes es" unfolding es1_def by (rule entries_bytes_add_day [OF tidy])
  note wr = write_frame_day [OF calm fr1 day1 free]
  have len2: "length q = 2 \<longleftrightarrow> (\<exists>a b. q = [a, b])" for q :: path by (auto simp: length_Suc_conv numeral_2_eq_2)
  show ?thesis
  proof (cases "case key of Some k \<Rightarrow> encrypt (crypto env) fill k data | None \<Rightarrow> Inr data")
    case (Inl e)
    then have "r = Inl e" "d' = set_frames es1 d" using save mk wr [of key fill data]
      by (auto simp: save_task_def n_def [symmetric] f_def [symmetric])
    with fr1 tidy1 same1 bytes1 show ?thesis by (intro that [of es1]) (auto simp: len2 simp del: node_at.simps)
  next
    case (Inr out)
    define es2 where "es2 = AList.update n (Dir (AList.update f (File out) (day_of es n))) es1"
    have r: "r = Inr (p, of_nat (length out))" "d' = set_frames es2 (set_frames es1 d)" using save mk wr [of key fill data] Inr
      by (auto simp: save_task_def p n_def [symmetric] f_def [symmetric] es2_def)
    have "tidy es2" unfolding es2_def by (intro inv_intros tidy1 dn frame_files_update day_of_files tidy)
    moreover have "node_at es2 [a, b] = node_at es [a, b]" if "\<not> (a = n \<and> b = f)" for a b
      using that same1 [of a b] by (auto simp: node_at_file es2_def es1_def day_of_after_update AList.update_conv' simp del: node_at.simps)
    moreover have "entries_bytes es2 = entries_bytes es + length out"
      using entries_bytes_update [of n "Dir (AList.update f (File out) (day_of es n))" es1] entries_bytes_update [of f "File out" "day_of es n"]
      by (simp add: es2_def [symmetric] day1 free bytes1)
    ultimately show ?thesis using r frames_of_set_frames [OF fr1]
      by (intro that [of es2]) (auto simp: len2 p n_def [symmetric] f_def [symmetric] simp del: node_at.simps)
  qed
qed

lemma disk_critical_keeps:
  "disk_critical now stat s = (b, s1) \<Longrightarrow> s1 = s\<lparr>disk_cache := disk_cache s1\<rparr>"
  by (cases s) (auto simp: disk_critical_def split: prod.splits)

definition written :: "StoreError + path \<times> u64 \<Rightarrow> u64" where "written r = (case r of Inl _ \<Rightarrow> 0 | Inr (_, n) \<Rightarrow> n)"

text \<open>In a tidy directory \<open>save_frame\<close> does what a task of a batch does.\<close>

lemma save_frame_task:
  assumes calm: "calm (os env)" and fr: "frames_of d = Some (Dir es)" and tidy: "tidy es"
    and crit: "disk_critical now stat s = (False, s1)"
    and task: "save_task env (encryption_key s1) (frame_counter s1 mod 1000) fill ts data d = (r, d')"
  shows "save_frame env now stat fill ts data (s, d) =
    (map_sum id fst r, s1\<lparr>frame_counter := frame_counter s1 + 1, cached_size_bytes := cached_size_bytes s1 + written r\<rparr>, d')"
proof -
  let ?n = "date_str (civil_of env ts)"
  obtain d1 where mk: "make_dirs env [''frames'', ?n] d = (None, d1)" using make_dirs_day [OF calm fr tidy] by blast
  let ?p = "[''frames'', ?n, frame_file_name (civil_of env ts) (frame_counter s1 mod 1000)]"
  obtain w d2 where w: "write_frame env (encryption_key s1) fill ?p data d1 = (w, d2)"
    by (cases "write_frame env (encryption_key s1) fill ?p data d1")
  from task mk w have "r = (case w of Inl e \<Rightarrow> Inl e | Inr n \<Rightarrow> Inr (?p, n))" "d' = d2"
    by (auto simp: save_task_def Let_def split: sum.splits)
  with crit mk w show ?thesis by (cases w) (simp_all add: save_frame_def written_def Let_def)
qed

definition frame_path :: "frame_env \<Rightarrow> time \<Rightarrow> u32 \<Rightarrow> path" where
  "frame_path env ts counter =
     [''frames'', date_str (civil_of env ts), frame_file_name (civil_of env ts) (counter mod 1000)]"

text \<open>The files a batch is going to write.\<close>

fun batch_paths :: "frame_env \<Rightarrow> (time \<times> u8 list \<times> (string + u8 list)) list \<Rightarrow> u32 \<Rightarrow> path list" where
  "batch_paths env [] counter = []"
| "batch_paths env ((ts, _, _) # fs) counter = frame_path env ts counter # batch_paths env fs (counter + 1)"

lemma written_task:
  assumes "case r of Inl _ \<Rightarrow> b' = b | Inr (q, n) \<Rightarrow> q = p \<and> (\<exists>m. n = of_nat m \<and> b' = b + m)"
  shows "of_nat b' = of_nat b + written r"
  using assms by (auto simp: written_def split: sum.splits)

lemma save_tasks_ok:
  assumes calm: "calm (os env)" and "frames_of d = Some (Dir es)" "tidy es" "\<forall>(ts, _) \<in> set fs. plain_date (civil_of env ts)"
    "distinct (batch_paths env fs counter)" "\<forall>p \<in> set (batch_paths env fs counter). disk_node d p = None"
    and "save_tasks env key fs counter d = (rs, c, d')"
  shows "\<exists>es'. frames_of d' = Some (Dir es') \<and> tidy es' \<and> of_nat (entries_bytes es') = of_nat (entries_bytes es) + sum_list (map written rs)"
  using assms(2-)
proof (induction fs arbitrary: counter d es rs)
  case (Cons x fs)
  obtain ts data fill where x [simp]: "x = (ts, data, fill)" by (cases x)
  let ?p = "frame_path env ts counter"
  obtain r d1 where r: "save_task env key (counter mod 1000) fill ts data d = (r, d1)" by (cases "save_task env key (counter mod 1000) fill ts data d")
  obtain rs1 where rs: "rs = r # rs1" "save_tasks env key fs (counter + 1) d1 = (rs1, c, d')"
    using Cons.prems(6) by (auto simp: r split: prod.splits)
  have date: "plain_date (civil_of env ts)" and fresh: "disk_node d ?p = None" using Cons.prems(3,5) by auto
  obtain es1 where es1: "frames_of d1 = Some (Dir es1)" "tidy es1" "\<And>q. ''frames'' # q \<noteq> ?p \<Longrightarrow> length q = 2 \<Longrightarrow> node_at es1 q = node_at es q"
    "of_nat (entries_bytes es1) = of_nat (entries_bytes es) + written r"
    by (rule save_task_ok [OF calm Cons.prems(1,2) date frame_path_def fresh r]) (blast dest: written_task)
  have shape: "\<exists>q. p = ''frames'' # q \<and> length q = 2" if "p \<in> set (batch_paths env fs counter')" for p counter'
    using that by (induction env fs counter' rule: batch_paths.induct) (auto simp: frame_path_def)
  have "disk_node d1 p = None" if p: "p \<in> set (batch_paths env fs (counter + 1))" for p
  proof -
    obtain q where q: "p = ''frames'' # q" "length q = 2" using shape p by blast
    have "p \<noteq> ?p" using Cons.prems(4) p by auto
    then have "node_at es1 q = node_at es q" using es1(3) q by auto
    then show ?thesis using Cons.prems(5) p q(1) disk_node_frames [OF es1(1)] disk_node_frames [OF Cons.prems(1)] by force
  qed
  then show ?case using Cons.IH [OF es1(1,2) _ _ _ rs(2)] Cons.prems(3,4) es1(4) by (auto simp: rs(1) add.assoc)
qed auto

lemma save_frame_ok:
  assumes calm: "calm (os env)" and ok: "frame_ok (s, d)" and date: "plain_date (civil_of env ts)"
    and fresh: "disk_node d (frame_path env ts (frame_counter s)) = None"
  shows "frame_ok (snd (save_frame env now stat fill ts data (s, d)))"
proof -
  obtain es where es: "frames_of d = Some (Dir es)" "tidy es" "tracker_exact s es" "pool_clean (buffer_pool s)" using ok by (rule frame_okE)
  obtain crit s1 where crit: "disk_critical now stat s = (crit, s1)" by (cases "disk_critical now stat s")
  obtain c where s1: "s1 = s\<lparr>disk_cache := c\<rparr>" using disk_critical_keeps [OF crit] by blast
  show ?thesis
  proof (cases crit)
    case True
    then show ?thesis using crit es by (auto simp: save_frame_def s1 tracker_exact_def intro!: frame_okI)
  next
    case False
    obtain r d' where r: "save_task env (encryption_key s1) (frame_counter s1 mod 1000) fill ts data d = (r, d')"
      by (cases "save_task env (encryption_key s1) (frame_counter s1 mod 1000) fill ts data d")
    obtain es1 where es1: "frames_of d' = Some (Dir es1)" "tidy es1" "of_nat (entries_bytes es1) = of_nat (entries_bytes es) + written r"
      by (rule save_task_ok [OF calm es(1,2) date _ fresh r]) (auto simp: frame_path_def s1 dest: written_task)
    have "frame_ok (s1\<lparr>frame_counter := frame_counter s1 + 1, cached_size_bytes := cached_size_bytes s1 + written r\<rparr>, d')"
      using es(3,4) es1 by (intro frame_okI [of d' es1]) (auto simp: s1 tracker_exact_def)
    then show ?thesis using save_frame_task [OF calm es(1,2) _ r] crit False by simp
  qed
qed

lemma save_frames_batch_ok:
  assumes calm: "calm (os env)" and ok: "frame_ok (s, d)" and dates: "\<forall>(ts, _) \<in> set fs. plain_date (civil_of env ts)"
    and fresh: "distinct (batch_paths env fs (frame_counter s))" "\<forall>p \<in> set (batch_paths env fs (frame_counter s)). disk_node d p = None"
  shows "frame_ok (snd (save_frames_batch env now stat fs (s, d)))"
proof -
  obtain es where es: "frames_of d = Some (Dir es)" "tidy es" "tracker_exact s es" "pool_clean (buffer_pool s)" using ok by (rule frame_okE)
  obtain crit s1 where crit: "disk_critical now stat s = (crit, s1)" by (cases "disk_critical now stat s")
  obtain c where s1: "s1 = s\<lparr>disk_cache := c\<rparr>" using disk_critical_keeps [OF crit] by blast
  obtain rs k d' where rs: "save_tasks env (encryption_key s) fs (frame_counter s) d = (rs, k, d')"
    by (cases "save_tasks env (encryption_key s) fs (frame_counter s) d") auto
  obtain es' where es': "frames_of d' = Some (Dir es')" "tidy es'" "of_nat (entries_bytes es') = of_nat (entries_bytes es) + sum_list (map written rs)"
    using save_tasks_ok [OF calm es(1,2) dates fresh rs] by blast
  have w: "case_sum (\<lambda>_. 0) snd = written" by (auto simp: fun_eq_iff written_def split: sum.split)
  show ?thesis
    using es(1-4) es' crit rs
    by (cases crit) (auto simp: w save_frames_batch_def s1 tracker_exact_def Let_def word_gt_0 intro!: frame_okI)
qed

section \<open>The other operations keep the invariant\<close>

lemma load_frame_keeps:
  assumes "load_frame env display p (s, d) = (r, s', d')"
  shows "d' = d \<and> (\<exists>pool. s' = s\<lparr>buffer_pool := pool\<rparr> \<and> (pool_clean (buffer_pool s) \<longrightarrow> pool_clean pool))"
proof -
  have acq: "pool_clean (snd (pool_acquire bs))" if "pool_clean bs" for bs
    using that by (auto simp: pool_acquire_def pool_clean_def split: list.splits)
  have rel: "pool_clean (pool_release b bs)" if "pool_clean bs" for b bs
    using that by (auto simp: pool_release_def pool_clean_def)
  show ?thesis
    using assms acq [of "buffer_pool s"] rel
    by (cases s) (auto simp: load_frame_def Let_def split: option.splits sum.splits prod.splits node.splits)
qed

lemma load_frame_ok: "frame_ok st \<Longrightarrow> frame_ok (snd (load_frame env display p st))"
proof (cases st)
  case (Pair s d)
  assume "frame_ok st"
  then obtain es where es: "frames_of d = Some (Dir es)" "tidy es" "tracker_exact s es" "pool_clean (buffer_pool s)"
    unfolding Pair by (rule frame_okE)
  obtain r s' d' where l: "load_frame env display p (s, d) = (r, s', d')" by (cases "load_frame env display p (s, d)") auto
  show ?thesis using load_frame_keeps [OF l] es l by (auto simp: Pair tracker_exact_def intro!: frame_okI)
qed

lemma load_frames_batch_ok: "frame_ok st \<Longrightarrow> frame_ok (snd (load_frames_batch env ps st))"
proof (induction ps arbitrary: st)
  case (Cons x ps)
  obtain p display where "x = (p, display)" by (cases x)
  then show ?case using Cons.IH [OF load_frame_ok [OF Cons.prems, of env display p]] by (simp add: case_prod_unfold Let_def)
qed simp

lemma latest_in_days_ok: "frame_ok st \<Longrightarrow> frame_ok (snd (latest_in_days env display fes days st))"
proof (induction env display fes days st rule: latest_in_days.induct)
  case (2 env display fes dy days st)
  have "frame_ok st2" if "load_frame env x p st = (r, st2)" for x p r st2
    using load_frame_ok [OF "2.prems", of env x p] that by simp
  then show ?case using 2 by (auto simp: Let_def split: option.splits sum.splits prod.splits list.splits)
qed simp

lemma load_latest_frame_ok: "frame_ok st \<Longrightarrow> frame_ok (snd (load_latest_frame env display st))"
  by (auto simp: load_latest_frame_def latest_in_days_ok split: option.splits sum.splits)

lemma tidy_distinct: "tidy es \<Longrightarrow> distinct (map fst es)"
  by (simp add: tidy_def)

lemma enforce_retention_ok:
  assumes calm: "calm (os env)" and ok: "frame_ok (s, d)" and ret: "enforce_retention env now (s, d) = Some (r, st')"
  shows "frame_ok st'"
proof -
  obtain es where es: "frames_of d = Some (Dir es)" "tidy es" "tracker_exact s es" "pool_clean (buffer_pool s)" using ok by (rule frame_okE)
  from ret es(1) obtain t where t: "minus_days env now (unat (retention_days s)) = Some t"
    by (auto simp: enforce_retention_def split: option.splits)
  show ?thesis
    by (rule enforce_retention_calm [OF calm es(1) tidy_distinct [OF es(2)] t])
      (use ret ok es(2,4) in \<open>auto simp: tracker_exact_def intro!: frame_okI tidy_filter\<close>)
qed

lemma total_size_mb_ok:
  assumes "calm (os env)" and ok: "frame_ok (s, d)"
  shows "frame_ok (snd (total_size_mb env (s, d)))"
proof -
  obtain es where es: "frames_of d = Some (Dir es)" "tidy es" "tracker_exact s es" "pool_clean (buffer_pool s)" using ok by (rule frame_okE)
  then show ?thesis
    by (auto simp: total_size_mb_def init_size_calm [OF assms(1) es(1,3)] tracker_exact_def intro!: frame_okI)
qed

lemma enforce_storage_limit_ok:
  assumes calm: "calm (os env)" and ok: "frame_ok (s, d)"
    and small: "\<And>es. frames_of d = Some (Dir es) \<Longrightarrow> entries_bytes es < 2 ^ 64"
  shows "frame_ok (snd (enforce_storage_limit env (s, d)))"
proof -
  obtain es where es: "frames_of d = Some (Dir es)" "tidy es" "tracker_exact s es" "pool_clean (buffer_pool s)" using ok by (rule frame_okE)
  show ?thesis
    by (rule enforce_storage_limit_calm [OF calm es(1) tidy_distinct [OF es(2)] small [OF es(1)] es(3)])
      (use es(2,4) in \<open>auto simp: tracker_exact_def intro!: frame_okI tidy_without_days\<close>)
qed

lemma day_count_files:
  assumes "calm (os env)" "tidy es" "map_of es n = Some (Dir ys)"
  shows "day_count env n es = length ys"
proof -
  have "frame_files (Dir ys)" using tidy_day [OF assms(2,3)] by simp
  then have "filter (\<lambda>(m, y). \<exists>bs. y = File bs) ys = ys" by (auto simp: filter_id_conv frame_files_def list_all_iff split: node.splits)
  with assms(1,3) show ?thesis by (simp add: day_count_def count_files_in_dir_def case_prod_unfold)
qed

lemma remove_dirs_none:
  assumes calm: "calm (os env)" and "tidy es" "fst (remove_dirs env ns es) = 0" "n \<in> set ns" "map_of es n = Some (Dir ys)"
  shows "ys = []"
  using assms(2-)
proof (induction ns arbitrary: es)
  case (Cons m ns)
  have rm: "snd (remove_dir_all (os env) [''frames''] m es) = without_days [m] es"
    using remove_dir_all_filter [OF calm tidy_distinct [OF Cons.prems(1)]] by (simp add: without_days_def)
  show ?case
  proof (cases "m = n")
    case True
    with Cons.prems show ?thesis
      by (auto simp: remove_dir_all_calm [OF calm Cons.prems(4)] day_count_files [OF calm Cons.prems(1,4)] split: prod.splits)
  next
    case False
    with Cons.prems have "map_of (without_days [m] es) n = Some (Dir ys)"
      by (simp add: without_days_def map_of_filter_dir_in tidy_distinct)
    moreover have "fst (remove_dirs env ns (without_days [m] es)) = 0"
      using Cons.prems(2) rm by (auto simp: Let_def split: prod.splits)
    ultimately show ?thesis using Cons.IH [of "without_days [m] es"] Cons.prems(1,3) False by (simp add: tidy_without_days)
  qed
qed simp

lemma delete_all_files_ok:
  assumes calm: "calm (os env)" and ok: "frame_ok (s, d)"
  shows "frame_ok (snd (delete_all_files env (s, d)))"
proof -
  obtain es where es: "frames_of d = Some (Dir es)" "tidy es" "tracker_exact s es" "pool_clean (buffer_pool s)" using ok by (rule frame_okE)
  have all: "date_dirs es = map fst es"
  proof -
    have "filter (\<lambda>(n, x). (\<exists>ys. x = Dir ys) \<and> date_named n) es = es"
      using es(2) unfolding filter_id_conv tidy_def list_all_iff by (fastforce dest: frame_files_Dir)
    then show ?thesis by (simp add: date_dirs_def)
  qed
  show ?thesis
  proof (cases "es = []")
    case True
    then show ?thesis using es(1) ok by (simp add: delete_all_files_def list_date_dirs_calm [OF calm] date_dirs_def)
  next
    case False
    obtain k es' where rm: "remove_dirs env (date_dirs es) es = (k, es')" by (cases "remove_dirs env (date_dirs es) es")
    have "es' = filter (\<lambda>e. \<not> dir_in (set (date_dirs es)) e) es"
      using remove_dirs_filter [OF calm tidy_distinct [OF es(2)], of "date_dirs es"] rm by simp
    also have "\<dots> = []" using es(2) by (force simp: filter_empty_conv all dir_in_def tidy_def list_all_iff dest: frame_files_Dir)
    finally have es': "es' = []" .
    have zero: "entries_bytes es = 0" if "k = 0"
    proof -
      have "node_bytes x = 0" if x: "(n, x) \<in> set es" for n x
      proof -
        have m: "map_of es n = Some x" using x tidy_distinct [OF es(2)] by simp
        then obtain ys where "x = Dir ys" using tidy_day [OF es(2)] by blast
        with m \<open>k = 0\<close> rm x show ?thesis using remove_dirs_none [OF calm es(2), of "date_dirs es" n ys] by (force simp: all)
      qed
      then show ?thesis by (auto simp: entries_bytes_def sum_list_eq_0_iff)
    qed
    then have "tracker_exact (if 0 < k then s\<lparr>cached_size_bytes := 0\<rparr> else s) []"
      using es(3) by (auto simp: tracker_exact_def)
    moreover have "snd (delete_all_files env (s, d)) = (if 0 < k then s\<lparr>cached_size_bytes := 0\<rparr> else s, set_frames [] d)"
      using False es(1) rm es' all by (simp add: delete_all_files_def list_date_dirs_calm [OF calm])
    ultimately show ?thesis
      using es(1,4) by (simp add: frame_okI [OF frames_of_set_frames] tidy_def)
  qed
qed

lemma disk_status_ok: "frame_ok (s, d) \<Longrightarrow> frame_ok (snd (disk_status now stat s), d)"
  by (auto simp: frame_ok_def disk_status_def tracker_exact_def split: prod.splits option.splits node.splits)

lemma with_encryption_ok:
  assumes calm: "calm (os env)" and free: "frames_of d = None \<or> (\<exists>es. frames_of d = Some (Dir es) \<and> tidy es)"
    and new: "with_encryption env mx days key d = (Inr s, d')"
  shows "frame_ok (s, d')"
proof -
  have pool: "pool_clean (buffer_pool_new BUFFER_POOL_SIZE)" by (simp add: pool_clean_def buffer_pool_new_def list_all_iff)
  have "\<exists>es. frames_of d' = Some (Dir es) \<and> tidy es"
  proof (cases "frames_of d")
    case None
    with new calm have "frames_of d' = Some (Dir [])"
      by (cases d) (auto simp: with_encryption_def make_dirs_def frames_of_def AList.update_conv')
    then show ?thesis by (auto simp: tidy_def)
  next
    case (Some x)
    with free obtain es where es: "x = Dir es" "tidy es" by auto
    from Some obtain bs where "d = Some bs" "map_of bs ''frames'' = Some x" by (cases d) (auto simp: frames_of_def)
    with new calm es have "d' = d" by (auto simp: with_encryption_def make_dirs_def AList.update_triv)
    with Some es show ?thesis by auto
  qed
  with new pool show ?thesis
    by (auto simp: with_encryption_def tracker_exact_def intro!: frame_okI split: prod.splits option.splits)
qed

section \<open>The port and its client\<close>

text \<open>What the scheduler relies on of \<open>FrameStoragePort\<close>: an invariant that the two maintenance calls keep.\<close>

locale frame_storage_port =
  fixes ok :: "'s \<Rightarrow> bool" and retention :: "time \<Rightarrow> 's \<Rightarrow> ('r \<times> 's) option" and limit :: "'s \<Rightarrow> 'r \<times> 's"
  assumes retention_ok: "ok st \<Longrightarrow> retention now st = Some (r, st') \<Longrightarrow> ok st'"
    and limit_ok: "ok st \<Longrightarrow> ok (snd (limit st))"
begin

lemma maintenance_keeps_ok:
  "ok st \<Longrightarrow> map_option (\<lambda>(_, st). snd (limit st)) (retention now st) = Some st' \<Longrightarrow> ok st'"
  by (auto dest: retention_ok limit_ok)

end

definition bounded_frames :: "disk \<Rightarrow> bool" where
  "bounded_frames d = (case frames_of d of Some (Dir es) \<Rightarrow> entries_bytes es < 2 ^ 64 | _ \<Rightarrow> True)"

lemma retention_bounded:
  assumes calm: "calm (os env)" and ok: "frame_ok (s, d)" "bounded_frames d" and ret: "enforce_retention env now (s, d) = Some (r, s', d')"
  shows "bounded_frames d'"
proof -
  obtain es where es: "frames_of d = Some (Dir es)" "tidy es" using ok(1) by (rule frame_okE)
  from ret es(1) obtain t where t: "minus_days env now (unat (retention_days s)) = Some t"
    by (auto simp: enforce_retention_def split: option.splits)
  show ?thesis
    by (rule enforce_retention_calm [OF calm es(1) tidy_distinct [OF es(2)] t])
      (use ret ok(2) es(1) in \<open>auto simp: bounded_frames_def intro: le_less_trans [OF entries_bytes_filter_le]\<close>)
qed

lemma limit_bounded:
  assumes calm: "calm (os env)" and ok: "frame_ok (s, d)" "bounded_frames d"
  shows "bounded_frames (snd (snd (enforce_storage_limit env (s, d))))"
proof -
  obtain es where es: "frames_of d = Some (Dir es)" "tidy es" "tracker_exact s es" using ok(1) by (rule frame_okE)
  have small: "entries_bytes es < 2 ^ 64" using ok(2) es(1) by (simp add: bounded_frames_def)
  show ?thesis
    by (rule enforce_storage_limit_calm [OF calm es(1) tidy_distinct [OF es(2)] small es(3)])
      (use small in \<open>auto simp: bounded_frames_def intro: le_less_trans [OF without_days_bytes_le]\<close>)
qed

definition storage_ok :: "frame_env \<Rightarrow> frame_state \<Rightarrow> bool" where
  "storage_ok env st = (calm (os env) \<and> frame_ok st \<and> bounded_frames (snd st))"

interpretation file_storage: frame_storage_port "storage_ok env" "enforce_retention env" "enforce_storage_limit env"
  for env
proof
  show "storage_ok env st'" if "storage_ok env st" "enforce_retention env now st = Some (r, st')" for st now r st'
  proof -
    obtain s d s' d' where st: "st = (s, d)" "st' = (s', d')" by (cases st; cases st')
    with that have ok: "calm (os env)" "frame_ok (s, d)" "bounded_frames d" "enforce_retention env now (s, d) = Some (r, s', d')"
      by (simp_all add: storage_ok_def)
    from enforce_retention_ok [OF ok(1,2,4)] retention_bounded [OF ok] ok(1) show ?thesis by (simp add: storage_ok_def st)
  qed
  show "storage_ok env (snd (enforce_storage_limit env st))" if "storage_ok env st" for st
  proof (cases st)
    case (Pair s d)
    with that have ok: "calm (os env)" "frame_ok (s, d)" "bounded_frames d" by (simp_all add: storage_ok_def)
    then have "frame_ok (snd (enforce_storage_limit env (s, d)))"
      by (intro enforce_storage_limit_ok) (simp_all add: bounded_frames_def)
    with ok limit_bounded [OF ok] show ?thesis by (simp add: Pair storage_ok_def)
  qed
qed

section \<open>Runs\<close>

inductive frame_step :: "frame_env \<Rightarrow> frame_state \<Rightarrow> frame_state \<Rightarrow> bool" for env where
  save: "plain_date (civil_of env ts) \<Longrightarrow> disk_node d (frame_path env ts (frame_counter s)) = None \<Longrightarrow>
    frame_step env (s, d) (snd (save_frame env now stat fill ts data (s, d)))"
| batch: "\<forall>(ts, _) \<in> set fs. plain_date (civil_of env ts) \<Longrightarrow> distinct (batch_paths env fs (frame_counter s)) \<Longrightarrow>
    \<forall>p \<in> set (batch_paths env fs (frame_counter s)). disk_node d p = None \<Longrightarrow>
    frame_step env (s, d) (snd (save_frames_batch env now stat fs (s, d)))"
| load: "frame_step env st (snd (load_frame env display p st))"
| load_batch: "frame_step env st (snd (load_frames_batch env ps st))"
| latest: "frame_step env st (snd (load_latest_frame env show_path st))"
| maintain: "bounded_frames (snd st) \<Longrightarrow> enforce_frame_retention env now st = Some st' \<Longrightarrow> frame_step env st st'"
| retain: "enforce_retention env now st = Some (r, st') \<Longrightarrow> frame_step env st st'"
| limit: "bounded_frames (snd st) \<Longrightarrow> frame_step env st (snd (enforce_storage_limit env st))"
| delete_all: "frame_step env st (snd (delete_all_files env st))"
| total_size: "frame_step env st (snd (total_size_mb env st))"
| status: "frame_step env (s, d) (snd (disk_status now stat s), d)"

lemma frame_step_ok: "frame_step env st st' \<Longrightarrow> calm (os env) \<Longrightarrow> frame_ok st \<Longrightarrow> frame_ok st'"
proof (induction rule: frame_step.induct)
  case (maintain st now st')
  then have "storage_ok env st" by (simp add: storage_ok_def)
  then have "storage_ok env st'" using maintain(2) unfolding enforce_frame_retention_def by (rule file_storage.maintenance_keeps_ok)
  then show ?case by (simp add: storage_ok_def)
next
  case (limit st)
  then show ?case using file_storage.limit_ok [of env st] by (simp add: storage_ok_def)
next
  case (retain now st r st')
  then show ?case using enforce_retention_ok [of env "fst st" "snd st" now r st'] by simp
next
  case (delete_all st)
  then show ?case using delete_all_files_ok [of env "fst st" "snd st"] by simp
next
  case (total_size st)
  then show ?case using total_size_mb_ok [of env "fst st" "snd st"] by simp
qed (auto intro: save_frame_ok save_frames_batch_ok load_frame_ok load_frames_batch_ok load_latest_frame_ok disk_status_ok)

lemma frame_run_ok: "(frame_step env)\<^sup>*\<^sup>* st st' \<Longrightarrow> calm (os env) \<Longrightarrow> frame_ok st \<Longrightarrow> frame_ok st'"
  by (induction rule: rtranclp_induct) (auto intro: frame_step_ok)

section \<open>Properties\<close>

text \<open>A storage for the witnesses: two days of frames, the calendar of one month, a cipher that reverses.\<close>

definition w_os :: fs_answers where
  "w_os = \<lparr>open_err = \<lambda>_. None, entry_err = \<lambda>_. None, meta_err = \<lambda>_. None, mkdir_err = \<lambda>_. None, rm_left = \<lambda>_. None,
    read_err = \<lambda>_. None, write_err = \<lambda>_. None, write_left = \<lambda>_. None, enotdir = [], eisdir = []\<rparr>"

definition w_env :: frame_env where
  "w_env = \<lparr>os = w_os, crypto = \<lparr>seal = \<lambda>_ _ x. Inr (rev x), unseal = \<lambda>_ _ x. Inr (rev x)\<rparr>,
    civil_of = \<lambda>t. \<lparr>year = 2026, month = 1, day = nat t, hour = 9, minute = 5, second = 7\<rparr>,
    minus_days = \<lambda>t n. Some (t - int n), lower = id\<rparr>"

definition w_frames :: entries where
  "w_frames = [(''2026-01-09'', Dir [(''a.webp'', File [1, 2])]), (''2026-01-01'', Dir [(''b.webp'', File [3])])]"

definition w_storage :: FrameFileStorage where
  "w_storage = \<lparr>max_storage_mb = 0, retention_days = 5, frame_counter = 0, buffer_pool = [[]], disk_cache = disk_space_cache_new,
    encryption_key = Some (replicate 32 7), cached_size_bytes = 0, cached_size_initialized = False\<rparr>"

text \<open>Two megabytes on the first day, one byte on another.\<close>

definition w_bytes :: "nat \<Rightarrow> u8 list" where "w_bytes n = replicate n 0"

lemma w_bytes_length: "length (w_bytes n) = n"
  by (simp add: w_bytes_def)

definition w_big :: entries where
  "w_big = [(''2026-01-09'', Dir [(''a.webp'', File [1])]), (''2026-01-01'', Dir [(''b.webp'', File (w_bytes 2097152))])]"

lemma w_os_calm: "calm (os w_env)"
  by (simp add: calm_def w_env_def w_os_def)

lemma w_plain: "1 \<le> t \<Longrightarrow> t \<le> 31 \<Longrightarrow> plain_date (civil_of w_env t)"
  by (auto simp: plain_date_def w_env_def)

lemma w_frames_of: "frames_of (Some [(''frames'', Dir w_frames)]) = Some (Dir w_frames)" "distinct (map fst w_frames)"
  by (simp_all add: frames_of_def w_frames_def)

text \<open>C36: retention removes by date and nothing else. When the system refuses nothing, \<open>enforce_retention\<close> returns, a frame of a
  day before the day that lies the configured number of days back is gone, and a frame of that day or a later one is as it was;
  the comparison of the names as texts decides as the comparison of the dates.\<close>

theorem retention_by_date:
  assumes calm: "calm (os env)" and frames: "frames_of d = Some (Dir es)" "distinct (map fst es)"
    and cutoff: "minus_days env now (unat (retention_days s)) = Some t" "plain_date (civil_of env t)"
  shows "\<exists>r s' d'. enforce_retention env now (s, d) = Some (Inr r, s', d') \<and>
    (\<forall>ts f. plain_date (civil_of env ts) \<longrightarrow>
      disk_node d' [''frames'', date_str (civil_of env ts), f] =
        (if ymd (civil_of env ts) < ymd (civil_of env t) then None else disk_node d [''frames'', date_str (civil_of env ts), f]))"
proof -
  obtain r s' d' es' where r: "enforce_retention env now (s, d) = Some (Inr r, s', d')" "frames_of d' = Some (Dir es')"
    "es' = filter (\<lambda>e. \<not> dir_in {n. length n = 10 \<and> n < date_str (civil_of env t)} e) es"
    by (rule enforce_retention_calm [OF calm frames cutoff(1)])
  have "disk_node d' [''frames'', date_str (civil_of env ts), f] =
      (if ymd (civil_of env ts) < ymd (civil_of env t) then None else disk_node d [''frames'', date_str (civil_of env ts), f])"
    if "plain_date (civil_of env ts)" for ts f
    using date_str_less_iff [OF that cutoff(2)] date_str_shape(1) [OF that]
    by (auto simp: disk_node_frames [OF r(2)] disk_node_frames [OF frames(1)] r(3) map_of_filter_dir_in [OF frames(2)]
        split: option.split node.split)
  with r(1) show ?thesis by blast
qed

theorem retention_by_date_witness:
  "\<exists>r s' d'. enforce_retention w_env 10 (w_storage, Some [(''frames'', Dir w_frames)]) = Some (Inr r, s', d') \<and>
     disk_node d' [''frames'', ''2026-01-01'', ''b.webp''] = None \<and>
     disk_node d' [''frames'', ''2026-01-09'', ''a.webp''] = Some (File [1, 2])"
proof -
  have t: "minus_days w_env 10 (unat (retention_days w_storage)) = Some 5" by (simp add: w_env_def w_storage_def)
  have names: "date_str (civil_of w_env 1) = ''2026-01-01''" "date_str (civil_of w_env 9) = ''2026-01-09''" by code_simp+
  have ymds: "ymd (civil_of w_env 1) < ymd (civil_of w_env 5)" "\<not> ymd (civil_of w_env 9) < ymd (civil_of w_env 5)"
    by (simp_all add: ymd_def w_env_def)
  have a: "disk_node (Some [(''frames'', Dir w_frames)]) [''frames'', ''2026-01-09'', ''a.webp''] = Some (File [1, 2])"
    by (simp add: disk_node_def w_frames_def)
  from retention_by_date [OF w_os_calm w_frames_of t w_plain [of 5]] obtain r s' d' where
    r: "enforce_retention w_env 10 (w_storage, Some [(''frames'', Dir w_frames)]) = Some (Inr r, s', d')"
    "disk_node d' [''frames'', date_str (civil_of w_env ts), f] =
      (if ymd (civil_of w_env ts) < ymd (civil_of w_env 5) then None
       else disk_node (Some [(''frames'', Dir w_frames)]) [''frames'', date_str (civil_of w_env ts), f])"
    if "plain_date (civil_of w_env ts)" for ts f
    by auto
  show ?thesis using r(1) [OF w_plain [of 1]] r(2) [OF w_plain [of 1], of "''b.webp''"] r(2) [OF w_plain [of 9], of "''a.webp''"] ymds names a by auto
qed

lemma date_dirs_without_days:
  "date_dirs (without_days ns es) = filter (\<lambda>n. n \<notin> set ns) (date_dirs es)"
  unfolding date_dirs_def without_days_def by (induction es) (auto simp: dir_in_def)

lemma sorted_take_before:
  fixes xs :: "'a :: linorder list"
  assumes "distinct xs" "n \<in> set xs" "m \<in> set xs" "n \<in> set (take k (sort xs))" "m \<notin> set (take k (sort xs))"
  shows "n < m"
proof -
  have srt: "sorted (sort xs)" "distinct (sort xs)" using assms(1) by simp_all
  have "m \<in> set (sort xs)" using assms(3) by simp
  then have "m \<in> set (drop k (sort xs))" using assms(5) by (metis Un_iff append_take_drop_id set_append)
  then have "n \<le> m" using srt(1) assms(4) by (metis append_take_drop_id sorted_append)
  moreover have "n \<noteq> m" using assms(4,5) by auto
  ultimately show ?thesis by simp
qed

text \<open>C37: the size limit is enforced by removing the oldest days. When the system refuses nothing and the size tracker is unset or
  exact, \<open>enforce_storage_limit\<close> returns; then the frames take at most the configured megabytes or no day is left, every removed
  day is before every day that is left, nothing but days is removed, and the tracker is exact.\<close>

theorem storage_limit_enforced:
  assumes calm: "calm (os env)" and frames: "frames_of d = Some (Dir es)" "distinct (map fst es)"
    and small: "entries_bytes es < 2 ^ 64" and exact: "tracker_exact s es"
  shows "\<exists>c s' d' es'. enforce_storage_limit env (s, d) = (Inr c, s', d') \<and> frames_of d' = Some (Dir es') \<and>
    (mb (entries_bytes es') \<le> unat (max_storage_mb s) \<or> date_dirs es' = []) \<and>
    (\<forall>n \<in> set (date_dirs es). \<forall>m \<in> set (date_dirs es'). n \<notin> set (date_dirs es') \<longrightarrow> n < m) \<and>
    (\<forall>e \<in> set es. fst e \<notin> set (date_dirs es) \<longrightarrow> e \<in> set es') \<and> set es' \<subseteq> set es \<and>
    (mb (entries_bytes es) \<le> unat (max_storage_mb s) \<longrightarrow> es' = es) \<and>
    cached_size_bytes s' = of_nat (entries_bytes es')"
proof -
  obtain k c s' d' where k: "k \<le> length (date_dirs es)" "enforce_storage_limit env (s, d) = (Inr c, s', d')"
    "frames_of d' = Some (Dir (without_days (take k (sort (date_dirs es))) es))"
    "s' = s\<lparr>cached_size_bytes := of_nat (entries_bytes (without_days (take k (sort (date_dirs es))) es)), cached_size_initialized := True\<rparr>"
    "mb (entries_bytes es) \<le> unat (max_storage_mb s) \<longrightarrow> k = 0"
    "k = length (date_dirs es) \<or> mb (entries_bytes (without_days (take k (sort (date_dirs es))) es)) \<le> unat (max_storage_mb s)"
    by (rule enforce_storage_limit_calm [OF calm frames small exact])
  let ?ns = "take k (sort (date_dirs es))"
  let ?es = "without_days ?ns es"
  have dist: "distinct (date_dirs es)" using frames(2) by (simp add: date_dirs_def distinct_fst_filter)
  have bound: "mb (entries_bytes ?es) \<le> unat (max_storage_mb s) \<or> date_dirs ?es = []"
    using k(6) by (auto simp: date_dirs_without_days)
  have older: "n < m" if "n \<in> set (date_dirs es)" "m \<in> set (date_dirs ?es)" "n \<notin> set (date_dirs ?es)" for n m
    using that sorted_take_before [OF dist, of n m k] by (auto simp: date_dirs_without_days)
  have others: "e \<in> set ?es" if "e \<in> set es" "fst e \<notin> set (date_dirs es)" for e
    using that by (auto simp: without_days_def dir_in_def dest: in_set_takeD)
  have sub: "set ?es \<subseteq> set es" by (auto simp: without_days_def)
  have keep: "mb (entries_bytes es) \<le> unat (max_storage_mb s) \<longrightarrow> ?es = es" using k(5) by simp
  have cached: "cached_size_bytes s' = of_nat (entries_bytes ?es)" by (simp add: k(4))
  show ?thesis using k(2,3) bound older others sub keep cached by blast
qed

theorem storage_limit_enforced_witness:
  "\<exists>c s' d' es'. enforce_storage_limit w_env (w_storage, Some [(''frames'', Dir w_big)]) = (Inr c, s', d') \<and>
     frames_of d' = Some (Dir es') \<and> (mb (entries_bytes es') \<le> 0 \<or> date_dirs es' = []) \<and>
     cached_size_bytes s' = of_nat (entries_bytes es')"
proof -
  have fr: "frames_of (Some [(''frames'', Dir w_big)]) = Some (Dir w_big)" "distinct (map fst w_big)"
    by (simp_all add: frames_of_def w_big_def)
  have small: "entries_bytes w_big < 2 ^ 64" by (simp add: w_big_def w_bytes_length)
  have exact: "tracker_exact w_storage w_big" by (simp add: tracker_exact_def w_storage_def)
  have "unat (max_storage_mb w_storage) = 0" by (simp add: w_storage_def)
  with storage_limit_enforced [OF w_os_calm fr small exact] show ?thesis by auto
qed

text \<open>The days are counted in whole megabytes: when every day is below one megabyte and the limit is exceeded, every day is removed,
  however little the limit is exceeded by.\<close>

theorem small_days_all_removed:
  assumes calm: "calm (os env)" and frames: "frames_of d = Some (Dir es)" "distinct (map fst es)"
    and exact: "tracker_exact s es" and small: "entries_bytes es < 2 ^ 64"
    and over: "unat (max_storage_mb s) < mb (entries_bytes es)"
    and days: "\<And>n ys. n \<in> set (date_dirs es) \<Longrightarrow> map_of es n = Some (Dir ys) \<Longrightarrow> entries_bytes ys < 1048576"
  shows "\<exists>r s' d' es'. enforce_storage_limit env (s, d) = (r, s', d') \<and> frames_of d' = Some (Dir es') \<and> date_dirs es' = []"
proof -
  let ?b = "of_nat (entries_bytes es) :: u64" and ?ds = "sort (date_dirs es)"
  have cur: "\<not> ?b div 1024 div 1024 \<le> max_storage_mb s"
    using over small by (simp add: word_le_nat_alt unat_mb unat_of_nat_u64)
  obtain c b es' where loop: "limit_loop env (max_storage_mb s) ?ds (?b div 1024 div 1024) es = (c, b, es')"
    by (cases "limit_loop env (max_storage_mb s) ?ds (?b div 1024 div 1024) es")
  have "distinct ?ds" using frames(2) by (simp add: date_dirs_def distinct_fst_filter)
  moreover have "\<forall>n \<in> set ?ds. \<exists>ys. map_of es n = Some (Dir ys) \<and> entries_bytes ys < 1048576"
    using date_dirs_dir [OF frames(2)] days by fastforce
  ultimately have "es' = without_days ?ds es" using limit_loop_small_days [OF calm frames(2) _ _ cur] loop by fastforce
  then have "date_dirs es' = []" by (simp add: date_dirs_without_days)
  moreover have "\<exists>r s'. enforce_storage_limit env (s, d) = (r, s', set_frames es' d)"
    using cur frames(1) by (simp add: enforce_storage_limit_def init_size_calm [OF calm frames(1) exact] list_date_dirs_calm [OF calm] loop)
  ultimately show ?thesis using frames_of_set_frames [OF frames(1)] by blast
qed

text \<open>\<open>reconcile_cache_size\<close> sums the files directly in the base directory, not the frames below it: with no file there the tracker is
  set to zero, and the size limit then removes nothing, whatever the frames take.\<close>

lemma sum_files_dirs: "\<forall>(_, x) \<in> set es. \<exists>ys. x = Dir ys \<Longrightarrow> sum_files env es acc = Inr acc"
  by (induction es) auto

theorem reconcile_disables_limit:
  assumes calm: "calm (os env)" and base: "\<forall>(_, x) \<in> set bs. \<exists>ys. x = Dir ys" and init: "cached_size_initialized s"
    and rec: "reconcile_cache_size env (s, Some bs) = (r, st)"
  shows "enforce_storage_limit env st = (Inr 0, st)"
proof -
  have "st = (s\<lparr>cached_size_bytes := 0\<rparr>, Some bs)"
    using rec sum_files_dirs [OF base, of env 0] calm by (simp add: reconcile_cache_size_def)
  then show ?thesis using init by (auto simp: enforce_storage_limit_def init_size_def split: option.split)
qed

text \<open>C38: a saved frame is loaded back. When \<open>save_frame\<close> returns a path and the file stays as it was written, \<open>load_frame\<close> on
  that path returns the bytes that were saved, with and without encryption, given a cipher that opens what it sealed, nonces of
  twelve bytes, a clean buffer pool and a readable file.\<close>

theorem saved_frame_loads:
  assumes save: "save_frame env now stat fill ts data (s, d) = (Inr p, s1, d1)"
    and later: "disk_node d2 p = disk_node d1 p" "encryption_key s2 = encryption_key s1" "pool_clean (buffer_pool s2)"
    and cipher: "\<forall>k nonce x y. seal (crypto env) k nonce x = Inr y \<longrightarrow> unseal (crypto env) k nonce y = Inr x"
    and nonce: "\<forall>nonce. fill = Inr nonce \<longrightarrow> length nonce = 12" and readable: "read_err (os env) p = None"
  shows "\<exists>s3. load_frame env display p (s2, d2) = (Inr data, s3, d2) \<and> pool_clean (buffer_pool s3)"
proof -
  obtain out where out: "disk_node d1 p = Some (File out)"
    "(case encryption_key s of Some k \<Rightarrow> encrypt (crypto env) fill k data | None \<Rightarrow> Inr data) = Inr out"
    "encryption_key s1 = encryption_key s"
    by (rule save_frame_cases [OF save])
  have dec: "(case encryption_key s of Some k \<Rightarrow> decrypt (crypto env) k out | None \<Rightarrow> Inr out) = Inr data"
    using out(2) decrypt_encrypt [OF _ cipher nonce] by (cases "encryption_key s") auto
  obtain b pool where acq: "pool_acquire (buffer_pool s2) = (b, pool)" by (cases "pool_acquire (buffer_pool s2)")
  then have "b = []" using later(3) by (auto simp: pool_acquire_def pool_clean_def split: list.splits)
  then have "\<exists>s3. load_frame env display p (s2, d2) = (Inr data, s3, d2)"
    using out(1) later(1,2) readable dec acq
    by (simp add: load_frame_def out(3))
  then show ?thesis using load_frame_keeps [of env display p s2 d2] later(3) by fastforce
qed

theorem saved_frame_loads_witness:
  "\<exists>p s1 d1 s3. save_frame w_env 0 None (Inr (replicate 12 9)) 9 [4, 5] (w_storage, Some [(''frames'', Dir w_frames)]) = (Inr p, s1, d1) \<and>
     p = [''frames'', ''2026-01-09'', ''09-05-07-000.webp''] \<and> load_frame w_env ''f'' p (s1, d1) = (Inr [4, 5], s3, d1)"
proof -
  let ?save = "save_frame w_env 0 None (Inr (replicate 12 9)) 9 [4, 5] (w_storage, Some [(''frames'', Dir w_frames)])"
  have p: "fst ?save = Inr [''frames'', ''2026-01-09'', ''09-05-07-000.webp'']" by code_simp
  have pool: "pool_clean (buffer_pool (fst (snd ?save)))" by code_simp
  have s: "?save = (Inr [''frames'', ''2026-01-09'', ''09-05-07-000.webp''], fst (snd ?save), snd (snd ?save))" using p by (metis prod.collapse)
  have "\<exists>s3. load_frame w_env ''f'' [''frames'', ''2026-01-09'', ''09-05-07-000.webp''] (fst (snd ?save), snd (snd ?save)) =
      (Inr [4, 5], s3, snd (snd ?save)) \<and> pool_clean (buffer_pool s3)"
    by (rule saved_frame_loads [OF s refl refl pool]) (simp_all add: w_env_def w_os_def)
  with s show ?thesis by blast
qed



end
