(* ===== verification/CoachingModel.thy ===== *)
theory CoachingModel
  imports SuggestionFlow TrackingSchedule "HOL-Library.AList"
begin

text \<open>
  The parts the coaching engine keeps: the goals of the day (\<open>crates/oneshim-analysis/src/regime_goal_tracker.rs\<close>), the tunable
  parameters and the adaptive scorer (\<open>coaching_engine/tunable_params.rs\<close>, \<open>coaching_engine/adaptive_scorer.rs\<close>), the feedback tracker
  (\<open>feedback_tracker.rs\<close>), the templates (\<open>coaching_template/mod.rs\<close>) and the data of \<open>crates/oneshim-core/src/models/coaching.rs\<close>. Floating-point
  values are reals whose operations round to 24 bits (\<open>f32\<close>) or 53 bits (\<open>f64\<close>), without infinities; the logarithm and the
  exponential of the mathematics library are arguments. A \<open>HashMap\<close> is an association list in the order of its iteration.
\<close>

type_synonym u16 = "16 word"

section \<open>Single precision\<close>

definition f32 :: "real \<Rightarrow> real" where
  "f32 x = (if x = 0 then 0 else let u = 2 powr of_int (\<lfloor>log 2 \<bar>x\<bar>\<rfloor> - 23) in of_int (round_even (x / u)) * u)"

text \<open>\<open>f32::round\<close> rounds halves away from zero; \<open>as\<close> to an integer type truncates and saturates.\<close>

definition round_half_away :: "real \<Rightarrow> int" where
  "round_half_away y = (if 0 \<le> y then \<lfloor>y + 1 / 2\<rfloor> else - \<lfloor>1 / 2 - y\<rfloor>)"

definition trunc_real :: "real \<Rightarrow> int" where "trunc_real y = (if 0 \<le> y then \<lfloor>y\<rfloor> else - \<lfloor>- y\<rfloor>)"

definition sat_unsigned :: "nat \<Rightarrow> int \<Rightarrow> nat" where "sat_unsigned bits i = min (2 ^ bits - 1) (nat i)"

definition clamp_f32 :: "real \<Rightarrow> real \<Rightarrow> real \<Rightarrow> real" where
  "clamp_f32 x lo hi = (if x < lo then lo else if hi < x then hi else x)"

section \<open>Data\<close>

datatype CoachingProfile = FocusGuard | TimeAware | DeepWorkCoach | ContextRestore | GoalTracker

datatype TriggerType =
    RegimeTransition "string option" "string option"
  | RegimeOverstay string u64 u64
  | RegimeDrift string
  | GoalThreshold string u32 u32 u8

datatype FeedbackSignal = ExplicitPositive | ExplicitNegative | ImplicitPositive | ImplicitNeutral | ImplicitNegative

datatype CoachingTone = Direct | Gentle | DataDriven

definition profile_name :: "CoachingProfile \<Rightarrow> string" where
  "profile_name p = (case p of FocusGuard \<Rightarrow> ''FocusGuard'' | TimeAware \<Rightarrow> ''TimeAware'' | DeepWorkCoach \<Rightarrow> ''DeepWorkCoach''
     | ContextRestore \<Rightarrow> ''ContextRestore'' | GoalTracker \<Rightarrow> ''GoalTracker'')"

definition trigger_type_name :: "TriggerType \<Rightarrow> string" where
  "trigger_type_name t = (case t of RegimeTransition _ _ \<Rightarrow> ''RegimeTransition'' | RegimeOverstay _ _ _ \<Rightarrow> ''RegimeOverstay''
     | RegimeDrift _ \<Rightarrow> ''RegimeDrift'' | GoalThreshold _ _ _ _ \<Rightarrow> ''GoalThreshold'')"

lemma profile_name_inj: "profile_name p = profile_name q \<longleftrightarrow> p = q"
  by (cases p; cases q; simp add: profile_name_def)

section \<open>Goals of the day\<close>

record GoalProgress =
  gp_regime_label :: string
  gp_current_minutes :: u32
  gp_target_minutes :: u32
  gp_percentage :: u16

record RegimeGoalTracker =
  goals :: "(string \<times> u32) list"
  today_minutes :: "(string \<times> u32) list"
  tracking_date :: int
  notified_thresholds :: "(string \<times> u8 list) list"

definition goal_tracker_new :: "int \<Rightarrow> RegimeGoalTracker" where
  "goal_tracker_new today = \<lparr>goals = [], today_minutes = [], tracking_date = today, notified_thresholds = []\<rparr>"

definition update_goals :: "(string \<times> u32) list \<Rightarrow> RegimeGoalTracker \<Rightarrow> RegimeGoalTracker" where
  "update_goals regime_goals g = g\<lparr>goals := regime_goals\<rparr>"

definition ensure_date_rollover :: "int \<Rightarrow> RegimeGoalTracker \<Rightarrow> RegimeGoalTracker" where
  "ensure_date_rollover today g =
     (if today \<noteq> tracking_date g then g\<lparr>today_minutes := [], notified_thresholds := [], tracking_date := today\<rparr> else g)"

definition map_get :: "'k \<Rightarrow> 'v \<Rightarrow> ('k \<times> 'v) list \<Rightarrow> 'v" where
  "map_get k v m = (case map_of m k of Some x \<Rightarrow> x | None \<Rightarrow> v)"

definition saturating_add_u32 :: "u32 \<Rightarrow> u32 \<Rightarrow> u32" where
  "saturating_add_u32 a b = of_nat (min (2 ^ 32 - 1) (unat a + unat b))"

definition record_minutes :: "int \<Rightarrow> string \<Rightarrow> u32 \<Rightarrow> RegimeGoalTracker \<Rightarrow> RegimeGoalTracker" where
  "record_minutes today label additional g =
     (let g = ensure_date_rollover today g;
          current = map_get label 0 (today_minutes g)
      in g\<lparr>today_minutes := AList.update label (saturating_add_u32 current additional) (today_minutes g)\<rparr>)"

text \<open>\<open>((current as f64 / target as f64) * 100.0).min(u16::MAX as f64) as u16\<close>.\<close>

definition percentage_of :: "u32 \<Rightarrow> u32 \<Rightarrow> u16" where
  "percentage_of current target = of_nat (sat_unsigned 16 \<lfloor>min (f64 (f64 (f64_of_u32 current / f64_of_u32 target) * 100)) 65535\<rfloor>)"

definition thresholds :: "u8 list" where "thresholds = [25, 50, 75, 100]"

definition check_threshold :: "string \<Rightarrow> RegimeGoalTracker \<Rightarrow> u8 option \<times> RegimeGoalTracker" where
  "check_threshold label g =
     (case map_of (goals g) label of
        None \<Rightarrow> (None, g)
      | Some target \<Rightarrow>
          if target = 0 then (None, g)
          else
            (let current = map_get label 0 (today_minutes g);
                 percentage = percentage_of current target;
                 notified = map_get label [] (notified_thresholds g)
             in case find (\<lambda>t. ucast t \<le> percentage \<and> t \<notin> set notified) thresholds of
                  Some t \<Rightarrow> (Some t, g\<lparr>notified_thresholds := AList.update label (notified @ [t]) (notified_thresholds g)\<rparr>)
                | None \<Rightarrow> (None, g\<lparr>notified_thresholds := AList.update label notified (notified_thresholds g)\<rparr>)))"

definition goal_progress :: "string \<Rightarrow> RegimeGoalTracker \<Rightarrow> GoalProgress option" where
  "goal_progress label g =
     (case map_of (goals g) label of
        None \<Rightarrow> None
      | Some target \<Rightarrow>
          if target = 0 then None
          else (let current = map_get label 0 (today_minutes g)
                in Some \<lparr>gp_regime_label = label, gp_current_minutes = current, gp_target_minutes = target,
                         gp_percentage = percentage_of current target\<rparr>))"

definition all_progress :: "RegimeGoalTracker \<Rightarrow> GoalProgress list" where
  "all_progress g = List.map_filter (\<lambda>(label, _). goal_progress label g) (goals g)"

section \<open>Tunable parameters\<close>

definition TUNE_STEP :: real where "TUNE_STEP = f32 (5 / 100)"
definition DECAY_INTERVAL :: u32 where "DECAY_INTERVAL = 100"
definition DECAY_RATE :: real where "DECAY_RATE = f32 (2 / 100)"

record TunableParams =
  explicit_weight :: real
  implicit_window_secs :: int
  low_effectiveness_threshold :: real
  min_shown_for_gating :: u32
  overstay_ratio :: real
  ema_alpha :: real
  gate_allow_ratio :: real
  feedback_count :: u32

definition params_default :: TunableParams where
  "params_default = \<lparr>explicit_weight = 3, implicit_window_secs = 300, low_effectiveness_threshold = f32 (2 / 10),
    min_shown_for_gating = 5, overstay_ratio = f32 (12 / 10), ema_alpha = f32 (2 / 10), gate_allow_ratio = f32 (33 / 100),
    feedback_count = 0\<rparr>"

definition step_up :: "real \<Rightarrow> real \<Rightarrow> real \<Rightarrow> real" where
  "step_up v lo hi = clamp_f32 (f32 (v * f32 (1 + TUNE_STEP))) lo hi"

definition step_down :: "real \<Rightarrow> real \<Rightarrow> real \<Rightarrow> real" where
  "step_down v lo hi = clamp_f32 (f32 (v * f32 (1 - TUNE_STEP))) lo hi"

definition lerp :: "real \<Rightarrow> real \<Rightarrow> real \<Rightarrow> real" where
  "lerp current target t = f32 (current + f32 (f32 (target - current) * t))"

definition decay_toward_defaults :: "TunableParams \<Rightarrow> TunableParams" where
  "decay_toward_defaults p = p\<lparr>
     low_effectiveness_threshold := lerp (low_effectiveness_threshold p) (low_effectiveness_threshold params_default) DECAY_RATE,
     overstay_ratio := lerp (overstay_ratio p) (overstay_ratio params_default) DECAY_RATE,
     gate_allow_ratio := lerp (gate_allow_ratio p) (gate_allow_ratio params_default) DECAY_RATE,
     implicit_window_secs := trunc_real (lerp (f32 (of_int (implicit_window_secs p))) (f32 300) DECAY_RATE),
     ema_alpha := lerp (ema_alpha p) (ema_alpha params_default) DECAY_RATE\<rparr>"

definition adjust_on_feedback :: "bool \<Rightarrow> TunableParams \<Rightarrow> TunableParams" where
  "adjust_on_feedback positive p =
     (let p = p\<lparr>feedback_count := feedback_count p + 1\<rparr>;
          p = (if positive then p
               else p\<lparr>low_effectiveness_threshold := step_up (low_effectiveness_threshold p) (f32 (5 / 100)) (f32 (5 / 10)),
                      overstay_ratio := step_up (overstay_ratio p) (f32 (105 / 100)) 2,
                      gate_allow_ratio := step_down (gate_allow_ratio p) (f32 (1 / 10)) (f32 (5 / 10)),
                      implicit_window_secs :=
                        trunc_real (clamp_f32 (of_int (round_half_away
                          (f32 (f32 (of_int (implicit_window_secs p)) * f32 (1 + TUNE_STEP))))) 60 900)\<rparr>)
      in if feedback_count p mod DECAY_INTERVAL = 0 then decay_toward_defaults p else p)"

definition overstay_percent :: "TunableParams \<Rightarrow> u64" where
  "overstay_percent p = of_nat (sat_unsigned 64 (round_half_away (f32 (overstay_ratio p * 100))))"

section \<open>Adaptive scorer\<close>

definition MIN_TRAINING_SAMPLES :: u32 where "MIN_TRAINING_SAMPLES = 50"
definition LEARNING_RATE :: real where "LEARNING_RATE = f32 (1 / 100)"
definition L2_LAMBDA :: real where "L2_LAMBDA = f32 (1 / 1000)"

record CoachingFeatures =
  time_of_day :: real
  regime_dwell_log :: real
  context_switches_log :: real
  goal_progress_feature :: real
  profile_effectiveness :: real
  drift_feature :: real
  messages_today_log :: real
  overstay_feature :: real

definition as_array :: "CoachingFeatures \<Rightarrow> real list" where
  "as_array f = [time_of_day f, regime_dwell_log f, context_switches_log f, goal_progress_feature f, profile_effectiveness f,
     drift_feature f, messages_today_log f, overstay_feature f]"

definition extract_features ::
    "(real \<Rightarrow> real) \<Rightarrow> u32 \<Rightarrow> u64 \<Rightarrow> u32 \<Rightarrow> real \<Rightarrow> real \<Rightarrow> bool \<Rightarrow> u32 \<Rightarrow> u64 \<Rightarrow> CoachingFeatures" where
  "extract_features ln32 hr duration switches goal_ratio effectiveness drift msgs avg =
     (let overstay = (if 0 < avg then f32 (f32 (of_nat (unat duration)) / f32 (of_nat (unat avg))) else 1) in
      \<lparr>time_of_day = f32 (f32 (of_nat (unat hr)) / 24),
       regime_dwell_log = ln32 (f32 (1 + f32 (of_nat (unat duration)))),
       context_switches_log = ln32 (f32 (1 + f32 (of_nat (unat switches)))),
       goal_progress_feature = clamp_f32 goal_ratio 0 2,
       profile_effectiveness = effectiveness,
       drift_feature = (if drift then 1 else 0),
       messages_today_log = ln32 (f32 (1 + f32 (of_nat (unat msgs)))),
       overstay_feature = clamp_f32 overstay 0 5\<rparr>)"

record AdaptiveScorer =
  weights :: "real list"
  bias :: real
  train_count :: u32

definition scorer_default :: AdaptiveScorer where
  "scorer_default = \<lparr>weights = replicate 8 0, bias = 0, train_count = 0\<rparr>"

definition sigmoid :: "(real \<Rightarrow> real) \<Rightarrow> real \<Rightarrow> real" where "sigmoid exp32 x = f32 (1 / f32 (1 + exp32 (- x)))"

definition predict :: "(real \<Rightarrow> real) \<Rightarrow> AdaptiveScorer \<Rightarrow> CoachingFeatures \<Rightarrow> real" where
  "predict exp32 m f =
     sigmoid exp32 (f32 (bias m + fold (\<lambda>(w, x) acc. f32 (acc + f32 (w * x))) (zip (weights m) (as_array f)) 0))"

definition scorer_is_ready :: "AdaptiveScorer \<Rightarrow> bool" where "scorer_is_ready m = (MIN_TRAINING_SAMPLES \<le> train_count m)"

definition scorer_update :: "(real \<Rightarrow> real) \<Rightarrow> CoachingFeatures \<Rightarrow> real \<Rightarrow> AdaptiveScorer \<Rightarrow> AdaptiveScorer" where
  "scorer_update exp32 f label m =
     (let err = f32 (predict exp32 m f - label) in
      m\<lparr>weights := map (\<lambda>(w, x). f32 (w - f32 (LEARNING_RATE * f32 (f32 (err * x) + f32 (L2_LAMBDA * w))))) (zip (weights m) (as_array f)),
        bias := f32 (bias m - f32 (LEARNING_RATE * err)),
        train_count := train_count m + 1\<rparr>)"

section \<open>Feedback\<close>

record EffectivenessScore =
  total_shown :: u32
  positive_signals :: real
  negative_signals :: real
  neutral_count :: u32

definition score_new :: EffectivenessScore where
  "score_new = \<lparr>total_shown = 0, positive_signals = 0, negative_signals = 0, neutral_count = 0\<rparr>"

definition effectiveness_ratio :: "EffectivenessScore \<Rightarrow> real" where
  "effectiveness_ratio e =
     (let n = f32 (f32 (positive_signals e + negative_signals e) + f32 (of_nat (unat (neutral_count e))))
      in if n = 0 then 1 / 2 else f32 (positive_signals e / n))"

record PendingEvaluation =
  shown_at :: time
  pe_profile :: string
  pe_trigger :: string
  regime_at_shown :: "string option"
  app_at_shown :: string

record FeedbackTracker =
  scores :: "((string \<times> string) \<times> EffectivenessScore) list"
  pending_feedback :: "(string \<times> PendingEvaluation) list"
  gate_counter :: u32
  params :: TunableParams

definition feedback_tracker_new :: FeedbackTracker where
  "feedback_tracker_new = \<lparr>scores = [], pending_feedback = [], gate_counter = 0, params = params_default\<rparr>"

text \<open>\<open>entry(key).or_insert_with(EffectivenessScore::new)\<close> followed by a change.\<close>

definition on_score :: "string \<times> string \<Rightarrow> (EffectivenessScore \<Rightarrow> EffectivenessScore) \<Rightarrow> FeedbackTracker \<Rightarrow> FeedbackTracker" where
  "on_score k h t = t\<lparr>scores := AList.update k (h (map_get k score_new (scores t))) (scores t)\<rparr>"

definition register_pending ::
    "time \<Rightarrow> string \<Rightarrow> string \<Rightarrow> string \<Rightarrow> string option \<Rightarrow> string \<Rightarrow> FeedbackTracker \<Rightarrow> FeedbackTracker" where
  "register_pending now message_id profile trigger regime_id app t =
     on_score (profile, trigger) (\<lambda>e. e\<lparr>total_shown := total_shown e + 1\<rparr>)
       (t\<lparr>pending_feedback := AList.update message_id
           \<lparr>shown_at = now, pe_profile = profile, pe_trigger = trigger, regime_at_shown = regime_id, app_at_shown = app\<rparr>
           (pending_feedback t)\<rparr>)"

definition record_explicit :: "string \<Rightarrow> bool \<Rightarrow> FeedbackTracker \<Rightarrow> FeedbackTracker" where
  "record_explicit message_id positive t =
     (case map_of (pending_feedback t) message_id of
        None \<Rightarrow> t
      | Some ev \<Rightarrow>
          (let w = explicit_weight (params t);
               t = on_score (pe_profile ev, pe_trigger ev)
                     (\<lambda>e. if positive then e\<lparr>positive_signals := f32 (positive_signals e + w)\<rparr>
                           else e\<lparr>negative_signals := f32 (negative_signals e + w)\<rparr>)
                     (t\<lparr>pending_feedback := AList.delete message_id (pending_feedback t)\<rparr>)
           in t\<lparr>params := adjust_on_feedback positive (params t)\<rparr>))"

definition regime_changed :: "string option \<Rightarrow> string option \<Rightarrow> bool" where
  "regime_changed old new = (case (old, new) of (Some a, Some b) \<Rightarrow> a \<noteq> b | (None, Some _) \<Rightarrow> True | (Some _, None) \<Rightarrow> True | (None, None) \<Rightarrow> False)"

definition classify_behavior_change :: "PendingEvaluation \<Rightarrow> string option \<Rightarrow> string \<Rightarrow> FeedbackSignal" where
  "classify_behavior_change ev regime_id app =
     (if regime_changed (regime_at_shown ev) regime_id then ImplicitPositive
      else if app_at_shown ev = app then ImplicitNeutral else ImplicitNeutral)"

definition apply_signal :: "FeedbackSignal \<Rightarrow> EffectivenessScore \<Rightarrow> EffectivenessScore" where
  "apply_signal sig e =
     (case sig of
        ImplicitPositive \<Rightarrow> e\<lparr>positive_signals := f32 (positive_signals e + 1)\<rparr>
      | ImplicitNegative \<Rightarrow> e\<lparr>negative_signals := f32 (negative_signals e + 1)\<rparr>
      | ImplicitNeutral \<Rightarrow> e\<lparr>neutral_count := neutral_count e + 1\<rparr>
      | _ \<Rightarrow> e)"

definition evaluate_implicit :: "string option \<Rightarrow> string \<Rightarrow> time \<Rightarrow> FeedbackTracker \<Rightarrow> FeedbackTracker" where
  "evaluate_implicit regime_id app now t =
     (let window = implicit_window_secs (params t);
          ready_ids = map fst (filter (\<lambda>(_, ev). window \<le> num_seconds (now - shown_at ev)) (pending_feedback t))
      in fold (\<lambda>i t. case map_of (pending_feedback t) i of
            None \<Rightarrow> t
          | Some ev \<Rightarrow> on_score (pe_profile ev, pe_trigger ev) (apply_signal (classify_behavior_change ev regime_id app))
                         (t\<lparr>pending_feedback := AList.delete i (pending_feedback t)\<rparr>)) ready_ids t)"

definition should_show :: "string \<Rightarrow> string \<Rightarrow> FeedbackTracker \<Rightarrow> bool \<times> FeedbackTracker" where
  "should_show profile trigger t =
     (case map_of (scores t) (profile, trigger) of
        None \<Rightarrow> (True, t)
      | Some e \<Rightarrow>
          if total_shown e < min_shown_for_gating (params t) then (True, t)
          else if effectiveness_ratio e < low_effectiveness_threshold (params t)
          then (let counter = gate_counter t + 1;
                    denominator = sat_unsigned 32 (round_half_away (f32 (1 / gate_allow_ratio (params t))))
                in (0 < denominator \<and> unat counter mod denominator = 0, t\<lparr>gate_counter := counter\<rparr>))
          else (True, t))"

section \<open>Templates\<close>

record CoachingTemplate =
  ct_profile :: CoachingProfile
  ct_trigger_type :: string
  ct_tone :: CoachingTone
  ct_locale :: string
  ct_text :: string

text \<open>\<open>str::replace\<close> with a pattern that is not empty.\<close>

function str_replace_all :: "string \<Rightarrow> string \<Rightarrow> string \<Rightarrow> string" where
  "str_replace_all pat by_text [] = []"
| "str_replace_all pat by_text (c # cs) =
     (if pat \<noteq> [] \<and> starts_with pat (c # cs) then by_text @ str_replace_all pat by_text (drop (length pat) (c # cs))
      else c # str_replace_all pat by_text cs)"
  by pat_completeness auto
termination
  by (relation "measure (\<lambda>(pat, _, s). length s)") (auto simp: length_greater_0_conv [symmetric] simp del: length_greater_0_conv)

definition substitute :: "string \<Rightarrow> (string \<times> string) list \<Rightarrow> string" where
  "substitute template vars = fold (\<lambda>(k, v) acc. str_replace_all (''{'' @ k @ ''}'') v acc) vars template"

text \<open>The table of templates is static data with at least one row: its first row and the rest.\<close>

definition select_template ::
    "CoachingTemplate \<times> CoachingTemplate list \<Rightarrow> CoachingProfile \<Rightarrow> TriggerType \<Rightarrow> CoachingTone \<Rightarrow> string \<Rightarrow> (string \<times> string) list \<Rightarrow> string" where
  "select_template table profile trigger tone loc vars =
     (let all = fst table # snd table;
          name = trigger_type_name trigger;
          locale_filtered = filter (\<lambda>t. ct_locale t = loc) all;
          candidates = (if locale_filtered = [] then filter (\<lambda>t. ct_locale t = ''en'') all else locale_filtered);
          template =
            (case find (\<lambda>t. ct_profile t = profile \<and> ct_trigger_type t = name \<and> ct_tone t = tone) candidates of
               Some t \<Rightarrow> t
             | None \<Rightarrow>
                 (case find (\<lambda>t. ct_profile t = profile \<and> ct_trigger_type t = name) candidates of
                    Some t \<Rightarrow> t
                  | None \<Rightarrow> (case find (\<lambda>t. ct_profile t = profile) candidates of Some t \<Rightarrow> t | None \<Rightarrow> fst table)))
      in substitute (ct_text template) vars)"

end
