(* ===== verification/CoachingEngine.thy ===== *)
theory CoachingEngine
  imports CoachingModel
begin

text \<open>
  The coaching engine, \<open>crates/oneshim-analysis/src/coaching_engine\<close> (\<open>mod.rs\<close>, \<open>guards.rs\<close>, \<open>triggers.rs\<close>), and the tick of the
  monitor loop that calls it, \<open>src-tauri/src/scheduler/loops/coaching_helper.rs\<close>. A call takes its clock readings from one record; calls
  do not overlap. The parser of times, the case tables, the order in which a hash map is iterated, the sanitizer and the table of
  templates are arguments.
\<close>

section \<open>Configuration and state\<close>

record ProfileConfig =
  profile_enabled :: bool
  min_interval_secs :: u64

record CoachingConfig =
  coaching_enabled :: bool
  profiles :: "(string \<times> ProfileConfig) list"
  config_tone :: CoachingTone
  quiet_hours :: "(string \<times> string) list"
  regime_goals :: "(string \<times> u32) list"
  config_locale :: string

record coach_env =
  to_lowercase :: "string \<Rightarrow> string"
  parse_time :: "string \<Rightarrow> int option"
  ln32 :: "real \<Rightarrow> real"
  exp32 :: "real \<Rightarrow> real"
  hash_order :: "(string \<times> string) list \<Rightarrow> (string \<times> string) list"
  template_table :: "CoachingTemplate \<times> CoachingTemplate list"
  pii_sanitizer :: "(string \<Rightarrow> string) option"

record reading =
  utc_now :: time
  local_time :: int
  local_date :: int
  instant_now :: time
  fresh_uuid :: string

record CoachingEngine =
  config :: CoachingConfig
  goal_tracker :: RegimeGoalTracker
  feedback_tracker :: FeedbackTracker
  last_alert :: "(string \<times> time) list"
  current_regime_id :: "string option"
  current_regime_entered :: "time option"
  snoozed_until :: "(string \<times> time) option"
  regime_avg_duration :: "(string \<times> real) list"
  context_switch_count :: u32
  context_switch_date :: int
  last_app_name :: string
  tunable_params :: TunableParams
  adaptive_scorer :: AdaptiveScorer
  last_features :: "CoachingFeatures option"
  messages_shown_today :: u32
  current_regime_label :: "string option"

record CoachingMessage =
  message_id :: string
  cm_profile :: CoachingProfile
  cm_trigger :: TriggerType
  template_text :: string
  cm_variables :: "(string \<times> string) list"
  cm_created_at :: time
  explanation :: string

definition utc_date :: "reading \<Rightarrow> int" where "utc_date r = utc_now r div day_nanos"

definition utc_hour :: "reading \<Rightarrow> u32" where "utc_hour r = of_int ((utc_now r mod day_nanos) div (3600 * nanos_per_sec))"

definition coaching_engine_new :: "reading \<Rightarrow> CoachingConfig \<Rightarrow> CoachingEngine" where
  "coaching_engine_new r cfg = \<lparr>config = cfg, goal_tracker = update_goals (regime_goals cfg) (goal_tracker_new (local_date r)),
     feedback_tracker = feedback_tracker_new, last_alert = [], current_regime_id = None, current_regime_entered = None,
     snoozed_until = None, regime_avg_duration = [], context_switch_count = 0, context_switch_date = utc_date r,
     last_app_name = [], tunable_params = params_default, adaptive_scorer = scorer_default, last_features = None,
     messages_shown_today = 0, current_regime_label = None\<rparr>"

section \<open>Guards\<close>

definition in_range :: "coach_env \<Rightarrow> int \<Rightarrow> string \<times> string \<Rightarrow> bool" where
  "in_range env t w =
     (case (parse_time env (fst w), parse_time env (snd w)) of
        (Some st, Some en) \<Rightarrow> if st \<le> en then st \<le> t \<and> t < en else st \<le> t \<or> t < en
      | _ \<Rightarrow> False)"

definition is_quiet_hour :: "coach_env \<Rightarrow> reading \<Rightarrow> CoachingConfig \<Rightarrow> bool" where
  "is_quiet_hour env r cfg = list_ex (in_range env (local_time r)) (quiet_hours cfg)"

definition min_interval :: "CoachingConfig \<Rightarrow> CoachingProfile \<Rightarrow> u64" where
  "min_interval cfg p = (case map_of (profiles cfg) (profile_name p) of Some c \<Rightarrow> min_interval_secs c | None \<Rightarrow> 300)"

definition check_cooldown :: "reading \<Rightarrow> CoachingConfig \<Rightarrow> CoachingProfile \<Rightarrow> CoachingEngine \<Rightarrow> bool" where
  "check_cooldown r cfg p e =
     (case map_of (last_alert e) (profile_name p) of
        Some last_time \<Rightarrow> sint (min_interval cfg p) \<le> num_seconds (utc_now r - last_time)
      | None \<Rightarrow> True)"

definition record_alert :: "reading \<Rightarrow> CoachingProfile \<Rightarrow> CoachingEngine \<Rightarrow> CoachingEngine" where
  "record_alert r p e = e\<lparr>last_alert := AList.update (profile_name p) (utc_now r) (last_alert e)\<rparr>"

definition clear_expired_snooze :: "reading \<Rightarrow> CoachingEngine \<Rightarrow> CoachingEngine" where
  "clear_expired_snooze r e =
     (case snoozed_until e of
        Some (_, until) \<Rightarrow> if until \<le> instant_now r then e\<lparr>snoozed_until := None\<rparr> else e
      | None \<Rightarrow> e)"

definition is_profile_snoozed :: "reading \<Rightarrow> CoachingProfile \<Rightarrow> CoachingEngine \<Rightarrow> bool" where
  "is_profile_snoozed r p e =
     (case snoozed_until e of
        Some (snoozed_profile, until) \<Rightarrow> instant_now r < until \<and> profile_name p = snoozed_profile
      | None \<Rightarrow> False)"

section \<open>Triggers\<close>

definition on_regime_change :: "reading \<Rightarrow> string option \<Rightarrow> CoachingEngine \<Rightarrow> CoachingEngine" where
  "on_regime_change r new_regime_id e =
     (let e = (case (current_regime_entered e, current_regime_id e) of
                 (Some enter_time, Some label) \<Rightarrow>
                   (let dwell_secs = f64 (of_int (max 0 (num_seconds (utc_now r - enter_time))));
                        alpha = ema_alpha (tunable_params e);
                        ema = map_get label dwell_secs (regime_avg_duration e)
                    in e\<lparr>regime_avg_duration :=
                           AList.update label (f64 (f64 (ema * f64 (1 - alpha)) + f64 (dwell_secs * alpha))) (regime_avg_duration e)\<rparr>)
               | _ \<Rightarrow> e);
          today = utc_date r;
          count = (if context_switch_date e \<noteq> today then 0 else context_switch_count e)
      in e\<lparr>current_regime_id := new_regime_id, current_regime_entered := Some (utc_now r),
           context_switch_date := today, context_switch_count := count + 1\<rparr>)"

definition detect_trigger ::
    "reading \<Rightarrow> string option \<Rightarrow> string \<Rightarrow> u64 \<Rightarrow> u64 \<Rightarrow> bool \<Rightarrow> CoachingEngine \<Rightarrow> TriggerType option \<times> CoachingEngine" where
  "detect_trigger r regime_id regime_label duration avg drift e =
     (if regime_changed (current_regime_id e) regime_id
      then (Some (RegimeTransition (current_regime_id e) regime_id), on_regime_change r regime_id e)
      else if drift then (Some (RegimeDrift regime_label), e)
      else
        (let (hit, gt) = check_threshold regime_label (goal_tracker e); e = e\<lparr>goal_tracker := gt\<rparr> in
         case hit of
           Some threshold \<Rightarrow>
             (let (target, current) = (case goal_progress regime_label gt of
                                         Some p \<Rightarrow> (gp_target_minutes p, gp_current_minutes p) | None \<Rightarrow> (0, 0))
              in (Some (GoalThreshold regime_label target current threshold), e))
         | None \<Rightarrow>
             if 0 < avg \<and> avg * overstay_percent (tunable_params e) div 100 < duration
             then (Some (RegimeOverstay regime_label duration avg), e)
             else (None, e)))"

fun str_contains :: "string \<Rightarrow> string \<Rightarrow> bool" where
  "str_contains p s = (starts_with p s \<or> (case s of [] \<Rightarrow> False | _ # cs \<Rightarrow> str_contains p cs))"

declare str_contains.simps [simp del]

definition match_profile :: "coach_env \<Rightarrow> CoachingConfig \<Rightarrow> TriggerType \<Rightarrow> CoachingProfile option" where
  "match_profile env cfg trigger =
     (let profile =
        (case trigger of
           RegimeTransition from_regime _ \<Rightarrow>
             (let s = to_lowercase env (case from_regime of Some x \<Rightarrow> x | None \<Rightarrow> [])
              in if str_contains ''idle'' s \<or> str_contains ''break'' s \<or> str_contains ''away'' s then ContextRestore else FocusGuard)
         | RegimeDrift _ \<Rightarrow> FocusGuard
         | RegimeOverstay label _ _ \<Rightarrow>
             (let s = to_lowercase env label
              in if str_contains ''deep'' s \<or> str_contains ''focus'' s \<or> str_contains ''coding'' s then DeepWorkCoach else TimeAware)
         | GoalThreshold _ _ _ _ \<Rightarrow> GoalTracker)
      in case map_of (profiles cfg) (profile_name profile) of
           Some c \<Rightarrow> if profile_enabled c then Some profile else None
         | None \<Rightarrow> Some profile)"

definition humanize_duration :: "u64 \<Rightarrow> string" where
  "humanize_duration secs_w =
     (let hours = unat secs_w div 3600; minutes = unat secs_w mod 3600 div 60 in
      if 0 < hours \<and> 0 < minutes then show_nat hours @ ''h '' @ show_nat minutes @ ''m''
      else if 0 < hours then show_nat hours @ ''h''
      else show_nat minutes @ ''m'')"

definition avg_regime_duration_secs :: "string \<Rightarrow> CoachingEngine \<Rightarrow> u64" where
  "avg_regime_duration_secs label e = of_nat (sat_unsigned 64 (trunc_real (map_get label 1800 (regime_avg_duration e))))"

definition build_variables :: "string \<Rightarrow> u64 \<Rightarrow> string \<Rightarrow> CoachingEngine \<Rightarrow> (string \<times> string) list" where
  "build_variables label duration app e =
     (let (progress, minutes, remaining) =
        (case goal_progress label (goal_tracker e) of
           Some p \<Rightarrow> (show_nat (unat (gp_percentage p)), show_nat (unat (gp_target_minutes p)),
                       show_nat (unat (gp_target_minutes p) - unat (gp_current_minutes p)))
         | None \<Rightarrow> (''0'', ''0'', ''0''))
      in [(''regime'', label), (''duration'', humanize_duration duration), (''app_name'', app), (''goal_progress'', progress),
          (''goal_minutes'', minutes), (''remaining_minutes'', remaining),
          (''context_switches'', show_nat (unat (context_switch_count e))),
          (''comparison'', humanize_duration (avg_regime_duration_secs label e)),
          (''previous_context'', (case current_regime_id e of Some x \<Rightarrow> x | None \<Rightarrow> ''unknown''))])"

definition opt_str :: "string option \<Rightarrow> string" where "opt_str x = (case x of Some s \<Rightarrow> s | None \<Rightarrow> ''unknown'')"

definition quoted :: "string \<Rightarrow> string" where "quoted s = [CHR 0x27] @ s @ [CHR 0x27]"

definition build_explanation :: "TriggerType \<Rightarrow> CoachingProfile \<Rightarrow> string" where
  "build_explanation trigger p =
     (case trigger of
        RegimeTransition from_regime to_regime \<Rightarrow>
          ''You switched from '' @ quoted (opt_str from_regime) @ '' to '' @ quoted (opt_str to_regime) @
          '' (context switch detected). '' @ profile_name p @ '' profile triggered this coaching nudge.''
      | RegimeOverstay label duration avg \<Rightarrow>
          ''You'' @ [CHR 0x27] @ ''ve been in '' @ quoted label @ '' for '' @ show_nat (unat duration div 60) @ '' minutes (average: '' @
          show_nat (unat avg div 60) @ '' min). '' @ profile_name p @ '' profile suggests a break or status check.''
      | RegimeDrift label \<Rightarrow>
          ''Frequent app switching detected in '' @ quoted label @ ''. '' @ profile_name p @ '' profile flagged possible attention drift.''
      | GoalThreshold label target current threshold \<Rightarrow>
          ''You'' @ [CHR 0x27] @ ''ve reached '' @ show_nat (unat threshold) @ ''% of your '' @ quoted label @ '' goal ('' @
          show_nat (unat current) @ ''/'' @ show_nat (unat target) @ '' min). '' @ profile_name p @ '' profile is tracking your progress.'')"

section \<open>Evaluation\<close>

text \<open>The gate by effectiveness: the adaptive scorer when it has seen enough, otherwise the feedback tracker.\<close>

definition features_for :: "coach_env \<Rightarrow> reading \<Rightarrow> string \<Rightarrow> u64 \<Rightarrow> u64 \<Rightarrow> bool \<Rightarrow> CoachingProfile \<Rightarrow> TriggerType \<Rightarrow> CoachingEngine \<Rightarrow> CoachingFeatures" where
  "features_for env r label duration avg drift p trigger e =
     extract_features (ln32 env) (utc_hour r) duration (context_switch_count e)
       (case goal_progress label (goal_tracker e) of Some g \<Rightarrow> f32 (of_nat (unat (gp_percentage g)) / 100) | None \<Rightarrow> 0)
       (case map_of (scores (feedback_tracker e)) (profile_name p, trigger_type_name trigger) of
          Some sc \<Rightarrow> effectiveness_ratio sc | None \<Rightarrow> 1 / 2)
       drift (messages_shown_today e) avg"

definition effectiveness_gate ::
    "coach_env \<Rightarrow> CoachingFeatures \<Rightarrow> CoachingProfile \<Rightarrow> TriggerType \<Rightarrow> CoachingEngine \<Rightarrow> bool \<times> CoachingEngine" where
  "effectiveness_gate env f p trigger e =
     (if scorer_is_ready (adaptive_scorer e) then (\<not> predict (exp32 env) (adaptive_scorer e) f < 1 / 2, e)
      else (let (ok, ft) = should_show (profile_name p) (trigger_type_name trigger) (feedback_tracker e)
            in (ok, e\<lparr>feedback_tracker := ft\<rparr>)))"

definition evaluate ::
    "coach_env \<Rightarrow> reading \<Rightarrow> string option \<Rightarrow> string \<Rightarrow> u64 \<Rightarrow> u64 \<Rightarrow> bool \<Rightarrow> string \<Rightarrow> CoachingEngine \<Rightarrow> CoachingMessage option \<times> CoachingEngine" where
  "evaluate env r regime_id regime_label duration avg drift app e =
     (let cfg = config e in
      if \<not> coaching_enabled cfg then (None, e)
      else if is_quiet_hour env r cfg then (None, e)
      else
        (let e = clear_expired_snooze r e;
             e = e\<lparr>last_app_name := app, current_regime_label := Some regime_label\<rparr>;
             (hit, e) = detect_trigger r regime_id regime_label duration avg drift e
         in case hit of
              None \<Rightarrow> (None, e)
            | Some trigger \<Rightarrow>
                (case match_profile env cfg trigger of
                   None \<Rightarrow> (None, e)
                 | Some p \<Rightarrow>
                     if is_profile_snoozed r p e then (None, e)
                     else if \<not> check_cooldown r cfg p e then (None, e)
                     else
                       (let f = features_for env r regime_label duration avg drift p trigger e;
                            (ok, e) = effectiveness_gate env f p trigger e
                        in if \<not> ok then (None, e)
                           else
                             (let e = e\<lparr>last_features := Some f\<rparr>;
                                  vars = build_variables regime_label duration app e;
                                  raw = select_template (template_table env) p trigger (config_tone cfg) (config_locale cfg) (hash_order env vars);
                                  text = (case pii_sanitizer env of Some sanitize \<Rightarrow> sanitize raw | None \<Rightarrow> raw);
                                  e = record_alert r p e;
                                  e = e\<lparr>messages_shown_today := messages_shown_today e + 1\<rparr>
                              in (Some \<lparr>message_id = fresh_uuid r, cm_profile = p, cm_trigger = trigger, template_text = text,
                                        cm_variables = vars, cm_created_at = utc_now r, explanation = build_explanation trigger p\<rparr>, e))))))"

section \<open>Other operations\<close>

definition update_config :: "CoachingConfig \<Rightarrow> CoachingEngine \<Rightarrow> CoachingEngine" where
  "update_config cfg e = e\<lparr>goal_tracker := update_goals (regime_goals cfg) (goal_tracker e), config := cfg\<rparr>"

definition train_on_feedback :: "coach_env \<Rightarrow> bool \<Rightarrow> CoachingEngine \<Rightarrow> CoachingEngine" where
  "train_on_feedback env positive e =
     (case last_features e of
        Some f \<Rightarrow> e\<lparr>adaptive_scorer := scorer_update (exp32 env) f (if positive then 1 else 0) (adaptive_scorer e)\<rparr>
      | None \<Rightarrow> e)"

definition engine_record_minutes :: "reading \<Rightarrow> string \<Rightarrow> u32 \<Rightarrow> CoachingEngine \<Rightarrow> CoachingEngine" where
  "engine_record_minutes r label minutes e = e\<lparr>goal_tracker := record_minutes (local_date r) label minutes (goal_tracker e)\<rparr>"

definition register_pending_feedback ::
    "reading \<Rightarrow> string \<Rightarrow> string \<Rightarrow> string \<Rightarrow> string option \<Rightarrow> string \<Rightarrow> CoachingEngine \<Rightarrow> CoachingEngine" where
  "register_pending_feedback r mid p trigger regime_id app e =
     e\<lparr>feedback_tracker := register_pending (utc_now r) mid p trigger regime_id app (feedback_tracker e)\<rparr>"

definition record_explicit_feedback :: "string \<Rightarrow> bool \<Rightarrow> CoachingEngine \<Rightarrow> CoachingEngine" where
  "record_explicit_feedback mid positive e = e\<lparr>feedback_tracker := record_explicit mid positive (feedback_tracker e)\<rparr>"

definition evaluate_implicit_feedback :: "string option \<Rightarrow> string \<Rightarrow> time \<Rightarrow> CoachingEngine \<Rightarrow> CoachingEngine" where
  "evaluate_implicit_feedback regime_id app now e =
     (let (regime, a) = (if regime_id = None \<and> app = [] then (current_regime_id e, last_app_name e) else (regime_id, app))
      in e\<lparr>feedback_tracker := evaluate_implicit regime a now (feedback_tracker e)\<rparr>)"

definition snooze_current_profile :: "reading \<Rightarrow> string \<Rightarrow> int \<Rightarrow> CoachingEngine \<Rightarrow> CoachingEngine" where
  "snooze_current_profile r name duration e = e\<lparr>snoozed_until := Some (name, instant_now r + duration)\<rparr>"

definition display_colors :: "string list" where
  "display_colors = [''#3b82f6'', ''#10b981'', ''#f59e0b'', ''#ef4444'', ''#8b5cf6'', ''#ec4899'']"

definition all_goal_progress :: "CoachingEngine \<Rightarrow> (GoalProgress \<times> string) list" where
  "all_goal_progress e =
     (let ps = all_progress (goal_tracker e) in map (\<lambda>i. (ps ! i, display_colors ! (i mod length display_colors))) [0..<length ps])"

definition update_regime_goals :: "(string \<times> u32) list \<Rightarrow> CoachingEngine \<Rightarrow> CoachingEngine" where
  "update_regime_goals gs e = e\<lparr>goal_tracker := update_goals gs (goal_tracker e)\<rparr>"

definition regime_minutes_today :: "CoachingEngine \<Rightarrow> u32" where
  "regime_minutes_today e = sum_list (map gp_current_minutes (all_progress (goal_tracker e)))"

section \<open>The tick of the monitor loop\<close>

record CoachingTickState =
  regime_entered_at :: "time option"
  prev_coaching_regime_id :: "string option"

definition tick_state_new :: CoachingTickState where
  "tick_state_new = \<lparr>regime_entered_at = None, prev_coaching_regime_id = None\<rparr>"

text \<open>\<open>(poll_secs as f32 / 60.0).max(0.0) as u32\<close>.\<close>

definition elapsed_minutes :: "u64 \<Rightarrow> u32" where
  "elapsed_minutes poll_secs = of_nat (sat_unsigned 32 (trunc_real (max (f32 (f32 (of_nat (unat poll_secs)) / 60)) 0)))"

text \<open>The calls made for a message, in their order: the overlay, the notification and the stored event when they are configured.
  The rewording by a language model, started in the background, is not modelled.\<close>

datatype delivery = ShowOverlay CoachingMessage | Notify string | StoreEvent string string string "string option" string

record delivery_ports =
  has_overlay :: bool
  has_notifier :: bool
  has_storage :: bool

definition evaluate_and_deliver ::
    "coach_env \<Rightarrow> reading \<Rightarrow> delivery_ports \<Rightarrow> string option \<Rightarrow> string option \<Rightarrow> bool \<Rightarrow> u64 \<Rightarrow> CoachingTickState \<times> CoachingEngine \<Rightarrow>
     delivery list \<times> CoachingTickState \<times> CoachingEngine" where
  "evaluate_and_deliver env r ports regime_id prev_app drift poll_secs st =
     (let (ts, e) = st;
          label = (case regime_id of Some x \<Rightarrow> x | None \<Rightarrow> ''Unknown'');
          avg = avg_regime_duration_secs label e;
          ts = (if regime_id \<noteq> prev_coaching_regime_id ts
                then ts\<lparr>regime_entered_at := Some (instant_now r), prev_coaching_regime_id := regime_id\<rparr> else ts);
          duration = (case regime_entered_at ts of
                        Some t \<Rightarrow> of_int (max 0 (instant_now r - t) div nanos_per_sec) | None \<Rightarrow> 0);
          minutes = elapsed_minutes poll_secs;
          e = (if 0 < minutes then engine_record_minutes r label minutes e else e);
          app = (case prev_app of Some a \<Rightarrow> a | None \<Rightarrow> []);
          (msg, e) = evaluate env r regime_id label duration avg drift app e
      in case msg of
           None \<Rightarrow> ([], ts, e)
         | Some m \<Rightarrow>
             ((if has_overlay ports then [ShowOverlay m] else []) @
              (if has_notifier ports then [Notify (template_text m)] else []) @
              (if has_storage ports
               then [StoreEvent (message_id m) (trigger_type_name (cm_trigger m)) (profile_name (cm_profile m)) regime_id (template_text m)]
               else []),
              ts,
              register_pending_feedback r (message_id m) (profile_name (cm_profile m)) (trigger_type_name (cm_trigger m)) regime_id app e))"

end
