(* ===== verification/CoachingRuns.thy ===== *)
theory CoachingRuns
  imports CoachingEngine
begin

text \<open>
  Properties of coaching: milestones are decided exactly in spite of floating point, a message passes every guard, messages of one
  profile are spaced in every run, a snooze is respected, and goals do not progress when the monitor polls more often than
  once a minute.
\<close>

declare show_nat.simps [simp del]

section \<open>Rounding\<close>

lemma significand_error:
  fixes x :: real
  assumes "x \<noteq> 0" and u: "u = 2 powr of_int (\<lfloor>log 2 \<bar>x\<bar>\<rfloor> - int k)"
  shows "\<bar>of_int (round_even (x / u)) * u - x\<bar> \<le> \<bar>x\<bar> / 2 ^ (k + 1)"
proof -
  have pos: "0 < u" by (simp add: u)
  have "2 powr of_int \<lfloor>log 2 \<bar>x\<bar>\<rfloor> \<le> 2 powr (log 2 \<bar>x\<bar>)" by (intro powr_mono) auto
  also have "\<dots> = \<bar>x\<bar>" using assms(1) by simp
  finally have "u \<le> \<bar>x\<bar> / 2 ^ k" by (simp add: u powr_diff powr_realpow field_simps)
  moreover have "\<bar>of_int (round_even (x / u)) * u - x\<bar> = \<bar>of_int (round_even (x / u)) - x / u\<bar> * u"
    using pos by (simp add: abs_mult_pos field_simps)
  then have "\<bar>of_int (round_even (x / u)) * u - x\<bar> \<le> 1 / 2 * u"
    using round_even_error [of "x / u"] pos by (metis mult_right_mono less_imp_le)
  ultimately show ?thesis by simp
qed

lemma f32_error: "\<bar>f32 x - x\<bar> \<le> \<bar>x\<bar> / 2 ^ 24"
  using significand_error [of x "2 powr of_int (\<lfloor>log 2 \<bar>x\<bar>\<rfloor> - 23)" 23] by (simp add: f32_def Let_def)

lemma round_even_ge: "of_int n \<le> y \<Longrightarrow> n \<le> round_even y"
proof -
  assume "of_int n \<le> y"
  then have "n \<le> \<lfloor>y\<rfloor>" by (simp add: le_floor_iff)
  moreover have "\<lfloor>y\<rfloor> \<le> round_even y" by (simp add: round_even_def Let_def)
  ultimately show ?thesis by simp
qed

text \<open>Rounding to 53 bits does not fall below a number of 53 bits.\<close>

lemma f64_ge:
  fixes x v :: real
  assumes v: "v = of_nat m * 2 powr of_int e" "0 < m" "m < 2 ^ 53" and le: "v \<le> x"
  shows "v \<le> f64 x"
proof -
  have "0 < v" using v by simp
  then have x: "0 < x" using le by simp
  define l where "l = \<lfloor>log 2 x\<rfloor>"
  define u :: real where "u = 2 powr of_int (l - 52)"
  have u: "0 < u" by (simp add: u_def)
  have f: "f64 x = of_int (round_even (x / u)) * u" using x by (simp add: f64_def u_def l_def Let_def)
  show ?thesis
  proof (cases "l - 52 \<le> e")
    case True
    have pw: "(2 :: real) powr of_int e = 2 ^ nat (e - (l - 52)) * u"
      using True by (simp add: u_def powr_add [symmetric] powr_realpow [symmetric])
    have "v / u = of_int (int m * 2 ^ nat (e - (l - 52)))" using u by (simp add: v(1) pw)
    moreover have "v / u \<le> x / u" using le u by (simp add: divide_right_mono)
    ultimately have "int m * 2 ^ nat (e - (l - 52)) \<le> round_even (x / u)" by (intro round_even_ge) simp
    then have "of_int (int m * 2 ^ nat (e - (l - 52))) * u \<le> of_int (round_even (x / u)) * u"
      using u by (intro mult_right_mono) (simp_all only: of_int_le_iff less_imp_le)
    then show ?thesis using f \<open>v / u = _\<close> u by (simp add: field_simps)
  next
    case False
    have "2 powr of_int l \<le> 2 powr (log 2 x)" by (intro powr_mono) (auto simp: l_def)
    then have lx: "2 powr of_int l \<le> x" using x by simp
    have "(2 :: real) powr of_int l = 2 ^ 52 * u" by (simp add: u_def powr_diff)
    then have "of_int (2 ^ 52) \<le> x / u" using lx u by (simp add: field_simps)
    then have "2 ^ 52 \<le> round_even (x / u)" by (rule round_even_ge)
    then have "of_int (2 ^ 52) * u \<le> of_int (round_even (x / u)) * u" using u by (intro mult_right_mono) (simp_all only: of_int_le_iff less_imp_le)
    moreover have "v \<le> of_int (2 ^ 52) * u"
    proof -
      have "(2 :: real) powr of_int e \<le> 2 powr of_int (l - 53)" using False by (intro powr_mono) auto
      also have "\<dots> = u / 2" by (simp add: u_def powr_diff)
      finally have "v \<le> of_nat m * (u / 2)" unfolding v(1) by (intro mult_left_mono) simp_all
      also have "\<dots> \<le> 2 ^ 53 * (u / 2)" using v(3) u by (intro mult_right_mono) (simp_all add: of_nat_less_numeral_power_cancel_iff less_imp_le)
      finally show ?thesis by simp
    qed
    ultimately show ?thesis using f by simp
  qed
qed

lemma f64_nonneg: "0 \<le> x \<Longrightarrow> 0 \<le> f64 x"
proof -
  assume x: "0 \<le> x"
  have "x - f64 x \<le> x / 2 ^ 53" using f64_error [of x] x by (simp only: abs_le_iff) simp
  moreover have "x / 2 ^ 53 \<le> x" using x by simp
  ultimately show ?thesis by linarith
qed

section \<open>Milestones\<close>

text \<open>The rounded percentage of a goal reaches a milestone exactly when the true one does.\<close>

lemma rounded_percentage:
  fixes c t th :: nat
  assumes t: "0 < t" "t < 2 ^ 32" and th: "th \<in> {25, 50, 75, 100}"
  shows "of_nat th \<le> f64 (f64 (of_nat c / of_nat t) * 100) \<longleftrightarrow> th * t \<le> 100 * c"
proof
  assume "th * t \<le> 100 * c"
  then have "(of_nat (th * t) :: real) \<le> of_nat (100 * c)" by (simp only: of_nat_le_iff)
  then have q: "of_nat th / 100 \<le> (of_nat c / of_nat t :: real)" using t by (simp add: field_simps)
  have "of_nat th / 100 \<le> f64 (of_nat c / of_nat t)"
  proof (rule f64_ge [of _ "th div 25" "- 2"])
    show "of_nat th / 100 = of_nat (th div 25) * (2 :: real) powr of_int (- 2)" using th by (auto simp: powr_minus)
  qed (use th q in auto)
  then have "(of_nat th :: real) \<le> f64 (of_nat c / of_nat t) * 100" by simp
  then show "of_nat th \<le> f64 (f64 (of_nat c / of_nat t) * 100)"
    by (intro f64_ge [of _ th 0]) (use th in auto)
next
  assume le: "of_nat th \<le> f64 (f64 (of_nat c / of_nat t) * 100)"
  show "th * t \<le> 100 * c"
  proof (rule ccontr)
    assume "\<not> th * t \<le> 100 * c"
    then have "100 * c + 1 \<le> th * t" by simp
    then have "(of_nat (100 * c + 1) :: real) \<le> of_nat (th * t)" by (simp only: of_nat_le_iff)
    moreover define q :: real where "q = of_nat c / of_nat t"
    ultimately have "100 * q \<le> of_nat th - 1 / of_nat t" using t by (simp add: field_simps)
    moreover have "0 \<le> q" by (simp add: q_def)
    ultimately have q: "100 * q \<le> of_nat th - 1 / of_nat t" "0 \<le> q" by simp_all
    define e :: real where "e = 1 / 2 ^ 53"
    have "\<bar>f64 q - q\<bar> \<le> q * e" using f64_error [of q] q(2) by (simp add: e_def)
    then have a: "0 \<le> f64 q" "f64 q \<le> q + q * e" using q(2) f64_nonneg [OF q(2)] by (simp_all add: abs_le_iff)
    have "\<bar>f64 (f64 q * 100) - f64 q * 100\<bar> \<le> f64 q * 100 * e" using f64_error [of "f64 q * 100"] a(1) by (simp add: e_def)
    then have b: "f64 (f64 q * 100) \<le> f64 q * 100 + f64 q * 100 * e" by (simp add: abs_le_iff)
    have th100: "of_nat th \<le> (100 :: real)" using th by auto
    have "0 \<le> (1 :: real) / of_nat t" by simp
    then have q1: "q \<le> 1" using q(1) th100 by linarith
    have "f64 q \<le> 2" using a(2) q1 by (simp add: e_def)
    then have "f64 (f64 q * 100) \<le> 100 * q + 100 * e + 200 * e"
    proof -
      have "q * e \<le> e" using q1 by (simp add: e_def)
      moreover have "f64 q * 100 * e \<le> 200 * e" using \<open>f64 q \<le> 2\<close> by (simp add: e_def)
      ultimately show ?thesis using a(2) b by linarith
    qed
    also have "\<dots> \<le> of_nat th - 1 / of_nat t + 300 * e" using q(1) by simp
    also have "\<dots> < of_nat th"
    proof -
      have "(1 :: real) / 2 ^ 32 \<le> 1 / of_nat t" using t by (intro divide_left_mono) (auto simp: of_nat_less_numeral_power_cancel_iff less_imp_le)
      moreover have "300 * e < 1 / 2 ^ 32" by (simp add: e_def)
      ultimately show ?thesis by linarith
    qed
    finally show False using le by (simp add: q_def)
  qed
qed

lemma percentage_reaches:
  assumes "target \<noteq> 0" and th: "th \<in> set thresholds"
  shows "ucast th \<le> percentage_of current target \<longleftrightarrow> unat th * unat target \<le> 100 * unat current"
proof -
  define x where "x = f64 (f64 (f64_of_u32 current / f64_of_u32 target) * 100)"
  have bound: "0 \<le> x" unfolding x_def f64_of_u32_def by (intro f64_nonneg mult_nonneg_nonneg divide_nonneg_nonneg) (simp_all only: of_nat_0_le_iff zero_le_numeral)
  have n: "unat th \<in> {25, 50, 75, 100}" using th by (auto simp: thresholds_def)
  have fl: "of_nat (unat th) \<le> x \<longleftrightarrow> int (unat th) \<le> \<lfloor>x\<rfloor>" by (simp add: le_floor_iff)
  have "\<lfloor>min x 65535\<rfloor> < 65536" by (simp only: floor_less_iff)
  then have le: "nat \<lfloor>min x 65535\<rfloor> \<le> 65535" by linarith
  then have "sat_unsigned 16 \<lfloor>min x 65535\<rfloor> = nat \<lfloor>min x 65535\<rfloor>" by (simp add: sat_unsigned_def)
  moreover have "nat \<lfloor>min x 65535\<rfloor> < 2 ^ 16" using le by simp
  ultimately have p: "unat (percentage_of current target) = nat \<lfloor>min x 65535\<rfloor>"
    by (simp add: percentage_of_def x_def unat_of_nat)
  have u: "unat (ucast th :: u16) = unat th" using n by (auto simp: unsigned_ucast_eq take_bit_nat_eq_self)
  have "unat th \<le> nat \<lfloor>min x 65535\<rfloor> \<longleftrightarrow> of_nat (unat th) \<le> min x 65535"
    using bound n by (simp add: le_nat_iff le_floor_iff)
  also have "\<dots> \<longleftrightarrow> of_nat (unat th) \<le> x"
  proof -
    have "(of_nat (unat th) :: real) \<le> 65535" using n by (elim insertE) (simp_all only: of_nat_numeral, simp_all)
    then show ?thesis by (simp only: min.bounded_iff) blast
  qed
  also have "\<dots> \<longleftrightarrow> unat th * unat target \<le> 100 * unat current"
    using rounded_percentage [of "unat target" "unat th" "unat current"] n assms(1) unsigned_less [of target]
    by (simp add: x_def f64_of_u32_def unat_gt_0 word_gt_0)
  finally show ?thesis by (simp add: word_le_nat_alt p u)
qed

text \<open>The next milestone in whole numbers.\<close>

definition next_milestone :: "string \<Rightarrow> RegimeGoalTracker \<Rightarrow> u8 option" where
  "next_milestone label g =
     (case map_of (goals g) label of
        None \<Rightarrow> None
      | Some target \<Rightarrow>
          if target = 0 then None
          else find (\<lambda>t. unat t * unat target \<le> 100 * unat (map_get label 0 (today_minutes g)) \<and>
                         t \<notin> set (map_get label [] (notified_thresholds g))) thresholds)"

lemma find_cong_set: "(\<And>x. x \<in> set xs \<Longrightarrow> P x = Q x) \<Longrightarrow> find P xs = find Q xs"
  by (induction xs) auto

lemma check_threshold_next: "fst (check_threshold label g) = next_milestone label g"
proof (cases "map_of (goals g) label")
  case (Some target)
  show ?thesis
  proof (cases "target = 0")
    case False
    let ?c = "map_get label 0 (today_minutes g)" and ?n = "map_get label [] (notified_thresholds g)"
    have "find (\<lambda>t. ucast t \<le> percentage_of ?c target \<and> t \<notin> set ?n) thresholds =
        find (\<lambda>t. unat t * unat target \<le> 100 * unat ?c \<and> t \<notin> set ?n) thresholds"
      using percentage_reaches [OF False] by (intro find_cong_set) simp
    then show ?thesis using Some False by (simp add: check_threshold_def next_milestone_def Let_def split: option.split)
  qed (simp add: Some check_threshold_def next_milestone_def)
qed (simp add: check_threshold_def next_milestone_def)

section \<open>What a message needs\<close>

lemma detect_trigger_keeps:
  assumes "detect_trigger r regime_id label duration avg drift e = (hit, e')"
  shows "config e' = config e" "last_alert e' = last_alert e" "snoozed_until e' = snoozed_until e" "feedback_tracker e' = feedback_tracker e"
    "adaptive_scorer e' = adaptive_scorer e" "messages_shown_today e' = messages_shown_today e"
    "today_minutes (goal_tracker e') = today_minutes (goal_tracker e)" "tunable_params e' = tunable_params e"
  using assms by (auto simp: detect_trigger_def on_regime_change_def check_threshold_def Let_def split: if_splits option.splits prod.splits)

lemma effectiveness_gate_keeps:
  assumes "effectiveness_gate env f p trigger e = (ok, e')"
  shows "config e' = config e" "last_alert e' = last_alert e" "snoozed_until e' = snoozed_until e" "goal_tracker e' = goal_tracker e" "tunable_params e' = tunable_params e"
  using assms by (auto simp: effectiveness_gate_def split: if_splits prod.splits)

lemma clear_expired_keeps [simp]:
  "config (clear_expired_snooze r e) = config e" "last_alert (clear_expired_snooze r e) = last_alert e"
  "goal_tracker (clear_expired_snooze r e) = goal_tracker e" "current_regime_id (clear_expired_snooze r e) = current_regime_id e"
  "tunable_params (clear_expired_snooze r e) = tunable_params e"
  by (auto simp: clear_expired_snooze_def split: option.split)

text \<open>How an evaluation ends, for the proofs about runs.\<close>

lemma evaluate_cases:
  assumes "evaluate env r regime_id label duration avg drift app e = (msg, e')"
  obtains (silent) "msg = None" "config e' = config e" "last_alert e' = last_alert e"
      "today_minutes (goal_tracker e') = today_minutes (goal_tracker e)" "tunable_params e' = tunable_params e"
      "snoozed_until e' = snoozed_until e \<or> snoozed_until e' = snoozed_until (clear_expired_snooze r e)"
  | (message) m p where "msg = Some m" "cm_profile m = p" "cm_created_at m = utc_now r" "config e' = config e"
      "today_minutes (goal_tracker e') = today_minutes (goal_tracker e)" "tunable_params e' = tunable_params e"
      "last_alert e' = AList.update (profile_name p) (utc_now r) (last_alert e)"
      "snoozed_until e' = snoozed_until (clear_expired_snooze r e)"
      "coaching_enabled (config e)" "\<not> is_quiet_hour env r (config e)"
      "fst (detect_trigger r regime_id label duration avg drift ((clear_expired_snooze r e)\<lparr>last_app_name := app, current_regime_label := Some label\<rparr>)) = Some (cm_trigger m)"
      "match_profile env (config e) (cm_trigger m) = Some p" "\<not> is_profile_snoozed r p (clear_expired_snooze r e)"
      "check_cooldown r (config e) p e"
proof -
  show ?thesis
  proof (cases "coaching_enabled (config e) \<and> \<not> is_quiet_hour env r (config e)")
    case False
    with assms have "msg = None" "e' = e" by (auto simp: evaluate_def Let_def split: if_splits)
    then show ?thesis by (intro silent) simp_all
  next
    case True
    define e0 where "e0 = (clear_expired_snooze r e)\<lparr>last_app_name := app, current_regime_label := Some label\<rparr>"
    obtain hit e1 where d: "detect_trigger r regime_id label duration avg drift e0 = (hit, e1)" by (cases "detect_trigger r regime_id label duration avg drift e0")
    note k = detect_trigger_keeps [OF d]
    have e0: "config e0 = config e" "last_alert e0 = last_alert e" "snoozed_until e0 = snoozed_until (clear_expired_snooze r e)"
      "goal_tracker e0 = goal_tracker e" "tunable_params e0 = tunable_params e"
      by (simp_all add: e0_def)
    have cool: "check_cooldown r (config e) p e1 = check_cooldown r (config e) p e" for p by (simp add: check_cooldown_def k e0)
    have snz: "is_profile_snoozed r p e1 = is_profile_snoozed r p (clear_expired_snooze r e)" for p by (simp add: is_profile_snoozed_def k e0)
    show ?thesis
    proof (cases hit)
      case None
      with assms True d have "msg = None" "e' = e1" by (auto simp: evaluate_def Let_def e0_def)
      then show ?thesis using k e0 by (intro silent) simp_all
    next
      case (Some trigger)
      show ?thesis
      proof (cases "\<exists>p. match_profile env (config e) trigger = Some p \<and> \<not> is_profile_snoozed r p e1 \<and> check_cooldown r (config e) p e1")
        case False
        with assms True d Some have "msg = None" "e' = e1"
          by (auto simp: evaluate_def Let_def e0_def split: option.splits if_splits prod.splits)
        then show ?thesis using k e0 by (intro silent) simp_all
      next
        case pr: True
        then obtain p where p: "match_profile env (config e) trigger = Some p" "\<not> is_profile_snoozed r p e1" "check_cooldown r (config e) p e1" by blast
        let ?f = "features_for env r label duration avg drift p trigger e1"
        obtain ok e2 where g: "effectiveness_gate env ?f p trigger e1 = (ok, e2)" by (cases "effectiveness_gate env ?f p trigger e1")
        note kg = effectiveness_gate_keeps [OF g]
        show ?thesis
        proof (cases ok)
          case False
          with assms True d Some p g have "msg = None" "e' = e2" by (auto simp: evaluate_def Let_def e0_def)
          then show ?thesis using k kg e0 by (intro silent) simp_all
        next
          case ok: True
          with assms True d Some p g obtain m where m: "msg = Some m" "cm_profile m = p" "cm_trigger m = trigger" "cm_created_at m = utc_now r"
            and e': "config e' = config e2" "goal_tracker e' = goal_tracker e2" "tunable_params e' = tunable_params e2" "last_alert e' = AList.update (profile_name p) (utc_now r) (last_alert e2)" "snoozed_until e' = snoozed_until e2"
            by (auto simp: evaluate_def Let_def e0_def record_alert_def)
          show ?thesis using True p m e' k kg e0 cool snz d Some by (intro message [of m p]) (simp_all add: e0_def [symmetric])
        qed
      qed
    qed
  qed
qed

section \<open>Runs\<close>

datatype coach_event =
    Evaluated reading "string option" string u64 u64 bool string
  | Minutes reading string u32
  | Registered reading string string string "string option" string
  | Explicit string bool
  | Implicit "string option" string time
  | Snoozed reading string int
  | Configured CoachingConfig
  | GoalsSet "(string \<times> u32) list"
  | Trained bool

definition coach_step :: "coach_env \<Rightarrow> coach_event \<Rightarrow> CoachingEngine \<Rightarrow> CoachingMessage option \<times> CoachingEngine" where
  "coach_step env ev e =
     (case ev of
        Evaluated r regime_id label duration avg drift app \<Rightarrow> evaluate env r regime_id label duration avg drift app e
      | Minutes r label n \<Rightarrow> (None, engine_record_minutes r label n e)
      | Registered r mid p trigger regime_id app \<Rightarrow> (None, register_pending_feedback r mid p trigger regime_id app e)
      | Explicit mid positive \<Rightarrow> (None, record_explicit_feedback mid positive e)
      | Implicit regime_id app now \<Rightarrow> (None, evaluate_implicit_feedback regime_id app now e)
      | Snoozed r name d \<Rightarrow> (None, snooze_current_profile r name d e)
      | Configured cfg \<Rightarrow> (None, update_config cfg e)
      | GoalsSet gs \<Rightarrow> (None, update_regime_goals gs e)
      | Trained positive \<Rightarrow> (None, train_on_feedback env positive e))"

text \<open>The messages of a run: when, of which profile, and the interval configured for it at that moment.\<close>

fun coach_run :: "coach_env \<Rightarrow> coach_event list \<Rightarrow> CoachingEngine \<Rightarrow> (time \<times> CoachingProfile \<times> u64) list \<times> CoachingEngine" where
  "coach_run env [] e = ([], e)"
| "coach_run env (ev # evs) e =
     (let (msg, e1) = coach_step env ev e; (msgs, e2) = coach_run env evs e1
      in ((case msg of Some m \<Rightarrow> [(cm_created_at m, cm_profile m, min_interval (config e) (cm_profile m))] | None \<Rightarrow> []) @ msgs, e2))"

fun spaced :: "(string \<rightharpoonup> time) \<Rightarrow> (time \<times> CoachingProfile \<times> u64) list \<Rightarrow> bool" where
  "spaced a [] = True"
| "spaced a ((t, p, m) # rest) =
     ((case a (profile_name p) of Some t0 \<Rightarrow> sint m \<le> num_seconds (t - t0) | None \<Rightarrow> True) \<and> spaced (a(profile_name p \<mapsto> t)) rest)"

lemma coach_step_alerts:
  assumes "coach_step env ev e = (None, e')"
  shows "last_alert e' = last_alert e"
  using assms
  by (cases ev) (auto simp: coach_step_def engine_record_minutes_def register_pending_feedback_def record_explicit_feedback_def
      evaluate_implicit_feedback_def snooze_current_profile_def update_config_def update_regime_goals_def train_on_feedback_def Let_def
      split: option.splits if_splits elim: evaluate_cases)

lemma coach_step_message:
  assumes "coach_step env ev e = (Some m, e')"
  obtains r regime_id label duration avg drift app where "ev = Evaluated r regime_id label duration avg drift app"
    "evaluate env r regime_id label duration avg drift app e = (Some m, e')"
  using assms by (cases ev) (auto simp: coach_step_def)

lemma coach_run_spaced: "coach_run env evs e = (msgs, e') \<Longrightarrow> spaced (map_of (last_alert e)) msgs"
proof (induction evs arbitrary: e msgs)
  case (Cons ev evs)
  obtain msg e1 where step: "coach_step env ev e = (msg, e1)" by (cases "coach_step env ev e")
  obtain rest where rest: "coach_run env evs e1 = (rest, e')" using Cons.prems by (auto simp: step split: prod.splits)
  show ?case
  proof (cases msg)
    case None
    then show ?thesis using Cons.prems Cons.IH [OF rest] step rest coach_step_alerts [of env ev e e1] by simp
  next
    case (Some m)
    then obtain r regime_id label duration avg drift app where
      ev: "evaluate env r regime_id label duration avg drift app e = (Some m, e1)" using step coach_step_message by metis
    then have m: "cm_created_at m = utc_now r" "last_alert e1 = AList.update (profile_name (cm_profile m)) (utc_now r) (last_alert e)"
      "check_cooldown r (config e) (cm_profile m) e"
      by (auto elim: evaluate_cases)
    have "spaced ((map_of (last_alert e))(profile_name (cm_profile m) \<mapsto> utc_now r)) rest"
      using Cons.IH [OF rest] m(2) by (simp add: AList.update_conv' fun_upd_def)
    with m(1,3) show ?thesis using Cons.prems step rest Some by (auto simp: check_cooldown_def split: option.splits)
  qed
qed simp

lemma spaced_consecutive:
  assumes "spaced a (ys @ (t2, p, m2) # zs)" and "a (profile_name p) = Some t1" and "\<forall>(t, q, m) \<in> set ys. q \<noteq> p"
  shows "sint m2 \<le> num_seconds (t2 - t1)"
  using assms
proof (induction ys arbitrary: a)
  case (Cons y ys)
  obtain t q m where "y = (t, q, m)" by (cases y)
  with Cons show ?case by (auto simp: profile_name_inj)
qed simp

lemma spaced_append: "spaced a (xs @ (t, p, m) # ys) \<Longrightarrow> \<exists>b. b (profile_name p) = Some t \<and> spaced b ys"
proof (induction xs arbitrary: a)
  case Nil
  let ?b = "a(profile_name p \<mapsto> t)"
  from Nil have "spaced ?b ys" by simp
  moreover have "?b (profile_name p) = Some t" by (rule fun_upd_same)
  ultimately show ?case by blast
next
  case (Cons x xs)
  then show ?case by (cases x) auto
qed

section \<open>Properties\<close>

definition w_cfg :: CoachingConfig where
  "w_cfg = \<lparr>coaching_enabled = True, profiles = [], config_tone = Gentle, quiet_hours = [], regime_goals = [(''Deep Work'', 60)], config_locale = ''en''\<rparr>"

definition w_coach :: coach_env where
  "w_coach = \<lparr>to_lowercase = id, parse_time = \<lambda>_. None, ln32 = id, exp32 = id, hash_order = id,
     template_table = (\<lparr>ct_profile = FocusGuard, ct_trigger_type = ''RegimeTransition'', ct_tone = Gentle, ct_locale = ''en'', ct_text = ''Hello''\<rparr>, []),
     pii_sanitizer = None\<rparr>"

definition w_reading :: "int \<Rightarrow> reading" where
  "w_reading s = \<lparr>utc_now = secs s, local_time = 0, local_date = 0, instant_now = secs s, fresh_uuid = ''id''\<rparr>"

text \<open>C30: messages of one profile are spaced. In every run of a coaching engine, whatever calls are made in whatever order and
  however the configuration changes, two consecutive messages of one profile are at least the interval apart that is
  configured for the profile when the second is shown.\<close>

theorem coaching_messages_spaced:
  assumes run: "coach_run env evs (coaching_engine_new r0 cfg) = (msgs, e)"
    and pair: "msgs = xs @ (t1, p, m1) # ys @ (t2, p, m2) # zs" "\<forall>(t, q, m) \<in> set ys. q \<noteq> p"
  shows "sint m2 \<le> num_seconds (t2 - t1)"
proof -
  have "spaced (map_of (last_alert (coaching_engine_new r0 cfg))) (xs @ (t1, p, m1) # (ys @ (t2, p, m2) # zs))"
    using coach_run_spaced [OF run] by (simp add: pair(1))
  from spaced_append [OF this] obtain b where b: "b (profile_name p) = Some t1" "spaced b (ys @ (t2, p, m2) # zs)" by blast
  show ?thesis by (rule spaced_consecutive [OF b(2,1) pair(2)])
qed

lemmas coach_eval = coach_step_def evaluate_def coaching_engine_new_def w_cfg_def w_coach_def w_reading_def is_quiet_hour_def clear_expired_snooze_def
  detect_trigger_def regime_changed_def on_regime_change_def match_profile_def str_contains.simps effectiveness_gate_def scorer_is_ready_def
  scorer_default_def MIN_TRAINING_SAMPLES_def should_show_def feedback_tracker_new_def is_profile_snoozed_def check_cooldown_def
  min_interval_def record_alert_def profile_name_def Let_def

lemma w_coach_run:
  "fst (coach_run w_coach [Evaluated (w_reading 0) (Some ''a'') ''a'' 0 0 False ''x'', Evaluated (w_reading 400) (Some ''c'') ''c'' 0 0 False ''x'']
     (coaching_engine_new (w_reading 0) w_cfg)) = [(0, FocusGuard, 300), (secs 400, FocusGuard, 300)]"
  by (simp add: coach_eval secs_def num_seconds_def nanos_per_sec_def)

theorem coaching_messages_spaced_witness:
  "fst (coach_run w_coach [Evaluated (w_reading 0) (Some ''a'') ''a'' 0 0 False ''x'', Evaluated (w_reading 400) (Some ''c'') ''c'' 0 0 False ''x'']
     (coaching_engine_new (w_reading 0) w_cfg)) = [(0, FocusGuard, 300), (secs 400, FocusGuard, 300)] \<and>
   sint (300 :: u64) \<le> num_seconds (secs 400 - 0)"
proof -
  let ?run = "coach_run w_coach [Evaluated (w_reading 0) (Some ''a'') ''a'' 0 0 False ''x'', Evaluated (w_reading 400) (Some ''c'') ''c'' 0 0 False ''x'']
     (coaching_engine_new (w_reading 0) w_cfg)"
  have run: "?run = ([(0, FocusGuard, 300), (secs 400, FocusGuard, 300)], snd ?run)" by (metis w_coach_run prod.collapse)
  have "sint (300 :: u64) \<le> num_seconds (secs 400 - 0)"
    by (rule coaching_messages_spaced [OF run, of "[]" 0 FocusGuard 300 "[]" _ _ "[]"]) simp_all
  with w_coach_run show ?thesis by blast
qed

text \<open>A snooze stays in force.\<close>

fun before_end :: "time \<Rightarrow> coach_event \<Rightarrow> bool" where
  "before_end until (Evaluated r _ _ _ _ _ _) = (instant_now r < until)"
| "before_end until (Snoozed _ _ _) = False"
| "before_end until _ = True"

lemma before_end_step:
  assumes "coach_step env ev e = (msg, e')" "before_end until ev" "snoozed_until e = Some (name, until)"
  shows "snoozed_until e' = Some (name, until) \<and> (\<forall>m. msg = Some m \<longrightarrow> profile_name (cm_profile m) \<noteq> name)"
proof (cases ev)
  case (Evaluated r regime_id label duration avg drift app)
  with assms have ev: "evaluate env r regime_id label duration avg drift app e = (msg, e')" and t: "instant_now r < until" by (simp_all add: coach_step_def)
  have clear: "clear_expired_snooze r e = e" using t assms(3) by (simp add: clear_expired_snooze_def)
  from ev show ?thesis
  proof (cases rule: evaluate_cases)
    case silent
    then show ?thesis using assms(3) clear by auto
  next
    case (message m p)
    then show ?thesis using assms(3) clear t by (auto simp: is_profile_snoozed_def)
  qed
qed (use assms in \<open>auto simp: coach_step_def engine_record_minutes_def register_pending_feedback_def record_explicit_feedback_def
  evaluate_implicit_feedback_def update_config_def update_regime_goals_def train_on_feedback_def Let_def split: option.splits if_splits\<close>)

lemma before_end_run:
  assumes "coach_run env evs e = (msgs, e')" "\<forall>ev \<in> set evs. before_end until ev" "snoozed_until e = Some (name, until)"
  shows "\<forall>(t, p, m) \<in> set msgs. profile_name p \<noteq> name"
  using assms
proof (induction evs arbitrary: e msgs)
  case (Cons ev evs)
  obtain msg e1 where step: "coach_step env ev e = (msg, e1)" by (cases "coach_step env ev e")
  obtain rest where rest: "coach_run env evs e1 = (rest, e')" using Cons.prems by (auto simp: step split: prod.splits)
  have "snoozed_until e1 = Some (name, until)" "\<forall>m. msg = Some m \<longrightarrow> profile_name (cm_profile m) \<noteq> name"
    using before_end_step [OF step _ Cons.prems(3)] Cons.prems(2) by auto
  with Cons.IH [OF rest] Cons.prems(1,2) step rest show ?case by (auto split: option.splits)
qed simp

text \<open>A snooze is respected. From the moment a profile is snoozed, no message of that profile is shown until the snooze
  ends, whatever calls are made in whatever order, unless another snooze is set.\<close>

theorem coaching_snooze_respected:
  assumes "coach_run env evs (snooze_current_profile r name d e) = (msgs, e')"
    and "\<forall>ev \<in> set evs. before_end (instant_now r + d) ev"
  shows "\<forall>(t, p, m) \<in> set msgs. profile_name p \<noteq> name"
  by (rule before_end_run [OF assms]) (simp add: snooze_current_profile_def)

theorem coaching_snooze_respected_witness:
  "list_all (\<lambda>(t, p, m). profile_name p \<noteq> ''FocusGuard'')
     (fst (coach_run w_coach [Evaluated (w_reading 5) (Some ''a'') ''a'' 0 0 False ''x'', Explicit ''id'' True]
       (snooze_current_profile (w_reading 0) ''FocusGuard'' (secs 900) (coaching_engine_new (w_reading 0) w_cfg))))"
  unfolding list_all_iff
  by (rule coaching_snooze_respected [OF prod.collapse [symmetric]]) (simp add: w_reading_def secs_def nanos_per_sec_def)

text \<open>There is one snooze: snoozing another profile ends the first one.\<close>

theorem second_snooze_lifts_first:
  assumes "profile_name p \<noteq> name"
  shows "\<not> is_profile_snoozed r2 p (snooze_current_profile r1 name d1 (snooze_current_profile r (profile_name p) d e))"
  using assms by (simp add: is_profile_snoozed_def snooze_current_profile_def)

text \<open>Milestones are decided exactly. In spite of the division in floating point, \<open>check_threshold\<close> returns the first of the
  milestones 25, 50, 75 and 100 that was not yet notified and that the minutes of the day reach in whole-number arithmetic.\<close>

theorem milestone_exact: "fst (check_threshold label g) = next_milestone label g"
  by (rule check_threshold_next)

section \<open>Goals and the poll interval\<close>

lemma elapsed_minutes_quick: "unat poll < 60 \<Longrightarrow> elapsed_minutes poll = 0"
proof -
  assume p: "unat poll < 60"
  define x :: real where "x = of_nat (unat poll)"
  have x0: "0 \<le> x" unfolding x_def by (rule of_nat_0_le_iff)
  have "(of_nat (unat poll) :: real) \<le> of_nat 59" using p by (intro of_nat_mono) simp
  with x0 have x: "0 \<le> x" "x \<le> 59" by (simp_all only: x_def of_nat_numeral)
  define e :: real where "e = 1 / 2 ^ 24"
  have "\<bar>f32 x - x\<bar> \<le> x * e" using f32_error [of x] x(1) by (simp add: e_def)
  moreover have "x * e \<le> 59 * e" using x(2) by (simp add: e_def)
  ultimately have a: "f32 x \<le> 59 + 59 * e" "- (59 * e) \<le> f32 x" using x by (auto simp: abs_le_iff)
  have "\<bar>f32 (f32 x / 60) - f32 x / 60\<bar> \<le> \<bar>f32 x / 60\<bar> * e" using f32_error [of "f32 x / 60"] by (simp add: e_def)
  moreover have "\<bar>f32 x / 60\<bar> \<le> 1" using a by (auto simp: abs_le_iff e_def)
  then have "\<bar>f32 x / 60\<bar> * e \<le> 1 * e" by (intro mult_right_mono) (simp_all add: e_def)
  ultimately have "f32 (f32 x / 60) \<le> f32 x / 60 + e" by linarith
  also have "\<dots> \<le> (59 + 59 * e) / 60 + e" using a(1) by simp
  also have "\<dots> < 1" by (simp add: e_def)
  finally have "\<lfloor>max (f32 (f32 x / 60)) 0\<rfloor> = 0" by (simp add: floor_eq_iff)
  then show ?thesis unfolding elapsed_minutes_def x_def [symmetric] by (simp add: trunc_real_def sat_unsigned_def)
qed

datatype monitor_event = MonitorTick reading delivery_ports "string option" "string option" bool u64 | Call coach_event

fun monitor_run :: "coach_env \<Rightarrow> monitor_event list \<Rightarrow> CoachingTickState \<times> CoachingEngine \<Rightarrow> delivery list" where
  "monitor_run env [] st = []"
| "monitor_run env (MonitorTick r ports regime_id app drift poll # evs) st =
     (let (ds, st) = evaluate_and_deliver env r ports regime_id app drift poll st in ds @ monitor_run env evs st)"
| "monitor_run env (Call ev # evs) st = monitor_run env evs (fst st, snd (coach_step env ev (snd st)))"

text \<open>Ticks that come more often than once a minute, and calls other than the one that records minutes.\<close>

fun quick :: "monitor_event \<Rightarrow> bool" where
  "quick (MonitorTick _ _ _ _ _ poll) = (unat poll < 60)"
| "quick (Call ev) = (case ev of Minutes _ _ _ \<Rightarrow> False | _ \<Rightarrow> True)"

lemma no_minutes_no_milestone:
  assumes "today_minutes g = []"
  shows "next_milestone label g = None"
proof -
  have none: "find (\<lambda>t. unat t * unat target \<le> 100 * unat (0 :: u32) \<and> P t) thresholds = None" if "target \<noteq> 0" for target :: u32 and P
    using that by (auto simp: find_None_iff thresholds_def unat_eq_0)
  have c: "map_get label (0 :: u32) (today_minutes g) = 0" by (simp add: assms map_get_def)
  show ?thesis
    by (cases "map_of (goals g) label"; cases "the (map_of (goals g) label) = 0") (simp_all only: next_milestone_def c none option.case option.sel if_True if_False simp_thms)
qed

lemma no_minutes_no_goal_trigger:
  assumes "today_minutes (goal_tracker e) = []" "fst (detect_trigger r regime_id label duration avg drift e) = Some trigger"
  shows "trigger_type_name trigger \<noteq> ''GoalThreshold''"
proof -
  have "fst (check_threshold label (goal_tracker e)) = None" using assms(1) by (simp add: check_threshold_next no_minutes_no_milestone)
  with assms(2) show ?thesis
    by (auto simp: detect_trigger_def Let_def trigger_type_name_def split: if_splits prod.splits option.splits)
qed

lemma evaluate_no_minutes:
  assumes "evaluate env r regime_id label duration avg drift app e = (msg, e')" "today_minutes (goal_tracker e) = []"
  shows "today_minutes (goal_tracker e') = [] \<and> (\<forall>m. msg = Some m \<longrightarrow> trigger_type_name (cm_trigger m) \<noteq> ''GoalThreshold'')"
  using assms(1)
proof (cases rule: evaluate_cases)
  case (message m p)
  have "today_minutes (goal_tracker ((clear_expired_snooze r e)\<lparr>last_app_name := app, current_regime_label := Some label\<rparr>)) = []"
    using assms(2) by simp
  from no_minutes_no_goal_trigger [OF this message(11)] message(1,5) assms(2) show ?thesis by simp
qed (use assms(2) in auto)

lemma coach_step_no_minutes:
  assumes "today_minutes (goal_tracker e) = []" "quick (Call ev)"
  shows "today_minutes (goal_tracker (snd (coach_step env ev e))) = []"
proof (cases ev)
  case (Evaluated r regime_id label duration avg drift app)
  then show ?thesis using evaluate_no_minutes [OF prod.collapse [symmetric] assms(1), of env r regime_id label duration avg drift app]
    by (simp add: coach_step_def)
qed (use assms in \<open>auto simp: coach_step_def register_pending_feedback_def record_explicit_feedback_def evaluate_implicit_feedback_def
  snooze_current_profile_def update_config_def update_regime_goals_def update_goals_def train_on_feedback_def Let_def split: option.splits if_splits\<close>)

lemma tick_no_minutes:
  assumes "evaluate_and_deliver env r ports regime_id app drift poll (ts, e) = (ds, ts', e')" "unat poll < 60" "today_minutes (goal_tracker e) = []"
  shows "today_minutes (goal_tracker e') = [] \<and> (\<forall>m. ShowOverlay m \<in> set ds \<longrightarrow> trigger_type_name (cm_trigger m) \<noteq> ''GoalThreshold'')
    \<and> (\<forall>i p x s. StoreEvent i ''GoalThreshold'' p x s \<notin> set ds)"
  using assms(1,3) elapsed_minutes_quick [OF assms(2)]
  by (auto simp: evaluate_and_deliver_def register_pending_feedback_def Let_def split: prod.splits option.splits if_splits
      dest!: evaluate_no_minutes)

lemma monitor_run_no_goal:
  assumes "\<forall>ev \<in> set evs. quick ev" "today_minutes (goal_tracker (snd st)) = []"
  shows "(\<forall>m. ShowOverlay m \<in> set (monitor_run env evs st) \<longrightarrow> trigger_type_name (cm_trigger m) \<noteq> ''GoalThreshold'')
    \<and> (\<forall>i p x s. StoreEvent i ''GoalThreshold'' p x s \<notin> set (monitor_run env evs st))"
  using assms
proof (induction env evs st rule: monitor_run.induct)
  case (2 env r ports regime_id app drift poll evs st)
  obtain ts e where st: "st = (ts, e)" by (cases st)
  obtain ds ts' e' where d: "evaluate_and_deliver env r ports regime_id app drift poll (ts, e) = (ds, ts', e')"
    by (cases "evaluate_and_deliver env r ports regime_id app drift poll (ts, e)") auto
  from tick_no_minutes [OF d] 2 show ?case by (auto simp: st d)
next
  case (3 env ev evs st)
  then show ?case using coach_step_no_minutes [of "snd st" ev env] by simp
qed simp

text \<open>With a poll interval below one minute, which the default of one second is, goals make no progress: the whole minutes of
  a poll are recorded, and there are none. No message about a goal is ever shown or stored, however long the monitor runs and
  whatever goals are configured.\<close>

theorem goals_never_progress:
  assumes "\<forall>ev \<in> set evs. quick ev"
  shows "(\<forall>m. ShowOverlay m \<in> set (monitor_run env evs (tick_state_new, coaching_engine_new r cfg)) \<longrightarrow> trigger_type_name (cm_trigger m) \<noteq> ''GoalThreshold'') \<and>
    (\<forall>i p x s. StoreEvent i ''GoalThreshold'' p x s \<notin> set (monitor_run env evs (tick_state_new, coaching_engine_new r cfg)))"
  using assms by (intro monitor_run_no_goal) (simp_all add: coaching_engine_new_def update_goals_def goal_tracker_new_def)

theorem goals_never_progress_witness:
  "\<forall>i p x s. StoreEvent i ''GoalThreshold'' p x s \<notin> set (monitor_run w_coach
     (replicate 100000 (MonitorTick (w_reading 0) \<lparr>has_overlay = True, has_notifier = True, has_storage = True\<rparr> (Some ''Deep Work'') None False 1))
     (tick_state_new, coaching_engine_new (w_reading 0) w_cfg))"
  by (rule goals_never_progress [THEN conjunct2]) (simp only: set_replicate_conv_if, simp)

section \<open>Further findings\<close>

text \<open>Feedback tunes the copy of the parameters in the feedback tracker; the copy the engine uses for the overstay trigger and for the
  averages keeps its defaults.\<close>

lemma coach_step_params: "tunable_params (snd (coach_step env ev e)) = tunable_params e"
proof (cases ev)
  case (Evaluated r regime_id label duration avg drift app)
  obtain msg e' where ev: "evaluate env r regime_id label duration avg drift app e = (msg, e')"
    by (cases "evaluate env r regime_id label duration avg drift app e")
  then have "tunable_params e' = tunable_params e" by (cases rule: evaluate_cases)
  with ev Evaluated show ?thesis by (simp add: coach_step_def)
qed (auto simp: coach_step_def engine_record_minutes_def register_pending_feedback_def record_explicit_feedback_def
  evaluate_implicit_feedback_def snooze_current_profile_def update_config_def update_regime_goals_def train_on_feedback_def Let_def
  split: option.splits)

theorem engine_params_never_tuned: "tunable_params (snd (coach_run env evs (coaching_engine_new r cfg))) = params_default"
proof -
  have "tunable_params (snd (coach_run env evs e)) = tunable_params e" for e
  proof (induction evs arbitrary: e)
    case (Cons ev evs)
    have "snd (coach_run env (ev # evs) e) = snd (coach_run env evs (snd (coach_step env ev e)))"
      by (simp add: case_prod_unfold Let_def)
    then show ?case using Cons coach_step_params by simp
  qed simp
  then show ?thesis by (simp add: coaching_engine_new_def)
qed

text \<open>The variable for the previous context is read after the regime was changed.\<close>

theorem previous_context_is_current:
  "map_of (build_variables label duration app (on_regime_change r new_regime e)) ''previous_context'' = Some (opt_str new_regime)"
  by (simp add: build_variables_def on_regime_change_def opt_str_def Let_def split: option.split prod.split)

text \<open>A milestone counts as notified when it is detected, also when a guard then keeps its message back.\<close>

theorem suppressed_milestone_lost:
  assumes hit: "fst (check_threshold label (goal_tracker e)) = Some th" and still: "\<not> regime_changed (current_regime_id e) regime_id"
    and on: "coaching_enabled (config e)" "\<not> is_quiet_hour env r (config e)"
    and snoozed: "snoozed_until e = Some (''GoalTracker'', until)" "instant_now r < until"
  shows "\<exists>e'. evaluate env r regime_id label duration avg False app e = (None, e') \<and>
    th \<in> set (map_get label [] (notified_thresholds (goal_tracker e')))"
proof -
  obtain hit' gt where gt: "check_threshold label (goal_tracker e) = (hit', gt)" by (cases "check_threshold label (goal_tracker e)")
  with hit have gt: "check_threshold label (goal_tracker e) = (Some th, gt)" by simp
  define e0 where "e0 = e\<lparr>last_app_name := app, current_regime_label := Some label\<rparr>"
  have e0: "current_regime_id e0 = current_regime_id e" "goal_tracker e0 = goal_tracker e" "config e0 = config e" by (simp_all add: e0_def)
  obtain t c where trig: "detect_trigger r regime_id label duration avg False e0 = (Some (GoalThreshold label t c th), e0\<lparr>goal_tracker := gt\<rparr>)"
    by (cases "goal_progress label gt") (simp_all add: detect_trigger_def e0 still gt)
  have lost: "th \<in> set (map_get label [] (notified_thresholds gt))"
    using gt by (auto simp: check_threshold_def map_get_def AList.update_conv' Let_def split: option.splits if_splits)
  have clear: "clear_expired_snooze r e = e" using snoozed by (simp add: clear_expired_snooze_def)
  have snz: "is_profile_snoozed r GoalTracker (e0\<lparr>goal_tracker := gt\<rparr>)" using snoozed by (simp add: is_profile_snoozed_def e0_def profile_name_def)
  have m: "match_profile env (config e) (GoalThreshold label t c th) = None \<or> match_profile env (config e) (GoalThreshold label t c th) = Some GoalTracker"
    by (cases "map_of (profiles (config e)) (profile_name GoalTracker)") (simp_all add: match_profile_def)
  then have "evaluate env r regime_id label duration avg False app e = (None, e0\<lparr>goal_tracker := gt\<rparr>)"
    using on snz by (elim disjE) (simp_all add: evaluate_def clear e0_def [symmetric] trig)
  then show ?thesis using lost by simp
qed

end
