(* ===== verification/SecretStore.thy ===== *)
theory SecretStore
  imports CoreErrors ByteString "HOL-Library.AList"
begin

text \<open>
  The store of credentials: the names of \<open>crates/oneshim-core/src/ports/secret_store.rs\<close>, the registry in a file
  of \<open>crates/oneshim-storage/src/file_secret_store.rs\<close> and the read-only environment of
  \<open>crates/oneshim-storage/src/env_secret_store.rs\<close>.

  Hash maps are association lists, read through \<open>map_of\<close>. The JSON codec is an argument, and so is the outcome of
  every system call: an \<open>io\<close> names the first that fails. A join error of \<open>spawn_blocking\<close> means that the runtime
  stopped before the closure ran.
\<close>

section \<open>Names of secrets\<close>

definition segment_char :: "char \<Rightarrow> bool" where
  "segment_char c \<longleftrightarrow> is_ascii_alphanumeric c \<or> c = CHR ''-'' \<or> c = CHR ''_'' \<or> c = CHR ''.''"

definition validate_secret_segment :: "string \<Rightarrow> string \<Rightarrow> CoreError + string" where
  "validate_secret_segment raw field_name =
     (let trimmed = trim raw
      in if trimmed = [] then Inl (CInvalidArguments (field_name @ '' must not be empty''))
         else if \<not> list_all segment_char trimmed
         then Inl (CInvalidArguments (field_name @
           '' must contain only ASCII alphanumeric characters, '' @ [CHR 0x27] @ ''.'' @ [CHR 0x27] @ '', '' @ [CHR 0x27] @ ''_'' @
           [CHR 0x27] @ '' or '' @ [CHR 0x27] @ ''-'' @ [CHR 0x27]))
         else Inr trimmed)"

definition provider_secret_namespace :: "string \<Rightarrow> string \<Rightarrow> CoreError + string" where
  "provider_secret_namespace provider_id profile_id =
     rbind (validate_secret_segment provider_id ''provider_id'') (\<lambda>p.
     rbind (validate_secret_segment profile_id ''profile_id'') (\<lambda>q.
     Inr (''provider/'' @ p @ ''/'' @ q)))"

definition provider_api_key_secret_ref :: "string \<Rightarrow> string \<Rightarrow> CoreError + (string \<times> string)" where
  "provider_api_key_secret_ref provider_id profile_id =
     rbind (provider_secret_namespace provider_id profile_id) (\<lambda>ns. Inr (ns, ''api_key''))"

definition provider_oauth_session_secret_ref :: "string \<Rightarrow> string \<Rightarrow> CoreError + (string \<times> string)" where
  "provider_oauth_session_secret_ref provider_id profile_id =
     rbind (provider_secret_namespace provider_id profile_id) (\<lambda>ns. Inr (ns, ''oauth_session''))"

definition to_ascii_uppercase :: "char \<Rightarrow> char" where
  "to_ascii_uppercase c = (if is_ascii_lower c then char_of (of_char c - 32 :: nat) else c)"

text \<open>One character of output for each character of the text, which starts at each byte that is not a continuation.\<close>

definition env_segment :: "string \<Rightarrow> string" where
  "env_segment s = map (\<lambda>c. if is_ascii_alphanumeric c then to_ascii_uppercase c else CHR ''_'')
     (filter (\<lambda>c. \<not> continuation_byte c) s)"

definition secret_env_var_name :: "string \<Rightarrow> string \<Rightarrow> string" where
  "secret_env_var_name ns k = ''ONESHIM_SECRET_'' @ env_segment ns @ ''_'' @ env_segment k"

section \<open>The registry in a file\<close>

type_synonym secret_table = "(string \<times> (string \<times> string) list) list"

record FileSecretRegistry =
  reg_version :: u32
  reg_namespaces :: secret_table

definition secret_registry_new :: FileSecretRegistry where
  "secret_registry_new = \<lparr>reg_version = 1, reg_namespaces = []\<rparr>"

definition keys_of :: "secret_table \<Rightarrow> string \<Rightarrow> (string \<times> string) list" where
  "keys_of t ns = (case map_of t ns of Some ks \<Rightarrow> ks | None \<Rightarrow> [])"

definition registry_store :: "string \<Rightarrow> string \<Rightarrow> string \<Rightarrow> FileSecretRegistry \<Rightarrow> FileSecretRegistry" where
  "registry_store ns k v r =
     r\<lparr>reg_namespaces := AList.update ns (AList.update k v (keys_of (reg_namespaces r) ns)) (reg_namespaces r)\<rparr>"

definition registry_retrieve :: "FileSecretRegistry \<Rightarrow> string \<Rightarrow> string \<Rightarrow> string option" where
  "registry_retrieve r ns k = (case map_of (reg_namespaces r) ns of None \<Rightarrow> None | Some ks \<Rightarrow> map_of ks k)"

definition registry_delete :: "string \<Rightarrow> string \<Rightarrow> FileSecretRegistry \<Rightarrow> FileSecretRegistry" where
  "registry_delete ns k r =
     (case map_of (reg_namespaces r) ns of
        None \<Rightarrow> r
      | Some ks \<Rightarrow>
          let ks = AList.delete k ks
          in if ks = [] then r\<lparr>reg_namespaces := AList.delete ns (reg_namespaces r)\<rparr>
             else r\<lparr>reg_namespaces := AList.update ns ks (reg_namespaces r)\<rparr>)"

definition registry_delete_namespace :: "string \<Rightarrow> FileSecretRegistry \<Rightarrow> FileSecretRegistry" where
  "registry_delete_namespace ns r = r\<lparr>reg_namespaces := AList.delete ns (reg_namespaces r)\<rparr>"

text \<open>The registry file and the temporary file beside it.\<close>

record secret_disk =
  registry_file :: "string option"
  temp_file :: "string option"

record secret_json =
  encode_registry :: "FileSecretRegistry \<Rightarrow> string + string"
  decode_registry :: "string \<Rightarrow> string + FileSecretRegistry"

record secret_io =
  mkdir_err :: "string option"
  write_err :: "string option"
  written_part :: "string option"
  chmod_err :: "string option"
  rename_err :: "string option"
  join_err :: "string option"

definition io_fine :: secret_io where
  "io_fine = \<lparr>mkdir_err = None, write_err = None, written_part = None, chmod_err = None, rename_err = None, join_err = None\<rparr>"

definition registry_load_or_default :: "secret_json \<Rightarrow> string option \<Rightarrow> secret_disk \<Rightarrow> StoreError + FileSecretRegistry" where
  "registry_load_or_default json read_err d =
     (case read_err of
        Some e \<Rightarrow> Inl (StIo e)
      | None \<Rightarrow>
          (case registry_file d of
             None \<Rightarrow> Inr secret_registry_new
           | Some contents \<Rightarrow>
               (case decode_registry json contents of
                  Inl e \<Rightarrow> Inl (StSecretStore (''file secret registry parse: '' @ e))
                | Inr r \<Rightarrow> Inr r)))"

definition registry_save :: "secret_json \<Rightarrow> secret_io \<Rightarrow> FileSecretRegistry \<Rightarrow> secret_disk \<Rightarrow> (StoreError + unit) \<times> secret_disk" where
  "registry_save json io r d =
     (case encode_registry json r of
        Inl e \<Rightarrow> (Inl (StSecretStore (''file secret registry serialization: '' @ e)), d)
      | Inr serialized \<Rightarrow>
          (case mkdir_err io of
             Some e \<Rightarrow> (Inl (StIo e), d)
           | None \<Rightarrow>
               (case write_err io of
                  Some e \<Rightarrow> (Inl (StIo e), d\<lparr>temp_file := written_part io\<rparr>)
                | None \<Rightarrow>
                    let d = d\<lparr>temp_file := Some serialized\<rparr>
                    in (case chmod_err io of
                          Some e \<Rightarrow> (Inl (StSecretStore (''file secret store permission set failed: '' @ e)), d)
                        | None \<Rightarrow>
                            (case rename_err io of
                               Some e \<Rightarrow> (Inl (StIo e), d)
                             | None \<Rightarrow> (Inr (), d\<lparr>registry_file := Some serialized, temp_file := None\<rparr>))))))"

record FileSecretInner =
  fs_registry :: FileSecretRegistry
  fs_disk :: secret_disk

definition file_inner_new :: "secret_json \<Rightarrow> string option \<Rightarrow> string option \<Rightarrow> secret_disk \<Rightarrow> StoreError + FileSecretInner" where
  "file_inner_new json mkdir read_err d =
     (case mkdir of
        Some e \<Rightarrow> Inl (StIo e)
      | None \<Rightarrow> rbind (registry_load_or_default json read_err d) (\<lambda>r. Inr \<lparr>fs_registry = r, fs_disk = d\<rparr>))"

text \<open>Each operation changes the registry in memory and then writes the whole of it.\<close>

definition file_write ::
  "secret_json \<Rightarrow> secret_io \<Rightarrow> (FileSecretRegistry \<Rightarrow> FileSecretRegistry) \<Rightarrow> FileSecretInner
     \<Rightarrow> (StoreError + unit) \<times> FileSecretInner" where
  "file_write json io f s =
     (let r = f (fs_registry s); (res, d) = registry_save json io r (fs_disk s)
      in (res, \<lparr>fs_registry = r, fs_disk = d\<rparr>))"

definition file_store_sync where
  "file_store_sync json io ns k v = file_write json io (registry_store ns k v)"

definition file_retrieve_sync :: "string \<Rightarrow> string \<Rightarrow> FileSecretInner \<Rightarrow> string option" where
  "file_retrieve_sync ns k s = registry_retrieve (fs_registry s) ns k"

definition file_delete_sync where
  "file_delete_sync json io ns k = file_write json io (registry_delete ns k)"

definition file_delete_namespace_sync where
  "file_delete_namespace_sync json io ns = file_write json io (registry_delete_namespace ns)"

section \<open>The port\<close>

text \<open>\<open>spawn_blocking\<close> around a synchronous operation, and the conversion of its error.\<close>

definition blocking :: "secret_io \<Rightarrow> ('s \<Rightarrow> (StoreError + unit) \<times> 's) \<Rightarrow> 's \<Rightarrow> (CoreError + unit) \<times> 's" where
  "blocking io f s =
     (case join_err io of
        Some e \<Rightarrow> (Inl (CSecretStoreError (''spawn_blocking: '' @ e)), s)
      | None \<Rightarrow> (case f s of (Inl e, s') \<Rightarrow> (Inl (core_of_store_error e), s') | (Inr u, s') \<Rightarrow> (Inr u, s')))"

definition file_store where
  "file_store json io ns k v = blocking io (file_store_sync json io ns k v)"

definition file_retrieve :: "secret_io \<Rightarrow> string \<Rightarrow> string \<Rightarrow> FileSecretInner \<Rightarrow> CoreError + string option" where
  "file_retrieve io ns k s =
     (case join_err io of
        Some e \<Rightarrow> Inl (CSecretStoreError (''spawn_blocking: '' @ e))
      | None \<Rightarrow> Inr (file_retrieve_sync ns k s))"

definition file_delete where
  "file_delete json io ns k = blocking io (file_delete_sync json io ns k)"

definition file_delete_namespace where
  "file_delete_namespace json io ns = blocking io (file_delete_namespace_sync json io ns)"

text \<open>The operations behind \<open>dyn SecretStore\<close>, for a backend with state \<open>'s\<close> whose system calls answer \<open>'io\<close>.\<close>

record ('s, 'io) secret_ops =
  op_store :: "'io \<Rightarrow> string \<Rightarrow> string \<Rightarrow> string \<Rightarrow> 's \<Rightarrow> (CoreError + unit) \<times> 's"
  op_retrieve :: "'io \<Rightarrow> string \<Rightarrow> string \<Rightarrow> 's \<Rightarrow> CoreError + string option"
  op_delete :: "'io \<Rightarrow> string \<Rightarrow> string \<Rightarrow> 's \<Rightarrow> (CoreError + unit) \<times> 's"
  op_delete_namespace :: "'io \<Rightarrow> string \<Rightarrow> 's \<Rightarrow> (CoreError + unit) \<times> 's"

definition file_ops :: "secret_json \<Rightarrow> (FileSecretInner, secret_io) secret_ops" where
  "file_ops json = \<lparr>op_store = file_store json, op_retrieve = file_retrieve, op_delete = file_delete json,
     op_delete_namespace = file_delete_namespace json\<rparr>"

definition env_read_only_error :: CoreError where
  "env_read_only_error = CSecretStoreError ''environment-backed secret store is read-only; modify the environment source instead''"

definition env_retrieve :: "(string \<rightharpoonup> string) \<Rightarrow> string \<Rightarrow> string \<Rightarrow> string option" where
  "env_retrieve snapshot ns k = snapshot (secret_env_var_name ns k)"

definition env_ops :: "((string \<rightharpoonup> string), unit) secret_ops" where
  "env_ops = \<lparr>op_store = (\<lambda>_ _ _ _ s. (Inl env_read_only_error, s)), op_retrieve = (\<lambda>_ ns k s. Inr (env_retrieve s ns k)),
     op_delete = (\<lambda>_ _ _ s. (Inl env_read_only_error, s)), op_delete_namespace = (\<lambda>_ _ s. (Inl env_read_only_error, s))\<rparr>"

subsection \<open>What the registry answers\<close>

definition set_secret :: "string \<Rightarrow> string \<Rightarrow> string option \<Rightarrow> (string \<Rightarrow> string \<rightharpoonup> string) \<Rightarrow> string \<Rightarrow> string \<rightharpoonup> string" where
  "set_secret ns k v l = l(ns := (l ns)(k := v))"

definition clear_namespace :: "string \<Rightarrow> (string \<Rightarrow> string \<rightharpoonup> string) \<Rightarrow> string \<Rightarrow> string \<rightharpoonup> string" where
  "clear_namespace ns l = l(ns := Map.empty)"

lemma set_secret_apply [simp]:
  "set_secret ns k v l ns' k' = (if ns' = ns \<and> k' = k then v else l ns' k')"
  by (simp add: set_secret_def)

lemma clear_namespace_apply [simp]: "clear_namespace ns l ns' = (if ns' = ns then Map.empty else l ns')"
  by (simp add: clear_namespace_def)

lemma retrieve_secret_registry_new [simp]: "registry_retrieve secret_registry_new ns k = None"
  by (simp add: registry_retrieve_def secret_registry_new_def)

lemma retrieve_registry_store:
  "registry_retrieve (registry_store ns k v r) = set_secret ns k (Some v) (registry_retrieve r)"
  by (rule ext, rule ext) (auto simp: registry_retrieve_def registry_store_def keys_of_def AList.update_conv' split: option.splits)

lemma retrieve_registry_delete_namespace:
  "registry_retrieve (registry_delete_namespace ns r) = clear_namespace ns (registry_retrieve r)"
  by (rule ext, rule ext) (auto simp: registry_retrieve_def registry_delete_namespace_def AList.delete_conv')

lemma map_of_delete_Nil: "AList.delete k ks = [] \<Longrightarrow> k' \<noteq> k \<Longrightarrow> map_of ks k' = None"
  by (metis AList.map_of_delete map_of.simps(1))

lemma retrieve_registry_delete:
  "registry_retrieve (registry_delete ns k r) = set_secret ns k None (registry_retrieve r)"
  by (rule ext, rule ext)
    (auto simp: registry_retrieve_def registry_delete_def Let_def AList.update_conv' AList.delete_conv' map_of_delete_Nil
      split: option.splits)

section \<open>The contract of the port\<close>

text \<open>
  What the clients of \<open>SecretStore\<close> rely on. An answer is what the store holds; a write that succeeds changes its own secret
  only, and one that fails changes that secret or nothing; the deletion of a namespace never reaches another.
\<close>

locale secret_store_port =
  fixes ops :: "('s, 'io) secret_ops"
    and holds :: "'s \<Rightarrow> string \<Rightarrow> string \<rightharpoonup> string"
  assumes retrieve_answers: "op_retrieve ops io ns k s = Inr found \<Longrightarrow> found = holds s ns k"
    and store_ok: "op_store ops io ns k v s = (Inr u, s') \<Longrightarrow> holds s' = set_secret ns k (Some v) (holds s)"
    and store_failed: "op_store ops io ns k v s = (Inl e, s') \<Longrightarrow>
      holds s' = holds s \<or> holds s' = set_secret ns k (Some v) (holds s)"
    and delete_namespace_ok: "op_delete_namespace ops io ns s = (Inr u, s') \<Longrightarrow> holds s' = clear_namespace ns (holds s)"
    and delete_namespace_failed: "op_delete_namespace ops io ns s = (Inl e, s') \<Longrightarrow> ns' \<noteq> ns \<Longrightarrow> holds s' ns' = holds s ns'"
begin

lemma store_elsewhere: "op_store ops io ns k v s = (r, s') \<Longrightarrow> ns' \<noteq> ns \<Longrightarrow> holds s' ns' = holds s ns'"
  by (cases r) (auto dest!: store_ok store_failed simp: set_secret_def)

lemma delete_namespace_elsewhere: "op_delete_namespace ops io ns s = (r, s') \<Longrightarrow> ns' \<noteq> ns \<Longrightarrow> holds s' ns' = holds s ns'"
  by (cases r) (auto dest: delete_namespace_ok delete_namespace_failed)

lemma store_other_key: "op_store ops io ns k v s = (r, s') \<Longrightarrow> k' \<noteq> k \<Longrightarrow> holds s' ns' k' = holds s ns' k'"
  by (cases r) (auto dest!: store_ok store_failed)

end

abbreviation file_holds :: "FileSecretInner \<Rightarrow> string \<Rightarrow> string \<rightharpoonup> string" where
  "file_holds s \<equiv> registry_retrieve (fs_registry s)"

lemma blocking_file_write:
  assumes "blocking io (file_write json io f) s = (r, s')"
  shows "s' = s \<and> (\<exists>e. r = Inl e) \<or> fs_registry s' = f (fs_registry s)"
  using assms by (auto simp: blocking_def file_write_def Let_def split: option.splits prod.splits sum.splits)

lemmas file_op_defs = file_ops_def file_store_def file_store_sync_def file_retrieve_def file_retrieve_sync_def file_delete_def
  file_delete_sync_def file_delete_namespace_def file_delete_namespace_sync_def

interpretation file_secrets: secret_store_port "file_ops json" file_holds
  by unfold_locales
    (auto simp: file_op_defs retrieve_registry_store retrieve_registry_delete_namespace split: option.splits
      dest!: blocking_file_write)

interpretation env_secrets: secret_store_port env_ops env_retrieve
  by unfold_locales (auto simp: env_ops_def)

section \<open>Durability\<close>

datatype secret_cmd = CmdStore string string string | CmdDelete string string | CmdDeleteNamespace string

fun cmd_apply :: "secret_cmd \<Rightarrow> (string \<Rightarrow> string \<rightharpoonup> string) \<Rightarrow> string \<Rightarrow> string \<rightharpoonup> string" where
  "cmd_apply (CmdStore ns k v) l = set_secret ns k (Some v) l"
| "cmd_apply (CmdDelete ns k) l = set_secret ns k None l"
| "cmd_apply (CmdDeleteNamespace ns) l = clear_namespace ns l"

fun cmd_file :: "secret_json \<Rightarrow> secret_io \<Rightarrow> secret_cmd \<Rightarrow> FileSecretInner \<Rightarrow> (StoreError + unit) \<times> FileSecretInner" where
  "cmd_file json io (CmdStore ns k v) s = file_store_sync json io ns k v s"
| "cmd_file json io (CmdDelete ns k) s = file_delete_sync json io ns k s"
| "cmd_file json io (CmdDeleteNamespace ns) s = file_delete_namespace_sync json io ns s"

text \<open>A session of the store, with the outcome of each of its operations.\<close>

fun file_session :: "secret_json \<Rightarrow> (secret_io \<times> secret_cmd) list \<Rightarrow> FileSecretInner \<Rightarrow> bool list \<times> FileSecretInner" where
  "file_session json [] s = ([], s)"
| "file_session json ((io, c) # cs) s =
     (let (r, s) = cmd_file json io c s; (rs, s) = file_session json cs s in ((\<not> isl r) # rs, s))"

text \<open>
  The specification keeps two tables, the one the store answers from and the one a restart finds: every operation changes
  the first, and one that reports success makes the second equal to it.
\<close>

fun durable_session ::
  "(secret_cmd \<times> bool) list \<Rightarrow> (string \<Rightarrow> string \<rightharpoonup> string) \<times> (string \<Rightarrow> string \<rightharpoonup> string)
     \<Rightarrow> (string \<Rightarrow> string \<rightharpoonup> string) \<times> (string \<Rightarrow> string \<rightharpoonup> string)" where
  "durable_session [] ls = ls"
| "durable_session ((c, ok) # cs) (l, kept) = (let l = cmd_apply c l in durable_session cs (l, if ok then l else kept))"

text \<open>What the codec of the registry promises: a registry that was written is read back with the same secrets.\<close>

definition json_faithful :: "secret_json \<Rightarrow> bool" where
  "json_faithful json \<longleftrightarrow> (\<forall>r t. encode_registry json r = Inr t \<longrightarrow>
     (\<exists>r'. decode_registry json t = Inr r' \<and> registry_retrieve r' = registry_retrieve r))"

definition reloads_to :: "secret_json \<Rightarrow> secret_disk \<Rightarrow> (string \<Rightarrow> string \<rightharpoonup> string) \<Rightarrow> bool" where
  "reloads_to json d l \<longleftrightarrow> (\<exists>s. file_inner_new json None None d = Inr s \<and> file_holds s = l)"

lemma reloads_registry_file: "registry_file d' = registry_file d \<Longrightarrow> reloads_to json d' l = reloads_to json d l"
  by (simp add: reloads_to_def file_inner_new_def registry_load_or_default_def result_simps split: option.splits sum.splits)

lemma registry_save_failed: "registry_save json io r d = (Inl e, d') \<Longrightarrow> registry_file d' = registry_file d"
  by (auto simp: registry_save_def Let_def split: sum.splits option.splits)

lemma registry_save_ok:
  assumes "json_faithful json" and "registry_save json io r d = (Inr u, d')"
  shows "reloads_to json d' (registry_retrieve r)"
proof -
  from assms(2) obtain t where "encode_registry json r = Inr t" "registry_file d' = Some t"
    by (auto simp: registry_save_def Let_def split: sum.splits option.splits)
  with assms(1) show ?thesis
    by (force simp: json_faithful_def reloads_to_def file_inner_new_def registry_load_or_default_def)
qed

lemma cmd_file_write:
  "\<exists>f. cmd_file json io c s = file_write json io f s \<and> registry_retrieve (f (fs_registry s)) = cmd_apply c (file_holds s)"
proof (cases c)
  case (CmdStore ns k v)
  then show ?thesis by (auto simp: file_store_sync_def retrieve_registry_store intro!: exI [of _ "registry_store ns k v"])
next
  case (CmdDelete ns k)
  then show ?thesis by (auto simp: file_delete_sync_def retrieve_registry_delete intro!: exI [of _ "registry_delete ns k"])
next
  case (CmdDeleteNamespace ns)
  then show ?thesis
    by (auto simp: file_delete_namespace_sync_def retrieve_registry_delete_namespace intro!: exI [of _ "registry_delete_namespace ns"])
qed

lemma cmd_file_step:
  assumes "json_faithful json" and "cmd_file json io c s = (r, s')" and "reloads_to json (fs_disk s) l"
  shows "file_holds s' = cmd_apply c (file_holds s)"
    and "reloads_to json (fs_disk s') (if \<not> isl r then cmd_apply c (file_holds s) else l)"
proof -
  obtain f where f: "cmd_file json io c s = file_write json io f s"
    "registry_retrieve (f (fs_registry s)) = cmd_apply c (file_holds s)"
    using cmd_file_write by blast
  obtain d where d: "registry_save json io (f (fs_registry s)) (fs_disk s) = (r, d)" "s' = \<lparr>fs_registry = f (fs_registry s), fs_disk = d\<rparr>"
    using assms(2) f(1) by (auto simp: file_write_def Let_def split: prod.splits)
  show "file_holds s' = cmd_apply c (file_holds s)" using d f by simp
  show "reloads_to json (fs_disk s') (if \<not> isl r then cmd_apply c (file_holds s) else l)"
  proof (cases r)
    case (Inl e)
    then have "registry_file d = registry_file (fs_disk s)" using d(1) registry_save_failed by blast
    from reloads_registry_file [OF this] show ?thesis using Inl d(2) assms(3) by simp
  next
    case (Inr u)
    from registry_save_ok [OF assms(1) d(1) [unfolded this]] show ?thesis using Inr d(2) f(2) by simp
  qed
qed

lemma file_session_durable:
  assumes "json_faithful json" and "file_session json cs s = (rs, s')" and "reloads_to json (fs_disk s) kept"
    and "durable_session (zip (map snd cs) rs) (file_holds s, kept) = (l, kept')"
  shows "file_holds s' = l \<and> reloads_to json (fs_disk s') kept'"
  using assms(2-)
proof (induction cs arbitrary: s kept rs)
  case Nil
  then show ?case by simp
next
  case (Cons ic cs)
  obtain io c where ic: "ic = (io, c)" by (cases ic)
  obtain r s1 rs1 where st: "cmd_file json io c s = (r, s1)" "file_session json cs s1 = (rs1, s')" "rs = (\<not> isl r) # rs1"
    using Cons.prems(1) ic by (auto split: prod.splits)
  note step = cmd_file_step [OF assms(1) st(1) Cons.prems(2)]
  show ?case
    using Cons.IH [OF st(2) step(2)] Cons.prems(3) st(3) step(1) ic by (simp add: Let_def)
qed

text \<open>C31: The secrets in the file are durable. In every session, whatever system calls fail, the store answers as if
  every operation had been carried out, and a restart finds exactly the table as it was at the last operation that reported
  success: nothing that was reported stored is lost, and a failed write never leaves a broken registry file behind.
\<close>

theorem file_secrets_durable:
  assumes "json_faithful json" and "file_inner_new json None None d = Inr s"
    and "file_session json cs s = (rs, s')"
    and "durable_session (zip (map snd cs) rs) (file_holds s, file_holds s) = (l, kept)"
  shows "file_holds s' = l \<and> (\<exists>s''. file_inner_new json None None (fs_disk s') = Inr s'' \<and> file_holds s'' = kept)"
proof -
  have "fs_disk s = d" using assms(2) by (auto simp: file_inner_new_def result_simps)
  then have "reloads_to json (fs_disk s) (file_holds s)" using assms(2) by (auto simp: reloads_to_def)
  then show ?thesis using file_session_durable [OF assms(1,3) _ assms(4)] by (simp add: reloads_to_def)
qed

definition sample_table :: FileSecretRegistry where
  "sample_table = \<lparr>reg_version = 1, reg_namespaces = [(''openai'', [(''access_token'', ''T1'')])]\<rparr>"

text \<open>A codec for that one table, which refuses every other.\<close>

definition sample_json :: secret_json where
  "sample_json = \<lparr>encode_registry = (\<lambda>r. if r = sample_table then Inr ''{T1}'' else Inl ''too long''),
     decode_registry = (\<lambda>t. if t = ''{T1}'' then Inr sample_table else Inl ''syntax'')\<rparr>"

definition sample_session :: "(secret_io \<times> secret_cmd) list" where
  "sample_session = [(io_fine, CmdStore ''openai'' ''access_token'' ''T1''),
     (io_fine\<lparr>rename_err := Some ''full''\<rparr>, CmdDeleteNamespace ''openai'')]"

lemma sample_json_faithful: "json_faithful sample_json"
  by (auto simp: json_faithful_def sample_json_def split: if_splits)

lemma sample_session_result:
  "file_session sample_json sample_session \<lparr>fs_registry = secret_registry_new, fs_disk = \<lparr>registry_file = None, temp_file = None\<rparr>\<rparr> =
     ([True, False], \<lparr>fs_registry = secret_registry_new, fs_disk = \<lparr>registry_file = Some ''{T1}'', temp_file = None\<rparr>\<rparr>)"
  by (simp add: sample_session_def sample_json_def sample_table_def file_store_sync_def file_delete_namespace_sync_def file_write_def
      registry_save_def registry_store_def registry_delete_namespace_def secret_registry_new_def keys_of_def io_fine_def)

theorem file_secrets_durable_witness:
  "\<exists>s. file_inner_new sample_json None None \<lparr>registry_file = Some ''{T1}'', temp_file = None\<rparr> = Inr s \<and>
     file_holds s ''openai'' ''access_token'' = Some ''T1''"
proof -
  let ?d = "\<lparr>registry_file = None, temp_file = None\<rparr>"
  have "file_inner_new sample_json None None ?d = Inr \<lparr>fs_registry = secret_registry_new, fs_disk = ?d\<rparr>"
    by (simp add: file_inner_new_def registry_load_or_default_def)
  from file_secrets_durable [OF sample_json_faithful this sample_session_result surjective_pairing]
  show ?thesis by (auto simp: sample_session_def Let_def)
qed

section \<open>Names do not collide\<close>

lemma validate_segment_chars: "validate_secret_segment raw f = Inr s \<Longrightarrow> s = trim raw \<and> list_all segment_char s"
  by (auto simp: validate_secret_segment_def Let_def split: if_splits)

lemma segment_no_slash: "list_all segment_char s \<Longrightarrow> CHR ''/'' \<notin> set s"
  by (auto simp: list_all_iff segment_char_def is_ascii_alphanumeric_def is_ascii_digit_def is_ascii_upper_def is_ascii_lower_def)

lemma append_sep_inject: "c \<notin> set xs \<Longrightarrow> c \<notin> set ys \<Longrightarrow> xs @ c # us = ys @ c # vs \<longleftrightarrow> xs = ys \<and> us = vs"
proof (induction xs arbitrary: ys)
  case Nil
  then show ?case by (cases ys) auto
next
  case (Cons x xs)
  then show ?case by (cases ys) auto
qed

theorem provider_namespaces_distinct:
  assumes "provider_secret_namespace p q = Inr ns" and "provider_secret_namespace p' q' = Inr ns"
  shows "trim p = trim p' \<and> trim q = trim q'"
proof -
  obtain a b where a: "validate_secret_segment p ''provider_id'' = Inr a" "validate_secret_segment q ''profile_id'' = Inr b"
    "ns = ''provider/'' @ a @ CHR ''/'' # b"
    using assms(1) by (auto simp: provider_secret_namespace_def result_simps)
  obtain a' b' where a': "validate_secret_segment p' ''provider_id'' = Inr a'" "validate_secret_segment q' ''profile_id'' = Inr b'"
    "ns = ''provider/'' @ a' @ CHR ''/'' # b'"
    using assms(2) by (auto simp: provider_secret_namespace_def result_simps)
  have "a = a' \<and> b = b'" using a a' append_sep_inject [of "CHR ''/''" a a' b b']
    by (auto dest: validate_segment_chars segment_no_slash)
  then show ?thesis using a a' validate_segment_chars by blast
qed

text \<open>
  The variables of the environment store do collide: all characters but letters and digits become an underscore, which also
  separates the namespace from the key.
\<close>

theorem env_secret_names_collide:
  "secret_env_var_name ''provider/open-ai/default'' ''api_key'' = secret_env_var_name ''provider/open_ai/default'' ''api_key''"
  "secret_env_var_name ''openai'' ''prod_access_token'' = secret_env_var_name ''openai_prod'' ''access_token''"
  by code_simp+

end
