(* ===== verification/OAuthModel.thy ===== *)
theory OAuthModel
  imports SecretStore
begin

text \<open>
  The data of the OAuth client and its pure parts: \<open>crates/oneshim-core/src/ports/oauth.rs\<close> and, of
  \<open>crates/oneshim-network/src/oauth\<close>, the provider presets, PKCE, the callback page and the reading of replies of the token
  endpoint. The operations of the client, which suspend at every call of a port, are in \<open>OAuthClient\<close>.

  The URL, JSON, date, hash and base64 libraries are the fields of an \<open>oauth_env\<close>. \<open>env_add_secs\<close> is \<open>None\<close> where chrono panics on
  a date out of range. \<open>env_show_error\<close> is the text of an error of the other ports.
\<close>

section \<open>Types of the port\<close>

datatype OAuthFlowStatus = Pending | Completed | FlowFailed string | Cancelled

definition is_terminal :: "OAuthErrorKind \<Rightarrow> bool" where
  "is_terminal kind \<longleftrightarrow> kind = InvalidGrant \<or> kind = InvalidClient"

datatype RefreshResult =
    AlreadyFresh string
  | RefreshedUntil string
  | NotAuthenticated
  | ReauthNeeded OAuthErrorKind string
  | TransientFailure OAuthErrorKind string

record OAuthConnectionStatus =
  conn_provider_id :: string
  conn_connected :: bool
  conn_expires_at :: "string option"
  conn_scopes :: "string list"
  conn_api_base_url :: "string option"
  conn_has_refresh_token :: bool

record TokenExchangeResult =
  tok_access_token :: string
  tok_refresh_token :: "string option"
  tok_expires_in :: "u64 option"
  tok_scope :: "string option"
  tok_type :: "string option"

record TokenErrorResponse =
  terr_error :: string
  terr_description :: "string option"

record OAuthProviderConfig =
  pc_provider_id :: string
  pc_issuer :: string
  pc_client_id :: string
  pc_authorization_endpoint :: string
  pc_token_endpoint :: string
  pc_scopes :: "string list"
  pc_callback_port :: "16 word"
  pc_callback_path :: string
  pc_api_base_url :: string
  pc_extra_params :: "(string \<times> string) list"

record oauth_env =
  env_parse_token :: "string \<Rightarrow> string + TokenExchangeResult"
  env_parse_token_error :: "string \<Rightarrow> TokenErrorResponse option"
  env_status_text :: "nat \<Rightarrow> string"
  env_parse_time :: "string \<Rightarrow> time option"
  env_show_time :: "time \<Rightarrow> string"
  env_add_secs :: "time \<Rightarrow> int \<Rightarrow> time option"
  env_show_error :: "CoreError \<Rightarrow> string"
  env_url_with_query :: "string \<Rightarrow> (string \<times> string) list \<Rightarrow> string + string"
  env_sha256 :: "string \<Rightarrow> u8 list"
  env_base64url :: "u8 list \<Rightarrow> string"

section \<open>Providers\<close>

definition openai_codex :: OAuthProviderConfig where
  "openai_codex = \<lparr>pc_provider_id = ''openai'', pc_issuer = ''https://auth.openai.com'',
     pc_client_id = ''app_EMoamEEZ73f0CkXaXp7hrann'', pc_authorization_endpoint = ''https://auth.openai.com/oauth/authorize'',
     pc_token_endpoint = ''https://auth.openai.com/oauth/token'',
     pc_scopes = [''openid'', ''profile'', ''email'', ''offline_access''],
     pc_callback_port = 1455, pc_callback_path = ''/auth/callback'', pc_api_base_url = ''https://chatgpt.com/backend-api/codex'',
     pc_extra_params = []\<rparr>"

definition google_cloud_vision :: "string \<Rightarrow> OAuthProviderConfig" where
  "google_cloud_vision client_id = \<lparr>pc_provider_id = ''google'', pc_issuer = ''https://accounts.google.com'',
     pc_client_id = client_id, pc_authorization_endpoint = ''https://accounts.google.com/o/oauth2/v2/auth'',
     pc_token_endpoint = ''https://oauth2.googleapis.com/token'',
     pc_scopes = [''https://www.googleapis.com/auth/cloud-platform''],
     pc_callback_port = 1456, pc_callback_path = ''/auth/callback'',
     pc_api_base_url = ''https://vision.googleapis.com/v1/images:annotate'',
     pc_extra_params = [(''access_type'', ''offline''), (''include_granted_scopes'', ''true'')]\<rparr>"

definition redirect_uri :: "OAuthProviderConfig \<Rightarrow> string" where
  "redirect_uri c = ''http://localhost:'' @ show_nat (unat (pc_callback_port c)) @ pc_callback_path c"

definition authorization_url :: "oauth_env \<Rightarrow> OAuthProviderConfig \<Rightarrow> string \<Rightarrow> string \<Rightarrow> string + string" where
  "authorization_url env c state pkce_challenge =
     env_url_with_query env (pc_authorization_endpoint c)
       ([(''response_type'', ''code''), (''client_id'', pc_client_id c), (''redirect_uri'', redirect_uri c),
         (''scope'', join_with CHR '' '' (pc_scopes c)), (''state'', state), (''code_challenge'', pkce_challenge),
         (''code_challenge_method'', ''S256'')] @ pc_extra_params c)"

section \<open>PKCE\<close>

record PkceChallenge =
  pkce_verifier :: string
  pkce_challenge :: string

text \<open>\<open>bytes\<close> and the bytes of the state are the random bytes drawn.\<close>

definition generate_pkce :: "oauth_env \<Rightarrow> u8 list \<Rightarrow> PkceChallenge" where
  "generate_pkce env bytes =
     (let verifier = env_base64url env bytes
      in \<lparr>pkce_verifier = verifier, pkce_challenge = env_base64url env (env_sha256 env verifier)\<rparr>)"

definition generate_state :: "oauth_env \<Rightarrow> u8 list \<Rightarrow> string" where
  "generate_state env bytes = env_base64url env bytes"

section \<open>The callback page\<close>

record CallbackResult =
  cb_code :: string
  cb_state :: string

definition success_html :: string where
  "success_html =
    ''<!DOCTYPE html>'' @ [CHR 0x0A] @ ''<html><head><title>Maekon '' @ [CHR 0xE2, CHR 0x80, CHR 0x94] @
    '' Authentication Complete</title>'' @ [CHR 0x0A] @
    ''<style>body{font-family:system-ui;display:flex;justify-content:center;align-items:center;min-height:100vh;margin:0;background:#f8f9fa}'' @
    [CHR 0x0A] @
    ''.card{background:#fff;border-radius:12px;padding:2rem 3rem;box-shadow:0 2px 8px rgba(0,0,0,.1);text-align:center}'' @
    [CHR 0x0A] @ ''h1{color:#22c55e;margin:0 0 .5rem}p{color:#6b7280}</style></head>'' @ [CHR 0x0A] @ ''<body><div class='' @
    [CHR 0x22] @ ''card'' @ [CHR 0x22] @
    ''><h1>&#10003; Connected</h1><p>You can close this tab and return to Maekon.</p></div></body></html>''"

definition error_html_head :: string where
  "error_html_head =
    ''<!DOCTYPE html>'' @ [CHR 0x0A] @ ''<html><head><title>Maekon '' @ [CHR 0xE2, CHR 0x80, CHR 0x94] @
    '' Authentication Error</title>'' @ [CHR 0x0A] @
    ''<style>body{font-family:system-ui;display:flex;justify-content:center;align-items:center;min-height:100vh;margin:0;background:#f8f9fa}'' @
    [CHR 0x0A] @
    ''.card{background:#fff;border-radius:12px;padding:2rem 3rem;box-shadow:0 2px 8px rgba(0,0,0,.1);text-align:center}'' @
    [CHR 0x0A] @ ''h1{color:#ef4444;margin:0 0 .5rem}p{color:#6b7280}</style></head>'' @ [CHR 0x0A] @ ''<body><div class='' @
    [CHR 0x22] @ ''card'' @ [CHR 0x22] @ ''><h1>&#10007; Error</h1><p>''"

definition error_html_tail :: string where
  "error_html_tail =
    ''</p><p>Please close this tab and try again in Maekon.</p></div></body></html>''"

definition error_html :: "string \<Rightarrow> string \<Rightarrow> string" where
  "error_html err description = error_html_head @ err @ '': '' @ description @ error_html_tail"

text \<open>
  The handler of \<open>/auth/callback\<close>: the page, what it sends to the waiting flow, and whether the sender is still there. Every branch
  takes the sender, so the first request decides.
\<close>

definition callback_handler ::
  "string \<Rightarrow> (string \<rightharpoonup> string) \<Rightarrow> bool \<Rightarrow> string \<times> (string + CallbackResult) option" where
  "callback_handler expected params sender =
     (let send = (\<lambda>r. if sender then Some r else None)
      in case params ''error'' of
           Some err \<Rightarrow>
             let desc = (case params ''error_description'' of Some d \<Rightarrow> d | None \<Rightarrow> [])
             in (error_html err desc, send (Inl (err @ '': '' @ desc)))
         | None \<Rightarrow>
             let state = (case params ''state'' of Some s \<Rightarrow> s | None \<Rightarrow> [])
             in if state \<noteq> expected
                then (error_html ''state_mismatch'' ''The state parameter does not match. Please try again.'',
                      send (Inl ''state mismatch''))
                else (case params ''code'' of
                        None \<Rightarrow> (error_html ''missing_code'' ''No authorization code received.'', send (Inl ''missing code parameter''))
                      | Some code \<Rightarrow> (success_html, send (Inr \<lparr>cb_code = code, cb_state = state\<rparr>))))"

text \<open>What \<open>wait_for_callback\<close> sees first: the requests that reach the page, the cancel signal, the five minutes or a taken port.\<close>

datatype wait_outcome = Requests "(string \<rightharpoonup> string) list" | CancelSignal | TimedOut | BindFailed string

fun first_sent :: "string \<Rightarrow> bool \<Rightarrow> (string \<rightharpoonup> string) list \<Rightarrow> (string + CallbackResult) option" where
  "first_sent expected sender [] = None"
| "first_sent expected sender (r # rs) =
     (case snd (callback_handler expected r sender) of Some x \<Rightarrow> Some x | None \<Rightarrow> first_sent expected False rs)"

text \<open>The error is always an \<open>OAuthError\<close> of the provider \<open>callback\<close>; here it is its message.\<close>

definition wait_for_callback :: "16 word \<Rightarrow> string \<Rightarrow> wait_outcome \<Rightarrow> string + CallbackResult" where
  "wait_for_callback port expected_state out =
     (case out of
        BindFailed e \<Rightarrow> Inl (''port '' @ show_nat (unat port) @ '' already in use (is Codex CLI running?): '' @ e)
      | CancelSignal \<Rightarrow> Inl ''flow cancelled by user''
      | TimedOut \<Rightarrow> Inl (''OAuth flow timed out '' @ [CHR 0xE2, CHR 0x80, CHR 0x94] @ '' no browser callback received within 5 minutes'')
      | Requests rs \<Rightarrow>
          (case first_sent expected_state True rs of
             None \<Rightarrow> Inl ''callback channel closed unexpectedly''
           | Some r \<Rightarrow> r))"

text \<open>\<open>Display\<close> of \<open>CoreError::OAuthError\<close> with the code \<open>oauth.failed\<close>.\<close>

definition show_oauth_error :: "string \<Rightarrow> string \<Rightarrow> string" where
  "show_oauth_error provider msg = ''OAuth error [oauth.failed] for provider '' @ provider @ '': '' @ msg"

fun contains_text :: "string \<Rightarrow> string \<Rightarrow> bool" where
  "contains_text p [] = (p = [])"
| "contains_text p (c # cs) = (starts_with p (c # cs) \<or> contains_text p cs)"

text \<open>The status that a flow gets when no code arrived.\<close>

definition failed_wait_status :: "string \<Rightarrow> OAuthFlowStatus" where
  "failed_wait_status message =
     (let msg = show_oauth_error ''callback'' message
      in if contains_text ''cancelled'' msg then Cancelled else FlowFailed msg)"

section \<open>Replies of the token endpoint\<close>

text \<open>A request that could not be sent (with whether it timed out or could not connect), a reply whose body could not be read, or
  a status and a body.\<close>

datatype http_reply = SendFailed bool string | BodyFailed string | Reply nat string

definition is_success :: "nat \<Rightarrow> bool" where "is_success status \<longleftrightarrow> 200 \<le> status \<and> status < 300"

definition classify_error_response :: "oauth_env \<Rightarrow> nat \<Rightarrow> string \<Rightarrow> OAuthErrorKind" where
  "classify_error_response env status body =
     (if status = 429 then RateLimited
      else if 500 \<le> status \<and> status < 600 then ServerError
      else case env_parse_token_error env body of
             Some err \<Rightarrow>
               if terr_error err = ''invalid_grant'' then InvalidGrant
               else if terr_error err = ''invalid_client'' then InvalidClient
               else if terr_error err = ''invalid_scope'' then InvalidScope
               else if terr_error err = ''server_error'' then ServerError
               else UnknownKind (terr_error err)
           | None \<Rightarrow> UnknownKind (''HTTP '' @ show_nat status))"

definition refresh_reply :: "oauth_env \<Rightarrow> OAuthProviderConfig \<Rightarrow> http_reply \<Rightarrow> CoreError + TokenExchangeResult" where
  "refresh_reply env c rep =
     (case rep of
        SendFailed connection e \<Rightarrow>
          Inl (COAuthRefreshError (pc_provider_id c) (if connection then NetworkError else UnknownKind e)
            (''token refresh request failed: '' @ e))
      | BodyFailed e \<Rightarrow>
          Inl (COAuthRefreshError (pc_provider_id c) NetworkError (''failed to read refresh response: '' @ e))
      | Reply status body \<Rightarrow>
          if \<not> is_success status
          then let desc = (case env_parse_token_error env body of
                             Some err \<Rightarrow> (case terr_description err of Some d \<Rightarrow> d | None \<Rightarrow> []) | None \<Rightarrow> [])
               in Inl (COAuthRefreshError (pc_provider_id c) (classify_error_response env status body)
                    (''refresh failed (HTTP '' @ show_nat status @ ''): '' @ desc))
          else (case env_parse_token env body of
                  Inl e \<Rightarrow> Inl (COAuthRefreshError (pc_provider_id c) (UnknownKind ''parse_error'')
                    (''failed to parse refresh response: '' @ e))
                | Inr t \<Rightarrow> Inr t))"

definition exchange_reply :: "oauth_env \<Rightarrow> OAuthProviderConfig \<Rightarrow> http_reply \<Rightarrow> CoreError + TokenExchangeResult" where
  "exchange_reply env c rep =
     (case rep of
        SendFailed _ e \<Rightarrow> Inl (COAuthError (pc_provider_id c) (''token exchange request failed: '' @ e))
      | BodyFailed e \<Rightarrow> Inl (COAuthError (pc_provider_id c) (''failed to read token response: '' @ e))
      | Reply status body \<Rightarrow>
          if \<not> is_success status
          then (case env_parse_token_error env body of
                  Some err \<Rightarrow> Inl (COAuthError (pc_provider_id c)
                    (terr_error err @ '': '' @ (case terr_description err of Some d \<Rightarrow> d | None \<Rightarrow> [])))
                | None \<Rightarrow> Inl (COAuthError (pc_provider_id c) (''token exchange returned '' @ env_status_text env status)))
          else (case env_parse_token env body of
                  Inl e \<Rightarrow> Inl (COAuthError (pc_provider_id c) (''failed to parse token response: '' @ e))
                | Inr t \<Rightarrow> Inr t))"

section \<open>Lemmas\<close>

declare show_nat.simps [simp del]

text \<open>A code is handed to a flow only by the first request to the page, and only when it carries the state of the flow.\<close>

lemma first_sent_silent: "first_sent expected False rs = None"
  by (induction rs) (auto simp: callback_handler_def Let_def split: option.splits)

lemma callback_handler_sends: "snd (callback_handler expected r True) \<noteq> None"
  by (simp add: callback_handler_def Let_def split: option.split)

theorem code_needs_state:
  assumes "wait_for_callback port expected out = Inr cb"
  shows "\<exists>r rs. out = Requests (r # rs) \<and> r ''error'' = None \<and> r ''code'' = Some (cb_code cb)
    \<and> (case r ''state'' of Some s \<Rightarrow> s | None \<Rightarrow> []) = expected \<and> cb_state cb = expected"
proof -
  from assms obtain rs where rs: "out = Requests rs" "first_sent expected True rs = Some (Inr cb)"
    by (auto simp: wait_for_callback_def split: wait_outcome.splits option.splits)
  then obtain r rs' where r: "rs = r # rs'" by (cases rs) auto
  obtain x where x: "snd (callback_handler expected r True) = Some x"
    using callback_handler_sends [of expected r] by blast
  then have "x = Inr cb" using rs r by simp
  with x show ?thesis using rs r
    by (auto simp: callback_handler_def Let_def split: option.splits if_splits)
qed

text \<open>
  Any request to the page ends the flow, also one that does not know the state: a foreign page that opens the callback address
  makes the sign-in fail. And an error page repeats the texts of the request as they are, markup included.
\<close>

theorem foreign_request_ends_flow:
  assumes "r ''error'' = None" and "r ''state'' \<noteq> Some expected" and "expected \<noteq> []"
  shows "wait_for_callback port expected (Requests (r # rs)) = Inl ''state mismatch''"
  using assms by (auto simp: wait_for_callback_def callback_handler_def Let_def split: option.splits)

theorem error_page_repeats_request:
  assumes "r ''error'' = Some e" and "r ''error_description'' = Some d"
  shows "\<exists>before after. fst (callback_handler expected r sender) = before @ e @ '': '' @ d @ after"
  using assms
  by (intro exI [of _ error_html_head] exI [of _ error_html_tail]) (simp add: callback_handler_def error_html_def)

text \<open>A refusal whose description contains the word is taken for a cancellation by the user.\<close>

theorem refusal_taken_for_cancel:
  assumes "r ''error'' = Some ''access_denied''" and "r ''error_description'' = Some ''plan was cancelled''"
  shows "map_sum failed_wait_status id (wait_for_callback port expected (Requests [r])) = Inl Cancelled"
  using assms by (simp add: wait_for_callback_def callback_handler_def Let_def failed_wait_status_def show_oauth_error_def)

text \<open>A refresh that fails always fails with a classified error.\<close>

lemma refresh_reply_error: "refresh_reply env c rep = Inl e \<Longrightarrow> \<exists>kind msg. e = COAuthRefreshError (pc_provider_id c) kind msg"
  by (auto simp: refresh_reply_def Let_def split: http_reply.splits if_splits sum.splits)

end
