(* ===== verification/OAuthClient.thy ===== *)
theory OAuthClient
  imports OAuthModel
begin

text \<open>
  The operations of \<open>OAuthClient\<close> (\<open>crates/oneshim-network/src/oauth/mod.rs\<close>) and their interleaving.

  An asynchronous function is a tree of its suspension points: each node is one call of a port, of the network, the clock or a
  lock, and the answer selects the rest. Functions are written in continuation-passing style, one continuation for the result
  and, where a panic is possible, one for the unwinding, which drops the guards. Every task of the runtime is such a tree, and
  \<open>schedule\<close> lets one of them advance by one node, so that all interleavings of the calls are runs of the model.

  \<^item> \<open>TryAcquire\<close> and \<open>Release\<close> are the \<open>compare_exchange\<close> and the drop guard of \<open>refresh_in_progress\<close>.
  \<^item> \<open>LockFlows\<close> and \<open>UnlockFlows\<close> are the mutex of the active flows; nobody sees the map while it is locked.
  \<^item> \<open>WaitCallback\<close> ends with a cancel signal only when the sender of the flow was used or dropped.
\<close>

section \<open>Programs\<close>

record ActiveFlow =
  fl_provider_id :: string
  fl_pkce_verifier :: string
  fl_cancel_tx :: bool
  fl_status :: OAuthFlowStatus

type_synonym flows = "(string \<times> ActiveFlow) list"
type_synonym form = "(string \<times> string) list"

datatype ret =
    RToken "CoreError + string option"
  | RRefresh "CoreError + RefreshResult"
  | RUnit "CoreError + unit"
  | RStatus "CoreError + OAuthFlowStatus"
  | RConnection "CoreError + OAuthConnectionStatus"
  | RHandle "CoreError + string \<times> string"
  | RFlowTask

text \<open>The random values of a new flow: the bytes of the verifier, the bytes of the state and the identifier.\<close>

type_synonym random = "u8 list \<times> u8 list \<times> string"

datatype prog =
    Done ret
  | Panicked
  | Retrieve string string "CoreError + string option \<Rightarrow> prog"
  | StoreSecret string string string "CoreError + unit \<Rightarrow> prog"
  | DeleteNamespace string "CoreError + unit \<Rightarrow> prog"
  | TryAcquire "bool \<Rightarrow> prog"
  | Release prog
  | Now "time \<Rightarrow> prog"
  | Post string form "http_reply \<Rightarrow> prog"
  | LockFlows "flows \<Rightarrow> prog"
  | UnlockFlows flows prog
  | ProbePort "16 word" "bool \<Rightarrow> prog"
  | Random "random \<Rightarrow> prog"
  | WaitCallback string "16 word" "wait_outcome \<Rightarrow> prog"
  | Spawn prog prog

section \<open>The client\<close>

type_synonym providers = "string \<rightharpoonup> OAuthProviderConfig"

definition client_providers :: "OAuthProviderConfig list \<Rightarrow> providers" where
  "client_providers cs = foldl (\<lambda>m c. m(pc_provider_id c \<mapsto> c)) Map.empty cs"

definition get_provider :: "providers \<Rightarrow> string \<Rightarrow> CoreError + OAuthProviderConfig" where
  "get_provider ps provider_id =
     (case ps provider_id of Some c \<Rightarrow> Inr c | None \<Rightarrow> Inl (COAuthError provider_id ''unknown OAuth provider''))"

definition refresh_form :: "OAuthProviderConfig \<Rightarrow> string \<Rightarrow> form" where
  "refresh_form c refresh_tok =
     [(''grant_type'', ''refresh_token''), (''refresh_token'', refresh_tok), (''client_id'', pc_client_id c)]"

definition refresh_token :: "oauth_env \<Rightarrow> OAuthProviderConfig \<Rightarrow> string \<Rightarrow> (CoreError + TokenExchangeResult \<Rightarrow> prog) \<Rightarrow> prog" where
  "refresh_token env c refresh_tok k =
     Post (pc_token_endpoint c) (refresh_form c refresh_tok) (\<lambda>rep. k (refresh_reply env c rep))"

definition exchange_code ::
  "oauth_env \<Rightarrow> OAuthProviderConfig \<Rightarrow> string \<Rightarrow> string \<Rightarrow> (CoreError + TokenExchangeResult \<Rightarrow> prog) \<Rightarrow> prog" where
  "exchange_code env c code verifier k =
     Post (pc_token_endpoint c)
       [(''grant_type'', ''authorization_code''), (''code'', code), (''redirect_uri'', redirect_uri c),
        (''client_id'', pc_client_id c), (''code_verifier'', verifier)]
       (\<lambda>rep. k (exchange_reply env c rep))"

text \<open>\<open>?\<close> on the answer of a port.\<close>

definition on_ok :: "(CoreError \<Rightarrow> prog) \<Rightarrow> ('a \<Rightarrow> prog) \<Rightarrow> CoreError + 'a \<Rightarrow> prog" where
  "on_ok failed k r = (case r of Inl e \<Rightarrow> failed e | Inr a \<Rightarrow> k a)"

definition store_if :: "string \<Rightarrow> string \<Rightarrow> string option \<Rightarrow> (CoreError \<Rightarrow> prog) \<Rightarrow> prog \<Rightarrow> prog" where
  "store_if p key v failed k =
     (case v of None \<Rightarrow> k | Some v \<Rightarrow> StoreSecret p key v (on_ok failed (\<lambda>_. k)))"

definition store_tokens_static ::
  "oauth_env \<Rightarrow> string \<Rightarrow> TokenExchangeResult \<Rightarrow> prog \<Rightarrow> (CoreError + unit \<Rightarrow> prog) \<Rightarrow> prog" where
  "store_tokens_static env p result panicked k =
     (let failed = (\<lambda>e. k (Inl e));
          scopes = store_if p ''scopes'' (tok_scope result) failed (k (Inr ()))
      in StoreSecret p ''access_token'' (tok_access_token result) (on_ok failed (\<lambda>_.
         store_if p ''refresh_token'' (tok_refresh_token result) failed
           (case tok_expires_in result of
              None \<Rightarrow> scopes
            | Some expires_in \<Rightarrow> Now (\<lambda>now.
                case env_add_secs env now (sint expires_in) of
                  None \<Rightarrow> panicked
                | Some expires_at \<Rightarrow> StoreSecret p ''expires_at'' (env_show_time env expires_at) (on_ok failed (\<lambda>_. scopes)))))))"

definition is_token_valid :: "oauth_env \<Rightarrow> string \<Rightarrow> (bool \<Rightarrow> prog) \<Rightarrow> prog" where
  "is_token_valid env p k =
     Retrieve p ''expires_at'' (\<lambda>r.
       case r of
         Inr (Some expires_str) \<Rightarrow>
           (case env_parse_time env expires_str of
              Some expires_at \<Rightarrow> Now (\<lambda>now. k (now < expires_at - secs 60))
            | None \<Rightarrow> k False)
       | _ \<Rightarrow> k False)"

definition try_refresh :: "oauth_env \<Rightarrow> providers \<Rightarrow> string \<Rightarrow> prog \<Rightarrow> (CoreError + bool \<Rightarrow> prog) \<Rightarrow> prog" where
  "try_refresh env ps p panicked k =
     TryAcquire (\<lambda>acquired.
       if \<not> acquired then k (Inr False)
       else let finish = (\<lambda>r. Release (k r)); failed = (\<lambda>e. finish (Inl e))
            in on_ok failed (\<lambda>config.
                 Retrieve p ''refresh_token'' (on_ok failed (\<lambda>refresh_tok.
                   case refresh_tok of
                     None \<Rightarrow> finish (Inr False)
                   | Some rt \<Rightarrow>
                       refresh_token env config rt (\<lambda>res.
                         case res of
                           Inr result \<Rightarrow> store_tokens_static env p result (Release panicked) (on_ok failed (\<lambda>_. finish (Inr True)))
                         | Inl _ \<Rightarrow> finish (Inr False)))))
                 (get_provider ps p))"

definition get_access_token :: "oauth_env \<Rightarrow> providers \<Rightarrow> string \<Rightarrow> prog" where
  "get_access_token env ps p =
     (let failed = (\<lambda>e. Done (RToken (Inl e)))
      in Retrieve p ''access_token'' (on_ok failed (\<lambda>token.
           case token of
             None \<Rightarrow> Done (RToken (Inr None))
           | Some _ \<Rightarrow>
               is_token_valid env p (\<lambda>valid.
                 if valid then Done (RToken (Inr token))
                 else try_refresh env ps p Panicked (on_ok failed (\<lambda>refreshed.
                        if refreshed then Retrieve p ''access_token'' (\<lambda>r. Done (RToken r))
                        else Done (RToken (Inr None))))))))"

text \<open>The outcome of a refresh that the provider refused.\<close>

definition refused_refresh :: "oauth_env \<Rightarrow> CoreError \<Rightarrow> RefreshResult" where
  "refused_refresh env e =
     (case e of
        COAuthRefreshError _ kind message \<Rightarrow>
          if is_terminal kind then ReauthNeeded kind message else TransientFailure kind message
      | _ \<Rightarrow> let msg = env_show_error env e in TransientFailure (UnknownKind msg) msg)"

definition refresh_now :: "oauth_env \<Rightarrow> providers \<Rightarrow> string \<Rightarrow> prog \<Rightarrow> (CoreError + RefreshResult \<Rightarrow> prog) \<Rightarrow> prog" where
  "refresh_now env ps p panicked finish =
     (let failed = (\<lambda>e. finish (Inl e))
      in on_ok failed (\<lambda>config.
           Retrieve p ''refresh_token'' (on_ok failed (\<lambda>refresh_tok.
             case refresh_tok of
               None \<Rightarrow> finish (Inr (ReauthNeeded (UnknownKind ''no_refresh_token'') ''no refresh token available''))
             | Some rt \<Rightarrow>
                 refresh_token env config rt (\<lambda>res.
                   case res of
                     Inr result \<Rightarrow>
                       store_tokens_static env p result panicked (on_ok failed (\<lambda>_.
                         Retrieve p ''expires_at'' (on_ok failed (\<lambda>expires.
                           finish (Inr (RefreshedUntil (case expires of Some s \<Rightarrow> s | None \<Rightarrow> [])))))))
                   | Inl e \<Rightarrow> finish (Inr (refused_refresh env e))))))
           (get_provider ps p))"

definition refresh_access_token :: "oauth_env \<Rightarrow> providers \<Rightarrow> string \<Rightarrow> int \<Rightarrow> prog" where
  "refresh_access_token env ps p min_valid_for_secs =
     Retrieve p ''access_token'' (on_ok (\<lambda>e. Done (RRefresh (Inl e))) (\<lambda>token.
       case token of
         None \<Rightarrow> Done (RRefresh (Inr NotAuthenticated))
       | Some _ \<Rightarrow>
           TryAcquire (\<lambda>acquired.
             if \<not> acquired then Done (RRefresh (Inr (AlreadyFresh [])))
             else let finish = (\<lambda>r. Release (Done (RRefresh r)));
                      proceed = refresh_now env ps p (Release Panicked) finish
                  in Retrieve p ''expires_at'' (\<lambda>r.
                       case r of
                         Inr (Some expires_str) \<Rightarrow>
                           (case env_parse_time env expires_str of
                              Some expires_at \<Rightarrow>
                                Now (\<lambda>now. if expires_at - now > secs min_valid_for_secs
                                           then finish (Inr (AlreadyFresh expires_str)) else proceed)
                            | None \<Rightarrow> proceed)
                       | _ \<Rightarrow> proceed))))"

definition connection_status :: "oauth_env \<Rightarrow> providers \<Rightarrow> string \<Rightarrow> prog" where
  "connection_status env ps p =
     (let failed = (\<lambda>e. Done (RConnection (Inl e)));
          done = (\<lambda>token expires scopes refresh connected. Done (RConnection (Inr
            \<lparr>conn_provider_id = p, conn_connected = connected, conn_expires_at = expires,
             conn_scopes = (case scopes of Some s \<Rightarrow> split_whitespace s | None \<Rightarrow> []),
             conn_api_base_url = map_option pc_api_base_url (ps p), conn_has_refresh_token = (refresh \<noteq> None)\<rparr>)))
      in Retrieve p ''access_token'' (on_ok failed (\<lambda>token.
         Retrieve p ''expires_at'' (on_ok failed (\<lambda>expires.
         Retrieve p ''scopes'' (on_ok failed (\<lambda>scopes.
         Retrieve p ''refresh_token'' (on_ok failed (\<lambda>refresh.
           if token = None then done token expires scopes refresh False
           else is_token_valid env p (done token expires scopes refresh))))))))))"

subsection \<open>Flows\<close>

definition set_flow_status :: "string \<Rightarrow> OAuthFlowStatus \<Rightarrow> flows \<Rightarrow> flows" where
  "set_flow_status i st fs = (case map_of fs i of None \<Rightarrow> fs | Some f \<Rightarrow> AList.update i (f\<lparr>fl_status := st\<rparr>) fs)"

text \<open>The task that waits for the browser. It holds the lock of the flows from the callback until the status is set.\<close>

definition flow_task :: "oauth_env \<Rightarrow> OAuthProviderConfig \<Rightarrow> string \<Rightarrow> string \<Rightarrow> string \<Rightarrow> string \<Rightarrow> prog" where
  "flow_task env config i p state verifier =
     WaitCallback i (pc_callback_port config) (\<lambda>out.
       LockFlows (\<lambda>fs.
         let finish = (\<lambda>st. UnlockFlows (set_flow_status i st fs) (Done RFlowTask))
         in case wait_for_callback (pc_callback_port config) state out of
              Inr callback \<Rightarrow>
                exchange_code env config (cb_code callback) verifier (\<lambda>res.
                  case res of
                    Inr tokens \<Rightarrow>
                      store_tokens_static env p tokens (UnlockFlows fs Panicked)
                        (on_ok (\<lambda>e. finish (FlowFailed (''token storage failed: '' @ env_show_error env e))) (\<lambda>_. finish Completed))
                  | Inl e \<Rightarrow> finish (FlowFailed (env_show_error env e)))
            | Inl msg \<Rightarrow> finish (failed_wait_status msg)))"

definition start_flow :: "oauth_env \<Rightarrow> providers \<Rightarrow> string \<Rightarrow> prog" where
  "start_flow env ps p =
     on_ok (\<lambda>e. Done (RHandle (Inl e))) (\<lambda>config.
       ProbePort (pc_callback_port config) (\<lambda>available.
         if \<not> available
         then Done (RHandle (Inl (COAuthError p (''port '' @ show_nat (unat (pc_callback_port config)) @
                '' is already in use (is Codex CLI running?). Please close other applications using this port and try again.''))))
         else Random (\<lambda>(verifier_bytes, state_bytes, flow_id).
           let pkce = generate_pkce env verifier_bytes; state = generate_state env state_bytes
           in case authorization_url env config state (pkce_challenge pkce) of
                Inl e \<Rightarrow> Done (RHandle (Inl (COAuthError p (''invalid authorization endpoint URL: '' @ e))))
              | Inr auth_url \<Rightarrow>
                  LockFlows (\<lambda>fs.
                    UnlockFlows
                      (AList.update flow_id \<lparr>fl_provider_id = p, fl_pkce_verifier = pkce_verifier pkce, fl_cancel_tx = True,
                         fl_status = Pending\<rparr> fs)
                      (Spawn (flow_task env config flow_id p state (pkce_verifier pkce))
                        (Done (RHandle (Inr (flow_id, auth_url)))))))))
       (get_provider ps p)"

definition flow_over :: "OAuthFlowStatus \<Rightarrow> bool" where "flow_over st \<longleftrightarrow> st \<noteq> Pending"

definition flow_status :: "string \<Rightarrow> prog" where
  "flow_status i =
     LockFlows (\<lambda>fs.
       case map_of fs i of
         None \<Rightarrow> UnlockFlows fs (Done (RStatus (Inl (COAuthError ''unknown'' (''flow '' @ i @ '' not found'')))))
       | Some f \<Rightarrow> UnlockFlows (if flow_over (fl_status f) then AList.delete i fs else fs) (Done (RStatus (Inr (fl_status f)))))"

definition cancel_flow :: "string \<Rightarrow> prog" where
  "cancel_flow i =
     LockFlows (\<lambda>fs.
       case map_of fs i of
         None \<Rightarrow> UnlockFlows fs (Done (RUnit (Inr ())))
       | Some f \<Rightarrow> UnlockFlows (AList.update i (f\<lparr>fl_cancel_tx := False, fl_status := Cancelled\<rparr>) fs) (Done (RUnit (Inr ()))))"

definition revoke :: "string \<Rightarrow> prog" where
  "revoke p =
     DeleteNamespace p (on_ok (\<lambda>e. Done (RUnit (Inl e))) (\<lambda>_.
       LockFlows (\<lambda>fs. UnlockFlows (filter (\<lambda>(_, f). fl_provider_id f \<noteq> p) fs) (Done (RUnit (Inr ()))))))"

section \<open>Interleaving\<close>

record 's world =
  w_store :: 's
  refresh_in_progress :: bool
  active_flows :: flows
  flows_locked :: bool
  w_tasks :: "prog list"

text \<open>What the environment answers at a node.\<close>

datatype 'io node_answer =
    AnIo 'io | AnTime time | AnReply http_reply | AnPort bool | AnRandom random | AnWait wait_outcome | AnNone

definition signalled :: "string \<Rightarrow> flows \<Rightarrow> bool" where
  "signalled i fs \<longleftrightarrow> (case map_of fs i of Some f \<Rightarrow> \<not> fl_cancel_tx f | None \<Rightarrow> True)"

text \<open>One node: the rest of the task, the tasks it spawned and the world after it; \<open>None\<close> where the task cannot go on.\<close>

definition advance :: "('s, 'io) secret_ops \<Rightarrow> 'io node_answer \<Rightarrow> prog \<Rightarrow> 's world \<Rightarrow> (prog \<times> prog list \<times> 's world) option" where
  "advance ops a q w =
     (case q of
        Done _ \<Rightarrow> None
      | Panicked \<Rightarrow> None
      | Retrieve ns key k \<Rightarrow>
          (case a of AnIo io \<Rightarrow> Some (k (op_retrieve ops io ns key (w_store w)), [], w) | _ \<Rightarrow> None)
      | StoreSecret ns key v k \<Rightarrow>
          (case a of
             AnIo io \<Rightarrow> (case op_store ops io ns key v (w_store w) of (r, s) \<Rightarrow> Some (k r, [], w\<lparr>w_store := s\<rparr>))
           | _ \<Rightarrow> None)
      | DeleteNamespace ns k \<Rightarrow>
          (case a of
             AnIo io \<Rightarrow> (case op_delete_namespace ops io ns (w_store w) of (r, s) \<Rightarrow> Some (k r, [], w\<lparr>w_store := s\<rparr>))
           | _ \<Rightarrow> None)
      | TryAcquire k \<Rightarrow>
          (case a of AnNone \<Rightarrow> Some (k (\<not> refresh_in_progress w), [], w\<lparr>refresh_in_progress := True\<rparr>) | _ \<Rightarrow> None)
      | Release r \<Rightarrow> (case a of AnNone \<Rightarrow> Some (r, [], w\<lparr>refresh_in_progress := False\<rparr>) | _ \<Rightarrow> None)
      | Now k \<Rightarrow> (case a of AnTime t \<Rightarrow> Some (k t, [], w) | _ \<Rightarrow> None)
      | Post _ _ k \<Rightarrow> (case a of AnReply r \<Rightarrow> Some (k r, [], w) | _ \<Rightarrow> None)
      | LockFlows k \<Rightarrow>
          (case a of
             AnNone \<Rightarrow> if flows_locked w then None else Some (k (active_flows w), [], w\<lparr>flows_locked := True\<rparr>)
           | _ \<Rightarrow> None)
      | UnlockFlows fs r \<Rightarrow> (case a of AnNone \<Rightarrow> Some (r, [], w\<lparr>active_flows := fs, flows_locked := False\<rparr>) | _ \<Rightarrow> None)
      | ProbePort _ k \<Rightarrow> (case a of AnPort b \<Rightarrow> Some (k b, [], w) | _ \<Rightarrow> None)
      | Random k \<Rightarrow> (case a of AnRandom r \<Rightarrow> Some (k r, [], w) | _ \<Rightarrow> None)
      | WaitCallback i _ k \<Rightarrow>
          (case a of
             AnWait out \<Rightarrow> if out = CancelSignal \<and> \<not> signalled i (active_flows w) then None else Some (k out, [], w)
           | _ \<Rightarrow> None)
      | Spawn t r \<Rightarrow> (case a of AnNone \<Rightarrow> Some (r, [t], w) | _ \<Rightarrow> None))"

definition schedule :: "('s, 'io) secret_ops \<Rightarrow> nat \<times> 'io node_answer \<Rightarrow> 's world \<Rightarrow> 's world option" where
  "schedule ops ia w =
     (case ia of (i, a) \<Rightarrow>
        if i < length (w_tasks w)
        then (case advance ops a (w_tasks w ! i) w of
                None \<Rightarrow> None
              | Some (q, new, w') \<Rightarrow> Some (w'\<lparr>w_tasks := (w_tasks w)[i := q] @ new\<rparr>))
        else None)"

datatype api_call =
    GetAccessToken string | RefreshAccessToken string int | ConnectionStatus string | StartFlow string | FlowStatus string
  | CancelFlow string | Revoke string

fun api_prog :: "oauth_env \<Rightarrow> providers \<Rightarrow> api_call \<Rightarrow> prog" where
  "api_prog env ps (GetAccessToken p) = get_access_token env ps p"
| "api_prog env ps (RefreshAccessToken p n) = refresh_access_token env ps p n"
| "api_prog env ps (ConnectionStatus p) = connection_status env ps p"
| "api_prog env ps (StartFlow p) = start_flow env ps p"
| "api_prog env ps (FlowStatus i) = flow_status i"
| "api_prog env ps (CancelFlow i) = cancel_flow i"
| "api_prog env ps (Revoke p) = revoke p"

definition call_api :: "oauth_env \<Rightarrow> providers \<Rightarrow> api_call \<Rightarrow> 's world \<Rightarrow> 's world" where
  "call_api env ps c w = w\<lparr>w_tasks := w_tasks w @ [api_prog env ps c]\<rparr>"

definition client_new :: "'s \<Rightarrow> 's world" where
  "client_new s = \<lparr>w_store = s, refresh_in_progress = False, active_flows = [], flows_locked = False, w_tasks = []\<rparr>"

text \<open>The worlds that calls of the client, in any interleaving, can lead to; \<open>cs\<close> are the calls made.\<close>

inductive client_run :: "('s, 'io) secret_ops \<Rightarrow> oauth_env \<Rightarrow> providers \<Rightarrow> 's world \<Rightarrow> api_call list \<Rightarrow> 's world \<Rightarrow> bool"
  for ops env ps w0 where
  run_start: "client_run ops env ps w0 [] w0"
| run_call: "client_run ops env ps w0 cs w \<Longrightarrow> client_run ops env ps w0 (cs @ [c]) (call_api env ps c w)"
| run_step: "client_run ops env ps w0 cs w \<Longrightarrow> schedule ops ia w = Some w' \<Longrightarrow> client_run ops env ps w0 cs w'"

fun steps :: "('s, 'io) secret_ops \<Rightarrow> (nat \<times> 'io node_answer) list \<Rightarrow> 's world \<Rightarrow> 's world option" where
  "steps ops [] w = Some w"
| "steps ops (ia # ias) w = (case schedule ops ia w of None \<Rightarrow> None | Some w' \<Rightarrow> steps ops ias w')"

lemma client_run_steps: "client_run ops env ps w0 cs w \<Longrightarrow> steps ops ias w = Some w' \<Longrightarrow> client_run ops env ps w0 cs w'"
  by (induction ias arbitrary: w) (auto split: option.splits intro: run_step)

end
