(* ===== verification/OAuthRuns.thy ===== *)
theory OAuthRuns
  imports OAuthClient
begin

text \<open>
  Properties of the OAuth client in every interleaving of its calls: the guard of refreshes and the lock of the flows, which
  namespace a call writes, and what a refresh stores.

  A discipline of a program is a predicate on its tree. \<open>guarded\<close> says that the guard is used in brackets and that a refresh request
  is sent only inside them, \<open>locked\<close> the same of the lock of the flows, \<open>writes_in\<close> which namespaces can be written.
\<close>

section \<open>Disciplines\<close>

definition is_refresh :: "form \<Rightarrow> bool" where
  "is_refresh f \<longleftrightarrow> map_of f ''grant_type'' = Some ''refresh_token''"

primrec guarded :: "prog \<Rightarrow> bool \<Rightarrow> bool" where
  "guarded (Done r) h = (\<not> h)"
| "guarded Panicked h = (\<not> h)"
| "guarded (Retrieve ns key k) h = (\<forall>x. guarded (k x) h)"
| "guarded (StoreSecret ns key v k) h = (\<forall>x. guarded (k x) h)"
| "guarded (DeleteNamespace ns k) h = (\<forall>x. guarded (k x) h)"
| "guarded (TryAcquire k) h = (\<not> h \<and> guarded (k True) True \<and> guarded (k False) False)"
| "guarded (Release q) h = (h \<and> guarded q False)"
| "guarded (Now k) h = (\<forall>x. guarded (k x) h)"
| "guarded (Post url f k) h = ((is_refresh f \<longrightarrow> h) \<and> (\<forall>x. guarded (k x) h))"
| "guarded (LockFlows k) h = (\<forall>x. guarded (k x) h)"
| "guarded (UnlockFlows fs q) h = guarded q h"
| "guarded (ProbePort port k) h = (\<forall>x. guarded (k x) h)"
| "guarded (Random k) h = (\<forall>x. guarded (k x) h)"
| "guarded (WaitCallback i port k) h = (\<forall>x. guarded (k x) h)"
| "guarded (Spawn t q) h = (guarded t False \<and> guarded q h)"

primrec locked :: "prog \<Rightarrow> bool \<Rightarrow> bool" where
  "locked (Done r) h = (\<not> h)"
| "locked Panicked h = (\<not> h)"
| "locked (Retrieve ns key k) h = (\<forall>x. locked (k x) h)"
| "locked (StoreSecret ns key v k) h = (\<forall>x. locked (k x) h)"
| "locked (DeleteNamespace ns k) h = (\<forall>x. locked (k x) h)"
| "locked (TryAcquire k) h = (\<forall>x. locked (k x) h)"
| "locked (Release q) h = locked q h"
| "locked (Now k) h = (\<forall>x. locked (k x) h)"
| "locked (Post url f k) h = (\<forall>x. locked (k x) h)"
| "locked (LockFlows k) h = (\<not> h \<and> (\<forall>x. locked (k x) True))"
| "locked (UnlockFlows fs q) h = (h \<and> locked q False)"
| "locked (ProbePort port k) h = (\<forall>x. locked (k x) h)"
| "locked (Random k) h = (\<forall>x. locked (k x) h)"
| "locked (WaitCallback i port k) h = (\<forall>x. locked (k x) h)"
| "locked (Spawn t q) h = (locked t False \<and> locked q h)"

primrec writes_in :: "string set \<Rightarrow> prog \<Rightarrow> bool" where
  "writes_in N (Done r) = True"
| "writes_in N Panicked = True"
| "writes_in N (Retrieve ns key k) = (\<forall>x. writes_in N (k x))"
| "writes_in N (StoreSecret ns key v k) = (ns \<in> N \<and> (\<forall>x. writes_in N (k x)))"
| "writes_in N (DeleteNamespace ns k) = (ns \<in> N \<and> (\<forall>x. writes_in N (k x)))"
| "writes_in N (TryAcquire k) = (\<forall>x. writes_in N (k x))"
| "writes_in N (Release q) = writes_in N q"
| "writes_in N (Now k) = (\<forall>x. writes_in N (k x))"
| "writes_in N (Post url f k) = (\<forall>x. writes_in N (k x))"
| "writes_in N (LockFlows k) = (\<forall>x. writes_in N (k x))"
| "writes_in N (UnlockFlows fs q) = writes_in N q"
| "writes_in N (ProbePort port k) = (\<forall>x. writes_in N (k x))"
| "writes_in N (Random k) = (\<forall>x. writes_in N (k x))"
| "writes_in N (WaitCallback i port k) = (\<forall>x. writes_in N (k x))"
| "writes_in N (Spawn t q) = (writes_in N t \<and> writes_in N q)"

lemma is_refresh_form [simp]: "is_refresh (refresh_form c tok)"
  by (simp add: is_refresh_def refresh_form_def)

text \<open>What the helpers of the client need of a discipline: it allows the secrets of one provider to be read and written, and the clock.\<close>

locale discipline =
  fixes keeps :: "prog \<Rightarrow> bool" and p :: string
  assumes retrieve: "(\<And>x. keeps (k x)) \<Longrightarrow> keeps (Retrieve ns key k)"
    and store: "(\<And>x. keeps (l x)) \<Longrightarrow> keeps (StoreSecret p key v l)"
    and now: "(\<And>x. keeps (m x)) \<Longrightarrow> keeps (Now m)"
begin

lemma on_ok_keeps: "(\<And>e. keeps (failed e)) \<Longrightarrow> (\<And>a. keeps (q a)) \<Longrightarrow> keeps (on_ok failed q r)"
  by (simp add: on_ok_def split: sum.split)

lemma store_if_keeps: "(\<And>e. keeps (failed e)) \<Longrightarrow> keeps q \<Longrightarrow> keeps (store_if p key x failed q)"
  by (auto simp: store_if_def split: option.split intro!: store on_ok_keeps)

lemma store_tokens_keeps: "(\<And>r. keeps (q r)) \<Longrightarrow> keeps panicked \<Longrightarrow> keeps (store_tokens_static env p t panicked q)"
  unfolding store_tokens_static_def Let_def
  by (intro store on_ok_keeps store_if_keeps; auto split: option.split intro!: store on_ok_keeps store_if_keeps now)

lemma token_valid_keeps: "(\<And>b. keeps (q b)) \<Longrightarrow> keeps (is_token_valid env ns q)"
  by (auto simp: is_token_valid_def split: option.split sum.split intro!: retrieve now)

end

text \<open>And a discipline of the refreshes: \<open>keeps\<close> inside the guard, \<open>outside\<close> before and after it.\<close>

locale refresh_discipline = discipline +
  fixes outside :: "prog \<Rightarrow> bool"
  assumes acquire: "keeps (a True) \<Longrightarrow> outside (a False) \<Longrightarrow> outside (TryAcquire a)"
    and release: "outside q \<Longrightarrow> keeps (Release q)"
    and post_refresh: "(\<And>x. keeps (n x)) \<Longrightarrow> keeps (Post url (refresh_form c tok) n)"
begin

lemma refresh_token_keeps: "(\<And>r. keeps (q r)) \<Longrightarrow> keeps (refresh_token env c tok q)"
  by (simp add: refresh_token_def post_refresh)

lemma refresh_now_keeps: "(\<And>r. keeps (finish r)) \<Longrightarrow> keeps panicked \<Longrightarrow> keeps (refresh_now env ps p panicked finish)"
  unfolding refresh_now_def Let_def
  by (intro on_ok_keeps; auto intro!: retrieve on_ok_keeps refresh_token_keeps store_tokens_keeps split: option.split sum.split)

lemma try_refresh_keeps:
  assumes "\<And>r. outside (q r)" and "outside panicked"
  shows "outside (try_refresh env ps p panicked q)"
  unfolding try_refresh_def Let_def
  by (rule acquire)
    (auto simp: assms intro!: on_ok_keeps retrieve refresh_token_keeps store_tokens_keeps release split: option.split sum.split)

end

interpretation guard_held: refresh_discipline "\<lambda>q. guarded q True" p "\<lambda>q. guarded q False" for p
  by unfold_locales auto

interpretation guard_free: discipline "\<lambda>q. guarded q False" p for p
  by unfold_locales auto

interpretation lock: refresh_discipline "\<lambda>q. locked q h" p "\<lambda>q. locked q h" for h p
  by unfold_locales (auto simp: all_bool_eq)

interpretation own_namespace: refresh_discipline "writes_in (insert p N)" p "writes_in (insert p N)" for p N
  by unfold_locales (auto simp: all_bool_eq)

lemma not_refresh_exchange: "\<not> is_refresh ((''grant_type'', ''authorization_code'') # f)"
  by (simp add: is_refresh_def)

lemma guarded_flow_task: "guarded (flow_task env c i p st v) False"
  by (auto simp: flow_task_def Let_def on_ok_def exchange_code_def not_refresh_exchange split: sum.split
      intro!: guard_free.store_tokens_keeps)

lemma locked_flow_task: "locked (flow_task env c i p st v) False"
  by (auto simp: flow_task_def Let_def on_ok_def exchange_code_def split: sum.split intro!: lock.store_tokens_keeps)

lemma writes_flow_task: "writes_in (insert p N) (flow_task env c i p st v)"
  by (auto simp: flow_task_def Let_def on_ok_def exchange_code_def split: sum.split intro!: own_namespace.store_tokens_keeps)

lemmas op_defs = get_access_token_def refresh_access_token_def connection_status_def start_flow_def flow_status_def cancel_flow_def
  revoke_def Let_def on_ok_def

lemma guarded_api: "guarded (api_prog env ps c) False"
  by (cases c) (auto simp: op_defs split: option.split sum.split
      intro!: guard_free.token_valid_keeps guard_held.try_refresh_keeps guard_held.refresh_now_keeps guarded_flow_task)

lemma locked_api: "locked (api_prog env ps c) False"
  by (cases c) (auto simp: op_defs split: option.split sum.split
      intro!: lock.token_valid_keeps lock.try_refresh_keeps lock.refresh_now_keeps locked_flow_task)

text \<open>The namespace a call may write.\<close>

fun call_writes :: "api_call \<Rightarrow> string set" where
  "call_writes (GetAccessToken p) = {p}"
| "call_writes (RefreshAccessToken p n) = {p}"
| "call_writes (ConnectionStatus p) = {}"
| "call_writes (StartFlow p) = {p}"
| "call_writes (FlowStatus i) = {}"
| "call_writes (CancelFlow i) = {}"
| "call_writes (Revoke p) = {p}"

lemma own_namespace_discipline: "p \<in> N \<Longrightarrow> refresh_discipline (writes_in N) p (writes_in N)"
  using own_namespace.refresh_discipline_axioms [of p N] by (simp add: insert_absorb)

lemma writes_valid: "(\<And>b. writes_in N (q b)) \<Longrightarrow> writes_in N (is_token_valid env p q)"
  by (simp add: is_token_valid_def split: option.split sum.split)

lemma writes_flow_task_in: "p \<in> N \<Longrightarrow> writes_in N (flow_task env c i p st v)"
  using writes_flow_task [of p N] by (simp add: insert_absorb)

lemma writes_api: "call_writes c \<subseteq> N \<Longrightarrow> writes_in N (api_prog env ps c)"
  by (cases c) (auto simp: op_defs split: option.split sum.split
      intro!: writes_valid refresh_discipline.try_refresh_keeps [OF own_namespace_discipline]
        refresh_discipline.refresh_now_keeps [OF own_namespace_discipline] writes_flow_task_in)

section \<open>Owners\<close>

text \<open>A flag has an owner: the one task that is inside the brackets, when there is one.\<close>

definition owned :: "(prog \<Rightarrow> bool \<Rightarrow> bool) \<Rightarrow> bool \<Rightarrow> prog list \<Rightarrow> bool" where
  "owned D flag ts \<longleftrightarrow> (\<exists>owner. (flag \<longleftrightarrow> owner \<noteq> None) \<and> (\<forall>i. owner = Some i \<longrightarrow> i < length ts)
     \<and> (\<forall>i < length ts. D (ts ! i) (owner = Some i)))"

lemma owned_append: "owned D flag ts \<Longrightarrow> list_all (\<lambda>t. D t False) new \<Longrightarrow> owned D flag (ts @ new)"
  unfolding owned_def list_all_length
  by (elim exE, rename_tac owner, rule_tac x = owner in exI) (force simp: nth_append)

lemma owned_update:
  assumes own: "owned D flag ts" and i: "i < length ts"
    and step: "\<And>h. D (ts ! i) h \<Longrightarrow> (h \<longrightarrow> flag) \<Longrightarrow> \<exists>h'. D q h' \<and> (h' \<and> \<not> h \<longrightarrow> \<not> flag) \<and> (flag' \<longleftrightarrow> h' \<or> flag \<and> \<not> h)"
  shows "owned D flag' (ts[i := q])"
proof -
  obtain owner where ow: "flag \<longleftrightarrow> owner \<noteq> None" "\<And>j. owner = Some j \<Longrightarrow> j < length ts"
    "\<And>j. j < length ts \<Longrightarrow> D (ts ! j) (owner = Some j)"
    using own unfolding owned_def by blast
  obtain h' where h: "D q h'" "h' \<and> owner \<noteq> Some i \<longrightarrow> owner = None" "flag' \<longleftrightarrow> h' \<or> flag \<and> owner \<noteq> Some i"
    using step [OF ow(3) [OF i]] ow(1) by auto
  define owner' where "owner' = (if h' then Some i else if owner = Some i then None else owner)"
  have "flag' \<longleftrightarrow> owner' \<noteq> None" using h ow(1) by (auto simp: owner'_def)
  moreover have "\<forall>j. owner' = Some j \<longrightarrow> j < length ts" using ow(2) i by (auto simp: owner'_def)
  moreover have "D (ts[i := q] ! j) (owner' = Some j)" if "j < length ts" for j
  proof (cases "j = i")
    case True
    have "(owner' = Some i) = h'" by (auto simp: owner'_def)
    then show ?thesis using True that h(1) by simp
  next
    case False
    then have "(owner' = Some j) = (owner = Some j)" using h(2) by (auto simp: owner'_def)
    then show ?thesis using False ow(3) [OF that] by simp
  qed
  ultimately show ?thesis unfolding owned_def by (metis length_list_update)
qed

lemma owned_at_most_one:
  assumes "owned D flag ts" and "i < length ts" and "j < length ts" and "\<not> D (ts ! i) False" and "\<not> D (ts ! j) False"
  shows "i = j"
  using assms unfolding owned_def by (metis (full_types) option.inject)

lemma owned_idle: "owned D flag ts \<Longrightarrow> (\<And>t. t \<in> set ts \<Longrightarrow> \<not> D t True) \<Longrightarrow> \<not> flag"
  unfolding owned_def by (metis (full_types) nth_mem option.exhaust)

lemma advance_guarded:
  assumes "advance ops a q w = Some (q', new, w')" and "guarded q h" and "h \<longrightarrow> refresh_in_progress w"
  shows "\<exists>h'. guarded q' h' \<and> (h' \<and> \<not> h \<longrightarrow> \<not> refresh_in_progress w)
      \<and> (refresh_in_progress w' \<longleftrightarrow> h' \<or> refresh_in_progress w \<and> \<not> h)"
    and "list_all (\<lambda>t. guarded t False) new"
proof -
  show "\<exists>h'. guarded q' h' \<and> (h' \<and> \<not> h \<longrightarrow> \<not> refresh_in_progress w)
      \<and> (refresh_in_progress w' \<longleftrightarrow> h' \<or> refresh_in_progress w \<and> \<not> h)"
  proof (cases q)
    case (TryAcquire k)
    then show ?thesis using assms
      by (cases "refresh_in_progress w") (auto simp: advance_def split: node_answer.split_asm intro: exI [of _ True] exI [of _ False])
  next
    case (Release r)
    then show ?thesis using assms by (auto simp: advance_def split: node_answer.split_asm intro!: exI [of _ False])
  qed (use assms in \<open>auto simp: advance_def split: node_answer.split_asm prod.split_asm if_split_asm intro!: exI [of _ h]\<close>)
  show "list_all (\<lambda>t. guarded t False) new"
    using assms(1,2) by (cases q) (auto simp: advance_def split: node_answer.split_asm prod.split_asm if_split_asm)
qed

lemma advance_locked:
  assumes "advance ops a q w = Some (q', new, w')" and "locked q h" and "h \<longrightarrow> flows_locked w"
  shows "\<exists>h'. locked q' h' \<and> (h' \<and> \<not> h \<longrightarrow> \<not> flows_locked w) \<and> (flows_locked w' \<longleftrightarrow> h' \<or> flows_locked w \<and> \<not> h)"
    and "list_all (\<lambda>t. locked t False) new"
proof -
  show "\<exists>h'. locked q' h' \<and> (h' \<and> \<not> h \<longrightarrow> \<not> flows_locked w) \<and> (flows_locked w' \<longleftrightarrow> h' \<or> flows_locked w \<and> \<not> h)"
  proof (cases q)
    case (LockFlows k)
    then show ?thesis using assms by (auto simp: advance_def split: node_answer.split_asm if_split_asm intro!: exI [of _ True])
  next
    case (UnlockFlows fs r)
    then show ?thesis using assms by (auto simp: advance_def split: node_answer.split_asm intro!: exI [of _ False])
  qed (use assms in \<open>auto simp: advance_def split: node_answer.split_asm prod.split_asm if_split_asm intro!: exI [of _ h]\<close>)
  show "list_all (\<lambda>t. locked t False) new"
    using assms(1,2) by (cases q) (auto simp: advance_def split: node_answer.split_asm prod.split_asm if_split_asm)
qed

lemma advance_tasks: "advance ops a q w = Some (q', new, w') \<Longrightarrow> w_tasks w' = w_tasks w"
  by (cases q) (auto simp: advance_def split: node_answer.split_asm prod.split_asm if_split_asm)

lemma schedule_cases:
  assumes "schedule ops ia w = Some w'"
  obtains i a q new v where "ia = (i, a)" "i < length (w_tasks w)" "advance ops a (w_tasks w ! i) w = Some (q, new, v)"
    "w' = v\<lparr>w_tasks := (w_tasks w)[i := q] @ new\<rparr>"
  using assms by (auto simp: schedule_def split: prod.split_asm if_split_asm option.split_asm)

definition client_ok :: "'s world \<Rightarrow> bool" where
  "client_ok w \<longleftrightarrow> owned guarded (refresh_in_progress w) (w_tasks w) \<and> owned locked (flows_locked w) (w_tasks w)"

lemma client_ok_new: "client_ok (client_new s)"
  by (simp add: client_ok_def client_new_def owned_def)

lemma client_ok_call: "client_ok w \<Longrightarrow> client_ok (call_api env ps c w)"
  by (simp add: client_ok_def call_api_def owned_append guarded_api locked_api)

lemma client_ok_step:
  assumes "client_ok w" and "schedule ops ia w = Some w'"
  shows "client_ok w'"
proof -
  obtain i a q new v where st: "i < length (w_tasks w)" "advance ops a (w_tasks w ! i) w = Some (q, new, v)"
    "w' = v\<lparr>w_tasks := (w_tasks w)[i := q] @ new\<rparr>"
    using assms(2) by (rule schedule_cases)
  have own: "owned guarded (refresh_in_progress w) (w_tasks w)" "owned locked (flows_locked w) (w_tasks w)"
    using assms(1) by (simp_all add: client_ok_def)
  obtain h where "guarded (w_tasks w ! i) h" "h \<longrightarrow> refresh_in_progress w"
    using own(1) st(1) unfolding owned_def by blast
  then have new: "list_all (\<lambda>t. guarded t False) new" using advance_guarded(2) [OF st(2)] by blast
  obtain h where "locked (w_tasks w ! i) h" "h \<longrightarrow> flows_locked w"
    using own(2) st(1) unfolding owned_def by blast
  then have newl: "list_all (\<lambda>t. locked t False) new" using advance_locked(2) [OF st(2)] by blast
  have "owned guarded (refresh_in_progress v) ((w_tasks w)[i := q])"
    by (rule owned_update [OF own(1) st(1)]) (rule advance_guarded(1) [OF st(2)])
  moreover have "owned locked (flows_locked v) ((w_tasks w)[i := q])"
    by (rule owned_update [OF own(2) st(1)]) (rule advance_locked(1) [OF st(2)])
  ultimately show ?thesis using st(3) new newl by (simp add: client_ok_def owned_append)
qed

lemma client_run_ok: "client_run ops env ps w0 cs w \<Longrightarrow> client_ok w0 \<Longrightarrow> client_ok w"
  by (induction rule: client_run.induct) (simp_all add: client_ok_call client_ok_step)

end
