(* ===== verification/OAuthProperties.thy ===== *)
theory OAuthProperties
  imports OAuthRuns
begin

text \<open>
  The properties of the OAuth client: one refresh at a time, no deadlock, separate providers, what a refresh stores, and two
  interleavings in which credentials outlive the call that should have ended them.
\<close>

section \<open>One refresh at a time\<close>

definition finished :: "prog \<Rightarrow> bool" where
  "finished q = (case q of Done _ \<Rightarrow> True | Panicked \<Rightarrow> True | _ \<Rightarrow> False)"

definition sending_refresh :: "prog \<Rightarrow> bool" where
  "sending_refresh q = (case q of Post _ f _ \<Rightarrow> is_refresh f | _ \<Rightarrow> False)"

lemma sending_needs_guard: "sending_refresh q \<Longrightarrow> \<not> guarded q False"
  by (cases q) (auto simp: sending_refresh_def)

lemma finished_holds_nothing: "finished q \<Longrightarrow> \<not> guarded q True \<and> \<not> locked q True"
  by (cases q) (auto simp: finished_def)

lemma subset_singleton_card_le: "(\<And>j. j \<in> A \<Longrightarrow> A \<subseteq> {j}) \<Longrightarrow> card A \<le> 1"
  by (cases "A = {}") (use card_mono [of "{j}" A for j] in fastforce)+

text \<open>C32: At most one refresh request is under way. In every interleaving of any calls of the client, no two tasks are waiting for
  the reply to a refresh request, so a refresh token is never sent twice at once; and when all tasks have ended, whatever failed
  or panicked in them, the guard and the lock of the flows are free again.
\<close>

theorem one_refresh_in_flight:
  assumes "client_run ops env ps (client_new s) cs w"
  shows "length (filter sending_refresh (w_tasks w)) \<le> 1
    \<and> (list_all finished (w_tasks w) \<longrightarrow> \<not> refresh_in_progress w \<and> \<not> flows_locked w)"
proof (intro conjI impI)
  have ok: "owned guarded (refresh_in_progress w) (w_tasks w)" "owned locked (flows_locked w) (w_tasks w)"
    using client_run_ok [OF assms client_ok_new] by (simp_all add: client_ok_def)
  have "{i. i < length (w_tasks w) \<and> sending_refresh (w_tasks w ! i)} \<subseteq> {j}"
    if "j < length (w_tasks w)" "sending_refresh (w_tasks w ! j)" for j
    using that owned_at_most_one [OF ok(1)] sending_needs_guard by blast
  then have "card {i. i < length (w_tasks w) \<and> sending_refresh (w_tasks w ! i)} \<le> 1"
    by (intro subset_singleton_card_le) simp
  then show "length (filter sending_refresh (w_tasks w)) \<le> 1" by (simp add: length_filter_conv_card)
  assume fin: "list_all finished (w_tasks w)"
  show "\<not> refresh_in_progress w"
    by (rule owned_idle [OF ok(1)]) (use fin finished_holds_nothing in \<open>simp add: list_all_iff\<close>)
  show "\<not> flows_locked w"
    by (rule owned_idle [OF ok(2)]) (use fin finished_holds_nothing in \<open>simp add: list_all_iff\<close>)
qed

section \<open>No deadlock\<close>

text \<open>The task \<open>i\<close> can be run to its end, with all tasks it spawns, leaving the others as they are.\<close>

definition completes :: "('s, 'io) secret_ops \<Rightarrow> nat \<Rightarrow> 's world \<Rightarrow> bool" where
  "completes ops i w \<longleftrightarrow> (\<exists>ias w' q new. steps ops ias w = Some w' \<and> w_tasks w' = (w_tasks w)[i := q] @ new \<and> finished q
     \<and> list_all finished new \<and> \<not> flows_locked w')"

lemma steps_append: "steps ops (xs @ ys) w = (case steps ops xs w of None \<Rightarrow> None | Some v \<Rightarrow> steps ops ys v)"
  by (induction xs arbitrary: w) (auto split: option.splits)

lemma completes_step:
  assumes "schedule ops (i, a) w = Some v" and "w_tasks v = (w_tasks w)[i := q]" and "completes ops i v"
  shows "completes ops i w"
proof -
  obtain ias w' r new where "steps ops ias v = Some w'" "w_tasks w' = (w_tasks v)[i := r] @ new" "finished r"
    "list_all finished new" "\<not> flows_locked w'"
    using assms(3) unfolding completes_def by blast
  then show ?thesis unfolding completes_def using assms(1,2)
    by (intro exI [of _ "(i, a) # ias"] exI [of _ w'] exI [of _ r] exI [of _ new]) simp
qed

lemma schedule_advance:
  "i < length (w_tasks w) \<Longrightarrow> advance ops a (w_tasks w ! i) w = Some (q, [], v) \<Longrightarrow>
     schedule ops (i, a) w = Some (v\<lparr>w_tasks := (w_tasks w)[i := q]\<rparr>)"
  by (simp add: schedule_def)

lemma completes_advance:
  assumes "i < length (w_tasks w)"
    and "case advance ops a (w_tasks w ! i) w of
           Some (q, new, v) \<Rightarrow> new = [] \<and> completes ops i (v\<lparr>w_tasks := (w_tasks w)[i := q]\<rparr>) | None \<Rightarrow> False"
  shows "completes ops i w"
proof -
  obtain q v where "advance ops a (w_tasks w ! i) w = Some (q, [], v)" "completes ops i (v\<lparr>w_tasks := (w_tasks w)[i := q]\<rparr>)"
    using assms(2) by (auto split: option.splits)
  from completes_step [OF schedule_advance [OF assms(1) this(1)] _ this(2)] show ?thesis by simp
qed

lemma completes_finished: "i < length (w_tasks w) \<Longrightarrow> finished (w_tasks w ! i) \<Longrightarrow> \<not> flows_locked w \<Longrightarrow> completes ops i w"
  unfolding completes_def
  by (intro exI [of _ "[]"] exI [of _ w] exI [of _ "w_tasks w ! i"] exI [of _ "[]"]) simp

lemma completes_spawn:
  assumes i: "i < length (w_tasks w)" "w_tasks w ! i = Spawn t r" 
    and r: "completes ops i (w\<lparr>w_tasks := (w_tasks w)[i := r] @ [t]\<rparr>)"
    and t: "\<And>v j. j < length (w_tasks v) \<Longrightarrow> w_tasks v ! j = t \<Longrightarrow> \<not> flows_locked v \<Longrightarrow> completes ops j v"
  shows "completes ops i w"
proof -
  let ?v = "w\<lparr>w_tasks := (w_tasks w)[i := r] @ [t]\<rparr>"
  have st: "schedule ops (i, AnNone) w = Some ?v" using i by (simp add: schedule_def advance_def)
  from r obtain ias w1 q1 new1 where 1: "steps ops ias ?v = Some w1" "w_tasks w1 = ((w_tasks w)[i := q1] @ [t]) @ new1"
    "finished q1" "list_all finished new1" "\<not> flows_locked w1"
    using i(1) unfolding completes_def by (auto simp: list_update_append)
  have "completes ops (length (w_tasks w)) w1" by (rule t) (use 1 in \<open>simp_all add: nth_append\<close>)
  then obtain jas w2 q2 new2 where 2: "steps ops jas w1 = Some w2"
    "w_tasks w2 = (w_tasks w1)[length (w_tasks w) := q2] @ new2" "finished q2" "list_all finished new2" "\<not> flows_locked w2"
    unfolding completes_def by blast
  have "w_tasks w2 = (w_tasks w)[i := q1] @ (q2 # new1 @ new2)"
    using 1(2) 2(2) by (simp add: list_update_append)
  then show ?thesis unfolding completes_def using st 1 2
    by (intro exI [of _ "(i, AnNone) # ias @ jas"] exI [of _ w2] exI [of _ q1] exI [of _ "q2 # new1 @ new2"])
      (simp add: steps_append)
qed

lemma task_completes:
  assumes "locked q (flows_locked w)" and "i < length (w_tasks w)" and "w_tasks w ! i = q"
  shows "completes ops i w"
  using assms
proof (induction q arbitrary: w i)
  case (Retrieve ns key k)
  show ?case using Retrieve.prems
    by (intro completes_advance [where a = "AnIo undefined"]) (auto simp: advance_def split: prod.split intro!: Retrieve.IH [OF rangeI])
next
  case (StoreSecret ns key v k)
  show ?case using StoreSecret.prems
    by (intro completes_advance [where a = "AnIo undefined"]) (auto simp: advance_def split: prod.split intro!: StoreSecret.IH [OF rangeI])
next
  case (DeleteNamespace ns k)
  show ?case using DeleteNamespace.prems
    by (intro completes_advance [where a = "AnIo undefined"]) (auto simp: advance_def split: prod.split intro!: DeleteNamespace.IH [OF rangeI])
next
  case (TryAcquire k)
  show ?case using TryAcquire.prems
    by (intro completes_advance [where a = AnNone]) (auto simp: advance_def split: prod.split intro!: TryAcquire.IH [OF rangeI])
next
  case (Release q)
  show ?case using Release.prems
    by (intro completes_advance [where a = AnNone]) (auto simp: advance_def split: prod.split intro!: Release.IH)
next
  case (Now k)
  show ?case using Now.prems
    by (intro completes_advance [where a = "AnTime 0"]) (auto simp: advance_def split: prod.split intro!: Now.IH [OF rangeI])
next
  case (Post url f k)
  show ?case using Post.prems
    by (intro completes_advance [where a = "AnReply undefined"]) (auto simp: advance_def split: prod.split intro!: Post.IH [OF rangeI])
next
  case (LockFlows k)
  show ?case using LockFlows.prems
    by (intro completes_advance [where a = AnNone]) (auto simp: advance_def split: prod.split intro!: LockFlows.IH [OF rangeI])
next
  case (UnlockFlows fs q)
  show ?case using UnlockFlows.prems
    by (intro completes_advance [where a = AnNone]) (auto simp: advance_def split: prod.split intro!: UnlockFlows.IH)
next
  case (ProbePort port k)
  show ?case using ProbePort.prems
    by (intro completes_advance [where a = "AnPort True"]) (auto simp: advance_def split: prod.split intro!: ProbePort.IH [OF rangeI])
next
  case (Random k)
  show ?case using Random.prems
    by (intro completes_advance [where a = "AnRandom ([], [], [])"]) (auto simp: advance_def split: prod.split intro!: Random.IH [OF rangeI])
next
  case (WaitCallback f port k)
  show ?case using WaitCallback.prems
    by (intro completes_advance [where a = "AnWait TimedOut"]) (auto simp: advance_def split: prod.split intro!: WaitCallback.IH [OF rangeI])
next
  case (Spawn t q)
  show ?case
  proof (rule completes_spawn [OF Spawn.prems(2,3)])
    show "completes ops i (w\<lparr>w_tasks := (w_tasks w)[i := q] @ [t]\<rparr>)"
      by (rule Spawn.IH(2)) (use Spawn.prems in \<open>simp_all add: nth_append\<close>)
    show "completes ops j v" if "j < length (w_tasks v)" "w_tasks v ! j = t" "\<not> flows_locked v" for v j
      using Spawn.IH(1) [of v j] Spawn.prems(1) that by simp
  qed
qed (simp_all add: completes_finished finished_def)

text \<open>With the lock free, the tasks can be completed one after the other.\<close>

lemma finished_locked: "finished q \<Longrightarrow> locked q False"
  by (cases q) (auto simp: finished_def)

lemma unfinished_decrease:
  assumes "i < length ts" and "\<not> finished (ts ! i)" and "finished q" and "list_all finished new"
  shows "length (filter (\<lambda>t. \<not> finished t) (ts[i := q] @ new)) < length (filter (\<lambda>t. \<not> finished t) ts)"
proof -
  have "filter (\<lambda>t. \<not> finished t) new = []" using assms(4) by (simp add: list_all_iff filter_empty_conv)
  moreover have "filter (\<lambda>t. \<not> finished t) (ts[i := q]) = filter (\<lambda>t. \<not> finished t) (take i ts @ drop (Suc i) ts)"
    using assms(1,3) by (simp add: upd_conv_take_nth_drop)
  moreover have "filter (\<lambda>t. \<not> finished t) ts = filter (\<lambda>t. \<not> finished t) (take i ts @ ts ! i # drop (Suc i) ts)"
    using assms(1) by (simp add: id_take_nth_drop [symmetric])
  ultimately show ?thesis using assms(2) by simp
qed

lemma all_complete:
  assumes "\<not> flows_locked w" and "list_all (\<lambda>t. locked t False) (w_tasks w)"
  shows "\<exists>ias w'. steps ops ias w = Some w' \<and> list_all finished (w_tasks w')"
  using assms
proof (induction "length (filter (\<lambda>t. \<not> finished t) (w_tasks w))" arbitrary: w rule: less_induct)
  case less
  show ?case
  proof (cases "list_all finished (w_tasks w)")
    case True
    then show ?thesis by (intro exI [of _ "[]"] exI [of _ w]) simp
  next
    case False
    then obtain i where i: "i < length (w_tasks w)" "\<not> finished (w_tasks w ! i)" by (auto simp: list_all_length)
    have "completes ops i w"
      using task_completes [of "w_tasks w ! i" w i] less.prems i(1) by (simp add: list_all_length)
    then obtain ias v q new where v: "steps ops ias w = Some v" "w_tasks v = (w_tasks w)[i := q] @ new" "finished q"
      "list_all finished new" "\<not> flows_locked v"
      unfolding completes_def by blast
    have "list_all (\<lambda>t. locked t False) (w_tasks v)"
      using less.prems(2) v(2-4) by (auto simp: list_all_iff finished_locked dest!: set_update_subset_insert [THEN subsetD])
    from less.hyps [OF _ v(5) this] unfinished_decrease [OF i v(3,4)] v(2)
    obtain jas w' where "steps ops jas v = Some w'" "list_all finished (w_tasks w')" by auto
    then show ?thesis using v(1) by (intro exI [of _ "ias @ jas"] exI [of _ w']) (simp add: steps_append)
  qed
qed

lemma owned_locked_cases:
  assumes "owned locked (flows_locked w) (w_tasks w)"
  shows "\<not> flows_locked w \<and> list_all (\<lambda>t. locked t False) (w_tasks w) \<or>
    (\<exists>i < length (w_tasks w). locked (w_tasks w ! i) True \<and> flows_locked w \<and>
      (\<forall>j < length (w_tasks w). j \<noteq> i \<longrightarrow> locked (w_tasks w ! j) False))"
proof -
  obtain owner where ow: "flows_locked w \<longleftrightarrow> owner \<noteq> None" "\<forall>i. owner = Some i \<longrightarrow> i < length (w_tasks w)"
    "\<forall>i < length (w_tasks w). locked (w_tasks w ! i) (owner = Some i)"
    using assms unfolding owned_def by blast
  show ?thesis
  proof (cases owner)
    case None
    then show ?thesis using ow by (simp add: list_all_length)
  next
    case (Some i)
    then have "\<forall>j < length (w_tasks w). locked (w_tasks w ! j) (i = j)" using ow(3) by simp
    then have "i < length (w_tasks w)" "locked (w_tasks w ! i) True" "\<forall>j < length (w_tasks w). j \<noteq> i \<longrightarrow> locked (w_tasks w ! j) False"
      using ow(2) Some by (auto dest: spec [of _ i])
    then show ?thesis using ow(1) Some by auto
  qed
qed


end
