(* ===== verification/OAuthTokens.thy ===== *)
theory OAuthTokens
  imports OAuthProperties
begin

text \<open>
  What the operations of the OAuth client do to the stored tokens. \<open>wp\<close> is the weakest precondition of a program that runs
  alone: its equations compute what has to hold before for a result to be right. The contract of the secret store,
  \<open>secret_store_port\<close>, is all that the proofs use of it; the theorems are about the store in a file.
\<close>

section \<open>Running alone\<close>

fun solo :: "('s, 'io) secret_ops \<Rightarrow> 'io node_answer list \<Rightarrow> prog \<Rightarrow> 's world \<Rightarrow> (prog \<times> 's world) option" where
  "solo ops [] q w = Some (q, w)"
| "solo ops (a # as) q w = (case advance ops a q w of None \<Rightarrow> None | Some (q', _, w') \<Rightarrow> solo ops as q' w')"

primrec wp :: "prog \<Rightarrow> ('s, 'io) secret_ops \<Rightarrow> (ret \<Rightarrow> 's world \<Rightarrow> bool) \<Rightarrow> 's world \<Rightarrow> bool" where
  "wp (Done r) ops P w = P r w"
| "wp Panicked ops P w = True"
| "wp (Retrieve ns key k) ops P w = (\<forall>io. wp (k (op_retrieve ops io ns key (w_store w))) ops P w)"
| "wp (StoreSecret ns key v k) ops P w =
     (\<forall>io r s. op_store ops io ns key v (w_store w) = (r, s) \<longrightarrow> wp (k r) ops P (w\<lparr>w_store := s\<rparr>))"
| "wp (DeleteNamespace ns k) ops P w =
     (\<forall>io r s. op_delete_namespace ops io ns (w_store w) = (r, s) \<longrightarrow> wp (k r) ops P (w\<lparr>w_store := s\<rparr>))"
| "wp (TryAcquire k) ops P w = wp (k (\<not> refresh_in_progress w)) ops P (w\<lparr>refresh_in_progress := True\<rparr>)"
| "wp (Release q) ops P w = wp q ops P (w\<lparr>refresh_in_progress := False\<rparr>)"
| "wp (Now k) ops P w = (\<forall>t. wp (k t) ops P w)"
| "wp (Post url f k) ops P w = (\<forall>r. wp (k r) ops P w)"
| "wp (LockFlows k) ops P w = (\<not> flows_locked w \<longrightarrow> wp (k (active_flows w)) ops P (w\<lparr>flows_locked := True\<rparr>))"
| "wp (UnlockFlows fs q) ops P w = wp q ops P (w\<lparr>active_flows := fs, flows_locked := False\<rparr>)"
| "wp (ProbePort port k) ops P w = (\<forall>b. wp (k b) ops P w)"
| "wp (Random k) ops P w = (\<forall>r. wp (k r) ops P w)"
| "wp (WaitCallback i port k) ops P w = (\<forall>out. wp (k out) ops P w)"
| "wp (Spawn t q) ops P w = wp q ops P w"

lemma wp_advance: "advance ops a q w = Some (q', new, w') \<Longrightarrow> wp q ops P w \<Longrightarrow> wp q' ops P w'"
  by (cases q) (auto simp: advance_def split: node_answer.split_asm prod.split_asm if_split_asm)

lemma wp_sound: "solo ops as q w = Some (Done r, w') \<Longrightarrow> wp q ops P w \<Longrightarrow> P r w'"
  by (induction as arbitrary: q w) (auto split: option.split_asm dest: wp_advance)

lemma wp_on_ok:
  "wp (on_ok failed k r) ops P w \<longleftrightarrow> (case r of Inl e \<Rightarrow> wp (failed e) ops P w | Inr a \<Rightarrow> wp (k a) ops P w)"
  by (simp add: on_ok_def split: sum.split)

text \<open>The tokens of a reply, as they are stored at the time \<open>now\<close>.\<close>

definition put_some :: "string \<Rightarrow> string \<Rightarrow> string option \<Rightarrow> (string \<Rightarrow> string \<rightharpoonup> string) \<Rightarrow> string \<Rightarrow> string \<rightharpoonup> string" where
  "put_some ns k v l = (case v of None \<Rightarrow> l | Some _ \<Rightarrow> set_secret ns k v l)"

lemma put_some_simps [simp]: "put_some ns k None l = l" "put_some ns k (Some v) l = set_secret ns k (Some v) l"
  by (simp_all add: put_some_def)

definition with_tokens ::
  "oauth_env \<Rightarrow> string \<Rightarrow> TokenExchangeResult \<Rightarrow> time \<Rightarrow> (string \<Rightarrow> string \<rightharpoonup> string) \<Rightarrow> string \<Rightarrow> string \<rightharpoonup> string" where
  "with_tokens env p t now l =
     put_some p ''scopes'' (tok_scope t)
       (put_some p ''expires_at''
          (case tok_expires_in t of None \<Rightarrow> None | Some n \<Rightarrow> map_option (env_show_time env) (env_add_secs env now (sint n)))
          (put_some p ''refresh_token'' (tok_refresh_token t)
             (set_secret p ''access_token'' (Some (tok_access_token t)) l)))"

context secret_store_port
begin

lemma wp_store_secret:
  assumes "\<And>s e. wp (k (Inl e)) ops P (w\<lparr>w_store := s\<rparr>)"
    and "\<And>s. holds s = set_secret ns key (Some v) (holds (w_store w)) \<Longrightarrow> wp (k (Inr ())) ops P (w\<lparr>w_store := s\<rparr>)"
  shows "wp (StoreSecret ns key v k) ops P w"
  unfolding wp.simps
proof (intro allI impI)
  fix io r s assume "op_store ops io ns key v (w_store w) = (r, s)"
  then show "wp (k r) ops P (w\<lparr>w_store := s\<rparr>)" using assms store_ok by (cases r) auto
qed

lemma wp_store_if:
  assumes "\<And>s e. wp (failed e) ops P (w\<lparr>w_store := s\<rparr>)"
    and "\<And>s. holds s = put_some ns key v (holds (w_store w)) \<Longrightarrow> wp q ops P (w\<lparr>w_store := s\<rparr>)"
  shows "wp (store_if ns key v failed q) ops P w"
  using assms assms(2) [of "w_store w"]
  by (cases v) (auto simp: store_if_def put_some_def wp_on_ok intro!: wp_store_secret simp del: wp.simps(4))

lemma wp_store_tokens:
  assumes failed: "\<And>s e. wp (k (Inl e)) ops P (w\<lparr>w_store := s\<rparr>)"
    and stored: "\<And>s now. holds s = with_tokens env p t now (holds (w_store w)) \<Longrightarrow> wp (k (Inr ())) ops P (w\<lparr>w_store := s\<rparr>)"
    and panicked: "\<And>s. wp panicked ops P (w\<lparr>w_store := s\<rparr>)"
  shows "wp (store_tokens_static env p t panicked k) ops P w"
  unfolding store_tokens_static_def Let_def
proof (rule wp_store_secret; unfold wp_on_ok sum.case)
  show "wp (k (Inl e)) ops P (w\<lparr>w_store := s\<rparr>)" for s e by (rule failed)
  fix s assume s: "holds s = set_secret p ''access_token'' (Some (tok_access_token t)) (holds (w_store w))"
  have scopes: "wp (store_if p ''scopes'' (tok_scope t) (\<lambda>e. k (Inl e)) (k (Inr ()))) ops P (w\<lparr>w_store := s'\<rparr>)"
    if "holds s' = put_some p ''expires_at'' (case tok_expires_in t of None \<Rightarrow> None
          | Some n \<Rightarrow> map_option (env_show_time env) (env_add_secs env now (sint n)))
          (put_some p ''refresh_token'' (tok_refresh_token t) (holds s))" for s' now
    by (rule wp_store_if) (use that s failed stored [of _ now] in \<open>auto simp: with_tokens_def\<close>)
  show "wp (store_if p ''refresh_token'' (tok_refresh_token t) (\<lambda>e. k (Inl e))
      (case tok_expires_in t of None \<Rightarrow> store_if p ''scopes'' (tok_scope t) (\<lambda>e. k (Inl e)) (k (Inr ()))
       | Some expires_in \<Rightarrow> Now (\<lambda>now. case env_add_secs env now (sint expires_in) of None \<Rightarrow> panicked
           | Some expires_at \<Rightarrow> StoreSecret p ''expires_at'' (env_show_time env expires_at)
               (on_ok (\<lambda>e. k (Inl e)) (\<lambda>_. store_if p ''scopes'' (tok_scope t) (\<lambda>e. k (Inl e)) (k (Inr ()))))))) ops P
      (w\<lparr>w_store := s\<rparr>)"
  proof (rule wp_store_if, goal_cases)
    case 1
    then show ?case using failed by simp
  next
    case (2 s1)
    show ?case
    proof (cases "tok_expires_in t")
      case None
      then show ?thesis using scopes [of s1] 2 by simp
    next
      case (Some n)
      have "wp (case env_add_secs env now (sint n) of None \<Rightarrow> panicked
           | Some expires_at \<Rightarrow> StoreSecret p ''expires_at'' (env_show_time env expires_at)
               (on_ok (\<lambda>e. k (Inl e)) (\<lambda>_. store_if p ''scopes'' (tok_scope t) (\<lambda>e. k (Inl e)) (k (Inr ()))))) ops P
         (w\<lparr>w_store := s1\<rparr>)" for now
      proof (cases "env_add_secs env now (sint n)")
        case None
        then show ?thesis using panicked by simp
      next
        case (Some expires_at)
        show ?thesis unfolding Some option.case
          by (rule wp_store_secret) (use failed scopes [of _ now] 2 Some \<open>tok_expires_in t = Some n\<close> in \<open>simp_all add: wp_on_ok\<close>)
      qed
      then show ?thesis using Some by simp
    qed
  qed
qed

end

section \<open>Refreshing\<close>

text \<open>
  What a call of \<open>refresh_access_token\<close> that returns \<open>r\<close> did: \<open>l\<close> and \<open>l'\<close> are the secrets before and after it, \<open>busy\<close> says that
  another refresh was under way.
\<close>

definition refresh_effect ::
  "oauth_env \<Rightarrow> providers \<Rightarrow> string \<Rightarrow> int \<Rightarrow> bool \<Rightarrow> (string \<Rightarrow> string \<rightharpoonup> string) \<Rightarrow> (string \<Rightarrow> string \<rightharpoonup> string) \<Rightarrow> ret \<Rightarrow> bool" where
  "refresh_effect env ps p min_valid busy l l' r =
     (case r of
        RRefresh (Inr (RefreshedUntil e)) \<Rightarrow>
          \<exists>c rep t now. get_provider ps p = Inr c \<and> refresh_reply env c rep = Inr t \<and> l p ''refresh_token'' \<noteq> None
            \<and> l' = with_tokens env p t now l \<and> e = (case l' p ''expires_at'' of Some x \<Rightarrow> x | None \<Rightarrow> [])
      | RRefresh (Inr (AlreadyFresh e)) \<Rightarrow>
          l' = l \<and> (busy \<or> (\<exists>t now. l p ''expires_at'' = Some e \<and> env_parse_time env e = Some t \<and> secs min_valid < t - now))
      | RRefresh (Inr NotAuthenticated) \<Rightarrow> l' = l \<and> l p ''access_token'' = None
      | RRefresh (Inr (ReauthNeeded kind msg)) \<Rightarrow> l' = l \<and> (is_terminal kind \<or> l p ''refresh_token'' = None)
      | RRefresh (Inr (TransientFailure kind msg)) \<Rightarrow> l' = l \<and> \<not> is_terminal kind
      | RRefresh (Inl _) \<Rightarrow> True
      | _ \<Rightarrow> False)"

lemma refused_refresh_kind: "case refused_refresh env e of ReauthNeeded kind _ \<Rightarrow> is_terminal kind
   | TransientFailure kind _ \<Rightarrow> \<not> is_terminal kind | _ \<Rightarrow> False"
  by (cases e) (simp_all add: refused_refresh_def is_terminal_def Let_def)

lemma refused_refresh_effect: "refresh_effect env ps p n busy l l (RRefresh (Inr (refused_refresh env e)))"
  using refused_refresh_kind [of env e] by (auto simp: refresh_effect_def split: RefreshResult.splits)

context secret_store_port
begin

lemma wp_refresh_now:
  assumes failed: "\<And>s e. wp (finish (Inl e)) ops P (w\<lparr>w_store := s\<rparr>)"
    and result: "\<And>s r. refresh_effect env ps p n busy (holds (w_store w)) (holds s) (RRefresh (Inr r)) \<Longrightarrow>
      wp (finish (Inr r)) ops P (w\<lparr>w_store := s\<rparr>)"
    and panicked: "\<And>s. wp panicked ops P (w\<lparr>w_store := s\<rparr>)"
  shows "wp (refresh_now env ps p panicked finish) ops P w"
proof (cases "get_provider ps p")
  case (Inl e)
  then show ?thesis using failed [of e "w_store w"] by (simp add: refresh_now_def on_ok_def)
next
  case (Inr c)
  have refreshed: "wp (store_tokens_static env p t panicked (on_ok (\<lambda>e. finish (Inl e)) (\<lambda>_. Retrieve p ''expires_at''
      (on_ok (\<lambda>e. finish (Inl e)) (\<lambda>x. finish (Inr (RefreshedUntil (case x of Some y \<Rightarrow> y | None \<Rightarrow> []))))))))  ops P w"
    if rep: "refresh_reply env c rep = Inr t" "holds (w_store w) p ''refresh_token'' \<noteq> None" for rep t
  proof (rule wp_store_tokens; simp add: wp_on_ok failed panicked; intro allI)
    fix s now io assume s: "holds s = with_tokens env p t now (holds (w_store w))"
    show "case op_retrieve ops io p ''expires_at'' s of Inl e \<Rightarrow> wp (finish (Inl e)) ops P (w\<lparr>w_store := s\<rparr>)
      | Inr x \<Rightarrow> wp (finish (Inr (RefreshedUntil (case x of Some y \<Rightarrow> y | None \<Rightarrow> [])))) ops P (w\<lparr>w_store := s\<rparr>)"
    proof (cases "op_retrieve ops io p ''expires_at'' s")
      case (Inr x)
      have "x = holds s p ''expires_at''" using retrieve_answers [OF Inr] .
      then have "refresh_effect env ps p n busy (holds (w_store w)) (holds s)
          (RRefresh (Inr (RefreshedUntil (case x of Some y \<Rightarrow> y | None \<Rightarrow> []))))"
        using rep s \<open>get_provider ps p = Inr c\<close> by (auto simp: refresh_effect_def)
      then show ?thesis using Inr result by simp
    qed (simp add: failed)
  qed
  have "wp (on_ok (\<lambda>e. finish (Inl e)) (\<lambda>tok. case tok of
        None \<Rightarrow> finish (Inr (ReauthNeeded (UnknownKind ''no_refresh_token'') ''no refresh token available''))
      | Some rt \<Rightarrow> refresh_token env c rt (\<lambda>res. case res of
            Inr t \<Rightarrow> store_tokens_static env p t panicked (on_ok (\<lambda>e. finish (Inl e)) (\<lambda>_. Retrieve p ''expires_at''
              (on_ok (\<lambda>e. finish (Inl e)) (\<lambda>x. finish (Inr (RefreshedUntil (case x of Some y \<Rightarrow> y | None \<Rightarrow> [])))))))
          | Inl e \<Rightarrow> finish (Inr (refused_refresh env e)))) (op_retrieve ops io p ''refresh_token'' (w_store w))) ops P w" for io
  proof (cases "op_retrieve ops io p ''refresh_token'' (w_store w)")
    case (Inl e)
    then show ?thesis using failed [of e "w_store w"] by (simp add: on_ok_def)
  next
    case (Inr tok)
    have tok: "tok = holds (w_store w) p ''refresh_token''" using retrieve_answers [OF Inr] .
    show ?thesis
    proof (cases tok)
      case None
      then show ?thesis using Inr tok result [of "w_store w"] by (simp add: on_ok_def refresh_effect_def)
    next
      case (Some rt)
      then show ?thesis
        using Inr tok result [of "w_store w", OF refused_refresh_effect] refreshed
        by (auto simp: on_ok_def refresh_token_def split: sum.split)
    qed
  qed
  then show ?thesis using Inr by (simp add: refresh_now_def Let_def on_ok_def [of _ _ "Inr c"])
qed

lemma wp_refresh_access_token:
  "wp (refresh_access_token env ps p n) ops
     (\<lambda>r w'. refresh_effect env ps p n (refresh_in_progress w) (holds (w_store w)) (holds (w_store w')) r) w"
proof -
  let ?P = "\<lambda>r w'. refresh_effect env ps p n (refresh_in_progress w) (holds (w_store w)) (holds (w_store w')) r"
  let ?finish = "\<lambda>r. Release (Done (RRefresh r))"
  have proceed: "wp (refresh_now env ps p (Release Panicked) ?finish) ops ?P (w\<lparr>refresh_in_progress := True\<rparr>)"
    by (rule wp_refresh_now [where n = n and busy = "refresh_in_progress w"]) (simp_all, simp add: refresh_effect_def)
  have expiry: "wp (case r of
        Inr (Some s) \<Rightarrow> (case env_parse_time env s of
            Some t \<Rightarrow> Now (\<lambda>now. if t - now > secs n then ?finish (Inr (AlreadyFresh s)) else refresh_now env ps p (Release Panicked) ?finish)
          | None \<Rightarrow> refresh_now env ps p (Release Panicked) ?finish)
      | _ \<Rightarrow> refresh_now env ps p (Release Panicked) ?finish) ops ?P (w\<lparr>refresh_in_progress := True\<rparr>)"
    if "r = op_retrieve ops io p ''expires_at'' (w_store w)" for r io
  proof (cases r)
    case (Inr x)
    have "x = holds (w_store w) p ''expires_at''" using retrieve_answers that Inr by metis
    then show ?thesis using Inr proceed by (auto simp: refresh_effect_def split: option.split)
  qed (simp add: proceed)
  have busy: "refresh_effect env ps p n True l l (RRefresh (Inr (AlreadyFresh [])))" for l by (simp add: refresh_effect_def)
  have token: "wp (on_ok (\<lambda>e. Done (RRefresh (Inl e))) k r) ops ?P w"
    if "r = op_retrieve ops io p ''access_token'' (w_store w)" and "\<And>t. wp (k (Some t)) ops ?P w"
      and "k None = Done (RRefresh (Inr NotAuthenticated))" for io k r
  proof (cases r)
    case (Inr x)
    have x: "x = holds (w_store w) p ''access_token''" using retrieve_answers that(1) Inr by metis
    show ?thesis
    proof (cases x)
      case None
      then show ?thesis using Inr that(3) x by (simp add: on_ok_def refresh_effect_def)
    next
      case (Some t)
      then show ?thesis using Inr that(2) [of t] by (simp add: on_ok_def)
    qed
  qed (simp add: on_ok_def refresh_effect_def)
  show ?thesis unfolding refresh_access_token_def wp.simps Let_def
    by (rule allI, rule token [OF refl]; cases "refresh_in_progress w") (use expiry [OF refl] in \<open>simp_all add: busy\<close>)
qed

end


section \<open>Providers are separate\<close>

context secret_store_port
begin

lemma advance_elsewhere:
  assumes "advance ops a q w = Some (q', new, w')" and "writes_in N q" and "ns \<notin> N"
  shows "holds (w_store w') ns = holds (w_store w) ns \<and> writes_in N q' \<and> list_all (writes_in N) new"
proof (cases q)
  case (StoreSecret ns' key v k)
  then show ?thesis using assms by (auto simp: advance_def split: node_answer.split_asm prod.split_asm dest: store_elsewhere)
next
  case (DeleteNamespace ns' k)
  then show ?thesis using assms by (auto simp: advance_def split: node_answer.split_asm prod.split_asm dest: delete_namespace_elsewhere)
qed (use assms in \<open>auto simp: advance_def split: node_answer.split_asm if_split_asm\<close>)

lemma run_elsewhere:
  assumes "client_run ops env ps w0 cs w" and "list_all (writes_in N) (w_tasks w0)"
    and "list_all (\<lambda>c. call_writes c \<subseteq> N) cs" and "ns \<notin> N"
  shows "holds (w_store w) ns = holds (w_store w0) ns \<and> list_all (writes_in N) (w_tasks w)"
  using assms
proof (induction rule: client_run.induct)
  case (run_call cs w c)
  then show ?case by (simp add: call_api_def writes_api)
next
  case (run_step cs w ia w')
  then obtain i a q new v where st: "i < length (w_tasks w)" "advance ops a (w_tasks w ! i) w = Some (q, new, v)"
    "w' = v\<lparr>w_tasks := (w_tasks w)[i := q] @ new\<rparr>" and IH: "holds (w_store w) ns = holds (w_store w0) ns" "list_all (writes_in N) (w_tasks w)"
    by (metis schedule_cases)
  have "writes_in N (w_tasks w ! i)" using IH(2) st(1) by (simp add: list_all_length)
  from advance_elsewhere [OF st(2) this run_step.prems(3)] st(3) IH show ?case
    by (auto simp: list_all_iff dest!: set_update_subset_insert [THEN subsetD])
qed simp

end

text \<open>
  The calls for the other providers leave the secrets of a provider alone. In particular, when a provider was revoked
  and no task that could write its namespace is left, nothing of it comes back until it is named in a call again.
\<close>

theorem other_providers_untouched:
  assumes "client_run (file_ops json) env ps w0 cs w" and "list_all (writes_in (- {p})) (w_tasks w0)"
    and "list_all (\<lambda>c. p \<notin> call_writes c) cs"
  shows "file_holds (w_store w) p = file_holds (w_store w0) p"
  using file_secrets.run_elsewhere [OF assms(1,2), of p] assms(3) by (auto simp: list_all_iff)

section \<open>Sample runs\<close>

definition ready_json :: secret_json where
  "ready_json = \<lparr>encode_registry = (\<lambda>_. Inr []), decode_registry = (\<lambda>_. Inl [])\<rparr>"

definition sample_tokens :: TokenExchangeResult where
  "sample_tokens = \<lparr>tok_access_token = ''T1'', tok_refresh_token = Some ''R1'', tok_expires_in = Some 3600, tok_scope = None,
     tok_type = None\<rparr>"

definition oauth_sample_env :: oauth_env where
  "oauth_sample_env = \<lparr>env_parse_token = (\<lambda>b. if b = ''new'' then Inr sample_tokens else Inl ''syntax''),
     env_parse_token_error = (\<lambda>_. None), env_status_text = (\<lambda>_. ''status''), env_parse_time = (\<lambda>_. None),
     env_show_time = (\<lambda>_. ''later''), env_add_secs = (\<lambda>t n. Some (t + secs n)), env_show_error = (\<lambda>_. ''error''),
     env_url_with_query = (\<lambda>u _. Inr u), env_sha256 = (\<lambda>_. []), env_base64url = (\<lambda>_. ''S'')\<rparr>"

definition sample_providers :: providers where
  "sample_providers = client_providers [openai_codex]"

definition signed_in :: FileSecretInner where
  "signed_in = \<lparr>fs_registry = \<lparr>reg_version = 1, reg_namespaces = [(''openai'', [(''access_token'', ''T0''), (''refresh_token'', ''R0'')])]\<rparr>,
     fs_disk = \<lparr>registry_file = None, temp_file = None\<rparr>\<rparr>"

definition refresh_until_post :: "(nat \<times> secret_io node_answer) list" where
  "refresh_until_post = [(0, AnIo io_fine), (0, AnNone), (0, AnIo io_fine), (0, AnIo io_fine)]"

definition refresh_after_post :: "(nat \<times> secret_io node_answer) list" where
  "refresh_after_post = [(0, AnReply (Reply 200 ''new'')), (0, AnIo io_fine), (0, AnIo io_fine), (0, AnTime 0), (0, AnIo io_fine),
     (0, AnIo io_fine), (0, AnNone)]"

lemmas sample_defs = ready_json_def sample_tokens_def oauth_sample_env_def sample_providers_def signed_in_def refresh_until_post_def
  refresh_after_post_def client_providers_def openai_codex_def io_fine_def client_new_def call_api_def

lemmas run_defs = schedule_def advance_def refresh_access_token_def refresh_now_def get_provider_def refresh_token_def refresh_form_def
  refresh_reply_def is_success_def store_tokens_static_def store_if_def on_ok_def Let_def revoke_def blocking_def file_write_def
  registry_save_def registry_store_def registry_retrieve_def registry_delete_namespace_def keys_of_def file_op_defs

abbreviation run0 :: "api_call list \<Rightarrow> FileSecretInner world \<Rightarrow> bool" where
  "run0 \<equiv> client_run (file_ops ready_json) oauth_sample_env sample_providers (client_new signed_in)"

definition refreshing :: "FileSecretInner world" where
  "refreshing = the (steps (file_ops ready_json) refresh_until_post
     (call_api oauth_sample_env sample_providers (RefreshAccessToken ''openai'' 300) (client_new signed_in)))"

lemma refreshing_steps:
  "steps (file_ops ready_json) refresh_until_post
     (call_api oauth_sample_env sample_providers (RefreshAccessToken ''openai'' 300) (client_new signed_in)) = Some refreshing"
  by (simp add: refreshing_def sample_defs run_defs)

lemma refreshing_reachable: "run0 [RefreshAccessToken ''openai'' 300] refreshing"
  using client_run_steps [OF run_call [OF run_start, of _ _ _ _ "RefreshAccessToken ''openai'' 300", simplified] refreshing_steps] .

lemma refreshing_sends: "sending_refresh (w_tasks refreshing ! 0) \<and> length (w_tasks refreshing) = 1 \<and> refresh_in_progress refreshing"
  by (simp add: refreshing_def sample_defs run_defs sending_refresh_def is_refresh_def)

theorem one_refresh_in_flight_witness:
  "length (filter sending_refresh (w_tasks refreshing)) \<le> 1 \<and> sending_refresh (w_tasks refreshing ! 0)"
  using one_refresh_in_flight [OF refreshing_reachable] refreshing_sends by simp


definition refreshed_store :: FileSecretInner where
  "refreshed_store = \<lparr>fs_registry = \<lparr>reg_version = 1, reg_namespaces = [(''openai'',
       [(''access_token'', ''T1''), (''refresh_token'', ''R1''), (''expires_at'', ''later'')])]\<rparr>,
     fs_disk = \<lparr>registry_file = Some [], temp_file = None\<rparr>\<rparr>"

lemma sample_refresh:
  "solo (file_ops ready_json) (map snd (refresh_until_post @ refresh_after_post))
     (refresh_access_token oauth_sample_env sample_providers ''openai'' 300) (client_new signed_in) =
   Some (Done (RRefresh (Inr (RefreshedUntil ''later''))), client_new refreshed_store)"
  by (simp add: sample_defs run_defs refreshed_store_def)


section \<open>Credentials that come back\<close>

text \<open>
  A revocation does not wait for a refresh that is under way: the refresh stores the new tokens after the namespace was deleted
  and the revocation has reported success.
\<close>

definition revoke_steps :: "(nat \<times> secret_io node_answer) list" where
  "revoke_steps = [(1, AnIo io_fine), (1, AnNone), (1, AnNone)]"

definition revoked :: "FileSecretInner world" where
  "revoked = the (steps (file_ops ready_json) revoke_steps (call_api oauth_sample_env sample_providers (Revoke ''openai'') refreshing))"

lemma revoked_reachable: "run0 [RefreshAccessToken ''openai'' 300, Revoke ''openai''] revoked"
proof -
  have "steps (file_ops ready_json) revoke_steps (call_api oauth_sample_env sample_providers (Revoke ''openai'') refreshing) = Some revoked"
    by (simp add: revoked_def revoke_steps_def refreshing_def sample_defs run_defs)
  from client_run_steps [OF run_call [OF refreshing_reachable] this] show ?thesis by simp
qed

theorem revoked_credentials_return:
  "\<exists>w w'. run0 [RefreshAccessToken ''openai'' 300, Revoke ''openai''] w \<and> w_tasks w ! 1 = Done (RUnit (Inr ()))
     \<and> file_holds (w_store w) ''openai'' ''access_token'' = None
     \<and> run0 [RefreshAccessToken ''openai'' 300, Revoke ''openai''] w' \<and> steps (file_ops ready_json) refresh_after_post w = Some w'
     \<and> list_all finished (w_tasks w') \<and> file_holds (w_store w') ''openai'' ''access_token'' = Some ''T1''"
proof -
  obtain w' where w': "steps (file_ops ready_json) refresh_after_post revoked = Some w'" "list_all finished (w_tasks w')"
    "file_holds (w_store w') ''openai'' ''access_token'' = Some ''T1''"
    by (simp add: revoked_def revoke_steps_def refreshing_def sample_defs run_defs finished_def)
  moreover have "w_tasks revoked ! 1 = Done (RUnit (Inr ()))" "file_holds (w_store revoked) ''openai'' ''access_token'' = None"
    by (simp_all add: revoked_def revoke_steps_def refreshing_def sample_defs run_defs)
  ultimately show ?thesis using revoked_reachable client_run_steps [OF revoked_reachable w'(1)] by blast
qed

text \<open>
  A flow that is cancelled after its tokens were stored reports that it was cancelled; the tokens stay. The caller that polls the
  status then never sees the completion, which is what resets the refresh coordinator.
\<close>

definition browser_request :: "string \<rightharpoonup> string" where
  "browser_request = [''state'' \<mapsto> ''S'', ''code'' \<mapsto> ''C'']"

definition sign_in_steps :: "(nat \<times> secret_io node_answer) list" where
  "sign_in_steps = [(0, AnPort True), (0, AnRandom ([], [], ''f1'')), (0, AnNone), (0, AnNone), (0, AnNone),
     (1, AnWait (Requests [browser_request])), (1, AnNone), (1, AnReply (Reply 200 ''new'')), (1, AnIo io_fine), (1, AnIo io_fine),
     (1, AnTime 0), (1, AnIo io_fine), (1, AnNone)]"

lemmas flow_defs = sign_in_steps_def browser_request_def start_flow_def flow_task_def cancel_flow_def flow_status_def generate_pkce_def
  generate_state_def authorization_url_def exchange_code_def exchange_reply_def wait_for_callback_def callback_handler_def
  set_flow_status_def flow_over_def

definition completed_flow :: "FileSecretInner world" where
  "completed_flow = the (steps (file_ops ready_json) sign_in_steps
     (call_api oauth_sample_env sample_providers (StartFlow ''openai'') (client_new signed_in)))"

lemma completed_flow_reachable: "run0 [StartFlow ''openai''] completed_flow"
proof -
  have "steps (file_ops ready_json) sign_in_steps
     (call_api oauth_sample_env sample_providers (StartFlow ''openai'') (client_new signed_in)) = Some completed_flow"
    by (simp add: completed_flow_def sample_defs run_defs flow_defs)
  from client_run_steps [OF run_call [OF run_start] this] show ?thesis by simp
qed

theorem cancelled_flow_keeps_tokens:
  "\<exists>w. run0 [StartFlow ''openai'', CancelFlow ''f1'', FlowStatus ''f1''] w \<and> list_all finished (w_tasks w)
     \<and> map_option fl_status (map_of (active_flows completed_flow) ''f1'') = Some Completed
     \<and> w_tasks w ! 3 = Done (RStatus (Inr Cancelled)) \<and> file_holds (w_store w) ''openai'' ''access_token'' = Some ''T1''"
proof -
  let ?w = "call_api oauth_sample_env sample_providers (FlowStatus ''f1'')
    (call_api oauth_sample_env sample_providers (CancelFlow ''f1'') completed_flow)"
  have run: "run0 [StartFlow ''openai'', CancelFlow ''f1'', FlowStatus ''f1''] ?w"
    using run_call [OF run_call [OF completed_flow_reachable]] by simp
  obtain w where w: "steps (file_ops ready_json) [(2, AnNone), (2, AnNone), (3, AnNone), (3, AnNone)] ?w = Some w"
    "list_all finished (w_tasks w)" "w_tasks w ! 3 = Done (RStatus (Inr Cancelled))"
    "file_holds (w_store w) ''openai'' ''access_token'' = Some ''T1''"
    by (simp add: completed_flow_def sample_defs run_defs flow_defs finished_def)
  moreover have "map_option fl_status (map_of (active_flows completed_flow) ''f1'') = Some Completed"
    by (simp add: completed_flow_def sample_defs run_defs flow_defs)
  ultimately show ?thesis using client_run_steps [OF run w(1)] by blast
qed

end
