(* ===== verification/RefreshCoordinator.thy ===== *)
theory RefreshCoordinator
  imports OAuthTokens
begin

text \<open>
  The coordinator of token refreshes, \<open>crates/oneshim-network/src/oauth/refresh_coordinator.rs\<close>, with the command that resets it
  (\<open>oauth_flow_status\<close> of \<open>src-tauri/src/commands/integration.rs\<close>) and the loop that drives it (\<open>spawn_oauth_refresh_loop\<close> of
  \<open>src-tauri/src/scheduler/loops/sync.rs\<close>).

  \<open>check_and_refresh\<close> takes the lock twice and calls the port in between, so it is two atomic parts, \<open>begin_refresh\<close> and
  \<open>finish_refresh\<close>. In a run the parts of several calls, resets and panics of the port interleave. Times are of the monotonic clock.
\<close>

section \<open>State\<close>

definition MAX_CONSECUTIVE_FAILURES :: u8 where "MAX_CONSECUTIVE_FAILURES = 3"
definition REFRESH_THRESHOLD_SECS :: int where "REFRESH_THRESHOLD_SECS = 300"

datatype RefreshOutcome = NotNeeded | Refreshed | Failed u8 | ReauthRequired | AlreadyInProgress | BackingOff

datatype TokenEvent = EvRefreshed string string | EvRefreshFailed string u8 u8 | EvReauthRequired string

record RefreshState =
  in_progress :: bool
  consecutive_transient_failures :: u8
  last_attempt :: "time option"
  backoff_until :: "time option"

definition refresh_state_new :: RefreshState where
  "refresh_state_new = \<lparr>in_progress = False, consecutive_transient_failures = 0, last_attempt = None, backoff_until = None\<rparr>"

definition backoff_duration :: "u8 \<Rightarrow> int option" where
  "backoff_duration failures = (if failures = 1 then Some (secs 120) else if failures = 2 then Some (secs 300) else None)"

definition year :: int where "year = secs (86400 * 365)"

definition coordinator_reset :: "RefreshState \<Rightarrow> RefreshState" where
  "coordinator_reset st =
     st\<lparr>in_progress := False, consecutive_transient_failures := 0, last_attempt := None, backoff_until := None\<rparr>"

section \<open>A call\<close>

text \<open>The first part: an answer at once, or \<open>None\<close> when the port is called next. The clock is read at \<open>now\<close> and again at \<open>now'\<close>.\<close>

definition begin_refresh :: "time \<Rightarrow> time \<Rightarrow> RefreshState \<Rightarrow> RefreshOutcome option \<times> RefreshState" where
  "begin_refresh now now' st =
     (if in_progress st then (Some AlreadyInProgress, st)
      else case backoff_until st of
             Some until \<Rightarrow>
               if now < until then (Some BackingOff, st)
               else (None, st\<lparr>backoff_until := None, in_progress := True, last_attempt := Some now'\<rparr>)
           | None \<Rightarrow> (None, st\<lparr>in_progress := True, last_attempt := Some now'\<rparr>))"

definition handle_transient_failure :: "time \<Rightarrow> string \<Rightarrow> RefreshState \<Rightarrow> RefreshOutcome \<times> TokenEvent \<times> RefreshState" where
  "handle_transient_failure now provider_id st =
     (let attempt = consecutive_transient_failures st + 1; st = st\<lparr>consecutive_transient_failures := attempt\<rparr>
      in if MAX_CONSECUTIVE_FAILURES \<le> attempt
         then (ReauthRequired, EvReauthRequired provider_id, st\<lparr>backoff_until := Some (now + year)\<rparr>)
         else let backoff = (case backoff_duration attempt of Some d \<Rightarrow> d | None \<Rightarrow> secs 120)
              in (Failed attempt, EvRefreshFailed provider_id attempt MAX_CONSECUTIVE_FAILURES, st\<lparr>backoff_until := Some (now + backoff)\<rparr>))"

definition finish_refresh ::
  "time \<Rightarrow> string \<Rightarrow> CoreError + RefreshResult \<Rightarrow> RefreshState \<Rightarrow> RefreshOutcome \<times> TokenEvent option \<times> RefreshState" where
  "finish_refresh now provider_id result st =
     (let st = st\<lparr>in_progress := False\<rparr>;
          transient = (case handle_transient_failure now provider_id st of (out, ev, st) \<Rightarrow> (out, Some ev, st));
          reauth = (ReauthRequired, Some (EvReauthRequired provider_id), st\<lparr>backoff_until := Some (now + year)\<rparr>)
      in case result of
           Inr (AlreadyFresh _) \<Rightarrow>
             (NotNeeded, None,
              if 0 < consecutive_transient_failures st then st\<lparr>consecutive_transient_failures := 0, backoff_until := None\<rparr> else st)
         | Inr (RefreshedUntil expires_at) \<Rightarrow>
             (Refreshed, Some (EvRefreshed provider_id expires_at), st\<lparr>consecutive_transient_failures := 0, backoff_until := None\<rparr>)
         | Inr NotAuthenticated \<Rightarrow> reauth
         | Inr (ReauthNeeded _ _) \<Rightarrow> reauth
         | Inr (TransientFailure _ _) \<Rightarrow> transient
         | Inl _ \<Rightarrow> transient)"

definition check_and_refresh ::
  "time \<Rightarrow> time \<Rightarrow> time \<Rightarrow> (string \<Rightarrow> int \<Rightarrow> CoreError + RefreshResult) \<Rightarrow> string \<Rightarrow> RefreshState
     \<Rightarrow> RefreshOutcome \<times> TokenEvent option \<times> RefreshState" where
  "check_and_refresh now now' later port provider_id st =
     (case begin_refresh now now' st of
        (Some out, st) \<Rightarrow> (out, None, st)
      | (None, st) \<Rightarrow> finish_refresh later provider_id (port provider_id REFRESH_THRESHOLD_SECS) st)"

text \<open>The command that polls a flow resets the coordinator when it sees the completion.\<close>

definition oauth_flow_status :: "CoreError + OAuthFlowStatus \<Rightarrow> RefreshState option \<Rightarrow> RefreshState option" where
  "oauth_flow_status status coordinator =
     (case status of Inr Completed \<Rightarrow> map_option coordinator_reset coordinator | _ \<Rightarrow> coordinator)"

text \<open>The loop: an event asks the user to sign in, not more often than every five minutes.\<close>

definition OAUTH_REFRESH_INTERVAL_SECS :: u64 where "OAUTH_REFRESH_INTERVAL_SECS = 120"

definition oauth_loop_event :: "time \<Rightarrow> TokenEvent \<Rightarrow> time option \<Rightarrow> bool \<times> time option" where
  "oauth_loop_event now ev last_reauth_notify =
     (case ev of
        EvReauthRequired _ \<Rightarrow>
          let should_notify = (case last_reauth_notify of None \<Rightarrow> True | Some t \<Rightarrow> secs 300 < now - t)
          in if should_notify then (True, Some now) else (False, last_reauth_notify)
      | _ \<Rightarrow> (False, last_reauth_notify))"

section \<open>Runs\<close>

text \<open>\<open>calls\<close> are the calls that are waiting for the port; the history has the newest entry first.\<close>

datatype coord_entry = Called time string | Ended time RefreshOutcome | Crashed time | WasReset time

record refresh_coordinator =
  co_state :: RefreshState
  co_calls :: "string list"
  co_time :: time
  co_history :: "coord_entry list"

definition refresh_coordinator_new :: refresh_coordinator where
  "refresh_coordinator_new = \<lparr>co_state = refresh_state_new, co_calls = [], co_time = 0, co_history = []\<rparr>"

datatype coord_event = EvBegin time time string | EvFinish time nat "CoreError + RefreshResult" | EvPanic time nat | EvReset time

fun event_time :: "coord_event \<Rightarrow> time" where
  "event_time (EvBegin t t' p) = t"
| "event_time (EvFinish t i r) = t"
| "event_time (EvPanic t i) = t"
| "event_time (EvReset t) = t"

definition drop_call :: "nat \<Rightarrow> 'a list \<Rightarrow> 'a list" where "drop_call i xs = take i xs @ drop (Suc i) xs"

fun refresh_step :: "coord_event \<Rightarrow> refresh_coordinator \<Rightarrow> refresh_coordinator option" where
  "refresh_step (EvBegin t t' p) c =
     (if co_time c \<le> t \<and> t \<le> t'
      then (case begin_refresh t t' (co_state c) of
              (None, st) \<Rightarrow> Some (c\<lparr>co_state := st, co_calls := co_calls c @ [p], co_time := t', co_history := Called t p # co_history c\<rparr>)
            | (Some out, st) \<Rightarrow> Some (c\<lparr>co_state := st, co_time := t'\<rparr>))
      else None)"
| "refresh_step (EvFinish t i r) c =
     (if co_time c \<le> t \<and> i < length (co_calls c)
      then (case finish_refresh t (co_calls c ! i) r (co_state c) of
              (out, _, st) \<Rightarrow> Some (c\<lparr>co_state := st, co_calls := drop_call i (co_calls c), co_time := t, co_history := Ended t out # co_history c\<rparr>))
      else None)"
| "refresh_step (EvPanic t i) c =
     (if co_time c \<le> t \<and> i < length (co_calls c)
      then Some (c\<lparr>co_calls := drop_call i (co_calls c), co_time := t, co_history := Crashed t # co_history c\<rparr>)
      else None)"
| "refresh_step (EvReset t) c =
     (if co_time c \<le> t
      then Some (c\<lparr>co_state := coordinator_reset (co_state c), co_time := t, co_history := WasReset t # co_history c\<rparr>)
      else None)"

fun refresh_run :: "coord_event list \<Rightarrow> refresh_coordinator \<Rightarrow> refresh_coordinator option" where
  "refresh_run [] c = Some c"
| "refresh_run (e # es) c = (case refresh_step e c of None \<Rightarrow> None | Some c' \<Rightarrow> refresh_run es c')"

fun is_reset :: "coord_event \<Rightarrow> bool" where
  "is_reset (EvReset t) = True"
| "is_reset _ = False"

text \<open>How long the coordinator has to wait after an outcome; no limit after a crash.\<close>

definition pause_after :: "RefreshOutcome \<Rightarrow> int" where
  "pause_after out =
     (case out of
        Failed n \<Rightarrow> if n = 2 then secs 300 else secs 120
      | ReauthRequired \<Rightarrow> year
      | _ \<Rightarrow> 0)"

text \<open>
  The history is spaced: a call starts only after the pause of every earlier outcome, no call starts while another is under way, and
  none starts after a crash.
\<close>

fun attempts_spaced :: "coord_entry list \<Rightarrow> bool" where
  "attempts_spaced [] = True"
| "attempts_spaced (Called t p # h) =
     (attempts_spaced h \<and> list_all (\<lambda>x. case x of Ended s out \<Rightarrow> s + pause_after out \<le> t | Crashed s \<Rightarrow> False | _ \<Rightarrow> True) h
      \<and> (case h of Called s q # _ \<Rightarrow> False | _ \<Rightarrow> True))"
| "attempts_spaced (x # h) = attempts_spaced h"

section \<open>The invariant\<close>

definition has_crashed :: "coord_entry list \<Rightarrow> bool" where
  "has_crashed h = list_ex (\<lambda>x. case x of Crashed _ \<Rightarrow> True | _ \<Rightarrow> False) h"

definition call_on_top :: "coord_entry list \<Rightarrow> bool" where
  "call_on_top h = (case h of Called _ _ # _ \<Rightarrow> True | _ \<Rightarrow> False)"

definition waited :: "time \<Rightarrow> time option \<Rightarrow> coord_entry \<Rightarrow> bool" where
  "waited now until x =
     (case x of Ended s out \<Rightarrow> s + pause_after out \<le> now \<or> (case until of Some u \<Rightarrow> s + pause_after out \<le> u | None \<Rightarrow> False) | _ \<Rightarrow> True)"

definition coord_ok :: "refresh_coordinator \<Rightarrow> bool" where
  "coord_ok c \<longleftrightarrow> length (co_calls c) \<le> 1 \<and> (in_progress (co_state c) \<longleftrightarrow> co_calls c \<noteq> [] \<or> has_crashed (co_history c))
     \<and> (call_on_top (co_history c) \<longleftrightarrow> co_calls c \<noteq> []) \<and> attempts_spaced (co_history c)
     \<and> list_all (waited (co_time c) (if co_calls c = [] then backoff_until (co_state c) else None)) (co_history c)"

lemma coord_ok_new: "coord_ok refresh_coordinator_new"
  by (simp add: coord_ok_def refresh_coordinator_new_def refresh_state_new_def has_crashed_def call_on_top_def)

lemma waited_later: "waited now until x \<Longrightarrow> now \<le> t \<Longrightarrow> waited t until x"
  by (cases x) (auto simp: waited_def split: option.splits)

lemma waited_over: "waited now until x \<Longrightarrow> now \<le> t \<Longrightarrow> (case until of Some u \<Rightarrow> u \<le> t | None \<Rightarrow> True) \<Longrightarrow> waited t None x"
  by (cases x) (auto simp: waited_def split: option.splits)

lemma waited_None: "waited now None x \<Longrightarrow> now \<le> t \<Longrightarrow> waited t until x"
  by (cases x) (auto simp: waited_def split: option.splits)

lemma all_waited_later: "list_all (waited now until) h \<Longrightarrow> now \<le> t \<Longrightarrow> list_all (waited t until) h"
  by (erule list.pred_mono_strong) (rule waited_later)

lemma all_waited_over:
  "list_all (waited now until) h \<Longrightarrow> now \<le> t \<Longrightarrow> (case until of Some u \<Rightarrow> u \<le> t | None \<Rightarrow> True) \<Longrightarrow> list_all (waited t None) h"
  by (erule list.pred_mono_strong) (rule waited_over)

lemma all_waited_None: "list_all (waited now None) h \<Longrightarrow> now \<le> t \<Longrightarrow> list_all (waited t until) h"
  by (erule list.pred_mono_strong) (rule waited_None)

lemma attempts_spaced_Called:
  "attempts_spaced (Called t p # h) \<longleftrightarrow> attempts_spaced h \<and> list_all (waited t None) h \<and> \<not> has_crashed h \<and> \<not> call_on_top h"
proof -
  have "list_all (\<lambda>x. case x of Ended s out \<Rightarrow> s + pause_after out \<le> t | Crashed s \<Rightarrow> False | _ \<Rightarrow> True) h \<longleftrightarrow>
      list_all (waited t None) h \<and> \<not> has_crashed h"
    by (induction h) (auto simp: waited_def has_crashed_def split: coord_entry.splits)
  then show ?thesis by (auto simp: call_on_top_def split: list.splits coord_entry.splits)
qed

lemma begin_refresh_None:
  assumes "begin_refresh t t' st = (None, st')"
  shows "\<not> in_progress st \<and> in_progress st' \<and> (case backoff_until st of Some u \<Rightarrow> u \<le> t | None \<Rightarrow> True)"
  using assms by (auto simp: begin_refresh_def split: if_splits option.splits)

lemma begin_refresh_Some: "begin_refresh t t' st = (Some out, st') \<Longrightarrow> st' = st"
  by (auto simp: begin_refresh_def split: if_splits option.splits)

text \<open>After its outcome the coordinator waits at least the pause of the outcome.\<close>

lemma finish_refresh_waits:
  assumes "finish_refresh t p r st = (out, ev, st')"
  shows "\<not> in_progress st' \<and> waited t (backoff_until st') (Ended t out)"
proof -
  have transient: "\<not> in_progress st2 \<and> waited t (backoff_until st2) (Ended t out2)"
    if "handle_transient_failure t p (st\<lparr>in_progress := False\<rparr>) = (out2, ev2, st2)" for out2 ev2 st2
    using that by (auto simp: handle_transient_failure_def waited_def pause_after_def backoff_duration_def Let_def split: if_splits)
  show ?thesis using assms transient
    by (auto simp: finish_refresh_def waited_def pause_after_def Let_def split: sum.splits RefreshResult.splits prod.splits if_splits)
qed

lemma drop_call_single: "length xs \<le> 1 \<Longrightarrow> i < length xs \<Longrightarrow> drop_call i xs = []"
  by (cases xs) (auto simp: drop_call_def)

lemma attempts_spaced_Cons: "\<not> call_on_top [x] \<Longrightarrow> attempts_spaced (x # h) = attempts_spaced h"
  by (cases x) (simp_all add: call_on_top_def)

lemma coord_ok_begin:
  assumes "coord_ok c" and "refresh_step (EvBegin t t' p) c = Some c'"
  shows "coord_ok c'"
proof (cases "fst (begin_refresh t t' (co_state c))")
  case None
  then obtain st where st: "begin_refresh t t' (co_state c) = (None, st)" by (metis prod.collapse)
  note b = begin_refresh_None [OF st]
  have idle: "co_calls c = []" "\<not> has_crashed (co_history c)" using assms(1) b by (auto simp: coord_ok_def)
  have time: "co_time c \<le> t" "t \<le> t'" using assms(2) by (auto split: if_splits)
  have "list_all (waited t None) (co_history c)"
    using assms(1) idle(1) b time(1) by (auto simp: coord_ok_def intro: all_waited_over)
  moreover have "list_all (waited t' None) (co_history c)"
    using calculation time(2) by (rule all_waited_later)
  ultimately show ?thesis using assms st idle b time
    by (auto simp: coord_ok_def attempts_spaced_Called has_crashed_def call_on_top_def waited_def simp del: attempts_spaced.simps)
next
  case (Some out)
  then have "c' = c\<lparr>co_time := t'\<rparr>" "co_time c \<le> t'"
    using assms(2) by (auto split: if_splits prod.splits dest: begin_refresh_Some)
  then show ?thesis using assms(1) by (auto simp: coord_ok_def intro: all_waited_later)
qed

lemma coord_ok_finish:
  assumes "coord_ok c" and "refresh_step (EvFinish t i r) c = Some c'"
  shows "coord_ok c'"
proof -
  obtain out ev st where f: "finish_refresh t (co_calls c ! i) r (co_state c) = (out, ev, st)" by (metis prod_cases3)
  have i: "i < length (co_calls c)" "co_time c \<le> t" using assms(2) by (auto split: if_splits)
  have top: "call_on_top (co_history c)" "attempts_spaced (co_history c)" using assms(1) i(1) by (auto simp: coord_ok_def)
  then have "\<not> has_crashed (co_history c)"
    by (cases "co_history c") (auto simp: call_on_top_def attempts_spaced_Called has_crashed_def simp del: attempts_spaced.simps split: coord_entry.splits)
  moreover have "list_all (waited t (backoff_until st)) (co_history c)"
    using assms(1) i by (auto simp: coord_ok_def intro: all_waited_None)
  ultimately show ?thesis using assms f i top finish_refresh_waits [OF f]
    by (auto simp: coord_ok_def drop_call_single attempts_spaced_Cons has_crashed_def call_on_top_def)
qed

lemma coord_ok_panic:
  assumes "coord_ok c" and "refresh_step (EvPanic t i) c = Some c'"
  shows "coord_ok c'"
proof -
  have i: "i < length (co_calls c)" "co_time c \<le> t"
    "c' = c\<lparr>co_calls := drop_call i (co_calls c), co_time := t, co_history := Crashed t # co_history c\<rparr>"
    using assms(2) by (auto split: if_splits)
  then have "list_all (waited t (backoff_until (co_state c))) (co_history c)"
    using assms(1) by (auto simp: coord_ok_def intro: all_waited_None)
  then show ?thesis using assms(1) i
    by (auto simp: coord_ok_def drop_call_single attempts_spaced_Cons has_crashed_def call_on_top_def waited_def)
qed

lemma refresh_run_ok: "refresh_run es c = Some c' \<Longrightarrow> coord_ok c \<Longrightarrow> list_all (\<lambda>e. \<not> is_reset e) es \<Longrightarrow> coord_ok c'"
proof (induction es arbitrary: c)
  case (Cons e es)
  then obtain c1 where c1: "refresh_step e c = Some c1" "refresh_run es c1 = Some c'" by (auto split: option.splits)
  have "coord_ok c1"
    using c1(1) Cons.prems by (cases e) (auto intro: coord_ok_begin coord_ok_finish coord_ok_panic simp del: refresh_step.simps)
  then show ?case using Cons.IH [OF c1(2)] Cons.prems(3) by simp
qed simp

section \<open>Properties\<close>

text \<open>C35: Refresh attempts are one at a time and spaced. In every run without a reset, of any number of interleaved calls with any results
  and panics of the port, at most one call waits for the port, and a call reaches the port only when the pause of every earlier
  outcome is over: two minutes after a first failure, five after a second, and a year after the user was asked to sign in.
\<close>

theorem refresh_attempts_spaced:
  assumes "refresh_run es refresh_coordinator_new = Some c" and "list_all (\<lambda>e. \<not> is_reset e) es"
  shows "length (co_calls c) \<le> 1 \<and> attempts_spaced (co_history c)"
  using refresh_run_ok [OF assms(1) coord_ok_new assms(2)] by (simp add: coord_ok_def)

lemma small_attempts [simp]: "\<not> (3 :: u8) \<le> 1" "\<not> (3 :: u8) \<le> 2"
  by (simp_all add: word_le_nat_alt)

definition sample_events :: "coord_event list" where
  "sample_events = [EvBegin 0 0 ''openai'', EvFinish (secs 1) 0 (Inr (TransientFailure ServerError [])), EvBegin (secs 60) (secs 60) ''openai'',
     EvBegin (secs 121) (secs 121) ''openai'']"

lemma sample_events_run:
  "map_option co_history (refresh_run sample_events refresh_coordinator_new) =
     Some [Called (secs 121) ''openai'', Ended (secs 1) (Failed 1), Called 0 ''openai'']"
  by (simp add: sample_events_def refresh_coordinator_new_def refresh_state_new_def begin_refresh_def finish_refresh_def
      handle_transient_failure_def backoff_duration_def MAX_CONSECUTIVE_FAILURES_def drop_call_def secs_def nanos_per_sec_def)

theorem refresh_attempts_spaced_witness:
  "\<exists>c. refresh_run sample_events refresh_coordinator_new = Some c \<and> length (co_calls c) \<le> 1 \<and>
     attempts_spaced [Called (secs 121) ''openai'', Ended (secs 1) (Failed 1), Called 0 ''openai'']"
proof -
  obtain c where c: "refresh_run sample_events refresh_coordinator_new = Some c"
    "co_history c = [Called (secs 121) ''openai'', Ended (secs 1) (Failed 1), Called 0 ''openai'']"
    using sample_events_run by auto
  from refresh_attempts_spaced [OF c(1)] c show ?thesis by (simp add: sample_events_def)
qed

text \<open>
  Three failures in a row that retrying might cure end in a request to sign in; the pauses in between are two and five minutes.
\<close>

lemma transient_finish:
  "finish_refresh now p (Inr (TransientFailure kind msg)) st =
     (case handle_transient_failure now p (st\<lparr>in_progress := False\<rparr>) of (out, ev, st) \<Rightarrow> (out, Some ev, st))"
  by (simp add: finish_refresh_def)

theorem third_failure_asks_to_sign_in:
  assumes port: "port p REFRESH_THRESHOLD_SECS = Inr (TransientFailure kind msg)"
    and st: "\<not> in_progress st" "consecutive_transient_failures st = 0" "backoff_until st = None"
    and pause: "t1' + secs 120 \<le> t2" "t2' + secs 300 \<le> t3"
  shows "\<exists>st1 st2 st3. check_and_refresh t1 t1 t1' port p st = (Failed 1, Some (EvRefreshFailed p 1 3), st1)
    \<and> check_and_refresh t2 t2 t2' port p st1 = (Failed 2, Some (EvRefreshFailed p 2 3), st2)
    \<and> check_and_refresh t3 t3 t3' port p st2 = (ReauthRequired, Some (EvReauthRequired p), st3)
    \<and> backoff_until st3 = Some (t3' + year)"
  using assms
  by (simp add: check_and_refresh_def begin_refresh_def transient_finish handle_transient_failure_def backoff_duration_def
      MAX_CONSECUTIVE_FAILURES_def Let_def)

section \<open>What a reset and a panic break\<close>

text \<open>A reset while a refresh is under way lets a second one start beside it.\<close>

theorem reset_lets_refreshes_overlap:
  "map_option co_calls (refresh_run [EvBegin 0 0 ''openai'', EvReset 1, EvBegin 2 2 ''openai''] refresh_coordinator_new) =
     Some [''openai'', ''openai'']"
  by (simp add: refresh_coordinator_new_def refresh_state_new_def begin_refresh_def coordinator_reset_def)

text \<open>
  The failure of a refresh that was under way while the user signed in again is booked after the reset: automatic refreshing then stops
  for a year although the sign-in succeeded.
\<close>

theorem stale_failure_blocks_after_sign_in:
  assumes "0 \<le> t0" "t0 \<le> t1" "t1 \<le> t2" "t2 \<le> t3" "t3 < t2 + year"
  shows "\<exists>c. refresh_run [EvBegin t0 t0 p, EvReset t1, EvFinish t2 0 (Inr (ReauthNeeded InvalidGrant msg))] refresh_coordinator_new = Some c
    \<and> fst (begin_refresh t3 t3 (co_state c)) = Some BackingOff"
  using assms by (simp add: refresh_coordinator_new_def refresh_state_new_def begin_refresh_def coordinator_reset_def finish_refresh_def drop_call_def)

text \<open>After a panic of the port no later call reaches it, until the user signs in again.\<close>

lemma blocked_step:
  assumes "in_progress (co_state c)" and "co_calls c = []" and "refresh_step e c = Some c'" and "\<not> is_reset e"
  shows "in_progress (co_state c') \<and> co_calls c' = [] \<and> co_history c' = co_history c"
  using assms by (cases e) (auto simp: begin_refresh_def split: if_splits)

theorem panicked_refresh_blocks:
  assumes "refresh_run es c = Some c'" and "in_progress (co_state c)" and "co_calls c = []" and "list_all (\<lambda>e. \<not> is_reset e) es"
  shows "co_history c' = co_history c"
  using assms
proof (induction es arbitrary: c)
  case (Cons e es)
  then obtain c1 where "refresh_step e c = Some c1" "refresh_run es c1 = Some c'" by (auto split: option.splits)
  with Cons show ?case using blocked_step [of c e c1] by auto
qed simp

text \<open>
  The client answers that the token is fresh when another of its tasks is refreshing, and the coordinator takes that for a recovery: the
  failures counted so far are forgotten.
\<close>

theorem busy_client_clears_failures:
  assumes "refresh_in_progress w" and "op_retrieve ops io p ''access_token'' (w_store w) = Inr (Some tok)"
    and "0 < consecutive_transient_failures st"
  shows "solo ops [AnIo io, AnNone] (refresh_access_token env ps p n) w =
      Some (Done (RRefresh (Inr (AlreadyFresh []))), w\<lparr>refresh_in_progress := True\<rparr>)
    \<and> (\<exists>st'. finish_refresh now p (Inr (AlreadyFresh [])) st = (NotNeeded, None, st') \<and> consecutive_transient_failures st' = 0)"
  using assms by (simp add: refresh_access_token_def advance_def on_ok_def finish_refresh_def)

text \<open>A reply that announces an enormous lifetime makes the client panic, and the panic leaves the guard of the client free.\<close>

theorem huge_lifetime_panics:
  assumes "\<And>t. env_add_secs env t (sint n) = None" and "tok_expires_in tok = Some n" and "tok_refresh_token tok = None"
    and "op_store ops io p ''access_token'' (tok_access_token tok) (w_store w) = (Inr (), s)"
  shows "solo ops [AnIo io, AnTime t, AnNone] (store_tokens_static env p tok (Release Panicked) k) w =
    Some (Panicked, w\<lparr>w_store := s, refresh_in_progress := False\<rparr>)"
  using assms by (simp add: store_tokens_static_def store_if_def advance_def on_ok_def)

text \<open>A flow that was cancelled late does not reset the coordinator.\<close>

theorem cancelled_flow_keeps_backoff: "oauth_flow_status (Inr Cancelled) (Some st) = Some st"
  by (simp add: oauth_flow_status_def)

end
