(* ===== verification/Spec2Isabelle.thy ===== *)
theory Spec2Isabelle
  imports SyncEngine ExecutionGate CircuitBreaker SuggestionFlow GuiRuns IntegrationInbox BatchUploader TrackingSchedule
    PrivacyRedaction UpdateOffers FrameRuns CoachingRuns RefreshCoordinator
begin

text \<open>
  A verification development for the ONESHIM desktop client (Rust workspace under \<open>src/crates\<close> and
  \<open>src/src-tauri\<close>). The client records desktop activity into a local SQLite database, synchronizes part
  of it between a user's devices, shows suggestions it receives from a server, exchanges insights and prompts with
  an integration backend, and executes automation commands under policies. The theories model the parts that carry this logic; definitions keep the names of the sources
  where Isabelle allows it, and each theory opens with the files it models.

  \<^bold>\<open>Cross-device synchronization\<close> (\<open>oneshim-core/src/sync\<close>, \<open>oneshim-storage/src/sync_merger.rs\<close>,
  \<open>sync_extractor.rs\<close>, \<open>src-tauri/src/sync_engine.rs\<close>, \<open>oneshim-core/src/consent.rs\<close>).
  \<^item> \<open>HybridClock\<close>: the hybrid logical clock at its 64- and 32-bit widths, with wrap-around. Causality is respected on
    any run of a network of clocks, and a merge is monotone and bounded by the drift limit.
  \<^item> \<open>JsonValue\<close>, \<open>SqlModel\<close>: the JSON values on the wire and the part of SQL the code uses (typed columns,
    parameters, constraints, row queries, update, insert, delete) as functions on a database value, errors as values.
  \<^item> \<open>SyncMerger\<close>: one definition per merged table and the change-set loop. \<open>LwwTable\<close> has the locales \<open>lww_table\<close> and
    \<open>lww_replica\<close>, the contract of a last-writer-wins table and what follows for replicas that receive the same rows in any
    order; \<open>SyncConvergence\<close> interprets them on the regime and suggestion merges, and \<open>SyncProperties\<close> states the
    convergence results. \<open>SyncOutcomes\<close> covers counting, refusals and the deletion event.
  \<^item> \<open>SyncExtractor\<close>: the queries that collect what a peer lacks; extraction is exact, and extracting on one device and
    merging on another makes the second catch up.
  \<^item> \<open>Consent\<close>, \<open>SyncEngine\<close>: the consent record with its file, and the sync cycle over transports that are arguments.
    The pull loop is a \<open>partial_function\<close> (it may run for ever when a peer always has another page); it is proved to return when
    the peer's pages are finitely many.

  \<^bold>\<open>Automation\<close> (\<open>oneshim-automation/src\<close>).
  \<^item> \<open>ByteString\<close>, \<open>PolicyToken\<close>, \<open>PolicyClient\<close>: what the code uses of byte strings, the token format with its signature,
    and the policy cache with single-use tokens.
  \<^item> \<open>BoundedFifo\<close>, \<open>AuditLog\<close>: the locale \<open>bounded_fifo\<close> for buffers that drop their oldest element, interpreted on the audit
    buffer (and, in \<open>SuggestionFlow\<close>, on three more), and the audit logger with its queries.
  \<^item> \<open>ExecutionGate\<close>: sandbox resolution, the execution gate, command and workflow execution, confirmations and policy DTOs.
  \<^item> \<open>GuiTicket\<close>, \<open>GuiSession\<close>, \<open>GuiRuns\<close>: GUI interaction sessions. Methods are split where they release the lock of the session
    table, and \<open>GuiRuns\<close> has a step relation in which calls overlap: a ticket runs at most once and every plan is authorized in
    every reachable state, while a cancelled session can come back.

  \<^bold>\<open>Suggestions\<close> (\<open>oneshim-suggestion/src\<close>, \<open>src-tauri/src/scheduler/loops/suggestions.rs\<close>).
  \<^item> \<open>SuggestionQueue\<close>: the priority queue, refined to sorting and cutting off, its invariant, and the exact condition under which
    \<open>push\<close> panics.
  \<^item> \<open>SuggestionFlow\<close>: deferral, history, retry queue, scorer, receiver and maintenance round. \<open>f64\<close> arithmetic is rounded to 53 bits,
    and the scorer is shown to decide as exact arithmetic would; the retry queue drains.

  \<^bold>\<open>Integration with a backend\<close> (\<open>oneshim-storage/src/integration_state_store\<close>, \<open>oneshim-network/src/integration\<close>,
  \<open>src-tauri/src/integration_policy.rs\<close>, \<open>oneshim-network/src/resilience.rs\<close>).
  \<^item> \<open>CoreErrors\<close>, \<open>IntegrationStore\<close>: the error types, the messages, and the registry of session, outbox, inbox, checkpoints and
    audit records with its file; a failing write changes the memory and not the file, as in the code.
  \<^item> \<open>IntegrationFlow\<close>: the session, egress, policy, inbox and producer coordinators and the cycles, in a state and error monad
    (\<open>ibind\<close> is the question mark of Rust). Calls are split where they wait for the transport.
  \<^item> \<open>IntegrationRuns\<close>: runs with batches on their way, failing writes and restarts. The locale \<open>store_rel\<close> carries a relation on
    stores through every call, \<open>call_rel\<close> extends it by the operations that add messages or change the inbox, and \<open>call_inv\<close> is the
    sublocale for invariants. \<open>IntegrationProperties\<close> and \<open>IntegrationInbox\<close> interpret them: messages are kept until acknowledged, only
    allowed payloads leave, the inbox is bounded and evicts completed prompts first, a working transport empties the outbox; and a
    redelivered prompt gets its redacted body back.
  \<^item> \<open>IntegrationLoop\<close>: the retry gate with its jittered delays, lane telemetry and the arms of the runtime loop; delays are bounded,
    a blocked lane stays idle, and a rate limit beyond the range of instants panics.

  \<^bold>\<open>Uploads\<close> (\<open>oneshim-network/src/circuit_breaker.rs\<close>, \<open>batch_uploader.rs\<close>). \<open>CircuitBreaker\<close> is a state machine with its reachable
  states, and the registry whose handles share state. \<open>BatchUploader\<close> is the event queue over it: every event is accounted for in
  any interleaving of enqueues and flushes, while one call can exceed the capacity.

  \<^bold>\<open>Capture gate\<close> (\<open>oneshim-core/src/config/sections/tracking_schedule.rs\<close>, \<open>src-tauri/src/scheduler\<close>). \<open>TrackingSchedule\<close>: mute
  windows, equal to the set of their occurrences; the gate, the notices and the status with its minute-by-minute walks, which are
  \<open>function\<close>s with a measure; and the gate's disregard of the configured zone.

  \<^bold>\<open>Privacy\<close> (\<open>oneshim-vision/src/privacy.rs\<close>, \<open>privacy_gateway.rs\<close>).
  \<^item> \<open>PiiText\<close>, \<open>PiiMask\<close>, \<open>PiiFilter\<close>: texts as code points with the byte offsets of \<open>str\<close>, one definition per mask (its loop and
    what it recognises), the filter levels, markers and exclusion rules. The loops over key prefixes and bearer tokens are
    \<open>partial_function\<close>s; the first is proved to return for the prefixes of the code, the second on ASCII text.
  \<^item> \<open>PiiScan\<close> has the locales \<open>clean_scanner\<close> (a loop whose output holds nothing its matcher recognises) and \<open>isolated_token\<close>, a sublocale
    source for matchers of tokens that stand alone, interpreted on the masks for social security and passport numbers. \<open>PiiTotal\<close> shows
    when the masks return, with the locale \<open>ascii_matcher\<close> interpreted on four of them, and \<open>PiiProperties\<close> collects the results:
    when every level returns, what it leaves, the panics and the misses, and that exclusion patterns are globs.
  \<^item> \<open>PrivacyGateway\<close>, \<open>PrivacyRedaction\<close>: what may leave for external recognition, and the redaction of images. The pixels of every word
    found sensitive are pixels of the blur, for coordinates far from the 32-bit limits.

  \<^bold>\<open>Updates\<close> (\<open>src-tauri/src/update_coordinator.rs\<close>, \<open>update_runtime.rs\<close>, \<open>updater\<close>, \<open>app_runtime_launch_health_probe.rs\<close>).
  \<^item> \<open>UpdateCoordinator\<close>, \<open>UpdateRuns\<close>: the status, its writes and broadcasts and the handlers, with a log of the calls to the executor; the step
    relation over user actions, ticks, the startup check and rollback notices. Between two events no phase is busy; files that are
    installed were downloaded from offered addresses; without automatic mode only an approval installs.
  \<^item> \<open>UpdateSelect\<close>, \<open>UpdateOffers\<close>: release selection, staged rollout (FNV-1a at 64 bits), version floor, and what a verified download is.
  \<^item> \<open>UpdateInstall\<close>, \<open>UpdateProbe\<close>, \<open>UpdateProperties\<close>: installation, boot counter, healthy marker and rollback on the files of the install
    directory. Two failed boots after a versioned installation bring the old binary back, and the path the coordinator takes never arms
    this.

  \<^bold>\<open>Frame storage\<close> (\<open>oneshim-storage/src/frame_storage.rs\<close>, \<open>encryption.rs\<close>).
  \<^item> \<open>FrameStore\<close>: directories as trees with the answers of the operating system as arguments, walking, counting and removing them, and
    the sealing of files with its key file. \<open>FrameOps\<close>: the storage object with saving, loading, retention, limit and size tracker.
  \<^item> \<open>FrameProperties\<close>: names of days are ordered as dates; what retention and the limit leave. \<open>FrameRuns\<close>: the invariant of the frames
    directory and the size tracker through every operation, with the locale \<open>frame_storage_port\<close> for what the scheduler's maintenance
    pass relies on, interpreted on the file storage; retention by date, the limit, the round trip of a frame, and the two ways in
    which the limit goes wrong.

  \<^bold>\<open>Coaching\<close> (\<open>oneshim-analysis/src/coaching_engine\<close>, \<open>feedback_tracker.rs\<close>, \<open>regime_goal_tracker.rs\<close>, \<open>coaching_template\<close>,
  \<open>src-tauri/src/scheduler/loops/coaching_helper.rs\<close>).
  \<^item> \<open>CoachingModel\<close>: goals of the day, tunable parameters, the online regression, feedback scores and templates; \<open>CoachingEngine\<close>: guards,
    triggers, the evaluation and the tick of the monitor loop.
  \<^item> \<open>CoachingRuns\<close>: milestones are decided as whole-number arithmetic decides them, messages of a profile are spaced and snoozes
    respected in any sequence of calls; and what the code gets wrong: goals that never progress at the default poll interval, a second
    copy of the parameters that is never tuned, milestones lost to a guard.

  \<^bold>\<open>Credentials\<close> (\<open>oneshim-core/src/ports/secret_store.rs\<close>, \<open>oauth.rs\<close>, \<open>oneshim-storage/src/file_secret_store.rs\<close>,
  \<open>env_secret_store.rs\<close>, \<open>oneshim-network/src/oauth\<close>, and the command and the loop of \<open>src-tauri\<close> that use them).
  \<^item> \<open>SecretStore\<close>: names of secrets, the registry in a file with the outcome of every system call, and the environment. The locale
    \<open>secret_store_port\<close> is the contract of the port, interpreted on both; the file store refines a pair of tables, what it answers
    and what a restart finds.
  \<^item> \<open>OAuthModel\<close>: presets, PKCE, the callback page, replies of the token endpoint. \<open>OAuthClient\<close>: each operation as a finite tree of
    its suspension points, and their interleaving; the trees are finite, so no fuel is needed.
  \<^item> \<open>OAuthRuns\<close>, \<open>OAuthProperties\<close>: disciplines of the programs (locales \<open>discipline\<close> and \<open>refresh_discipline\<close>, interpreted for the guard,
    the lock and the namespaces) and what they give in every interleaving: one refresh at a time, no leaked guard, no deadlock.
  \<^item> \<open>OAuthTokens\<close>: weakest preconditions of the programs over the contract of the store; a refresh does what it reports, providers do
    not touch each other, and the interleavings in which revoked or cancelled credentials stay.
  \<^item> \<open>RefreshCoordinator\<close>: the two atomic parts of a call, their runs with resets and panics; attempts are single and spaced, and what a
    reset or a panic breaks.

  \<^bold>\<open>Conventions.\<close> Machine integers are words (\<open>Prelude\<close>); strings are their UTF-8 bytes (in the privacy theories their code points); times and durations are nanoseconds; a
  \<open>Result\<close> is a sum with the error on the left; a panic is \<open>None\<close> of an outer option where the code can panic. Clock readings, UUIDs,
  random numbers and the answers of ports (transports, probes, drivers, notifiers) are arguments. A method that holds its lock
  throughout is one step. Hash functions, HMAC, JSON rendering and Unicode case tables belong to other crates or to tables of the
  standard library: they are arguments, with no assumption except where a statement names one.

  \<^bold>\<open>Not modelled.\<close> Platform code (accessibility, input hooks, sandboxes, tray, overlay windows), screen capture, audio and OCR engines;
  model inference, embedding and clustering in floating point; the keychain of the operating system; HTTP, gRPC and SSE transports and the generated protocol code; the web
  dashboard and its frontend; database migrations; the wiring of the application. They are I/O or glue around the parts above, or code
  that calls libraries whose sources are not here.

  \<^bold>\<open>Planned next\<close>: focus rules, the delivery of prompts to the desktop, and the
  configuration manager.
\<close>

end
